(* ===== verification/Circuit_Breaker.thy ===== *)
theory Circuit_Breaker
  imports Yunt_Prelude
begin

text \<open>
  The database circuit breaker of \<^verbatim>\<open>internal/repository/circuitbreaker.go\<close>: its state, every method
  (each runs under the breaker's mutex and is one atomic step here), \<^verbatim>\<open>Execute\<close>, and the step
  relation of a breaker shared by concurrent callers. \<^verbatim>\<open>time.Now()\<close> is an argument. The callbacks
  that \<open>transition\<close> starts as goroutines are recorded, oldest first, in the field \<open>changes\<close>.
\<close>

section \<open>State\<close>

datatype CircuitState = CircuitClosed | CircuitOpen | CircuitHalfOpen

record CircuitBreakerConfig =
  FailureThreshold :: int
  ResetTimeout :: duration
  HalfOpenMaxRequests :: int

definition DefaultCircuitBreakerConfig :: CircuitBreakerConfig where
  "DefaultCircuitBreakerConfig =
     \<lparr>FailureThreshold = 5, ResetTimeout = 30 * Second, HalfOpenMaxRequests = 3\<rparr>"

record CircuitBreaker =
  cb_state :: CircuitState
  failures :: int
  successes :: int
  halfOpenRequests :: int
  lastFailure :: instant
  cb_config :: CircuitBreakerConfig
  onStateChange :: bool
  changes :: "(CircuitState \<times> CircuitState) list"

section \<open>Operations\<close>

text \<open>The zero \<^verbatim>\<open>time.Time\<close> of a fresh breaker is an argument: nothing reads it before a failure.\<close>

definition NewCircuitBreaker :: "instant \<Rightarrow> CircuitBreakerConfig \<Rightarrow> CircuitBreaker" where
  "NewCircuitBreaker zero cfg =
     (let cfg = (if FailureThreshold cfg \<le> 0 then cfg\<lparr>FailureThreshold := 5\<rparr> else cfg);
          cfg = (if ResetTimeout cfg \<le> 0 then cfg\<lparr>ResetTimeout := 30 * Second\<rparr> else cfg);
          cfg = (if HalfOpenMaxRequests cfg \<le> 0 then cfg\<lparr>HalfOpenMaxRequests := 3\<rparr> else cfg)
      in \<lparr>cb_state = CircuitClosed, failures = 0, successes = 0, halfOpenRequests = 0,
          lastFailure = zero, cb_config = cfg, onStateChange = False, changes = []\<rparr>)"

text \<open>The argument of \<^verbatim>\<open>OnStateChange\<close> is a function or nil; only which of the two matters here.\<close>

definition OnStateChange :: "bool \<Rightarrow> CircuitBreaker \<Rightarrow> CircuitBreaker" where
  "OnStateChange fn cb = cb\<lparr>onStateChange := fn\<rparr>"

definition transition :: "CircuitState \<Rightarrow> CircuitBreaker \<Rightarrow> CircuitBreaker" where
  "transition to cb =
     (let from = cb_state cb;
          cb = cb\<lparr>cb_state := to, failures := 0, successes := 0, halfOpenRequests := 0\<rparr>
      in if onStateChange cb \<and> from \<noteq> to then cb\<lparr>changes := changes cb @ [(from, to)]\<rparr> else cb)"

definition State :: "instant \<Rightarrow> CircuitBreaker \<Rightarrow> CircuitState" where
  "State now cb =
     (if cb_state cb = CircuitOpen \<and> since now (lastFailure cb) \<ge> ResetTimeout (cb_config cb)
      then CircuitHalfOpen else cb_state cb)"

definition Allow :: "instant \<Rightarrow> CircuitBreaker \<Rightarrow> bool \<times> CircuitBreaker" where
  "Allow now cb =
     (case cb_state cb of
        CircuitClosed \<Rightarrow> (True, cb)
      | CircuitOpen \<Rightarrow>
          (if since now (lastFailure cb) \<ge> ResetTimeout (cb_config cb)
           then (True, (transition CircuitHalfOpen cb)\<lparr>halfOpenRequests := 1\<rparr>)
           else (False, cb))
      | CircuitHalfOpen \<Rightarrow>
          (if halfOpenRequests cb < HalfOpenMaxRequests (cb_config cb)
           then (True, cb\<lparr>halfOpenRequests := halfOpenRequests cb + 1\<rparr>)
           else (False, cb)))"

definition RecordSuccess :: "CircuitBreaker \<Rightarrow> CircuitBreaker" where
  "RecordSuccess cb =
     (case cb_state cb of
        CircuitHalfOpen \<Rightarrow>
          (let cb = cb\<lparr>successes := successes cb + 1\<rparr>
           in if successes cb \<ge> HalfOpenMaxRequests (cb_config cb)
              then transition CircuitClosed cb else cb)
      | CircuitClosed \<Rightarrow> cb\<lparr>failures := 0\<rparr>
      | CircuitOpen \<Rightarrow> cb)"

definition RecordFailure :: "instant \<Rightarrow> CircuitBreaker \<Rightarrow> CircuitBreaker" where
  "RecordFailure now cb =
     (let cb = cb\<lparr>lastFailure := now\<rparr>
      in case cb_state cb of
           CircuitClosed \<Rightarrow>
             (let cb = cb\<lparr>failures := failures cb + 1\<rparr>
              in if failures cb \<ge> FailureThreshold (cb_config cb)
                 then transition CircuitOpen cb else cb)
         | CircuitHalfOpen \<Rightarrow> transition CircuitOpen cb
         | CircuitOpen \<Rightarrow> cb)"

text \<open>
  \<^verbatim>\<open>Execute\<close> with the clock read by \<^verbatim>\<open>Allow\<close>, the outcome of \<open>fn\<close> and the clock read by
  \<^verbatim>\<open>RecordFailure\<close> as arguments; no other caller runs in between.
\<close>

datatype 'e exec_error = ErrCircuitOpen | FnError 'e

definition Execute ::
  "instant \<Rightarrow> 'e option \<Rightarrow> instant \<Rightarrow> CircuitBreaker \<Rightarrow> 'e exec_error option \<times> CircuitBreaker" where
  "Execute now fn now' cb =
     (case Allow now cb of
        (False, cb) \<Rightarrow> (Some ErrCircuitOpen, cb)
      | (True, cb) \<Rightarrow>
          (case fn of
             Some e \<Rightarrow> (Some (FnError e), RecordFailure now' cb)
           | None \<Rightarrow> (None, RecordSuccess cb)))"

definition Reset :: "CircuitBreaker \<Rightarrow> CircuitBreaker" where
  "Reset cb = transition CircuitClosed cb"

lemmas cb_defs = Allow_def RecordSuccess_def RecordFailure_def Reset_def OnStateChange_def
  transition_def Let_def

section \<open>A breaker shared by concurrent callers\<close>

text \<open>
  The system state is the breaker and the number of admitted calls that have not reported back. A
  caller is admitted, later reports success or failure, or never reports (a panic in \<open>fn\<close> leaves
  \<^verbatim>\<open>Execute\<close> without a record). The clock of a step is unconstrained.
\<close>

record cb_sys =
  breaker :: CircuitBreaker
  in_flight :: nat

inductive cb_step :: "cb_sys \<Rightarrow> cb_sys \<Rightarrow> bool" where
  admit: "Allow now (breaker s) = (True, cb) \<Longrightarrow>
     cb_step s \<lparr>breaker = cb, in_flight = Suc (in_flight s)\<rparr>"
| refuse: "Allow now (breaker s) = (False, cb) \<Longrightarrow> cb_step s (s\<lparr>breaker := cb\<rparr>)"
| success: "in_flight s = Suc n \<Longrightarrow>
     cb_step s \<lparr>breaker = RecordSuccess (breaker s), in_flight = n\<rparr>"
| failure: "in_flight s = Suc n \<Longrightarrow>
     cb_step s \<lparr>breaker = RecordFailure now (breaker s), in_flight = n\<rparr>"
| lost: "in_flight s = Suc n \<Longrightarrow> cb_step s (s\<lparr>in_flight := n\<rparr>)"
| reset: "cb_step s (s\<lparr>breaker := Reset (breaker s)\<rparr>)"
| register: "cb_step s (s\<lparr>breaker := OnStateChange fn (breaker s)\<rparr>)"

definition cb_init :: "cb_sys \<Rightarrow> bool" where
  "cb_init s \<longleftrightarrow> (\<exists>zero cfg. s = \<lparr>breaker = NewCircuitBreaker zero cfg, in_flight = 0\<rparr>)"

text \<open>What the counters of a breaker satisfy in each state.\<close>

definition config_ok :: "CircuitBreakerConfig \<Rightarrow> bool" where
  "config_ok c \<longleftrightarrow> 0 < FailureThreshold c \<and> 0 < ResetTimeout c \<and> 0 < HalfOpenMaxRequests c"

definition breaker_ok :: "CircuitBreaker \<Rightarrow> bool" where
  "breaker_ok cb \<longleftrightarrow> config_ok (cb_config cb) \<and>
     (case cb_state cb of
        CircuitClosed \<Rightarrow> 0 \<le> failures cb \<and> failures cb < FailureThreshold (cb_config cb) \<and>
          successes cb = 0 \<and> halfOpenRequests cb = 0
      | CircuitOpen \<Rightarrow> failures cb = 0 \<and> successes cb = 0 \<and> halfOpenRequests cb = 0
      | CircuitHalfOpen \<Rightarrow> failures cb = 0 \<and>
          0 \<le> successes cb \<and> successes cb < HalfOpenMaxRequests (cb_config cb) \<and>
          1 \<le> halfOpenRequests cb \<and> halfOpenRequests cb \<le> HalfOpenMaxRequests (cb_config cb))"

definition sys_ok :: "cb_sys \<Rightarrow> bool" where
  "sys_ok s \<longleftrightarrow> breaker_ok (breaker s)"

lemma NewCircuitBreaker_ok: "breaker_ok (NewCircuitBreaker zero cfg)"
  by (simp add: NewCircuitBreaker_def breaker_ok_def config_ok_def Let_def Second_def)

lemma transition_config [simp]: "cb_config (transition to cb) = cb_config cb"
  by (simp add: transition_def Let_def)

lemma Allow_ok: "breaker_ok cb \<Longrightarrow> breaker_ok (snd (Allow now cb))"
  by (auto simp: cb_defs breaker_ok_def config_ok_def split: CircuitState.splits)

lemma RecordSuccess_ok: "breaker_ok cb \<Longrightarrow> breaker_ok (RecordSuccess cb)"
  by (auto simp: cb_defs breaker_ok_def config_ok_def split: CircuitState.splits)

lemma RecordFailure_ok: "breaker_ok cb \<Longrightarrow> breaker_ok (RecordFailure now cb)"
  by (auto simp: cb_defs breaker_ok_def config_ok_def split: CircuitState.splits)

lemma Reset_ok: "breaker_ok cb \<Longrightarrow> breaker_ok (Reset cb)"
  by (auto simp: cb_defs breaker_ok_def config_ok_def)

lemma OnStateChange_ok: "breaker_ok cb \<Longrightarrow> breaker_ok (OnStateChange fn cb)"
  by (auto simp: OnStateChange_def breaker_ok_def split: CircuitState.splits)

lemma Allow_okD: "Allow now cb = (r, cb') \<Longrightarrow> breaker_ok cb \<Longrightarrow> breaker_ok cb'"
  using Allow_ok [of cb now] by simp

lemmas breaker_ops_ok = Allow_ok RecordSuccess_ok RecordFailure_ok Reset_ok OnStateChange_ok

interpretation cb: invariant_system cb_init cb_step sys_ok
proof unfold_locales
  fix s :: cb_sys
  show "cb_init s \<Longrightarrow> sys_ok s"
    by (auto simp: cb_init_def sys_ok_def NewCircuitBreaker_ok)
next
  fix s t :: cb_sys
  assume "sys_ok s" and "cb_step s t"
  from \<open>cb_step s t\<close> show "sys_ok t"
    using \<open>sys_ok s\<close>
    by cases (auto simp: sys_ok_def breaker_ops_ok dest: Allow_okD)
qed

section \<open>Sequences of calls\<close>

text \<open>A caller that runs \<^verbatim>\<open>Execute\<close> again and again: the outcomes and the final breaker.\<close>

fun exec_all ::
  "(instant \<times> 'e option \<times> instant) list \<Rightarrow> CircuitBreaker \<Rightarrow> 'e exec_error option list \<times> CircuitBreaker" where
  "exec_all [] cb = ([], cb)"
| "exec_all ((now, fn, now') # cs) cb =
     (let (r, cb1) = Execute now fn now' cb; (rs, cb2) = exec_all cs cb1 in (r # rs, cb2))"

lemmas exec_defs = Execute_def Allow_def RecordSuccess_def RecordFailure_def transition_def Let_def

lemma exec_fail_closed:
  assumes "cb_state cb = CircuitClosed"
  shows "Execute now (Some e) now' cb =
    (Some (FnError e),
     let cb = cb\<lparr>lastFailure := now', failures := failures cb + 1\<rparr>
     in if failures cb \<ge> FailureThreshold (cb_config cb) then transition CircuitOpen cb else cb)"
  using assms by (simp add: Execute_def Allow_def RecordFailure_def Let_def)

lemma exec_fails_closed:
  assumes "cb_state cb = CircuitClosed"
    and "failures cb + int (length cs) < FailureThreshold (cb_config cb)"
    and "\<forall>(_, fn, _) \<in> set cs. fn \<noteq> None"
  shows "cb_state (snd (exec_all cs cb)) = CircuitClosed \<and>
         failures (snd (exec_all cs cb)) = failures cb + int (length cs) \<and>
         cb_config (snd (exec_all cs cb)) = cb_config cb"
  using assms
proof (induction cs arbitrary: cb)
  case (Cons c cs)
  obtain now fn now' where c: "c = (now, fn, now')" by (cases c)
  from Cons.prems(3) obtain e where fn: "fn = Some e" by (auto simp: c)
  let ?cb = "cb\<lparr>lastFailure := now', failures := failures cb + 1\<rparr>"
  have step: "Execute now fn now' cb = (Some (FnError e), ?cb)"
    using Cons.prems(1,2) by (simp add: fn exec_fail_closed)
  have "cb_state (snd (exec_all cs ?cb)) = CircuitClosed \<and>
        failures (snd (exec_all cs ?cb)) = failures ?cb + int (length cs) \<and>
        cb_config (snd (exec_all cs ?cb)) = cb_config ?cb"
    using Cons.prems by (intro Cons.IH) auto
  then show ?case
    by (simp add: c step case_prod_beta)
qed simp

lemma exec_all_append:
  "exec_all (cs @ ds) cb =
     (let (rs, cb1) = exec_all cs cb; (rs', cb2) = exec_all ds cb1 in (rs @ rs', cb2))"
  by (induction cs arbitrary: cb) (auto simp: case_prod_beta Let_def)

lemma exec_open_refused:
  assumes "cb_state cb = CircuitOpen" and "now < lastFailure cb + ResetTimeout (cb_config cb)"
  shows "Execute now fn now' cb = (Some ErrCircuitOpen, cb)"
  using assms by (simp add: Execute_def Allow_def since_def)

lemma exec_all_open:
  assumes "cb_state cb = CircuitOpen"
    and "\<forall>(now, _, _) \<in> set cs. now < lastFailure cb + ResetTimeout (cb_config cb)"
  shows "exec_all cs cb = (replicate (length cs) (Some ErrCircuitOpen), cb)"
  using assms
proof (induction cs)
  case (Cons c cs)
  obtain now fn now' where c: "c = (now, fn, now')" by (cases c)
  have "Execute now fn now' cb = (Some ErrCircuitOpen, cb)"
    using Cons.prems by (intro exec_open_refused) (auto simp: c)
  then show ?case
    using Cons by (simp add: c)
qed simp

text \<open>A half-open breaker that only ever runs one call at a time.\<close>

lemma exec_success_half_open:
  assumes "cb_state cb = CircuitHalfOpen" and "halfOpenRequests cb = successes cb"
    and "successes cb + int (length cs) < HalfOpenMaxRequests (cb_config cb)"
    and "\<forall>(_, fn, _) \<in> set cs. fn = None"
  shows "exec_all cs cb = (replicate (length cs) None,
     cb\<lparr>halfOpenRequests := successes cb + int (length cs),
        successes := successes cb + int (length cs)\<rparr>)"
  using assms
proof (induction cs arbitrary: cb)
  case (Cons c cs)
  obtain now fn now' where c: "c = (now, fn, now')" by (cases c)
  from Cons.prems(4) have fn: "fn = None" by (auto simp: c)
  let ?cb = "cb\<lparr>halfOpenRequests := successes cb + 1, successes := successes cb + 1\<rparr>"
  have step: "Execute now fn now' cb = (None, ?cb)"
    using Cons.prems(1-3) by (auto simp: fn exec_defs)
  have IH: "exec_all cs ?cb = (replicate (length cs) None,
     ?cb\<lparr>halfOpenRequests := successes ?cb + int (length cs),
         successes := successes ?cb + int (length cs)\<rparr>)"
    using Cons.prems by (intro Cons.IH) auto
  show ?case
    by (simp add: c step IH add.assoc)
next
  case Nil
  then show ?case by simp
qed

lemma exec_open_elapsed:
  assumes "cb_state cb = CircuitOpen" and "lastFailure cb + ResetTimeout (cb_config cb) \<le> now"
    and "1 < HalfOpenMaxRequests (cb_config cb)"
  shows "Execute now None now' cb =
    (None, (transition CircuitHalfOpen cb)\<lparr>halfOpenRequests := 1, successes := 1\<rparr>)"
  using assms by (auto simp: exec_defs since_def)

lemma exec_open_elapsed_single:
  assumes "cb_state cb = CircuitOpen" and "lastFailure cb + ResetTimeout (cb_config cb) \<le> now"
    and "HalfOpenMaxRequests (cb_config cb) = 1"
  shows "fst (Execute now None now' cb) = None \<and>
         cb_state (snd (Execute now None now' cb)) = CircuitClosed"
  using assms by (auto simp: exec_defs since_def)

lemma exec_last_success:
  assumes "cb_state cb = CircuitHalfOpen" and "halfOpenRequests cb = successes cb"
    and "successes cb + 1 = HalfOpenMaxRequests (cb_config cb)"
  shows "fst (Execute now None now' cb) = None \<and>
         cb_state (snd (Execute now None now' cb)) = CircuitClosed"
  using assms by (auto simp: exec_defs)

lemma transition_state [simp]:
  "cb_state (transition to cb) = to" "successes (transition to cb) = 0"
  "lastFailure (transition to cb) = lastFailure cb"
  by (simp_all add: transition_def Let_def)

text \<open>A half-open breaker all of whose probes were lost: no caller is left to move it on.\<close>

definition wedged :: "cb_sys \<Rightarrow> bool" where
  "wedged s \<longleftrightarrow> in_flight s = 0 \<and> cb_state (breaker s) = CircuitHalfOpen \<and>
     halfOpenRequests (breaker s) = HalfOpenMaxRequests (cb_config (breaker s))"

inductive caller_step :: "cb_sys \<Rightarrow> cb_sys \<Rightarrow> bool" where
  caller_admit: "Allow now (breaker s) = (True, cb) \<Longrightarrow>
     caller_step s \<lparr>breaker = cb, in_flight = Suc (in_flight s)\<rparr>"
| caller_refuse: "Allow now (breaker s) = (False, cb) \<Longrightarrow> caller_step s (s\<lparr>breaker := cb\<rparr>)"
| caller_success: "in_flight s = Suc n \<Longrightarrow>
     caller_step s \<lparr>breaker = RecordSuccess (breaker s), in_flight = n\<rparr>"
| caller_failure: "in_flight s = Suc n \<Longrightarrow>
     caller_step s \<lparr>breaker = RecordFailure now (breaker s), in_flight = n\<rparr>"

lemma caller_step_wedged: "caller_step s t \<Longrightarrow> wedged s \<Longrightarrow> t = s"
  by (cases rule: caller_step.cases) (auto simp: wedged_def Allow_def)

lemma caller_run_wedged: "rtranclp caller_step s t \<Longrightarrow> wedged s \<Longrightarrow> t = s"
  by (induction rule: rtranclp_induct) (auto dest: caller_step_wedged)

text \<open>A breaker with one failure allowed and one probe reaches such a state.\<close>

definition lost_probe_state :: cb_sys where
  "lost_probe_state =
     \<lparr>breaker = \<lparr>cb_state = CircuitHalfOpen, failures = 0, successes = 0, halfOpenRequests = 1,
        lastFailure = 0,
        cb_config = \<lparr>FailureThreshold = 1, ResetTimeout = 1, HalfOpenMaxRequests = 1\<rparr>,
        onStateChange = False, changes = []\<rparr>, in_flight = 0\<rparr>"

lemma lost_probe_reachable: "reachable cb_init cb_step lost_probe_state"
proof -
  let ?c = "\<lparr>FailureThreshold = 1, ResetTimeout = 1, HalfOpenMaxRequests = 1\<rparr>"
  let ?s0 = "\<lparr>breaker = NewCircuitBreaker 0 ?c, in_flight = 0\<rparr>"
  let ?s1 = "?s0\<lparr>in_flight := 1\<rparr>"
  let ?s2 = "\<lparr>breaker = RecordFailure 0 (breaker ?s1), in_flight = 0\<rparr>"
  let ?s3 = "\<lparr>breaker = snd (Allow 1 (breaker ?s2)), in_flight = 1\<rparr>"
  have "reachable cb_init cb_step ?s0"
    by (rule reach_init) (auto simp: cb_init_def)
  moreover have "cb_step ?s0 ?s1"
    using cb_step.admit [of 0 ?s0 "breaker ?s0"] by (simp add: NewCircuitBreaker_def Allow_def)
  moreover have "cb_step ?s1 ?s2"
    by (rule cb_step.failure) simp
  moreover have "cb_step ?s2 ?s3"
    using cb_step.admit [of 1 ?s2 "breaker ?s3"]
    by (simp add: NewCircuitBreaker_def cb_defs since_def)
  moreover have "cb_step ?s3 lost_probe_state"
    using cb_step.lost [of ?s3 0]
    by (simp add: NewCircuitBreaker_def cb_defs since_def lost_probe_state_def)
  ultimately show ?thesis
    by (meson reach_step)
qed

section \<open>Properties\<close>

text \<open>
  C31. However concurrent callers interleave, and even when some of them never report back, every
  reachable breaker satisfies its counter discipline: a closed breaker has fewer failures than the
  threshold, an open one has cleared counters, and a half-open one has admitted at least one and at
  most \<^verbatim>\<open>HalfOpenMaxRequests\<close> probes and not yet collected that many successes.
\<close>

theorem breaker_invariant:
  assumes "reachable cb_init cb_step s"
  shows "breaker_ok (breaker s)"
  using cb.reachable_inv [OF assms] by (simp add: sys_ok_def)

theorem breaker_invariant_witness: "breaker_ok (breaker lost_probe_state)"
  by (rule breaker_invariant [OF lost_probe_reachable])

text \<open>
  A fresh breaker trips on exactly the \<^verbatim>\<open>FailureThreshold\<close>-th consecutive failure: after fewer
  failing calls it is still closed, after that many it is open, and from then on every call made
  before \<^verbatim>\<open>ResetTimeout\<close> has passed since the last failure is refused with \<^verbatim>\<open>ErrCircuitOpen\<close> without
  changing the breaker.
\<close>

theorem breaker_trips:
  fixes fails :: "(instant \<times> 'e option \<times> instant) list"
  assumes "0 < FailureThreshold cfg"
    and "\<forall>(_, fn, _) \<in> set fails. fn \<noteq> None"
    and "int (length fails) = FailureThreshold cfg - 1"
    and "0 < ResetTimeout cfg"
    and "\<forall>(now, _, _) \<in> set later. now < t' + ResetTimeout cfg"
  shows "(\<forall>k \<le> length fails.
           cb_state (snd (exec_all (take k fails) (NewCircuitBreaker zero cfg))) = CircuitClosed) \<and>
         cb_state (snd (exec_all (fails @ [(t, Some e, t')]) (NewCircuitBreaker zero cfg)))
           = CircuitOpen \<and>
         exec_all later (snd (exec_all (fails @ [(t, Some e, t')]) (NewCircuitBreaker zero cfg))) =
           (replicate (length later) (Some ErrCircuitOpen),
            snd (exec_all (fails @ [(t, Some e, t')]) (NewCircuitBreaker zero cfg)))"
proof -
  let ?cb = "NewCircuitBreaker zero cfg"
  have new: "cb_state ?cb = CircuitClosed" "failures ?cb = 0"
    "FailureThreshold (cb_config ?cb) = FailureThreshold cfg"
    "ResetTimeout (cb_config ?cb) = ResetTimeout cfg"
    using assms(1,4) by (auto simp: NewCircuitBreaker_def Let_def)
  have before: "cb_state (snd (exec_all (take k fails) ?cb)) = CircuitClosed \<and>
      failures (snd (exec_all (take k fails) ?cb)) = int k \<and>
      cb_config (snd (exec_all (take k fails) ?cb)) = cb_config ?cb" if "k \<le> length fails" for k
  proof -
    have "\<forall>(_, fn, _) \<in> set (take k fails). fn \<noteq> None"
      using assms(2) set_take_subset [of k fails] by auto
    then show ?thesis
      using exec_fails_closed [of ?cb "take k fails"] new assms(3) that by auto
  qed
  then have closed: "\<forall>k \<le> length fails. cb_state (snd (exec_all (take k fails) ?cb)) = CircuitClosed"
    by blast
  define cb1 where "cb1 = snd (exec_all fails ?cb)"
  have cb1: "cb_state cb1 = CircuitClosed" "failures cb1 = int (length fails)"
    "cb_config cb1 = cb_config ?cb"
    using before [of "length fails"] by (simp_all add: cb1_def)
  define cb2 where "cb2 = snd (exec_all (fails @ [(t, Some e, t')]) ?cb)"
  have "cb2 = snd (Execute t (Some e) t' cb1)"
    by (simp add: cb2_def cb1_def exec_all_append case_prod_beta Let_def)
  then have cb2: "cb_state cb2 = CircuitOpen" "lastFailure cb2 = t'" "cb_config cb2 = cb_config ?cb"
    using cb1 new assms(3) by (simp_all add: exec_fail_closed Let_def)
  have "exec_all later cb2 = (replicate (length later) (Some ErrCircuitOpen), cb2)"
    using assms(5) cb2 new by (intro exec_all_open) auto
  then show ?thesis
    using closed cb2(1) unfolding cb2_def by blast
qed

theorem breaker_trips_witness:
  "exec_all [(30, None :: unit option, 31)] (snd (exec_all (replicate 4 (0, Some (), 1) @ [(7, Some (), 9)])
      (NewCircuitBreaker 0 DefaultCircuitBreakerConfig))) =
   (replicate 1 (Some ErrCircuitOpen),
    snd (exec_all (replicate 4 (0, Some (), 1) @ [(7, Some (), 9)])
      (NewCircuitBreaker 0 DefaultCircuitBreakerConfig)))"
  using breaker_trips [where cfg = DefaultCircuitBreakerConfig and zero = 0
      and fails = "replicate 4 (0, Some (), 1)" and t = 7 and e = "()" and t' = 9
      and later = "[(30, None :: unit option, 31)]"]
  by (simp add: DefaultCircuitBreakerConfig_def Second_def)

text \<open>
  C32. An open breaker recovers: once \<^verbatim>\<open>ResetTimeout\<close> has passed since the last failure,
  \<^verbatim>\<open>HalfOpenMaxRequests\<close> successful calls in a row are all admitted and leave the breaker closed.
\<close>

theorem breaker_recovers:
  fixes now' :: instant and probes :: "(instant \<times> 'e option \<times> instant) list"
  assumes "cb_state cb = CircuitOpen"
    and "lastFailure cb + ResetTimeout (cb_config cb) \<le> now"
    and "\<forall>(_, fn, _) \<in> set probes. fn = None"
    and "int (length probes) + 1 = HalfOpenMaxRequests (cb_config cb)"
  shows "fst (exec_all ((now, None, now') # probes) cb) = replicate (Suc (length probes)) None \<and>
         cb_state (snd (exec_all ((now, None, now') # probes) cb)) = CircuitClosed"
proof (cases probes rule: rev_cases)
  case Nil
  then show ?thesis
    using exec_open_elapsed_single [of cb now now'] assms(1,2,4) by (simp add: case_prod_beta)
next
  case (snoc ps p)
  obtain t fn t' where p: "p = (t, fn, t')" by (cases p)
  have fn: "fn = None" using assms(3) by (simp add: snoc p)
  let ?cb = "(transition CircuitHalfOpen cb)\<lparr>halfOpenRequests := 1, successes := 1\<rparr>"
  let ?cb' = "?cb\<lparr>halfOpenRequests := 1 + int (length ps), successes := 1 + int (length ps)\<rparr>"
  have first: "Execute now None now' cb = (None, ?cb)"
    using assms by (intro exec_open_elapsed) (auto simp: snoc)
  have "exec_all ps ?cb = (replicate (length ps) None, ?cb')"
    using exec_success_half_open [of ?cb ps] assms(3,4) by (auto simp: snoc)
  moreover have "fst (Execute t None t' ?cb') = None \<and>
      cb_state (snd (Execute t None t' ?cb')) = CircuitClosed"
    using assms(4) by (intro exec_last_success) (auto simp: snoc)
  ultimately show ?thesis
    by (auto simp: snoc p fn first exec_all_append Let_def case_prod_beta
        simp flip: replicate_append_same)
qed

theorem breaker_recovers_witness:
  "cb_state (snd (exec_all [(2, None, 2), (3, None :: unit option, 3)]
     \<lparr>cb_state = CircuitOpen, failures = 0, successes = 0, halfOpenRequests = 0, lastFailure = 1,
      cb_config = \<lparr>FailureThreshold = 1, ResetTimeout = 1, HalfOpenMaxRequests = 2\<rparr>,
      onStateChange = False, changes = []\<rparr>)) = CircuitClosed"
  by (rule breaker_recovers [THEN conjunct2]) auto

text \<open>
  A call that leaves \<^verbatim>\<open>Execute\<close> without recording (a panic in \<open>fn\<close>) can wedge the breaker: a
  half-open state with every probe lost is reachable, every later call is refused at every time, and
  no sequence of caller steps changes it; only \<^verbatim>\<open>Reset\<close> leaves it.
\<close>

theorem breaker_can_wedge:
  "\<exists>s. reachable cb_init cb_step s \<and> in_flight s = 0 \<and>
     (\<forall>now. State now (breaker s) = CircuitHalfOpen \<and> fst (Allow now (breaker s)) = False) \<and>
     {t. rtranclp caller_step s t} = {s} \<and>
     cb_state (Reset (breaker s)) = CircuitClosed"
proof (intro exI [of _ lost_probe_state] conjI allI)
  have "wedged lost_probe_state"
    by (simp add: wedged_def lost_probe_state_def)
  then show "{t. rtranclp caller_step lost_probe_state t} = {lost_probe_state}"
    using caller_run_wedged by blast
qed (simp_all add: lost_probe_reachable, simp_all add: lost_probe_state_def State_def Allow_def Reset_def)

end
