(* ===== verification/Domain_Model.thy ===== *)
theory Domain_Model
  imports Yunt_Prelude "HOL-Library.Signed_Division"
begin

text \<open>
  The domain entities of \<^verbatim>\<open>internal/domain\<close>: identifiers, addresses and paging (\<^verbatim>\<open>types.go\<close>), errors
  (\<^verbatim>\<open>errors.go\<close>), mailboxes (\<^verbatim>\<open>mailbox.go\<close>), messages (\<^verbatim>\<open>message.go\<close>) and users (\<^verbatim>\<open>user.go\<close>), each
  with its constructors, validation and in-memory operations. A method that changes its receiver
  returns the changed receiver; \<^verbatim>\<open>Now()\<close> is an argument. The string-typed enumerations stay strings,
  because the code stores whatever string it is given and tests it with \<^verbatim>\<open>IsValid\<close>.
\<close>

section \<open>Types\<close>

type_synonym Timestamp = instant
type_synonym MessageStatus = string
type_synonym MailboxType = string
type_synonym UserRole = string
type_synonym UserStatus = string
type_synonym SortOrder = string

definition MessageUnread :: MessageStatus where
  "MessageUnread = ''unread''"

definition MessageRead :: MessageStatus where
  "MessageRead = ''read''"

definition MessageStatus_IsValid :: "MessageStatus \<Rightarrow> bool" where
  "MessageStatus_IsValid s \<longleftrightarrow> s = MessageUnread \<or> s = MessageRead"

definition RoleAdmin :: UserRole where
  "RoleAdmin = ''admin''"

definition RoleUser :: UserRole where
  "RoleUser = ''user''"

definition RoleViewer :: UserRole where
  "RoleViewer = ''viewer''"

definition UserRole_IsValid :: "UserRole \<Rightarrow> bool" where
  "UserRole_IsValid r \<longleftrightarrow> r = RoleAdmin \<or> r = RoleUser \<or> r = RoleViewer"

definition StatusActive :: UserStatus where
  "StatusActive = ''active''"

definition StatusInactive :: UserStatus where
  "StatusInactive = ''inactive''"

definition StatusPending :: UserStatus where
  "StatusPending = ''pending''"

definition UserStatus_IsValid :: "UserStatus \<Rightarrow> bool" where
  "UserStatus_IsValid s \<longleftrightarrow> s = StatusActive \<or> s = StatusInactive \<or> s = StatusPending"

definition SortAsc :: SortOrder where
  "SortAsc = ''asc''"

definition SortDesc :: SortOrder where
  "SortDesc = ''desc''"

lemma MessageStatus_distinct [simp]:
  "MessageUnread \<noteq> MessageRead" "MessageRead \<noteq> MessageUnread"
  by (simp_all add: MessageUnread_def MessageRead_def)

lemma UserStatus_distinct [simp]:
  "StatusActive \<noteq> StatusInactive" "StatusActive \<noteq> StatusPending"
  "StatusInactive \<noteq> StatusActive" "StatusPending \<noteq> StatusActive"
  by (simp_all add: StatusActive_def StatusInactive_def StatusPending_def)

record EmailAddress =
  ea_Name :: string
  ea_Address :: string

definition EmailAddress_IsEmpty :: "EmailAddress \<Rightarrow> bool" where
  "EmailAddress_IsEmpty e \<longleftrightarrow> ea_Address e = []"

definition EmailAddress_String :: "EmailAddress \<Rightarrow> string" where
  "EmailAddress_String e =
     (if ea_Name e = [] then ea_Address e else ea_Name e @ '' <'' @ ea_Address e @ ''>'')"

definition ID_IsEmpty :: "ID \<Rightarrow> bool" where
  "ID_IsEmpty i \<longleftrightarrow> i = []"

record Pagination =
  pg_Page :: int
  pg_PerPage :: int
  pg_Total :: int

definition Pagination_Offset :: "Pagination \<Rightarrow> int" where
  "Pagination_Offset p = (if pg_Page p \<le> 0 then 0 else (pg_Page p - 1) * pg_PerPage p)"

text \<open>Go's \<^verbatim>\<open>/\<close> and \<^verbatim>\<open>%\<close> truncate towards zero: \<open>sdiv\<close> and \<open>smod\<close>.\<close>

definition Pagination_TotalPages :: "Pagination \<Rightarrow> int" where
  "Pagination_TotalPages p =
     (if pg_PerPage p \<le> 0 then 0
      else let pages = pg_Total p sdiv pg_PerPage p
           in if pg_Total p smod pg_PerPage p > 0 then pages + 1 else pages)"

definition Pagination_HasNext :: "Pagination \<Rightarrow> bool" where
  "Pagination_HasNext p \<longleftrightarrow> pg_Page p < Pagination_TotalPages p"

definition Pagination_HasPrev :: "Pagination \<Rightarrow> bool" where
  "Pagination_HasPrev p \<longleftrightarrow> pg_Page p > 1"

section \<open>Errors\<close>

datatype sentinel = ErrNotFound | ErrAlreadyExists | ErrInvalidInput | ErrUnauthorized
  | ErrForbidden | ErrConflict | ErrInternal

text \<open>
  \<open>Wrapped\<close> is \<^verbatim>\<open>fmt.Errorf\<close> with a \<^verbatim>\<open>%w\<close> verb and its message prefix, \<open>OtherError\<close> an error of
  another package (a driver, \<^verbatim>\<open>errors.New\<close>, \<^verbatim>\<open>fmt.Errorf\<close> without \<^verbatim>\<open>%w\<close>).
\<close>

type_synonym ValidationErrors = "(string \<times> string) list"

datatype error =
    Sentinel sentinel
  | ValidationError string string
  | ValidationErrs ValidationErrors
  | NotFoundError string string
  | AlreadyExistsError string string string
  | UnauthorizedError string
  | ForbiddenError string string
  | ConflictError string string
  | InternalError string "error option"
  | Wrapped string error
  | OtherError string

fun errors_Is :: "error \<Rightarrow> sentinel \<Rightarrow> bool" where
  "errors_Is (Sentinel s) t = (s = t)"
| "errors_Is (ValidationError _ _) t = False"
| "errors_Is (ValidationErrs _) t = False"
| "errors_Is (NotFoundError _ _) t = (t = ErrNotFound)"
| "errors_Is (AlreadyExistsError _ _ _) t = (t = ErrAlreadyExists)"
| "errors_Is (UnauthorizedError _) t = (t = ErrUnauthorized)"
| "errors_Is (ForbiddenError _ _) t = (t = ErrForbidden)"
| "errors_Is (ConflictError _ _) t = (t = ErrConflict)"
| "errors_Is (InternalError _ None) t = (t = ErrInternal)"
| "errors_Is (InternalError _ (Some e)) t = (t = ErrInternal \<or> errors_Is e t)"
| "errors_Is (Wrapped _ e) t = errors_Is e t"
| "errors_Is (OtherError _) t = False"

definition IsNotFound :: "error \<Rightarrow> bool" where
  "IsNotFound e \<longleftrightarrow> errors_Is e ErrNotFound"

definition IsAlreadyExists :: "error \<Rightarrow> bool" where
  "IsAlreadyExists e \<longleftrightarrow> errors_Is e ErrAlreadyExists"

definition IsUnauthorized :: "error \<Rightarrow> bool" where
  "IsUnauthorized e \<longleftrightarrow> errors_Is e ErrUnauthorized"

definition IsForbidden :: "error \<Rightarrow> bool" where
  "IsForbidden e \<longleftrightarrow> errors_Is e ErrForbidden"

definition IsConflict :: "error \<Rightarrow> bool" where
  "IsConflict e \<longleftrightarrow> errors_Is e ErrConflict"

fun IsValidation :: "error \<Rightarrow> bool" where
  "IsValidation (ValidationError _ _) = True"
| "IsValidation (ValidationErrs _) = True"
| "IsValidation (InternalError _ (Some e)) = IsValidation e"
| "IsValidation (Wrapped _ e) = IsValidation e"
| "IsValidation _ = False"

text \<open>One guarded \<^verbatim>\<open>errs.Add(field, message)\<close>; the error list \<open>[]\<close> is the nil error.\<close>

definition errs_Add :: "bool \<Rightarrow> string \<Rightarrow> string \<Rightarrow> ValidationErrors" where
  "errs_Add c f m = (if c then [(f, m)] else [])"

lemma errs_Add_Nil [simp]: "errs_Add c f m = [] \<longleftrightarrow> \<not> c"
  by (simp add: errs_Add_def)

section \<open>Mailboxes\<close>

definition MailboxTypeSystem :: MailboxType where
  "MailboxTypeSystem = ''system''"

definition MailboxTypeCustom :: MailboxType where
  "MailboxTypeCustom = ''custom''"

record Mailbox =
  mb_ID :: ID
  mb_UserID :: ID
  mb_Name :: string
  mb_Address :: string
  mb_Description :: string
  mb_IsCatchAll :: bool
  mb_IsDefault :: bool
  mb_Type :: MailboxType
  mb_UIDNext :: "32 word"
  mb_MessageCount :: int
  mb_UnreadCount :: int
  mb_TotalSize :: int
  mb_RetentionDays :: int
  mb_Role :: string
  mb_SortOrder :: int
  mb_CreatedAt :: Timestamp
  mb_UpdatedAt :: Timestamp

definition NewMailbox :: "Timestamp \<Rightarrow> ID \<Rightarrow> ID \<Rightarrow> string \<Rightarrow> string \<Rightarrow> Mailbox" where
  "NewMailbox now i userID name address =
     \<lparr>mb_ID = i, mb_UserID = userID, mb_Name = name, mb_Address = address, mb_Description = [],
      mb_IsCatchAll = False, mb_IsDefault = False, mb_Type = MailboxTypeCustom, mb_UIDNext = 1,
      mb_MessageCount = 0, mb_UnreadCount = 0, mb_TotalSize = 0, mb_RetentionDays = 0,
      mb_Role = [], mb_SortOrder = 0, mb_CreatedAt = now, mb_UpdatedAt = now\<rparr>"

text \<open>
  \<^verbatim>\<open>emailRegex\<close>: one or more local characters, an at sign, one or more domain characters, and an
  optional group of a dot and two or more letters, anchored at both ends.
\<close>

definition in_range :: "char \<Rightarrow> nat \<Rightarrow> nat \<Rightarrow> bool" where
  "in_range c lo hi \<longleftrightarrow> lo \<le> (of_char c :: nat) \<and> (of_char c :: nat) \<le> hi"

definition letter_char :: "char \<Rightarrow> bool" where
  "letter_char c \<longleftrightarrow> in_range c 97 122 \<or> in_range c 65 90"

definition digit_char :: "char \<Rightarrow> bool" where
  "digit_char c \<longleftrightarrow> in_range c 48 57"

definition email_local_char :: "char \<Rightarrow> bool" where
  "email_local_char c \<longleftrightarrow> letter_char c \<or> digit_char c \<or> c \<in> set ''._%+-''"

definition email_domain_char :: "char \<Rightarrow> bool" where
  "email_domain_char c \<longleftrightarrow> letter_char c \<or> digit_char c \<or> c \<in> set ''.-''"

definition one_or_more :: "(char \<Rightarrow> bool) \<Rightarrow> string \<Rightarrow> bool" where
  "one_or_more P s \<longleftrightarrow> s \<noteq> [] \<and> list_all P s"

fun email_tld :: "string \<Rightarrow> bool" where
  "email_tld [] = False"
| "email_tld (c # cs) = (c = CHR ''.'' \<and> length cs \<ge> 2 \<and> list_all letter_char cs)"

definition email_domain :: "string \<Rightarrow> bool" where
  "email_domain d \<longleftrightarrow> one_or_more email_domain_char d \<or>
     list_ex (\<lambda>k. one_or_more email_domain_char (take k d) \<and> email_tld (drop k d)) [0..<length d]"

definition isValidEmail :: "string \<Rightarrow> bool" where
  "isValidEmail email \<longleftrightarrow>
     list_ex (\<lambda>k. one_or_more email_local_char (take k email) \<and> email ! k = CHR ''@'' \<and>
       email_domain (drop (Suc k) email)) [0..<length email]"

definition Mailbox_Validate :: "Mailbox \<Rightarrow> ValidationErrors" where
  "Mailbox_Validate m =
     errs_Add (ID_IsEmpty (mb_ID m)) ''id'' ''id is required'' @
     errs_Add (ID_IsEmpty (mb_UserID m)) ''userId'' ''user id is required'' @
     (if mb_Name m = [] then [(''name'', ''name is required'')]
      else errs_Add (length (mb_Name m) > 100) ''name'' ''name must be at most 100 characters'') @
     (if mb_Address m = [] then [(''address'', ''address is required'')]
      else errs_Add (\<not> mb_IsCatchAll m \<and> \<not> isValidEmail (mb_Address m))
             ''address'' ''address must be a valid email format'') @
     errs_Add (mb_RetentionDays m < 0) ''retentionDays'' ''retention days cannot be negative'' @
     errs_Add (mb_MessageCount m < 0) ''messageCount'' ''message count cannot be negative'' @
     errs_Add (mb_UnreadCount m < 0) ''unreadCount'' ''unread count cannot be negative'' @
     errs_Add (mb_TotalSize m < 0) ''totalSize'' ''total size cannot be negative''"

definition Mailbox_IncrementMessageCount :: "Timestamp \<Rightarrow> int \<Rightarrow> bool \<Rightarrow> Mailbox \<Rightarrow> Mailbox" where
  "Mailbox_IncrementMessageCount now sz isUnread m =
     m\<lparr>mb_MessageCount := mb_MessageCount m + 1,
       mb_UnreadCount := (if isUnread then mb_UnreadCount m + 1 else mb_UnreadCount m),
       mb_TotalSize := mb_TotalSize m + sz, mb_UIDNext := mb_UIDNext m + 1, mb_UpdatedAt := now\<rparr>"

definition Mailbox_DecrementMessageCount :: "Timestamp \<Rightarrow> int \<Rightarrow> bool \<Rightarrow> Mailbox \<Rightarrow> Mailbox" where
  "Mailbox_DecrementMessageCount now sz wasUnread m =
     (let m = (if mb_MessageCount m > 0 then m\<lparr>mb_MessageCount := mb_MessageCount m - 1\<rparr> else m);
          m = (if wasUnread \<and> mb_UnreadCount m > 0
               then m\<lparr>mb_UnreadCount := mb_UnreadCount m - 1\<rparr> else m);
          m = m\<lparr>mb_TotalSize := mb_TotalSize m - sz\<rparr>;
          m = (if mb_TotalSize m < 0 then m\<lparr>mb_TotalSize := 0\<rparr> else m)
      in m\<lparr>mb_UpdatedAt := now\<rparr>)"

definition MarkMessageRead :: "Timestamp \<Rightarrow> Mailbox \<Rightarrow> Mailbox" where
  "MarkMessageRead now m =
     (if mb_UnreadCount m > 0 then m\<lparr>mb_UnreadCount := mb_UnreadCount m - 1\<rparr> else m)\<lparr>mb_UpdatedAt := now\<rparr>"

definition MarkMessageUnread :: "Timestamp \<Rightarrow> Mailbox \<Rightarrow> Mailbox" where
  "MarkMessageUnread now m =
     (if mb_UnreadCount m < mb_MessageCount m then m\<lparr>mb_UnreadCount := mb_UnreadCount m + 1\<rparr>
      else m)\<lparr>mb_UpdatedAt := now\<rparr>"

definition SetAsDefault :: "Timestamp \<Rightarrow> Mailbox \<Rightarrow> Mailbox" where
  "SetAsDefault now m = m\<lparr>mb_IsDefault := True, mb_UpdatedAt := now\<rparr>"

definition UnsetAsDefault :: "Timestamp \<Rightarrow> Mailbox \<Rightarrow> Mailbox" where
  "UnsetAsDefault now m = m\<lparr>mb_IsDefault := False, mb_UpdatedAt := now\<rparr>"

definition Mailbox_SetCatchAll :: "Timestamp \<Rightarrow> Mailbox \<Rightarrow> Mailbox" where
  "Mailbox_SetCatchAll now m = m\<lparr>mb_IsCatchAll := True, mb_UpdatedAt := now\<rparr>"

definition UnsetCatchAll :: "Timestamp \<Rightarrow> Mailbox \<Rightarrow> Mailbox" where
  "UnsetCatchAll now m = m\<lparr>mb_IsCatchAll := False, mb_UpdatedAt := now\<rparr>"

definition GetLocalPart :: "Mailbox \<Rightarrow> string" where
  "GetLocalPart m = (case Split (mb_Address m) CHR ''@'' of p # _ \<Rightarrow> p | [] \<Rightarrow> [])"

definition GetDomain :: "Mailbox \<Rightarrow> string" where
  "GetDomain m = (case Split (mb_Address m) CHR ''@'' of _ # d # _ \<Rightarrow> d | _ \<Rightarrow> [])"

record MailboxCreateInput =
  mci_Name :: string
  mci_Address :: string
  mci_Description :: string
  mci_IsCatchAll :: bool
  mci_IsDefault :: bool
  mci_RetentionDays :: int

definition MailboxCreateInput_Validate :: "MailboxCreateInput \<Rightarrow> ValidationErrors" where
  "MailboxCreateInput_Validate i =
     (let name = TrimSpace (mci_Name i) in
      if name = [] then [(''name'', ''name is required'')]
      else errs_Add (length name > 100) ''name'' ''name must be at most 100 characters'') @
     (let address = TrimSpace (mci_Address i) in
      if address = [] then [(''address'', ''address is required'')]
      else errs_Add (\<not> mci_IsCatchAll i \<and> \<not> isValidEmail address)
             ''address'' ''address must be a valid email format'') @
     errs_Add (mci_RetentionDays i < 0) ''retentionDays'' ''retention days cannot be negative''"

definition MailboxCreateInput_Normalize :: "MailboxCreateInput \<Rightarrow> MailboxCreateInput" where
  "MailboxCreateInput_Normalize i =
     i\<lparr>mci_Name := TrimSpace (mci_Name i), mci_Address := TrimSpace (ToLower (mci_Address i)),
       mci_Description := TrimSpace (mci_Description i)\<rparr>"

record MailboxUpdateInput =
  mui_Name :: "string option"
  mui_Description :: "string option"
  mui_IsDefault :: "bool option"
  mui_RetentionDays :: "int option"

definition MailboxUpdateInput_Validate :: "MailboxUpdateInput \<Rightarrow> ValidationErrors" where
  "MailboxUpdateInput_Validate i =
     (case mui_Name i of
        None \<Rightarrow> []
      | Some n \<Rightarrow>
          (let name = TrimSpace n in
           if name = [] then [(''name'', ''name cannot be empty'')]
           else errs_Add (length name > 100) ''name'' ''name must be at most 100 characters'')) @
     (case mui_RetentionDays i of
        None \<Rightarrow> []
      | Some d \<Rightarrow> errs_Add (d < 0) ''retentionDays'' ''retention days cannot be negative'')"

text \<open>An optional field of an update: \<^verbatim>\<open>if i.F != nil { x.F = g(*i.F) }\<close>.\<close>

definition set_opt :: "'a option \<Rightarrow> ('a \<Rightarrow> 'r \<Rightarrow> 'r) \<Rightarrow> 'r \<Rightarrow> 'r" where
  "set_opt v f r = (case v of None \<Rightarrow> r | Some a \<Rightarrow> f a r)"

lemma set_opt_simps [simp]: "set_opt None f r = r" "set_opt (Some a) f r = f a r"
  by (simp_all add: set_opt_def)

definition MailboxUpdateInput_Apply :: "Timestamp \<Rightarrow> MailboxUpdateInput \<Rightarrow> Mailbox \<Rightarrow> Mailbox" where
  "MailboxUpdateInput_Apply now i m =
     (let m = set_opt (mui_Name i) (\<lambda>v. mb_Name_update (\<lambda>_. TrimSpace v)) m;
          m = set_opt (mui_Description i) (\<lambda>v. mb_Description_update (\<lambda>_. TrimSpace v)) m;
          m = set_opt (mui_IsDefault i) (\<lambda>v. mb_IsDefault_update (\<lambda>_. v)) m;
          m = set_opt (mui_RetentionDays i) (\<lambda>v. mb_RetentionDays_update (\<lambda>_. v)) m
      in m\<lparr>mb_UpdatedAt := now\<rparr>)"

section \<open>Messages\<close>

text \<open>
  A header map is an association list with distinct keys; the order of its entries is the order in
  which \<^verbatim>\<open>range\<close> visits them, which Go leaves open. The nil map is the empty one.
\<close>

record Message =
  msg_ID :: ID
  msg_MailboxID :: ID
  msg_MessageID :: string
  msg_From :: EmailAddress
  msg_To :: "EmailAddress list"
  msg_Cc :: "EmailAddress list"
  msg_Bcc :: "EmailAddress list"
  msg_ReplyTo :: "EmailAddress option"
  msg_Subject :: string
  msg_TextBody :: string
  msg_HTMLBody :: string
  msg_RawBody :: bytes
  msg_Headers :: "(string \<times> string) list"
  msg_ContentType :: string
  msg_Size :: int
  msg_AttachmentCount :: int
  msg_Status :: MessageStatus
  msg_IsStarred :: bool
  msg_IsSpam :: bool
  msg_IsDeleted :: bool
  msg_IsDraft :: bool
  msg_IsAnswered :: bool
  msg_IMAPUID :: "32 word"
  msg_InReplyTo :: string
  msg_References :: "string list"
  msg_ReceivedAt :: Timestamp
  msg_SentAt :: "Timestamp option"
  msg_ThreadID :: ID
  msg_BlobID :: string
  msg_AllHeaders :: "(string \<times> string list) list"
  msg_CreatedAt :: Timestamp
  msg_UpdatedAt :: Timestamp

definition ContentTypePlain :: string where
  "ContentTypePlain = ''text/plain''"

definition ContentTypeHTML :: string where
  "ContentTypeHTML = ''text/html''"

definition ContentTypeMultipart :: string where
  "ContentTypeMultipart = ''multipart/mixed''"

definition NewMessage :: "Timestamp \<Rightarrow> ID \<Rightarrow> ID \<Rightarrow> Message" where
  "NewMessage now i mailboxID =
     \<lparr>msg_ID = i, msg_MailboxID = mailboxID, msg_MessageID = [],
      msg_From = \<lparr>ea_Name = [], ea_Address = []\<rparr>, msg_To = [], msg_Cc = [], msg_Bcc = [],
      msg_ReplyTo = None, msg_Subject = [], msg_TextBody = [], msg_HTMLBody = [], msg_RawBody = [],
      msg_Headers = [], msg_ContentType = ContentTypePlain, msg_Size = 0, msg_AttachmentCount = 0,
      msg_Status = MessageUnread, msg_IsStarred = False, msg_IsSpam = False, msg_IsDeleted = False,
      msg_IsDraft = False, msg_IsAnswered = False, msg_IMAPUID = 0, msg_InReplyTo = [],
      msg_References = [], msg_ReceivedAt = now, msg_SentAt = None, msg_ThreadID = [],
      msg_BlobID = [], msg_AllHeaders = [], msg_CreatedAt = now, msg_UpdatedAt = now\<rparr>"

definition Message_Validate :: "Message \<Rightarrow> ValidationErrors" where
  "Message_Validate m =
     errs_Add (ID_IsEmpty (msg_ID m)) ''id'' ''id is required'' @
     errs_Add (ID_IsEmpty (msg_MailboxID m)) ''mailboxId'' ''mailbox id is required'' @
     errs_Add (EmailAddress_IsEmpty (msg_From m)) ''from'' ''from address is required'' @
     errs_Add (length (msg_To m) = 0) ''to'' ''at least one recipient is required'' @
     errs_Add (\<not> MessageStatus_IsValid (msg_Status m)) ''status'' ''invalid status'' @
     errs_Add (msg_Size m < 0) ''size'' ''size cannot be negative'' @
     errs_Add (msg_AttachmentCount m < 0) ''attachmentCount'' ''attachment count cannot be negative''"

definition Message_MarkAsRead :: "Timestamp \<Rightarrow> Message \<Rightarrow> bool \<times> Message" where
  "Message_MarkAsRead now m =
     (if msg_Status m = MessageUnread
      then (True, m\<lparr>msg_Status := MessageRead, msg_UpdatedAt := now\<rparr>) else (False, m))"

definition Message_MarkAsUnread :: "Timestamp \<Rightarrow> Message \<Rightarrow> bool \<times> Message" where
  "Message_MarkAsUnread now m =
     (if msg_Status m = MessageRead
      then (True, m\<lparr>msg_Status := MessageUnread, msg_UpdatedAt := now\<rparr>) else (False, m))"

definition IsRead :: "Message \<Rightarrow> bool" where
  "IsRead m \<longleftrightarrow> msg_Status m = MessageRead"

definition ToggleStar :: "Timestamp \<Rightarrow> Message \<Rightarrow> Message" where
  "ToggleStar now m = m\<lparr>msg_IsStarred := \<not> msg_IsStarred m, msg_UpdatedAt := now\<rparr>"

definition Message_Star :: "Timestamp \<Rightarrow> Message \<Rightarrow> Message" where
  "Message_Star now m = m\<lparr>msg_IsStarred := True, msg_UpdatedAt := now\<rparr>"

definition Message_Unstar :: "Timestamp \<Rightarrow> Message \<Rightarrow> Message" where
  "Message_Unstar now m = m\<lparr>msg_IsStarred := False, msg_UpdatedAt := now\<rparr>"

definition Message_MarkAsSpam :: "Timestamp \<Rightarrow> Message \<Rightarrow> Message" where
  "Message_MarkAsSpam now m = m\<lparr>msg_IsSpam := True, msg_UpdatedAt := now\<rparr>"

definition Message_MarkAsNotSpam :: "Timestamp \<Rightarrow> Message \<Rightarrow> Message" where
  "Message_MarkAsNotSpam now m = m\<lparr>msg_IsSpam := False, msg_UpdatedAt := now\<rparr>"

definition HasAttachments :: "Message \<Rightarrow> bool" where
  "HasAttachments m \<longleftrightarrow> msg_AttachmentCount m > 0"

text \<open>
  \<^verbatim>\<open>stripHTMLTags\<close> visits runes; on valid UTF-8 no byte of a longer rune is an angle bracket, so a pass
  over the bytes keeps the same ones.
\<close>

fun strip_tags_from :: "bool \<Rightarrow> string \<Rightarrow> string" where
  "strip_tags_from inTag [] = []"
| "strip_tags_from inTag (r # rs) =
     (if r = CHR ''<'' then strip_tags_from True rs
      else if r = CHR ''>'' then strip_tags_from False rs
      else if \<not> inTag then r # strip_tags_from inTag rs
      else strip_tags_from inTag rs)"

definition stripHTMLTags :: "string \<Rightarrow> string" where
  "stripHTMLTags s = strip_tags_from False s"

text \<open>A negative \<open>maxLength\<close> makes the slice \<^verbatim>\<open>body[:maxLength]\<close> panic: \<open>None\<close>.\<close>

definition GetPreview :: "int \<Rightarrow> Message \<Rightarrow> string option" where
  "GetPreview maxLength m =
     (let body = (if msg_TextBody m = [] then stripHTMLTags (msg_HTMLBody m) else msg_TextBody m);
          body = Join (Fields body) '' ''
      in if int (length body) \<le> maxLength then Some body
         else if maxLength < 0 then None
         else Some (take (nat maxLength) body @ ''...''))"

definition GetHeader :: "string \<Rightarrow> Message \<Rightarrow> string" where
  "GetHeader name m =
     (case map_of (msg_Headers m) name of
        Some v \<Rightarrow> v
      | None \<Rightarrow>
          (case find (\<lambda>(k, _). ToLower k = ToLower name) (msg_Headers m) of
             Some (_, v) \<Rightarrow> v
           | None \<Rightarrow> []))"

definition SetHeader :: "string \<Rightarrow> string \<Rightarrow> Message \<Rightarrow> Message" where
  "SetHeader name v m =
     m\<lparr>msg_Headers :=
         (if name \<in> fst ` set (msg_Headers m)
          then map (\<lambda>(k, w). (k, if k = name then v else w)) (msg_Headers m)
          else msg_Headers m @ [(name, v)])\<rparr>"

definition AddRecipient :: "string \<Rightarrow> string \<Rightarrow> Message \<Rightarrow> Message" where
  "AddRecipient name address m =
     m\<lparr>msg_To := msg_To m @ [\<lparr>ea_Name = name, ea_Address = address\<rparr>]\<rparr>"

definition AddCc :: "string \<Rightarrow> string \<Rightarrow> Message \<Rightarrow> Message" where
  "AddCc name address m = m\<lparr>msg_Cc := msg_Cc m @ [\<lparr>ea_Name = name, ea_Address = address\<rparr>]\<rparr>"

definition AddBcc :: "string \<Rightarrow> string \<Rightarrow> Message \<Rightarrow> Message" where
  "AddBcc name address m = m\<lparr>msg_Bcc := msg_Bcc m @ [\<lparr>ea_Name = name, ea_Address = address\<rparr>]\<rparr>"

definition GetAllRecipients :: "Message \<Rightarrow> EmailAddress list" where
  "GetAllRecipients m = msg_To m @ msg_Cc m @ msg_Bcc m"

section \<open>Users\<close>

record User =
  usr_ID :: ID
  usr_Username :: string
  usr_Email :: string
  usr_PasswordHash :: string
  usr_DisplayName :: string
  usr_Role :: UserRole
  usr_Status :: UserStatus
  usr_AvatarURL :: string
  usr_Signature :: string
  usr_SignatureHTML :: string
  usr_LastLoginAt :: "Timestamp option"
  usr_CreatedAt :: Timestamp
  usr_UpdatedAt :: Timestamp

definition NewUser :: "Timestamp \<Rightarrow> ID \<Rightarrow> string \<Rightarrow> string \<Rightarrow> User" where
  "NewUser now i username email =
     \<lparr>usr_ID = i, usr_Username = username, usr_Email = email, usr_PasswordHash = [],
      usr_DisplayName = [], usr_Role = RoleUser, usr_Status = StatusPending, usr_AvatarURL = [],
      usr_Signature = [], usr_SignatureHTML = [], usr_LastLoginAt = None, usr_CreatedAt = now,
      usr_UpdatedAt = now\<rparr>"

definition username_char :: "char \<Rightarrow> bool" where
  "username_char r \<longleftrightarrow> letter_char r \<or> digit_char r \<or> r = CHR ''_'' \<or> r = CHR ''-''"

definition isValidUsername :: "string \<Rightarrow> bool" where
  "isValidUsername username \<longleftrightarrow> list_all username_char username"

text \<open>
  \<^verbatim>\<open>utf8.RuneCountInString\<close>: \<open>rune_len\<close> is the number of bytes the first rune takes, 1 for a byte
  that starts no valid encoding.
\<close>

definition cont_byte :: "nat \<Rightarrow> nat \<Rightarrow> string \<Rightarrow> bool" where
  "cont_byte lo hi s \<longleftrightarrow> (case s of [] \<Rightarrow> False | c # _ \<Rightarrow> in_range c lo hi)"

definition second_lo :: "nat \<Rightarrow> nat" where
  "second_lo b = (if b = 224 then 160 else if b = 240 then 144 else 128)"

definition second_hi :: "nat \<Rightarrow> nat" where
  "second_hi b = (if b = 237 then 159 else if b = 244 then 143 else 191)"

fun rune_len :: "string \<Rightarrow> nat" where
  "rune_len [] = 0"
| "rune_len (c # s) =
     (let b = (of_char c :: nat)
      in if 194 \<le> b \<and> b \<le> 223 \<and> cont_byte 128 191 s then 2
         else if 224 \<le> b \<and> b \<le> 239 \<and> cont_byte (second_lo b) (second_hi b) s \<and>
                 cont_byte 128 191 (tl s) then 3
         else if 240 \<le> b \<and> b \<le> 244 \<and> cont_byte (second_lo b) (second_hi b) s \<and>
                 cont_byte 128 191 (tl s) \<and> cont_byte 128 191 (tl (tl s)) then 4
         else 1)"

lemma rune_len_pos [simp]: "rune_len (c # s) > 0"
  by (simp add: Let_def)

function RuneCountInString :: "string \<Rightarrow> nat" where
  "RuneCountInString [] = 0"
| "RuneCountInString (c # s) = Suc (RuneCountInString (drop (rune_len (c # s)) (c # s)))"
  by pat_completeness auto
termination
  by (relation "measure length") (simp_all add: Let_def)

definition username_errors :: "string \<Rightarrow> ValidationErrors" where
  "username_errors u =
     (if u = [] then [(''username'', ''username is required'')]
      else if length u < 3 then [(''username'', ''username must be at least 3 characters'')]
      else if length u > 50 then [(''username'', ''username must be at most 50 characters'')]
      else errs_Add (\<not> isValidUsername u) ''username''
             ''username must contain only alphanumeric characters, underscores, and hyphens'')"

definition User_Validate :: "User \<Rightarrow> ValidationErrors" where
  "User_Validate u =
     errs_Add (ID_IsEmpty (usr_ID u)) ''id'' ''id is required'' @
     username_errors (usr_Username u) @
     (if usr_Email u = [] then [(''email'', ''email is required'')]
      else errs_Add (\<not> isValidEmail (usr_Email u)) ''email'' ''email format is invalid'') @
     errs_Add (\<not> UserRole_IsValid (usr_Role u)) ''role'' ''invalid role'' @
     errs_Add (\<not> UserStatus_IsValid (usr_Status u)) ''status'' ''invalid status'' @
     errs_Add (usr_DisplayName u \<noteq> [] \<and> RuneCountInString (usr_DisplayName u) > 100)
       ''displayName'' ''display name must be at most 100 characters''"

definition SetPassword :: "Timestamp \<Rightarrow> string \<Rightarrow> User \<Rightarrow> User" where
  "SetPassword now hash u = u\<lparr>usr_PasswordHash := hash, usr_UpdatedAt := now\<rparr>"

definition Activate :: "Timestamp \<Rightarrow> User \<Rightarrow> User" where
  "Activate now u = u\<lparr>usr_Status := StatusActive, usr_UpdatedAt := now\<rparr>"

definition Deactivate :: "Timestamp \<Rightarrow> User \<Rightarrow> User" where
  "Deactivate now u = u\<lparr>usr_Status := StatusInactive, usr_UpdatedAt := now\<rparr>"

definition IsActive :: "User \<Rightarrow> bool" where
  "IsActive u \<longleftrightarrow> usr_Status u = StatusActive"

definition IsAdmin :: "User \<Rightarrow> bool" where
  "IsAdmin u \<longleftrightarrow> usr_Role u = RoleAdmin"

definition CanManageUsers :: "User \<Rightarrow> bool" where
  "CanManageUsers u \<longleftrightarrow> usr_Role u = RoleAdmin"

definition CanManageMailboxes :: "User \<Rightarrow> bool" where
  "CanManageMailboxes u \<longleftrightarrow> usr_Role u = RoleAdmin \<or> usr_Role u = RoleUser"

definition CanViewMessages :: "User \<Rightarrow> bool" where
  "CanViewMessages u \<longleftrightarrow>
     usr_Role u = RoleAdmin \<or> usr_Role u = RoleUser \<or> usr_Role u = RoleViewer"

definition RecordLogin :: "Timestamp \<Rightarrow> User \<Rightarrow> User" where
  "RecordLogin now u = u\<lparr>usr_LastLoginAt := Some now\<rparr>"

definition GetDisplayName :: "User \<Rightarrow> string" where
  "GetDisplayName u = (if usr_DisplayName u \<noteq> [] then usr_DisplayName u else usr_Username u)"

record UserCreateInput =
  uci_Username :: string
  uci_Email :: string
  uci_Password :: string
  uci_DisplayName :: string
  uci_Role :: UserRole

definition UserCreateInput_Validate :: "UserCreateInput \<Rightarrow> ValidationErrors" where
  "UserCreateInput_Validate i =
     username_errors (TrimSpace (uci_Username i)) @
     (let email = TrimSpace (uci_Email i) in
      if email = [] then [(''email'', ''email is required'')]
      else errs_Add (\<not> isValidEmail email) ''email'' ''email format is invalid'') @
     (if uci_Password i = [] then [(''password'', ''password is required'')]
      else if length (uci_Password i) < 8
      then [(''password'', ''password must be at least 8 characters'')]
      else errs_Add (length (uci_Password i) > 128) ''password''
             ''password must be at most 128 characters'') @
     errs_Add (uci_Role i \<noteq> [] \<and> \<not> UserRole_IsValid (uci_Role i)) ''role'' ''invalid role'' @
     errs_Add (uci_DisplayName i \<noteq> [] \<and> RuneCountInString (uci_DisplayName i) > 100)
       ''displayName'' ''display name must be at most 100 characters''"

definition UserCreateInput_Normalize :: "UserCreateInput \<Rightarrow> UserCreateInput" where
  "UserCreateInput_Normalize i =
     i\<lparr>uci_Username := TrimSpace (uci_Username i), uci_Email := TrimSpace (ToLower (uci_Email i)),
       uci_DisplayName := TrimSpace (uci_DisplayName i)\<rparr>"

record UserUpdateInput =
  uui_DisplayName :: "string option"
  uui_Email :: "string option"
  uui_Role :: "UserRole option"
  uui_Status :: "UserStatus option"
  uui_AvatarURL :: "string option"

definition UserUpdateInput_Validate :: "UserUpdateInput \<Rightarrow> ValidationErrors" where
  "UserUpdateInput_Validate i =
     (case uui_DisplayName i of None \<Rightarrow> []
      | Some d \<Rightarrow> errs_Add (RuneCountInString d > 100) ''displayName''
          ''display name must be at most 100 characters'') @
     (case uui_Email i of None \<Rightarrow> []
      | Some e \<Rightarrow>
          (let email = TrimSpace e in
           if email = [] then [(''email'', ''email cannot be empty'')]
           else errs_Add (\<not> isValidEmail email) ''email'' ''email format is invalid'')) @
     (case uui_Role i of None \<Rightarrow> []
      | Some r \<Rightarrow> errs_Add (\<not> UserRole_IsValid r) ''role'' ''invalid role'') @
     (case uui_Status i of None \<Rightarrow> []
      | Some st \<Rightarrow> errs_Add (\<not> UserStatus_IsValid st) ''status'' ''invalid status'')"

definition UserUpdateInput_Apply :: "Timestamp \<Rightarrow> UserUpdateInput \<Rightarrow> User \<Rightarrow> User" where
  "UserUpdateInput_Apply now i u =
     (let u = set_opt (uui_DisplayName i) (\<lambda>v. usr_DisplayName_update (\<lambda>_. TrimSpace v)) u;
          u = set_opt (uui_Email i) (\<lambda>v. usr_Email_update (\<lambda>_. TrimSpace (ToLower v))) u;
          u = set_opt (uui_Role i) (\<lambda>v. usr_Role_update (\<lambda>_. v)) u;
          u = set_opt (uui_Status i) (\<lambda>v. usr_Status_update (\<lambda>_. v)) u;
          u = set_opt (uui_AvatarURL i) (\<lambda>v. usr_AvatarURL_update (\<lambda>_. TrimSpace v)) u
      in u\<lparr>usr_UpdatedAt := now\<rparr>)"

section \<open>Validation lemmas\<close>

lemma email_domain_iff: "email_domain d \<longleftrightarrow> one_or_more email_domain_char d"
proof -
  have "one_or_more email_domain_char d"
    if "k < length d" "one_or_more email_domain_char (take k d)" "email_tld (drop k d)" for k
  proof -
    from that(3) have "list_all email_domain_char (drop k d)"
      by (cases "drop k d") (auto simp: email_domain_char_def list_all_iff)
    then have "list_all email_domain_char (take k d @ drop k d)"
      using that(2) by (simp only: one_or_more_def list_all_append simp_thms)
    with that(1) show ?thesis
      by (auto simp: one_or_more_def)
  qed
  then show ?thesis
    by (auto simp: email_domain_def list_ex_iff)
qed

lemma isValidEmail_iff:
  "isValidEmail e \<longleftrightarrow> (\<exists>l d. e = l @ CHR ''@'' # d \<and> one_or_more email_local_char l \<and>
     one_or_more email_domain_char d)"
proof
  assume "isValidEmail e"
  then obtain k where "k < length e" "one_or_more email_local_char (take k e)" "e ! k = CHR ''@''"
    "one_or_more email_domain_char (drop (Suc k) e)"
    by (auto simp: isValidEmail_def email_domain_iff list_ex_iff)
  then show "\<exists>l d. e = l @ CHR ''@'' # d \<and> one_or_more email_local_char l \<and>
      one_or_more email_domain_char d"
    by (metis id_take_nth_drop)
next
  assume "\<exists>l d. e = l @ CHR ''@'' # d \<and> one_or_more email_local_char l \<and>
      one_or_more email_domain_char d"
  then obtain l d where "e = l @ CHR ''@'' # d" "one_or_more email_local_char l"
    "one_or_more email_domain_char d" by blast
  then show "isValidEmail e"
    by (auto simp: isValidEmail_def email_domain_iff list_ex_iff intro!: bexI [of _ "length l"])
qed

lemma lower_char_letter [simp]: "letter_char (lower_char c) = letter_char c"
  by (auto simp: letter_char_def lower_char_def in_range_def)

lemma lower_char_same: "\<not> letter_char c \<Longrightarrow> lower_char c = c"
  by (auto simp: letter_char_def lower_char_def in_range_def)

lemma lower_char_digit [simp]: "digit_char (lower_char c) = digit_char c"
  by (auto simp: digit_char_def lower_char_def in_range_def)

lemma lower_char_email [simp]:
  "email_local_char c \<Longrightarrow> email_local_char (lower_char c)"
  "email_domain_char c \<Longrightarrow> email_domain_char (lower_char c)"
  using lower_char_same [of c]
  by (cases "letter_char c"; force simp: email_local_char_def email_domain_char_def)+

lemma one_or_more_ToLower:
  "one_or_more P s \<Longrightarrow> (\<And>c. P c \<Longrightarrow> P (lower_char c)) \<Longrightarrow> one_or_more P (ToLower s)"
  by (auto simp: one_or_more_def ToLower_def list_all_iff)

lemma lower_char_at [simp]: "lower_char CHR ''@'' = CHR ''@''"
  by (simp add: lower_char_def)

lemma isValidEmail_ToLower: "isValidEmail e \<Longrightarrow> isValidEmail (ToLower e)"
  unfolding isValidEmail_iff
  by (auto intro!: one_or_more_ToLower) (metis ToLower_append ToLower_def list.simps(9) lower_char_at
      lower_char_email one_or_more_ToLower)


lemma space_char_lower [simp]: "space_char (lower_char c) = space_char c"
  by (auto simp: space_char_def lower_char_def Let_def)

lemma dropWhile_space_ToLower: "dropWhile space_char (ToLower s) = ToLower (dropWhile space_char s)"
  by (induction s) (auto simp: ToLower_def)

lemma rev_ToLower: "rev (ToLower s) = ToLower (rev s)"
  by (simp add: ToLower_def rev_map)

lemma TrimSpace_ToLower: "TrimSpace (ToLower s) = ToLower (TrimSpace s)"
  by (simp add: TrimSpace_def dropWhile_space_ToLower rev_ToLower)

lemma dropWhile_snoc: "\<not> P c \<Longrightarrow> dropWhile P (xs @ [c]) = dropWhile P xs @ [c]"
  by (induction xs) auto

lemma dropWhile_rev_trimmed:
  assumes "t = [] \<or> \<not> space_char (hd t)"
  shows "dropWhile space_char (rev (dropWhile space_char (rev t))) = rev (dropWhile space_char (rev t))"
  using assms by (cases t) (auto simp: dropWhile_snoc)

lemma TrimSpace_idem [simp]: "TrimSpace (TrimSpace s) = TrimSpace s"
proof -
  have "dropWhile space_char s = [] \<or> \<not> space_char (hd (dropWhile space_char s))"
    by (metis hd_dropWhile)
  then show ?thesis
    unfolding TrimSpace_def by (simp add: dropWhile_rev_trimmed dropWhile_idem)
qed

lemma length_TrimSpace: "length (TrimSpace s) \<le> length s"
  unfolding TrimSpace_def by (metis length_dropWhile_le length_rev order_trans)

text \<open>An ASCII byte is a rune of its own wherever it stands.\<close>

lemma cont_byte_snoc: "(of_char c :: nat) < 128 \<Longrightarrow> 128 \<le> lo \<Longrightarrow> cont_byte lo hi (s @ [c]) = cont_byte lo hi s"
  by (cases s) (auto simp: cont_byte_def in_range_def)

lemma cont_byte_simps:
  "cont_byte lo hi [] = False" "cont_byte lo hi (d # s) = in_range d lo hi"
  by (simp_all add: cont_byte_def)

lemma cont_byte_snoc_tl:
  assumes "(of_char c :: nat) < 128" and "128 \<le> lo" and "s \<noteq> []"
  shows "cont_byte lo hi (tl (s @ [c])) = cont_byte lo hi (tl s)"
  using assms by (cases s) (auto simp: cont_byte_snoc)

lemma second_lo_ge [simp]: "128 \<le> second_lo b"
  by (simp add: second_lo_def)

lemma rune_len_le: "rune_len s \<le> length s"
proof (cases s)
  case (Cons c t)
  then show ?thesis
    by (cases t; cases "tl t"; cases "tl (tl t)") (simp_all add: Let_def cont_byte_simps)
qed simp

lemma rune_len_snoc:
  assumes "(of_char c :: nat) < 128" and "s \<noteq> []"
  shows "rune_len (s @ [c]) = rune_len s"
proof -
  obtain d t where s: "s = d # t" using assms(2) by (cases s) auto
  note snoc = cont_byte_snoc [OF assms(1)] cont_byte_snoc_tl [OF assms(1)]
  consider "t = []" | e where "t = [e]" | e f u where "t = e # f # u"
    by (metis list.exhaust)
  then show ?thesis
    by cases (use assms(1) in \<open>simp_all add: s Let_def snoc cont_byte_simps in_range_def [of c]\<close>)
qed

lemma RuneCount_snoc: "(of_char c :: nat) < 128 \<Longrightarrow> RuneCountInString (s @ [c]) = Suc (RuneCountInString s)"
proof (induction s rule: RuneCountInString.induct)
  case (2 d s)
  have len: "rune_len ((d # s) @ [c]) = rune_len (d # s)" "rune_len (d # s) \<le> length (d # s)"
    using rune_len_snoc [of c "d # s"] rune_len_le [of "d # s"] 2 by auto
  from this have "drop (rune_len (d # s)) (d # s @ [c]) = drop (rune_len (d # s)) (d # s) @ [c]"
    using drop_append [of "rune_len (d # s)" "d # s" "[c]"] by (simp del: rune_len.simps drop_append)
  then show ?case
    using 2 len by (simp del: rune_len.simps)
qed simp

lemma space_char_ascii: "space_char c \<Longrightarrow> (of_char c :: nat) < 128"
  by (auto simp: space_char_def Let_def)

lemma RuneCount_ascii: "(of_char c :: nat) < 128 \<Longrightarrow> RuneCountInString (c # s) = Suc (RuneCountInString s)"
  by simp

lemma RuneCount_dropWhile: "RuneCountInString (dropWhile space_char s) \<le> RuneCountInString s"
proof (induction s)
  case (Cons c s)
  then show ?case
    using RuneCount_ascii [OF space_char_ascii, of c s] by (simp del: RuneCountInString.simps) 
qed simp

lemma RuneCount_dropWhile_rev:
  "RuneCountInString (rev (dropWhile space_char s)) \<le> RuneCountInString (rev s)"
proof (induction s)
  case (Cons c s)
  then show ?case
    using RuneCount_snoc [OF space_char_ascii, of c "rev s"] by (auto simp del: RuneCountInString.simps)
qed simp

lemma RuneCount_TrimSpace: "RuneCountInString (TrimSpace s) \<le> RuneCountInString s"
  unfolding TrimSpace_def
  by (metis RuneCount_dropWhile RuneCount_dropWhile_rev order_trans rev_rev_ident)

section \<open>Properties\<close>

lemma isValidEmail_not_Nil: "isValidEmail e \<Longrightarrow> e \<noteq> []"
  by (auto simp: isValidEmail_def)

lemma User_Validate_Nil:
  "User_Validate u = [] \<longleftrightarrow> usr_ID u \<noteq> [] \<and> username_errors (usr_Username u) = [] \<and>
     isValidEmail (usr_Email u) \<and> UserRole_IsValid (usr_Role u) \<and>
     UserStatus_IsValid (usr_Status u) \<and> RuneCountInString (usr_DisplayName u) \<le> 100"
  by (auto simp: User_Validate_def ID_IsEmpty_def dest: isValidEmail_not_Nil)

lemma UserUpdateInput_Validate_Nil:
  "UserUpdateInput_Validate i = [] \<longleftrightarrow>
     (\<forall>d. uui_DisplayName i = Some d \<longrightarrow> RuneCountInString d \<le> 100) \<and>
     (\<forall>e. uui_Email i = Some e \<longrightarrow> isValidEmail (TrimSpace e)) \<and>
     (\<forall>r. uui_Role i = Some r \<longrightarrow> UserRole_IsValid r) \<and>
     (\<forall>st. uui_Status i = Some st \<longrightarrow> UserStatus_IsValid st)"
  by (auto simp: UserUpdateInput_Validate_def Let_def isValidEmail_def split: option.splits)

lemma RuneCount_TrimSpace_le: "RuneCountInString s \<le> n \<Longrightarrow> RuneCountInString (TrimSpace s) \<le> n"
  using RuneCount_TrimSpace le_trans by blast

lemma isValidEmail_normalized: "isValidEmail (TrimSpace e) \<Longrightarrow> isValidEmail (TrimSpace (ToLower e))"
  by (simp add: TrimSpace_ToLower isValidEmail_ToLower)

lemma UserUpdateInput_Apply_fields [simp]:
  "usr_ID (UserUpdateInput_Apply now i u) = usr_ID u"
  "usr_Username (UserUpdateInput_Apply now i u) = usr_Username u"
  "usr_Email (UserUpdateInput_Apply now i u) =
     (case uui_Email i of None \<Rightarrow> usr_Email u | Some e \<Rightarrow> TrimSpace (ToLower e))"
  "usr_Role (UserUpdateInput_Apply now i u) = (case uui_Role i of None \<Rightarrow> usr_Role u | Some r \<Rightarrow> r)"
  "usr_Status (UserUpdateInput_Apply now i u) = (case uui_Status i of None \<Rightarrow> usr_Status u | Some r \<Rightarrow> r)"
  "usr_DisplayName (UserUpdateInput_Apply now i u) =
     (case uui_DisplayName i of None \<Rightarrow> usr_DisplayName u | Some d \<Rightarrow> TrimSpace d)"
  by (simp_all add: UserUpdateInput_Apply_def set_opt_def Let_def split: option.splits)

text \<open>
  An accepted update never makes a valid user invalid: when the update passes its own
  validation, the user it is applied to still passes \<^verbatim>\<open>User.Validate\<close>, although \<^verbatim>\<open>Apply\<close> stores the
  trimmed and lower-cased fields and not the ones that were checked.
\<close>

theorem user_update_keeps_valid:
  assumes "User_Validate u = []" and "UserUpdateInput_Validate i = []"
  shows "User_Validate (UserUpdateInput_Apply now i u) = []"
  using assms unfolding User_Validate_Nil UserUpdateInput_Validate_Nil
  by (auto simp: RuneCount_TrimSpace_le isValidEmail_normalized split: option.splits)

theorem user_update_keeps_valid_witness:
  "User_Validate (UserUpdateInput_Apply 7
      \<lparr>uui_DisplayName = Some ''  Ann  '', uui_Email = Some '' Ann@Example.ORG'', uui_Role = None,
       uui_Status = Some StatusActive, uui_AvatarURL = None\<rparr> (NewUser 3 ''u1'' ''ann'' ''ann@localhost'')) = []"
  by (rule user_update_keeps_valid) code_simp+

lemma le_TotalPages_iff:
  assumes "0 < pg_PerPage p" and "0 \<le> pg_Total p"
  shows "q + 1 \<le> Pagination_TotalPages p \<longleftrightarrow> q * pg_PerPage p < pg_Total p"
proof -
  define n t d r where "n = pg_PerPage p" and "t = pg_Total p" and "d = t div n" and "r = t mod n"
  have t: "t = d * n + r" and r: "0 \<le> r" "r < n" and n: "0 < n"
    using assms by (simp_all add: n_def t_def d_def r_def)
  have pages: "Pagination_TotalPages p = (if r > 0 then d + 1 else d)"
    using assms by (cases "pg_Total p = 0") (simp_all add: Pagination_TotalPages_def Let_def
        signed_divide_int_def signed_modulo_int_def n_def t_def d_def r_def)
  consider "q \<le> d - 1" | "q = d" | "q \<ge> d + 1" by linarith
  then have "q + 1 \<le> (if r > 0 then d + 1 else d) \<longleftrightarrow> q * n < d * n + r"
  proof cases
    case 1
    then have "q * n \<le> (d - 1) * n" using n by (simp add: mult_right_mono)
    with 1 n r show ?thesis by (simp add: algebra_simps)
  next
    case 3
    then have "(d + 1) * n \<le> q * n" using n by (simp add: mult_right_mono)
    with 3 n r show ?thesis by (simp add: algebra_simps)
  qed (use r in auto)
  then show ?thesis
    unfolding pages n_def [symmetric] t_def [symmetric] t [symmetric] .
qed

text \<open>
  Paging loses and repeats nothing: with a positive page size every item index below the total
  lies on exactly one page between 1 and \<^verbatim>\<open>TotalPages\<close>, and \<^verbatim>\<open>HasNext\<close> holds exactly when items remain
  after the current page.
\<close>

theorem pagination_covers:
  assumes "0 < pg_PerPage p" and "0 \<le> pg_Total p" and "1 \<le> pg_Page p"
  shows "(Pagination_HasNext p \<longleftrightarrow> Pagination_Offset p + pg_PerPage p < pg_Total p) \<and>
         (\<forall>k. 0 \<le> k \<and> k < pg_Total p \<longrightarrow>
           (\<exists>!q. 1 \<le> q \<and> q \<le> Pagination_TotalPages p \<and>
              Pagination_Offset (p\<lparr>pg_Page := q\<rparr>) \<le> k \<and>
              k < Pagination_Offset (p\<lparr>pg_Page := q\<rparr>) + pg_PerPage p))"
proof (intro conjI allI impI)
  show "Pagination_HasNext p \<longleftrightarrow> Pagination_Offset p + pg_PerPage p < pg_Total p"
    using le_TotalPages_iff [OF assms(1,2), of "pg_Page p"] assms(3)
    by (auto simp: Pagination_HasNext_def Pagination_Offset_def algebra_simps)
next
  fix k assume k: "0 \<le> k \<and> k < pg_Total p"
  have on_page: "(q - 1) * pg_PerPage p \<le> k \<and> k < (q - 1) * pg_PerPage p + pg_PerPage p
      \<longleftrightarrow> q = k div pg_PerPage p + 1" for q
  proof -
    define n d r where "n = pg_PerPage p" and "d = k div n" and "r = k mod n"
    have "k = d * n + r" "0 \<le> r" "r < n"
      using assms(1) by (simp_all add: n_def d_def r_def)
    moreover have "k div n = q - 1" if "(q - 1) * n \<le> k" "k < (q - 1) * n + n"
      using that int_div_pos_eq [of k n "q - 1" "k - (q - 1) * n"] by (simp add: algebra_simps)
    ultimately show ?thesis
      unfolding n_def [symmetric] d_def [symmetric] by (auto simp: algebra_simps d_def)
  qed
  let ?q = "k div pg_PerPage p + 1"
  have "?q \<le> Pagination_TotalPages p"
    using le_TotalPages_iff [OF assms(1,2), of "k div pg_PerPage p"] on_page [of ?q] k by auto
  moreover have "1 \<le> ?q"
    using k assms(1) by (simp add: pos_imp_zdiv_nonneg_iff)
  moreover have "Pagination_Offset (p\<lparr>pg_Page := q\<rparr>) = (q - 1) * pg_PerPage p" if "1 \<le> q" for q
    using that by (simp add: Pagination_Offset_def)
  ultimately have "(1 \<le> q \<and> q \<le> Pagination_TotalPages p \<and>
      Pagination_Offset (p\<lparr>pg_Page := q\<rparr>) \<le> k \<and>
      k < Pagination_Offset (p\<lparr>pg_Page := q\<rparr>) + pg_PerPage p) = (q = ?q)" for q
    using on_page [of q] by metis
  then show "\<exists>!q. 1 \<le> q \<and> q \<le> Pagination_TotalPages p \<and>
      Pagination_Offset (p\<lparr>pg_Page := q\<rparr>) \<le> k \<and> k < Pagination_Offset (p\<lparr>pg_Page := q\<rparr>) + pg_PerPage p"
    by simp
qed

theorem pagination_covers_witness:
  "\<exists>!q. 1 \<le> q \<and> q \<le> Pagination_TotalPages \<lparr>pg_Page = 1, pg_PerPage = 10, pg_Total = 25\<rparr> \<and>
     Pagination_Offset \<lparr>pg_Page = q, pg_PerPage = 10, pg_Total = 25\<rparr> \<le> 24 \<and>
     24 < Pagination_Offset \<lparr>pg_Page = q, pg_PerPage = 10, pg_Total = 25\<rparr> + 10"
  using pagination_covers [of "\<lparr>pg_Page = 1, pg_PerPage = 10, pg_Total = 25\<rparr>", THEN conjunct2,
      THEN spec, of 24] by simp

end
