(* ===== verification/Sqlite_Base.thy ===== *)
theory Sqlite_Base
  imports Domain_Model "HOL-Library.List_Lexorder" "HOL-Library.Char_ord"
begin

text \<open>
  The SQLite database under \<^verbatim>\<open>internal/repository/sqlite\<close>: the rows of the tables \<^verbatim>\<open>mailboxes\<close>,
  \<^verbatim>\<open>messages\<close>, \<^verbatim>\<open>message_recipients\<close> and \<^verbatim>\<open>attachments\<close>, the constraints the migrations declare, and the statements
  the repositories send.

  A table is the list of its rows in rowid order, the order SQLite scans it in; SQL leaves open in
  which order rows with equal \<^verbatim>\<open>ORDER BY\<close> keys come, and the model keeps them in rowid order. A NULL is \<open>None\<close>; a column that holds JSON is its decoded
  value; INTEGER columns are unbounded here (the code never brings one near 64 bits). A statement
  that would break a constraint fails and changes nothing; other driver failures (I/O errors,
  cancelled contexts) are not modelled. A repository call maps the database to its result and the
  database it leaves, also when it fails: without a transaction earlier statements stay in effect.
\<close>

section \<open>Rows and the database\<close>

record mailboxRow =
  mr_id :: ID
  mr_user_id :: ID
  mr_name :: string
  mr_address :: string
  mr_description :: "string option"
  mr_is_catch_all :: bool
  mr_is_default :: bool
  mr_mailbox_type :: string
  mr_message_count :: int
  mr_unread_count :: int
  mr_total_size :: int
  mr_retention_days :: int
  mr_uid_next :: int
  mr_jmap_role :: string
  mr_sort_order :: int
  mr_created_at :: instant
  mr_updated_at :: instant

record messageRow =
  r_id :: ID
  r_mailbox_id :: ID
  r_message_id :: "string option"
  r_from_name :: "string option"
  r_from_address :: string
  r_subject :: "string option"
  r_text_body :: "string option"
  r_html_body :: "string option"
  r_raw_body :: bytes
  r_headers :: "(string \<times> string) list option"
  r_content_type :: string
  r_size :: int
  r_attachment_count :: int
  r_status :: string
  r_is_starred :: bool
  r_is_spam :: bool
  r_is_deleted :: bool
  r_is_draft :: bool
  r_is_answered :: bool
  r_imap_uid :: "32 word"
  r_in_reply_to :: "string option"
  r_references_list :: "string list option"
  r_received_at :: instant
  r_sent_at :: "instant option"
  r_thread_id :: string
  r_blob_id :: string
  r_created_at :: instant
  r_updated_at :: instant

record recipientRow =
  rr_message_id :: ID
  rr_recipient_type :: string
  rr_name :: "string option"
  rr_address :: string

text \<open>
  An attachment with its content: \<^verbatim>\<open>attachment_content\<close> has the attachment's ID as primary key and as
  foreign key, so an attachment has at most one content row and none outlives its attachment.
\<close>

record attachmentRow =
  ar_id :: ID
  ar_message_id :: ID
  ar_filename :: string
  ar_content_type :: string
  ar_size :: int
  ar_content_id :: "string option"
  ar_disposition :: string
  ar_storage_path :: "string option"
  ar_checksum :: "string option"
  ar_is_inline :: bool
  ar_created_at :: instant
  ar_content :: "bytes option"

record userRow =
  ur_id :: ID
  ur_username :: string
  ur_email :: string
  ur_password_hash :: string
  ur_display_name :: "string option"
  ur_role :: string
  ur_status :: string
  ur_avatar_url :: "string option"
  ur_signature :: string
  ur_signature_html :: string
  ur_last_login_at :: "instant option"
  ur_deleted_at :: "instant option"
  ur_created_at :: instant
  ur_updated_at :: instant

record db =
  db_users :: "userRow list"
  db_mailboxes :: "mailboxRow list"
  db_messages :: "messageRow list"
  db_recipients :: "recipientRow list"
  db_attachments :: "attachmentRow list"

section \<open>The schema\<close>

text \<open>
  Primary keys, the case-insensitive UNIQUE of user names, user e-mail addresses and
  \<^verbatim>\<open>mailboxes.address\<close>, the unique index of migration 008
  on \<^verbatim>\<open>(mailbox_id, imap_uid)\<close>, and the foreign keys.
\<close>

definition users_keys :: "db \<Rightarrow> bool" where
  "users_keys d \<longleftrightarrow> distinct (map ur_id (db_users d)) \<and>
     distinct (map (\<lambda>r. ToLower (ur_username r)) (db_users d)) \<and>
     distinct (map (\<lambda>r. ToLower (ur_email r)) (db_users d))"

definition mailboxes_keys :: "db \<Rightarrow> bool" where
  "mailboxes_keys d \<longleftrightarrow> distinct (map mr_id (db_mailboxes d)) \<and>
     distinct (map (\<lambda>r. ToLower (mr_address r)) (db_mailboxes d)) \<and>
     list_all (\<lambda>r. mr_user_id r \<in> ur_id ` set (db_users d)) (db_mailboxes d)"

definition messages_keys :: "db \<Rightarrow> bool" where
  "messages_keys d \<longleftrightarrow> distinct (map r_id (db_messages d)) \<and>
     distinct (map (\<lambda>r. (r_mailbox_id r, r_imap_uid r)) (db_messages d)) \<and>
     list_all (\<lambda>r. r_mailbox_id r \<in> mr_id ` set (db_mailboxes d)) (db_messages d)"

definition recipients_keys :: "db \<Rightarrow> bool" where
  "recipients_keys d \<longleftrightarrow>
     list_all (\<lambda>r. rr_message_id r \<in> r_id ` set (db_messages d)) (db_recipients d)"

definition attachments_keys :: "db \<Rightarrow> bool" where
  "attachments_keys d \<longleftrightarrow> distinct (map ar_id (db_attachments d)) \<and>
     list_all (\<lambda>r. ar_message_id r \<in> r_id ` set (db_messages d)) (db_attachments d)"

definition schema_ok :: "db \<Rightarrow> bool" where
  "schema_ok d \<longleftrightarrow> users_keys d \<and> mailboxes_keys d \<and> messages_keys d \<and> recipients_keys d \<and> attachments_keys d"

lemmas schema_defs = schema_ok_def users_keys_def mailboxes_keys_def messages_keys_def recipients_keys_def
  attachments_keys_def

section \<open>Repository calls\<close>

type_synonym 'a dbm = "db \<Rightarrow> (error + 'a) \<times> db"

definition ret :: "'a \<Rightarrow> 'a dbm" where
  "ret x = (\<lambda>d. (Inr x, d))"

definition fail :: "error \<Rightarrow> 'a dbm" where
  "fail e = (\<lambda>d. (Inl e, d))"

text \<open>\<^verbatim>\<open>x, err := m(); if err != nil { return err }; f(x)\<close>, with \<open>wrap\<close> for a \<^verbatim>\<open>fmt.Errorf("...: %w", err)\<close>.\<close>

definition andThen :: "'a dbm \<Rightarrow> ('a \<Rightarrow> 'b dbm) \<Rightarrow> 'b dbm" where
  "andThen m f = (\<lambda>d. case m d of (Inl e, d') \<Rightarrow> (Inl e, d') | (Inr x, d') \<Rightarrow> f x d')"

definition wrap :: "string \<Rightarrow> 'a dbm \<Rightarrow> 'a dbm" where
  "wrap msg m = (\<lambda>d. case m d of (Inl e, d') \<Rightarrow> (Inl (Wrapped msg e), d') | (Inr x, d') \<Rightarrow> (Inr x, d'))"

definition query :: "(db \<Rightarrow> 'a) \<Rightarrow> 'a dbm" where
  "query q = (\<lambda>d. (Inr (q d), d))"

lemma ret_apply [simp]: "ret x d = (Inr x, d)"
  by (simp add: ret_def)

lemma fail_apply [simp]: "fail e d = (Inl e, d)"
  by (simp add: fail_def)

lemma query_apply [simp]: "query q d = (Inr (q d), d)"
  by (simp add: query_def)

lemma andThen_Inl: "m d = (Inl e, d') \<Longrightarrow> andThen m f d = (Inl e, d')"
  by (simp add: andThen_def)

lemma andThen_Inr: "m d = (Inr x, d') \<Longrightarrow> andThen m f d = f x d'"
  by (simp add: andThen_def)

lemma andThen_query [simp]: "andThen (query q) f d = f (q d) d"
  by (simp add: andThen_def)

lemma andThen_ret [simp]: "andThen (ret x) f d = f x d"
  by (simp add: andThen_def)

lemma andThen_fail [simp]: "andThen (fail e) f d = (Inl e, d)"
  by (simp add: andThen_def)

lemma wrap_Inr_iff [simp]: "wrap msg m d = (Inr x, d') \<longleftrightarrow> m d = (Inr x, d')"
  by (auto simp: wrap_def split: prod.splits sum.splits)

lemma snd_wrap [simp]: "snd (wrap msg m d) = snd (m d)"
  by (auto simp: wrap_def split: prod.splits sum.splits)

lemma andThen_InrE:
  assumes "andThen m f d = (Inr y, d')"
  obtains x d1 where "m d = (Inr x, d1)" and "f x d1 = (Inr y, d')"
  using assms by (auto simp: andThen_def split: prod.splits sum.splits)

lemma snd_andThen:
  "snd (andThen m f d) = (case m d of (Inl e, d') \<Rightarrow> d' | (Inr x, d') \<Rightarrow> snd (f x d'))"
  by (auto simp: andThen_def split: prod.splits sum.splits)

section \<open>Statements\<close>

definition constraint_error :: error where
  "constraint_error = OtherError ''constraint failed''"

definition stmt :: "(db \<Rightarrow> db) \<Rightarrow> (db \<Rightarrow> 'a) \<Rightarrow> 'a dbm" where
  "stmt f n = (\<lambda>d. if schema_ok (f d) then (Inr (n d), f d) else (Inl constraint_error, d))"

definition update_where :: "('r \<Rightarrow> bool) \<Rightarrow> ('r \<Rightarrow> 'r) \<Rightarrow> 'r list \<Rightarrow> 'r list" where
  "update_where P f rs = map (\<lambda>r. if P r then f r else r) rs"

definition count_where :: "('r \<Rightarrow> bool) \<Rightarrow> 'r list \<Rightarrow> int" where
  "count_where P rs = int (length (filter P rs))"

text \<open>\<^verbatim>\<open>UPDATE ... WHERE\<close>: the number of affected rows.\<close>

definition update_mailboxes :: "(mailboxRow \<Rightarrow> bool) \<Rightarrow> (mailboxRow \<Rightarrow> mailboxRow) \<Rightarrow> int dbm" where
  "update_mailboxes P f =
     stmt (\<lambda>d. d\<lparr>db_mailboxes := update_where P f (db_mailboxes d)\<rparr>) (\<lambda>d. count_where P (db_mailboxes d))"

definition update_messages :: "(messageRow \<Rightarrow> bool) \<Rightarrow> (messageRow \<Rightarrow> messageRow) \<Rightarrow> int dbm" where
  "update_messages P f =
     stmt (\<lambda>d. d\<lparr>db_messages := update_where P f (db_messages d)\<rparr>) (\<lambda>d. count_where P (db_messages d))"

text \<open>\<^verbatim>\<open>INSERT\<close>: the new row gets the next rowid.\<close>

definition insert_mailbox :: "mailboxRow \<Rightarrow> unit dbm" where
  "insert_mailbox r = stmt (\<lambda>d. d\<lparr>db_mailboxes := db_mailboxes d @ [r]\<rparr>) (\<lambda>_. ())"

definition insert_message :: "messageRow \<Rightarrow> unit dbm" where
  "insert_message r = stmt (\<lambda>d. d\<lparr>db_messages := db_messages d @ [r]\<rparr>) (\<lambda>_. ())"

definition insert_recipient :: "recipientRow \<Rightarrow> unit dbm" where
  "insert_recipient r = stmt (\<lambda>d. d\<lparr>db_recipients := db_recipients d @ [r]\<rparr>) (\<lambda>_. ())"

text \<open>\<^verbatim>\<open>DELETE ... WHERE\<close> with \<^verbatim>\<open>ON DELETE CASCADE\<close>: messages go with their mailbox, recipients and
  attachments with their message.\<close>

definition cascade_children :: "db \<Rightarrow> db" where
  "cascade_children d = d\<lparr>db_recipients :=
     filter (\<lambda>r. rr_message_id r \<in> r_id ` set (db_messages d)) (db_recipients d),
     db_attachments := filter (\<lambda>r. ar_message_id r \<in> r_id ` set (db_messages d)) (db_attachments d)\<rparr>"

definition cascade_messages :: "db \<Rightarrow> db" where
  "cascade_messages d = cascade_children (d\<lparr>db_messages :=
     filter (\<lambda>r. r_mailbox_id r \<in> mr_id ` set (db_mailboxes d)) (db_messages d)\<rparr>)"

definition delete_messages :: "(messageRow \<Rightarrow> bool) \<Rightarrow> int dbm" where
  "delete_messages P =
     stmt (\<lambda>d. cascade_children (d\<lparr>db_messages := filter (\<lambda>r. \<not> P r) (db_messages d)\<rparr>))
       (\<lambda>d. count_where P (db_messages d))"

definition delete_mailboxes :: "(mailboxRow \<Rightarrow> bool) \<Rightarrow> int dbm" where
  "delete_mailboxes P =
     stmt (\<lambda>d. cascade_messages (d\<lparr>db_mailboxes := filter (\<lambda>r. \<not> P r) (db_mailboxes d)\<rparr>))
       (\<lambda>d. count_where P (db_mailboxes d))"

definition insert_user :: "userRow \<Rightarrow> unit dbm" where
  "insert_user r = stmt (\<lambda>d. d\<lparr>db_users := db_users d @ [r]\<rparr>) (\<lambda>_. ())"

definition update_users :: "(userRow \<Rightarrow> bool) \<Rightarrow> (userRow \<Rightarrow> userRow) \<Rightarrow> int dbm" where
  "update_users P f =
     stmt (\<lambda>d. d\<lparr>db_users := update_where P f (db_users d)\<rparr>) (\<lambda>d. count_where P (db_users d))"

text \<open>The mailboxes of a deleted user go with it, and their messages with them.\<close>

definition cascade_mailboxes :: "db \<Rightarrow> db" where
  "cascade_mailboxes d = cascade_messages (d\<lparr>db_mailboxes :=
     filter (\<lambda>r. mr_user_id r \<in> ur_id ` set (db_users d)) (db_mailboxes d)\<rparr>)"

definition delete_users :: "(userRow \<Rightarrow> bool) \<Rightarrow> int dbm" where
  "delete_users P =
     stmt (\<lambda>d. cascade_mailboxes (d\<lparr>db_users := filter (\<lambda>r. \<not> P r) (db_users d)\<rparr>))
       (\<lambda>d. count_where P (db_users d))"

definition delete_recipients :: "(recipientRow \<Rightarrow> bool) \<Rightarrow> int dbm" where
  "delete_recipients P = stmt (\<lambda>d. d\<lparr>db_recipients := filter (\<lambda>r. \<not> P r) (db_recipients d)\<rparr>)
     (\<lambda>d. count_where P (db_recipients d))"

definition insert_attachment :: "attachmentRow \<Rightarrow> unit dbm" where
  "insert_attachment r = stmt (\<lambda>d. d\<lparr>db_attachments := db_attachments d @ [r]\<rparr>) (\<lambda>_. ())"

definition update_attachments :: "(attachmentRow \<Rightarrow> bool) \<Rightarrow> (attachmentRow \<Rightarrow> attachmentRow) \<Rightarrow> int dbm" where
  "update_attachments P f =
     stmt (\<lambda>d. d\<lparr>db_attachments := update_where P f (db_attachments d)\<rparr>)
       (\<lambda>d. count_where P (db_attachments d))"

definition delete_attachments :: "(attachmentRow \<Rightarrow> bool) \<Rightarrow> int dbm" where
  "delete_attachments P = stmt (\<lambda>d. d\<lparr>db_attachments := filter (\<lambda>r. \<not> P r) (db_attachments d)\<rparr>)
     (\<lambda>d. count_where P (db_attachments d))"

text \<open>\<^verbatim>\<open>LIKE\<close>: \<^verbatim>\<open>%\<close> any run, \<^verbatim>\<open>_\<close> one character, the rest case-insensitive ASCII.\<close>

fun like :: "string \<Rightarrow> string \<Rightarrow> bool" where
  "like [] s = (s = [])"
| "like (p # ps) s =
     (if p = CHR ''%'' then like ps s \<or> (case s of [] \<Rightarrow> False | c # s' \<Rightarrow> like (p # ps) s')
      else (case s of [] \<Rightarrow> False
            | c # s' \<Rightarrow> (p = CHR ''_'' \<or> lower_char p = lower_char c) \<and> like ps s'))"

text \<open>An empty Go string is stored as NULL, and NULL is read back as the empty string.\<close>

definition NullString :: "string \<Rightarrow> string option" where
  "NullString s = (if s = [] then None else Some s)"

definition from_null :: "string option \<Rightarrow> string" where
  "from_null v = (case v of None \<Rightarrow> [] | Some s \<Rightarrow> s)"

lemma from_null_NullString [simp]: "from_null (NullString s) = s"
  by (simp add: NullString_def from_null_def)

section \<open>Ordering and paging\<close>

text \<open>The values \<^verbatim>\<open>ORDER BY\<close> compares: NULL before integers before texts, texts by bytes.\<close>

datatype sql_value = SNull | SInt int | STxt string

fun sql_le :: "sql_value \<Rightarrow> sql_value \<Rightarrow> bool" where
  "sql_le SNull _ = True"
| "sql_le (SInt i) (SInt j) = (i \<le> j)"
| "sql_le (SInt i) (STxt _) = True"
| "sql_le (STxt s) (STxt t) = (s \<le> t)"
| "sql_le _ _ = False"

instantiation sql_value :: linorder
begin

definition less_eq_sql_value :: "sql_value \<Rightarrow> sql_value \<Rightarrow> bool" where
  "less_eq_sql_value a b = sql_le a b"

definition less_sql_value :: "sql_value \<Rightarrow> sql_value \<Rightarrow> bool" where
  "less_sql_value a b = (sql_le a b \<and> \<not> sql_le b a)"

instance
proof
  fix a b c :: sql_value
  show "a < b \<longleftrightarrow> a \<le> b \<and> \<not> b \<le> a"
    by (simp add: less_eq_sql_value_def less_sql_value_def)
  show "a \<le> a"
    by (cases a) (auto simp: less_eq_sql_value_def)
  show "a \<le> b \<Longrightarrow> b \<le> c \<Longrightarrow> a \<le> c"
    by (cases a; cases b; cases c) (auto simp: less_eq_sql_value_def)
  show "a \<le> b \<Longrightarrow> b \<le> a \<Longrightarrow> a = b"
    by (cases a; cases b) (auto simp: less_eq_sql_value_def)
  show "a \<le> b \<or> b \<le> a"
    by (cases a; cases b) (auto simp: less_eq_sql_value_def)
qed

end

definition order_by :: "('r \<Rightarrow> sql_value) \<Rightarrow> SortOrder \<Rightarrow> 'r list \<Rightarrow> 'r list" where
  "order_by k ord rs = (if ord = SortDesc then rev (sort_key k (rev rs)) else sort_key k rs)"

lemma set_order_by [simp]: "set (order_by k ord rs) = set rs"
  by (simp add: order_by_def)

lemma length_order_by [simp]: "length (order_by k ord rs) = length rs"
  by (simp add: order_by_def)

lemma sorted_order_by_asc: "ord \<noteq> SortDesc \<Longrightarrow> sorted (map k (order_by k ord rs))"
  by (simp add: order_by_def)

lemma sorted_order_by_desc: "sorted (rev (map k (order_by k SortDesc rs)))"
  by (simp add: order_by_def rev_map)

text \<open>The list options of \<^verbatim>\<open>internal/repository/options.go\<close>; no query of the repositories reads a cursor.\<close>

record PaginationOptions =
  po_Page :: int
  po_PerPage :: int

definition DefaultPerPage :: int where
  "DefaultPerPage = 20"

definition MaxPerPage :: int where
  "MaxPerPage = 100"

definition PaginationOptions_Normalize :: "PaginationOptions \<Rightarrow> PaginationOptions" where
  "PaginationOptions_Normalize p =
     (let p = (if po_Page p < 1 then p\<lparr>po_Page := 1\<rparr> else p);
          p = (if po_PerPage p < 1 then p\<lparr>po_PerPage := DefaultPerPage\<rparr> else p)
      in if po_PerPage p > MaxPerPage then p\<lparr>po_PerPage := MaxPerPage\<rparr> else p)"

definition PaginationOptions_Offset :: "PaginationOptions \<Rightarrow> int" where
  "PaginationOptions_Offset p = (if po_Page p \<le> 0 then 0 else (po_Page p - 1) * po_PerPage p)"

definition PaginationOptions_Limit :: "PaginationOptions \<Rightarrow> int" where
  "PaginationOptions_Limit p = po_PerPage p"

record SortOptions =
  so_Field :: string
  so_Order :: SortOrder

record ListOptions =
  lo_Pagination :: "PaginationOptions option"
  lo_Sort :: "SortOptions option"

record 'a ListResult =
  lr_Items :: "'a list"
  lr_Total :: int
  lr_HasMore :: bool
  lr_Pagination :: "Pagination option"

definition limit_offset :: "PaginationOptions option \<Rightarrow> 'r list \<Rightarrow> 'r list" where
  "limit_offset p rs =
     (case p of
        None \<Rightarrow> rs
      | Some p \<Rightarrow> take (nat (PaginationOptions_Limit p)) (drop (nat (PaginationOptions_Offset p)) rs))"

text \<open>
  The part the two \<^verbatim>\<open>List\<close> methods share: sort, cut out the page, and fill the result. A nil
  \<^verbatim>\<open>opts\<close> is \<open>None\<close>; \<^verbatim>\<open>buildListQuery\<close> normalizes the caller's pagination before it is read.
\<close>

definition sort_rows :: "(string \<Rightarrow> 'r \<Rightarrow> sql_value) \<Rightarrow> string \<Rightarrow> ListOptions option \<Rightarrow> 'r list \<Rightarrow> 'r list" where
  "sort_rows key dflt opts rs =
     (case Option.bind opts lo_Sort of
        Some so \<Rightarrow> order_by (key (so_Field so)) (so_Order so) rs
      | None \<Rightarrow> order_by (key dflt) SortDesc rs)"

definition page_of :: "ListOptions option \<Rightarrow> PaginationOptions option" where
  "page_of opts = map_option PaginationOptions_Normalize (Option.bind opts lo_Pagination)"

definition list_result :: "ListOptions option \<Rightarrow> int \<Rightarrow> 'a list \<Rightarrow> 'a ListResult" where
  "list_result opts tot items =
     (case page_of opts of
        None \<Rightarrow> \<lparr>lr_Items = items, lr_Total = tot, lr_HasMore = False, lr_Pagination = None\<rparr>
      | Some p \<Rightarrow>
          (let pg = \<lparr>pg_Page = po_Page p, pg_PerPage = po_PerPage p, pg_Total = tot\<rparr>
           in \<lparr>lr_Items = items, lr_Total = tot, lr_HasMore = po_Page p < Pagination_TotalPages pg,
               lr_Pagination = Some pg\<rparr>))"

lemma set_sort_rows [simp]: "set (sort_rows key dflt opts rs) = set rs"
  by (simp add: sort_rows_def split: option.splits)

lemma length_sort_rows [simp]: "length (sort_rows key dflt opts rs) = length rs"
  by (simp add: sort_rows_def split: option.splits)

lemma set_limit_offset: "set (limit_offset p rs) \<subseteq> set rs"
  by (auto simp: limit_offset_def dest: in_set_takeD in_set_dropD split: option.splits)

lemma Normalize_range:
  "1 \<le> po_Page (PaginationOptions_Normalize p)"
  "1 \<le> po_PerPage (PaginationOptions_Normalize p)"
  "po_PerPage (PaginationOptions_Normalize p) \<le> MaxPerPage"
  by (auto simp: PaginationOptions_Normalize_def Let_def DefaultPerPage_def MaxPerPage_def)

end
