(* ===== verification/Sqlite_Mailboxes.thy ===== *)
theory Sqlite_Mailboxes
  imports Sqlite_Base
begin

text \<open>
  The mailbox repository of \<^verbatim>\<open>internal/repository/sqlite/mailbox.go\<close>, one definition per method, in the
  order of the file. Names carry the prefix \<open>mbx_\<close> where the message repository has a method of the
  same name. The clock is the argument \<open>now\<close>.
\<close>

section \<open>Reading rows\<close>

text \<open>Scanning an INTEGER into a \<^verbatim>\<open>uint32\<close> fails outside its range.\<close>

definition scan_uint32 :: "int \<Rightarrow> bool" where
  "scan_uint32 n \<longleftrightarrow> 0 \<le> n \<and> n < 2 ^ 32"

definition scan_error :: error where
  "scan_error = OtherError ''value out of range''"

definition toMailbox :: "mailboxRow \<Rightarrow> Mailbox" where
  "toMailbox r =
     \<lparr>mb_ID = mr_id r, mb_UserID = mr_user_id r, mb_Name = mr_name r, mb_Address = mr_address r,
      mb_Description = from_null (mr_description r), mb_IsCatchAll = mr_is_catch_all r,
      mb_IsDefault = mr_is_default r, mb_Type = mr_mailbox_type r,
      mb_UIDNext = word_of_int (mr_uid_next r), mb_MessageCount = mr_message_count r,
      mb_UnreadCount = mr_unread_count r, mb_TotalSize = mr_total_size r,
      mb_RetentionDays = mr_retention_days r, mb_Role = mr_jmap_role r,
      mb_SortOrder = mr_sort_order r, mb_CreatedAt = mr_created_at r, mb_UpdatedAt = mr_updated_at r\<rparr>"

text \<open>\<^verbatim>\<open>GetContext\<close> into a \<^verbatim>\<open>mailboxRow\<close>: no row, a row that does not scan, or the mailbox.\<close>

definition get_mailbox :: "(mailboxRow \<Rightarrow> bool) \<Rightarrow> string \<Rightarrow> error \<Rightarrow> Mailbox dbm" where
  "get_mailbox P msg missing =
     andThen (query (\<lambda>d. find P (db_mailboxes d)))
       (\<lambda>row. case row of
          None \<Rightarrow> fail missing
        | Some r \<Rightarrow> if scan_uint32 (mr_uid_next r) then ret (toMailbox r) else fail (Wrapped msg scan_error))"

definition mbx_GetByID :: "ID \<Rightarrow> Mailbox dbm" where
  "mbx_GetByID i =
     get_mailbox (\<lambda>r. mr_id r = i) ''failed to get mailbox by ID'' (NotFoundError ''mailbox'' i)"

definition GetByAddress :: "string \<Rightarrow> Mailbox dbm" where
  "GetByAddress address =
     get_mailbox (\<lambda>r. EqualFold (mr_address r) (ToLower address))
       ''failed to get mailbox by address'' (NotFoundError ''mailbox'' address)"

definition GetCatchAll :: "string \<Rightarrow> Mailbox dbm" where
  "GetCatchAll domainName =
     get_mailbox (\<lambda>r. mr_is_catch_all r \<and> like (''%@'' @ domainName) (mr_address r))
       ''failed to get catch-all mailbox'' (NotFoundError ''mailbox'' (''catch-all for '' @ domainName))"

definition GetDefault :: "ID \<Rightarrow> Mailbox dbm" where
  "GetDefault userID =
     get_mailbox (\<lambda>r. mr_user_id r = userID \<and> mr_is_default r)
       ''failed to get default mailbox'' (NotFoundError ''mailbox'' (''default for user '' @ userID))"

section \<open>Listing\<close>

record MailboxFilter =
  mf_IDs :: "ID list"
  mf_UserID :: "ID option"
  mf_UserIDs :: "ID list"
  mf_Address :: string
  mf_AddressContains :: string
  mf_Domain :: string
  mf_IsCatchAll :: "bool option"
  mf_IsDefault :: "bool option"
  mf_HasMessages :: "bool option"
  mf_HasUnread :: "bool option"
  mf_Search :: string
  mf_MinMessageCount :: "int option"
  mf_MaxMessageCount :: "int option"
  mf_MinSize :: "int option"
  mf_MaxSize :: "int option"
  mf_CreatedBefore :: "Timestamp option"
  mf_CreatedAfter :: "Timestamp option"
  mf_RetentionDays :: "int option"

definition emptyMailboxFilter :: MailboxFilter where
  "emptyMailboxFilter =
     \<lparr>mf_IDs = [], mf_UserID = None, mf_UserIDs = [], mf_Address = [], mf_AddressContains = [],
      mf_Domain = [], mf_IsCatchAll = None, mf_IsDefault = None, mf_HasMessages = None,
      mf_HasUnread = None, mf_Search = [], mf_MinMessageCount = None, mf_MaxMessageCount = None,
      mf_MinSize = None, mf_MaxSize = None, mf_CreatedBefore = None, mf_CreatedAfter = None,
      mf_RetentionDays = None\<rparr>"

text \<open>One conjunct of a WHERE clause that is only added when its filter field is set.\<close>

definition when_some :: "'a option \<Rightarrow> ('a \<Rightarrow> bool) \<Rightarrow> bool" where
  "when_some v P \<longleftrightarrow> (case v of None \<Rightarrow> True | Some x \<Rightarrow> P x)"

definition when_set :: "'a list \<Rightarrow> bool \<Rightarrow> bool" where
  "when_set s b \<longleftrightarrow> s = [] \<or> b"

lemma when_some_simps [simp]: "when_some None P = True" "when_some (Some x) P = P x"
  by (simp_all add: when_some_def)

lemma when_set_simps [simp]: "when_set [] b = True" "when_set (x # s) b = b"
  by (simp_all add: when_set_def)

text \<open>A comparison with a NULL column is not true.\<close>

definition like_null :: "string \<Rightarrow> string option \<Rightarrow> bool" where
  "like_null p v \<longleftrightarrow> (case v of None \<Rightarrow> False | Some s \<Rightarrow> like p s)"

definition mbx_where :: "MailboxFilter option \<Rightarrow> mailboxRow \<Rightarrow> bool" where
  "mbx_where flt r \<longleftrightarrow>
     (case flt of None \<Rightarrow> True
      | Some f \<Rightarrow>
         when_set (mf_IDs f) (mr_id r \<in> set (mf_IDs f)) \<and>
         when_some (mf_UserID f) (\<lambda>u. mr_user_id r = u) \<and>
         when_set (mf_UserIDs f) (mr_user_id r \<in> set (mf_UserIDs f)) \<and>
         when_set (mf_Address f) (EqualFold (mr_address r) (mf_Address f)) \<and>
         when_set (mf_AddressContains f) (like (''%'' @ mf_AddressContains f @ ''%'') (mr_address r)) \<and>
         when_set (mf_Domain f) (like (''%@'' @ mf_Domain f) (mr_address r)) \<and>
         when_some (mf_IsCatchAll f) (\<lambda>b. mr_is_catch_all r = b) \<and>
         when_some (mf_IsDefault f) (\<lambda>b. mr_is_default r = b) \<and>
         when_some (mf_HasMessages f) (\<lambda>b. if b then mr_message_count r > 0 else mr_message_count r = 0) \<and>
         when_some (mf_HasUnread f) (\<lambda>b. if b then mr_unread_count r > 0 else mr_unread_count r = 0) \<and>
         when_set (mf_Search f)
           (let p = ''%'' @ mf_Search f @ ''%''
            in like p (mr_name r) \<or> like p (mr_address r) \<or> like_null p (mr_description r)) \<and>
         when_some (mf_MinMessageCount f) (\<lambda>n. mr_message_count r \<ge> n) \<and>
         when_some (mf_MaxMessageCount f) (\<lambda>n. mr_message_count r \<le> n) \<and>
         when_some (mf_MinSize f) (\<lambda>n. mr_total_size r \<ge> n) \<and>
         when_some (mf_MaxSize f) (\<lambda>n. mr_total_size r \<le> n) \<and>
         when_some (mf_CreatedBefore f) (\<lambda>t. mr_created_at r < t) \<and>
         when_some (mf_CreatedAfter f) (\<lambda>t. mr_created_at r > t) \<and>
         when_some (mf_RetentionDays f)
           (\<lambda>n. if n = - 1 then mr_retention_days r = 0 else mr_retention_days r = n))"

text \<open>The column \<^verbatim>\<open>mapSortField\<close> picks; \<^verbatim>\<open>address\<close> sorts by its NOCASE collation.\<close>

definition mbx_sort_key :: "string \<Rightarrow> mailboxRow \<Rightarrow> sql_value" where
  "mbx_sort_key field r =
     (if field = ''name'' then STxt (mr_name r)
      else if field = ''address'' then STxt (ToLower (mr_address r))
      else if field = ''messageCount'' then SInt (mr_message_count r)
      else if field = ''unreadCount'' then SInt (mr_unread_count r)
      else if field = ''totalSize'' then SInt (mr_total_size r)
      else if field = ''createdAt'' then SInt (mr_created_at r)
      else if field = ''updatedAt'' then SInt (mr_updated_at r)
      else SInt (mr_created_at r))"

definition mbx_List :: "MailboxFilter option \<Rightarrow> ListOptions option \<Rightarrow> Mailbox ListResult dbm" where
  "mbx_List flt opts =
     andThen (query (\<lambda>d. filter (mbx_where flt) (db_mailboxes d)))
       (\<lambda>all. let rows = limit_offset (page_of opts) (sort_rows mbx_sort_key ''createdAt'' opts all)
              in if list_all (\<lambda>r. scan_uint32 (mr_uid_next r)) rows
                 then ret (list_result opts (int (length all)) (map toMailbox rows))
                 else fail (Wrapped ''failed to list mailboxes'' scan_error))"

definition ListByUser :: "ID \<Rightarrow> ListOptions option \<Rightarrow> Mailbox ListResult dbm" where
  "ListByUser userID opts = mbx_List (Some (emptyMailboxFilter\<lparr>mf_UserID := Some userID\<rparr>)) opts"

section \<open>Creating, updating and deleting\<close>

definition mbx_Exists :: "ID \<Rightarrow> bool dbm" where
  "mbx_Exists i = query (\<lambda>d. list_ex (\<lambda>r. mr_id r = i) (db_mailboxes d))"

definition ExistsByAddress :: "string \<Rightarrow> bool dbm" where
  "ExistsByAddress address =
     query (\<lambda>d. list_ex (\<lambda>r. EqualFold (mr_address r) (ToLower address)) (db_mailboxes d))"

definition row_of_mailbox :: "Mailbox \<Rightarrow> mailboxRow" where
  "row_of_mailbox m =
     \<lparr>mr_id = mb_ID m, mr_user_id = mb_UserID m, mr_name = mb_Name m,
      mr_address = ToLower (mb_Address m), mr_description = NullString (mb_Description m),
      mr_is_catch_all = mb_IsCatchAll m, mr_is_default = mb_IsDefault m,
      mr_mailbox_type = mb_Type m, mr_message_count = mb_MessageCount m,
      mr_unread_count = mb_UnreadCount m, mr_total_size = mb_TotalSize m,
      mr_retention_days = mb_RetentionDays m, mr_uid_next = uint (mb_UIDNext m),
      mr_jmap_role = mb_Role m, mr_sort_order = mb_SortOrder m,
      mr_created_at = mb_CreatedAt m, mr_updated_at = mb_UpdatedAt m\<rparr>"

text \<open>\<^verbatim>\<open>Create\<close> writes the UID counter back into the caller's mailbox: the result is that mailbox.\<close>

definition mbx_Create :: "Mailbox \<Rightarrow> Mailbox dbm" where
  "mbx_Create m =
     andThen (ExistsByAddress (mb_Address m))
       (\<lambda>exists. if exists then fail (AlreadyExistsError ''mailbox'' ''address'' (mb_Address m))
         else let m = (if mb_UIDNext m = 0 then m\<lparr>mb_UIDNext := 1\<rparr> else m)
              in andThen (wrap ''failed to create mailbox'' (insert_mailbox (row_of_mailbox m)))
                   (\<lambda>_. ret m))"

definition mbx_Update :: "instant \<Rightarrow> Mailbox \<Rightarrow> unit dbm" where
  "mbx_Update now m =
     andThen (mbx_Exists (mb_ID m))
       (\<lambda>exists. if \<not> exists then fail (NotFoundError ''mailbox'' (mb_ID m))
         else andThen (wrap ''failed to update mailbox''
                (update_mailboxes (\<lambda>r. mr_id r = mb_ID m)
                  (\<lambda>r. r\<lparr>mr_user_id := mb_UserID m, mr_name := mb_Name m,
                         mr_address := ToLower (mb_Address m),
                         mr_description := NullString (mb_Description m),
                         mr_is_catch_all := mb_IsCatchAll m, mr_is_default := mb_IsDefault m,
                         mr_message_count := mb_MessageCount m, mr_unread_count := mb_UnreadCount m,
                         mr_total_size := mb_TotalSize m, mr_retention_days := mb_RetentionDays m,
                         mr_updated_at := now\<rparr>)))
              (\<lambda>_. ret ()))"

text \<open>The check that follows an \<^verbatim>\<open>ExecContext\<close>: no affected row is a not-found error.\<close>

definition expect_rows :: "error \<Rightarrow> int dbm \<Rightarrow> unit dbm" where
  "expect_rows missing m = andThen m (\<lambda>rows. if rows = 0 then fail missing else ret ())"

definition mbx_Delete :: "ID \<Rightarrow> unit dbm" where
  "mbx_Delete i = expect_rows (NotFoundError ''mailbox'' i)
     (wrap ''failed to delete mailbox'' (delete_mailboxes (\<lambda>r. mr_id r = i)))"

definition DeleteWithMessages :: "ID \<Rightarrow> unit dbm" where
  "DeleteWithMessages i = mbx_Delete i"

definition DeleteByUser :: "ID \<Rightarrow> int dbm" where
  "DeleteByUser userID =
     wrap ''failed to delete mailboxes by user'' (delete_mailboxes (\<lambda>r. mr_user_id r = userID))"

definition mbx_Count :: "MailboxFilter option \<Rightarrow> int dbm" where
  "mbx_Count flt = query (\<lambda>d. count_where (mbx_where flt) (db_mailboxes d))"

definition CountByUser :: "ID \<Rightarrow> int dbm" where
  "CountByUser userID = query (\<lambda>d. count_where (\<lambda>r. mr_user_id r = userID) (db_mailboxes d))"

section \<open>Default and catch-all\<close>

definition ClearDefault :: "instant \<Rightarrow> ID \<Rightarrow> unit dbm" where
  "ClearDefault now userID =
     andThen (wrap ''failed to clear default mailbox''
         (update_mailboxes (\<lambda>r. mr_user_id r = userID \<and> mr_is_default r)
            (\<lambda>r. r\<lparr>mr_is_default := False, mr_updated_at := now\<rparr>)))
       (\<lambda>_. ret ())"

definition SetDefault :: "instant \<Rightarrow> ID \<Rightarrow> unit dbm" where
  "SetDefault now i =
     andThen (mbx_GetByID i)
       (\<lambda>mailbox. andThen (ClearDefault now (mb_UserID mailbox))
          (\<lambda>_. andThen (wrap ''failed to set default mailbox''
                 (update_mailboxes (\<lambda>r. mr_id r = i)
                    (\<lambda>r. r\<lparr>mr_is_default := True, mr_updated_at := now\<rparr>)))
               (\<lambda>_. ret ())))"

text \<open>The pattern of the clearing statement has no NOCASE, but \<^verbatim>\<open>LIKE\<close> ignores ASCII case anyway.\<close>

definition SetCatchAll :: "instant \<Rightarrow> ID \<Rightarrow> unit dbm" where
  "SetCatchAll now i =
     andThen (mbx_GetByID i)
       (\<lambda>mailbox. let domainName = GetDomain mailbox in
          andThen (wrap ''failed to clear catch-all''
             (update_mailboxes (\<lambda>r. mr_is_catch_all r \<and> like (''%@'' @ domainName) (mr_address r))
                (\<lambda>r. r\<lparr>mr_is_catch_all := False, mr_updated_at := now\<rparr>)))
          (\<lambda>_. andThen (wrap ''failed to set catch-all''
             (update_mailboxes (\<lambda>r. mr_id r = i)
                (\<lambda>r. r\<lparr>mr_is_catch_all := True, mr_updated_at := now\<rparr>)))
          (\<lambda>_. ret ())))"

definition ClearCatchAll :: "instant \<Rightarrow> ID \<Rightarrow> unit dbm" where
  "ClearCatchAll now i = expect_rows (NotFoundError ''mailbox'' i)
     (wrap ''failed to clear catch-all'' (update_mailboxes (\<lambda>r. mr_id r = i)
        (\<lambda>r. r\<lparr>mr_is_catch_all := False, mr_updated_at := now\<rparr>)))"

section \<open>Statistics\<close>

record MailboxStatsUpdate =
  msu_MessageCount :: "int option"
  msu_UnreadCount :: "int option"
  msu_TotalSize :: "int option"

definition UpdateStats :: "instant \<Rightarrow> ID \<Rightarrow> MailboxStatsUpdate \<Rightarrow> unit dbm" where
  "UpdateStats now i stats =
     (if msu_MessageCount stats = None \<and> msu_UnreadCount stats = None \<and> msu_TotalSize stats = None
      then ret ()
      else expect_rows (NotFoundError ''mailbox'' i)
        (wrap ''failed to update mailbox stats'' (update_mailboxes (\<lambda>r. mr_id r = i)
          (\<lambda>r. (set_opt (msu_MessageCount stats) (\<lambda>v. mr_message_count_update (\<lambda>_. v))
                (set_opt (msu_UnreadCount stats) (\<lambda>v. mr_unread_count_update (\<lambda>_. v))
                (set_opt (msu_TotalSize stats) (\<lambda>v. mr_total_size_update (\<lambda>_. v)) r)))
                \<lparr>mr_updated_at := now\<rparr>))))"

text \<open>
  \<^verbatim>\<open>UPDATE ... RETURNING uid_next - 1\<close>: the row is already updated when the value is scanned, so the
  assigned UID is the old counter.
\<close>

definition bump_row :: "instant \<Rightarrow> int \<Rightarrow> bool \<Rightarrow> mailboxRow \<Rightarrow> mailboxRow" where
  "bump_row now sz isUnread r =
     r\<lparr>mr_message_count := mr_message_count r + 1,
       mr_unread_count := (if isUnread then mr_unread_count r + 1 else mr_unread_count r),
       mr_total_size := mr_total_size r + sz, mr_uid_next := mr_uid_next r + 1, mr_updated_at := now\<rparr>"

definition IncrementMessageCount :: "instant \<Rightarrow> ID \<Rightarrow> int \<Rightarrow> bool \<Rightarrow> 32 word dbm" where
  "IncrementMessageCount now i sz isUnread =
     andThen (wrap ''failed to increment message count''
         (update_mailboxes (\<lambda>r. mr_id r = i) (bump_row now sz isUnread)))
       (\<lambda>_. andThen (query (\<lambda>d. find (\<lambda>r. mr_id r = i) (db_mailboxes d)))
          (\<lambda>row. case row of
             None \<Rightarrow> fail (NotFoundError ''mailbox'' i)
           | Some r \<Rightarrow>
               (if scan_uint32 (mr_uid_next r - 1) then ret (word_of_int (mr_uid_next r - 1))
                else fail (Wrapped ''failed to increment message count'' scan_error))))"

definition drop_row :: "instant \<Rightarrow> int \<Rightarrow> bool \<Rightarrow> mailboxRow \<Rightarrow> mailboxRow" where
  "drop_row now sz wasUnread r =
     r\<lparr>mr_message_count := max 0 (mr_message_count r - 1),
       mr_unread_count := (if wasUnread then max 0 (mr_unread_count r - 1) else mr_unread_count r),
       mr_total_size := max 0 (mr_total_size r - sz), mr_updated_at := now\<rparr>"

definition DecrementMessageCount :: "instant \<Rightarrow> ID \<Rightarrow> int \<Rightarrow> bool \<Rightarrow> unit dbm" where
  "DecrementMessageCount now i sz wasUnread = expect_rows (NotFoundError ''mailbox'' i)
     (wrap ''failed to decrement message count''
        (update_mailboxes (\<lambda>r. mr_id r = i) (drop_row now sz wasUnread)))"

definition UpdateUnreadCount :: "instant \<Rightarrow> ID \<Rightarrow> int \<Rightarrow> unit dbm" where
  "UpdateUnreadCount now i delta = expect_rows (NotFoundError ''mailbox'' i)
     (wrap ''failed to update unread count'' (update_mailboxes (\<lambda>r. mr_id r = i)
        (\<lambda>r. r\<lparr>mr_unread_count := (if delta \<ge> 0 then mr_unread_count r + delta
                                   else max 0 (mr_unread_count r + delta)),
               mr_updated_at := now\<rparr>)))"

text \<open>What the counters of a mailbox should be, computed from its messages.\<close>

definition in_mailbox :: "ID \<Rightarrow> messageRow \<Rightarrow> bool" where
  "in_mailbox i r \<longleftrightarrow> r_mailbox_id r = i"

definition unread_in :: "ID \<Rightarrow> messageRow \<Rightarrow> bool" where
  "unread_in i r \<longleftrightarrow> r_mailbox_id r = i \<and> r_status r = ''unread''"

definition sum_size :: "ID \<Rightarrow> messageRow list \<Rightarrow> int" where
  "sum_size i rs = sum_list (map r_size (filter (in_mailbox i) rs))"

text \<open>\<^verbatim>\<open>SUM\<close> over no rows is NULL, which does not scan into the \<^verbatim>\<open>int64\<close> of \<^verbatim>\<open>unread_count\<close>.\<close>

definition RecalculateStats :: "instant \<Rightarrow> ID \<Rightarrow> unit dbm" where
  "RecalculateStats now i =
     andThen (query (\<lambda>d. (count_where (in_mailbox i) (db_messages d),
                          count_where (unread_in i) (db_messages d), sum_size i (db_messages d))))
       (\<lambda>(message_count, unread_count, total_size).
          if message_count = 0 then fail (Wrapped ''failed to calculate stats'' scan_error)
          else expect_rows (NotFoundError ''mailbox'' i)
            (wrap ''failed to update stats'' (update_mailboxes (\<lambda>r. mr_id r = i)
               (\<lambda>r. r\<lparr>mr_message_count := message_count, mr_unread_count := unread_count,
                      mr_total_size := total_size, mr_updated_at := now\<rparr>))))"

record MailboxStats =
  ms_TotalMessages :: int
  ms_UnreadMessages :: int
  ms_TotalSize :: int
  ms_OldestMessage :: "Timestamp option"
  ms_NewestMessage :: "Timestamp option"

definition min_opt :: "int list \<Rightarrow> int option" where
  "min_opt xs = (if xs = [] then None else Some (Min (set xs)))"

definition max_opt :: "int list \<Rightarrow> int option" where
  "max_opt xs = (if xs = [] then None else Some (Max (set xs)))"

definition mbx_GetStats :: "ID \<Rightarrow> MailboxStats dbm" where
  "mbx_GetStats i =
     andThen (mbx_GetByID i)
       (\<lambda>mailbox. andThen (query (\<lambda>d. map r_received_at (filter (in_mailbox i) (db_messages d))))
          (\<lambda>times. ret \<lparr>ms_TotalMessages = mb_MessageCount mailbox,
              ms_UnreadMessages = mb_UnreadCount mailbox, ms_TotalSize = mb_TotalSize mailbox,
              ms_OldestMessage = min_opt times, ms_NewestMessage = max_opt times\<rparr>))"

definition sum_stats :: "mailboxRow list \<Rightarrow> MailboxStats" where
  "sum_stats rs =
     \<lparr>ms_TotalMessages = sum_list (map mr_message_count rs),
      ms_UnreadMessages = sum_list (map mr_unread_count rs),
      ms_TotalSize = sum_list (map mr_total_size rs),
      ms_OldestMessage = None, ms_NewestMessage = None\<rparr>"

definition GetStatsByUser :: "ID \<Rightarrow> MailboxStats dbm" where
  "GetStatsByUser userID =
     query (\<lambda>d. sum_stats (filter (\<lambda>r. mr_user_id r = userID) (db_mailboxes d)))"

definition GetTotalStats :: "MailboxStats dbm" where
  "GetTotalStats = query (\<lambda>d. sum_stats (db_mailboxes d))"

section \<open>Lookup and bulk operations\<close>

text \<open>\<open>orNotFound m n\<close> runs \<open>n\<close> when \<open>m\<close> fails with a not-found error, and passes other errors on.\<close>

definition orNotFound :: "'a dbm \<Rightarrow> 'a dbm \<Rightarrow> 'a dbm" where
  "orNotFound m n = (\<lambda>d. case m d of
     (Inr x, d') \<Rightarrow> (Inr x, d')
   | (Inl e, d') \<Rightarrow> if IsNotFound e then n d' else (Inl e, d'))"

definition FindMatchingMailbox :: "string \<Rightarrow> Mailbox dbm" where
  "FindMatchingMailbox address =
     orNotFound (GetByAddress address)
       (case Split address CHR ''@'' of
          [_, part] \<Rightarrow> orNotFound (GetCatchAll part) (fail (NotFoundError ''mailbox'' address))
        | _ \<Rightarrow> fail (NotFoundError ''mailbox'' address))"

definition mbx_Search :: "string \<Rightarrow> ListOptions option \<Rightarrow> Mailbox ListResult dbm" where
  "mbx_Search q opts = mbx_List (Some (emptyMailboxFilter\<lparr>mf_Search := q\<rparr>)) opts"

definition GetMailboxesWithMessages :: "ListOptions option \<Rightarrow> Mailbox ListResult dbm" where
  "GetMailboxesWithMessages opts =
     mbx_List (Some (emptyMailboxFilter\<lparr>mf_HasMessages := Some True\<rparr>)) opts"

definition GetMailboxesWithUnread :: "ListOptions option \<Rightarrow> Mailbox ListResult dbm" where
  "GetMailboxesWithUnread opts =
     mbx_List (Some (emptyMailboxFilter\<lparr>mf_HasUnread := Some True\<rparr>)) opts"

definition TransferOwnership :: "instant \<Rightarrow> ID \<Rightarrow> ID \<Rightarrow> int dbm" where
  "TransferOwnership now fromUserID toUserID =
     wrap ''failed to transfer ownership'' (update_mailboxes (\<lambda>r. mr_user_id r = fromUserID)
       (\<lambda>r. r\<lparr>mr_user_id := toUserID, mr_updated_at := now\<rparr>))"

text \<open>The outcome of a bulk operation; \<^verbatim>\<open>Errors\<close> keeps the error value where the code keeps its text.\<close>

record BulkOperation =
  bo_Succeeded :: int
  bo_Failed :: int
  bo_Errors :: "(ID \<times> error) list"

definition NewBulkOperation :: BulkOperation where
  "NewBulkOperation = \<lparr>bo_Succeeded = 0, bo_Failed = 0, bo_Errors = []\<rparr>"

definition AddSuccess :: "BulkOperation \<Rightarrow> BulkOperation" where
  "AddSuccess b = b\<lparr>bo_Succeeded := bo_Succeeded b + 1\<rparr>"

definition AddFailure :: "ID \<Rightarrow> error \<Rightarrow> BulkOperation \<Rightarrow> BulkOperation" where
  "AddFailure i e b = b\<lparr>bo_Failed := bo_Failed b + 1,
     bo_Errors := (i, e) # filter (\<lambda>(j, _). j \<noteq> i) (bo_Errors b)\<rparr>"

text \<open>The loop of every bulk method: one call per id, a failure is recorded and the loop goes on.\<close>

fun bulk :: "(ID \<Rightarrow> 'a dbm) \<Rightarrow> ID list \<Rightarrow> BulkOperation \<Rightarrow> BulkOperation dbm" where
  "bulk op [] res = ret res"
| "bulk op (i # is) res = (\<lambda>d. case op i d of
     (Inl e, d') \<Rightarrow> bulk op is (AddFailure i e res) d'
   | (Inr _, d') \<Rightarrow> bulk op is (AddSuccess res) d')"

definition mbx_BulkDelete :: "ID list \<Rightarrow> BulkOperation dbm" where
  "mbx_BulkDelete ids = bulk mbx_Delete ids NewBulkOperation"

definition GetMailboxesByDomain :: "string \<Rightarrow> ListOptions option \<Rightarrow> Mailbox ListResult dbm" where
  "GetMailboxesByDomain domainName opts =
     mbx_List (Some (emptyMailboxFilter\<lparr>mf_Domain := domainName\<rparr>)) opts"

end
