(* ===== verification/Sqlite_Messages.thy ===== *)
theory Sqlite_Messages
  imports Sqlite_Mailboxes
begin

text \<open>
  The message repository of \<^verbatim>\<open>internal/repository/sqlite/message.go\<close>, in the order of the file. The
  full-text index (\<^verbatim>\<open>messages_fts MATCH\<close>, SQLite's FTS5) is the argument \<open>fts\<close> of the listing
  functions: which rows match an FTS5 query string.
\<close>

section \<open>Rows and messages\<close>

definition toMessage :: "messageRow \<Rightarrow> Message" where
  "toMessage r =
     \<lparr>msg_ID = r_id r, msg_MailboxID = r_mailbox_id r, msg_MessageID = from_null (r_message_id r),
      msg_From = \<lparr>ea_Name = from_null (r_from_name r), ea_Address = r_from_address r\<rparr>,
      msg_To = [], msg_Cc = [], msg_Bcc = [], msg_ReplyTo = None,
      msg_Subject = from_null (r_subject r), msg_TextBody = from_null (r_text_body r),
      msg_HTMLBody = from_null (r_html_body r), msg_RawBody = r_raw_body r,
      msg_Headers = (case r_headers r of None \<Rightarrow> [] | Some h \<Rightarrow> h),
      msg_ContentType = r_content_type r, msg_Size = r_size r,
      msg_AttachmentCount = r_attachment_count r, msg_Status = r_status r,
      msg_IsStarred = r_is_starred r, msg_IsSpam = r_is_spam r, msg_IsDeleted = r_is_deleted r,
      msg_IsDraft = r_is_draft r, msg_IsAnswered = r_is_answered r, msg_IMAPUID = r_imap_uid r,
      msg_InReplyTo = from_null (r_in_reply_to r),
      msg_References = (case r_references_list r of None \<Rightarrow> [] | Some rs \<Rightarrow> rs),
      msg_ReceivedAt = r_received_at r, msg_SentAt = r_sent_at r, msg_ThreadID = r_thread_id r,
      msg_BlobID = r_blob_id r, msg_AllHeaders = [], msg_CreatedAt = r_created_at r,
      msg_UpdatedAt = r_updated_at r\<rparr>"

text \<open>One iteration of the loop of \<^verbatim>\<open>loadRecipients\<close>.\<close>

definition add_recipient :: "recipientRow \<Rightarrow> Message \<Rightarrow> Message" where
  "add_recipient r m =
     (let addr = \<lparr>ea_Name = from_null (rr_name r), ea_Address = rr_address r\<rparr>
      in if rr_recipient_type r = ''to'' then m\<lparr>msg_To := msg_To m @ [addr]\<rparr>
         else if rr_recipient_type r = ''cc'' then m\<lparr>msg_Cc := msg_Cc m @ [addr]\<rparr>
         else if rr_recipient_type r = ''bcc'' then m\<lparr>msg_Bcc := msg_Bcc m @ [addr]\<rparr>
         else if rr_recipient_type r = ''reply_to'' then m\<lparr>msg_ReplyTo := Some addr\<rparr>
         else m)"

definition loadRecipients :: "recipientRow list \<Rightarrow> Message \<Rightarrow> Message" where
  "loadRecipients rrs m = fold add_recipient (filter (\<lambda>r. rr_message_id r = msg_ID m) rrs) m"

definition load :: "db \<Rightarrow> messageRow \<Rightarrow> Message" where
  "load d r = loadRecipients (db_recipients d) (toMessage r)"

definition get_message :: "(messageRow \<Rightarrow> bool) \<Rightarrow> error \<Rightarrow> Message dbm" where
  "get_message P missing =
     andThen (query (\<lambda>d. map_option (load d) (find P (db_messages d))))
       (\<lambda>row. case row of None \<Rightarrow> fail missing | Some m \<Rightarrow> ret m)"

definition GetByID :: "ID \<Rightarrow> Message dbm" where
  "GetByID i = get_message (\<lambda>r. r_id r = i) (NotFoundError ''message'' i)"

definition GetByMessageID :: "string \<Rightarrow> Message dbm" where
  "GetByMessageID mid = get_message (\<lambda>r. r_message_id r = Some mid) (NotFoundError ''message'' mid)"

section \<open>Listing\<close>

record MessageFilter =
  sf_IDs :: "ID list"
  sf_MailboxID :: "ID option"
  sf_MailboxIDs :: "ID list"
  sf_Status :: "MessageStatus option"
  sf_IsStarred :: "bool option"
  sf_IsSpam :: "bool option"
  sf_HasAttachments :: "bool option"
  sf_FromAddress :: string
  sf_FromAddressContains :: string
  sf_ToAddress :: string
  sf_ToAddressContains :: string
  sf_Subject :: string
  sf_SubjectContains :: string
  sf_BodyContains :: string
  sf_Search :: string
  sf_MessageID :: string
  sf_InReplyTo :: string
  sf_ReceivedAfter :: "Timestamp option"
  sf_ReceivedBefore :: "Timestamp option"
  sf_SentAfter :: "Timestamp option"
  sf_SentBefore :: "Timestamp option"
  sf_MinSize :: "int option"
  sf_MaxSize :: "int option"
  sf_ContentType :: "string option"
  sf_ExcludeSpam :: bool
  sf_ExcludeDeleted :: bool
  sf_IsDraft :: "bool option"
  sf_ExcludeDraft :: bool

definition emptyMessageFilter :: MessageFilter where
  "emptyMessageFilter =
     \<lparr>sf_IDs = [], sf_MailboxID = None, sf_MailboxIDs = [], sf_Status = None, sf_IsStarred = None,
      sf_IsSpam = None, sf_HasAttachments = None, sf_FromAddress = [], sf_FromAddressContains = [],
      sf_ToAddress = [], sf_ToAddressContains = [], sf_Subject = [], sf_SubjectContains = [],
      sf_BodyContains = [], sf_Search = [], sf_MessageID = [], sf_InReplyTo = [],
      sf_ReceivedAfter = None, sf_ReceivedBefore = None, sf_SentAfter = None, sf_SentBefore = None,
      sf_MinSize = None, sf_MaxSize = None, sf_ContentType = None, sf_ExcludeSpam = False,
      sf_ExcludeDeleted = False, sf_IsDraft = None, sf_ExcludeDraft = False\<rparr>"

text \<open>\<^verbatim>\<open>escapeFTS5Query\<close>: every word in double quotes, with inner quotes doubled.\<close>

definition quote_word :: "string \<Rightarrow> string" where
  "quote_word w =
     ''\"'' @ concat (map (\<lambda>c. if c = CHR 0x22 then ''\"\"'' else [c]) w) @ ''\"''"

definition escapeFTS5Query :: "string \<Rightarrow> string" where
  "escapeFTS5Query q =
     (let words = Fields q
      in if words = [] then ''\"\"'' else Join (map quote_word words) '' '')"

type_synonym fts_index = "string \<Rightarrow> messageRow \<Rightarrow> bool"

definition msg_where :: "fts_index \<Rightarrow> MessageFilter option \<Rightarrow> messageRow \<Rightarrow> bool" where
  "msg_where fts flt r \<longleftrightarrow>
     (case flt of None \<Rightarrow> True
      | Some f \<Rightarrow>
         when_set (sf_IDs f) (r_id r \<in> set (sf_IDs f)) \<and>
         when_some (sf_MailboxID f) (\<lambda>i. r_mailbox_id r = i) \<and>
         when_set (sf_MailboxIDs f) (r_mailbox_id r \<in> set (sf_MailboxIDs f)) \<and>
         when_some (sf_Status f) (\<lambda>st. r_status r = st) \<and>
         when_some (sf_IsStarred f) (\<lambda>b. r_is_starred r = b) \<and>
         when_some (sf_IsSpam f) (\<lambda>b. r_is_spam r = b) \<and>
         when_some (sf_HasAttachments f)
           (\<lambda>b. if b then r_attachment_count r > 0 else r_attachment_count r = 0) \<and>
         when_set (sf_FromAddress f) (EqualFold (r_from_address r) (sf_FromAddress f)) \<and>
         when_set (sf_FromAddressContains f)
           (like (''%'' @ sf_FromAddressContains f @ ''%'') (r_from_address r)) \<and>
         when_set (sf_Subject f) (r_subject r = Some (sf_Subject f)) \<and>
         when_set (sf_SubjectContains f)
           (like_null (''%'' @ sf_SubjectContains f @ ''%'') (r_subject r)) \<and>
         when_set (sf_BodyContains f)
           (let p = ''%'' @ sf_BodyContains f @ ''%''
            in like_null p (r_text_body r) \<or> like_null p (r_html_body r)) \<and>
         when_set (sf_Search f) (fts (escapeFTS5Query (sf_Search f)) r) \<and>
         when_set (sf_MessageID f) (r_message_id r = Some (sf_MessageID f)) \<and>
         when_set (sf_InReplyTo f) (r_in_reply_to r = Some (sf_InReplyTo f)) \<and>
         when_some (sf_ReceivedAfter f) (\<lambda>t. r_received_at r > t) \<and>
         when_some (sf_ReceivedBefore f) (\<lambda>t. r_received_at r < t) \<and>
         when_some (sf_SentAfter f) (\<lambda>t. case r_sent_at r of None \<Rightarrow> False | Some s \<Rightarrow> s > t) \<and>
         when_some (sf_SentBefore f) (\<lambda>t. case r_sent_at r of None \<Rightarrow> False | Some s \<Rightarrow> s < t) \<and>
         when_some (sf_MinSize f) (\<lambda>n. r_size r \<ge> n) \<and>
         when_some (sf_MaxSize f) (\<lambda>n. r_size r \<le> n) \<and>
         when_some (sf_ContentType f) (\<lambda>c. r_content_type r = c) \<and>
         (sf_ExcludeSpam f \<longrightarrow> \<not> r_is_spam r) \<and>
         (sf_ExcludeDeleted f \<longrightarrow> \<not> r_is_deleted r) \<and>
         when_some (sf_IsDraft f) (\<lambda>b. r_is_draft r = b) \<and>
         (sf_ExcludeDraft f \<longrightarrow> \<not> r_is_draft r))"

definition opt_value :: "string option \<Rightarrow> sql_value" where
  "opt_value v = (case v of None \<Rightarrow> SNull | Some s \<Rightarrow> STxt s)"

definition msg_sort_key :: "string \<Rightarrow> messageRow \<Rightarrow> sql_value" where
  "msg_sort_key field r =
     (if field = ''receivedAt'' then SInt (r_received_at r)
      else if field = ''sentAt'' then (case r_sent_at r of None \<Rightarrow> SNull | Some t \<Rightarrow> SInt t)
      else if field = ''subject'' then opt_value (r_subject r)
      else if field = ''from'' then STxt (r_from_address r)
      else if field = ''size'' then SInt (r_size r)
      else if field = ''status'' then STxt (r_status r)
      else if field = ''createdAt'' then SInt (r_created_at r)
      else SInt (r_received_at r))"

definition msg_List ::
  "fts_index \<Rightarrow> MessageFilter option \<Rightarrow> ListOptions option \<Rightarrow> Message ListResult dbm" where
  "msg_List fts flt opts =
     query (\<lambda>d. let all = filter (msg_where fts flt) (db_messages d);
                    rows = limit_offset (page_of opts) (sort_rows msg_sort_key ''receivedAt'' opts all)
                in list_result opts (int (length all)) (map (load d) rows))"

definition ListByMailbox :: "fts_index \<Rightarrow> ID \<Rightarrow> ListOptions option \<Rightarrow> Message ListResult dbm" where
  "ListByMailbox fts i opts =
     msg_List fts (Some (emptyMessageFilter\<lparr>sf_MailboxID := Some i\<rparr>)) opts"

section \<open>Creating, updating and deleting\<close>

definition row_of_message :: "Message \<Rightarrow> messageRow" where
  "row_of_message m =
     \<lparr>r_id = msg_ID m, r_mailbox_id = msg_MailboxID m, r_message_id = NullString (msg_MessageID m),
      r_from_name = NullString (ea_Name (msg_From m)), r_from_address = ea_Address (msg_From m),
      r_subject = NullString (msg_Subject m), r_text_body = NullString (msg_TextBody m),
      r_html_body = NullString (msg_HTMLBody m), r_raw_body = msg_RawBody m,
      r_headers = (if msg_Headers m = [] then None else Some (msg_Headers m)),
      r_content_type = msg_ContentType m, r_size = msg_Size m,
      r_attachment_count = msg_AttachmentCount m, r_status = msg_Status m,
      r_is_starred = msg_IsStarred m, r_is_spam = msg_IsSpam m, r_is_deleted = msg_IsDeleted m,
      r_is_draft = msg_IsDraft m, r_is_answered = msg_IsAnswered m, r_imap_uid = msg_IMAPUID m,
      r_in_reply_to = NullString (msg_InReplyTo m),
      r_references_list = (if msg_References m = [] then None else Some (msg_References m)),
      r_received_at = msg_ReceivedAt m, r_sent_at = msg_SentAt m, r_thread_id = msg_ThreadID m,
      r_blob_id = msg_BlobID m, r_created_at = msg_CreatedAt m, r_updated_at = msg_UpdatedAt m\<rparr>"

fun insert_recipients :: "ID \<Rightarrow> string \<Rightarrow> string \<Rightarrow> EmailAddress list \<Rightarrow> unit dbm" where
  "insert_recipients i kind msg [] = ret ()"
| "insert_recipients i kind msg (a # as) =
     andThen (wrap msg (insert_recipient
         \<lparr>rr_message_id = i, rr_recipient_type = kind, rr_name = NullString (ea_Name a),
          rr_address = ea_Address a\<rparr>))
       (\<lambda>_. insert_recipients i kind msg as)"

definition saveRecipients :: "Message \<Rightarrow> unit dbm" where
  "saveRecipients m =
     andThen (insert_recipients (msg_ID m) ''to'' ''failed to save To recipient'' (msg_To m))
    (\<lambda>_. andThen (insert_recipients (msg_ID m) ''cc'' ''failed to save Cc recipient'' (msg_Cc m))
    (\<lambda>_. andThen (insert_recipients (msg_ID m) ''bcc'' ''failed to save Bcc recipient'' (msg_Bcc m))
    (\<lambda>_. case msg_ReplyTo m of
           None \<Rightarrow> ret ()
         | Some a \<Rightarrow> insert_recipients (msg_ID m) ''reply_to'' ''failed to save ReplyTo'' [a])))"

text \<open>
  \<^verbatim>\<open>Create\<close> writes the assigned UID back into the caller's message: the result is that message (on
  failure the caller's copy is not tracked further).
\<close>

definition assign_uid :: "instant \<Rightarrow> Message \<Rightarrow> Message dbm" where
  "assign_uid now m =
     (if msg_IMAPUID m = 0
      then andThen (wrap ''failed to assign IMAP UID''
               (IncrementMessageCount now (msg_MailboxID m) (msg_Size m) (msg_Status m = MessageUnread)))
             (\<lambda>uid. ret (m\<lparr>msg_IMAPUID := uid\<rparr>))
      else ret m)"

definition Create :: "instant \<Rightarrow> Message \<Rightarrow> Message dbm" where
  "Create now m =
     andThen (assign_uid now m)
       (\<lambda>m. andThen (wrap ''failed to create message'' (insert_message (row_of_message m)))
       (\<lambda>_. andThen (saveRecipients m)
       (\<lambda>_. ret m)))"

definition Exists :: "ID \<Rightarrow> bool dbm" where
  "Exists i = query (\<lambda>d. list_ex (\<lambda>r. r_id r = i) (db_messages d))"

text \<open>The columns \<^verbatim>\<open>Update\<close> writes: not the raw body, the deleted, draft and answered flags, the UID, the thread or the blob.\<close>

definition update_row :: "instant \<Rightarrow> Message \<Rightarrow> messageRow \<Rightarrow> messageRow" where
  "update_row now m r =
     (let w = row_of_message m in
      r\<lparr>r_mailbox_id := r_mailbox_id w, r_message_id := r_message_id w,
        r_from_name := r_from_name w, r_from_address := r_from_address w,
        r_subject := r_subject w, r_text_body := r_text_body w, r_html_body := r_html_body w,
        r_headers := r_headers w, r_content_type := r_content_type w, r_size := r_size w,
        r_attachment_count := r_attachment_count w, r_status := r_status w,
        r_is_starred := r_is_starred w, r_is_spam := r_is_spam w,
        r_in_reply_to := r_in_reply_to w, r_references_list := r_references_list w,
        r_received_at := r_received_at w, r_sent_at := r_sent_at w, r_updated_at := now\<rparr>)"

definition Update :: "instant \<Rightarrow> Message \<Rightarrow> unit dbm" where
  "Update now m =
     andThen (Exists (msg_ID m))
       (\<lambda>exists. if \<not> exists then fail (NotFoundError ''message'' (msg_ID m))
         else andThen (wrap ''failed to update message''
                (update_messages (\<lambda>r. r_id r = msg_ID m) (update_row now m)))
           (\<lambda>_. andThen (wrap ''failed to delete recipients''
                   (delete_recipients (\<lambda>r. rr_message_id r = msg_ID m)))
           (\<lambda>_. saveRecipients m)))"

definition Delete :: "instant \<Rightarrow> ID \<Rightarrow> unit dbm" where
  "Delete now i =
     andThen (GetByID i)
       (\<lambda>m. andThen (expect_rows (NotFoundError ''message'' i)
               (wrap ''failed to delete message'' (delete_messages (\<lambda>r. r_id r = i))))
       (\<lambda>_. wrap ''failed to update mailbox stats''
               (DecrementMessageCount now (msg_MailboxID m) (msg_Size m) (msg_Status m = MessageUnread))))"

definition DeleteByMailbox :: "ID \<Rightarrow> int dbm" where
  "DeleteByMailbox i =
     wrap ''failed to delete messages by mailbox'' (delete_messages (\<lambda>r. r_mailbox_id r = i))"

definition ExistsByMessageID :: "string \<Rightarrow> bool dbm" where
  "ExistsByMessageID mid = query (\<lambda>d. list_ex (\<lambda>r. r_message_id r = Some mid) (db_messages d))"

definition Count :: "fts_index \<Rightarrow> MessageFilter option \<Rightarrow> int dbm" where
  "Count fts flt = query (\<lambda>d. count_where (msg_where fts flt) (db_messages d))"

definition CountByMailbox :: "ID \<Rightarrow> int dbm" where
  "CountByMailbox i = query (\<lambda>d. count_where (\<lambda>r. r_mailbox_id r = i) (db_messages d))"

definition CountUnreadByMailbox :: "ID \<Rightarrow> int dbm" where
  "CountUnreadByMailbox i =
     query (\<lambda>d. count_where (\<lambda>r. r_mailbox_id r = i \<and> r_status r = ''unread'') (db_messages d))"

section \<open>Flags\<close>

definition MarkAsRead :: "instant \<Rightarrow> ID \<Rightarrow> bool dbm" where
  "MarkAsRead now i =
     andThen (GetByID i)
       (\<lambda>m. if msg_Status m = MessageRead then ret False
            else andThen (wrap ''failed to mark message as read'' (update_messages (\<lambda>r. r_id r = i)
                     (\<lambda>r. r\<lparr>r_status := ''read'', r_updated_at := now\<rparr>)))
                   (\<lambda>_. ret True))"

definition MarkAsUnread :: "instant \<Rightarrow> ID \<Rightarrow> bool dbm" where
  "MarkAsUnread now i =
     andThen (GetByID i)
       (\<lambda>m. if msg_Status m = MessageUnread then ret False
            else andThen (wrap ''failed to mark message as unread'' (update_messages (\<lambda>r. r_id r = i)
                     (\<lambda>r. r\<lparr>r_status := ''unread'', r_updated_at := now\<rparr>)))
                   (\<lambda>_. ret True))"

definition MarkAllAsRead :: "instant \<Rightarrow> ID \<Rightarrow> int dbm" where
  "MarkAllAsRead now i =
     andThen (wrap ''failed to mark all as read''
         (update_messages (\<lambda>r. r_mailbox_id r = i \<and> r_status r = ''unread'')
            (\<lambda>r. r\<lparr>r_status := ''read'', r_updated_at := now\<rparr>)))
       (\<lambda>count. if count > 0
          then andThen (UpdateStats now i
                 \<lparr>msu_MessageCount = None, msu_UnreadCount = Some 0, msu_TotalSize = None\<rparr>)
               (\<lambda>_. ret count)
          else ret count)"

text \<open>
  The single-column updates of one message: \<^verbatim>\<open>Star\<close>, \<^verbatim>\<open>Unstar\<close>, \<^verbatim>\<open>MarkAsSpam\<close>, \<^verbatim>\<open>MarkAsNotSpam\<close>,
  \<^verbatim>\<open>MarkAsDeleted\<close>, \<^verbatim>\<open>UnmarkAsDeleted\<close> and \<^verbatim>\<open>setBoolFlag\<close> are the same statement on another column.
\<close>

definition set_flag :: "string \<Rightarrow> (messageRow \<Rightarrow> messageRow) \<Rightarrow> instant \<Rightarrow> ID \<Rightarrow> unit dbm" where
  "set_flag msg f now i = expect_rows (NotFoundError ''message'' i)
     (wrap msg (update_messages (\<lambda>r. r_id r = i) (\<lambda>r. (f r)\<lparr>r_updated_at := now\<rparr>)))"

definition Star :: "instant \<Rightarrow> ID \<Rightarrow> unit dbm" where
  "Star = set_flag ''failed to star message'' (\<lambda>r. r\<lparr>r_is_starred := True\<rparr>)"

definition Unstar :: "instant \<Rightarrow> ID \<Rightarrow> unit dbm" where
  "Unstar = set_flag ''failed to unstar message'' (\<lambda>r. r\<lparr>r_is_starred := False\<rparr>)"

definition MarkAsSpam :: "instant \<Rightarrow> ID \<Rightarrow> unit dbm" where
  "MarkAsSpam = set_flag ''failed to mark as spam'' (\<lambda>r. r\<lparr>r_is_spam := True\<rparr>)"

definition MarkAsNotSpam :: "instant \<Rightarrow> ID \<Rightarrow> unit dbm" where
  "MarkAsNotSpam = set_flag ''failed to mark as not spam'' (\<lambda>r. r\<lparr>r_is_spam := False\<rparr>)"

definition MarkAsDeleted :: "instant \<Rightarrow> ID \<Rightarrow> unit dbm" where
  "MarkAsDeleted = set_flag ''failed to mark as deleted'' (\<lambda>r. r\<lparr>r_is_deleted := True\<rparr>)"

definition UnmarkAsDeleted :: "instant \<Rightarrow> ID \<Rightarrow> unit dbm" where
  "UnmarkAsDeleted = set_flag ''failed to unmark as deleted'' (\<lambda>r. r\<lparr>r_is_deleted := False\<rparr>)"

text \<open>\<^verbatim>\<open>setBoolFlag\<close> takes the column name; its callers pass one of two.\<close>

datatype flag_column = is_draft | is_answered

fun setBoolFlag :: "flag_column \<Rightarrow> bool \<Rightarrow> instant \<Rightarrow> ID \<Rightarrow> unit dbm" where
  "setBoolFlag is_draft v = set_flag ''failed to set is_draft'' (\<lambda>r. r\<lparr>r_is_draft := v\<rparr>)"
| "setBoolFlag is_answered v = set_flag ''failed to set is_answered'' (\<lambda>r. r\<lparr>r_is_answered := v\<rparr>)"

definition MarkAsDraft :: "instant \<Rightarrow> ID \<Rightarrow> unit dbm" where
  "MarkAsDraft = setBoolFlag is_draft True"

definition UnmarkAsDraft :: "instant \<Rightarrow> ID \<Rightarrow> unit dbm" where
  "UnmarkAsDraft = setBoolFlag is_draft False"

definition MarkAsAnswered :: "instant \<Rightarrow> ID \<Rightarrow> unit dbm" where
  "MarkAsAnswered = setBoolFlag is_answered True"

definition UnmarkAsAnswered :: "instant \<Rightarrow> ID \<Rightarrow> unit dbm" where
  "UnmarkAsAnswered = setBoolFlag is_answered False"

definition msg_ToggleStar :: "instant \<Rightarrow> ID \<Rightarrow> bool dbm" where
  "msg_ToggleStar now i =
     andThen (set_flag ''failed to toggle star'' (\<lambda>r. r\<lparr>r_is_starred := \<not> r_is_starred r\<rparr>) now i)
       (\<lambda>_. andThen (query (\<lambda>d. find (\<lambda>r. r_id r = i) (db_messages d)))
          (\<lambda>row. case row of None \<Rightarrow> fail (OtherError ''sql: no rows in result set'')
                 | Some r \<Rightarrow> ret (r_is_starred r)))"

section \<open>Moving\<close>

definition MoveToMailbox :: "instant \<Rightarrow> ID \<Rightarrow> ID \<Rightarrow> unit dbm" where
  "MoveToMailbox now i target =
     andThen (GetByID i)
       (\<lambda>m. if msg_MailboxID m = target then ret ()
            else andThen (mbx_Exists target)
       (\<lambda>exists. if \<not> exists then fail (NotFoundError ''mailbox'' target)
            else andThen (wrap ''failed to move message'' (update_messages (\<lambda>r. r_id r = i)
                     (\<lambda>r. r\<lparr>r_mailbox_id := target, r_updated_at := now\<rparr>)))
       (\<lambda>_. let wasUnread = (msg_Status m = MessageUnread) in
            andThen (DecrementMessageCount now (msg_MailboxID m) (msg_Size m) wasUnread)
       (\<lambda>_. andThen (IncrementMessageCount now target (msg_Size m) wasUnread)
       (\<lambda>newUID. andThen (wrap ''failed to update IMAP UID after move''
                     (update_messages (\<lambda>r. r_id r = i) (\<lambda>r. r\<lparr>r_imap_uid := newUID\<rparr>)))
                   (\<lambda>_. ret ()))))))"

section \<open>Queries by content\<close>

definition Search ::
  "fts_index \<Rightarrow> string option \<Rightarrow> MessageFilter option \<Rightarrow> ListOptions option \<Rightarrow> Message ListResult dbm" where
  "Search fts searchOpts flt opts =
     (let f = (case flt of None \<Rightarrow> emptyMessageFilter | Some f \<Rightarrow> f);
          f = (case searchOpts of
                 None \<Rightarrow> f | Some q \<Rightarrow> if q = [] then f else f\<lparr>sf_Search := q\<rparr>)
      in msg_List fts (Some f) opts)"

text \<open>\<^verbatim>\<open>GetThread\<close>: the identifiers always include the Message-ID itself, so its set is never empty.\<close>

definition GetThread :: "ID \<Rightarrow> Message list dbm" where
  "GetThread i =
     andThen (GetByID i)
       (\<lambda>m. let ids = msg_MessageID m # (if msg_InReplyTo m = [] then [] else [msg_InReplyTo m])
                      @ msg_References m
            in query (\<lambda>d. map (load d) (order_by (\<lambda>r. SInt (r_received_at r)) SortAsc
                 (filter (\<lambda>r. list_ex (\<lambda>j. r_message_id r = Some j \<or> r_in_reply_to r = Some j) ids)
                    (db_messages d)))))"

definition GetReplies :: "ID \<Rightarrow> Message list dbm" where
  "GetReplies i =
     andThen (GetByID i)
       (\<lambda>m. if msg_MessageID m = [] then ret []
            else query (\<lambda>d. map (load d) (order_by (\<lambda>r. SInt (r_received_at r)) SortAsc
                 (filter (\<lambda>r. r_in_reply_to r = Some (msg_MessageID m)) (db_messages d)))))"

definition GetStarred :: "fts_index \<Rightarrow> ListOptions option \<Rightarrow> Message ListResult dbm" where
  "GetStarred fts opts = msg_List fts (Some (emptyMessageFilter\<lparr>sf_IsStarred := Some True\<rparr>)) opts"

definition GetStarredByUser :: "fts_index \<Rightarrow> ID \<Rightarrow> ListOptions option \<Rightarrow> Message ListResult dbm" where
  "GetStarredByUser fts userID opts =
     andThen (ListByUser userID None)
       (\<lambda>mailboxes. msg_List fts (Some (emptyMessageFilter
          \<lparr>sf_MailboxIDs := map mb_ID (lr_Items mailboxes), sf_IsStarred := Some True\<rparr>)) opts)"

definition GetSpam :: "fts_index \<Rightarrow> ListOptions option \<Rightarrow> Message ListResult dbm" where
  "GetSpam fts opts = msg_List fts (Some (emptyMessageFilter\<lparr>sf_IsSpam := Some True\<rparr>)) opts"

definition GetUnread :: "fts_index \<Rightarrow> ListOptions option \<Rightarrow> Message ListResult dbm" where
  "GetUnread fts opts =
     msg_List fts (Some (emptyMessageFilter\<lparr>sf_Status := Some MessageUnread\<rparr>)) opts"

definition GetUnreadByMailbox :: "fts_index \<Rightarrow> ID \<Rightarrow> ListOptions option \<Rightarrow> Message ListResult dbm" where
  "GetUnreadByMailbox fts i opts =
     msg_List fts (Some (emptyMessageFilter\<lparr>sf_MailboxID := Some i, sf_Status := Some MessageUnread\<rparr>)) opts"

definition GetMessagesWithAttachments ::
  "fts_index \<Rightarrow> MessageFilter option \<Rightarrow> ListOptions option \<Rightarrow> Message ListResult dbm" where
  "GetMessagesWithAttachments fts flt opts =
     (let f = (case flt of None \<Rightarrow> emptyMessageFilter | Some f \<Rightarrow> f)
      in msg_List fts (Some (f\<lparr>sf_HasAttachments := Some True\<rparr>)) opts)"

definition GetRecent ::
  "fts_index \<Rightarrow> instant \<Rightarrow> int \<Rightarrow> ListOptions option \<Rightarrow> Message ListResult dbm" where
  "GetRecent fts now hours opts =
     msg_List fts (Some (emptyMessageFilter\<lparr>sf_ReceivedAfter := Some (now - hours * Hour)\<rparr>)) opts"

definition GetByDateRange ::
  "fts_index \<Rightarrow> (Timestamp option \<times> Timestamp option) option \<Rightarrow> ListOptions option \<Rightarrow> Message ListResult dbm" where
  "GetByDateRange fts dateRange opts =
     (let f = (case dateRange of None \<Rightarrow> emptyMessageFilter
               | Some (a, b) \<Rightarrow> emptyMessageFilter\<lparr>sf_ReceivedAfter := a, sf_ReceivedBefore := b\<rparr>)
      in msg_List fts (Some f) opts)"

definition GetBySender :: "fts_index \<Rightarrow> string \<Rightarrow> ListOptions option \<Rightarrow> Message ListResult dbm" where
  "GetBySender fts sender opts =
     msg_List fts (Some (emptyMessageFilter\<lparr>sf_FromAddress := sender\<rparr>)) opts"

definition GetByRecipient :: "fts_index \<Rightarrow> string \<Rightarrow> ListOptions option \<Rightarrow> Message ListResult dbm" where
  "GetByRecipient fts address opts =
     andThen (query (\<lambda>d. filter (\<lambda>i. list_ex (\<lambda>q. rr_message_id q = i \<and> EqualFold (rr_address q) address)
                          (db_recipients d)) (map r_id (db_messages d))))
       (\<lambda>ids. if ids = []
          then ret \<lparr>lr_Items = [], lr_Total = 0, lr_HasMore = False, lr_Pagination = None\<rparr>
          else msg_List fts (Some (emptyMessageFilter\<lparr>sf_IDs := ids\<rparr>)) opts)"

definition GetLargeMessages :: "fts_index \<Rightarrow> int \<Rightarrow> ListOptions option \<Rightarrow> Message ListResult dbm" where
  "GetLargeMessages fts minSize opts =
     msg_List fts (Some (emptyMessageFilter\<lparr>sf_MinSize := Some minSize\<rparr>)) opts"

text \<open>In UTC a day is 24 hours, so \<^verbatim>\<open>AddDate(0, 0, -n)\<close> subtracts \<open>n\<close> of them.\<close>

definition GetOldMessages ::
  "fts_index \<Rightarrow> instant \<Rightarrow> int \<Rightarrow> ListOptions option \<Rightarrow> Message ListResult dbm" where
  "GetOldMessages fts now days opts =
     msg_List fts (Some (emptyMessageFilter\<lparr>sf_ReceivedBefore := Some (now - days * (24 * Hour))\<rparr>)) opts"

definition DeleteOldMessages :: "instant \<Rightarrow> int \<Rightarrow> int dbm" where
  "DeleteOldMessages now days = wrap ''failed to delete old messages''
     (delete_messages (\<lambda>r. r_received_at r < now - days * (24 * Hour)))"

definition DeleteSpam :: "int dbm" where
  "DeleteSpam = wrap ''failed to delete spam'' (delete_messages r_is_spam)"

section \<open>Bulk operations\<close>

definition BulkMarkAsRead :: "instant \<Rightarrow> ID list \<Rightarrow> BulkOperation dbm" where
  "BulkMarkAsRead now ids = bulk (MarkAsRead now) ids NewBulkOperation"

definition BulkMarkAsUnread :: "instant \<Rightarrow> ID list \<Rightarrow> BulkOperation dbm" where
  "BulkMarkAsUnread now ids = bulk (MarkAsUnread now) ids NewBulkOperation"

definition BulkDelete :: "instant \<Rightarrow> ID list \<Rightarrow> BulkOperation dbm" where
  "BulkDelete now ids = bulk (Delete now) ids NewBulkOperation"

definition BulkMove :: "instant \<Rightarrow> ID list \<Rightarrow> ID \<Rightarrow> BulkOperation dbm" where
  "BulkMove now ids target = bulk (\<lambda>i. MoveToMailbox now i target) ids NewBulkOperation"

definition BulkStar :: "instant \<Rightarrow> ID list \<Rightarrow> BulkOperation dbm" where
  "BulkStar now ids = bulk (Star now) ids NewBulkOperation"

definition BulkUnstar :: "instant \<Rightarrow> ID list \<Rightarrow> BulkOperation dbm" where
  "BulkUnstar now ids = bulk (Unstar now) ids NewBulkOperation"

section \<open>Sizes, raw bodies and keys\<close>

definition GetSizeByMailbox :: "ID \<Rightarrow> int dbm" where
  "GetSizeByMailbox i = query (\<lambda>d. sum_list (map r_size (filter (\<lambda>r. r_mailbox_id r = i) (db_messages d))))"

definition GetTotalSize :: "int dbm" where
  "GetTotalSize = query (\<lambda>d. sum_list (map r_size (db_messages d)))"

definition StoreRawBody :: "instant \<Rightarrow> ID \<Rightarrow> bytes \<Rightarrow> unit dbm" where
  "StoreRawBody now i rawBody =
     set_flag ''failed to store raw body'' (\<lambda>r. r\<lparr>r_raw_body := rawBody\<rparr>) now i"

definition GetRawBody :: "ID \<Rightarrow> bytes dbm" where
  "GetRawBody i =
     andThen (query (\<lambda>d. find (\<lambda>r. r_id r = i) (db_messages d)))
       (\<lambda>row. case row of None \<Rightarrow> fail (NotFoundError ''message'' i) | Some r \<Rightarrow> ret (r_raw_body r))"

text \<open>The not-found error carries the text \<^verbatim>\<open>mailbox=<id> uid=<uid>\<close>; the number is left out here.\<close>

definition GetByIMAPUID :: "ID \<Rightarrow> 32 word \<Rightarrow> Message dbm" where
  "GetByIMAPUID i uid = get_message (\<lambda>r. r_mailbox_id r = i \<and> r_imap_uid r = uid)
     (NotFoundError ''message'' (''mailbox='' @ i))"

definition GetByMessageIDs :: "string list \<Rightarrow> Message list dbm" where
  "GetByMessageIDs mids =
     (if mids = [] then ret []
      else query (\<lambda>d. map toMessage
        (filter (\<lambda>r. list_ex (\<lambda>j. r_message_id r = Some j) mids) (db_messages d))))"

definition GetByThreadID :: "ID \<Rightarrow> Message ListResult dbm" where
  "GetByThreadID threadID =
     query (\<lambda>d. let rows = order_by (\<lambda>r. SInt (r_received_at r)) SortAsc
                    (order_by (\<lambda>r. STxt (r_id r)) SortAsc
                      (filter (\<lambda>r. r_thread_id r = threadID) (db_messages d)))
                in \<lparr>lr_Items = map toMessage rows, lr_Total = int (length rows), lr_HasMore = False,
                    lr_Pagination = None\<rparr>)"

definition UpdateThreadID :: "instant \<Rightarrow> ID \<Rightarrow> ID \<Rightarrow> unit dbm" where
  "UpdateThreadID now oldThreadID newThreadID =
     andThen (wrap ''failed to update thread ID'' (update_messages (\<lambda>r. r_thread_id r = oldThreadID)
         (\<lambda>r. r\<lparr>r_thread_id := newThreadID, r_updated_at := now\<rparr>)))
       (\<lambda>_. ret ())"

definition GetByBlobID :: "string \<Rightarrow> Message dbm" where
  "GetByBlobID blobID = get_message (\<lambda>r. r_blob_id r = blobID) (NotFoundError ''message'' blobID)"

section \<open>Transactions\<close>

text \<open>
  \<^verbatim>\<open>Transaction\<close> outside a transaction: the function runs on the transaction's view, and its effects are
  kept only when it succeeds. Inside a transaction (\<open>isTx\<close>) the function runs as it is.
\<close>

definition Transaction :: "bool \<Rightarrow> 'a dbm \<Rightarrow> 'a dbm" where
  "Transaction isTx fn =
     (if isTx then fn
      else (\<lambda>d. case fn d of (Inl e, _) \<Rightarrow> (Inl e, d) | (Inr x, d') \<Rightarrow> (Inr x, d')))"

end
