(* ===== verification/Sqlite_Store.thy ===== *)
theory Sqlite_Store
  imports Sqlite_Messages
begin

text \<open>
  What the SQLite store guarantees: statements and repository calls keep the schema, the mailbox
  counters agree with the stored messages, IMAP UIDs are fresh, messages survive the round trip
  through their rows, and deliveries find the right mailbox.
\<close>

section \<open>Statements that keep the schema\<close>

lemma map_update_where: "(\<And>r. k (f r) = k r) \<Longrightarrow> map k (update_where P f rs) = map k rs"
  by (induction rs) (auto simp: update_where_def)

lemma length_update_where [simp]: "length (update_where P f rs) = length rs"
  by (simp add: update_where_def)

lemma set_update_where: "set (update_where P f rs) = (\<lambda>r. if P r then f r else r) ` set rs"
  by (simp add: update_where_def)

lemma find_update_where:
  assumes "\<And>r. Q (f r) = Q r"
  shows "find Q (update_where P f rs) = map_option (\<lambda>r. if P r then f r else r) (find Q rs)"
  unfolding update_where_def by (rule find_map_update) (simp add: assms)

text \<open>An update that leaves the key columns of a row alone.\<close>

definition keeps_mailbox_keys :: "(mailboxRow \<Rightarrow> mailboxRow) \<Rightarrow> bool" where
  "keeps_mailbox_keys f \<longleftrightarrow> (\<forall>r. mr_id (f r) = mr_id r \<and> mr_address (f r) = mr_address r \<and>
     mr_user_id (f r) = mr_user_id r)"

definition keeps_message_keys :: "(messageRow \<Rightarrow> messageRow) \<Rightarrow> bool" where
  "keeps_message_keys f \<longleftrightarrow> (\<forall>r. r_id (f r) = r_id r \<and> r_mailbox_id (f r) = r_mailbox_id r \<and>
     r_imap_uid (f r) = r_imap_uid r)"

text \<open>The schema only reads the key columns.\<close>

lemma list_all_map_cong: "map k xs = map k ys \<Longrightarrow> list_all (\<lambda>x. P (k x)) xs = list_all (\<lambda>y. P (k y)) ys"
proof -
  assume "map k xs = map k ys"
  then have "list_all P (map k xs) = list_all P (map k ys)" by simp
  then show ?thesis by (simp add: list.pred_map comp_def)
qed

lemma schema_ok_mailboxes:
  assumes "map mr_id rs = map mr_id (db_mailboxes d)"
    and "map mr_address rs = map mr_address (db_mailboxes d)"
    and "map mr_user_id rs = map mr_user_id (db_mailboxes d)"
  shows "schema_ok (d\<lparr>db_mailboxes := rs\<rparr>) = schema_ok d"
proof -
  have "map (\<lambda>r. ToLower (mr_address r)) rs = map (\<lambda>r. ToLower (mr_address r)) (db_mailboxes d)"
    using arg_cong [OF assms(2), of "map ToLower"] by (simp add: comp_def)
  moreover have "mr_id ` set rs = mr_id ` set (db_mailboxes d)"
    using assms(1) by (metis list.set_map)
  ultimately show ?thesis
    using assms list_all_map_cong [OF assms(3), of "\<lambda>u. u \<in> ur_id ` set (db_users d)"]
    by (simp add: schema_defs)
qed

lemma schema_ok_messages:
  assumes "map r_id rs = map r_id (db_messages d)"
    and "map r_mailbox_id rs = map r_mailbox_id (db_messages d)"
    and "map (\<lambda>r. (r_mailbox_id r, r_imap_uid r)) rs = map (\<lambda>r. (r_mailbox_id r, r_imap_uid r)) (db_messages d)"
  shows "schema_ok (d\<lparr>db_messages := rs\<rparr>) = schema_ok d"
proof -
  have "r_id ` set rs = r_id ` set (db_messages d)"
    using assms(1) by (metis list.set_map)
  then show ?thesis
    using assms list_all_map_cong [OF assms(2), of "\<lambda>i. i \<in> mr_id ` set (db_mailboxes d)"]
    by (simp add: schema_defs)
qed

lemma update_mailboxes_keys:
  assumes "schema_ok d" and "keeps_mailbox_keys f"
  shows "update_mailboxes P f d =
    (Inr (count_where P (db_mailboxes d)), d\<lparr>db_mailboxes := update_where P f (db_mailboxes d)\<rparr>)"
proof -
  have "schema_ok (d\<lparr>db_mailboxes := update_where P f (db_mailboxes d)\<rparr>)"
    using assms by (subst schema_ok_mailboxes) (auto simp: keeps_mailbox_keys_def intro!: map_update_where)
  then show ?thesis
    by (simp add: update_mailboxes_def stmt_def)
qed

lemma schema_ok_update_mailboxes:
  assumes "schema_ok d" and "keeps_mailbox_keys f"
  shows "schema_ok (d\<lparr>db_mailboxes := update_where P f (db_mailboxes d)\<rparr>)"
  using assms by (subst schema_ok_mailboxes) (auto simp: keeps_mailbox_keys_def intro!: map_update_where)

lemma schema_ok_update_messages:
  assumes "schema_ok d" and "keeps_message_keys f"
  shows "schema_ok (d\<lparr>db_messages := update_where P f (db_messages d)\<rparr>)"
  using assms by (subst schema_ok_messages) (auto simp: keeps_message_keys_def intro!: map_update_where)

lemma update_messages_keys:
  assumes "schema_ok d" and "keeps_message_keys f"
  shows "update_messages P f d =
    (Inr (count_where P (db_messages d)), d\<lparr>db_messages := update_where P f (db_messages d)\<rparr>)"
  using schema_ok_update_messages [OF assms] by (simp add: update_messages_def stmt_def)

lemma keeps_keys [simp]:
  "keeps_mailbox_keys (bump_row now sz u)"
  "keeps_mailbox_keys (drop_row now sz u)"
  by (simp_all add: keeps_mailbox_keys_def bump_row_def drop_row_def)

text \<open>Rows of a table found by primary key.\<close>

lemma find_mailbox_iff:
  assumes "schema_ok d"
  shows "find (\<lambda>r. mr_id r = i) (db_mailboxes d) = Some b \<longleftrightarrow> b \<in> set (db_mailboxes d) \<and> mr_id b = i"
  using assms find_unique [of mr_id "db_mailboxes d" b]
  by (auto simp: schema_defs dest: find_SomeD)

lemma find_message_iff:
  assumes "schema_ok d"
  shows "find (\<lambda>r. r_id r = i) (db_messages d) = Some b \<longleftrightarrow> b \<in> set (db_messages d) \<and> r_id b = i"
  using assms find_unique [of r_id "db_messages d" b]
  by (auto simp: schema_defs dest: find_SomeD)

lemma count_where_pos: "x \<in> set rs \<Longrightarrow> P x \<Longrightarrow> count_where P rs > 0"
  by (auto simp: count_where_def filter_empty_conv)

lemma count_where_nonneg [simp]: "0 \<le> count_where P rs"
  by (simp add: count_where_def)

text \<open>Counting the messages and mailboxes after a statement.\<close>

lemma IncrementMessageCount_ok:
  assumes "schema_ok d" and "b \<in> set (db_mailboxes d)" and "mr_id b = i"
    and "scan_uint32 (mr_uid_next b)"
  shows "IncrementMessageCount now i sz u d =
    (Inr (word_of_int (mr_uid_next b)),
     d\<lparr>db_mailboxes := update_where (\<lambda>r. mr_id r = i) (bump_row now sz u) (db_mailboxes d)\<rparr>)"
proof -
  have "find (\<lambda>r. mr_id r = i) (db_mailboxes d) = Some b"
    using assms find_mailbox_iff by blast
  then have "find (\<lambda>r. mr_id r = i) (update_where (\<lambda>r. mr_id r = i) (bump_row now sz u) (db_mailboxes d))
      = Some (bump_row now sz u b)"
    using assms(3) by (subst find_update_where) (auto simp: bump_row_def)
  then show ?thesis
    using assms(4) update_mailboxes_keys [OF assms(1), of "bump_row now sz u" "\<lambda>r. mr_id r = i"]
    by (simp add: IncrementMessageCount_def andThen_def wrap_def bump_row_def)
qed

lemma expect_rows_pos: "m d = (Inr n, d') \<Longrightarrow> n > 0 \<Longrightarrow> expect_rows e m d = (Inr (), d')"
  by (simp add: expect_rows_def andThen_def)

lemma DecrementMessageCount_ok:
  assumes "schema_ok d" and "b \<in> set (db_mailboxes d)" and "mr_id b = i"
  shows "DecrementMessageCount now i sz u d =
    (Inr (), d\<lparr>db_mailboxes := update_where (\<lambda>r. mr_id r = i) (drop_row now sz u) (db_mailboxes d)\<rparr>)"
  unfolding DecrementMessageCount_def
  by (rule expect_rows_pos [where n = "count_where (\<lambda>r. mr_id r = i) (db_mailboxes d)"])
    (use count_where_pos [OF assms(2), of "\<lambda>r. mr_id r = i"] assms(3) in
      \<open>simp_all add: update_mailboxes_keys [OF assms(1)]\<close>)

section \<open>Counters and UIDs\<close>

definition stats_row :: "messageRow list \<Rightarrow> mailboxRow \<Rightarrow> bool" where
  "stats_row ms b \<longleftrightarrow> mr_message_count b = count_where (in_mailbox (mr_id b)) ms \<and>
     mr_unread_count b = count_where (unread_in (mr_id b)) ms \<and>
     mr_total_size b = sum_size (mr_id b) ms"

definition stats_ok :: "db \<Rightarrow> bool" where
  "stats_ok d \<longleftrightarrow> list_all (stats_row (db_messages d)) (db_mailboxes d) \<and>
     list_all (\<lambda>r. 0 \<le> r_size r) (db_messages d)"

definition uid_below :: "mailboxRow list \<Rightarrow> messageRow \<Rightarrow> bool" where
  "uid_below bs r \<longleftrightarrow>
     list_all (\<lambda>b. mr_id b = r_mailbox_id r \<longrightarrow> uint (r_imap_uid r) < mr_uid_next b) bs"

definition uids_ok :: "db \<Rightarrow> bool" where
  "uids_ok d \<longleftrightarrow> list_all (uid_below (db_mailboxes d)) (db_messages d) \<and>
     list_all (\<lambda>b. 1 \<le> mr_uid_next b) (db_mailboxes d)"

definition store_ok :: "db \<Rightarrow> bool" where
  "store_ok d \<longleftrightarrow> schema_ok d \<and> stats_ok d \<and> uids_ok d"

lemma count_where_append [simp]: "count_where P (xs @ ys) = count_where P xs + count_where P ys"
  by (simp add: count_where_def)

lemma count_where_single [simp]: "count_where P [x] = (if P x then 1 else 0)"
  by (simp add: count_where_def)

lemma sum_size_append [simp]: "sum_size i (xs @ ys) = sum_size i xs + sum_size i ys"
  by (simp add: sum_size_def)

lemma sum_size_single [simp]: "sum_size i [x] = (if in_mailbox i x then r_size x else 0)"
  by (simp add: sum_size_def)

lemma filter_other_keys: "k y \<notin> k ` set ys \<Longrightarrow> filter (\<lambda>z. k z \<noteq> k y) ys = ys"
  by (induction ys) auto

lemma count_where_remove:
  assumes "distinct (map k xs)" and "x \<in> set xs"
  shows "count_where P (filter (\<lambda>y. k y \<noteq> k x) xs) = count_where P xs - (if P x then 1 else 0)"
  using assms
proof (induction xs)
  case (Cons y ys)
  show ?case
  proof (cases "x = y")
    case True
    then have "filter (\<lambda>z. k z \<noteq> k x) ys = ys"
      using Cons.prems(1) by (auto intro: filter_other_keys)
    with True show ?thesis by (simp add: count_where_def)
  next
    case False
    with Cons show ?thesis by (auto simp: count_where_def image_iff)
  qed
qed simp

lemma sum_size_remove:
  assumes "distinct (map k xs)" and "x \<in> set xs"
  shows "sum_size i (filter (\<lambda>y. k y \<noteq> k x) xs) = sum_size i xs - (if in_mailbox i x then r_size x else 0)"
  using assms
proof (induction xs)
  case (Cons y ys)
  show ?case
  proof (cases "x = y")
    case True
    then have "filter (\<lambda>z. k z \<noteq> k x) ys = ys"
      using Cons.prems(1) by (auto intro: filter_other_keys)
    with True show ?thesis by (simp add: sum_size_def)
  next
    case False
    with Cons show ?thesis by (auto simp: sum_size_def image_iff)
  qed
qed simp

lemma sum_size_nonneg: "list_all (\<lambda>r. 0 \<le> r_size r) ms \<Longrightarrow> 0 \<le> sum_size i ms"
  by (auto simp: sum_size_def list_all_iff intro!: sum_list_nonneg)

lemma sum_size_member:
  assumes "list_all (\<lambda>r. 0 \<le> r_size r) ms" and "x \<in> set ms" and "in_mailbox i x"
  shows "r_size x \<le> sum_size i ms"
  using assms
proof (induction ms)
  case (Cons y ys)
  then show ?case
    using sum_size_nonneg [of ys i] by (auto simp: sum_size_def)
qed simp

lemma count_unread_le: "count_where (unread_in i) ms \<le> count_where (in_mailbox i) ms"
  by (induction ms) (auto simp: count_where_def unread_in_def in_mailbox_def)

section \<open>Saving a message\<close>

definition recipient_row :: "ID \<Rightarrow> string \<Rightarrow> EmailAddress \<Rightarrow> recipientRow" where
  "recipient_row i kind a = \<lparr>rr_message_id = i, rr_recipient_type = kind,
     rr_name = NullString (ea_Name a), rr_address = ea_Address a\<rparr>"

definition recipients_of :: "Message \<Rightarrow> recipientRow list" where
  "recipients_of m =
     map (recipient_row (msg_ID m) ''to'') (msg_To m) @ map (recipient_row (msg_ID m) ''cc'') (msg_Cc m) @
     map (recipient_row (msg_ID m) ''bcc'') (msg_Bcc m) @
     (case msg_ReplyTo m of None \<Rightarrow> [] | Some a \<Rightarrow> [recipient_row (msg_ID m) ''reply_to'' a])"

lemma schema_ok_add_recipients:
  assumes "schema_ok d" and "\<forall>r \<in> set rs. rr_message_id r \<in> r_id ` set (db_messages d)"
  shows "schema_ok (d\<lparr>db_recipients := db_recipients d @ rs\<rparr>)"
  using assms by (auto simp: schema_defs list_all_iff)

lemma insert_recipients_ok:
  assumes "schema_ok d" and "i \<in> r_id ` set (db_messages d)"
  shows "insert_recipients i kind msg as d =
    (Inr (), d\<lparr>db_recipients := db_recipients d @ map (recipient_row i kind) as\<rparr>)"
  using assms
proof (induction as arbitrary: d)
  case (Cons a as)
  let ?d = "d\<lparr>db_recipients := db_recipients d @ [recipient_row i kind a]\<rparr>"
  have ok: "schema_ok ?d"
    using Cons.prems by (intro schema_ok_add_recipients) (auto simp: recipient_row_def)
  then have "insert_recipient (recipient_row i kind a) d = (Inr (), ?d)"
    by (simp add: insert_recipient_def stmt_def)
  then show ?case
    using Cons.IH [OF ok] Cons.prems by (simp add: andThen_def wrap_def recipient_row_def)
qed simp

lemma saveRecipients_ok:
  assumes "schema_ok d" and "msg_ID m \<in> r_id ` set (db_messages d)"
  shows "saveRecipients m d = (Inr (), d\<lparr>db_recipients := db_recipients d @ recipients_of m\<rparr>)"
    and "schema_ok (d\<lparr>db_recipients := db_recipients d @ recipients_of m\<rparr>)"
proof -
  have ok: "schema_ok (d\<lparr>db_recipients := db_recipients d @ rs\<rparr>)"
    if "\<forall>r \<in> set rs. rr_message_id r = msg_ID m" for rs
    using schema_ok_add_recipients [OF assms(1), of rs] that assms(2) by auto
  show "schema_ok (d\<lparr>db_recipients := db_recipients d @ recipients_of m\<rparr>)"
    by (rule ok) (auto simp: recipients_of_def recipient_row_def split: option.splits)
  let ?k = "\<lambda>kind. map (recipient_row (msg_ID m) kind)"
  let ?d = "\<lambda>rs. d\<lparr>db_recipients := db_recipients d @ rs\<rparr>"
  have step: "insert_recipients (msg_ID m) kind e as (?d rs) = (Inr (), ?d (rs @ ?k kind as))"
    if "\<forall>r \<in> set rs. rr_message_id r = msg_ID m" for kind e as rs
    using insert_recipients_ok [OF ok [OF that], of "msg_ID m" kind e as] assms(2) by simp
  have ids: "\<forall>r \<in> set (?k kind as). rr_message_id r = msg_ID m" for kind as
    by (auto simp: recipient_row_def)
  have first: "insert_recipients (msg_ID m) kind e as d = (Inr (), ?d (?k kind as))" for kind e as
    using step [of "[]" kind e as] by simp
  show "saveRecipients m d = (Inr (), ?d (recipients_of m))"
    using ids by (auto simp: saveRecipients_def recipients_of_def andThen_def first step
        ball_Un simp del: insert_recipients.simps split: option.splits)
qed

lemma fold_recipients:
  "fold add_recipient (map (recipient_row i ''to'') as) m = m\<lparr>msg_To := msg_To m @ as\<rparr>"
  "fold add_recipient (map (recipient_row i ''cc'') as) m = m\<lparr>msg_Cc := msg_Cc m @ as\<rparr>"
  "fold add_recipient (map (recipient_row i ''bcc'') as) m = m\<lparr>msg_Bcc := msg_Bcc m @ as\<rparr>"
  by (induction as arbitrary: m) (simp_all add: add_recipient_def recipient_row_def)

lemma load_recipients_of:
  "fold add_recipient (recipients_of m) (toMessage (row_of_message m)) = m\<lparr>msg_AllHeaders := []\<rparr>"
  by (cases "msg_ReplyTo m")
    (simp_all add: recipients_of_def fold_recipients toMessage_def row_of_message_def
      add_recipient_def recipient_row_def)

lemma recipients_of_ids: "filter (\<lambda>r. rr_message_id r = msg_ID m) (recipients_of m) = recipients_of m"
  by (auto simp: recipients_of_def recipient_row_def filter_id_conv split: option.splits)

lemma load_saved:
  assumes "\<forall>r \<in> set rrs. rr_message_id r \<noteq> msg_ID m"
  shows "loadRecipients (rrs @ recipients_of m) (toMessage (row_of_message m)) = m\<lparr>msg_AllHeaders := []\<rparr>"
proof -
  have "msg_ID (toMessage (row_of_message m)) = msg_ID m"
    by (simp add: toMessage_def row_of_message_def)
  moreover have "filter (\<lambda>r. rr_message_id r = msg_ID m) rrs = []"
    using assms by (simp add: filter_empty_conv)
  ultimately show ?thesis
    by (simp add: loadRecipients_def recipients_of_ids load_recipients_of)
qed

text \<open>The database after \<^verbatim>\<open>Create\<close> assigned a UID and stored the message.\<close>

definition created_db :: "instant \<Rightarrow> Message \<Rightarrow> db \<Rightarrow> db" where
  "created_db now m d =
     d\<lparr>db_mailboxes := update_where (\<lambda>r. mr_id r = msg_MailboxID m)
          (bump_row now (msg_Size m) (msg_Status m = MessageUnread)) (db_mailboxes d),
       db_messages := db_messages d @ [row_of_message m],
       db_recipients := db_recipients d @ recipients_of m\<rparr>"

lemma insert_message_ok:
  assumes "schema_ok d" and "r_id r \<notin> r_id ` set (db_messages d)"
    and "(r_mailbox_id r, r_imap_uid r) \<notin> (\<lambda>r. (r_mailbox_id r, r_imap_uid r)) ` set (db_messages d)"
    and "r_mailbox_id r \<in> mr_id ` set (db_mailboxes d)"
  shows "insert_message r d = (Inr (), d\<lparr>db_messages := db_messages d @ [r]\<rparr>)"
    and "schema_ok (d\<lparr>db_messages := db_messages d @ [r]\<rparr>)"
proof -
  show ok: "schema_ok (d\<lparr>db_messages := db_messages d @ [r]\<rparr>)"
    using assms by (auto simp: schema_defs list_all_iff)
  show "insert_message r d = (Inr (), d\<lparr>db_messages := db_messages d @ [r]\<rparr>)"
    using ok by (simp add: insert_message_def stmt_def)
qed

lemma uint_uid: "scan_uint32 n \<Longrightarrow> uint (word_of_int n :: 32 word) = n"
  by (simp add: scan_uint32_def uint_word_of_int take_bit_int_eq_self)

lemma uids_okD:
  assumes "uids_ok d" and "r \<in> set (db_messages d)" and "b \<in> set (db_mailboxes d)"
    and "mr_id b = r_mailbox_id r"
  shows "uint (r_imap_uid r) < mr_uid_next b"
  using assms by (auto simp: uids_ok_def uid_below_def list_all_iff)

lemma mailbox_ids_update [simp]:
  "keeps_mailbox_keys f \<Longrightarrow> mr_id ` set (update_where P f rs) = mr_id ` set rs"
  by (metis keeps_mailbox_keys_def list.set_map map_update_where)

lemma uid_fresh:
  assumes "uids_ok d" and "b \<in> set (db_mailboxes d)" and "scan_uint32 (mr_uid_next b)"
  shows "(mr_id b, word_of_int (mr_uid_next b)) \<notin> (\<lambda>r. (r_mailbox_id r, r_imap_uid r)) ` set (db_messages d)"
proof
  assume "(mr_id b, word_of_int (mr_uid_next b)) \<in> (\<lambda>r. (r_mailbox_id r, r_imap_uid r)) ` set (db_messages d)"
  then obtain r where "r \<in> set (db_messages d)" "r_mailbox_id r = mr_id b"
    "r_imap_uid r = word_of_int (mr_uid_next b)" by auto
  then show False
    using uids_okD [OF assms(1) _ assms(2), of r] uint_uid [OF assms(3)] by simp
qed

lemma Create_ok:
  assumes d: "schema_ok d" "uids_ok d" and b: "b \<in> set (db_mailboxes d)" "mr_id b = msg_MailboxID m"
    and uid: "scan_uint32 (mr_uid_next b)" "msg_IMAPUID m = 0"
    and fresh: "msg_ID m \<notin> r_id ` set (db_messages d)"
  shows "Create now m d = (Inr (m\<lparr>msg_IMAPUID := word_of_int (mr_uid_next b)\<rparr>),
           created_db now (m\<lparr>msg_IMAPUID := word_of_int (mr_uid_next b)\<rparr>) d)"
    and "schema_ok (created_db now (m\<lparr>msg_IMAPUID := word_of_int (mr_uid_next b)\<rparr>) d)"
proof -
  let ?m = "m\<lparr>msg_IMAPUID := word_of_int (mr_uid_next b)\<rparr>"
  let ?bump = "bump_row now (msg_Size m) (msg_Status m = MessageUnread)"
  let ?d1 = "d\<lparr>db_mailboxes := update_where (\<lambda>r. mr_id r = msg_MailboxID m) ?bump (db_mailboxes d)\<rparr>"
  let ?d2 = "?d1\<lparr>db_messages := db_messages d @ [row_of_message ?m]\<rparr>"
  have inc: "IncrementMessageCount now (msg_MailboxID m) (msg_Size m) (msg_Status m = MessageUnread) d =
      (Inr (word_of_int (mr_uid_next b)), ?d1)"
    using d(1) b uid(1) by (rule IncrementMessageCount_ok)
  have ok1: "schema_ok ?d1"
    using d(1) by (intro schema_ok_update_mailboxes) simp_all
  have mb: "msg_MailboxID m \<in> mr_id ` set (db_mailboxes ?d1)"
    using imageI [OF b(1), of mr_id] b(2) by simp
  have ins: "insert_message (row_of_message ?m) ?d1 = (Inr (), ?d2)" "schema_ok ?d2"
    using insert_message_ok [OF ok1, of "row_of_message ?m"] fresh mb uid_fresh [OF d(2) b(1) uid(1)] b(2)
    by (simp_all add: row_of_message_def)
  have "msg_ID ?m \<in> r_id ` set (db_messages ?d2)"
    by (simp add: row_of_message_def)
  from saveRecipients_ok [OF ins(2) this]
  have save: "saveRecipients ?m ?d2 = (Inr (), created_db now ?m d)" "schema_ok (created_db now ?m d)"
    by (simp_all add: created_db_def)
  show "Create now m d = (Inr ?m, created_db now ?m d)"
    using uid(2) ins(1) save(1) by (simp add: Create_def assign_uid_def andThen_def wrap_def inc)
  show "schema_ok (created_db now ?m d)"
    by (rule save)
qed

lemma stats_row_bump:
  assumes "stats_row ms b" and "mr_id b = r_mailbox_id r"
  shows "stats_row (ms @ [r]) (bump_row now (r_size r) (r_status r = MessageUnread) b)"
  using assms by (simp add: stats_row_def bump_row_def in_mailbox_def unread_in_def MessageUnread_def)

lemma stats_row_other:
  assumes "stats_row ms b" and "mr_id b \<noteq> r_mailbox_id r"
  shows "stats_row (ms @ [r]) b"
  using assms by (simp add: stats_row_def in_mailbox_def unread_in_def)

lemma stats_ok_created:
  assumes "stats_ok d" and "0 \<le> msg_Size m"
  shows "stats_ok (created_db now m d)"
  using assms stats_row_bump [where r = "row_of_message m"] stats_row_other [where r = "row_of_message m"]
  by (auto simp: stats_ok_def created_db_def list_all_iff set_update_where row_of_message_def)

lemma uids_ok_created:
  assumes "uids_ok d" and b: "b \<in> set (db_mailboxes d)" "mr_id b = msg_MailboxID m"
    and "schema_ok d" and "scan_uint32 (mr_uid_next b)"
    and "msg_IMAPUID m = word_of_int (mr_uid_next b)"
  shows "uids_ok (created_db now m d)"
proof -
  have only: "c = b" if "c \<in> set (db_mailboxes d)" "mr_id c = msg_MailboxID m" for c
    using that b assms(4) find_mailbox_iff [OF assms(4)] by (metis option.inject)
  show ?thesis
    using assms(1) only uint_uid [OF assms(5)] assms(6)
    by (fastforce simp: uids_ok_def uid_below_def list_all_iff created_db_def set_update_where
        bump_row_def row_of_message_def)
qed

lemma GetByID_created:
  assumes "schema_ok d" and "msg_ID m \<notin> r_id ` set (db_messages d)"
  shows "GetByID (msg_ID m) (created_db now m d) = (Inr (m\<lparr>msg_AllHeaders := []\<rparr>), created_db now m d)"
proof -
  have "find (\<lambda>r. r_id r = msg_ID m) (db_messages d @ [row_of_message m]) = Some (row_of_message m)"
  proof -
    have "find (\<lambda>r. r_id r = msg_ID m) (db_messages d) = None"
      using assms(2) by (simp add: find_eq_None image_iff) metis
    then show ?thesis by (simp add: find_append row_of_message_def)
  qed
  moreover have "\<forall>r \<in> set (db_recipients d). rr_message_id r \<noteq> msg_ID m"
    using assms by (simp add: schema_defs list_all_iff) metis
  ultimately show ?thesis
    by (simp add: GetByID_def get_message_def created_db_def load_def load_saved)
qed

section \<open>Deleting a message\<close>

lemma schema_ok_delete_messages:
  assumes "schema_ok d"
  shows "schema_ok (cascade_children (d\<lparr>db_messages := filter (\<lambda>r. \<not> P r) (db_messages d)\<rparr>))"
  using assms by (auto simp: schema_defs cascade_children_def list_all_iff distinct_map_filter)

lemma delete_messages_ok:
  assumes "schema_ok d"
  shows "delete_messages P d = (Inr (count_where P (db_messages d)),
    cascade_children (d\<lparr>db_messages := filter (\<lambda>r. \<not> P r) (db_messages d)\<rparr>))"
  using schema_ok_delete_messages [OF assms] by (simp add: delete_messages_def stmt_def)

definition deleted_db :: "instant \<Rightarrow> messageRow \<Rightarrow> db \<Rightarrow> db" where
  "deleted_db now r d =
     (cascade_children (d\<lparr>db_messages := filter (\<lambda>x. r_id x \<noteq> r_id r) (db_messages d)\<rparr>))
     \<lparr>db_mailboxes := update_where (\<lambda>b. mr_id b = r_mailbox_id r)
        (drop_row now (r_size r) (r_status r = MessageUnread)) (db_mailboxes d)\<rparr>"

lemma load_fields [simp]:
  "msg_ID (load d r) = r_id r" "msg_MailboxID (load d r) = r_mailbox_id r"
  "msg_Size (load d r) = r_size r" "msg_Status (load d r) = r_status r"
  "msg_IMAPUID (load d r) = r_imap_uid r"
proof -
  have "msg_ID (fold add_recipient rs m) = msg_ID m \<and> msg_MailboxID (fold add_recipient rs m) = msg_MailboxID m \<and>
      msg_Size (fold add_recipient rs m) = msg_Size m \<and> msg_Status (fold add_recipient rs m) = msg_Status m \<and>
      msg_IMAPUID (fold add_recipient rs m) = msg_IMAPUID m" for rs m
    by (induction rs arbitrary: m) (simp_all add: add_recipient_def Let_def)
  then show "msg_ID (load d r) = r_id r" "msg_MailboxID (load d r) = r_mailbox_id r"
    "msg_Size (load d r) = r_size r" "msg_Status (load d r) = r_status r"
    "msg_IMAPUID (load d r) = r_imap_uid r"
    by (simp_all add: load_def loadRecipients_def toMessage_def)
qed

lemma GetByID_found:
  assumes "schema_ok d" and "r \<in> set (db_messages d)"
  shows "GetByID (r_id r) d = (Inr (load d r), d)"
  using assms find_message_iff [OF assms(1), of "r_id r" r]
  by (simp add: GetByID_def get_message_def)

lemma GetByID_missing:
  "i \<notin> r_id ` set (db_messages d) \<Longrightarrow> GetByID i d = (Inl (NotFoundError ''message'' i), d)"
proof -
  assume "i \<notin> r_id ` set (db_messages d)"
  then have "find (\<lambda>r. r_id r = i) (db_messages d) = None"
    by (simp add: find_eq_None image_iff) metis
  then show ?thesis by (simp add: GetByID_def get_message_def)
qed

lemma mailbox_of_message:
  assumes "schema_ok d" and "r \<in> set (db_messages d)"
  obtains b where "b \<in> set (db_mailboxes d)" and "mr_id b = r_mailbox_id r"
  using assms by (force simp: schema_defs list_all_iff)

lemma Delete_ok:
  assumes "schema_ok d" and "r \<in> set (db_messages d)"
  shows "Delete now (r_id r) d = (Inr (), deleted_db now r d)"
    and "schema_ok (deleted_db now r d)"
proof -
  let ?d = "cascade_children (d\<lparr>db_messages := filter (\<lambda>x. r_id x \<noteq> r_id r) (db_messages d)\<rparr>)"
  obtain b where b: "b \<in> set (db_mailboxes d)" "mr_id b = r_mailbox_id r"
    using mailbox_of_message [OF assms] .
  have ok: "schema_ok ?d"
    by (rule schema_ok_delete_messages [OF assms(1)])
  have mbs: "db_mailboxes ?d = db_mailboxes d"
    by (simp add: cascade_children_def)
  have del: "expect_rows e (wrap msg (delete_messages (\<lambda>x. r_id x = r_id r))) d = (Inr (), ?d)" for e msg
    by (rule expect_rows_pos [where n = "count_where (\<lambda>x. r_id x = r_id r) (db_messages d)"])
      (use count_where_pos [OF assms(2), of "\<lambda>x. r_id x = r_id r"] in
        \<open>simp_all add: delete_messages_ok [OF assms(1)]\<close>)
  have dec: "DecrementMessageCount now (r_mailbox_id r) sz u ?d =
      (Inr (), ?d\<lparr>db_mailboxes := update_where (\<lambda>c. mr_id c = r_mailbox_id r) (drop_row now sz u) (db_mailboxes d)\<rparr>)" for sz u
    using DecrementMessageCount_ok [OF ok, of b "r_mailbox_id r" now sz u] b mbs by simp
  show "Delete now (r_id r) d = (Inr (), deleted_db now r d)"
    by (simp add: Delete_def andThen_def GetByID_found [OF assms] del dec deleted_db_def)
  show "schema_ok (deleted_db now r d)"
    using schema_ok_update_mailboxes [OF ok, of "drop_row now (r_size r) (r_status r = MessageUnread)"
        "\<lambda>b. mr_id b = r_mailbox_id r"]
    by (simp add: deleted_db_def mbs)
qed

lemma stats_row_drop:
  assumes "stats_row ms b" and "r \<in> set ms" and "distinct (map r_id ms)"
    and "list_all (\<lambda>r. 0 \<le> r_size r) ms" and "mr_id b = r_mailbox_id r"
  shows "stats_row (filter (\<lambda>x. r_id x \<noteq> r_id r) ms) (drop_row now (r_size r) (r_status r = MessageUnread) b)"
proof -
  have "count_where (in_mailbox (mr_id b)) ms > 0"
    by (rule count_where_pos [OF assms(2)]) (simp add: in_mailbox_def assms(5))
  moreover have "r_status r = ''unread'' \<Longrightarrow> count_where (unread_in (mr_id b)) ms > 0"
    by (rule count_where_pos [OF assms(2)]) (simp add: unread_in_def assms(5))
  moreover have "r_size r \<le> sum_size (mr_id b) ms"
    by (rule sum_size_member [OF assms(4,2)]) (simp add: in_mailbox_def assms(5))
  ultimately show ?thesis
    using assms(1,5) count_where_remove [OF assms(3,2)] sum_size_remove [OF assms(3,2)]
    by (auto simp: stats_row_def drop_row_def in_mailbox_def unread_in_def MessageUnread_def max_def)
qed

lemma stats_row_drop_other:
  assumes "stats_row ms b" and "r \<in> set ms" and "distinct (map r_id ms)" and "mr_id b \<noteq> r_mailbox_id r"
  shows "stats_row (filter (\<lambda>x. r_id x \<noteq> r_id r) ms) b"
  using assms(1,4) count_where_remove [OF assms(3,2)] sum_size_remove [OF assms(3,2)]
  by (auto simp: stats_row_def in_mailbox_def unread_in_def)

lemma store_ok_deleted:
  assumes "store_ok d" and "r \<in> set (db_messages d)"
  shows "store_ok (deleted_db now r d)"
proof -
  have ids: "distinct (map r_id (db_messages d))" and st: "list_all (stats_row (db_messages d)) (db_mailboxes d)"
    "list_all (\<lambda>r. 0 \<le> r_size r) (db_messages d)" and u: "uids_ok d" and sc: "schema_ok d"
    using assms(1) by (auto simp: store_ok_def stats_ok_def schema_defs)
  have "stats_ok (deleted_db now r d)"
    using st stats_row_drop [OF _ assms(2) ids st(2)] stats_row_drop_other [OF _ assms(2) ids]
    by (auto simp: stats_ok_def deleted_db_def cascade_children_def list_all_iff set_update_where)
  moreover have "uids_ok (deleted_db now r d)"
    using u by (auto simp: uids_ok_def uid_below_def deleted_db_def cascade_children_def
        list_all_iff set_update_where drop_row_def)
  ultimately show ?thesis
    using Delete_ok(2) [OF sc assms(2)] by (simp add: store_ok_def)
qed

lemma GetByID_other_deleted:
  assumes "schema_ok d" and "r \<in> set (db_messages d)" and "j \<noteq> r_id r"
  shows "fst (GetByID j (deleted_db now r d)) = fst (GetByID j d)"
proof (cases "\<exists>x \<in> set (db_messages d). r_id x = j")
  case True
  then obtain x where x: "x \<in> set (db_messages d)" "r_id x = j" by blast
  then have x': "x \<in> set (db_messages (deleted_db now r d))"
    using assms(3) by (simp add: deleted_db_def cascade_children_def)
  have "filter (\<lambda>y. rr_message_id y = r_id x) (db_recipients (deleted_db now r d)) =
      filter (\<lambda>y. rr_message_id y = r_id x) (db_recipients d)"
    using x assms(3) by (auto simp: deleted_db_def cascade_children_def intro!: filter_cong)
  then have "load (deleted_db now r d) x = load d x"
    by (simp add: load_def loadRecipients_def toMessage_def)
  then show ?thesis
    using GetByID_found [OF assms(1) x(1)] GetByID_found [OF Delete_ok(2) [OF assms(1,2)] x'] x(2) by simp
next
  case False
  then show ?thesis
    by (subst (1 2) GetByID_missing) (auto simp: deleted_db_def cascade_children_def)
qed

section \<open>Moving a message\<close>

lemma update_where_id: "(\<And>y. y \<in> set xs \<Longrightarrow> \<not> P y) \<Longrightarrow> update_where P f xs = xs"
  by (induction xs) (auto simp: update_where_def)

lemma update_where_cong: "(\<And>y. y \<in> set xs \<Longrightarrow> P y = Q y) \<Longrightarrow> update_where P f xs = update_where Q f xs"
  by (induction xs) (auto simp: update_where_def)

lemma update_where_Cons [simp]:
  "update_where P f (x # xs) = (if P x then f x else x) # update_where P f xs"
  by (simp add: update_where_def)

lemma distinct_update_key:
  assumes "distinct (map i xs)" and "distinct (map k xs)" and "x \<in> set xs"
  shows "distinct (map k (update_where (\<lambda>y. i y = i x) f xs)) \<longleftrightarrow> k (f x) \<notin> k ` (set xs - {x})"
  using assms
proof (induction xs)
  case (Cons y ys)
  show ?case
  proof (cases "y = x")
    case True
    have same: "update_where (\<lambda>y. i y = i x) f ys = ys"
      using Cons.prems(1) True by (intro update_where_id) (auto simp: image_iff)
    have "x \<notin> set ys" using Cons.prems(2) True by auto
    then show ?thesis
      using Cons.prems(2) True by (auto simp: same)
  next
    case False
    then have x: "x \<in> set ys" and ix: "i y \<noteq> i x"
      using Cons.prems by auto
    have set_upd: "k ` set (update_where (\<lambda>y. i y = i x) f ys) = insert (k (f x)) (k ` (set ys - {x}))"
    proof -
      have "i z = i x \<longleftrightarrow> z = x" if "z \<in> set ys" for z
        using Cons.prems(1) that x inj_onD [of i "set ys" z x] by (auto simp: distinct_map)
      then show ?thesis
        using x by (auto simp: set_update_where image_iff)
    qed
    have "k y \<notin> k ` set ys" using Cons.prems(2) by simp
    moreover have "set (y # ys) - {x} = insert y (set ys - {x})" using False by auto
    ultimately show ?thesis
      using Cons.IH Cons.prems x ix by (auto simp: set_upd simp del: set_simps)
  qed
qed simp

lemma count_where_update:
  assumes "distinct (map i xs)" and "x \<in> set xs"
  shows "count_where P (update_where (\<lambda>y. i y = i x) f xs) =
    count_where P xs - (if P x then 1 else 0) + (if P (f x) then 1 else 0)"
  using assms
proof (induction xs)
  case (Cons y ys)
  show ?case
  proof (cases "y = x")
    case True
    then have "update_where (\<lambda>y. i y = i x) f ys = ys"
      using Cons.prems(1) by (intro update_where_id) (auto simp: image_iff)
    then show ?thesis using True by (simp add: count_where_def)
  next
    case False
    then have "i y \<noteq> i x" and "x \<in> set ys" using Cons.prems by auto
    then show ?thesis using Cons by (auto simp: count_where_def)
  qed
qed simp

lemma sum_size_update:
  assumes "distinct (map k xs)" and "x \<in> set xs"
  shows "sum_size i (update_where (\<lambda>y. k y = k x) f xs) =
    sum_size i xs - (if in_mailbox i x then r_size x else 0) + (if in_mailbox i (f x) then r_size (f x) else 0)"
  using assms
proof (induction xs)
  case (Cons y ys)
  show ?case
  proof (cases "y = x")
    case True
    then have "update_where (\<lambda>y. k y = k x) f ys = ys"
      using Cons.prems(1) by (intro update_where_id) (auto simp: image_iff)
    then show ?thesis using True by (simp add: sum_size_def)
  next
    case False
    then have "k y \<noteq> k x" and "x \<in> set ys" using Cons.prems by auto
    then show ?thesis using Cons by (auto simp: sum_size_def)
  qed
qed simp

definition moved_row :: "instant \<Rightarrow> ID \<Rightarrow> 32 word \<Rightarrow> messageRow \<Rightarrow> messageRow" where
  "moved_row now target uid r = r\<lparr>r_mailbox_id := target, r_updated_at := now, r_imap_uid := uid\<rparr>"

definition moved_db :: "instant \<Rightarrow> ID \<Rightarrow> 32 word \<Rightarrow> messageRow \<Rightarrow> db \<Rightarrow> db" where
  "moved_db now target uid r d =
     d\<lparr>db_messages := update_where (\<lambda>x. r_id x = r_id r) (moved_row now target uid) (db_messages d),
       db_mailboxes := update_where (\<lambda>b. mr_id b = target)
          (bump_row now (r_size r) (r_status r = MessageUnread))
          (update_where (\<lambda>b. mr_id b = r_mailbox_id r)
             (drop_row now (r_size r) (r_status r = MessageUnread)) (db_mailboxes d))\<rparr>"

text \<open>The first statement of a move keeps the old UID, so the UID must be free in the target mailbox.\<close>

definition uid_free :: "db \<Rightarrow> ID \<Rightarrow> messageRow \<Rightarrow> bool" where
  "uid_free d target r \<longleftrightarrow>
     list_all (\<lambda>x. \<not> (r_mailbox_id x = target \<and> r_imap_uid x = r_imap_uid r)) (db_messages d)"

lemma move_update:
  assumes "schema_ok d" and r: "r \<in> set (db_messages d)"
    and t: "target \<in> mr_id ` set (db_mailboxes d)"
    and f: "\<And>x. r_id (f x) = r_id x" "\<And>x. r_mailbox_id (f x) = target"
    and other: "(target, r_imap_uid (f r)) \<notin> (\<lambda>x. (r_mailbox_id x, r_imap_uid x)) ` (set (db_messages d) - {r})"
  shows "schema_ok (d\<lparr>db_messages := update_where (\<lambda>x. r_id x = r_id r) f (db_messages d)\<rparr>)"
proof -
  let ?ms = "update_where (\<lambda>x. r_id x = r_id r) f (db_messages d)"
  have ids: "map r_id ?ms = map r_id (db_messages d)"
    by (rule map_update_where) (simp add: f)
  moreover have "distinct (map (\<lambda>x. (r_mailbox_id x, r_imap_uid x)) ?ms)"
    using assms(1) r other f(2) by (subst distinct_update_key) (auto simp: schema_defs)
  moreover have "list_all (\<lambda>x. r_mailbox_id x \<in> mr_id ` set (db_mailboxes d)) ?ms"
    using assms(1) t f(2) by (auto simp: list_all_iff set_update_where schema_defs)
  moreover have "r_id ` set ?ms = r_id ` set (db_messages d)"
    using ids by (metis list.set_map)
  ultimately show ?thesis
    using assms(1) by (simp add: schema_defs)
qed


lemma moved_row_keys: "r_id (moved_row now target uid x) = r_id x"
  by (simp add: moved_row_def)

lemma update_where_twice:
  assumes "\<And>x. P (f x) = P x"
  shows "update_where P g (update_where P f xs) = update_where P (g \<circ> f) xs"
  using assms by (simp add: update_where_def)

lemma Move_ok:
  assumes "schema_ok d" "uids_ok d" and r: "r \<in> set (db_messages d)"
    and b: "b \<in> set (db_mailboxes d)" "mr_id b = target" and neq: "r_mailbox_id r \<noteq> target"
    and uid: "scan_uint32 (mr_uid_next b)" and free: "uid_free d target r"
  shows "MoveToMailbox now (r_id r) target d = (Inr (), moved_db now target (word_of_int (mr_uid_next b)) r d)"
    and "schema_ok (moved_db now target (word_of_int (mr_uid_next b)) r d)"
proof -
  let ?u = "r_status r = MessageUnread" and ?uid = "word_of_int (mr_uid_next b) :: 32 word"
  let ?P = "\<lambda>x. r_id x = r_id r"
  let ?f = "\<lambda>x. x\<lparr>r_mailbox_id := target, r_updated_at := now\<rparr>"
  let ?g = "\<lambda>x. x\<lparr>r_imap_uid := ?uid\<rparr>"
  let ?d1 = "d\<lparr>db_messages := update_where ?P ?f (db_messages d)\<rparr>"
  let ?mb2 = "update_where (\<lambda>c. mr_id c = r_mailbox_id r) (drop_row now (r_size r) ?u) (db_mailboxes d)"
  let ?d2 = "?d1\<lparr>db_mailboxes := ?mb2\<rparr>"
  let ?mb3 = "update_where (\<lambda>c. mr_id c = target) (bump_row now (r_size r) ?u) ?mb2"
  let ?d3 = "?d2\<lparr>db_mailboxes := ?mb3\<rparr>"
  let ?d4 = "moved_db now target ?uid r d"
  have t: "target \<in> mr_id ` set (db_mailboxes d)" using b by blast
  have ok1: "schema_ok ?d1"
    by (rule move_update [OF assms(1) r t]) (use free in \<open>auto simp: uid_free_def list_all_iff\<close>)
  then have upd1: "update_messages ?P ?f d = (Inr (count_where ?P (db_messages d)), ?d1)"
    by (simp add: update_messages_def stmt_def)
  obtain c where c: "c \<in> set (db_mailboxes d)" "mr_id c = r_mailbox_id r"
    using mailbox_of_message [OF assms(1) r] .
  have dec: "DecrementMessageCount now (r_mailbox_id r) (r_size r) ?u ?d1 = (Inr (), ?d2)"
    using DecrementMessageCount_ok [OF ok1 _ c(2)] c(1) by simp
  have ok2: "schema_ok ?d2"
    using schema_ok_update_mailboxes [OF ok1, of "drop_row now (r_size r) ?u"] by simp
  have b2: "b \<in> set (db_mailboxes ?d2)"
    using b neq by (auto simp: set_update_where image_iff intro!: bexI [of _ b])
  have inc: "IncrementMessageCount now target (r_size r) ?u ?d2 = (Inr ?uid, ?d3)"
    using IncrementMessageCount_ok [OF ok2 b2 b(2) uid] by simp
  have "(target, ?uid) \<notin> (\<lambda>x. (r_mailbox_id x, r_imap_uid x)) ` set (db_messages d)"
    using uid_fresh [OF assms(2) b(1) uid] b(2) by simp
  then have ok_m: "schema_ok (d\<lparr>db_messages := update_where ?P (moved_row now target ?uid) (db_messages d)\<rparr>)"
    by (intro move_update [OF assms(1) r t]) (auto simp: moved_row_def)
  have ok4: "schema_ok ?d4"
    using schema_ok_update_mailboxes [OF schema_ok_update_mailboxes [OF ok_m,
          of "drop_row now (r_size r) ?u" "\<lambda>c. mr_id c = r_mailbox_id r"],
        of "bump_row now (r_size r) ?u" "\<lambda>c. mr_id c = target"]
    by (simp add: moved_db_def)
  have "update_where ?P ?g (update_where ?P ?f (db_messages d)) = update_where ?P (moved_row now target ?uid) (db_messages d)"
    by (subst update_where_twice) (simp_all add: comp_def moved_row_def [abs_def])
  then have d4: "?d3\<lparr>db_messages := update_where ?P ?g (db_messages ?d3)\<rparr> = ?d4"
    by (simp add: moved_db_def)
  then have upd2: "update_messages ?P ?g ?d3 = (Inr (count_where ?P (db_messages ?d3)), ?d4)"
    using ok4 by (simp add: update_messages_def stmt_def)
  have ex: "mbx_Exists target d = (Inr True, d)"
    using b by (auto simp: mbx_Exists_def list_ex_iff)
  show "MoveToMailbox now (r_id r) target d = (Inr (), ?d4)"
    using neq by (simp add: MoveToMailbox_def andThen_def GetByID_found [OF assms(1) r] ex upd1 wrap_def
        dec inc [simplified] upd2 [simplified] Let_def)
  show "schema_ok ?d4" by (rule ok4)
qed

lemma Move_blocked:
  assumes "schema_ok d" and r: "r \<in> set (db_messages d)"
    and t: "target \<in> mr_id ` set (db_mailboxes d)" and neq: "r_mailbox_id r \<noteq> target"
    and taken: "\<not> uid_free d target r"
  shows "MoveToMailbox now (r_id r) target d =
    (Inl (Wrapped ''failed to move message'' constraint_error), d)"
proof -
  let ?f = "\<lambda>x. x\<lparr>r_mailbox_id := target, r_updated_at := now\<rparr>"
  let ?ms = "update_where (\<lambda>x. r_id x = r_id r) ?f (db_messages d)"
  obtain y where y: "y \<in> set (db_messages d)" "r_mailbox_id y = target" "r_imap_uid y = r_imap_uid r"
    using taken by (auto simp: uid_free_def list_all_iff)
  then have "(target, r_imap_uid r) \<in> (\<lambda>x. (r_mailbox_id x, r_imap_uid x)) ` (set (db_messages d) - {r})"
    using neq by (intro image_eqI [of _ _ y]) auto
  then have "\<not> distinct (map (\<lambda>x. (r_mailbox_id x, r_imap_uid x)) ?ms)"
    using assms(1) r by (subst distinct_update_key) (simp_all add: schema_defs)
  then have "\<not> schema_ok (d\<lparr>db_messages := ?ms\<rparr>)"
    by (simp add: schema_defs)
  then have upd: "update_messages (\<lambda>x. r_id x = r_id r) ?f d = (Inl constraint_error, d)"
    by (simp add: update_messages_def stmt_def)
  have ex: "mbx_Exists target d = (Inr True, d)"
    using t by (auto simp: mbx_Exists_def list_ex_iff)
  show ?thesis
    using neq by (simp add: MoveToMailbox_def andThen_def GetByID_found [OF assms(1) r] ex upd wrap_def)
qed

lemma stats_row_moved:
  fixes now :: instant and uid :: "32 word"
  assumes "stats_row ms c" and "r \<in> set ms" and "distinct (map r_id ms)"
    and "list_all (\<lambda>r. 0 \<le> r_size r) ms" and "r_mailbox_id r \<noteq> target"
  defines "u \<equiv> r_status r = MessageUnread"
  defines "ms' \<equiv> update_where (\<lambda>x. r_id x = r_id r) (moved_row now target uid) ms"
  shows "mr_id c = r_mailbox_id r \<Longrightarrow> stats_row ms' (drop_row now (r_size r) u c)"
    and "mr_id c = target \<Longrightarrow> stats_row ms' (bump_row now (r_size r) u c)"
    and "mr_id c \<noteq> r_mailbox_id r \<Longrightarrow> mr_id c \<noteq> target \<Longrightarrow> stats_row ms' c"
proof -
  note cnt = count_where_update [OF assms(3,2), of _ "moved_row now target uid"]
    and sz = sum_size_update [OF assms(3,2), of _ "moved_row now target uid"]
  note defs = stats_row_def ms'_def u_def cnt sz in_mailbox_def unread_in_def moved_row_def MessageUnread_def
  show "stats_row ms' (drop_row now (r_size r) u c)" if m: "mr_id c = r_mailbox_id r"
  proof -
    have "count_where (in_mailbox (mr_id c)) ms > 0"
      by (rule count_where_pos [OF assms(2)]) (simp add: in_mailbox_def m)
    moreover have "r_status r = ''unread'' \<Longrightarrow> count_where (unread_in (mr_id c)) ms > 0"
      by (rule count_where_pos [OF assms(2)]) (simp add: unread_in_def m)
    moreover have "r_size r \<le> sum_size (mr_id c) ms"
      by (rule sum_size_member [OF assms(4,2)]) (simp add: in_mailbox_def m)
    ultimately show ?thesis
      using assms(1,5) m by (simp add: defs drop_row_def)
  qed
  show "stats_row ms' (bump_row now (r_size r) u c)" if "mr_id c = target"
    using assms(1,5) that by (simp add: defs bump_row_def)
  show "stats_row ms' c" if "mr_id c \<noteq> r_mailbox_id r" "mr_id c \<noteq> target"
    using assms(1) that by (simp add: defs)
qed

lemma store_ok_moved:
  assumes d: "store_ok d" and r: "r \<in> set (db_messages d)"
    and b: "b \<in> set (db_mailboxes d)" "mr_id b = target" and neq: "r_mailbox_id r \<noteq> target"
    and uid: "scan_uint32 (mr_uid_next b)" and free: "uid_free d target r"
  shows "store_ok (moved_db now target (word_of_int (mr_uid_next b)) r d)"
proof -
  let ?uid = "word_of_int (mr_uid_next b) :: 32 word"
  have sc: "schema_ok d" and uo: "uids_ok d" and ids: "distinct (map r_id (db_messages d))"
    and st: "\<And>c. c \<in> set (db_mailboxes d) \<Longrightarrow> stats_row (db_messages d) c"
    and sz: "list_all (\<lambda>r. 0 \<le> r_size r) (db_messages d)"
    using d by (auto simp: store_ok_def stats_ok_def schema_defs list_all_iff)
  have ids_keep: "mr_id (drop_row n s u c) = mr_id c" "mr_id (bump_row n s u c) = mr_id c" for n s u c
    by (simp_all add: drop_row_def bump_row_def)
  have "stats_ok (moved_db now target ?uid r d)"
    unfolding stats_ok_def
  proof
    show "list_all (stats_row (db_messages (moved_db now target ?uid r d))) (db_mailboxes (moved_db now target ?uid r d))"
      using stats_row_moved [OF st r ids sz neq] neq
      by (auto simp: list_all_iff moved_db_def set_update_where ids_keep)
    show "list_all (\<lambda>r. 0 \<le> r_size r) (db_messages (moved_db now target ?uid r d))"
      using sz by (auto simp: list_all_iff moved_db_def set_update_where moved_row_def)
  qed
  moreover have "uids_ok (moved_db now target ?uid r d)"
  proof -
    have only: "c = b" if "c \<in> set (db_mailboxes d)" "mr_id c = target" for c
      using that b find_mailbox_iff [OF sc] by (metis option.inject)
    show ?thesis
      using uo only uint_uid [OF uid] neq
      by (fastforce simp: uids_ok_def uid_below_def list_all_iff moved_db_def set_update_where
          moved_row_def drop_row_def bump_row_def)
  qed
  ultimately show ?thesis
    using Move_ok(2) [OF sc uo r b neq uid free] by (simp add: store_ok_def)
qed

lemma toMessage_ID [simp]: "msg_ID (toMessage r) = r_id r"
  by (simp add: toMessage_def)

lemma GetByID_moved:
  assumes "schema_ok d" and "schema_ok (moved_db now target uid r d)" and "r \<in> set (db_messages d)"
  shows "GetByID (r_id r) (moved_db now target uid r d) =
      (Inr ((load d r)\<lparr>msg_MailboxID := target, msg_IMAPUID := uid, msg_UpdatedAt := now\<rparr>), moved_db now target uid r d)"
proof -
  have m: "moved_row now target uid r \<in> set (db_messages (moved_db now target uid r d))"
    using assms(3) by (auto simp: moved_db_def set_update_where)
  have "load (moved_db now target uid r d) (moved_row now target uid r) =
      (load d r)\<lparr>msg_MailboxID := target, msg_IMAPUID := uid, msg_UpdatedAt := now\<rparr>"
  proof -
    have upd: "add_recipient x (m\<lparr>msg_MailboxID := target, msg_IMAPUID := uid, msg_UpdatedAt := now\<rparr>) =
        (add_recipient x m)\<lparr>msg_MailboxID := target, msg_IMAPUID := uid, msg_UpdatedAt := now\<rparr>" for x m
      by (simp add: add_recipient_def Let_def)
    have "fold add_recipient rs (m\<lparr>msg_MailboxID := target, msg_IMAPUID := uid, msg_UpdatedAt := now\<rparr>) =
        (fold add_recipient rs m)\<lparr>msg_MailboxID := target, msg_IMAPUID := uid, msg_UpdatedAt := now\<rparr>" for rs m
      by (induction rs arbitrary: m) (simp_all add: upd)
    moreover have "toMessage (moved_row now target uid r) =
        (toMessage r)\<lparr>msg_MailboxID := target, msg_IMAPUID := uid, msg_UpdatedAt := now\<rparr>"
      by (simp add: toMessage_def moved_row_def)
    ultimately show ?thesis
      by (simp add: load_def loadRecipients_def moved_db_def)
  qed
  then show ?thesis
    using GetByID_found [OF assms(2) m] by (simp add: moved_row_def)
qed


section \<open>Properties\<close>

text \<open>A small database for the witnesses: one user with two mailboxes.\<close>

definition sample_user :: "ID \<Rightarrow> userRow" where
  "sample_user i =
     \<lparr>ur_id = i, ur_username = i, ur_email = i @ ''@x'', ur_password_hash = ''h'', ur_display_name = None,
      ur_role = ''user'', ur_status = ''active'', ur_avatar_url = None, ur_signature = [],
      ur_signature_html = [], ur_last_login_at = None, ur_deleted_at = None, ur_created_at = 0, ur_updated_at = 0\<rparr>"

definition sample_mailbox :: "ID \<Rightarrow> string \<Rightarrow> mailboxRow" where
  "sample_mailbox i address =
     \<lparr>mr_id = i, mr_user_id = ''u1'', mr_name = i, mr_address = address, mr_description = None,
      mr_is_catch_all = False, mr_is_default = False, mr_mailbox_type = ''custom'',
      mr_message_count = 0, mr_unread_count = 0, mr_total_size = 0, mr_retention_days = 0,
      mr_uid_next = 1, mr_jmap_role = [], mr_sort_order = 0, mr_created_at = 0, mr_updated_at = 0\<rparr>"

definition sample_db :: db where
  "sample_db = \<lparr>db_users = [sample_user ''u1''],
     db_mailboxes = [sample_mailbox ''a'' ''a@x'', sample_mailbox ''b'' ''b@x''],
     db_messages = [], db_recipients = [], db_attachments = []\<rparr>"

definition sample_message :: "ID \<Rightarrow> ID \<Rightarrow> Message" where
  "sample_message i box = (NewMessage 5 i box)
     \<lparr>msg_From := \<lparr>ea_Name = ''Ann'', ea_Address = ''ann@y''\<rparr>,
      msg_To := [\<lparr>ea_Name = [], ea_Address = ''a@x''\<rparr>], msg_Size := 10\<rparr>"

lemma sample_db_ok: "store_ok sample_db"
  by code_simp



text \<open>
  Deleting a message removes it and nothing else. In a consistent store \<^verbatim>\<open>Delete\<close> of a stored
  message succeeds and leaves a consistent store in which that message, and every recipient row of
  it, is gone and every other message reads as before.
\<close>

theorem delete_removes_message:
  assumes "store_ok d" and "r \<in> set (db_messages d)"
  shows "\<exists>d'. Delete now (r_id r) d = (Inr (), d') \<and> store_ok d' \<and>
     fst (GetByID (r_id r) d') = Inl (NotFoundError ''message'' (r_id r)) \<and>
     r_id r \<notin> rr_message_id ` set (db_recipients d') \<and>
     (\<forall>j. j \<noteq> r_id r \<longrightarrow> fst (GetByID j d') = fst (GetByID j d))"
proof -
  have sc: "schema_ok d" using assms(1) by (simp add: store_ok_def)
  have gone: "r_id r \<notin> r_id ` set (db_messages (deleted_db now r d))"
    by (auto simp: deleted_db_def cascade_children_def)
  then have "r_id r \<notin> rr_message_id ` set (db_recipients (deleted_db now r d))"
    by (auto simp: deleted_db_def cascade_children_def)
  then show ?thesis
    using Delete_ok(1) [OF sc assms(2)] store_ok_deleted [OF assms] GetByID_missing [OF gone]
      GetByID_other_deleted [OF sc assms(2)] by (intro exI [of _ "deleted_db now r d"]) auto
qed

theorem delete_removes_message_witness:
  "\<exists>d'. Delete 11 ''m1'' (snd (Create 9 (sample_message ''m1'' ''a'') sample_db)) = (Inr (), d') \<and>
     store_ok d' \<and> fst (GetByID ''m1'' d') = Inl (NotFoundError ''message'' ''m1'')"
proof -
  let ?m = "(sample_message ''m1'' ''a'')\<lparr>msg_IMAPUID := 1\<rparr>"
  let ?d = "snd (Create 9 (sample_message ''m1'' ''a'') sample_db)"
  have "store_ok ?d" by code_simp
  moreover have "row_of_message ?m \<in> set (db_messages ?d)" by code_simp
  ultimately have "\<exists>d'. Delete 11 (r_id (row_of_message ?m)) ?d = (Inr (), d') \<and> store_ok d' \<and>
     fst (GetByID (r_id (row_of_message ?m)) d') = Inl (NotFoundError ''message'' (r_id (row_of_message ?m)))"
    using delete_removes_message by blast
  then show ?thesis
    by (simp add: row_of_message_def sample_message_def NewMessage_def)
qed

text \<open>
  What moving a message to another mailbox does. In a consistent store the move succeeds exactly
  when the message's current UID is unused in the target mailbox: then the store stays consistent
  and the message reads as before but for its mailbox, its UID (the target's next one) and its
  update time. Otherwise the first statement of the move violates the unique index on mailbox and
  UID, the move fails and nothing changes.
\<close>

theorem move_outcome:
  assumes "store_ok d" and "r \<in> set (db_messages d)" and "b \<in> set (db_mailboxes d)"
    and "mr_id b \<noteq> r_mailbox_id r" and "mr_uid_next b < 2 ^ 32"
  shows "if uid_free d (mr_id b) r
     then \<exists>d'. MoveToMailbox now (r_id r) (mr_id b) d = (Inr (), d') \<and> store_ok d' \<and>
       fst (GetByID (r_id r) d') = Inr ((load d r)\<lparr>msg_MailboxID := mr_id b,
         msg_IMAPUID := word_of_int (mr_uid_next b), msg_UpdatedAt := now\<rparr>)
     else MoveToMailbox now (r_id r) (mr_id b) d =
       (Inl (Wrapped ''failed to move message'' constraint_error), d)"
proof (cases "uid_free d (mr_id b) r")
  case True
  have d: "schema_ok d" "uids_ok d"
    using assms(1) by (simp_all add: store_ok_def)
  have uid: "scan_uint32 (mr_uid_next b)"
    using d(2) assms(3,5) by (auto simp: scan_uint32_def uids_ok_def list_all_iff)
  note neq = assms(4) [symmetric]
  note move = Move_ok [OF d assms(2,3) refl neq uid True, of now]
  show ?thesis
    using True move(1) store_ok_moved [OF assms(1,2,3) refl neq uid True, of now]
      GetByID_moved [OF d(1) move(2) assms(2)] by auto
next
  case False
  have "schema_ok d" using assms(1) by (simp add: store_ok_def)
  then show ?thesis
    using False assms(2-4) Move_blocked [of d r "mr_id b" now] by auto
qed

text \<open>The witness is an everyday store: two mailboxes whose first messages both have UID 1.\<close>

definition two_messages_db :: db where
  "two_messages_db = snd (Create 9 (sample_message ''m2'' ''b'')
     (snd (Create 9 (sample_message ''m1'' ''a'') sample_db)))"

theorem move_outcome_witness:
  "MoveToMailbox 20 ''m1'' ''b'' two_messages_db =
     (Inl (Wrapped ''failed to move message'' constraint_error), two_messages_db)"
proof -
  let ?r = "row_of_message ((sample_message ''m1'' ''a'')\<lparr>msg_IMAPUID := 1\<rparr>)"
  let ?b = "bump_row 9 10 True (sample_mailbox ''b'' ''b@x'')"
  have "store_ok two_messages_db" "?r \<in> set (db_messages two_messages_db)"
    "?b \<in> set (db_mailboxes two_messages_db)" "mr_id ?b \<noteq> r_mailbox_id ?r" "mr_uid_next ?b < 2 ^ 32"
    "\<not> uid_free two_messages_db (mr_id ?b) ?r" "r_id ?r = ''m1''" "mr_id ?b = ''b''"
    by code_simp+
  then show ?thesis
    using move_outcome [of two_messages_db ?r ?b 20] by simp
qed

end
