(* ===== verification/Sqlite_Uids.thy ===== *)
theory Sqlite_Uids
  imports Sqlite_Store
begin

text \<open>
  The store under arbitrary sequences of repository calls. Calls are built from a few combinators, so
  the invariant (schema and UID discipline) and the growth of the UID counters are proved for the
  statements and carried through the combinators; the step relation then lists the calls.
\<close>

section \<open>Calls that keep the invariant\<close>

definition uid_inv :: "db \<Rightarrow> bool" where
  "uid_inv d \<longleftrightarrow> schema_ok d \<and> uids_ok d"

text \<open>Every mailbox is still there and its next UID has not gone down.\<close>

definition grows :: "db \<Rightarrow> db \<Rightarrow> bool" where
  "grows d d' \<longleftrightarrow> (\<forall>b \<in> set (db_mailboxes d). \<exists>b' \<in> set (db_mailboxes d').
     mr_id b' = mr_id b \<and> mr_uid_next b \<le> mr_uid_next b')"

definition keep_op :: "'a dbm \<Rightarrow> bool" where
  "keep_op m \<longleftrightarrow> (\<forall>d. uid_inv d \<longrightarrow> uid_inv (snd (m d)) \<and> grows d (snd (m d)))"

definition inv_op :: "'a dbm \<Rightarrow> bool" where
  "inv_op m \<longleftrightarrow> (\<forall>d. uid_inv d \<longrightarrow> uid_inv (snd (m d)))"

named_theorems keep_intros \<open>calls that keep the UID invariant and only raise the counters\<close>

lemma grows_refl [simp]: "grows d d"
  by (auto simp: grows_def)

lemma grows_trans: "grows d d' \<Longrightarrow> grows d' d'' \<Longrightarrow> grows d d''"
  unfolding grows_def by (metis order_trans)

lemma keep_ret [keep_intros]: "keep_op (ret x)"
  by (simp add: keep_op_def)

lemma keep_fail [keep_intros]: "keep_op (fail e)"
  by (simp add: keep_op_def)

lemma keep_query [keep_intros]: "keep_op (query q)"
  by (simp add: keep_op_def)

lemma keep_andThen [keep_intros]:
  assumes "keep_op m" and "\<And>x. keep_op (f x)"
  shows "keep_op (andThen m f)"
  unfolding keep_op_def
proof (intro allI impI)
  fix d assume d: "uid_inv d"
  obtain r d1 where m: "m d = (r, d1)" by (cases "m d")
  then have "uid_inv d1" "grows d d1"
    using assms(1) d unfolding keep_op_def by (metis snd_conv)+
  then show "uid_inv (snd (andThen m f d)) \<and> grows d (snd (andThen m f d))"
    using assms(2) m grows_trans by (cases r) (auto simp: andThen_def keep_op_def)
qed

lemma keep_wrap [keep_intros]: "keep_op m \<Longrightarrow> keep_op (wrap msg m)"
  by (simp add: keep_op_def)

lemma keep_expect_rows [keep_intros]: "keep_op m \<Longrightarrow> keep_op (expect_rows e m)"
  unfolding expect_rows_def by (intro keep_andThen) (simp_all add: keep_fail keep_ret)

lemma keep_if [keep_intros]: "(c \<Longrightarrow> keep_op m) \<Longrightarrow> (\<not> c \<Longrightarrow> keep_op n) \<Longrightarrow> keep_op (if c then m else n)"
  by simp

lemma keep_let [keep_intros]: "keep_op (f x) \<Longrightarrow> keep_op (let y = x in f y)"
  by simp

lemma keep_option [keep_intros]:
  "keep_op m \<Longrightarrow> (\<And>x. keep_op (f x)) \<Longrightarrow> keep_op (case v of None \<Rightarrow> m | Some x \<Rightarrow> f x)"
  by (cases v) simp_all

lemma keep_prod [keep_intros]: "(\<And>a b. keep_op (f a b)) \<Longrightarrow> keep_op (case p of (a, b) \<Rightarrow> f a b)"
  by (cases p) simp

lemma keep_stmt:
  assumes "\<And>d. uid_inv d \<Longrightarrow> schema_ok (f d) \<Longrightarrow> uids_ok (f d) \<and> grows d (f d)"
  shows "keep_op (stmt f n)"
  using assms by (auto simp: keep_op_def stmt_def uid_inv_def)

lemma keep_update_mailboxes [keep_intros]:
  assumes "\<And>r. mr_id (f r) = mr_id r" and "\<And>r. mr_uid_next r \<le> mr_uid_next (f r)"
  shows "keep_op (update_mailboxes P f)"
  unfolding update_mailboxes_def
proof (rule keep_stmt)
  fix d assume "uid_inv d"
  then have u: "uids_ok d" by (simp add: uid_inv_def)
  let ?bs = "update_where P f (db_mailboxes d)"
  have from_old: "\<exists>b \<in> set (db_mailboxes d). mr_id b = mr_id c \<and> mr_uid_next b \<le> mr_uid_next c"
    if "c \<in> set ?bs" for c
    using that assms by (auto simp: set_update_where)
  have "uids_ok (d\<lparr>db_mailboxes := ?bs\<rparr>)"
    unfolding uids_ok_def uid_below_def list_all_iff
  proof (intro conjI ballI impI)
    fix r c assume "r \<in> set (db_messages (d\<lparr>db_mailboxes := ?bs\<rparr>))"
      and c: "c \<in> set (db_mailboxes (d\<lparr>db_mailboxes := ?bs\<rparr>))" and "mr_id c = r_mailbox_id r"
    then show "uint (r_imap_uid r) < mr_uid_next c"
      using from_old [of c] uids_okD [OF u, of r] by fastforce
  next
    fix c assume "c \<in> set (db_mailboxes (d\<lparr>db_mailboxes := ?bs\<rparr>))"
    then show "1 \<le> mr_uid_next c"
      using from_old [of c] u by (fastforce simp: uids_ok_def list_all_iff)
  qed
  moreover have "grows d (d\<lparr>db_mailboxes := ?bs\<rparr>)"
    unfolding grows_def
  proof
    fix b assume "b \<in> set (db_mailboxes d)"
    then show "\<exists>b' \<in> set (db_mailboxes (d\<lparr>db_mailboxes := ?bs\<rparr>)).
        mr_id b' = mr_id b \<and> mr_uid_next b \<le> mr_uid_next b'"
      using assms by (intro bexI [of _ "if P b then f b else b"]) (auto simp: set_update_where)
  qed
  ultimately show "uids_ok (d\<lparr>db_mailboxes := ?bs\<rparr>) \<and> grows d (d\<lparr>db_mailboxes := ?bs\<rparr>)" ..
qed

lemma keep_messages_stmt:
  assumes "\<And>d x. x \<in> set (g d) \<Longrightarrow>
     \<exists>r \<in> set (db_messages d). r_mailbox_id x = r_mailbox_id r \<and> r_imap_uid x = r_imap_uid r"
    and "\<And>d. db_messages (f d) = g d" and "\<And>d. db_mailboxes (f d) = db_mailboxes d"
  shows "keep_op (stmt f n)"
proof (rule keep_stmt)
  fix d assume "uid_inv d"
  then have u: "uids_ok d" by (simp add: uid_inv_def)
  have "uint (r_imap_uid x) < mr_uid_next b"
    if "x \<in> set (g d)" "b \<in> set (db_mailboxes d)" "mr_id b = r_mailbox_id x" for x b
    using assms(1) [OF that(1)] that(2,3) uids_okD [OF u] by fastforce
  then show "uids_ok (f d) \<and> grows d (f d)"
    using u assms(2,3) by (auto simp: uids_ok_def uid_below_def list_all_iff grows_def)
qed

lemma keep_update_messages [keep_intros]:
  assumes "\<And>r. r_mailbox_id (f r) = r_mailbox_id r" and "\<And>r. r_imap_uid (f r) = r_imap_uid r"
  shows "keep_op (update_messages P f)"
  unfolding update_messages_def
  by (rule keep_messages_stmt [where g = "\<lambda>d. update_where P f (db_messages d)"])
    (use assms in \<open>auto simp: set_update_where\<close>)

lemma keep_delete_messages [keep_intros]: "keep_op (delete_messages P)"
  unfolding delete_messages_def
  by (rule keep_messages_stmt [where g = "\<lambda>d. filter (\<lambda>r. \<not> P r) (db_messages d)"])
    (auto simp: cascade_children_def)

lemma keep_delete_recipients [keep_intros]: "keep_op (delete_recipients P)"
  unfolding delete_recipients_def
  by (rule keep_messages_stmt [where g = db_messages]) auto

lemma keep_insert_recipient [keep_intros]: "keep_op (insert_recipient r)"
  unfolding insert_recipient_def
  by (rule keep_messages_stmt [where g = db_messages]) auto

lemma keep_insert_recipients [keep_intros]: "keep_op (insert_recipients i kind msg as)"
  by (induction as) (simp_all only: insert_recipients.simps, (intro keep_intros | assumption)+)

lemma keep_insert_mailbox [keep_intros]:
  assumes "1 \<le> mr_uid_next b" and "mr_uid_next b < 2 ^ 32"
  shows "keep_op (insert_mailbox b)"
  unfolding insert_mailbox_def
proof (rule keep_stmt)
  fix d :: db
  let ?d = "d\<lparr>db_mailboxes := db_mailboxes d @ [b]\<rparr>"
  assume inv: "uid_inv d" and ok: "schema_ok ?d"
  have "r_mailbox_id r \<noteq> mr_id b" if "r \<in> set (db_messages d)" for r
    using inv ok that by (simp add: uid_inv_def schema_defs list_all_iff) metis
  then show "uids_ok ?d \<and> grows d ?d"
    using inv assms(1) by (fastforce simp: uid_inv_def uids_ok_def uid_below_def list_all_iff grows_def)
qed

section \<open>The repository calls\<close>

lemma keep_get_mailbox [keep_intros]: "keep_op (get_mailbox P msg e)"
  unfolding get_mailbox_def by (intro keep_intros)

lemma keep_get_message [keep_intros]: "keep_op (get_message P e)"
  unfolding get_message_def by (intro keep_intros)

lemma keep_counters [keep_intros]:
  "keep_op (IncrementMessageCount now i sz u)" "keep_op (DecrementMessageCount now i sz u)"
  "keep_op (UpdateUnreadCount now i delta)" "keep_op (RecalculateStats now i)"
  "keep_op (UpdateStats now i stats)"
  unfolding IncrementMessageCount_def DecrementMessageCount_def UpdateUnreadCount_def
    RecalculateStats_def UpdateStats_def
  by (intro keep_intros; simp add: bump_row_def drop_row_def set_opt_def split: option.splits)+

lemma keep_mailbox_calls [keep_intros]:
  "keep_op (SetDefault now i)" "keep_op (SetCatchAll now i)" "keep_op (ClearCatchAll now i)"
  "keep_op (mbx_Update now mb)" "keep_op (TransferOwnership now u v)"
  unfolding SetDefault_def ClearDefault_def SetCatchAll_def ClearCatchAll_def mbx_Update_def
    TransferOwnership_def mbx_GetByID_def mbx_Exists_def
  by (intro keep_intros; simp)+

lemma uint_pos: "mb_UIDNext mb \<noteq> 0 \<Longrightarrow> 1 \<le> uint (mb_UIDNext mb)"
  using uint_0_iff [of "mb_UIDNext mb"] uint_ge_0 [of "mb_UIDNext mb"] by linarith

lemma keep_mbx_Create [keep_intros]: "keep_op (mbx_Create mb)"
  unfolding mbx_Create_def ExistsByAddress_def
  using uint_pos [of mb] uint_lt2p [of "mb_UIDNext mb"]
  by (intro keep_intros) (auto simp: row_of_mailbox_def)

lemma keep_set_flag [keep_intros]:
  assumes "\<And>r. r_mailbox_id (f r) = r_mailbox_id r" and "\<And>r. r_imap_uid (f r) = r_imap_uid r"
  shows "keep_op (set_flag msg f now i)"
  unfolding set_flag_def using assms by (intro keep_intros) auto

lemma keep_setBoolFlag [keep_intros]: "keep_op (setBoolFlag c v now i)"
  by (cases c) (auto intro!: keep_set_flag)

lemma keep_flags [keep_intros]:
  "keep_op (MarkAsRead now i)" "keep_op (MarkAsUnread now i)" "keep_op (MarkAllAsRead now i)"
  "keep_op (Star now i)" "keep_op (Unstar now i)" "keep_op (MarkAsSpam now i)"
  "keep_op (MarkAsNotSpam now i)" "keep_op (MarkAsDeleted now i)" "keep_op (UnmarkAsDeleted now i)"
  "keep_op (msg_ToggleStar now i)" "keep_op (StoreRawBody now i body)"
  "keep_op (UpdateThreadID now t t')"
  unfolding MarkAsRead_def MarkAsUnread_def MarkAllAsRead_def Star_def Unstar_def MarkAsSpam_def
    MarkAsNotSpam_def MarkAsDeleted_def UnmarkAsDeleted_def msg_ToggleStar_def StoreRawBody_def
    UpdateThreadID_def GetByID_def
  by (intro keep_intros; simp)+

lemma keep_deletes [keep_intros]:
  "keep_op (Delete now i)" "keep_op (DeleteByMailbox i)" "keep_op (DeleteOldMessages now days)"
  "keep_op DeleteSpam"
  unfolding Delete_def DeleteByMailbox_def DeleteOldMessages_def DeleteSpam_def GetByID_def
  by (intro keep_intros)+

lemma keep_saveRecipients [keep_intros]: "keep_op (saveRecipients m)"
  unfolding saveRecipients_def by (intro keep_intros)

text \<open>A UID that \<^verbatim>\<open>IncrementMessageCount\<close> returned lies below the mailbox's counter.\<close>

lemma IncrementMessageCount_uid:
  assumes "IncrementMessageCount now i sz u d = (Inr uid, d1)" and "uid_inv d"
    and "b1 \<in> set (db_mailboxes d1)" and "mr_id b1 = i"
  shows "uint uid + 1 = mr_uid_next b1" and "\<exists>b \<in> set (db_mailboxes d). mr_id b = i \<and> uint uid = mr_uid_next b"
proof -
  let ?f = "bump_row now sz u"
  have sc: "schema_ok d" using assms(2) by (simp add: uid_inv_def)
  have d1: "d1 = d\<lparr>db_mailboxes := update_where (\<lambda>r. mr_id r = i) ?f (db_mailboxes d)\<rparr>"
    using assms(1) update_mailboxes_keys [OF sc, of ?f "\<lambda>r. mr_id r = i"]
    by (auto simp: IncrementMessageCount_def andThen_def wrap_def split: option.splits if_splits)
  obtain b where b: "b \<in> set (db_mailboxes d)" "mr_id b = i" "b1 = ?f b"
    using assms(3,4) by (auto simp: d1 set_update_where bump_row_def split: if_splits)
  have "find (\<lambda>r. mr_id r = i) (db_mailboxes d) = Some b"
    using b find_mailbox_iff [OF sc] by blast
  then have "find (\<lambda>r. mr_id r = i) (db_mailboxes d1) = Some b1"
    using b by (simp add: d1 find_update_where bump_row_def)
  then have "scan_uint32 (mr_uid_next b1 - 1) \<and> uid = word_of_int (mr_uid_next b1 - 1)"
    using assms(1) update_mailboxes_keys [OF sc, of ?f "\<lambda>r. mr_id r = i"]
    by (auto simp: IncrementMessageCount_def andThen_def wrap_def d1 split: if_splits)
  then show "uint uid + 1 = mr_uid_next b1" "\<exists>b \<in> set (db_mailboxes d). mr_id b = i \<and> uint uid = mr_uid_next b"
    using uint_uid b by (auto simp: bump_row_def)
qed

lemma insert_message_inv:
  assumes "uid_inv d"
    and "\<And>b. b \<in> set (db_mailboxes d) \<Longrightarrow> mr_id b = r_mailbox_id r \<Longrightarrow> uint (r_imap_uid r) < mr_uid_next b"
  shows "uid_inv (snd (insert_message r d)) \<and> grows d (snd (insert_message r d))"
  using assms by (auto simp: insert_message_def stmt_def uid_inv_def uids_ok_def uid_below_def
      list_all_iff grows_def)

lemma keep_Create:
  assumes "msg_IMAPUID m = 0" and d: "uid_inv d"
  shows "uid_inv (snd (Create now m d)) \<and> grows d (snd (Create now m d))"
proof -
  let ?inc = "IncrementMessageCount now (msg_MailboxID m) (msg_Size m) (msg_Status m = MessageUnread)"
  obtain r d1 where inc: "?inc d = (r, d1)" by (cases "?inc d")
  have d1: "uid_inv d1" "grows d d1"
    using keep_counters(1) [unfolded keep_op_def, rule_format, OF d] inc by (metis snd_conv)+
  show ?thesis
  proof (cases r)
    case (Inl e)
    then show ?thesis
      using d1 inc assms(1) by (simp add: Create_def assign_uid_def andThen_def wrap_def)
  next
    case (Inr uid)
    let ?m = "m\<lparr>msg_IMAPUID := uid\<rparr>"
    have below: "uint uid < mr_uid_next b" if "b \<in> set (db_mailboxes d1)" "mr_id b = msg_MailboxID m" for b
      using IncrementMessageCount_uid(1) [OF inc [unfolded Inr] d that] by linarith
    obtain s d2 where ins: "insert_message (row_of_message ?m) d1 = (s, d2)" by (cases "insert_message (row_of_message ?m) d1")
    have d2: "uid_inv d2" "grows d1 d2"
      using insert_message_inv [OF d1(1), of "row_of_message ?m"] below ins by (simp_all add: row_of_message_def)
    have d3: "uid_inv (snd (saveRecipients ?m d2))" "grows d2 (snd (saveRecipients ?m d2))"
      using keep_saveRecipients d2(1) by (auto simp: keep_op_def)
    have "snd (Create now m d) \<in> {d2, snd (saveRecipients ?m d2)}"
    proof (cases s)
      case (Inl e)
      then show ?thesis
        using inc Inr ins assms(1) by (simp add: Create_def assign_uid_def andThen_def wrap_def)
    next
      case (Inr u)
      obtain t d4 where "saveRecipients ?m d2 = (t, d4)" by (cases "saveRecipients ?m d2")
      then show ?thesis
        using inc \<open>r = Inr uid\<close> ins Inr assms(1)
        by (cases t) (simp_all add: Create_def assign_uid_def andThen_def wrap_def)
    qed
    moreover have "grows d d2" "grows d (snd (saveRecipients ?m d2))"
      using d1(2) d2(2) d3(2) by (meson grows_trans)+
    ultimately show ?thesis
      using d2(1) d3(1) by (elim insertE) simp_all
  qed
qed

lemma uids_ok_moved:
  assumes "uid_inv d" and r: "r \<in> set (db_messages d)"
    and b: "b \<in> set (db_mailboxes d)" "mr_id b = target"
    and uid: "scan_uint32 (mr_uid_next b)"
  shows "uids_ok (moved_db now target (word_of_int (mr_uid_next b)) r d)"
    and "grows d (moved_db now target (word_of_int (mr_uid_next b)) r d)"
proof -
  have sc: "schema_ok d" and uo: "uids_ok d" using assms(1) by (simp_all add: uid_inv_def)
  have only: "c = b" if "c \<in> set (db_mailboxes d)" "mr_id c = target" for c
    using that b find_mailbox_iff [OF sc] by (metis option.inject)
  show "uids_ok (moved_db now target (word_of_int (mr_uid_next b)) r d)"
    using uo only uint_uid [OF uid]
    by (fastforce simp: uids_ok_def uid_below_def list_all_iff moved_db_def set_update_where
        moved_row_def drop_row_def bump_row_def)
  let ?f = "\<lambda>c. let c' = (if mr_id c = r_mailbox_id r then drop_row now (r_size r) (r_status r = MessageUnread) c else c)
      in if mr_id c' = target then bump_row now (r_size r) (r_status r = MessageUnread) c' else c'"
  show "grows d (moved_db now target (word_of_int (mr_uid_next b)) r d)"
    unfolding grows_def
  proof
    fix c assume "c \<in> set (db_mailboxes d)"
    then show "\<exists>b' \<in> set (db_mailboxes (moved_db now target (word_of_int (mr_uid_next b)) r d)).
        mr_id b' = mr_id c \<and> mr_uid_next c \<le> mr_uid_next b'"
      by (intro bexI [of _ "?f c"])
        (auto simp: moved_db_def update_where_def Let_def drop_row_def bump_row_def)
  qed
qed

lemma keep_Move:
  assumes d: "uid_inv d" and small: "list_all (\<lambda>b. mr_uid_next b < 2 ^ 32) (db_mailboxes d)"
  shows "uid_inv (snd (MoveToMailbox now i target d)) \<and> grows d (snd (MoveToMailbox now i target d))"
proof (cases "i \<in> r_id ` set (db_messages d)")
  case False
  then show ?thesis
    using d by (simp add: MoveToMailbox_def andThen_def GetByID_missing)
next
  case True
  then obtain r where r: "r \<in> set (db_messages d)" "i = r_id r" by blast
  have sc: "schema_ok d" "uids_ok d" using d by (simp_all add: uid_inv_def)
  note found = GetByID_found [OF sc(1) r(1)]
  consider "r_mailbox_id r = target" | "target \<notin> mr_id ` set (db_mailboxes d)" "r_mailbox_id r \<noteq> target"
    | b where "b \<in> set (db_mailboxes d)" "mr_id b = target" "r_mailbox_id r \<noteq> target" by blast
  then show ?thesis
  proof cases
    case 1
    then show ?thesis using d by (simp add: MoveToMailbox_def andThen_def found r(2))
  next
    case 2
    then have "mbx_Exists target d = (Inr False, d)"
      by (auto simp: mbx_Exists_def list_ex_iff)
    then show ?thesis using d 2 by (simp add: MoveToMailbox_def andThen_def found r(2))
  next
    case 3
    have uid: "scan_uint32 (mr_uid_next b)"
      using 3(1) small sc(2) by (auto simp: scan_uint32_def uids_ok_def list_all_iff)
    show ?thesis
    proof (cases "uid_free d target r")
      case True
      then show ?thesis
        using Move_ok [OF sc r(1) 3(1,2,3) uid, of now] uids_ok_moved [OF d r(1) 3(1,2) uid, of now]
        by (simp add: r(2) uid_inv_def)
    next
      case False
      then show ?thesis
        using Move_blocked [OF sc(1) r(1) _ 3(3) False, of now] 3 d by (auto simp: r(2))
    qed
  qed
qed

definition same_mailbox :: "Message \<Rightarrow> db \<Rightarrow> bool" where
  "same_mailbox m d \<longleftrightarrow>
     list_all (\<lambda>r. r_id r = msg_ID m \<longrightarrow> r_mailbox_id r = msg_MailboxID m) (db_messages d)"

lemma keep_Update:
  assumes d: "uid_inv d" and same: "same_mailbox m d"
  shows "uid_inv (snd (Update now m d)) \<and> grows d (snd (Update now m d))"
proof -
  let ?f = "update_row now m"
  have f: "r_mailbox_id (?f r) = msg_MailboxID m" "r_imap_uid (?f r) = r_imap_uid r" for r
    by (simp_all add: update_row_def row_of_message_def Let_def)
  let ?P = "\<lambda>r. r_id r = msg_ID m"
  define rest where "rest = andThen (wrap ''failed to delete recipients''
      (delete_recipients (\<lambda>r. rr_message_id r = msg_ID m))) (\<lambda>_. saveRecipients m)"
  have rest: "keep_op rest"
    unfolding rest_def by (intro keep_intros)
  have upd: "uid_inv (snd (update_messages ?P ?f d)) \<and> grows d (snd (update_messages ?P ?f d))"
  proof -
    have "uids_ok (d\<lparr>db_messages := update_where ?P ?f (db_messages d)\<rparr>)"
      using d same f by (auto simp: uid_inv_def uids_ok_def uid_below_def list_all_iff set_update_where same_mailbox_def)
    then show ?thesis
      using d by (simp add: update_messages_def stmt_def uid_inv_def grows_def) blast
  qed
  have "Update now m d = (if list_ex (\<lambda>r. r_id r = msg_ID m) (db_messages d)
      then andThen (wrap ''failed to update message'' (update_messages ?P ?f)) (\<lambda>_. rest) d
      else (Inl (NotFoundError ''message'' (msg_ID m)), d))"
    by (simp add: Update_def Exists_def rest_def)
  moreover have "uid_inv (snd (andThen (wrap e (update_messages ?P ?f)) (\<lambda>_. rest) d)) \<and>
      grows d (snd (andThen (wrap e (update_messages ?P ?f)) (\<lambda>_. rest) d))" for e
  proof -
    obtain s d1 where s: "update_messages ?P ?f d = (s, d1)" by (cases "update_messages ?P ?f d")
    have "uid_inv (snd (rest d1)) \<and> grows d1 (snd (rest d1))"
      using rest upd s by (auto simp: keep_op_def)
    then show ?thesis
      using upd s grows_trans by (cases s) (auto simp: andThen_def wrap_def)
  qed
  ultimately show ?thesis
    using d by auto
qed

lemma inv_delete_mailboxes:
  assumes "uid_inv d"
  shows "uid_inv (snd (delete_mailboxes P d))"
  using assms by (auto simp: delete_mailboxes_def stmt_def uid_inv_def uids_ok_def uid_below_def
      list_all_iff cascade_messages_def cascade_children_def)

section \<open>Sequences of calls\<close>

text \<open>
  Any interleaving of repository calls, successful or not, that leaves the mailboxes in place. The
  guards are what the callers ensure: a created message has no UID yet, an update does not change
  the mailbox, and UIDs have not run out when a message is moved.
\<close>

inductive keep_step :: "db \<Rightarrow> db \<Rightarrow> bool" where
  create: "msg_IMAPUID m = 0 \<Longrightarrow> keep_step d (snd (Create now m d))"
| update: "same_mailbox m d \<Longrightarrow> keep_step d (snd (Update now m d))"
| move: "list_all (\<lambda>b. mr_uid_next b < 2 ^ 32) (db_mailboxes d) \<Longrightarrow>
    keep_step d (snd (MoveToMailbox now i target d))"
| delete: "keep_step d (snd (Delete now i d))"
| delete_by_mailbox: "keep_step d (snd (DeleteByMailbox i d))"
| delete_old: "keep_step d (snd (DeleteOldMessages now days d))"
| delete_spam: "keep_step d (snd (DeleteSpam d))"
| mark_read: "keep_step d (snd (MarkAsRead now i d))"
| mark_unread: "keep_step d (snd (MarkAsUnread now i d))"
| mark_all_read: "keep_step d (snd (MarkAllAsRead now i d))"
| toggle_star: "keep_step d (snd (msg_ToggleStar now i d))"
| star: "keep_step d (snd (Star now i d))"
| unstar: "keep_step d (snd (Unstar now i d))"
| spam: "keep_step d (snd (MarkAsSpam now i d))"
| not_spam: "keep_step d (snd (MarkAsNotSpam now i d))"
| mark_deleted: "keep_step d (snd (MarkAsDeleted now i d))"
| unmark_deleted: "keep_step d (snd (UnmarkAsDeleted now i d))"
| bool_flag: "keep_step d (snd (setBoolFlag c v now i d))"
| raw_body: "keep_step d (snd (StoreRawBody now i body d))"
| thread: "keep_step d (snd (UpdateThreadID now t t' d))"
| create_mailbox: "keep_step d (snd (mbx_Create mb d))"
| update_mailbox: "keep_step d (snd (mbx_Update now mb d))"
| set_default: "keep_step d (snd (SetDefault now i d))"
| set_catch_all: "keep_step d (snd (SetCatchAll now i d))"
| clear_catch_all: "keep_step d (snd (ClearCatchAll now i d))"
| update_stats: "keep_step d (snd (UpdateStats now i stats d))"
| increment: "keep_step d (snd (IncrementMessageCount now i sz u d))"
| decrement: "keep_step d (snd (DecrementMessageCount now i sz u d))"
| unread_count: "keep_step d (snd (UpdateUnreadCount now i delta d))"
| recalculate: "keep_step d (snd (RecalculateStats now i d))"
| transfer: "keep_step d (snd (TransferOwnership now fromU toU d))"
| add_user: "keep_step d (snd (insert_user usr d))"

inductive repo_step :: "db \<Rightarrow> db \<Rightarrow> bool" where
  keep: "keep_step d d' \<Longrightarrow> repo_step d d'"
| delete_mailbox: "repo_step d (snd (mbx_Delete i d))"
| delete_user: "repo_step d (snd (DeleteByUser u d))"

definition repo_init :: "db \<Rightarrow> bool" where
  "repo_init d \<longleftrightarrow> users_keys d \<and> db_mailboxes d = [] \<and> db_messages d = [] \<and> db_recipients d = [] \<and>
     db_attachments d = []"

lemma keep_opD: "keep_op m \<Longrightarrow> uid_inv d \<Longrightarrow> uid_inv (snd (m d)) \<and> grows d (snd (m d))"
  by (simp add: keep_op_def)

lemma keep_step_ok: "keep_step d d' \<Longrightarrow> uid_inv d \<Longrightarrow> uid_inv d' \<and> grows d d'"
proof (induction rule: keep_step.induct)
  case (create m d now)
  then show ?case by (simp add: keep_Create)
next
  case (update m d now)
  then show ?case by (simp add: keep_Update)
next
  case (move d now i target)
  then show ?case by (simp add: keep_Move)
next
  case (add_user d usr)
  then show ?case
    by (auto simp: insert_user_def stmt_def uid_inv_def uids_ok_def grows_def)
qed (rule keep_opD, intro keep_intros, assumption)+

lemma snd_expect_rows [simp]: "snd (expect_rows e m d) = snd (m d)"
  by (cases "m d"; cases "fst (m d)") (auto simp: expect_rows_def andThen_def)

lemma repo_step_ok: "repo_step d d' \<Longrightarrow> uid_inv d \<Longrightarrow> uid_inv d'"
proof (induction rule: repo_step.induct)
  case (delete_mailbox d i)
  then show ?case
    by (simp add: mbx_Delete_def inv_delete_mailboxes)
qed (auto simp: keep_step_ok DeleteByUser_def inv_delete_mailboxes)

interpretation repo: invariant_system repo_init repo_step uid_inv
proof unfold_locales
  show "repo_init d \<Longrightarrow> uid_inv d" for d
    by (simp add: repo_init_def uid_inv_def schema_defs uids_ok_def)
  show "uid_inv d \<Longrightarrow> repo_step d d' \<Longrightarrow> uid_inv d'" for d d'
    by (rule repo_step_ok)
qed

lemma keep_steps_ok: "rtranclp keep_step d d' \<Longrightarrow> uid_inv d \<Longrightarrow> uid_inv d' \<and> grows d d'"
proof (induction rule: rtranclp_induct)
  case (step d' d'')
  then show ?case using keep_step_ok grows_trans by blast
qed simp

lemma Create_uid:
  assumes "Create now m d = (Inr m', d')" and "msg_IMAPUID m = 0" and "uid_inv d"
  shows "\<exists>b \<in> set (db_mailboxes d). mr_id b = msg_MailboxID m \<and> uint (msg_IMAPUID m') = mr_uid_next b"
    and "\<exists>b \<in> set (db_mailboxes d'). mr_id b = msg_MailboxID m \<and> uint (msg_IMAPUID m') < mr_uid_next b"
proof -
  let ?inc = "IncrementMessageCount now (msg_MailboxID m) (msg_Size m) (msg_Status m = MessageUnread)"
  obtain uid d1 d2 where inc: "?inc d = (Inr uid, d1)" and m': "m' = m\<lparr>msg_IMAPUID := uid\<rparr>"
    and ins: "insert_message (row_of_message m') d1 = (Inr (), d2)"
    and save: "saveRecipients m' d2 = (Inr (), d')"
    using assms(1,2) by (auto simp: Create_def assign_uid_def elim!: andThen_InrE)
  have d1: "uid_inv d1" "grows d d1"
    using keep_opD [OF keep_counters(1) assms(3)] inc by (metis snd_conv)+
  have d2: "d2 = d1\<lparr>db_messages := db_messages d1 @ [row_of_message m']\<rparr>" "schema_ok d2"
    using ins by (auto simp: insert_message_def stmt_def split: if_splits)
  obtain b1 where b1: "b1 \<in> set (db_mailboxes d1)" "mr_id b1 = msg_MailboxID m"
    using d2 by (auto simp: schema_defs row_of_message_def m')
  note uid = IncrementMessageCount_uid [OF inc assms(3) b1]
  show "\<exists>b \<in> set (db_mailboxes d). mr_id b = msg_MailboxID m \<and> uint (msg_IMAPUID m') = mr_uid_next b"
    using uid(2) by (simp add: m')
  have "uid_inv d2"
    using insert_message_inv [OF d1(1), of "row_of_message m'"] IncrementMessageCount_uid(1) [OF inc assms(3)] ins
    by (fastforce simp: row_of_message_def m')
  then have "grows d2 d'"
    using keep_opD [OF keep_saveRecipients, of d2 m'] save by simp
  then obtain b where "b \<in> set (db_mailboxes d')" "mr_id b = mr_id b1" "mr_uid_next b1 \<le> mr_uid_next b"
    using b1(1) d2(1) by (fastforce simp: grows_def)
  then show "\<exists>b \<in> set (db_mailboxes d'). mr_id b = msg_MailboxID m \<and> uint (msg_IMAPUID m') < mr_uid_next b"
    using uid(1) b1(2) by (auto simp: m')
qed

section \<open>Properties\<close>

definition one_box_db :: db where
  "one_box_db = snd (mbx_Create (NewMailbox 3 ''a'' ''u1'' ''Inbox'' ''a@x'')
     \<lparr>db_users = [sample_user ''u1''], db_mailboxes = [], db_messages = [], db_recipients = [], db_attachments = []\<rparr>)"

lemma one_box_reachable: "reachable repo_init repo_step one_box_db"
  unfolding one_box_db_def
  by (rule reach_step, rule reach_init)
    (auto simp: repo_init_def users_keys_def intro: repo_step.keep keep_step.create_mailbox)

text \<open>
  Whatever sequence of repository calls is made on a fresh database, succeeding or failing
  half-way, keys stay unique, foreign keys stay valid, and in every mailbox all stored UIDs stay
  below the mailbox's next UID.
\<close>

theorem uid_discipline:
  assumes "reachable repo_init repo_step d"
  shows "schema_ok d \<and> uids_ok d"
  using repo.reachable_inv [OF assms] by (simp add: uid_inv_def)

theorem uid_discipline_witness: "schema_ok one_box_db \<and> uids_ok one_box_db"
  by (rule uid_discipline [OF one_box_reachable])



end
