(* ===== verification/Sqlite_Queries.thy ===== *)
theory Sqlite_Queries
  imports Sqlite_Uids
begin

text \<open>
  What the queries and the remaining calls of the SQLite repositories return: the mailbox a delivery
  goes to, the default mailbox of a user, pages of a listing, and the counters after a change of the
  read flag and after a recalculation.
\<close>

section \<open>LIKE patterns\<close>

definition plain :: "string \<Rightarrow> bool" where
  "plain p \<longleftrightarrow> CHR ''%'' \<notin> set p \<and> CHR ''_'' \<notin> set p"

lemma like_plain: "plain p \<Longrightarrow> like p s \<longleftrightarrow> ToLower p = ToLower s"
proof (induction p arbitrary: s)
  case (Cons c p)
  then show ?case by (cases s) (auto simp: plain_def ToLower_def)
qed (auto simp: ToLower_def)

lemma ex_suffix_Cons: "(\<exists>l r. c # s = l @ r \<and> Q r) \<longleftrightarrow> Q (c # s) \<or> (\<exists>l r. s = l @ r \<and> Q r)"
  by (auto simp: Cons_eq_append_conv)

lemma like_suffix:
  assumes "plain p"
  shows "like (CHR ''%'' # p) s \<longleftrightarrow> (\<exists>l r. s = l @ r \<and> EqualFold r p)"
proof (induction s)
  case Nil
  then show ?case using like_plain [OF assms, of "[]"] by (auto simp: EqualFold_def ToLower_def)
next
  case (Cons c s)
  have "like (CHR ''%'' # p) (c # s) \<longleftrightarrow> ToLower p = ToLower (c # s) \<or> like (CHR ''%'' # p) s"
    using like_plain [OF assms] by simp
  also have "\<dots> \<longleftrightarrow> (\<exists>l r. c # s = l @ r \<and> EqualFold r p)"
    unfolding ex_suffix_Cons Cons.IH by (auto simp: EqualFold_def)
  finally show ?case .
qed

text \<open>An address of a domain: something, an at sign, and the domain, ignoring case.\<close>

definition address_in_domain :: "string \<Rightarrow> string \<Rightarrow> bool" where
  "address_in_domain a p \<longleftrightarrow> (\<exists>l r. a = l @ CHR ''@'' # r \<and> EqualFold r p)"

lemma like_domain: "plain p \<Longrightarrow> like (''%@'' @ p) a \<longleftrightarrow> address_in_domain a p"
proof -
  assume "plain p"
  then have "plain (CHR ''@'' # p)" by (simp add: plain_def)
  then have "like (''%@'' @ p) a \<longleftrightarrow> (\<exists>l r. a = l @ r \<and> EqualFold r (CHR ''@'' # p))"
    using like_suffix [of "CHR ''@'' # p" a] by simp
  also have "\<dots> \<longleftrightarrow> address_in_domain a p"
  proof -
    have "EqualFold r (CHR ''@'' # p) \<longleftrightarrow> (\<exists>t. r = CHR ''@'' # t \<and> EqualFold t p)" for r
    proof (cases r)
      case (Cons c t)
      have "lower_char c = CHR ''@'' \<longleftrightarrow> c = CHR ''@''"
      proof
        assume "lower_char c = CHR ''@''"
        then have "(of_char (lower_char c) :: nat) = 64" by simp
        then have "\<not> (65 \<le> (of_char c :: nat) \<and> (of_char c :: nat) \<le> 90)"
          by (auto simp: lower_char_def)
        then show "c = CHR ''@''"
          using \<open>lower_char c = CHR ''@''\<close> by (auto simp: lower_char_def)
      qed simp
      with Cons show ?thesis by (auto simp: EqualFold_def ToLower_def)
    qed (simp add: EqualFold_def ToLower_def)
    then show ?thesis unfolding address_in_domain_def by metis
  qed
  finally show ?thesis .
qed

section \<open>Delivery\<close>

definition uids_small :: "db \<Rightarrow> bool" where
  "uids_small d \<longleftrightarrow> list_all (\<lambda>b. scan_uint32 (mr_uid_next b)) (db_mailboxes d)"

lemma get_mailbox_eq:
  assumes "uids_small d"
  shows "get_mailbox P msg e d = (case find P (db_mailboxes d) of None \<Rightarrow> Inl e | Some r \<Rightarrow> Inr (toMailbox r), d)"
  using assms by (auto simp: get_mailbox_def uids_small_def list_all_iff split: option.splits dest: find_SomeD)

lemma EqualFold_ToLower [simp]: "EqualFold s (ToLower t) = EqualFold s t"
  by (simp add: EqualFold_def)

lemma NotFound_is [simp]: "IsNotFound (NotFoundError a b)"
  by (simp add: IsNotFound_def)

lemma GetByAddress_unique:
  assumes "schema_ok d" and "uids_small d" and "r \<in> set (db_mailboxes d)" and "EqualFold (mr_address r) a"
  shows "GetByAddress a d = (Inr (toMailbox r), d)"
proof -
  have "distinct (map (\<lambda>r. ToLower (mr_address r)) (db_mailboxes d))"
    using assms(1) by (simp add: schema_defs)
  from find_unique [OF this assms(3)]
  have "find (\<lambda>x. EqualFold (mr_address x) a) (db_mailboxes d) = Some r"
    using assms(4) by (simp add: EqualFold_def)
  then show ?thesis
    by (simp add: GetByAddress_def get_mailbox_eq [OF assms(2)])
qed

lemma GetByAddress_none:
  assumes "uids_small d" and "\<forall>r \<in> set (db_mailboxes d). \<not> EqualFold (mr_address r) a"
  shows "GetByAddress a d = (Inl (NotFoundError ''mailbox'' a), d)"
proof -
  have "find (\<lambda>x. EqualFold (mr_address x) a) (db_mailboxes d) = None"
    using assms(2) by (simp add: find_eq_None)
  then show ?thesis
    by (simp add: GetByAddress_def get_mailbox_eq [OF assms(1)])
qed

lemma FindMatchingMailbox_catch_all:
  assumes "uids_small d" and "\<forall>r \<in> set (db_mailboxes d). \<not> EqualFold (mr_address r) (l @ CHR ''@'' # p)"
    and "CHR ''@'' \<notin> set l" and "CHR ''@'' \<notin> set p"
  shows "FindMatchingMailbox (l @ CHR ''@'' # p) d =
    (case find (\<lambda>r. mr_is_catch_all r \<and> like (''%@'' @ p) (mr_address r)) (db_mailboxes d) of
       None \<Rightarrow> Inl (NotFoundError ''mailbox'' (l @ CHR ''@'' # p)) | Some r \<Rightarrow> Inr (toMailbox r), d)"
  using assms
  by (auto simp: FindMatchingMailbox_def orNotFound_def GetByAddress_none GetCatchAll_def
      get_mailbox_eq [OF assms(1)] Split_append_sep Split_no_sep split: option.splits)

section \<open>Properties\<close>

text \<open>
  C29. A delivery goes to the right mailbox. For a recipient \<^verbatim>\<open>local@domain\<close> whose domain has no LIKE
  wildcard: the mailbox that has this address (ignoring case) is returned when there is one; if not,
  a catch-all mailbox whose own address is in the domain is returned when there is one; and if there
  is neither, the answer is a not-found error. The store is not changed.
\<close>

theorem delivery_finds_mailbox:
  assumes "schema_ok d" and "uids_small d"
    and "CHR ''@'' \<notin> set l" and "CHR ''@'' \<notin> set p" and "plain p"
  shows "snd (FindMatchingMailbox (l @ CHR ''@'' # p) d) = d \<and>
    (\<forall>r \<in> set (db_mailboxes d). EqualFold (mr_address r) (l @ CHR ''@'' # p) \<longrightarrow>
       fst (FindMatchingMailbox (l @ CHR ''@'' # p) d) = Inr (toMailbox r)) \<and>
    ((\<forall>r \<in> set (db_mailboxes d). \<not> EqualFold (mr_address r) (l @ CHR ''@'' # p)) \<longrightarrow>
       (if \<exists>r \<in> set (db_mailboxes d). mr_is_catch_all r \<and> address_in_domain (mr_address r) p
        then \<exists>r \<in> set (db_mailboxes d). mr_is_catch_all r \<and> address_in_domain (mr_address r) p \<and>
               fst (FindMatchingMailbox (l @ CHR ''@'' # p) d) = Inr (toMailbox r)
        else fst (FindMatchingMailbox (l @ CHR ''@'' # p) d) =
               Inl (NotFoundError ''mailbox'' (l @ CHR ''@'' # p))))"
proof (cases "\<exists>r \<in> set (db_mailboxes d). EqualFold (mr_address r) (l @ CHR ''@'' # p)")
  case True
  have "FindMatchingMailbox (l @ CHR ''@'' # p) d = (Inr (toMailbox r), d)"
    if "r \<in> set (db_mailboxes d)" "EqualFold (mr_address r) (l @ CHR ''@'' # p)" for r
    using GetByAddress_unique [OF assms(1,2) that] by (simp add: FindMatchingMailbox_def orNotFound_def)
  with True show ?thesis by auto
next
  case False
  then have none: "\<forall>r \<in> set (db_mailboxes d). \<not> EqualFold (mr_address r) (l @ CHR ''@'' # p)" by blast
  note eq = FindMatchingMailbox_catch_all [OF assms(2) none assms(3,4)]
  note dom = like_domain [OF assms(5)]
  show ?thesis
  proof (cases "find (\<lambda>r. mr_is_catch_all r \<and> like (''%@'' @ p) (mr_address r)) (db_mailboxes d)")
    case None
    then have "\<not> (\<exists>r \<in> set (db_mailboxes d). mr_is_catch_all r \<and> address_in_domain (mr_address r) p)"
      using dom by (auto simp: find_eq_None)
    then show ?thesis using eq None none by simp
  next
    case (Some r)
    then have "r \<in> set (db_mailboxes d)" "mr_is_catch_all r" "address_in_domain (mr_address r) p"
      using dom by (auto dest: find_SomeD)
    then show ?thesis using eq Some none by auto
  qed
qed

theorem delivery_finds_mailbox_witness:
  "fst (FindMatchingMailbox ''A@X'' sample_db) = Inr (toMailbox (sample_mailbox ''a'' ''a@x''))"
proof -
  have "schema_ok sample_db" "uids_small sample_db" "CHR ''@'' \<notin> set ''A''" "CHR ''@'' \<notin> set ''X''" "plain ''X''"
    "EqualFold (mr_address (sample_mailbox ''a'' ''a@x'')) ''A@X''"
    by code_simp+
  moreover have "sample_mailbox ''a'' ''a@x'' \<in> set (db_mailboxes sample_db)"
    by (simp add: sample_db_def)
  ultimately show ?thesis
    using delivery_finds_mailbox [of sample_db "''A''" "''X''"] by simp
qed

lemma filter_update_where:
  assumes "\<And>r. Q (f r) = Q r" and "\<And>r. r \<in> set rs \<Longrightarrow> P r \<Longrightarrow> \<not> Q r"
  shows "filter Q (update_where P f rs) = filter Q rs"
  using assms(2) by (induction rs) (auto simp: update_where_def assms(1))

text \<open>
  Setting the default mailbox leaves its owner with exactly one: after \<^verbatim>\<open>SetDefault\<close> of an existing
  mailbox, which succeeds, a mailbox of the same user is the default if and only if it is that one,
  and the defaults of other users are as before.
\<close>

theorem set_default_unique:
  assumes "schema_ok d" and "uids_small d" and "b \<in> set (db_mailboxes d)"
  shows "fst (SetDefault now (mr_id b) d) = Inr () \<and>
    (\<forall>r \<in> set (db_mailboxes (snd (SetDefault now (mr_id b) d))).
       mr_user_id r = mr_user_id b \<longrightarrow> (mr_is_default r \<longleftrightarrow> mr_id r = mr_id b)) \<and>
    filter (\<lambda>r. mr_user_id r \<noteq> mr_user_id b) (db_mailboxes (snd (SetDefault now (mr_id b) d))) =
      filter (\<lambda>r. mr_user_id r \<noteq> mr_user_id b) (db_mailboxes d)"
proof -
  let ?P = "\<lambda>r. mr_user_id r = mr_user_id b \<and> mr_is_default r"
  let ?f = "\<lambda>r. r\<lparr>mr_is_default := False, mr_updated_at := now\<rparr>"
  let ?g = "\<lambda>r. r\<lparr>mr_is_default := True, mr_updated_at := now\<rparr>"
  let ?d1 = "d\<lparr>db_mailboxes := update_where ?P ?f (db_mailboxes d)\<rparr>"
  let ?bs = "update_where (\<lambda>r. mr_id r = mr_id b) ?g (update_where ?P ?f (db_mailboxes d))"
  have keys: "keeps_mailbox_keys ?f" "keeps_mailbox_keys ?g"
    by (simp_all add: keeps_mailbox_keys_def)
  have find: "find (\<lambda>r. mr_id r = mr_id b) (db_mailboxes d) = Some b"
    using assms(3) find_mailbox_iff [OF assms(1)] by blast
  have ok1: "schema_ok ?d1"
    by (rule schema_ok_update_mailboxes [OF assms(1) keys(1)])
  have "SetDefault now (mr_id b) d = (Inr (), ?d1\<lparr>db_mailboxes := ?bs\<rparr>)"
    using update_mailboxes_keys [OF assms(1) keys(1), of ?P] update_mailboxes_keys [OF ok1 keys(2), of "\<lambda>r. mr_id r = mr_id b"]
    by (simp add: SetDefault_def ClearDefault_def mbx_GetByID_def get_mailbox_eq [OF assms(2)] find
        andThen_def wrap_def toMailbox_def)
  moreover have only: "c = b" if "c \<in> set (db_mailboxes d)" "mr_id c = mr_id b" for c
    using that find find_mailbox_iff [OF assms(1), of "mr_id b" c] by simp
  moreover have "filter (\<lambda>r. mr_user_id r \<noteq> mr_user_id b) ?bs = filter (\<lambda>r. mr_user_id r \<noteq> mr_user_id b) (db_mailboxes d)"
  proof -
    have "filter (\<lambda>r. mr_user_id r \<noteq> mr_user_id b) ?bs =
        filter (\<lambda>r. mr_user_id r \<noteq> mr_user_id b) (update_where ?P ?f (db_mailboxes d))"
      by (rule filter_update_where) (auto simp: set_update_where dest: only)
    also have "\<dots> = filter (\<lambda>r. mr_user_id r \<noteq> mr_user_id b) (db_mailboxes d)"
      by (rule filter_update_where) auto
    finally show ?thesis .
  qed
  ultimately show ?thesis
    by (auto simp: set_update_where)
qed

theorem set_default_unique_witness:
  "fst (SetDefault 7 ''b'' sample_db) = Inr ()"
proof -
  have "schema_ok sample_db" "uids_small sample_db" by code_simp+
  moreover have "sample_mailbox ''b'' ''b@x'' \<in> set (db_mailboxes sample_db)" "mr_id (sample_mailbox ''b'' ''b@x'') = ''b''"
    by (simp_all add: sample_db_def sample_mailbox_def)
  ultimately show ?thesis
    using set_default_unique by metis
qed

text \<open>
  Listing a user's starred messages leaks when the user has no mailbox: the filter then has no
  mailbox restriction at all, and the call returns the starred messages of every user.
\<close>

theorem starred_by_user_leaks:
  assumes "\<forall>b \<in> set (db_mailboxes d). mr_user_id b \<noteq> u"
  shows "GetStarredByUser fts u opts d = GetStarred fts opts d"
proof -
  have none: "filter (mbx_where (Some (emptyMailboxFilter\<lparr>mf_UserID := Some u\<rparr>))) (db_mailboxes d) = []"
    using assms by (simp add: filter_empty_conv mbx_where_def emptyMailboxFilter_def)
  then have "ListByUser u None d = (Inr (list_result None 0 []), d)"
    by (simp add: ListByUser_def mbx_List_def sort_rows_def limit_offset_def page_of_def order_by_def Let_def)
  moreover have "lr_Items (list_result None 0 ([] :: Mailbox list)) = []"
    by (simp add: list_result_def page_of_def)
  ultimately show ?thesis
    by (simp add: GetStarredByUser_def GetStarred_def andThen_def emptyMessageFilter_def)
qed

theorem starred_by_user_leaks_witness:
  "lr_Total (projr (fst (GetStarredByUser (\<lambda>_ _. True) ''nobody'' None
     (snd (Star 9 ''m1'' two_messages_db))))) = 1"
proof -
  have "\<forall>b \<in> set (db_mailboxes (snd (Star 9 ''m1'' two_messages_db))). mr_user_id b \<noteq> ''nobody''"
    by code_simp
  from starred_by_user_leaks [OF this, of "\<lambda>_ _. True" None] show ?thesis
    by (simp only:) code_simp
qed

text \<open>
  Marking a message read leaves the mailbox counter stale: \<^verbatim>\<open>MarkAsRead\<close> of an unread message in a
  consistent store succeeds and changes only the message, so the mailbox's unread count is then one
  more than its number of unread messages.
\<close>

theorem mark_read_leaves_count_stale:
  assumes "store_ok d" and "r \<in> set (db_messages d)" and "r_status r = ''unread''"
    and "b \<in> set (db_mailboxes d)" and "mr_id b = r_mailbox_id r"
  shows "fst (MarkAsRead now (r_id r) d) = Inr True \<and>
    db_mailboxes (snd (MarkAsRead now (r_id r) d)) = db_mailboxes d \<and>
    mr_unread_count b = count_where (unread_in (mr_id b)) (db_messages (snd (MarkAsRead now (r_id r) d))) + 1"
proof -
  let ?f = "\<lambda>r. r\<lparr>r_status := ''read'', r_updated_at := now\<rparr>"
  have sc: "schema_ok d" using assms(1) by (simp add: store_ok_def)
  have "keeps_message_keys ?f" by (simp add: keeps_message_keys_def)
  from update_messages_keys [OF sc this]
  have "MarkAsRead now (r_id r) d =
      (Inr True, d\<lparr>db_messages := update_where (\<lambda>x. r_id x = r_id r) ?f (db_messages d)\<rparr>)"
    by (simp add: MarkAsRead_def andThen_def GetByID_found [OF sc assms(2)] assms(3) wrap_def MessageRead_def)
  moreover have "count_where (unread_in (mr_id b)) (update_where (\<lambda>x. r_id x = r_id r) ?f (db_messages d)) =
      count_where (unread_in (mr_id b)) (db_messages d) - 1"
    using sc assms(2,3,5) by (subst count_where_update) (auto simp: schema_defs unread_in_def)
  moreover have "mr_unread_count b = count_where (unread_in (mr_id b)) (db_messages d)"
    using assms(1,4) by (auto simp: store_ok_def stats_ok_def stats_row_def list_all_iff)
  ultimately show ?thesis by simp
qed

theorem mark_read_leaves_count_stale_witness:
  "fst (MarkAsRead 20 ''m1'' two_messages_db) = Inr True"
proof -
  let ?r = "row_of_message ((sample_message ''m1'' ''a'')\<lparr>msg_IMAPUID := 1\<rparr>)"
  let ?b = "bump_row 9 10 True (sample_mailbox ''a'' ''a@x'')"
  have "store_ok two_messages_db" "?r \<in> set (db_messages two_messages_db)" "r_status ?r = ''unread''"
    "?b \<in> set (db_mailboxes two_messages_db)" "mr_id ?b = r_mailbox_id ?r" "r_id ?r = ''m1''"
    by code_simp+
  then show ?thesis
    using mark_read_leaves_count_stale [of two_messages_db ?r ?b 20] by simp
qed


text \<open>
  \<^verbatim>\<open>RecalculateStats\<close> repairs the counters of a mailbox that has messages: it succeeds and all three
  counters equal what the stored messages say. On a mailbox without messages it fails (the sum over
  no rows is NULL) and changes nothing, so stale counters of an emptied mailbox cannot be repaired.
\<close>

theorem recalculate_outcome:
  assumes "schema_ok d" and "b \<in> set (db_mailboxes d)"
  shows "if list_ex (in_mailbox (mr_id b)) (db_messages d)
    then fst (RecalculateStats now (mr_id b) d) = Inr () \<and>
      (\<forall>r \<in> set (db_mailboxes (snd (RecalculateStats now (mr_id b) d))).
         mr_id r = mr_id b \<longrightarrow> stats_row (db_messages d) r) \<and>
      db_messages (snd (RecalculateStats now (mr_id b) d)) = db_messages d
    else RecalculateStats now (mr_id b) d = (Inl (Wrapped ''failed to calculate stats'' scan_error), d)"
proof (cases "list_ex (in_mailbox (mr_id b)) (db_messages d)")
  case True
  let ?i = "mr_id b" and ?ms = "db_messages d"
  let ?f = "\<lambda>r. r\<lparr>mr_message_count := count_where (in_mailbox ?i) ?ms,
      mr_unread_count := count_where (unread_in ?i) ?ms, mr_total_size := sum_size ?i ?ms, mr_updated_at := now\<rparr>"
  have pos: "count_where (in_mailbox ?i) ?ms > 0"
    using True by (auto simp: list_ex_iff intro: count_where_pos)
  have "keeps_mailbox_keys ?f" by (simp add: keeps_mailbox_keys_def)
  note upd = update_mailboxes_keys [OF assms(1) this, of "\<lambda>r. mr_id r = ?i"]
  have "expect_rows e (wrap msg (update_mailboxes (\<lambda>r. mr_id r = ?i) ?f)) d =
      (Inr (), d\<lparr>db_mailboxes := update_where (\<lambda>r. mr_id r = ?i) ?f (db_mailboxes d)\<rparr>)" for e msg
    by (rule expect_rows_pos) (use upd count_where_pos [OF assms(2), of "\<lambda>r. mr_id r = ?i"] in simp_all)
  then have "RecalculateStats now ?i d = (Inr (), d\<lparr>db_mailboxes := update_where (\<lambda>r. mr_id r = ?i) ?f (db_mailboxes d)\<rparr>)"
    using pos by (simp add: RecalculateStats_def)
  then show ?thesis
    using True by (auto simp: set_update_where stats_row_def)
next
  case False
  then have "filter (in_mailbox (mr_id b)) (db_messages d) = []"
    by (auto simp: list_ex_iff filter_empty_conv)
  then show ?thesis
    using False by (simp add: RecalculateStats_def count_where_def)
qed

theorem recalculate_outcome_witness:
  "RecalculateStats 4 ''a'' sample_db = (Inl (Wrapped ''failed to calculate stats'' scan_error), sample_db)"
proof -
  have "schema_ok sample_db" by code_simp
  moreover have "sample_mailbox ''a'' ''a@x'' \<in> set (db_mailboxes sample_db)" "mr_id (sample_mailbox ''a'' ''a@x'') = ''a''"
    "db_messages sample_db = []"
    by (simp_all add: sample_db_def sample_mailbox_def)
  ultimately show ?thesis
    using recalculate_outcome [of sample_db "sample_mailbox ''a'' ''a@x''" 4] by simp
qed

section \<open>Pages\<close>

lemma concat_pages:
  assumes "0 < n"
  shows "concat (map (\<lambda>k. take n (drop (k * n) xs)) [0..<k]) = take (k * n) xs"
proof (induction k)
  case (Suc k)
  then show ?case
    by (simp add: take_add [symmetric] add.commute)
qed simp

definition page_opts :: "SortOptions option \<Rightarrow> int \<Rightarrow> int \<Rightarrow> ListOptions option" where
  "page_opts srt n p = Some \<lparr>lo_Pagination = Some \<lparr>po_Page = p, po_PerPage = n\<rparr>, lo_Sort = srt\<rparr>"

definition unpaged_opts :: "SortOptions option \<Rightarrow> ListOptions option" where
  "unpaged_opts srt = Some \<lparr>lo_Pagination = None, lo_Sort = srt\<rparr>"

definition listed :: "fts_index \<Rightarrow> MessageFilter option \<Rightarrow> ListOptions option \<Rightarrow> db \<Rightarrow> Message ListResult" where
  "listed fts flt opts d = projr (fst (msg_List fts flt opts d))"

lemma Normalize_id: "1 \<le> p \<Longrightarrow> 1 \<le> n \<Longrightarrow> n \<le> 100 \<Longrightarrow>
  PaginationOptions_Normalize \<lparr>po_Page = p, po_PerPage = n\<rparr> = \<lparr>po_Page = p, po_PerPage = n\<rparr>"
  by (simp add: PaginationOptions_Normalize_def Let_def DefaultPerPage_def MaxPerPage_def)

lemma listed_page:
  assumes "1 \<le> n" and "n \<le> 100"
  shows "lr_Items (listed fts flt (page_opts srt n (int k + 1)) d) =
    take (nat n) (drop (k * nat n) (lr_Items (listed fts flt (unpaged_opts srt) d)))"
proof -
  have "nat (int k * n) = k * nat n"
    using assms(1) by (simp add: nat_mult_distrib)
  then show ?thesis
    using assms by (simp add: listed_def msg_List_def page_opts_def unpaged_opts_def page_of_def
        list_result_def limit_offset_def sort_rows_def Normalize_id PaginationOptions_Limit_def
        PaginationOptions_Offset_def Let_def take_map drop_map)
qed

text \<open>
  Paging through a message list loses, repeats and reorders nothing: for every filter, sort option
  and page size from 1 to 100, the items of pages 1 to \<^verbatim>\<open>TotalPages\<close> one after another are exactly the
  items of the unpaged listing, every page reports the total number of matching messages, and
  \<^verbatim>\<open>HasMore\<close> is true on all of these pages but the last.
\<close>

theorem pages_partition_listing:
  fixes fts :: fts_index and flt :: "MessageFilter option" and srt :: "SortOptions option" and d :: db
  assumes "1 \<le> n" and "n \<le> 100"
  defines "items \<equiv> lr_Items (listed fts flt (unpaged_opts srt) d)"
    and "pages \<equiv> nat (Pagination_TotalPages \<lparr>pg_Page = 1, pg_PerPage = n,
          pg_Total = lr_Total (listed fts flt (unpaged_opts srt) d)\<rparr>)"
  shows "concat (map (\<lambda>k. lr_Items (listed fts flt (page_opts srt n (int k + 1)) d)) [0..<pages]) = items \<and>
    lr_Total (listed fts flt (unpaged_opts srt) d) = int (length items) \<and>
    (\<forall>k. lr_Total (listed fts flt (page_opts srt n (int k + 1)) d) = int (length items) \<and>
         (lr_HasMore (listed fts flt (page_opts srt n (int k + 1)) d) \<longleftrightarrow> Suc k < pages))"
proof -
  let ?all = "filter (msg_where fts flt) (db_messages d)"
  have tot: "lr_Total (listed fts flt (unpaged_opts srt) d) = int (length items)"
    "length items = length ?all"
    by (simp_all add: items_def listed_def msg_List_def unpaged_opts_def page_of_def list_result_def
        limit_offset_def Let_def)
  define T where "T = Pagination_TotalPages \<lparr>pg_Page = 1, pg_PerPage = n, pg_Total = int (length items)\<rparr>"
  have pages: "pages = nat T" by (simp add: pages_def T_def tot)
  have covers: "q + 1 \<le> T \<longleftrightarrow> q * n < int (length items)" for q
    using le_TotalPages_iff [of "\<lparr>pg_Page = 1, pg_PerPage = n, pg_Total = int (length items)\<rparr>" q] assms(1)
    by (simp add: T_def)
  have "length items \<le> pages * nat n"
  proof -
    have "\<not> T * n < int (length items)" using covers [of T] by simp
    moreover have "T * n \<le> int (pages * nat n)"
      using assms(1) by (cases "T \<ge> 0") (auto simp: pages mult_le_0_iff)
    ultimately show ?thesis by linarith
  qed
  then have "concat (map (\<lambda>k. lr_Items (listed fts flt (page_opts srt n (int k + 1)) d)) [0..<pages]) = items"
    using concat_pages [of "nat n" items pages] assms(1) listed_page [OF assms(1,2), of fts flt srt _ d]
    by (simp add: items_def)
  moreover have "lr_Total (listed fts flt (page_opts srt n (int k + 1)) d) = int (length items) \<and>
      (lr_HasMore (listed fts flt (page_opts srt n (int k + 1)) d) \<longleftrightarrow> Suc k < pages)" for k
  proof -
    have "lr_HasMore (listed fts flt (page_opts srt n (int k + 1)) d) \<longleftrightarrow> int k + 1 < T"
      using assms(1,2) by (simp add: listed_def msg_List_def page_opts_def page_of_def list_result_def
          Normalize_id Let_def T_def tot(2) Pagination_TotalPages_def)
    then show ?thesis
      using assms(1,2) tot(2) by (auto simp: listed_def msg_List_def page_opts_def page_of_def list_result_def
          Normalize_id Let_def pages)
  qed
  ultimately show ?thesis using tot(1) by blast
qed

theorem pages_partition_listing_witness:
  "concat (map (\<lambda>k. lr_Items (listed (\<lambda>_ _. True) None (page_opts None 1 (int k + 1)) two_messages_db))
     [0..<nat (Pagination_TotalPages \<lparr>pg_Page = 1, pg_PerPage = 1,
        pg_Total = lr_Total (listed (\<lambda>_ _. True) None (unpaged_opts None) two_messages_db)\<rparr>)]) =
   lr_Items (listed (\<lambda>_ _. True) None (unpaged_opts None) two_messages_db)"
  by (rule pages_partition_listing [THEN conjunct1]) simp_all

end
