(* ===== verification/Attachments.thy ===== *)
theory Attachments
  imports Sqlite_Queries
begin

text \<open>
  Attachments: the domain type of \<^verbatim>\<open>internal/domain/attachment.go\<close> with its validation and size
  formatting, and the repository of \<^verbatim>\<open>internal/repository/sqlite/attachment.go\<close>. The theorems are the
  round trip of an attachment and its content, and what the displayed sizes are worth.
\<close>

section \<open>The domain type\<close>

record Attachment =
  at_ID :: ID
  at_MessageID :: ID
  at_Filename :: string
  at_ContentType :: string
  at_Size :: int
  at_ContentID :: string
  at_Disposition :: string
  at_StoragePath :: string
  at_Checksum :: string
  at_IsInline :: bool
  at_CreatedAt :: Timestamp

definition DispositionAttachment :: string where
  "DispositionAttachment = ''attachment''"

definition DispositionInline :: string where
  "DispositionInline = ''inline''"

definition Disposition_IsValid :: "string \<Rightarrow> bool" where
  "Disposition_IsValid x \<longleftrightarrow> x = DispositionAttachment \<or> x = DispositionInline"

definition NewAttachment :: "instant \<Rightarrow> ID \<Rightarrow> ID \<Rightarrow> string \<Rightarrow> string \<Rightarrow> int \<Rightarrow> Attachment" where
  "NewAttachment now i messageID filename contentType sz =
     \<lparr>at_ID = i, at_MessageID = messageID, at_Filename = filename, at_ContentType = contentType,
      at_Size = sz, at_ContentID = [], at_Disposition = DispositionAttachment, at_StoragePath = [],
      at_Checksum = [], at_IsInline = False, at_CreatedAt = now\<rparr>"

definition NewInlineAttachment ::
  "instant \<Rightarrow> ID \<Rightarrow> ID \<Rightarrow> string \<Rightarrow> string \<Rightarrow> string \<Rightarrow> int \<Rightarrow> Attachment" where
  "NewInlineAttachment now i messageID filename contentType contentID sz =
     \<lparr>at_ID = i, at_MessageID = messageID, at_Filename = filename, at_ContentType = contentType,
      at_Size = sz, at_ContentID = contentID, at_Disposition = DispositionInline, at_StoragePath = [],
      at_Checksum = [], at_IsInline = True, at_CreatedAt = now\<rparr>"

fun Contains :: "string \<Rightarrow> string \<Rightarrow> bool" where
  "Contains [] p = (p = [])"
| "Contains (c # s) p = (HasPrefix (c # s) p \<or> Contains s p)"

definition containsPathTraversal :: "string \<Rightarrow> bool" where
  "containsPathTraversal filename \<longleftrightarrow>
     Contains filename ''..'' \<or> Contains filename ''/'' \<or> Contains filename [char_of (92 :: nat)] \<or>
     HasPrefix filename ''.'' \<or> Contains filename [char_of (0 :: nat)]"

definition mime_char :: "char \<Rightarrow> bool" where
  "mime_char c \<longleftrightarrow> (let n = (of_char c :: nat) in
     (97 \<le> n \<and> n \<le> 122) \<or> (65 \<le> n \<and> n \<le> 90) \<or> (48 \<le> n \<and> n \<le> 57) \<or>
     c = CHR ''-'' \<or> c = CHR ''+'' \<or> c = CHR ''.'')"

definition isValidMIMEType :: "string \<Rightarrow> bool" where
  "isValidMIMEType mimeType \<longleftrightarrow>
     (let parts = Split mimeType CHR ''/''
      in length parts = 2 \<and> list_all (\<lambda>p. p \<noteq> [] \<and> list_all mime_char p) parts)"

text \<open>The fields \<^verbatim>\<open>Validate\<close> complains about, in order; the attachment is valid when there are none.\<close>

definition at_Validate :: "Attachment \<Rightarrow> (string \<times> string) list" where
  "at_Validate a =
     (if at_ID a = [] then [(''id'', ''id is required'')] else []) @
     (if at_MessageID a = [] then [(''messageId'', ''message id is required'')] else []) @
     (if at_Filename a = [] then [(''filename'', ''filename is required'')]
      else if length (at_Filename a) > 255 then [(''filename'', ''filename must be at most 255 characters'')]
      else if containsPathTraversal (at_Filename a) then [(''filename'', ''filename contains invalid characters'')]
      else []) @
     (if at_ContentType a = [] then [(''contentType'', ''content type is required'')]
      else if \<not> isValidMIMEType (at_ContentType a) then [(''contentType'', ''content type format is invalid'')]
      else []) @
     (if at_Size a < 0 then [(''size'', ''size cannot be negative'')] else []) @
     (if \<not> Disposition_IsValid (at_Disposition a) then [(''disposition'', ''invalid disposition'')] else []) @
     (if at_IsInline a \<and> at_ContentID a = []
      then [(''contentId'', ''content id is required for inline attachments'')] else [])"

text \<open>\<^verbatim>\<open>path.Ext\<close>: from the last dot of the last path element on, empty without one.\<close>

definition path_Ext :: "string \<Rightarrow> string" where
  "path_Ext p =
     (let tail = takeWhile (\<lambda>c. c \<noteq> CHR ''/'') (rev p)
      in if CHR ''.'' \<in> set tail then CHR ''.'' # rev (takeWhile (\<lambda>c. c \<noteq> CHR ''.'') tail) else [])"

definition GetExtension :: "Attachment \<Rightarrow> string" where
  "GetExtension a = tl (path_Ext (at_Filename a))"

definition GetBaseFilename :: "Attachment \<Rightarrow> string" where
  "GetBaseFilename a = take (length (at_Filename a) - length (path_Ext (at_Filename a))) (at_Filename a)"

definition IsImage :: "Attachment \<Rightarrow> bool" where
  "IsImage a \<longleftrightarrow> HasPrefix (at_ContentType a) ''image/''"

definition IsPDF :: "Attachment \<Rightarrow> bool" where
  "IsPDF a \<longleftrightarrow> at_ContentType a = ''application/pdf''"

definition IsText :: "Attachment \<Rightarrow> bool" where
  "IsText a \<longleftrightarrow> HasPrefix (at_ContentType a) ''text/''"

definition IsArchive :: "Attachment \<Rightarrow> bool" where
  "IsArchive a \<longleftrightarrow> at_ContentType a \<in>
     {''application/zip'', ''application/x-zip-compressed'', ''application/x-rar-compressed'',
      ''application/x-7z-compressed'', ''application/x-tar'', ''application/gzip'', ''application/x-gzip''}"

section \<open>Formatting sizes\<close>

text \<open>
  \<^verbatim>\<open>int64\<close> negation wraps at the least value. A \<^verbatim>\<open>float64\<close> here is always a byte count divided by
  \<^verbatim>\<open>KB\<close> or \<^verbatim>\<open>MB\<close>, a fraction \<open>n/u\<close> with \<open>u\<close> a power of two; the code multiplies it by at most ten and adds one
  half, which a \<^verbatim>\<open>float64\<close> does exactly for counts below a GB, so the model computes with \<open>n\<close> and \<open>u\<close>.
\<close>

definition wrap64 :: "int \<Rightarrow> int" where
  "wrap64 n = (n + 2 ^ 63) mod 2 ^ 64 - 2 ^ 63"

function digits_of :: "int \<Rightarrow> string" where
  "digits_of i = (if i > 0 then digits_of (i div 10) @ [char_of (48 + nat (i mod 10))] else [])"
  by pat_completeness auto
termination by (relation "measure nat") auto

declare digits_of.simps [simp del]

definition intToString :: "int \<Rightarrow> string" where
  "intToString i =
     (if i = 0 then ''0''
      else if i < 0 then CHR ''-'' # digits_of (wrap64 (- i)) else digits_of i)"

definition TrimRight :: "string \<Rightarrow> char \<Rightarrow> string" where
  "TrimRight s c = rev (dropWhile (\<lambda>d. d = c) (rev s))"

definition TrimSuffix :: "string \<Rightarrow> string \<Rightarrow> string" where
  "TrimSuffix s p = (if HasSuffix s p then take (length s - length p) s else s)"

text \<open>\<^verbatim>\<open>strings.Replace(s, ".", ",", 1)\<close>.\<close>

fun dot_to_comma :: "string \<Rightarrow> string" where
  "dot_to_comma [] = []"
| "dot_to_comma (c # s) = (if c = CHR ''.'' then CHR '','' # s else c # dot_to_comma s)"

definition floatToString :: "int \<Rightarrow> int \<Rightarrow> nat \<Rightarrow> string" where
  "floatToString n u decimals =
     (let multiplier = 10 ^ decimals; rounded = (2 * n * multiplier + u) div (2 * u);
          intPart = rounded div multiplier; frac = intToString (rounded mod multiplier)
      in if decimals = 0 then intToString intPart
         else intToString intPart @ ''.'' @ replicate (decimals - length frac) CHR ''0'' @ frac)"

definition formatFloat :: "int \<Rightarrow> int \<Rightarrow> nat \<Rightarrow> string" where
  "formatFloat n u decimals =
     (let s = (if decimals = 0 then intToString (n div u) else floatToString n u decimals)
      in dot_to_comma (TrimRight (TrimRight s CHR ''0'') CHR ''.''))"

text \<open>\<^verbatim>\<open>string(rune(n))\<close>: the UTF-8 encoding of the code point, U+FFFD for a value that is none.\<close>

definition rune_string :: "int \<Rightarrow> string" where
  "rune_string n =
     (let n = (n + 2 ^ 31) mod 2 ^ 32 - 2 ^ 31;
          n = (if n < 0 \<or> n > 1114111 \<or> (55296 \<le> n \<and> n \<le> 57343) then 65533 else n);
          cont = (\<lambda>k. 128 + nat (n div 2 ^ k mod 64))
      in map char_of
         (if n < 128 then [nat n]
          else if n < 2048 then [192 + nat (n div 64), cont 0]
          else if n < 65536 then [224 + nat (n div 4096), cont 6, cont 0]
          else [240 + nat (n div 262144), cont 12, cont 6, cont 0]))"

definition formatFileSize :: "int \<Rightarrow> string" where
  "formatFileSize sz =
     (if sz \<ge> 1073741824 then
        TrimRight (TrimRight (dot_to_comma (rune_string (sz div 1073741824) @ ''.'')) CHR ''0'') CHR '','' @ '' GB''
      else if sz \<ge> 1048576 then
        (if sz \<ge> 10 * 1048576
         then TrimSuffix (TrimSuffix (formatFloat sz 1048576 0) ''.0'') ''.'' @ '' MB''
         else formatFloat sz 1048576 1 @ '' MB'')
      else if sz \<ge> 1024 then
        (if sz \<ge> 10 * 1024
         then TrimSuffix (TrimSuffix (formatFloat sz 1024 0) ''.0'') ''.'' @ '' KB''
         else formatFloat sz 1024 1 @ '' KB'')
      else intToString sz @ '' B'')"

definition GetSizeFormatted :: "Attachment \<Rightarrow> string" where
  "GetSizeFormatted a = formatFileSize (at_Size a)"

record AttachmentSummary =
  as_ID :: ID
  as_Filename :: string
  as_ContentType :: string
  as_Size :: int
  as_SizeFormatted :: string
  as_IsInline :: bool

definition at_ToSummary :: "Attachment \<Rightarrow> AttachmentSummary" where
  "at_ToSummary a =
     \<lparr>as_ID = at_ID a, as_Filename = at_Filename a, as_ContentType = at_ContentType a,
      as_Size = at_Size a, as_SizeFormatted = GetSizeFormatted a, as_IsInline = at_IsInline a\<rparr>"

section \<open>The repository\<close>

definition toAttachment :: "attachmentRow \<Rightarrow> Attachment" where
  "toAttachment r =
     \<lparr>at_ID = ar_id r, at_MessageID = ar_message_id r, at_Filename = ar_filename r,
      at_ContentType = ar_content_type r, at_Size = ar_size r, at_ContentID = from_null (ar_content_id r),
      at_Disposition = ar_disposition r, at_StoragePath = from_null (ar_storage_path r),
      at_Checksum = from_null (ar_checksum r), at_IsInline = ar_is_inline r,
      at_CreatedAt = ar_created_at r\<rparr>"

definition get_attachment :: "(attachmentRow \<Rightarrow> bool) \<Rightarrow> string \<Rightarrow> Attachment dbm" where
  "get_attachment P key =
     andThen (query (\<lambda>d. find P (db_attachments d)))
       (\<lambda>row. case row of None \<Rightarrow> fail (NotFoundError ''attachment'' key) | Some r \<Rightarrow> ret (toAttachment r))"

definition att_GetByID :: "ID \<Rightarrow> Attachment dbm" where
  "att_GetByID i = get_attachment (\<lambda>r. ar_id r = i) i"

definition GetByContentID :: "string \<Rightarrow> Attachment dbm" where
  "GetByContentID contentID = get_attachment (\<lambda>r. ar_content_id r = Some contentID) contentID"

record AttachmentFilter =
  af_IDs :: "ID list"
  af_MessageID :: "ID option"
  af_MessageIDs :: "ID list"
  af_IsInline :: "bool option"
  af_ContentType :: string
  af_ContentTypePrefix :: string
  af_Filename :: string
  af_FilenameContains :: string
  af_Extension :: string
  af_Extensions :: "string list"
  af_MinSize :: "int option"
  af_MaxSize :: "int option"
  af_Checksum :: string
  af_CreatedAfter :: "Timestamp option"
  af_CreatedBefore :: "Timestamp option"

definition emptyAttachmentFilter :: AttachmentFilter where
  "emptyAttachmentFilter =
     \<lparr>af_IDs = [], af_MessageID = None, af_MessageIDs = [], af_IsInline = None, af_ContentType = [],
      af_ContentTypePrefix = [], af_Filename = [], af_FilenameContains = [], af_Extension = [],
      af_Extensions = [], af_MinSize = None, af_MaxSize = None, af_Checksum = [],
      af_CreatedAfter = None, af_CreatedBefore = None\<rparr>"

definition att_where :: "AttachmentFilter option \<Rightarrow> attachmentRow \<Rightarrow> bool" where
  "att_where flt r \<longleftrightarrow>
     (case flt of None \<Rightarrow> True
      | Some f \<Rightarrow>
         when_set (af_IDs f) (ar_id r \<in> set (af_IDs f)) \<and>
         when_some (af_MessageID f) (\<lambda>i. ar_message_id r = i) \<and>
         when_set (af_MessageIDs f) (ar_message_id r \<in> set (af_MessageIDs f)) \<and>
         when_some (af_IsInline f) (\<lambda>b. ar_is_inline r = b) \<and>
         when_set (af_ContentType f) (ar_content_type r = af_ContentType f) \<and>
         when_set (af_ContentTypePrefix f) (like (af_ContentTypePrefix f @ ''%'') (ar_content_type r)) \<and>
         when_set (af_Filename f) (ar_filename r = af_Filename f) \<and>
         when_set (af_FilenameContains f) (like (''%'' @ af_FilenameContains f @ ''%'') (ar_filename r)) \<and>
         when_set (af_Extension f) (like (''%.'' @ af_Extension f) (ar_filename r)) \<and>
         when_set (af_Extensions f) (list_ex (\<lambda>x. like (''%.'' @ x) (ar_filename r)) (af_Extensions f)) \<and>
         when_some (af_MinSize f) (\<lambda>n. ar_size r \<ge> n) \<and>
         when_some (af_MaxSize f) (\<lambda>n. ar_size r \<le> n) \<and>
         when_set (af_Checksum f) (ar_checksum r = Some (af_Checksum f)) \<and>
         when_some (af_CreatedAfter f) (\<lambda>t. ar_created_at r > t) \<and>
         when_some (af_CreatedBefore f) (\<lambda>t. ar_created_at r < t))"

definition att_sort_key :: "string \<Rightarrow> attachmentRow \<Rightarrow> sql_value" where
  "att_sort_key field r =
     (if field = ''filename'' then STxt (ar_filename r)
      else if field = ''size'' then SInt (ar_size r)
      else if field = ''contentType'' then STxt (ar_content_type r)
      else SInt (ar_created_at r))"

definition att_List :: "AttachmentFilter option \<Rightarrow> ListOptions option \<Rightarrow> Attachment ListResult dbm" where
  "att_List flt opts =
     query (\<lambda>d. let all = filter (att_where flt) (db_attachments d);
                    rows = limit_offset (page_of opts) (sort_rows att_sort_key ''createdAt'' opts all)
                in list_result opts (int (length all)) (map toAttachment rows))"

definition ListByMessage :: "ID \<Rightarrow> Attachment list dbm" where
  "ListByMessage messageID =
     query (\<lambda>d. map toAttachment (order_by (\<lambda>r. SInt (ar_created_at r)) SortAsc
       (filter (\<lambda>r. ar_message_id r = messageID) (db_attachments d))))"

text \<open>The map from message IDs to attachments is a function, empty where the code has no entry.\<close>

definition ListByMessages :: "ID list \<Rightarrow> (ID \<Rightarrow> Attachment list) dbm" where
  "ListByMessages messageIDs =
     (if messageIDs = [] then ret (\<lambda>_. [])
      else query (\<lambda>d. let rows = order_by (\<lambda>r. SInt (ar_created_at r)) SortAsc
                          (filter (\<lambda>r. ar_message_id r \<in> set messageIDs) (db_attachments d))
                      in (\<lambda>i. filter (\<lambda>a. at_MessageID a = i) (map toAttachment rows))))"

definition att_ListSummaries ::
  "AttachmentFilter option \<Rightarrow> ListOptions option \<Rightarrow> AttachmentSummary ListResult dbm" where
  "att_ListSummaries flt opts =
     andThen (att_List flt opts)
       (\<lambda>res. ret \<lparr>lr_Items = map at_ToSummary (lr_Items res), lr_Total = lr_Total res,
                  lr_HasMore = lr_HasMore res, lr_Pagination = lr_Pagination res\<rparr>)"

definition ListSummariesByMessage :: "ID \<Rightarrow> AttachmentSummary list dbm" where
  "ListSummariesByMessage messageID =
     andThen (ListByMessage messageID) (\<lambda>atts. ret (map at_ToSummary atts))"

definition att_Exists :: "ID \<Rightarrow> bool dbm" where
  "att_Exists i = query (\<lambda>d. list_ex (\<lambda>r. ar_id r = i) (db_attachments d))"

definition ExistsByContentID :: "string \<Rightarrow> bool dbm" where
  "ExistsByContentID contentID =
     query (\<lambda>d. list_ex (\<lambda>r. ar_content_id r = Some contentID) (db_attachments d))"

definition row_of_attachment :: "Attachment \<Rightarrow> attachmentRow" where
  "row_of_attachment a =
     \<lparr>ar_id = at_ID a, ar_message_id = at_MessageID a, ar_filename = at_Filename a,
      ar_content_type = at_ContentType a, ar_size = at_Size a, ar_content_id = NullString (at_ContentID a),
      ar_disposition = at_Disposition a, ar_storage_path = NullString (at_StoragePath a),
      ar_checksum = NullString (at_Checksum a), ar_is_inline = at_IsInline a,
      ar_created_at = at_CreatedAt a, ar_content = None\<rparr>"

definition att_Create :: "Attachment \<Rightarrow> unit dbm" where
  "att_Create a = wrap ''failed to create attachment'' (insert_attachment (row_of_attachment a))"

text \<open>
  The external storage backend (\<^verbatim>\<open>storage.Backend\<close>, file system or S3) is a parameter: what its \<^verbatim>\<open>Store\<close> and
  \<^verbatim>\<open>Get\<close> answer. Without one (\<open>None\<close>) the content goes into the table \<^verbatim>\<open>attachment_content\<close>.
\<close>

record storage_backend =
  bk_Store :: "string \<Rightarrow> bytes \<Rightarrow> int \<Rightarrow> error option"
  bk_Get :: "string \<Rightarrow> error + bytes"

definition StoreContent :: "storage_backend option \<Rightarrow> ID \<Rightarrow> bytes \<Rightarrow> unit dbm" where
  "StoreContent backend i content =
     andThen (att_Exists i)
       (\<lambda>exists. if \<not> exists then fail (NotFoundError ''attachment'' i)
         else case backend of
           Some b \<Rightarrow>
             andThen (att_GetByID i)
               (\<lambda>a. case bk_Store b i content (at_Size a) of
                  Some e \<Rightarrow> fail (Wrapped ''failed to store content in backend'' e)
                | None \<Rightarrow> andThen (wrap ''failed to update storage path''
                            (update_attachments (\<lambda>r. ar_id r = i) (\<lambda>r. r\<lparr>ar_storage_path := Some i\<rparr>)))
                          (\<lambda>_. ret ()))
         | None \<Rightarrow>
             andThen (wrap ''failed to store content''
               (update_attachments (\<lambda>r. ar_id r = i) (\<lambda>r. r\<lparr>ar_content := Some content\<rparr>)))
             (\<lambda>_. ret ()))"

definition CreateWithContent :: "storage_backend option \<Rightarrow> Attachment \<Rightarrow> bytes \<Rightarrow> unit dbm" where
  "CreateWithContent backend a content =
     andThen (att_Create a) (\<lambda>_. StoreContent backend (at_ID a) content)"

definition att_Update :: "Attachment \<Rightarrow> unit dbm" where
  "att_Update a =
     andThen (att_Exists (at_ID a))
       (\<lambda>exists. if \<not> exists then fail (NotFoundError ''attachment'' (at_ID a))
         else andThen (wrap ''failed to update attachment''
                (update_attachments (\<lambda>r. ar_id r = at_ID a)
                  (\<lambda>r. r\<lparr>ar_message_id := at_MessageID a, ar_filename := at_Filename a,
                         ar_content_type := at_ContentType a, ar_size := at_Size a,
                         ar_content_id := NullString (at_ContentID a), ar_disposition := at_Disposition a,
                         ar_storage_path := NullString (at_StoragePath a),
                         ar_checksum := NullString (at_Checksum a), ar_is_inline := at_IsInline a\<rparr>)))
              (\<lambda>_. ret ()))"

text \<open>The first statement of a deletion removes the content rows, the second the attachments.\<close>

definition delete_content :: "(attachmentRow \<Rightarrow> bool) \<Rightarrow> int dbm" where
  "delete_content P = wrap ''failed to delete attachment content''
     (update_attachments P (\<lambda>r. r\<lparr>ar_content := None\<rparr>))"

definition att_Delete :: "ID \<Rightarrow> unit dbm" where
  "att_Delete i =
     andThen (delete_content (\<lambda>r. ar_id r = i))
       (\<lambda>_. expect_rows (NotFoundError ''attachment'' i)
          (wrap ''failed to delete attachment'' (delete_attachments (\<lambda>r. ar_id r = i))))"

definition DeleteByMessage :: "ID \<Rightarrow> int dbm" where
  "DeleteByMessage messageID =
     andThen (delete_content (\<lambda>r. ar_message_id r = messageID))
       (\<lambda>_. wrap ''failed to delete attachments by message''
          (delete_attachments (\<lambda>r. ar_message_id r = messageID)))"

definition DeleteByMessages :: "ID list \<Rightarrow> int dbm" where
  "DeleteByMessages messageIDs =
     (if messageIDs = [] then ret 0
      else andThen (delete_content (\<lambda>r. ar_message_id r \<in> set messageIDs))
        (\<lambda>_. wrap ''failed to delete attachments by messages''
           (delete_attachments (\<lambda>r. ar_message_id r \<in> set messageIDs))))"

definition att_Count :: "AttachmentFilter option \<Rightarrow> int dbm" where
  "att_Count flt = query (\<lambda>d. count_where (att_where flt) (db_attachments d))"

definition CountByMessage :: "ID \<Rightarrow> int dbm" where
  "CountByMessage messageID = query (\<lambda>d. count_where (\<lambda>r. ar_message_id r = messageID) (db_attachments d))"

definition stored_content :: "ID \<Rightarrow> bytes dbm" where
  "stored_content i =
     andThen (query (\<lambda>d. Option.bind (find (\<lambda>r. ar_id r = i) (db_attachments d)) ar_content))
       (\<lambda>c. case c of None \<Rightarrow> fail (NotFoundError ''attachment content'' i) | Some content \<Rightarrow> ret content)"

definition GetContent :: "storage_backend option \<Rightarrow> ID \<Rightarrow> bytes dbm" where
  "GetContent backend i =
     (case backend of
        None \<Rightarrow> stored_content i
      | Some b \<Rightarrow> andThen (att_GetByID i)
          (\<lambda>a. if at_StoragePath a = [] then stored_content i
               else case bk_Get b (at_StoragePath a) of Inl e \<Rightarrow> fail e | Inr content \<Rightarrow> ret content))"

definition GetContentWithMetadata :: "storage_backend option \<Rightarrow> ID \<Rightarrow> (Attachment \<times> bytes) dbm" where
  "GetContentWithMetadata backend i =
     andThen (att_GetByID i) (\<lambda>a. andThen (GetContent backend i) (\<lambda>content. ret (a, content)))"

definition GetContentSize :: "ID \<Rightarrow> int dbm" where
  "GetContentSize i = andThen (stored_content i) (\<lambda>content. ret (int (length content)))"

definition VerifyContent :: "storage_backend option \<Rightarrow> ID \<Rightarrow> bool dbm" where
  "VerifyContent backend i =
     andThen (att_GetByID i)
       (\<lambda>a. if at_Checksum a = [] then ret True
            else andThen (GetContent backend i) (\<lambda>data. ret (at_Size a = int (length data))))"

definition att_GetTotalSize :: "int dbm" where
  "att_GetTotalSize = query (\<lambda>d. sum_list (map ar_size (db_attachments d)))"

definition GetTotalSizeByMessage :: "ID \<Rightarrow> int dbm" where
  "GetTotalSizeByMessage messageID =
     query (\<lambda>d. sum_list (map ar_size (filter (\<lambda>r. ar_message_id r = messageID) (db_attachments d))))"

definition GetByChecksum :: "string \<Rightarrow> Attachment list dbm" where
  "GetByChecksum checksum =
     query (\<lambda>d. map toAttachment (filter (\<lambda>r. ar_checksum r = Some checksum) (db_attachments d)))"

definition inline_of :: "bool \<Rightarrow> ID \<Rightarrow> Attachment list dbm" where
  "inline_of b messageID =
     andThen (att_List (Some (emptyAttachmentFilter\<lparr>af_MessageID := Some messageID, af_IsInline := Some b\<rparr>)) None)
       (\<lambda>res. ret (lr_Items res))"

definition GetInlineAttachments :: "ID \<Rightarrow> Attachment list dbm" where
  "GetInlineAttachments = inline_of True"

definition GetNonInlineAttachments :: "ID \<Rightarrow> Attachment list dbm" where
  "GetNonInlineAttachments = inline_of False"

definition GetByContentType :: "string \<Rightarrow> ListOptions option \<Rightarrow> Attachment ListResult dbm" where
  "GetByContentType contentType opts = att_List (Some (emptyAttachmentFilter\<lparr>af_ContentType := contentType\<rparr>)) opts"

definition GetImages :: "ListOptions option \<Rightarrow> Attachment ListResult dbm" where
  "GetImages opts = att_List (Some (emptyAttachmentFilter\<lparr>af_ContentTypePrefix := ''image/''\<rparr>)) opts"

definition GetLargeAttachments :: "int \<Rightarrow> ListOptions option \<Rightarrow> Attachment ListResult dbm" where
  "GetLargeAttachments minSize opts = att_List (Some (emptyAttachmentFilter\<lparr>af_MinSize := Some minSize\<rparr>)) opts"

definition att_Search :: "string \<Rightarrow> ListOptions option \<Rightarrow> Attachment ListResult dbm" where
  "att_Search q opts = att_List (Some (emptyAttachmentFilter\<lparr>af_FilenameContains := q\<rparr>)) opts"

definition att_BulkDelete :: "ID list \<Rightarrow> BulkOperation dbm" where
  "att_BulkDelete ids = bulk att_Delete ids NewBulkOperation"

definition CleanupOrphaned :: "int dbm" where
  "CleanupOrphaned =
     andThen (query (\<lambda>d. map r_id (db_messages d)))
       (\<lambda>ids. andThen (wrap ''failed to delete orphaned content''
                  (update_attachments (\<lambda>r. ar_message_id r \<notin> set ids) (\<lambda>r. r\<lparr>ar_content := None\<rparr>)))
          (\<lambda>_. wrap ''failed to delete orphaned attachments''
             (delete_attachments (\<lambda>r. ar_message_id r \<notin> set ids))))"

section \<open>Round trip\<close>

lemma toAttachment_row [simp]: "toAttachment (row_of_attachment a) = a"
  by (simp add: toAttachment_def row_of_attachment_def)

lemma schema_ok_attachments:
  assumes "schema_ok d" and "distinct (map ar_id rs)" and "list_all (\<lambda>r. ar_message_id r \<in> r_id ` set (db_messages d)) rs"
  shows "schema_ok (d\<lparr>db_attachments := rs\<rparr>)"
  using assms by (simp add: schema_defs)

text \<open>Attachment statements that keep the keys always go through.\<close>

definition keeps_attachment_keys :: "(attachmentRow \<Rightarrow> attachmentRow) \<Rightarrow> bool" where
  "keeps_attachment_keys f \<longleftrightarrow> (\<forall>r. ar_id (f r) = ar_id r \<and> ar_message_id (f r) = ar_message_id r)"

lemma update_attachments_ok:
  assumes "schema_ok d" and "keeps_attachment_keys f"
  shows "update_attachments P f d =
    (Inr (count_where P (db_attachments d)), d\<lparr>db_attachments := update_where P f (db_attachments d)\<rparr>)"
    and "schema_ok (d\<lparr>db_attachments := update_where P f (db_attachments d)\<rparr>)"
proof -
  have ids: "map ar_id (update_where P f (db_attachments d)) = map ar_id (db_attachments d)"
    and "map ar_message_id (update_where P f (db_attachments d)) = map ar_message_id (db_attachments d)"
    using assms(2) by (auto simp: keeps_attachment_keys_def intro!: map_update_where)
  from list_all_map_cong [OF this(2), of "\<lambda>i. i \<in> r_id ` set (db_messages d)"]
  show ok: "schema_ok (d\<lparr>db_attachments := update_where P f (db_attachments d)\<rparr>)"
    using assms(1) ids by (intro schema_ok_attachments) (simp_all add: schema_defs)
  then show "update_attachments P f d =
    (Inr (count_where P (db_attachments d)), d\<lparr>db_attachments := update_where P f (db_attachments d)\<rparr>)"
    by (simp add: update_attachments_def stmt_def)
qed

lemma delete_attachments_ok:
  assumes "schema_ok d"
  shows "delete_attachments P d =
    (Inr (count_where P (db_attachments d)), d\<lparr>db_attachments := filter (\<lambda>r. \<not> P r) (db_attachments d)\<rparr>)"
    and "schema_ok (d\<lparr>db_attachments := filter (\<lambda>r. \<not> P r) (db_attachments d)\<rparr>)"
proof -
  show ok: "schema_ok (d\<lparr>db_attachments := filter (\<lambda>r. \<not> P r) (db_attachments d)\<rparr>)"
    using assms by (intro schema_ok_attachments)
      (auto simp: schema_defs list_all_iff distinct_map intro: inj_on_subset)
  then show "delete_attachments P d =
    (Inr (count_where P (db_attachments d)), d\<lparr>db_attachments := filter (\<lambda>r. \<not> P r) (db_attachments d)\<rparr>)"
    by (simp add: delete_attachments_def stmt_def)
qed

definition with_attachment :: "Attachment \<Rightarrow> bytes option \<Rightarrow> db \<Rightarrow> db" where
  "with_attachment a c d =
     d\<lparr>db_attachments := db_attachments d @ [(row_of_attachment a)\<lparr>ar_content := c\<rparr>]\<rparr>"

lemma with_attachment_schema:
  assumes "schema_ok d" and "at_MessageID a \<in> r_id ` set (db_messages d)"
    and "at_ID a \<notin> ar_id ` set (db_attachments d)"
  shows "schema_ok (with_attachment a c d)"
  unfolding with_attachment_def
  using assms by (intro schema_ok_attachments) (auto simp: schema_defs row_of_attachment_def)

lemma update_where_Nil [simp]: "update_where P f [] = []"
  by (simp add: update_where_def)

lemma update_where_append [simp]: "update_where P f (xs @ ys) = update_where P f xs @ update_where P f ys"
  by (simp add: update_where_def)

lemma CreateWithContent_ok:
  assumes "schema_ok d" and "at_MessageID a \<in> r_id ` set (db_messages d)"
    and "at_ID a \<notin> ar_id ` set (db_attachments d)"
  shows "CreateWithContent None a c d = (Inr (), with_attachment a (Some c) d)"
proof -
  let ?d = "with_attachment a None d"
  have same: "update_where (\<lambda>r. ar_id r = at_ID a) f (db_attachments d) = db_attachments d" for f
    using assms(3) by (intro update_where_id) (metis image_eqI)
  have row: "(row_of_attachment a)\<lparr>ar_content := None\<rparr> = row_of_attachment a"
    by (simp add: row_of_attachment_def)
  have "att_Create a d = (Inr (), ?d)"
    using with_attachment_schema [OF assms, of None]
    by (simp add: att_Create_def insert_attachment_def stmt_def with_attachment_def row)
  moreover have "att_Exists (at_ID a) ?d = (Inr True, ?d)"
    by (simp add: att_Exists_def with_attachment_def row_of_attachment_def)
  moreover have "keeps_attachment_keys (\<lambda>r. r\<lparr>ar_content := Some c\<rparr>)"
    by (simp add: keeps_attachment_keys_def)
  from update_attachments_ok(1) [OF with_attachment_schema [OF assms, of None] this, of "\<lambda>r. ar_id r = at_ID a"]
  have "update_attachments (\<lambda>r. ar_id r = at_ID a) (\<lambda>r. r\<lparr>ar_content := Some c\<rparr>) ?d =
      (Inr (count_where (\<lambda>r. ar_id r = at_ID a) (db_attachments ?d)), with_attachment a (Some c) d)"
    by (simp add: with_attachment_def same row_of_attachment_def)
  ultimately show ?thesis
    by (simp add: CreateWithContent_def StoreContent_def andThen_def wrap_def)
qed

text \<open>
  C33. Without an external backend, an attachment stored under a fresh ID for an existing message
  comes back with the metadata and the content it was stored with, the schema still holds, and no
  other table and no other attachment changes.
\<close>

theorem attachment_round_trip:
  assumes "schema_ok d" and "at_MessageID a \<in> r_id ` set (db_messages d)"
    and "at_ID a \<notin> ar_id ` set (db_attachments d)"
    and "CreateWithContent None a content d = (res, d')"
  shows "res = Inr () \<and> schema_ok d' \<and>
    GetContentWithMetadata None (at_ID a) d' = (Inr (a, content), d') \<and>
    d'\<lparr>db_attachments := filter (\<lambda>r. ar_id r \<noteq> at_ID a) (db_attachments d')\<rparr> = d"
proof -
  have d': "res = Inr ()" "d' = with_attachment a (Some content) d"
    using assms CreateWithContent_ok [OF assms(1-3), of content] by auto
  have "find (\<lambda>r. ar_id r = at_ID a) (db_attachments d) = None"
    using assms(3) unfolding find_None_iff by (metis image_eqI)
  then have "find (\<lambda>r. ar_id r = at_ID a) (db_attachments d') = Some ((row_of_attachment a)\<lparr>ar_content := Some content\<rparr>)"
    by (simp add: d'(2) with_attachment_def find_append row_of_attachment_def)
  moreover have "toAttachment ((row_of_attachment a)\<lparr>ar_content := Some content\<rparr>) = a"
    by (simp add: toAttachment_def row_of_attachment_def)
  ultimately have "GetContentWithMetadata None (at_ID a) d' = (Inr (a, content), d')"
    by (simp add: GetContentWithMetadata_def att_GetByID_def get_attachment_def GetContent_def
        stored_content_def andThen_def)
  moreover have "filter (\<lambda>r. ar_id r \<noteq> at_ID a) (db_attachments d) = db_attachments d"
    using assms(3) unfolding filter_id_conv by (metis image_eqI)
  then have "d'\<lparr>db_attachments := filter (\<lambda>r. ar_id r \<noteq> at_ID a) (db_attachments d')\<rparr> = d"
    by (simp add: d'(2) with_attachment_def row_of_attachment_def)
  ultimately show ?thesis
    using d' with_attachment_schema [OF assms(1-3)] by auto
qed

definition sample_attachment :: Attachment where
  "sample_attachment = NewAttachment 5 ''a1'' ''m1'' ''notes.txt'' ''text/plain'' 3"

theorem attachment_round_trip_witness:
  "fst (CreateWithContent None sample_attachment [1, 2, 3] two_messages_db) = Inr () \<and>
   (case CreateWithContent None sample_attachment [1, 2, 3] two_messages_db of
      (_, d') \<Rightarrow> GetContentWithMetadata None ''a1'' d' = (Inr (sample_attachment, [1, 2, 3]), d'))"
proof -
  have "schema_ok two_messages_db" by code_simp
  moreover have "at_MessageID sample_attachment \<in> r_id ` set (db_messages two_messages_db)" by code_simp
  moreover have "at_ID sample_attachment \<notin> ar_id ` set (db_attachments two_messages_db)" by code_simp
  moreover have "at_ID sample_attachment = ''a1''" by code_simp
  ultimately show ?thesis
    using attachment_round_trip [of two_messages_db sample_attachment "[1, 2, 3]"]
    by (cases "CreateWithContent None sample_attachment [1, 2, 3] two_messages_db") auto
qed

section \<open>Displayed sizes\<close>

lemma digits_of_pos: "i > 0 \<Longrightarrow> digits_of i = digits_of (i div 10) @ [char_of (48 + nat (i mod 10))]"
  by (subst digits_of.simps) simp

lemma char_zero: "char_of (48 :: nat) = CHR ''0''"
  by code_simp

lemma digits_of_times_10: "i > 0 \<Longrightarrow> digits_of (10 * i) = digits_of i @ ''0''"
  by (subst digits_of_pos) (simp_all add: char_zero)

lemma TrimRight_snoc [simp]: "TrimRight (s @ [c]) c = TrimRight s c"
  by (simp add: TrimRight_def)

text \<open>
  \<^verbatim>\<open>formatFileSize\<close> strips the trailing zeros of a whole number of kilobytes or megabytes: from 10 units on, the
  size \<open>10 k\<close> is displayed exactly as the size \<open>k\<close>, for every \<open>k\<close> the unit can show.
\<close>

theorem displayed_sizes_collide:
  assumes "10 \<le> k" and "10 * k < 1024"
  shows "formatFileSize (10 * k * 1024) = formatFileSize (k * 1024) \<and>
    formatFileSize (10 * k * 1048576) = formatFileSize (k * 1048576)"
  using assms by (simp add: formatFileSize_def formatFloat_def intToString_def digits_of_times_10 Let_def)

theorem displayed_sizes_collide_witness:
  "formatFileSize (500 * 1024) = ''5 KB'' \<and> formatFileSize (50 * 1024) = ''5 KB''"
proof -
  have "formatFileSize (50 * 1024) = ''5 KB''" by code_simp
  then show ?thesis using displayed_sizes_collide [of 50] by simp
qed

end
