(* ===== verification/Message_Service.thy ===== *)
theory Message_Service
  imports Attachments
begin

text \<open>
  The message service of \<^verbatim>\<open>internal/service/message.go\<close> on the SQLite repository: storing a parsed
  message with its attachments in one transaction, deleting, flagging and moving messages with the
  mailbox counters, and the methods that check that the acting user owns the mailbox first.

  The MIME parser, the ID generator, SHA-256 and the external storage backend are fields of the
  record \<open>MessageService\<close>; one call reads the clock once (\<open>now\<close>).
\<close>

section \<open>Data\<close>

record AttachmentData =
  ad_Filename :: string
  ad_ContentType :: string
  ad_ContentID :: string
  ad_Disposition :: string
  ad_IsInline :: bool
  ad_Data :: bytes
  ad_Encoding :: string

record ParsedMessage =
  pm_Headers :: "(string \<times> string) list"
  pm_AllHeaders :: "(string \<times> string list) list"
  pm_From :: EmailAddress
  pm_To :: "EmailAddress list"
  pm_Cc :: "EmailAddress list"
  pm_Bcc :: "EmailAddress list"
  pm_ReplyTo :: "EmailAddress option"
  pm_Subject :: string
  pm_MessageID :: string
  pm_InReplyTo :: string
  pm_References :: "string list"
  pm_Date :: "instant option"
  pm_TextBody :: string
  pm_HTMLBody :: string
  pm_Attachments :: "AttachmentData list"
  pm_ContentType :: string
  pm_RawSize :: int

text \<open>
  \<open>svc_gen k\<close> is the \<open>k\<close>-th ID the generator hands out during a call: the first for the message,
  the following ones for its attachments.
\<close>

record MessageService =
  svc_parse :: "bytes \<Rightarrow> error + ParsedMessage"
  svc_gen :: "nat \<Rightarrow> ID"
  svc_sha256 :: "bytes \<Rightarrow> string"
  svc_backend :: "storage_backend option"
  svc_notify :: bool

record StoreMessageInput =
  smi_RawData :: bytes
  smi_TargetMailboxID :: ID
  smi_SkipDuplicateCheck :: bool

text \<open>The arguments of the call of \<^verbatim>\<open>NotifyNewMessage\<close>, if there is one, are part of the result.\<close>

record NewMessageNotice =
  nn_MailboxID :: ID
  nn_UserID :: ID
  nn_MessageID :: ID
  nn_SeqNum :: "32 word"
  nn_UID :: "32 word"
  nn_MessageCount :: "32 word"

record StoreMessageResult =
  smr_Message :: Message
  smr_Attachments :: "Attachment list"
  smr_IsDuplicate :: bool
  smr_DuplicateID :: ID
  smr_Notice :: "NewMessageNotice option"

definition ToMessage :: "instant \<Rightarrow> ParsedMessage \<Rightarrow> ID \<Rightarrow> ID \<Rightarrow> Message" where
  "ToMessage now pm i mailboxID =
     (NewMessage now i mailboxID)
       \<lparr>msg_MessageID := pm_MessageID pm, msg_From := pm_From pm, msg_To := pm_To pm,
        msg_Cc := pm_Cc pm, msg_Bcc := pm_Bcc pm, msg_ReplyTo := pm_ReplyTo pm,
        msg_Subject := pm_Subject pm, msg_TextBody := pm_TextBody pm, msg_HTMLBody := pm_HTMLBody pm,
        msg_Headers := pm_Headers pm, msg_AllHeaders := pm_AllHeaders pm,
        msg_InReplyTo := pm_InReplyTo pm, msg_References := pm_References pm,
        msg_Size := pm_RawSize pm, msg_AttachmentCount := int (length (pm_Attachments pm)),
        msg_ContentType :=
          (if pm_HTMLBody pm \<noteq> [] \<and> pm_TextBody pm \<noteq> [] then ContentTypeMultipart
           else if pm_HTMLBody pm \<noteq> [] then ContentTypeHTML else ContentTypePlain),
        msg_SentAt := pm_Date pm\<rparr>"

section \<open>Errors\<close>

text \<open>
  \<^verbatim>\<open>MessageServiceError{Op, Message, Err}\<close> prints as \<^verbatim>\<open>message service Op: Message: Err\<close> and unwraps to
  \<^verbatim>\<open>Err\<close>.
\<close>

definition svc_error :: "string \<Rightarrow> string \<Rightarrow> error \<Rightarrow> error" where
  "svc_error op msg e = Wrapped (''message service '' @ op @ '': '' @ msg) e"

definition svc_fail :: "string \<Rightarrow> string \<Rightarrow> error \<Rightarrow> 'a dbm" where
  "svc_fail op msg e = fail (svc_error op msg e)"

definition svc_wrap :: "string \<Rightarrow> string \<Rightarrow> 'a dbm \<Rightarrow> 'a dbm" where
  "svc_wrap op msg m = wrap (''message service '' @ op @ '': '' @ msg) m"

text \<open>\<^verbatim>\<open>if id.IsEmpty() { return &MessageServiceError{op, msg, domain.ErrInvalidInput} }\<close>\<close>

definition require_id :: "string \<Rightarrow> string \<Rightarrow> ID \<Rightarrow> 'a dbm \<Rightarrow> 'a dbm" where
  "require_id op msg i m =
     (if ID_IsEmpty i then svc_fail op msg (Sentinel ErrInvalidInput) else m)"

section \<open>Storing\<close>

definition createAttachment ::
  "MessageService \<Rightarrow> instant \<Rightarrow> nat \<Rightarrow> ID \<Rightarrow> AttachmentData \<Rightarrow> Attachment" where
  "createAttachment s now k messageID data =
     (let sz = int (length (ad_Data data));
          a = (if ad_IsInline data
               then NewInlineAttachment now (svc_gen s k) messageID (ad_Filename data)
                      (ad_ContentType data) (ad_ContentID data) sz
               else NewAttachment now (svc_gen s k) messageID (ad_Filename data) (ad_ContentType data) sz)
      in a\<lparr>at_Checksum := svc_sha256 s (ad_Data data)\<rparr>)"

fun storeAttachments ::
  "MessageService \<Rightarrow> instant \<Rightarrow> nat \<Rightarrow> ID \<Rightarrow> AttachmentData list \<Rightarrow> Attachment list dbm" where
  "storeAttachments s now k messageID [] = ret []"
| "storeAttachments s now k messageID (data # rest) =
     (let a = createAttachment s now k messageID data
      in andThen (CreateWithContent (svc_backend s) a (ad_Data data))
           (\<lambda>_. andThen (storeAttachments s now (Suc k) messageID rest) (\<lambda>as. ret (a # as))))"

definition new_message :: "MessageService \<Rightarrow> instant \<Rightarrow> Mailbox \<Rightarrow> ParsedMessage \<Rightarrow> bytes \<Rightarrow> Message" where
  "new_message s now mailbox parsed rawData =
     (let m = (ToMessage now parsed (svc_gen s 0) (mb_ID mailbox))\<lparr>msg_RawBody := rawData\<rparr>
      in if length rawData > 0 then m\<lparr>msg_BlobID := svc_sha256 s rawData\<rparr> else m)"

definition storeMessageInTransaction ::
  "MessageService \<Rightarrow> instant \<Rightarrow> Mailbox \<Rightarrow> ParsedMessage \<Rightarrow> bytes \<Rightarrow> StoreMessageResult dbm" where
  "storeMessageInTransaction s now mailbox parsed rawData =
     (let m = new_message s now mailbox parsed rawData in
      andThen (IncrementMessageCount now (mb_ID mailbox) (msg_Size m) (msg_Status m = MessageUnread))
     (\<lambda>assignedUID. andThen (Create now (m\<lparr>msg_IMAPUID := assignedUID\<rparr>))
     (\<lambda>m. andThen (StoreRawBody now (svc_gen s 0) rawData)
     (\<lambda>_. andThen (storeAttachments s now 1 (svc_gen s 0) (pm_Attachments parsed))
     (\<lambda>as. ret \<lparr>smr_Message = m, smr_Attachments = as, smr_IsDuplicate = False, smr_DuplicateID = [],
                smr_Notice = None\<rparr>)))))"

text \<open>The first recipient with a matching mailbox; lookups that fail are passed over.\<close>

fun first_mailbox :: "EmailAddress list \<Rightarrow> Mailbox option dbm" where
  "first_mailbox [] = ret None"
| "first_mailbox (a # as) = (\<lambda>d. case FindMatchingMailbox (ea_Address a) d of
     (Inr b, d') \<Rightarrow> (Inr (Some b), d')
   | (Inl _, d') \<Rightarrow> first_mailbox as d')"

definition resolveMailbox :: "ID \<Rightarrow> ParsedMessage \<Rightarrow> Mailbox dbm" where
  "resolveMailbox target parsed =
     (if \<not> ID_IsEmpty target then
        (\<lambda>d. case mbx_GetByID target d of
           (Inr b, d') \<Rightarrow> (Inr b, d')
         | (Inl e, d') \<Rightarrow>
             if IsNotFound e
             then svc_fail ''resolve_mailbox'' ''target mailbox not found'' (NotFoundError ''mailbox'' target) d'
             else svc_fail ''resolve_mailbox'' ''failed to get target mailbox'' e d')
      else
        andThen (first_mailbox (pm_To parsed))
          (\<lambda>b. case b of Some b \<Rightarrow> ret b | None \<Rightarrow>
        andThen (first_mailbox (pm_Cc parsed))
          (\<lambda>b. case b of Some b \<Rightarrow> ret b | None \<Rightarrow>
        andThen (first_mailbox (pm_Bcc parsed))
          (\<lambda>b. case b of Some b \<Rightarrow> ret b | None \<Rightarrow>
        svc_fail ''resolve_mailbox'' ''no matching mailbox found for message recipients''
          (Sentinel ErrNotFound)))))"

text \<open>A nil input is \<open>None\<close>.\<close>

definition validateStoreInput :: "StoreMessageInput option \<Rightarrow> error option" where
  "validateStoreInput inp =
     (case inp of
        None \<Rightarrow> Some (svc_error ''validate'' ''input is required'' (Sentinel ErrInvalidInput))
      | Some inp \<Rightarrow>
          if length (smi_RawData inp) = 0
          then Some (svc_error ''validate'' ''raw message data is required'' (Sentinel ErrInvalidInput))
          else None)"

text \<open>The duplicate check: \<open>Some\<close> message when one with the Message-ID is stored already.\<close>

definition find_duplicate :: "StoreMessageInput \<Rightarrow> ParsedMessage \<Rightarrow> Message option dbm" where
  "find_duplicate inp parsed =
     (if \<not> smi_SkipDuplicateCheck inp \<and> pm_MessageID parsed \<noteq> [] then
        (\<lambda>d. case GetByMessageID (pm_MessageID parsed) d of
           (Inr m, d') \<Rightarrow> (Inr (Some m), d')
         | (Inl e, d') \<Rightarrow>
             if IsNotFound e then (Inr None, d')
             else svc_fail ''duplicate_check'' ''failed to check for duplicate message'' e d')
      else ret None)"

definition notify_stored :: "MessageService \<Rightarrow> StoreMessageResult \<Rightarrow> StoreMessageResult dbm" where
  "notify_stored s res =
     (if svc_notify s \<and> \<not> smr_IsDuplicate res then
        (\<lambda>d. case CountByMailbox (msg_MailboxID (smr_Message res)) d of
           (Inr count, d') \<Rightarrow>
             (Inr (res\<lparr>smr_Notice := Some
                \<lparr>nn_MailboxID = msg_MailboxID (smr_Message res), nn_UserID = [],
                 nn_MessageID = msg_ID (smr_Message res), nn_SeqNum = word_of_int count,
                 nn_UID = word_of_int count, nn_MessageCount = word_of_int count\<rparr>\<rparr>), d')
         | (Inl _, d') \<Rightarrow> (Inr res, d'))
      else ret res)"

definition StoreMessage ::
  "MessageService \<Rightarrow> instant \<Rightarrow> StoreMessageInput option \<Rightarrow> StoreMessageResult dbm" where
  "StoreMessage s now inp =
     (case validateStoreInput inp of Some e \<Rightarrow> fail e | None \<Rightarrow>
      let inp = the inp in
      case svc_parse s (smi_RawData inp) of
        Inl e \<Rightarrow> svc_fail ''parse'' ''failed to parse MIME message'' e
      | Inr parsed \<Rightarrow>
          andThen (find_duplicate inp parsed)
            (\<lambda>dup. case dup of
               Some m \<Rightarrow> ret \<lparr>smr_Message = m, smr_Attachments = [], smr_IsDuplicate = True,
                            smr_DuplicateID = msg_ID m, smr_Notice = None\<rparr>
             | None \<Rightarrow>
                 andThen (resolveMailbox (smi_TargetMailboxID inp) parsed)
                   (\<lambda>mailbox. andThen (svc_wrap ''store'' ''failed to store message''
                        (Transaction False (storeMessageInTransaction s now mailbox parsed (smi_RawData inp))))
                   (\<lambda>res. notify_stored s res))))"

section \<open>Reading, deleting, flagging and moving\<close>

definition GetMessage :: "ID \<Rightarrow> Message dbm" where
  "GetMessage i = require_id ''get'' ''message ID is required'' i
     (svc_wrap ''get'' ''failed to get message'' (GetByID i))"

text \<open>\<^verbatim>\<open>GetWithAttachments\<close> of the message repository.\<close>

definition GetWithAttachments :: "ID \<Rightarrow> (Message \<times> Attachment list) dbm" where
  "GetWithAttachments i =
     andThen (GetByID i) (\<lambda>m. andThen (ListByMessage i) (\<lambda>as. ret (m, as)))"

definition GetMessageWithAttachments :: "ID \<Rightarrow> (Message \<times> Attachment list) dbm" where
  "GetMessageWithAttachments i = require_id ''get_with_attachments'' ''message ID is required'' i
     (svc_wrap ''get_with_attachments'' ''failed to get message with attachments'' (GetWithAttachments i))"

definition GetRawMessage :: "ID \<Rightarrow> bytes dbm" where
  "GetRawMessage i = require_id ''get_raw'' ''message ID is required'' i
     (svc_wrap ''get_raw'' ''failed to get raw message body'' (GetRawBody i))"

definition DeleteMessage :: "instant \<Rightarrow> ID \<Rightarrow> unit dbm" where
  "DeleteMessage now i = require_id ''delete'' ''message ID is required'' i
     (andThen (svc_wrap ''delete'' ''failed to get message for deletion'' (GetByID i))
       (\<lambda>m. svc_wrap ''delete'' ''failed to delete message'' (Transaction False
          (andThen (DeleteByMessage i)
            (\<lambda>_. andThen (Delete now i)
            (\<lambda>_. DecrementMessageCount now (msg_MailboxID m) (msg_Size m) (msg_Status m = MessageUnread)))))))"

definition svc_MarkAsRead :: "instant \<Rightarrow> ID \<Rightarrow> unit dbm" where
  "svc_MarkAsRead now i = require_id ''mark_read'' ''message ID is required'' i
     (andThen (svc_wrap ''mark_read'' ''failed to get message'' (GetByID i))
       (\<lambda>m. svc_wrap ''mark_read'' ''failed to mark message as read'' (Transaction False
          (andThen (MarkAsRead now i)
            (\<lambda>changed. if changed then UpdateUnreadCount now (msg_MailboxID m) (- 1) else ret ())))))"

definition svc_MarkAsUnread :: "instant \<Rightarrow> ID \<Rightarrow> unit dbm" where
  "svc_MarkAsUnread now i = require_id ''mark_unread'' ''message ID is required'' i
     (andThen (svc_wrap ''mark_unread'' ''failed to get message'' (GetByID i))
       (\<lambda>m. svc_wrap ''mark_unread'' ''failed to mark message as unread'' (Transaction False
          (andThen (MarkAsUnread now i)
            (\<lambda>changed. if changed then UpdateUnreadCount now (msg_MailboxID m) 1 else ret ())))))"

definition MoveMessage :: "instant \<Rightarrow> ID \<Rightarrow> ID \<Rightarrow> unit dbm" where
  "MoveMessage now i target = require_id ''move'' ''message ID is required'' i
     (require_id ''move'' ''target mailbox ID is required'' target
       (andThen (svc_wrap ''move'' ''target mailbox not found'' (mbx_GetByID target))
         (\<lambda>_. andThen (svc_wrap ''move'' ''failed to get message'' (GetByID i))
         (\<lambda>m. if msg_MailboxID m = target then ret ()
              else svc_wrap ''move'' ''failed to move message''
                     (Transaction False (MoveToMailbox now i target))))))"

definition ListMessages ::
  "fts_index \<Rightarrow> MessageFilter option \<Rightarrow> ListOptions option \<Rightarrow> Message ListResult dbm" where
  "ListMessages fts flt opts = svc_wrap ''list'' ''failed to list messages'' (msg_List fts flt opts)"

definition ListMessagesByMailbox ::
  "fts_index \<Rightarrow> ID \<Rightarrow> ListOptions option \<Rightarrow> Message ListResult dbm" where
  "ListMessagesByMailbox fts mailboxID opts =
     require_id ''list_by_mailbox'' ''mailbox ID is required'' mailboxID
       (svc_wrap ''list_by_mailbox'' ''failed to list messages by mailbox'' (ListByMailbox fts mailboxID opts))"

definition svc_ExistsByMessageID :: "string \<Rightarrow> bool dbm" where
  "svc_ExistsByMessageID mid = require_id ''exists'' ''message ID header is required'' mid
     (svc_wrap ''exists'' ''failed to check message existence'' (ExistsByMessageID mid))"

section \<open>Methods that check ownership\<close>

definition verifyMessageAccess :: "Message \<Rightarrow> ID \<Rightarrow> unit dbm" where
  "verifyMessageAccess m userID =
     andThen (svc_wrap ''verify_access'' ''failed to get mailbox'' (mbx_GetByID (msg_MailboxID m)))
       (\<lambda>mailbox. if mb_UserID mailbox \<noteq> userID
          then svc_fail ''verify_access'' ''access denied to message'' (Sentinel ErrForbidden)
          else ret ())"

text \<open>
  The opening every \<^verbatim>\<open>...ForUser\<close> method on one message has: both IDs present, the message exists, and
  the user owns its mailbox; then the method's own part runs.
\<close>

definition for_user :: "string \<Rightarrow> ID \<Rightarrow> ID \<Rightarrow> (Message \<Rightarrow> 'a dbm) \<Rightarrow> 'a dbm" where
  "for_user op messageID userID body =
     require_id op ''message ID is required'' messageID
       (require_id op ''user ID is required'' userID
         (andThen (svc_wrap op ''failed to get message'' (GetByID messageID))
           (\<lambda>m. andThen (verifyMessageAccess m userID) (\<lambda>_. body m))))"

definition getUserMailboxIDs :: "ID \<Rightarrow> ID list dbm" where
  "getUserMailboxIDs userID =
     andThen (svc_wrap ''get_user_mailboxes'' ''failed to get user mailboxes'' (ListByUser userID None))
       (\<lambda>res. ret (map mb_ID (lr_Items res)))"

definition no_items :: "'a ListResult" where
  "no_items = \<lparr>lr_Items = [], lr_Total = 0, lr_HasMore = False, lr_Pagination = None\<rparr>"

text \<open>The restriction of a filter to the user's mailboxes that listing and searching share.\<close>

definition restrict_filter ::
  "string \<Rightarrow> ID list \<Rightarrow> MessageFilter option \<Rightarrow> (MessageFilter \<Rightarrow> 'a dbm) \<Rightarrow> 'a dbm" where
  "restrict_filter op mailboxIDs flt k =
     (let f = (case flt of None \<Rightarrow> emptyMessageFilter | Some f \<Rightarrow> f) in
      case sf_MailboxID f of
        Some i \<Rightarrow> if i \<in> set mailboxIDs then k f
                  else svc_fail op ''access denied to mailbox'' (Sentinel ErrForbidden)
      | None \<Rightarrow> k (f\<lparr>sf_MailboxIDs := mailboxIDs\<rparr>))"

definition ListMessagesForUser ::
  "fts_index \<Rightarrow> ID \<Rightarrow> MessageFilter option \<Rightarrow> ListOptions option \<Rightarrow> Message ListResult dbm" where
  "ListMessagesForUser fts userID flt opts =
     require_id ''list_for_user'' ''user ID is required'' userID
       (andThen (getUserMailboxIDs userID)
         (\<lambda>mailboxIDs. if length mailboxIDs = 0 then ret no_items
            else restrict_filter ''list_for_user'' mailboxIDs flt
              (\<lambda>f. svc_wrap ''list_for_user'' ''failed to list messages'' (msg_List fts (Some f) opts))))"

definition SearchMessagesForUser ::
  "fts_index \<Rightarrow> ID \<Rightarrow> string option \<Rightarrow> MessageFilter option \<Rightarrow> ListOptions option \<Rightarrow> Message ListResult dbm" where
  "SearchMessagesForUser fts userID searchOpts flt opts =
     require_id ''search_for_user'' ''user ID is required'' userID
       (andThen (getUserMailboxIDs userID)
         (\<lambda>mailboxIDs. if length mailboxIDs = 0 then ret no_items
            else restrict_filter ''search_for_user'' mailboxIDs flt
              (\<lambda>f. svc_wrap ''search_for_user'' ''failed to search messages''
                     (Search fts searchOpts (Some f) opts))))"

definition GetMessageForUser :: "ID \<Rightarrow> ID \<Rightarrow> Message dbm" where
  "GetMessageForUser messageID userID = for_user ''get_for_user'' messageID userID ret"

definition GetRawMessageForUser :: "ID \<Rightarrow> ID \<Rightarrow> bytes dbm" where
  "GetRawMessageForUser messageID userID = for_user ''get_raw_for_user'' messageID userID
     (\<lambda>_. svc_wrap ''get_raw_for_user'' ''failed to get raw message body'' (GetRawBody messageID))"

definition GetAttachmentsForUser :: "ID \<Rightarrow> ID \<Rightarrow> Attachment list dbm" where
  "GetAttachmentsForUser messageID userID = for_user ''get_attachments_for_user'' messageID userID
     (\<lambda>_. svc_wrap ''get_attachments_for_user'' ''failed to get attachments'' (ListByMessage messageID))"

definition GetAttachmentForUser :: "ID \<Rightarrow> ID \<Rightarrow> ID \<Rightarrow> Attachment dbm" where
  "GetAttachmentForUser messageID attachmentID userID =
     (let op = ''get_attachment_for_user'' in
      require_id op ''message ID is required'' messageID
        (require_id op ''attachment ID is required'' attachmentID
          (for_user op messageID userID
            (\<lambda>_. andThen (svc_wrap op ''failed to get attachment'' (att_GetByID attachmentID))
               (\<lambda>a. if at_MessageID a \<noteq> messageID
                    then svc_fail op ''attachment does not belong to this message'' (Sentinel ErrNotFound)
                    else ret a)))))"

definition GetAttachmentContentForUser ::
  "storage_backend option \<Rightarrow> ID \<Rightarrow> ID \<Rightarrow> ID \<Rightarrow> (Attachment \<times> bytes) dbm" where
  "GetAttachmentContentForUser backend messageID attachmentID userID =
     andThen (GetAttachmentForUser messageID attachmentID userID)
       (\<lambda>a. andThen (svc_wrap ''get_attachment_content_for_user'' ''failed to get attachment content''
                (GetContent backend attachmentID))
          (\<lambda>content. ret (a, content)))"

definition DeleteMessageForUser :: "instant \<Rightarrow> ID \<Rightarrow> ID \<Rightarrow> unit dbm" where
  "DeleteMessageForUser now messageID userID =
     for_user ''delete_for_user'' messageID userID (\<lambda>_. DeleteMessage now messageID)"

definition MarkAsReadForUser :: "instant \<Rightarrow> ID \<Rightarrow> ID \<Rightarrow> unit dbm" where
  "MarkAsReadForUser now messageID userID =
     for_user ''mark_read_for_user'' messageID userID (\<lambda>_. svc_MarkAsRead now messageID)"

definition MarkAsUnreadForUser :: "instant \<Rightarrow> ID \<Rightarrow> ID \<Rightarrow> unit dbm" where
  "MarkAsUnreadForUser now messageID userID =
     for_user ''mark_unread_for_user'' messageID userID (\<lambda>_. svc_MarkAsUnread now messageID)"

definition StarForUser :: "instant \<Rightarrow> ID \<Rightarrow> ID \<Rightarrow> unit dbm" where
  "StarForUser now messageID userID = for_user ''star_for_user'' messageID userID
     (\<lambda>_. svc_wrap ''star_for_user'' ''failed to star message'' (Star now messageID))"

definition UnstarForUser :: "instant \<Rightarrow> ID \<Rightarrow> ID \<Rightarrow> unit dbm" where
  "UnstarForUser now messageID userID = for_user ''unstar_for_user'' messageID userID
     (\<lambda>_. svc_wrap ''unstar_for_user'' ''failed to unstar message'' (Unstar now messageID))"

definition MarkAsSpamForUser :: "instant \<Rightarrow> ID \<Rightarrow> ID \<Rightarrow> unit dbm" where
  "MarkAsSpamForUser now messageID userID = for_user ''mark_spam_for_user'' messageID userID
     (\<lambda>_. svc_wrap ''mark_spam_for_user'' ''failed to mark message as spam'' (MarkAsSpam now messageID))"

definition MarkAsNotSpamForUser :: "instant \<Rightarrow> ID \<Rightarrow> ID \<Rightarrow> unit dbm" where
  "MarkAsNotSpamForUser now messageID userID = for_user ''mark_not_spam_for_user'' messageID userID
     (\<lambda>_. svc_wrap ''mark_not_spam_for_user'' ''failed to mark message as not spam'' (MarkAsNotSpam now messageID))"

text \<open>Access to the target mailbox of a move.\<close>

definition verify_target :: "string \<Rightarrow> ID \<Rightarrow> ID \<Rightarrow> unit dbm" where
  "verify_target op target userID =
     andThen (svc_wrap op ''failed to get target mailbox'' (mbx_GetByID target))
       (\<lambda>b. if mb_UserID b \<noteq> userID
            then svc_fail op ''access denied to target mailbox'' (Sentinel ErrForbidden) else ret ())"

definition MoveMessageForUser :: "instant \<Rightarrow> ID \<Rightarrow> ID \<Rightarrow> ID \<Rightarrow> unit dbm" where
  "MoveMessageForUser now messageID target userID =
     (let op = ''move_for_user'' in
      require_id op ''message ID is required'' messageID
        (require_id op ''target mailbox ID is required'' target
          (for_user op messageID userID
            (\<lambda>_. andThen (verify_target op target userID) (\<lambda>_. MoveMessage now messageID target)))))"

definition bulk_for_user :: "string \<Rightarrow> (ID \<Rightarrow> ID \<Rightarrow> unit dbm) \<Rightarrow> ID list \<Rightarrow> ID \<Rightarrow> BulkOperation dbm" where
  "bulk_for_user op m messageIDs userID =
     require_id op ''user ID is required'' userID (bulk (\<lambda>i. m i userID) messageIDs NewBulkOperation)"

definition BulkMarkAsReadForUser :: "instant \<Rightarrow> ID list \<Rightarrow> ID \<Rightarrow> BulkOperation dbm" where
  "BulkMarkAsReadForUser now = bulk_for_user ''bulk_mark_read_for_user'' (MarkAsReadForUser now)"

definition BulkMarkAsUnreadForUser :: "instant \<Rightarrow> ID list \<Rightarrow> ID \<Rightarrow> BulkOperation dbm" where
  "BulkMarkAsUnreadForUser now = bulk_for_user ''bulk_mark_unread_for_user'' (MarkAsUnreadForUser now)"

definition BulkDeleteForUser :: "instant \<Rightarrow> ID list \<Rightarrow> ID \<Rightarrow> BulkOperation dbm" where
  "BulkDeleteForUser now = bulk_for_user ''bulk_delete_for_user'' (DeleteMessageForUser now)"

definition BulkMoveForUser :: "instant \<Rightarrow> ID list \<Rightarrow> ID \<Rightarrow> ID \<Rightarrow> BulkOperation dbm" where
  "BulkMoveForUser now messageIDs target userID =
     (let op = ''bulk_move_for_user'' in
      require_id op ''user ID is required'' userID
        (require_id op ''target mailbox ID is required'' target
          (andThen (verify_target op target userID)
            (\<lambda>_. bulk (\<lambda>i. MoveMessageForUser now i target userID) messageIDs NewBulkOperation))))"

definition BulkStarForUser :: "instant \<Rightarrow> ID list \<Rightarrow> ID \<Rightarrow> BulkOperation dbm" where
  "BulkStarForUser now = bulk_for_user ''bulk_star_for_user'' (StarForUser now)"

definition BulkUnstarForUser :: "instant \<Rightarrow> ID list \<Rightarrow> ID \<Rightarrow> BulkOperation dbm" where
  "BulkUnstarForUser now = bulk_for_user ''bulk_unstar_for_user'' (UnstarForUser now)"

definition ListAttachmentsForUser ::
  "fts_index \<Rightarrow> ID \<Rightarrow> AttachmentFilter option \<Rightarrow> ListOptions option \<Rightarrow> Attachment ListResult dbm" where
  "ListAttachmentsForUser fts userID flt opts =
     (let op = ''list_attachments_for_user'';
          list = (\<lambda>f. svc_wrap op ''failed to list attachments'' (att_List f opts)) in
      require_id op ''user ID is required'' userID
        (andThen (getUserMailboxIDs userID)
          (\<lambda>mailboxIDs. if length mailboxIDs = 0 then ret no_items
             else case Option.bind flt af_MessageID of
               Some i \<Rightarrow>
                 andThen (svc_wrap op ''failed to get message'' (GetByID i))
                   (\<lambda>m. andThen (verifyMessageAccess m userID) (\<lambda>_. list flt))
             | None \<Rightarrow>
                 andThen (svc_wrap op ''failed to get messages''
                     (msg_List fts (Some (emptyMessageFilter\<lparr>sf_MailboxIDs := mailboxIDs\<rparr>)) None))
                   (\<lambda>messages. if length (lr_Items messages) = 0 then ret no_items
                      else let f = (case flt of None \<Rightarrow> emptyAttachmentFilter | Some f \<Rightarrow> f)
                           in list (Some (f\<lparr>af_MessageIDs := map msg_ID (lr_Items messages)\<rparr>))))))"

definition GetAttachmentByIDForUser :: "ID \<Rightarrow> ID \<Rightarrow> Attachment dbm" where
  "GetAttachmentByIDForUser attachmentID userID =
     (let op = ''get_attachment_by_id_for_user'' in
      require_id op ''attachment ID is required'' attachmentID
        (require_id op ''user ID is required'' userID
          (andThen (svc_wrap op ''failed to get attachment'' (att_GetByID attachmentID))
            (\<lambda>a. andThen (svc_wrap op ''failed to get message'' (GetByID (at_MessageID a)))
            (\<lambda>m. andThen (verifyMessageAccess m userID) (\<lambda>_. ret a))))))"

definition GetAttachmentContentByIDForUser ::
  "storage_backend option \<Rightarrow> ID \<Rightarrow> ID \<Rightarrow> (Attachment \<times> bytes) dbm" where
  "GetAttachmentContentByIDForUser backend attachmentID userID =
     andThen (GetAttachmentByIDForUser attachmentID userID)
       (\<lambda>a. andThen (svc_wrap ''get_attachment_content_by_id_for_user'' ''failed to get attachment content''
                (GetContent backend attachmentID))
          (\<lambda>content. ret (a, content)))"

end
