(* ===== verification/Message_Access.thy ===== *)
theory Message_Access
  imports Message_Service
begin

text \<open>
  Access control of the message service. A call made for a user is denied on messages of other users,
  and whatever it does, the rows of the other users stay as they are. The interface is the locale
  \<open>user_scoped\<close>, which every single-message operation implements and on which the bulk operations rest.
\<close>

section \<open>What belongs to a user\<close>

definition owned_boxes :: "ID \<Rightarrow> db \<Rightarrow> ID set" where
  "owned_boxes u d = mr_id ` set (filter (\<lambda>b. mr_user_id b = u) (db_mailboxes d))"

definition owned_msgs :: "ID \<Rightarrow> db \<Rightarrow> ID set" where
  "owned_msgs u d = r_id ` set (filter (\<lambda>r. r_mailbox_id r \<in> owned_boxes u d) (db_messages d))"

text \<open>Everything in the database that is not the user's: mailboxes, messages, recipients and attachments.\<close>

definition others ::
  "ID \<Rightarrow> db \<Rightarrow> mailboxRow list \<times> messageRow list \<times> recipientRow list \<times> attachmentRow list" where
  "others u d =
     (filter (\<lambda>b. mr_user_id b \<noteq> u) (db_mailboxes d),
      filter (\<lambda>r. r_mailbox_id r \<notin> owned_boxes u d) (db_messages d),
      filter (\<lambda>q. rr_message_id q \<notin> owned_msgs u d) (db_recipients d),
      filter (\<lambda>a. ar_message_id a \<notin> owned_msgs u d) (db_attachments d))"

section \<open>Calls that stay within the user's rows\<close>

text \<open>
  \<open>frame u i base d\<close>: \<open>d\<close> arose from \<open>base\<close> without touching foreign rows, the user's mailboxes are the same,
  and message \<open>i\<close>, if it still exists, is the user's.
\<close>

definition frame :: "ID \<Rightarrow> ID \<Rightarrow> db \<Rightarrow> db \<Rightarrow> bool" where
  "frame u i base d \<longleftrightarrow> schema_ok d \<and> others u d = others u base \<and>
     owned_boxes u d = owned_boxes u base \<and>
     (\<forall>r \<in> set (db_messages d). r_id r = i \<longrightarrow> r_mailbox_id r \<in> owned_boxes u base)"

definition framed :: "ID \<Rightarrow> ID \<Rightarrow> db \<Rightarrow> 'a dbm \<Rightarrow> bool" where
  "framed u i base m \<longleftrightarrow> (\<forall>d. frame u i base d \<longrightarrow> frame u i base (snd (m d)))"

named_theorems framed_intros \<open>calls that stay within the frame\<close>

lemma framed_ret [framed_intros]: "framed u i base (ret x)"
  by (simp add: framed_def)

lemma framed_fail [framed_intros]: "framed u i base (fail e)"
  by (simp add: framed_def)

lemma framed_query [framed_intros]: "framed u i base (query q)"
  by (simp add: framed_def)

lemma framed_wrap [framed_intros]: "framed u i base m \<Longrightarrow> framed u i base (wrap msg m)"
  by (simp add: framed_def)

lemma framed_andThen [framed_intros]:
  assumes "framed u i base m" and "\<And>x. framed u i base (f x)"
  shows "framed u i base (andThen m f)"
  using assms by (auto simp: framed_def snd_andThen split: prod.splits sum.splits)

lemma framed_expect_rows [framed_intros]: "framed u i base m \<Longrightarrow> framed u i base (expect_rows e m)"
  by (simp add: framed_def)

lemma framed_if [framed_intros]:
  "framed u i base m \<Longrightarrow> framed u i base n \<Longrightarrow> framed u i base (if c then m else n)"
  by simp

lemma framed_option [framed_intros]:
  "framed u i base m \<Longrightarrow> (\<And>x. framed u i base (f x)) \<Longrightarrow> framed u i base (case v of None \<Rightarrow> m | Some x \<Rightarrow> f x)"
  by (cases v) simp_all

lemma framed_let [framed_intros]: "framed u i base (f x) \<Longrightarrow> framed u i base (let y = x in f y)"
  by simp

lemma framed_Transaction [framed_intros]:
  "framed u i base m \<Longrightarrow> framed u i base (Transaction isTx m)"
  unfolding framed_def Transaction_def by (auto split: prod.splits sum.splits)

lemma framed_svc [framed_intros]:
  "framed u i base m \<Longrightarrow> framed u i base (svc_wrap op msg m)"
  "framed u i base (svc_fail op msg e)"
  "framed u i base m \<Longrightarrow> framed u i base (require_id op msg j m)"
  by (simp_all add: svc_wrap_def svc_fail_def require_id_def framed_intros)

text \<open>Reading message \<open>i\<close> tells that its mailbox is the user's.\<close>

lemma GetByID_cases:
  "GetByID i d = (Inl (NotFoundError ''message'' i), d) \<or>
   (\<exists>r \<in> set (db_messages d). r_id r = i \<and> GetByID i d = (Inr (load d r), d))"
  by (cases "find (\<lambda>r. r_id r = i) (db_messages d)")
    (auto simp: GetByID_def get_message_def dest: find_SomeD)

lemma framed_GetByID:
  assumes "\<And>m. msg_MailboxID m \<in> owned_boxes u base \<Longrightarrow> framed u i base (f m)"
  shows "framed u i base (andThen (GetByID i) f)"
  unfolding framed_def
proof (intro allI impI)
  fix d assume d: "frame u i base d"
  from GetByID_cases [of i d] show "frame u i base (snd (andThen (GetByID i) f d))"
  proof
    assume "GetByID i d = (Inl (NotFoundError ''message'' i), d)"
    then show ?thesis using d by (simp add: andThen_def)
  next
    assume "\<exists>r \<in> set (db_messages d). r_id r = i \<and> GetByID i d = (Inr (load d r), d)"
    then obtain r where "r \<in> set (db_messages d)" "r_id r = i" "GetByID i d = (Inr (load d r), d)" by blast
    then show ?thesis
      using assms [of "load d r"] d by (auto simp: andThen_def frame_def framed_def)
  qed
qed

lemma framed_svc_GetByID:
  assumes "\<And>m. msg_MailboxID m \<in> owned_boxes u base \<Longrightarrow> framed u i base (f m)"
  shows "framed u i base (andThen (svc_wrap op msg (GetByID i)) f)"
proof -
  have "snd (andThen (svc_wrap op msg (GetByID i)) f d) = snd (andThen (GetByID i) f d)" for d
    using GetByID_cases [of i d] by (auto simp: andThen_def svc_wrap_def wrap_def)
  then show ?thesis
    using framed_GetByID [OF assms] by (simp add: framed_def)
qed

section \<open>Statements within the frame\<close>

lemma filter_update_outside:
  assumes "\<And>r. r \<in> set rs \<Longrightarrow> P r \<Longrightarrow> \<not> Q r \<and> \<not> Q (f r)"
  shows "filter Q (update_where P f rs) = filter Q rs"
  using assms by (induction rs) auto

lemma map_filter_update_outside:
  assumes "\<And>r. k (f r) = k r" and "\<And>r. Q (f r) = Q r"
  shows "map k (filter Q (update_where P f rs)) = map k (filter Q rs)"
  using assms by (induction rs) auto

lemma framed_stmt:
  assumes "\<And>d. frame u i base d \<Longrightarrow> schema_ok (f d) \<Longrightarrow> frame u i base (f d)"
  shows "framed u i base (stmt f n)"
  using assms by (simp add: framed_def stmt_def)

lemma owned_boxes_messages [simp]:
  "owned_boxes u (d\<lparr>db_messages := ms\<rparr>) = owned_boxes u d"
  "owned_boxes u (d\<lparr>db_attachments := as\<rparr>) = owned_boxes u d"
  "owned_boxes u (d\<lparr>db_recipients := qs\<rparr>) = owned_boxes u d"
  by (simp_all add: owned_boxes_def)

text \<open>Updating the counters of one of the user's mailboxes.\<close>

lemma framed_update_mailboxes:
  assumes "j \<in> owned_boxes u base" and "\<And>r. mr_id (f r) = mr_id r" and "\<And>r. mr_user_id (f r) = mr_user_id r"
  shows "framed u i base (update_mailboxes (\<lambda>r. mr_id r = j) f)"
  unfolding update_mailboxes_def
proof (rule framed_stmt)
  fix d assume d: "frame u i base d"
  let ?bs = "update_where (\<lambda>r. mr_id r = j) f (db_mailboxes d)" let ?d = "d\<lparr>db_mailboxes := ?bs\<rparr>"
  assume ok: "schema_ok ?d"
  have mine: "mr_user_id b = u" if "b \<in> set (db_mailboxes d)" "mr_id b = j" for b
  proof -
    have "j \<in> owned_boxes u d" using assms(1) d by (simp add: frame_def)
    then obtain c where "c \<in> set (db_mailboxes d)" "mr_user_id c = u" "mr_id c = j"
      by (auto simp: owned_boxes_def)
    moreover from this that have "b = c"
      using d find_mailbox_iff [of d j] by (metis frame_def option.inject)
    ultimately show ?thesis by simp
  qed
  have "map mr_id (filter (\<lambda>b. mr_user_id b = u) ?bs) = map mr_id (filter (\<lambda>b. mr_user_id b = u) (db_mailboxes d))"
    by (rule map_filter_update_outside) (simp_all add: assms(2,3))
  from arg_cong [OF this, of set] have boxes: "owned_boxes u ?d = owned_boxes u d"
    by (simp add: owned_boxes_def)
  then have "owned_msgs u ?d = owned_msgs u d"
    by (simp add: owned_msgs_def)
  moreover have "filter (\<lambda>b. mr_user_id b \<noteq> u) ?bs = filter (\<lambda>b. mr_user_id b \<noteq> u) (db_mailboxes d)"
    using mine assms(3) by (intro filter_update_outside) auto
  ultimately have "others u ?d = others u d"
    using boxes by (simp add: others_def)
  then show "frame u i base ?d"
    using d ok boxes by (simp add: frame_def)
qed

lemma owned_msgs_cong:
  assumes "owned_boxes u d' = owned_boxes u d" and "owned_msgs u d' = owned_msgs u d"
    and "db_mailboxes d' = db_mailboxes d"
    and "filter (\<lambda>r. r_mailbox_id r \<notin> owned_boxes u d) (db_messages d') =
         filter (\<lambda>r. r_mailbox_id r \<notin> owned_boxes u d) (db_messages d)"
    and "db_recipients d' = db_recipients d" and "db_attachments d' = db_attachments d"
  shows "others u d' = others u d"
  using assms by (simp add: others_def)

text \<open>Updating message \<open>i\<close>, also moving it between the user's mailboxes.\<close>

lemma framed_update_messages:
  assumes "\<And>r. r_id (f r) = r_id r"
    and "\<And>r. r_mailbox_id (f r) = r_mailbox_id r \<or> r_mailbox_id (f r) \<in> owned_boxes u base"
  shows "framed u i base (update_messages (\<lambda>r. r_id r = i) f)"
  unfolding update_messages_def
proof (rule framed_stmt)
  fix d assume d: "frame u i base d"
  let ?P = "\<lambda>r. r_id r = i" let ?ms = "update_where ?P f (db_messages d)" let ?d = "d\<lparr>db_messages := ?ms\<rparr>"
  assume ok: "schema_ok ?d"
  have boxes: "owned_boxes u d = owned_boxes u base" using d by (simp add: frame_def)
  have mine: "r_mailbox_id r \<in> owned_boxes u d \<and> r_mailbox_id (f r) \<in> owned_boxes u d"
    if "r \<in> set (db_messages d)" "r_id r = i" for r
    using d that assms(2) [of r] boxes by (auto simp: frame_def)
  have "r_id ` {r \<in> set ?ms. r_mailbox_id r \<in> owned_boxes u d} = r_id ` {r \<in> set (db_messages d). r_mailbox_id r \<in> owned_boxes u d}"
    (is "?L = ?R")
  proof
    show "?L \<subseteq> ?R" using mine assms(1) by (auto simp: set_update_where split: if_splits)
    show "?R \<subseteq> ?L"
    proof
      fix x assume "x \<in> ?R"
      then obtain r where "r \<in> set (db_messages d)" "r_mailbox_id r \<in> owned_boxes u d" "x = r_id r" by auto
      then show "x \<in> ?L" using mine assms(1)
        by (intro image_eqI [of _ _ "if ?P r then f r else r"]) (auto simp: set_update_where)
    qed
  qed
  then have "owned_msgs u ?d = owned_msgs u d"
    by (simp add: owned_msgs_def)
  moreover have "filter (\<lambda>r. r_mailbox_id r \<notin> owned_boxes u d) ?ms =
      filter (\<lambda>r. r_mailbox_id r \<notin> owned_boxes u d) (db_messages d)"
    using mine by (intro filter_update_outside) auto
  ultimately have "others u ?d = others u d"
    by (intro owned_msgs_cong) simp_all
  moreover have "r_mailbox_id r \<in> owned_boxes u base" if "r \<in> set ?ms" "r_id r = i" for r
    using that mine assms(1) boxes by (auto simp: set_update_where split: if_splits)
  ultimately show "frame u i base ?d"
    using d ok boxes by (auto simp: frame_def)
qed

lemma filter_filter_key:
  assumes "\<And>x. x \<in> set xs \<Longrightarrow> k x \<in> A" and "\<And>j. j \<in> A \<Longrightarrow> (P j \<and> R j) = Q j"
  shows "filter (\<lambda>x. P (k x)) (filter (\<lambda>x. R (k x)) xs) = filter (\<lambda>x. Q (k x)) xs"
  using assms by (auto intro!: filter_cong)

lemma framed_delete_messages [framed_intros]: "framed u i base (delete_messages (\<lambda>r. r_id r = i))"
  unfolding delete_messages_def
proof (rule framed_stmt)
  fix d assume d: "frame u i base d"
  let ?ms = "filter (\<lambda>r. r_id r \<noteq> i) (db_messages d)"
  let ?d = "cascade_children (d\<lparr>db_messages := ?ms\<rparr>)"
  assume ok: "schema_ok ?d"
  have boxes: "owned_boxes u ?d = owned_boxes u d"
    by (simp add: owned_boxes_def cascade_children_def)
  have msgs: "owned_msgs u ?d = owned_msgs u d - {i}"
    unfolding owned_msgs_def boxes by (auto simp: cascade_children_def)
  have mine: "i \<in> owned_msgs u d" if "i \<in> r_id ` set (db_messages d)"
    using that d by (auto simp: frame_def owned_msgs_def)
  have keep: "(j \<notin> owned_msgs u d - {i} \<and> j \<in> r_id ` set ?ms) = (j \<notin> owned_msgs u d)"
    if "j \<in> r_id ` set (db_messages d)" for j
    using that mine by (cases "j = i") auto
  have "filter (\<lambda>q. rr_message_id q \<notin> owned_msgs u ?d) (db_recipients ?d) =
      filter (\<lambda>q. rr_message_id q \<notin> owned_msgs u d) (db_recipients d)"
    using filter_filter_key [of "db_recipients d" rr_message_id "r_id ` set (db_messages d)", OF _ keep] d
    by (simp add: msgs frame_def schema_defs list_all_iff) (simp add: cascade_children_def)
  moreover have "filter (\<lambda>q. ar_message_id q \<notin> owned_msgs u ?d) (db_attachments ?d) =
      filter (\<lambda>q. ar_message_id q \<notin> owned_msgs u d) (db_attachments d)"
    using filter_filter_key [of "db_attachments d" ar_message_id "r_id ` set (db_messages d)", OF _ keep] d
    by (simp add: msgs frame_def schema_defs list_all_iff) (simp add: cascade_children_def)
  moreover have "filter (\<lambda>r. r_mailbox_id r \<notin> owned_boxes u d) ?ms =
      filter (\<lambda>r. r_mailbox_id r \<notin> owned_boxes u d) (db_messages d)"
    using d by (auto simp: frame_def intro!: filter_cong)
  ultimately have "others u ?d = others u d"
    by (simp add: others_def boxes) (simp add: cascade_children_def)
  then show "frame u i base ?d"
    using d ok boxes by (auto simp: frame_def cascade_children_def)
qed

text \<open>Statements on the attachments of message \<open>i\<close>.\<close>

lemma framed_attachments:
  assumes "\<And>d. f d = d\<lparr>db_attachments := g (db_attachments d)\<rparr>"
    and "\<And>Q as. (\<And>a. ar_message_id a = i \<Longrightarrow> \<not> Q a) \<Longrightarrow> filter Q (g as) = filter Q as"
    and "\<And>d. i \<notin> r_id ` set (db_messages d) \<Longrightarrow> schema_ok d \<Longrightarrow> g (db_attachments d) = db_attachments d"
  shows "framed u i base (stmt f n)"
proof (rule framed_stmt)
  fix d assume d: "frame u i base d" and ok: "schema_ok (f d)"
  have "owned_msgs u (f d) = owned_msgs u d" by (simp add: assms(1) owned_msgs_def)
  moreover have "filter (\<lambda>a. ar_message_id a \<notin> owned_msgs u d) (g (db_attachments d)) =
      filter (\<lambda>a. ar_message_id a \<notin> owned_msgs u d) (db_attachments d)"
  proof (cases "i \<in> r_id ` set (db_messages d)")
    case True
    then have "i \<in> owned_msgs u d" using d by (auto simp: frame_def owned_msgs_def)
    then show ?thesis by (intro assms(2)) simp
  next
    case False
    then show ?thesis using assms(3) d by (simp add: frame_def)
  qed
  ultimately have "others u (f d) = others u d"
    by (simp add: assms(1) others_def)
  then show "frame u i base (f d)"
    using d ok by (simp add: frame_def assms(1))
qed

lemma no_attachments_of_missing:
  "i \<notin> r_id ` set (db_messages d) \<Longrightarrow> schema_ok d \<Longrightarrow> a \<in> set (db_attachments d) \<Longrightarrow> ar_message_id a \<noteq> i"
  by (auto simp: schema_defs list_all_iff)

lemma framed_update_attachments [framed_intros]:
  assumes "\<And>a. ar_message_id (f a) = ar_message_id a"
  shows "framed u i base (update_attachments (\<lambda>a. ar_message_id a = i) f)"
  unfolding update_attachments_def
  by (rule framed_attachments [where g = "update_where (\<lambda>a. ar_message_id a = i) f"])
    (auto simp: assms intro!: filter_update_outside update_where_id dest: no_attachments_of_missing)

lemma framed_delete_attachments [framed_intros]:
  "framed u i base (delete_attachments (\<lambda>a. ar_message_id a = i))"
  unfolding delete_attachments_def
  by (rule framed_attachments [where g = "filter (\<lambda>a. ar_message_id a \<noteq> i)"])
    (auto intro!: filter_cong filter_True dest: no_attachments_of_missing)

section \<open>Repository and service calls within the frame\<close>

lemma framed_counters [framed_intros]:
  assumes "j \<in> owned_boxes u base"
  shows "framed u i base (DecrementMessageCount now j sz b)"
    and "framed u i base (IncrementMessageCount now j sz b)"
    and "framed u i base (UpdateUnreadCount now j delta)"
  unfolding DecrementMessageCount_def IncrementMessageCount_def UpdateUnreadCount_def
  by (intro framed_intros framed_update_mailboxes assms; simp add: bump_row_def drop_row_def)+

lemma framed_set_flag [framed_intros]:
  assumes "\<And>r. r_id (f r) = r_id r" and "\<And>r. r_mailbox_id (f r) = r_mailbox_id r"
  shows "framed u i base (set_flag msg f now i)"
  unfolding set_flag_def by (intro framed_intros framed_update_messages; simp add: assms)

lemma framed_flags [framed_intros]:
  "framed u i base (Star now i)" "framed u i base (Unstar now i)"
  "framed u i base (MarkAsSpam now i)" "framed u i base (MarkAsNotSpam now i)"
  "framed u i base (MarkAsRead now i)" "framed u i base (MarkAsUnread now i)"
  unfolding Star_def Unstar_def MarkAsSpam_def MarkAsNotSpam_def MarkAsRead_def MarkAsUnread_def
  by (intro framed_intros framed_GetByID framed_update_messages; simp)+

lemma framed_Delete [framed_intros]:
  "framed u i base (DeleteByMessage i)" "framed u i base (Delete now i)"
  unfolding DeleteByMessage_def delete_content_def Delete_def
  by (intro framed_intros framed_GetByID; simp)+

lemma framed_Move:
  assumes "target \<in> owned_boxes u base"
  shows "framed u i base (MoveToMailbox now i target)"
  unfolding MoveToMailbox_def mbx_Exists_def Let_def
  by (intro framed_intros framed_GetByID framed_update_messages assms; simp add: assms)

lemma framed_services [framed_intros]:
  "framed u i base (DeleteMessage now i)"
  "framed u i base (svc_MarkAsRead now i)" "framed u i base (svc_MarkAsUnread now i)"
  unfolding DeleteMessage_def svc_MarkAsRead_def svc_MarkAsUnread_def
  by (intro framed_intros framed_svc_GetByID; assumption)+

lemma framed_get_mailbox [framed_intros]: "framed u i base (mbx_GetByID j)"
  unfolding mbx_GetByID_def get_mailbox_def by (intro framed_intros)

lemma framed_MoveMessage:
  assumes "target \<in> owned_boxes u base"
  shows "framed u i base (MoveMessage now i target)"
  unfolding MoveMessage_def by (intro framed_intros framed_svc_GetByID framed_Move assms)

section \<open>The ownership check\<close>

lemma mbx_GetByID_cases:
  "(\<exists>e. mbx_GetByID j d = (Inl e, d)) \<or>
   (\<exists>b \<in> set (db_mailboxes d). mr_id b = j \<and> mbx_GetByID j d = (Inr (toMailbox b), d))"
  by (cases "find (\<lambda>r. mr_id r = j) (db_mailboxes d)")
    (auto simp: mbx_GetByID_def get_mailbox_def dest: find_SomeD)

lemma mb_UserID_toMailbox [simp]: "mb_UserID (toMailbox b) = mr_user_id b"
  by (simp add: toMailbox_def)

lemma verifyMessageAccess_cases:
  "(\<exists>e. verifyMessageAccess m u d = (Inl e, d)) \<or>
   msg_MailboxID m \<in> owned_boxes u d \<and> verifyMessageAccess m u d = (Inr (), d)"
  using mbx_GetByID_cases [of "msg_MailboxID m" d]
proof (elim disjE exE bexE conjE)
  fix b assume "b \<in> set (db_mailboxes d)" "mr_id b = msg_MailboxID m"
    "mbx_GetByID (msg_MailboxID m) d = (Inr (toMailbox b), d)"
  then show ?thesis
    by (cases "mr_user_id b = u")
      (force simp: verifyMessageAccess_def andThen_def svc_wrap_def wrap_def svc_fail_def owned_boxes_def)+
qed (simp add: verifyMessageAccess_def andThen_def svc_wrap_def wrap_def)

text \<open>Either the call is refused and changes nothing, or the user owns the message and the body runs.\<close>

lemma for_user_cases:
  "(\<exists>e. for_user op i u body d = (Inl e, d)) \<or>
   (\<exists>r \<in> set (db_messages d). r_id r = i \<and> r_mailbox_id r \<in> owned_boxes u d \<and>
      for_user op i u body d = body (load d r) d)"
proof (cases "ID_IsEmpty i \<or> ID_IsEmpty u")
  case True
  then show ?thesis by (auto simp: for_user_def require_id_def svc_fail_def)
next
  case False
  from GetByID_cases [of i d] show ?thesis
  proof
    assume "GetByID i d = (Inl (NotFoundError ''message'' i), d)"
    with False show ?thesis by (simp add: for_user_def require_id_def andThen_def svc_wrap_def wrap_def)
  next
    assume "\<exists>r \<in> set (db_messages d). r_id r = i \<and> GetByID i d = (Inr (load d r), d)"
    then obtain r where r: "r \<in> set (db_messages d)" "r_id r = i" "GetByID i d = (Inr (load d r), d)" by blast
    then have run: "for_user op i u body d = andThen (verifyMessageAccess (load d r) u) (\<lambda>_. body (load d r)) d"
      using False by (simp add: for_user_def require_id_def andThen_def svc_wrap_def wrap_def)
    from verifyMessageAccess_cases [of "load d r" u d] show ?thesis
      unfolding run using r by (auto simp: andThen_def)
  qed
qed

lemma frame_self:
  assumes "schema_ok d" and "r \<in> set (db_messages d)" and "r_mailbox_id r \<in> owned_boxes u d"
  shows "frame u (r_id r) d d"
  unfolding frame_def using assms find_message_iff [OF assms(1), of "r_id r"] by (auto) (metis option.inject)

lemma for_user_scoped:
  assumes "schema_ok d" and "\<And>m. framed u i d (body m)"
  shows "schema_ok (snd (for_user op i u body d)) \<and> others u (snd (for_user op i u body d)) = others u d"
  using for_user_cases [of op i u body d]
proof
  assume "\<exists>r \<in> set (db_messages d). r_id r = i \<and> r_mailbox_id r \<in> owned_boxes u d \<and>
      for_user op i u body d = body (load d r) d"
  then obtain r where r: "r \<in> set (db_messages d)" "r_id r = i" "r_mailbox_id r \<in> owned_boxes u d"
    "for_user op i u body d = body (load d r) d" by blast
  then have "frame u i d (snd (body (load d r) d))"
    using frame_self [OF assms(1) r(1,3)] assms(2) by (simp add: framed_def)
  then show ?thesis by (simp add: r(4) frame_def)
qed (use assms(1) in auto)

lemma for_user_denied: "i \<notin> owned_msgs u d \<Longrightarrow> \<exists>e. for_user op i u body d = (Inl e, d)"
  using for_user_cases [of op i u body d] by (auto simp: owned_msgs_def)

section \<open>The interface of the single-message operations\<close>

locale user_scoped =
  fixes op :: "ID \<Rightarrow> ID \<Rightarrow> unit dbm"
  assumes scoped: "schema_ok d \<Longrightarrow> schema_ok (snd (op i u d)) \<and> others u (snd (op i u d)) = others u d"
    and denied: "i \<notin> owned_msgs u d \<Longrightarrow> \<exists>e. op i u d = (Inl e, d)"
begin

lemma bulk_scoped:
  assumes "schema_ok d"
  shows "schema_ok (snd (bulk (\<lambda>i. op i u) ids res d)) \<and> others u (snd (bulk (\<lambda>i. op i u) ids res d)) = others u d"
  using assms
proof (induction ids arbitrary: res d)
  case (Cons i js)
  obtain r d1 where run: "op i u d = (r, d1)" by (cases "op i u d")
  then have "schema_ok d1" "others u d1 = others u d"
    using scoped [OF Cons.prems, of i u] by auto
  then show ?case
    using Cons.IH [of d1] run by (cases r) simp_all
qed simp

lemma bulk_denied:
  assumes "set ids \<inter> owned_msgs u d = {}"
  shows "\<exists>res'. bulk (\<lambda>i. op i u) ids res d = (Inr res', d) \<and>
    bo_Succeeded res' = bo_Succeeded res \<and> bo_Failed res' = bo_Failed res + int (length ids)"
  using assms
proof (induction ids arbitrary: res)
  case (Cons i js)
  obtain e where "op i u d = (Inl e, d)"
    using denied [of i u d] Cons.prems by auto
  then show ?case
    using Cons.IH [of "AddFailure i e res"] Cons.prems by (auto simp: AddFailure_def)
qed simp

lemma bulk_for_user_scoped:
  assumes "schema_ok d"
  shows "others u (snd (bulk_for_user name op ids u d)) = others u d"
  using bulk_scoped [OF assms] by (simp add: bulk_for_user_def require_id_def svc_fail_def)

end

lemmas for_user_ops = GetMessageForUser_def GetRawMessageForUser_def GetAttachmentsForUser_def
  DeleteMessageForUser_def MarkAsReadForUser_def MarkAsUnreadForUser_def StarForUser_def
  UnstarForUser_def MarkAsSpamForUser_def MarkAsNotSpamForUser_def

interpretation del: user_scoped "DeleteMessageForUser now" for now
  by unfold_locales (auto simp: for_user_ops intro!: for_user_denied for_user_scoped framed_intros)

interpretation mark_read: user_scoped "MarkAsReadForUser now" for now
  by unfold_locales (auto simp: for_user_ops intro!: for_user_denied for_user_scoped framed_intros)

interpretation mark_unread: user_scoped "MarkAsUnreadForUser now" for now
  by unfold_locales (auto simp: for_user_ops intro!: for_user_denied for_user_scoped framed_intros)

interpretation star: user_scoped "StarForUser now" for now
  by unfold_locales (auto simp: for_user_ops intro!: for_user_denied for_user_scoped framed_intros)

interpretation unstar: user_scoped "UnstarForUser now" for now
  by unfold_locales (auto simp: for_user_ops intro!: for_user_denied for_user_scoped framed_intros)

interpretation spam: user_scoped "MarkAsSpamForUser now" for now
  by unfold_locales (auto simp: for_user_ops intro!: for_user_denied for_user_scoped framed_intros)

interpretation not_spam: user_scoped "MarkAsNotSpamForUser now" for now
  by unfold_locales (auto simp: for_user_ops intro!: for_user_denied for_user_scoped framed_intros)

text \<open>A move also checks the target, so its body stays within the frame.\<close>

lemma verify_target_cases:
  "(\<exists>e. verify_target op target u d = (Inl e, d)) \<or>
   target \<in> owned_boxes u d \<and> verify_target op target u d = (Inr (), d)"
  using mbx_GetByID_cases [of target d]
proof (elim disjE exE bexE conjE)
  fix b assume "b \<in> set (db_mailboxes d)" "mr_id b = target" "mbx_GetByID target d = (Inr (toMailbox b), d)"
  then show ?thesis
    by (cases "mr_user_id b = u")
      (force simp: verify_target_def andThen_def svc_wrap_def wrap_def svc_fail_def owned_boxes_def)+
qed (simp add: verify_target_def andThen_def svc_wrap_def wrap_def)

lemma framed_verified_move:
  "framed u i base (andThen (verify_target op target u) (\<lambda>_. MoveMessage now i target))"
  unfolding framed_def
proof (intro allI impI)
  fix d assume d: "frame u i base d"
  then have "owned_boxes u d = owned_boxes u base" by (simp add: frame_def)
  then show "frame u i base (snd (andThen (verify_target op target u) (\<lambda>_. MoveMessage now i target) d))"
    using verify_target_cases [of op target u d] framed_MoveMessage [of target u base i now] d
    by (auto simp: andThen_def framed_def)
qed

interpretation move: user_scoped "\<lambda>i u. MoveMessageForUser now i target u" for now target
proof unfold_locales
  show "schema_ok (snd (MoveMessageForUser now i target u d)) \<and>
      others u (snd (MoveMessageForUser now i target u d)) = others u d" if "schema_ok d" for i u d
    using for_user_scoped [OF that framed_verified_move] that
    by (simp add: MoveMessageForUser_def require_id_def svc_fail_def Let_def)
  show "\<exists>e. MoveMessageForUser now i target u d = (Inl e, d)" if "i \<notin> owned_msgs u d" for i u d
    using for_user_denied [OF that] by (auto simp: MoveMessageForUser_def require_id_def svc_fail_def Let_def)
qed

section \<open>Properties\<close>

text \<open>
  C5. Isolation of users: whatever a user asks the service to do to whatever messages, singly or in bulk,
  and however the calls fail, the mailboxes, messages, recipients and attachments of all other users
  stay exactly as they were.
\<close>

theorem user_isolation:
  assumes "schema_ok d"
  shows "others u (snd (DeleteMessageForUser now i u d)) = others u d \<and>
    others u (snd (MarkAsReadForUser now i u d)) = others u d \<and>
    others u (snd (MarkAsUnreadForUser now i u d)) = others u d \<and>
    others u (snd (StarForUser now i u d)) = others u d \<and>
    others u (snd (UnstarForUser now i u d)) = others u d \<and>
    others u (snd (MarkAsSpamForUser now i u d)) = others u d \<and>
    others u (snd (MarkAsNotSpamForUser now i u d)) = others u d \<and>
    others u (snd (MoveMessageForUser now i target u d)) = others u d \<and>
    others u (snd (BulkMarkAsReadForUser now ids u d)) = others u d \<and>
    others u (snd (BulkMarkAsUnreadForUser now ids u d)) = others u d \<and>
    others u (snd (BulkDeleteForUser now ids u d)) = others u d \<and>
    others u (snd (BulkMoveForUser now ids target u d)) = others u d \<and>
    others u (snd (BulkStarForUser now ids u d)) = others u d \<and>
    others u (snd (BulkUnstarForUser now ids u d)) = others u d"
proof -
  have "others u (snd (BulkMoveForUser now ids target u d)) = others u d"
    using verify_target_cases [of "''bulk_move_for_user''" target u d] move.bulk_scoped [OF assms]
    by (auto simp: BulkMoveForUser_def require_id_def svc_fail_def andThen_def Let_def)
  then show ?thesis
    using assms del.scoped mark_read.scoped mark_unread.scoped star.scoped unstar.scoped spam.scoped
      not_spam.scoped move.scoped del.bulk_for_user_scoped mark_read.bulk_for_user_scoped
      mark_unread.bulk_for_user_scoped star.bulk_for_user_scoped unstar.bulk_for_user_scoped
    by (simp add: BulkMarkAsReadForUser_def BulkMarkAsUnreadForUser_def BulkDeleteForUser_def
        BulkStarForUser_def BulkUnstarForUser_def)
qed

theorem user_isolation_witness:
  "others ''u1'' (snd (DeleteMessageForUser 9 ''m1'' ''u1'' two_messages_db)) = others ''u1'' two_messages_db \<and>
   others ''u9'' (snd (BulkDeleteForUser 9 [''m1'', ''m2''] ''u9'' two_messages_db)) = others ''u9'' two_messages_db"
proof -
  have "schema_ok two_messages_db" by code_simp
  then show ?thesis
    using user_isolation [of two_messages_db "''u1''" 9 "''m1''" "''a''" "[]"]
      user_isolation [of two_messages_db "''u9''" 9 "''m1''" "''a''" "[''m1'', ''m2'']"] by simp
qed

text \<open>A refusal: the call fails with a forbidden error and changes nothing.\<close>

definition forbidden :: "db \<Rightarrow> (error + 'a) \<times> db \<Rightarrow> bool" where
  "forbidden d out \<longleftrightarrow> (case out of (Inl e, d') \<Rightarrow> IsForbidden e \<and> d' = d | (Inr _, _) \<Rightarrow> False)"

lemma for_user_forbidden:
  assumes "schema_ok d" and "r \<in> set (db_messages d)" and "b \<in> set (db_mailboxes d)"
    and "mr_id b = r_mailbox_id r" and "scan_uint32 (mr_uid_next b)" and "mr_user_id b \<noteq> u"
    and "r_id r \<noteq> []" and "u \<noteq> []"
  shows "forbidden d (for_user op (r_id r) u body d)"
proof -
  have "mbx_GetByID (r_mailbox_id r) d = (Inr (toMailbox b), d)"
    using assms(3,4,5) find_mailbox_iff [OF assms(1), of "r_mailbox_id r" b]
    by (simp add: mbx_GetByID_def get_mailbox_def)
  then have "verifyMessageAccess (load d r) u d =
      (Inl (svc_error ''verify_access'' ''access denied to message'' (Sentinel ErrForbidden)), d)"
    using assms(6) by (simp add: verifyMessageAccess_def andThen_def svc_wrap_def wrap_def svc_fail_def)
  moreover have "GetByID (r_id r) d = (Inr (load d r), d)"
    using assms(2) find_message_iff [OF assms(1), of "r_id r" r] by (simp add: GetByID_def get_message_def)
  ultimately show ?thesis
    using assms(7,8) by (simp add: for_user_def require_id_def ID_IsEmpty_def andThen_def svc_wrap_def
        wrap_def forbidden_def svc_error_def IsForbidden_def)
qed

text \<open>
  Nobody reads or changes a stranger's message: on a message in a mailbox of another user every
  single-message operation fails with a forbidden error and leaves the database as it is.
\<close>

theorem foreign_message_forbidden:
  assumes "schema_ok d" and "r \<in> set (db_messages d)" and "b \<in> set (db_mailboxes d)"
    and "mr_id b = r_mailbox_id r" and "scan_uint32 (mr_uid_next b)" and "mr_user_id b \<noteq> u"
    and "r_id r \<noteq> []" and "u \<noteq> []" and "att \<noteq> []" and "target \<noteq> []"
  shows "forbidden d (GetMessageForUser (r_id r) u d) \<and> forbidden d (GetRawMessageForUser (r_id r) u d) \<and>
    forbidden d (GetAttachmentsForUser (r_id r) u d) \<and> forbidden d (GetAttachmentForUser (r_id r) att u d) \<and>
    forbidden d (DeleteMessageForUser now (r_id r) u d) \<and> forbidden d (MarkAsReadForUser now (r_id r) u d) \<and>
    forbidden d (MarkAsUnreadForUser now (r_id r) u d) \<and> forbidden d (StarForUser now (r_id r) u d) \<and>
    forbidden d (UnstarForUser now (r_id r) u d) \<and> forbidden d (MarkAsSpamForUser now (r_id r) u d) \<and>
    forbidden d (MarkAsNotSpamForUser now (r_id r) u d) \<and>
    forbidden d (MoveMessageForUser now (r_id r) target u d)"
  using assms(7,9,10)
  by (simp add: for_user_forbidden [OF assms(1-8)] for_user_ops GetAttachmentForUser_def MoveMessageForUser_def require_id_def
      ID_IsEmpty_def Let_def)

theorem foreign_message_forbidden_witness:
  "forbidden two_messages_db (DeleteMessageForUser 9 ''m1'' ''u9'' two_messages_db)"
proof -
  let ?r = "hd (db_messages two_messages_db)" and ?b = "hd (db_mailboxes two_messages_db)"
  have "schema_ok two_messages_db" "?r \<in> set (db_messages two_messages_db)"
    "?b \<in> set (db_mailboxes two_messages_db)" "mr_id ?b = r_mailbox_id ?r" "scan_uint32 (mr_uid_next ?b)"
    "mr_user_id ?b \<noteq> ''u9''" "r_id ?r = ''m1''"
    by code_simp+
  then show ?thesis
    using foreign_message_forbidden [of two_messages_db ?r ?b "''u9''" "''x''" "''y''" 9] by simp
qed

section \<open>Listings\<close>

text \<open>The outcome of a listing: nothing changes and every item's key is one of the user's messages.\<close>

definition only_own :: "ID \<Rightarrow> db \<Rightarrow> ('i \<Rightarrow> ID) \<Rightarrow> (error + 'i ListResult) \<times> db \<Rightarrow> bool" where
  "only_own u d key out \<longleftrightarrow>
     (case out of (Inl _, d') \<Rightarrow> d' = d
      | (Inr res, d') \<Rightarrow> d' = d \<and> set (map key (lr_Items res)) \<subseteq> owned_msgs u d)"

lemma getUserMailboxIDs_cases:
  "(\<exists>e. getUserMailboxIDs u d = (Inl e, d)) \<or>
   (\<exists>ids. getUserMailboxIDs u d = (Inr ids, d) \<and> set ids = owned_boxes u d)"
proof -
  have own: "mbx_where (Some (emptyMailboxFilter\<lparr>mf_UserID := Some u\<rparr>)) b = (mr_user_id b = u)" for b
    by (simp add: mbx_where_def emptyMailboxFilter_def)
  show ?thesis
    by (simp add: getUserMailboxIDs_def ListByUser_def mbx_List_def own andThen_def svc_wrap_def wrap_def
        page_of_def limit_offset_def list_result_def owned_boxes_def image_image toMailbox_def Let_def)
qed

lemma set_msg_List:
  "\<exists>res. msg_List fts flt opts d = (Inr res, d) \<and>
     set (map msg_ID (lr_Items res)) \<subseteq> r_id ` set (filter (msg_where fts flt) (db_messages d))"
  using set_limit_offset [of "page_of opts" "sort_rows msg_sort_key ''receivedAt'' opts (filter (msg_where fts flt) (db_messages d))"]
  by (auto simp: msg_List_def list_result_def Let_def split: option.splits)

text \<open>The restricted filter selects only messages of the user's mailboxes.\<close>

definition within :: "ID list \<Rightarrow> MessageFilter \<Rightarrow> bool" where
  "within ids f \<longleftrightarrow> sf_MailboxIDs f = ids \<or> (\<exists>i \<in> set ids. sf_MailboxID f = Some i)"

lemma restrict_filter_own:
  assumes "\<And>f. within ids f \<Longrightarrow> only_own u d msg_ID (k f d)"
  shows "only_own u d msg_ID (restrict_filter op ids flt k d)"
proof (cases "sf_MailboxID (case flt of None \<Rightarrow> emptyMessageFilter | Some f \<Rightarrow> f)")
  case None
  then show ?thesis
    using assms [of "(case flt of None \<Rightarrow> emptyMessageFilter | Some f \<Rightarrow> f)\<lparr>sf_MailboxIDs := ids\<rparr>"]
    by (simp add: restrict_filter_def Let_def within_def)
next
  case (Some i)
  then show ?thesis
    using assms [of "case flt of None \<Rightarrow> emptyMessageFilter | Some f \<Rightarrow> f"]
    by (auto simp: restrict_filter_def Let_def only_own_def svc_fail_def within_def)
qed

lemma msg_List_own:
  assumes "set ids = owned_boxes u d" and "ids \<noteq> []"
    and "within ids f"
  shows "only_own u d msg_ID (svc_wrap op msg (msg_List fts (Some f) opts) d)"
proof -
  obtain res where res: "msg_List fts (Some f) opts d = (Inr res, d)"
    "set (map msg_ID (lr_Items res)) \<subseteq> r_id ` set (filter (msg_where fts (Some f)) (db_messages d))"
    using set_msg_List by blast
  have "r_mailbox_id r \<in> owned_boxes u d" if "msg_where fts (Some f) r" for r
  proof -
    have "when_some (sf_MailboxID f) (\<lambda>i. r_mailbox_id r = i)"
      "when_set (sf_MailboxIDs f) (r_mailbox_id r \<in> set (sf_MailboxIDs f))"
      using that by (simp_all only: msg_where_def option.case)
    then have "r_mailbox_id r \<in> set ids"
      using assms(2,3) unfolding within_def when_set_def when_some_def by (elim disjE) force+
    then show ?thesis by (simp add: assms(1))
  qed
  then have "set (filter (msg_where fts (Some f)) (db_messages d)) \<subseteq>
      set (filter (\<lambda>r. r_mailbox_id r \<in> owned_boxes u d) (db_messages d))"
    by (auto simp only: set_filter)
  then have "set (map msg_ID (lr_Items res)) \<subseteq> owned_msgs u d"
    unfolding owned_msgs_def by (intro subset_trans [OF res(2)] image_mono)
  then show ?thesis
    using res(1) by (simp add: only_own_def svc_wrap_def wrap_def)
qed

lemma Search_eq_List:
  "\<exists>g. Search fts q (Some f) opts = msg_List fts (Some g) opts \<and>
     sf_MailboxIDs g = sf_MailboxIDs f \<and> sf_MailboxID g = sf_MailboxID f"
  by (cases q) (auto simp: Search_def Let_def)

lemma only_own_no_items [simp]: "only_own u d key (Inr no_items, d)"
  by (simp add: only_own_def no_items_def)

lemma only_own_Inl [simp]: "only_own u d key (Inl e, d)"
  by (simp add: only_own_def)

lemma ListMessagesForUser_own: "only_own u d msg_ID (ListMessagesForUser fts u flt opts d)"
  using getUserMailboxIDs_cases [of u d]
proof (elim disjE exE conjE)
  fix ids assume ids: "getUserMailboxIDs u d = (Inr ids, d)" "set ids = owned_boxes u d"
  have "only_own u d msg_ID (restrict_filter op ids flt
      (\<lambda>f. svc_wrap op ''failed to list messages'' (msg_List fts (Some f) opts)) d)" if "ids \<noteq> []" for op
    by (rule restrict_filter_own) (rule msg_List_own [OF ids(2) that])
  then show ?thesis
    using ids(1) by (simp add: ListMessagesForUser_def require_id_def svc_fail_def andThen_def)
qed (simp add: ListMessagesForUser_def require_id_def svc_fail_def andThen_def)

lemma Search_own:
  assumes "set ids = owned_boxes u d" and "ids \<noteq> []" and "within ids f"
  shows "only_own u d msg_ID (svc_wrap op msg (Search fts q (Some f) opts) d)"
proof -
  obtain g where g: "Search fts q (Some f) opts = msg_List fts (Some g) opts"
    "sf_MailboxIDs g = sf_MailboxIDs f" "sf_MailboxID g = sf_MailboxID f"
    using Search_eq_List by blast
  then have "within ids g" using assms(3) by (simp add: within_def)
  then show ?thesis by (simp only: g(1)) (rule msg_List_own [OF assms(1,2)])
qed

lemma SearchMessagesForUser_own: "only_own u d msg_ID (SearchMessagesForUser fts u q flt opts d)"
  using getUserMailboxIDs_cases [of u d]
proof (elim disjE exE conjE)
  fix ids assume ids: "getUserMailboxIDs u d = (Inr ids, d)" "set ids = owned_boxes u d"
  have "only_own u d msg_ID (restrict_filter op ids flt
      (\<lambda>f. svc_wrap op ''failed to search messages'' (Search fts q (Some f) opts)) d)" if "ids \<noteq> []" for op
    by (rule restrict_filter_own) (rule Search_own [OF ids(2) that])
  then show ?thesis
    using ids(1) by (simp add: SearchMessagesForUser_def require_id_def svc_fail_def andThen_def)
qed (simp add: SearchMessagesForUser_def require_id_def svc_fail_def andThen_def)

lemma att_List_keys:
  assumes "\<And>a. a \<in> set (db_attachments d) \<Longrightarrow> att_where flt a \<Longrightarrow> ar_message_id a \<in> owned_msgs u d"
  shows "only_own u d at_MessageID (svc_wrap op msg (att_List flt opts) d)"
proof -
  have "set (limit_offset (page_of opts) (sort_rows att_sort_key ''createdAt'' opts (filter (att_where flt) (db_attachments d))))
      \<subseteq> set (filter (att_where flt) (db_attachments d))"
    using set_limit_offset by fastforce
  then show ?thesis
    using assms by (auto simp: only_own_def svc_wrap_def wrap_def att_List_def list_result_def toAttachment_def Let_def
        split: option.splits)
qed

lemma att_List_one:
  assumes "af_MessageID f = Some i" and "i \<in> owned_msgs u d"
  shows "only_own u d at_MessageID (svc_wrap op msg (att_List (Some f) opts) d)"
proof (rule att_List_keys)
  fix a assume "att_where (Some f) a"
  then have "when_some (af_MessageID f) (\<lambda>i. ar_message_id a = i)"
    by (simp only: att_where_def option.case)
  then show "ar_message_id a \<in> owned_msgs u d" using assms by simp
qed

lemma att_List_many:
  assumes "set ids \<subseteq> owned_msgs u d" and "ids \<noteq> []"
  shows "only_own u d at_MessageID (svc_wrap op msg (att_List (Some (f\<lparr>af_MessageIDs := ids\<rparr>)) opts) d)"
proof (rule att_List_keys)
  fix a assume "att_where (Some (f\<lparr>af_MessageIDs := ids\<rparr>)) a"
  then have "when_set (af_MessageIDs (f\<lparr>af_MessageIDs := ids\<rparr>)) (ar_message_id a \<in> set (af_MessageIDs (f\<lparr>af_MessageIDs := ids\<rparr>)))"
    by (simp only: att_where_def option.case)
  then show "ar_message_id a \<in> owned_msgs u d" using assms by (auto simp: when_set_def)
qed

lemma list_attachments_of_message:
  assumes "af_MessageID f = Some i"
  shows "only_own u d at_MessageID (andThen (svc_wrap op msg (GetByID i))
    (\<lambda>m. andThen (verifyMessageAccess m u) (\<lambda>_. svc_wrap op msg' (att_List (Some f) opts))) d)"
  using GetByID_cases [of i d]
proof (elim disjE bexE conjE)
  fix r assume r: "r \<in> set (db_messages d)" "r_id r = i" "GetByID i d = (Inr (load d r), d)"
  show ?thesis
    using verifyMessageAccess_cases [of "load d r" u d]
  proof (elim disjE exE conjE)
    assume "msg_MailboxID (load d r) \<in> owned_boxes u d" and ok: "verifyMessageAccess (load d r) u d = (Inr (), d)"
    then have "i \<in> owned_msgs u d" using r(1,2) by (auto simp: owned_msgs_def)
    then show ?thesis
      using att_List_one [OF assms] r(3) ok by (simp add: andThen_def svc_wrap_def wrap_def)
  qed (use r(3) in \<open>simp add: andThen_def svc_wrap_def wrap_def\<close>)
qed (simp add: andThen_def svc_wrap_def wrap_def)

lemma list_attachments_of_user:
  assumes "set ids = owned_boxes u d" and "ids \<noteq> []"
  shows "only_own u d at_MessageID (andThen (svc_wrap op msg
      (msg_List fts (Some (emptyMessageFilter\<lparr>sf_MailboxIDs := ids\<rparr>)) None))
    (\<lambda>messages. if length (lr_Items messages) = 0 then ret no_items
       else let f = (case flt of None \<Rightarrow> emptyAttachmentFilter | Some f \<Rightarrow> f)
            in svc_wrap op msg' (att_List (Some (f\<lparr>af_MessageIDs := map msg_ID (lr_Items messages)\<rparr>)) opts)) d)"
proof -
  let ?f = "emptyMessageFilter\<lparr>sf_MailboxIDs := ids\<rparr>"
  obtain res where res: "msg_List fts (Some ?f) None d = (Inr res, d)" using set_msg_List by blast
  have "only_own u d msg_ID (svc_wrap op msg (msg_List fts (Some ?f) None) d)"
    by (rule msg_List_own [OF assms]) (simp add: within_def)
  then have "set (map msg_ID (lr_Items res)) \<subseteq> owned_msgs u d"
    by (simp add: res only_own_def svc_wrap_def wrap_def)
  from att_List_many [OF this] show ?thesis
    by (simp add: andThen_def svc_wrap_def wrap_def res Let_def)
qed

lemma ListAttachmentsForUser_own: "only_own u d at_MessageID (ListAttachmentsForUser fts u flt opts d)"
  using getUserMailboxIDs_cases [of u d]
proof (elim disjE exE conjE)
  fix ids assume ids: "getUserMailboxIDs u d = (Inr ids, d)" "set ids = owned_boxes u d"
  have run: "ListAttachmentsForUser fts u flt opts d = (Inr no_items, d)" if "\<not> ID_IsEmpty u" "ids = []"
    using that ids(1) by (simp add: ListAttachmentsForUser_def require_id_def andThen_def Let_def)
  show ?thesis
  proof (cases "Option.bind flt af_MessageID")
    case None
    then show ?thesis
      using run ids(1) list_attachments_of_user [OF ids(2), of "''list_attachments_for_user''" _ fts flt _ opts]
      by (cases "ids = []") (simp_all add: ListAttachmentsForUser_def require_id_def svc_fail_def andThen_def [of "getUserMailboxIDs u"] Let_def)
  next
    case (Some i)
    then obtain f where "flt = Some f" "af_MessageID f = Some i" by (cases flt) auto
    then show ?thesis
      using run ids(1) list_attachments_of_message [of f i u d "''list_attachments_for_user''" _ _ opts]
      by (cases "ids = []") (simp_all add: ListAttachmentsForUser_def require_id_def svc_fail_def andThen_def [of "getUserMailboxIDs u"] Let_def)
  qed
qed (simp add: ListAttachmentsForUser_def require_id_def svc_fail_def andThen_def Let_def)

text \<open>
  C19. Listings show a user nothing but their own mail: whatever filter, search text, sorting and page is
  asked for, every message returned by the listing and the search, and the message of every
  attachment returned, lies in a mailbox of the user; the calls change nothing.
\<close>

theorem listings_show_own_mail:
  "only_own u d msg_ID (ListMessagesForUser fts u flt opts d) \<and>
   only_own u d msg_ID (SearchMessagesForUser fts u q flt opts d) \<and>
   only_own u d at_MessageID (ListAttachmentsForUser fts u aflt opts d)"
  by (simp add: ListMessagesForUser_own SearchMessagesForUser_own ListAttachmentsForUser_own)

end
