(* ===== verification/Message_Delivery.thy ===== *)
theory Message_Delivery
  imports Message_Access
begin

text \<open>
  What the message service does to the store: delivering a message with its attachments, the
  atomicity of its operations, and the mailbox counters after flag changes and deletions.
\<close>

section \<open>Storing a message\<close>

text \<open>The service takes the UID itself and passes it on; \<^verbatim>\<open>Create\<close> alone would do the same.\<close>

lemma Increment_then_Create:
  assumes "schema_ok d" and "b \<in> set (db_mailboxes d)" and "mr_id b = msg_MailboxID m"
    and "scan_uint32 (mr_uid_next b)" and "mr_uid_next b \<noteq> 0" and "msg_IMAPUID m = 0"
  shows "andThen (IncrementMessageCount now (msg_MailboxID m) (msg_Size m) (msg_Status m = MessageUnread))
      (\<lambda>uid. Create now (m\<lparr>msg_IMAPUID := uid\<rparr>)) d = Create now m d"
proof -
  have "(word_of_int (mr_uid_next b) :: 32 word) \<noteq> 0"
    using uint_uid [OF assms(4)] assms(5) by (metis uint_0_eq)
  then show ?thesis
    using IncrementMessageCount_ok [OF assms(1-4), of now "msg_Size m" "msg_Status m = MessageUnread"] assms(6)
    by (simp add: Create_def assign_uid_def andThen_def wrap_def)
qed

lemma StoreRawBody_same:
  assumes "schema_ok d" and "r \<in> set (db_messages d)" and "r_raw_body r = raw" and "r_updated_at r = now"
  shows "StoreRawBody now (r_id r) raw d = (Inr (), d)"
proof -
  let ?f = "\<lambda>x. (x\<lparr>r_raw_body := raw\<rparr>)\<lparr>r_updated_at := now\<rparr>"
  have "keeps_message_keys ?f" by (simp add: keeps_message_keys_def)
  note upd = update_messages_keys [OF assms(1) this, of "\<lambda>x. r_id x = r_id r"]
  have only: "x = r" if "x \<in> set (db_messages d)" "r_id x = r_id r" for x
    using that assms(2) find_message_iff [OF assms(1), of "r_id r"] by (metis option.inject)
  have same: "r\<lparr>r_raw_body := raw, r_updated_at := now\<rparr> = r"
    using assms(3,4) by simp
  have "update_where (\<lambda>x. r_id x = r_id r) ?f (db_messages d) = db_messages d"
    unfolding update_where_def by (rule map_idI) (use only same in auto)
  then have "update_messages (\<lambda>x. r_id x = r_id r) ?f d = (Inr (count_where (\<lambda>x. r_id x = r_id r) (db_messages d)), d)"
    using upd by simp
  then show ?thesis
    unfolding StoreRawBody_def set_flag_def
    by (intro expect_rows_pos) (use count_where_pos [OF assms(2), of "\<lambda>x. r_id x = r_id r"] in simp_all)
qed

text \<open>The rows the attachments of a message become.\<close>

fun attachments_from :: "MessageService \<Rightarrow> instant \<Rightarrow> nat \<Rightarrow> ID \<Rightarrow> AttachmentData list \<Rightarrow> Attachment list" where
  "attachments_from s now k i [] = []"
| "attachments_from s now k i (x # xs) = createAttachment s now k i x # attachments_from s now (Suc k) i xs"

fun with_attachments :: "Attachment list \<Rightarrow> AttachmentData list \<Rightarrow> db \<Rightarrow> db" where
  "with_attachments (a # as) (x # xs) d = with_attachments as xs (with_attachment a (Some (ad_Data x)) d)"
| "with_attachments _ _ d = d"

lemma createAttachment_keys [simp]:
  "at_ID (createAttachment s now k i x) = svc_gen s k"
  "at_MessageID (createAttachment s now k i x) = i"
  "at_CreatedAt (createAttachment s now k i x) = now"
  by (simp_all add: createAttachment_def NewAttachment_def NewInlineAttachment_def Let_def)

lemma with_attachment_fields [simp]:
  "db_messages (with_attachment a c d) = db_messages d"
  "db_mailboxes (with_attachment a c d) = db_mailboxes d"
  "db_recipients (with_attachment a c d) = db_recipients d"
  "db_users (with_attachment a c d) = db_users d"
  "db_attachments (with_attachment a c d) = db_attachments d @ [(row_of_attachment a)\<lparr>ar_content := c\<rparr>]"
  by (simp_all add: with_attachment_def)

lemma storeAttachments_ok:
  assumes "schema_ok d" and "i \<in> r_id ` set (db_messages d)" and "svc_backend s = None"
    and "inj (svc_gen s)" and "\<And>j. j \<ge> k \<Longrightarrow> svc_gen s j \<notin> ar_id ` set (db_attachments d)"
  shows "storeAttachments s now k i xs d =
      (Inr (attachments_from s now k i xs), with_attachments (attachments_from s now k i xs) xs d)"
    and "schema_ok (with_attachments (attachments_from s now k i xs) xs d)"
proof -
  have "storeAttachments s now k i xs d =
      (Inr (attachments_from s now k i xs), with_attachments (attachments_from s now k i xs) xs d) \<and>
      schema_ok (with_attachments (attachments_from s now k i xs) xs d)"
    using assms
  proof (induction xs arbitrary: k d)
    case (Cons x xs)
    let ?a = "createAttachment s now k i x" let ?d = "with_attachment ?a (Some (ad_Data x)) d"
    have fresh: "at_ID ?a \<notin> ar_id ` set (db_attachments d)" using Cons.prems(5) by simp
    have run: "CreateWithContent None ?a (ad_Data x) d = (Inr (), ?d)"
      using Cons.prems(1,2) fresh by (intro CreateWithContent_ok) simp_all
    have "storeAttachments s now (Suc k) i xs ?d =
      (Inr (attachments_from s now (Suc k) i xs), with_attachments (attachments_from s now (Suc k) i xs) xs ?d) \<and>
      schema_ok (with_attachments (attachments_from s now (Suc k) i xs) xs ?d)"
    proof (rule Cons.IH)
      show "schema_ok ?d" using Cons.prems(1,2) fresh by (intro with_attachment_schema) simp_all
      show "svc_gen s j \<notin> ar_id ` set (db_attachments ?d)" if "j \<ge> Suc k" for j
        using Cons.prems(5) [of j] that Cons.prems(4) by (auto simp: row_of_attachment_def dest: injD)
    qed (use Cons.prems in simp_all)
    then show ?case
      using run Cons.prems(3) by (simp add: andThen_def Let_def)
  qed simp
  then show "storeAttachments s now k i xs d =
      (Inr (attachments_from s now k i xs), with_attachments (attachments_from s now k i xs) xs d)"
    "schema_ok (with_attachments (attachments_from s now k i xs) xs d)" by blast+
qed

lemma with_attachments_fields [simp]:
  "db_messages (with_attachments as xs d) = db_messages d"
  "db_mailboxes (with_attachments as xs d) = db_mailboxes d"
  "db_recipients (with_attachments as xs d) = db_recipients d"
  by (induction as xs d rule: with_attachments.induct) simp_all

lemma with_attachments_rows:
  "length as = length xs \<Longrightarrow> db_attachments (with_attachments as xs d) =
     db_attachments d @ map (\<lambda>(a, x). (row_of_attachment a)\<lparr>ar_content := Some (ad_Data x)\<rparr>) (zip as xs)"
  by (induction as xs d rule: with_attachments.induct) simp_all

lemma length_attachments_from [simp]: "length (attachments_from s now k i xs) = length xs"
  by (induction xs arbitrary: k) simp_all

lemma attachments_from_keys:
  "a \<in> set (attachments_from s now k i xs) \<Longrightarrow> at_MessageID a = i \<and> at_CreatedAt a = now"
  by (induction xs arbitrary: k) auto

lemma sort_key_sorted: "sorted (map f xs) \<Longrightarrow> sort_key f xs = xs"
  by (induction xs) (simp_all add: insort_is_Cons)

lemma sorted_const: "(\<And>y. y \<in> set ys \<Longrightarrow> k y = c) \<Longrightarrow> sorted (map k ys)"
  by (induction ys) auto

lemma SortAsc_not_Desc [simp]: "SortAsc \<noteq> SortDesc"
  by (simp add: SortAsc_def SortDesc_def)

lemma ListByMessage_stored:
  assumes "i \<notin> ar_message_id ` set (db_attachments d)"
    and "as = attachments_from s now k i xs"
  shows "ListByMessage i (with_attachments as xs d) = (Inr as, with_attachments as xs d)"
proof -
  let ?row = "\<lambda>(a, x). (row_of_attachment a)\<lparr>ar_content := Some (ad_Data x)\<rparr>"
  have keys: "at_MessageID a = i \<and> at_CreatedAt a = now" if "a \<in> set as" for a
    using attachments_from_keys that by (simp add: assms(2))
  have rows: "db_attachments (with_attachments as xs d) = db_attachments d @ map ?row (zip as xs)"
    by (rule with_attachments_rows) (simp add: assms(2))
  have "filter (\<lambda>r. ar_message_id r = i) (db_attachments d) = []"
    using assms(1) unfolding filter_empty_conv by (metis image_eqI)
  moreover have "filter (\<lambda>r. ar_message_id r = i) (map ?row (zip as xs)) = map ?row (zip as xs)"
    using keys by (auto simp: filter_id_conv row_of_attachment_def dest!: set_zip_leftD)
  ultimately have own: "filter (\<lambda>r. ar_message_id r = i) (db_attachments (with_attachments as xs d)) = map ?row (zip as xs)"
    by (simp add: rows)
  have "sorted (map (\<lambda>r. SInt (ar_created_at r)) (map ?row (zip as xs)))"
    using keys by (intro sorted_const [where c = "SInt now"]) (auto simp: row_of_attachment_def dest!: set_zip_leftD)
  then have "order_by (\<lambda>r. SInt (ar_created_at r)) SortAsc (map ?row (zip as xs)) = map ?row (zip as xs)"
    by (simp add: order_by_def sort_key_sorted)
  moreover have "map toAttachment (map ?row (zip as xs)) = map fst (zip as xs)"
    by (auto simp: toAttachment_def row_of_attachment_def)
  moreover have "map fst (zip as xs) = as" by (simp add: assms(2))
  ultimately show ?thesis
    unfolding ListByMessage_def query_apply own by simp
qed

lemma GetContent_row:
  assumes "schema_ok d" and "r \<in> set (db_attachments d)" and "ar_content r = Some c"
  shows "GetContent None (ar_id r) d = (Inr c, d)"
proof -
  have "find (\<lambda>x. ar_id x = ar_id r) (db_attachments d) = Some r"
    using assms(1,2) find_unique [of ar_id "db_attachments d" r] by (simp add: schema_defs)
  then show ?thesis by (simp add: GetContent_def stored_content_def assms(3))
qed

lemma map_zip_fst: "length xs = length ys \<Longrightarrow> map (\<lambda>(x, y). f x) (zip xs ys) = map f xs"
  by (induction xs ys rule: list_induct2) simp_all

lemma map_zip_snd: "length xs = length ys \<Longrightarrow> map (\<lambda>(x, y). f y) (zip xs ys) = map f ys"
  by (induction xs ys rule: list_induct2) simp_all

lemma stored_contents:
  assumes "schema_ok (with_attachments as xs d)" and len: "length as = length xs"
  shows "map (\<lambda>a. fst (GetContent None (at_ID a) (with_attachments as xs d))) as = map (\<lambda>x. Inr (ad_Data x)) xs"
proof -
  let ?d = "with_attachments as xs d"
  have "fst (GetContent None (at_ID a) ?d) = Inr (ad_Data x)" if "(a, x) \<in> set (zip as xs)" for a x
  proof -
    let ?r = "(row_of_attachment a)\<lparr>ar_content := Some (ad_Data x)\<rparr>"
    have "?r \<in> set (db_attachments ?d)"
      using that by (force simp: with_attachments_rows [OF len])
    from GetContent_row [OF assms(1) this] show ?thesis by (simp add: row_of_attachment_def)
  qed
  then have "map (\<lambda>(a, x). fst (GetContent None (at_ID a) ?d)) (zip as xs) = map (\<lambda>(a, x). Inr (ad_Data x)) (zip as xs)"
    by (auto intro!: map_cong)
  then show ?thesis
    by (simp only: map_zip_fst [OF len, of "\<lambda>a. fst (GetContent None (at_ID a) ?d)"]
        map_zip_snd [OF len, of "\<lambda>x. Inr (ad_Data x)"])
qed

text \<open>The database after a delivery.\<close>

definition delivered_db :: "MessageService \<Rightarrow> instant \<Rightarrow> Message \<Rightarrow> ParsedMessage \<Rightarrow> db \<Rightarrow> db" where
  "delivered_db s now m pm d =
     with_attachments (attachments_from s now 1 (msg_ID m) (pm_Attachments pm)) (pm_Attachments pm)
       (created_db now m d)"

lemma new_message_fields [simp]:
  "msg_ID (new_message s now mb pm raw) = svc_gen s 0"
  "msg_MailboxID (new_message s now mb pm raw) = mb_ID mb"
  "msg_IMAPUID (new_message s now mb pm raw) = 0"
  "msg_RawBody (new_message s now mb pm raw) = raw"
  "msg_UpdatedAt (new_message s now mb pm raw) = now"
  "msg_Size (new_message s now mb pm raw) = pm_RawSize pm"
  by (simp_all add: new_message_def ToMessage_def NewMessage_def Let_def)

lemma created_db_fields [simp]:
  "db_attachments (created_db now m d) = db_attachments d"
  "db_messages (created_db now m d) = db_messages d @ [row_of_message m]"
  by (simp_all add: created_db_def)

text \<open>Attachments are no concern of the counters and the UIDs.\<close>

lemma store_ok_with_attachments:
  "store_ok (with_attachments as xs d) \<longleftrightarrow> schema_ok (with_attachments as xs d) \<and> stats_ok d \<and> uids_ok d"
  by (simp add: store_ok_def stats_ok_def uids_ok_def)

lemma storeMessage_ok:
  fixes s now mb pm raw b
  defines "m \<equiv> (new_message s now mb pm raw)\<lparr>msg_IMAPUID := word_of_int (mr_uid_next b)\<rparr>"
  assumes d: "store_ok d" and b: "b \<in> set (db_mailboxes d)" "mr_uid_next b < 2 ^ 32" "mb_ID mb = mr_id b"
    and s: "svc_backend s = None" "inj (svc_gen s)"
    and fresh: "svc_gen s 0 \<notin> r_id ` set (db_messages d)"
      "range (svc_gen s) \<inter> ar_id ` set (db_attachments d) = {}"
    and sz: "0 \<le> pm_RawSize pm"
  shows "storeMessageInTransaction s now mb pm raw d =
      (Inr \<lparr>smr_Message = m, smr_Attachments = attachments_from s now 1 (svc_gen s 0) (pm_Attachments pm),
            smr_IsDuplicate = False, smr_DuplicateID = [], smr_Notice = None\<rparr>, delivered_db s now m pm d)"
    and "store_ok (delivered_db s now m pm d)"
proof -
  let ?m0 = "new_message s now mb pm raw" and ?c = "created_db now m d" and ?xs = "pm_Attachments pm"
  let ?inc = "IncrementMessageCount now (mb_ID mb) (msg_Size ?m0) (msg_Status ?m0 = MessageUnread)"
  have sc: "schema_ok d" "stats_ok d" "uids_ok d" using d by (simp_all add: store_ok_def)
  have uid: "scan_uint32 (mr_uid_next b)" "mr_uid_next b \<noteq> 0"
    using sc(3) b(1,2) by (fastforce simp: scan_uint32_def uids_ok_def list_all_iff)+
  have create: "Create now ?m0 d = (Inr m, ?c)" "schema_ok ?c"
    using Create_ok [OF sc(1,3) b(1) _ uid(1), of ?m0 now] b(3) fresh(1) by (simp_all add: m_def)
  have "andThen ?inc (\<lambda>uid. Create now (?m0\<lparr>msg_IMAPUID := uid\<rparr>)) d = (Inr m, ?c)"
    using Increment_then_Create [OF sc(1) b(1) _ uid, of ?m0 now] b(3) create(1) by simp
  then obtain uid d1 where step: "?inc d = (Inr uid, d1)" "Create now (?m0\<lparr>msg_IMAPUID := uid\<rparr>) d1 = (Inr m, ?c)"
    by (elim andThen_InrE)
  have ids: "r_id (row_of_message m) = svc_gen s 0" by (simp add: row_of_message_def m_def)
  then have row: "svc_gen s 0 \<in> r_id ` set (db_messages ?c)" by simp
  have raw: "StoreRawBody now (svc_gen s 0) raw ?c = (Inr (), ?c)"
    using StoreRawBody_same [OF create(2), of "row_of_message m" raw now] ids
    by (simp add: m_def row_of_message_def)
  have "svc_gen s j \<notin> ar_id ` set (db_attachments ?c)" for j
    using fresh(2) by auto
  note att = storeAttachments_ok [OF create(2) row s, of 1 now ?xs, OF this]
  show "storeMessageInTransaction s now mb pm raw d =
      (Inr \<lparr>smr_Message = m, smr_Attachments = attachments_from s now 1 (svc_gen s 0) ?xs,
            smr_IsDuplicate = False, smr_DuplicateID = [], smr_Notice = None\<rparr>, delivered_db s now m pm d)"
    using step raw att(1)
    by (simp add: storeMessageInTransaction_def andThen_def Let_def delivered_db_def m_def)
  have "stats_ok ?c" using sc(2) sz by (intro stats_ok_created) (simp_all add: m_def)
  moreover have "uids_ok ?c"
    using sc b uid(1) by (intro uids_ok_created [of d b]) (simp_all add: m_def)
  ultimately show "store_ok (delivered_db s now m pm d)"
    using att(2) by (simp add: delivered_db_def store_ok_with_attachments m_def)
qed

section \<open>Properties of deliveries\<close>

lemma resolve_target:
  assumes "schema_ok d" and "b \<in> set (db_mailboxes d)" and "scan_uint32 (mr_uid_next b)" and "mr_id b \<noteq> []"
  shows "resolveMailbox (mr_id b) pm d = (Inr (toMailbox b), d)"
  using assms find_mailbox_iff [OF assms(1), of "mr_id b" b]
  by (simp add: resolveMailbox_def ID_IsEmpty_def mbx_GetByID_def get_mailbox_def)

lemma find_duplicate_none:
  assumes "smi_SkipDuplicateCheck inp \<or> pm_MessageID pm = [] \<or>
    Some (pm_MessageID pm) \<notin> r_message_id ` set (db_messages d)"
  shows "find_duplicate inp pm d = (Inr None, d)"
proof -
  have "find (\<lambda>r. r_message_id r = Some (pm_MessageID pm)) (db_messages d) = None"
    if "Some (pm_MessageID pm) \<notin> r_message_id ` set (db_messages d)"
    using that unfolding find_None_iff by (metis image_eqI)
  then show ?thesis
    using assms by (auto simp: find_duplicate_def GetByMessageID_def get_message_def IsNotFound_def)
qed

lemma notify_stored_cases:
  "\<exists>n. notify_stored s res d = (Inr (res\<lparr>smr_Notice := n\<rparr>), d)"
  if "smr_Notice res = None"
proof -
  have "res = res\<lparr>smr_Notice := None\<rparr>" using that by simp
  then show ?thesis
    by (cases "svc_notify s \<and> \<not> smr_IsDuplicate res")
      (auto simp: notify_stored_def CountByMailbox_def)
qed

lemma delivered_raw:
  assumes "schema_ok d" and "msg_ID m \<notin> r_id ` set (db_messages d)"
  shows "GetRawBody (msg_ID m) (delivered_db s now m pm d) = (Inr (msg_RawBody m), delivered_db s now m pm d)"
    and "GetByID (msg_ID m) (delivered_db s now m pm d) = (Inr (m\<lparr>msg_AllHeaders := []\<rparr>), delivered_db s now m pm d)"
proof -
  have "find (\<lambda>r. r_id r = msg_ID m) (db_messages d) = None"
    using assms(2) unfolding find_None_iff by (metis image_eqI)
  then have found: "find (\<lambda>r. r_id r = msg_ID m) (db_messages (delivered_db s now m pm d)) = Some (row_of_message m)"
    by (simp add: delivered_db_def find_append row_of_message_def)
  then show "GetRawBody (msg_ID m) (delivered_db s now m pm d) = (Inr (msg_RawBody m), delivered_db s now m pm d)"
    by (simp add: GetRawBody_def row_of_message_def)
  have "load (delivered_db s now m pm d) r = load (created_db now m d) r" for r
    by (simp add: load_def delivered_db_def)
  moreover have "find (\<lambda>r. r_id r = msg_ID m) (db_messages (created_db now m d)) = Some (row_of_message m)"
    using found by (simp add: delivered_db_def)
  ultimately show "GetByID (msg_ID m) (delivered_db s now m pm d) = (Inr (m\<lparr>msg_AllHeaders := []\<rparr>), delivered_db s now m pm d)"
    using GetByID_created [OF assms, of now] found by (simp add: GetByID_def get_message_def)
qed


text \<open>A service on a trivial parser: the sample of the witnesses.\<close>

definition sample_parsed :: ParsedMessage where
  "sample_parsed =
     \<lparr>pm_Headers = [], pm_AllHeaders = [], pm_From = \<lparr>ea_Name = ''Ann'', ea_Address = ''ann@y''\<rparr>,
      pm_To = [\<lparr>ea_Name = [], ea_Address = ''a@x''\<rparr>], pm_Cc = [], pm_Bcc = [], pm_ReplyTo = None,
      pm_Subject = ''Hi'', pm_MessageID = ''mid1'', pm_InReplyTo = [], pm_References = [],
      pm_Date = None, pm_TextBody = ''hello'', pm_HTMLBody = [],
      pm_Attachments = [\<lparr>ad_Filename = ''n.txt'', ad_ContentType = ''text/plain'', ad_ContentID = [],
        ad_Disposition = ''attachment'', ad_IsInline = False, ad_Data = [7, 8], ad_Encoding = []\<rparr>],
      pm_ContentType = ''text/plain'', pm_RawSize = 40\<rparr>"

definition sample_service :: MessageService where
  "sample_service =
     \<lparr>svc_parse = (\<lambda>_. Inr sample_parsed), svc_gen = (\<lambda>k. replicate (Suc k) CHR ''i''), svc_sha256 = (\<lambda>_. ''00''),
      svc_backend = None, svc_notify = True\<rparr>"

lemma sample_service_gen: "inj (svc_gen sample_service)" "svc_gen sample_service 0 = ''i''"
  by (auto simp: sample_service_def inj_def dest: arg_cong [where f = length])

definition sample_input :: "bool \<Rightarrow> StoreMessageInput" where
  "sample_input skip = \<lparr>smi_RawData = [1, 2], smi_TargetMailboxID = ''a'', smi_SkipDuplicateCheck = skip\<rparr>"


text \<open>
  Duplicates are not stored again: when a message with the same non-empty Message-ID is in the store,
  \<^verbatim>\<open>StoreMessage\<close> with the duplicate check on reports that message as the duplicate and leaves the
  database as it is.
\<close>

theorem duplicate_not_stored:
  assumes "svc_parse s (smi_RawData inp) = Inr pm" and "smi_RawData inp \<noteq> []"
    and "\<not> smi_SkipDuplicateCheck inp" and "pm_MessageID pm \<noteq> []"
    and "r \<in> set (db_messages d)" and "r_message_id r = Some (pm_MessageID pm)"
  shows "\<exists>res. StoreMessage s now (Some inp) d = (Inr res, d) \<and> smr_IsDuplicate res \<and>
    msg_MessageID (smr_Message res) = pm_MessageID pm \<and> smr_DuplicateID res = msg_ID (smr_Message res) \<and>
    smr_DuplicateID res \<in> r_id ` set (db_messages d)"
proof -
  let ?P = "\<lambda>x. r_message_id x = Some (pm_MessageID pm)"
  obtain q where q: "find ?P (db_messages d) = Some q" "q \<in> set (db_messages d)" "?P q"
    using assms(5,6) find_None_iff [of ?P "db_messages d"] find_SomeD [of ?P "db_messages d"]
    by (cases "find ?P (db_messages d)") auto
  have "msg_MessageID (fold add_recipient qs m) = msg_MessageID m" for qs m
    by (induction qs arbitrary: m) (simp_all add: add_recipient_def Let_def)
  then have "msg_MessageID (load d q) = pm_MessageID pm"
    using q(3) by (simp add: load_def loadRecipients_def toMessage_def from_null_def)
  then show ?thesis
    using assms(1-4) q by (simp add: StoreMessage_def validateStoreInput_def find_duplicate_def
        GetByMessageID_def get_message_def andThen_def)
qed

theorem duplicate_not_stored_witness:
  "let d = snd (StoreMessage sample_service 9 (Some (sample_input False)) sample_db)
   in \<exists>res. StoreMessage sample_service 10 (Some (sample_input False)) d = (Inr res, d) \<and> smr_IsDuplicate res"
proof -
  let ?d = "snd (StoreMessage sample_service 9 (Some (sample_input False)) sample_db)"
  have "hd (db_messages ?d) \<in> set (db_messages ?d)" "r_message_id (hd (db_messages ?d)) = Some (pm_MessageID sample_parsed)"
    "pm_MessageID sample_parsed \<noteq> []" by code_simp+
  then show ?thesis
    using duplicate_not_stored [of sample_service "sample_input False" sample_parsed "hd (db_messages ?d)" ?d 10]
    by (auto simp: sample_service_def sample_input_def Let_def)
qed

section \<open>Failures\<close>

text \<open>A failed call leaves the database as it was.\<close>

definition unchanged_on_error :: "db \<Rightarrow> (error + 'a) \<times> db \<Rightarrow> bool" where
  "unchanged_on_error d out \<longleftrightarrow> (case out of (Inl _, d') \<Rightarrow> d' = d | (Inr _, _) \<Rightarrow> True)"

definition atomic :: "'a dbm \<Rightarrow> bool" where
  "atomic m \<longleftrightarrow> (\<forall>d. unchanged_on_error d (m d))"

definition reads :: "'a dbm \<Rightarrow> bool" where
  "reads m \<longleftrightarrow> (\<forall>d. snd (m d) = d)"

named_theorems atomic_intros \<open>calls that change nothing when they fail\<close>

lemma reads_intros [atomic_intros]:
  "reads (ret x)" "reads (fail e)" "reads (query q)" "reads m \<Longrightarrow> reads (wrap msg m)"
  "reads m \<Longrightarrow> reads (svc_wrap op msg m)" "reads (svc_fail op msg e)"
  by (simp_all add: reads_def svc_wrap_def svc_fail_def)

lemma readsE:
  assumes "reads m"
  obtains (error) e where "m d = (Inl e, d)" | (result) x where "m d = (Inr x, d)"
proof (cases "m d")
  case (Pair r d')
  then show ?thesis
    using assms that by (cases r) (auto simp: reads_def dest: spec [of _ d])
qed

lemma reads_andThen [atomic_intros]:
  assumes "reads m" and "\<And>x. reads (f x)"
  shows "reads (andThen m f)"
  unfolding reads_def
proof
  fix d
  show "snd (andThen m f d) = d"
    using assms(1)
    by (rule readsE [of m d]) (use assms(2) in \<open>simp_all add: andThen_def reads_def\<close>)
qed

lemma reads_branches [atomic_intros]:
  "reads m \<Longrightarrow> reads n \<Longrightarrow> reads (if c then m else n)"
  "reads m \<Longrightarrow> (\<And>x. reads (f x)) \<Longrightarrow> reads (case v of None \<Rightarrow> m | Some x \<Rightarrow> f x)"
  by (simp, cases v) simp_all

lemma reads_gets [atomic_intros]:
  "reads (get_message P e)" "reads (get_mailbox P' msg e)"
  unfolding get_message_def get_mailbox_def by (intro atomic_intros)+

lemma atomic_andThen [atomic_intros]:
  assumes "reads m" and "\<And>x. atomic (f x)"
  shows "atomic (andThen m f)"
  unfolding atomic_def
proof
  fix d
  show "unchanged_on_error d (andThen m f d)"
    using assms(1)
    by (rule readsE [of m d]) (use assms(2) in \<open>simp_all add: andThen_def atomic_def unchanged_on_error_def\<close>)
qed

lemma atomic_Transaction [atomic_intros]: "atomic (Transaction False m)"
  by (auto simp: atomic_def unchanged_on_error_def Transaction_def split: prod.splits sum.splits)

lemma atomic_then_reads:
  assumes "atomic m" and "\<And>x d. \<exists>y. f x d = (Inr y, d)"
  shows "atomic (andThen m f)"
  unfolding atomic_def
proof
  fix d
  show "unchanged_on_error d (andThen m f d)"
  proof (cases "m d")
    case (Pair r d')
    then show ?thesis
      using assms(1) assms(2) [of "projr r" d']
      by (cases r) (auto simp: andThen_def atomic_def unchanged_on_error_def split: prod.splits sum.splits)
  qed
qed

lemma atomic_branches [atomic_intros]:
  "atomic m \<Longrightarrow> atomic n \<Longrightarrow> atomic (if c then m else n)"
  "atomic m \<Longrightarrow> (\<And>x. atomic (f x)) \<Longrightarrow> atomic (case v of None \<Rightarrow> m | Some x \<Rightarrow> f x)"
  "atomic m \<Longrightarrow> atomic (svc_wrap op msg m)" "atomic m \<Longrightarrow> atomic (require_id op msg i m)"
  "atomic (svc_fail op msg e)" "atomic (ret x)" "atomic (fail e)"
proof -
  show "atomic m \<Longrightarrow> atomic (svc_wrap op msg m)"
    by (auto simp: atomic_def unchanged_on_error_def svc_wrap_def wrap_def split: prod.splits sum.splits)
  show "atomic m \<Longrightarrow> atomic (require_id op msg i m)"
    by (auto simp: require_id_def atomic_def unchanged_on_error_def svc_fail_def)
qed (auto simp: atomic_def unchanged_on_error_def svc_fail_def split: option.splits)

lemma notify_stored_ok: "\<exists>y. notify_stored s res d = (Inr y, d)"
  by (simp add: notify_stored_def CountByMailbox_def)

lemma reads_recover:
  assumes "reads m" and "\<And>e. reads (h e)" and "\<And>x. reads (g x)"
  shows "reads (\<lambda>d. case m d of (Inr x, d') \<Rightarrow> g x d' | (Inl e, d') \<Rightarrow> h e d')"
  unfolding reads_def
proof
  fix d
  show "snd (case m d of (Inr x, d') \<Rightarrow> g x d' | (Inl e, d') \<Rightarrow> h e d') = d"
    using assms(1) by (rule readsE [of m d]) (use assms(2,3) in \<open>simp_all add: reads_def\<close>)
qed

lemma reads_find_duplicate: "reads (find_duplicate inp pm)"
proof -
  have "reads (GetByMessageID (pm_MessageID pm))" unfolding GetByMessageID_def by (intro atomic_intros)
  from reads_recover [OF this, of "\<lambda>e d'. if IsNotFound e then (Inr None, d')
      else svc_fail ''duplicate_check'' ''failed to check for duplicate message'' e d'" "\<lambda>m d'. (Inr (Some m), d')"]
  show ?thesis by (simp add: find_duplicate_def reads_def svc_fail_def)
qed

lemma reads_orNotFound: "reads m \<Longrightarrow> reads n \<Longrightarrow> reads (orNotFound m n)"
  unfolding orNotFound_def by (rule reads_recover) (auto simp: reads_def)

lemma reads_two_parts: "(\<And>p. reads (g p)) \<Longrightarrow> reads h \<Longrightarrow> reads (case xs of [_, part] \<Rightarrow> g part | _ \<Rightarrow> h)"
  by (simp split: list.splits)

lemma reads_FindMatchingMailbox: "reads (FindMatchingMailbox a)"
  unfolding FindMatchingMailbox_def GetByAddress_def GetCatchAll_def
  by (intro reads_orNotFound reads_two_parts atomic_intros)

lemma reads_first_mailbox: "reads (first_mailbox as)"
proof (induction as)
  case (Cons a as)
  from reads_recover [OF reads_FindMatchingMailbox, of "\<lambda>_. first_mailbox as" "\<lambda>b d'. (Inr (Some b), d')" "ea_Address a"]
  show ?case using Cons by (simp add: reads_def)
qed (simp add: reads_def)

lemma reads_resolveMailbox: "reads (resolveMailbox target pm)"
proof (cases "ID_IsEmpty target")
  case True
  then show ?thesis
    by (simp add: resolveMailbox_def) (intro atomic_intros reads_first_mailbox)
next
  case False
  have "reads (mbx_GetByID target)" unfolding mbx_GetByID_def by (intro atomic_intros)
  from reads_recover [OF this, of "\<lambda>e d'. if IsNotFound e
      then svc_fail ''resolve_mailbox'' ''target mailbox not found'' (NotFoundError ''mailbox'' target) d'
      else svc_fail ''resolve_mailbox'' ''failed to get target mailbox'' e d'" "\<lambda>b d'. (Inr b, d')"]
  show ?thesis using False by (simp add: resolveMailbox_def reads_def svc_fail_def)
qed

text \<open>
  C28. Failures leave no trace: when storing, deleting, flagging or moving a message fails, for whatever
  reason and at whatever point, the database is exactly as before the call.
\<close>

theorem failed_calls_change_nothing:
  "unchanged_on_error d (StoreMessage s now inp d) \<and> unchanged_on_error d (DeleteMessage now i d) \<and>
   unchanged_on_error d (svc_MarkAsRead now i d) \<and> unchanged_on_error d (svc_MarkAsUnread now i d) \<and>
   unchanged_on_error d (MoveMessage now i target d)"
proof -
  have store: "atomic (andThen (svc_wrap op msg (Transaction False m)) (notify_stored s))" for op msg m
    by (rule atomic_then_reads) (intro atomic_intros, rule notify_stored_ok)
  have parse: "atomic (case svc_parse s x of Inl e \<Rightarrow> svc_fail op msg e | Inr pm \<Rightarrow> f pm)"
    if "\<And>pm. atomic (f pm)" for x op msg and f :: "ParsedMessage \<Rightarrow> StoreMessageResult dbm"
    using that by (auto intro: atomic_intros split: sum.splits)
  have "atomic (StoreMessage s now inp)"
    unfolding StoreMessage_def Let_def
    by (intro parse atomic_intros reads_find_duplicate reads_resolveMailbox store)
  moreover have "atomic (DeleteMessage now i)" "atomic (svc_MarkAsRead now i)" "atomic (svc_MarkAsUnread now i)"
    "atomic (MoveMessage now i target)"
    unfolding DeleteMessage_def svc_MarkAsRead_def svc_MarkAsUnread_def MoveMessage_def GetByID_def mbx_GetByID_def
    by (intro atomic_intros)+
  ultimately show ?thesis by (simp add: atomic_def)
qed

section \<open>Mailbox counters\<close>

definition adjust_unread :: "instant \<Rightarrow> int \<Rightarrow> mailboxRow \<Rightarrow> mailboxRow" where
  "adjust_unread now delta b = b\<lparr>mr_unread_count := (if delta \<ge> 0 then mr_unread_count b + delta
     else max 0 (mr_unread_count b + delta)), mr_updated_at := now\<rparr>"

lemma adjust_unread_keys [simp]: "keeps_mailbox_keys (adjust_unread now delta)"
  by (simp add: adjust_unread_def keeps_mailbox_keys_def)

lemma UpdateUnreadCount_ok:
  assumes "schema_ok d" and "b \<in> set (db_mailboxes d)" and "mr_id b = i"
  shows "UpdateUnreadCount now i delta d =
    (Inr (), d\<lparr>db_mailboxes := update_where (\<lambda>r. mr_id r = i) (adjust_unread now delta) (db_mailboxes d)\<rparr>)"
  unfolding UpdateUnreadCount_def adjust_unread_def [symmetric]
  by (rule expect_rows_pos [where n = "count_where (\<lambda>r. mr_id r = i) (db_mailboxes d)"])
    (use count_where_pos [OF assms(2), of "\<lambda>r. mr_id r = i"] assms(3) in
      \<open>simp_all add: update_mailboxes_keys [OF assms(1) adjust_unread_keys]\<close>)

text \<open>The database after the status of a message and the unread counter of its mailbox changed.\<close>

definition flagged_db :: "instant \<Rightarrow> string \<Rightarrow> int \<Rightarrow> messageRow \<Rightarrow> db \<Rightarrow> db" where
  "flagged_db now st delta r d =
     d\<lparr>db_messages := update_where (\<lambda>x. r_id x = r_id r) (\<lambda>x. x\<lparr>r_status := st, r_updated_at := now\<rparr>) (db_messages d),
       db_mailboxes := update_where (\<lambda>b. mr_id b = r_mailbox_id r) (adjust_unread now delta) (db_mailboxes d)\<rparr>"

lemma stats_row_flagged:
  assumes "stats_row ms b" and "distinct (map r_id ms)" and "r \<in> set ms"
    and "st = ''unread'' \<and> r_status r \<noteq> ''unread'' \<and> delta = 1 \<or> st \<noteq> ''unread'' \<and> r_status r = ''unread'' \<and> delta = - 1"
  shows "stats_row (update_where (\<lambda>x. r_id x = r_id r) (\<lambda>x. x\<lparr>r_status := st, r_updated_at := now\<rparr>) ms)
    (if mr_id b = r_mailbox_id r then adjust_unread now delta b else b)"
proof -
  let ?f = "\<lambda>x. x\<lparr>r_status := st, r_updated_at := now\<rparr>"
  have unread: "r_status r = ''unread'' \<Longrightarrow> count_where (unread_in (r_mailbox_id r)) ms > 0"
    by (rule count_where_pos [OF assms(3)]) (simp add: unread_in_def)
  have "count_where (in_mailbox (mr_id b)) (update_where (\<lambda>x. r_id x = r_id r) ?f ms) = count_where (in_mailbox (mr_id b)) ms"
    using count_where_update [OF assms(2,3), of "in_mailbox (mr_id b)" ?f] by (simp add: in_mailbox_def)
  moreover have "sum_size (mr_id b) (update_where (\<lambda>x. r_id x = r_id r) ?f ms) = sum_size (mr_id b) ms"
    using sum_size_update [OF assms(2,3), of "mr_id b" ?f] by (simp add: in_mailbox_def)
  moreover have "count_where (unread_in (mr_id b)) (update_where (\<lambda>x. r_id x = r_id r) ?f ms) =
      count_where (unread_in (mr_id b)) ms + (if mr_id b = r_mailbox_id r then delta else 0)"
    using count_where_update [OF assms(2,3), of "unread_in (mr_id b)" ?f] assms(4) by (auto simp: unread_in_def)
  ultimately show ?thesis
    using assms(1,4) unread by (auto simp: stats_row_def adjust_unread_def)
qed

lemma store_ok_flagged:
  assumes "store_ok d" and r: "r \<in> set (db_messages d)"
    and delta: "st = ''unread'' \<and> r_status r \<noteq> ''unread'' \<and> delta = 1 \<or> st \<noteq> ''unread'' \<and> r_status r = ''unread'' \<and> delta = - 1"
    and sc: "schema_ok (flagged_db now st delta r d)"
  shows "store_ok (flagged_db now st delta r d)"
proof -
  have d: "distinct (map r_id (db_messages d))" "list_all (stats_row (db_messages d)) (db_mailboxes d)"
    "list_all (\<lambda>x. 0 \<le> r_size x) (db_messages d)" "uids_ok d"
    using assms(1) by (auto simp: store_ok_def stats_ok_def schema_defs)
  have "stats_ok (flagged_db now st delta r d)"
    unfolding stats_ok_def
  proof
    show "list_all (stats_row (db_messages (flagged_db now st delta r d))) (db_mailboxes (flagged_db now st delta r d))"
      unfolding list_all_iff
    proof
      fix c assume "c \<in> set (db_mailboxes (flagged_db now st delta r d))"
      then obtain b where "b \<in> set (db_mailboxes d)" "c = (if mr_id b = r_mailbox_id r then adjust_unread now delta b else b)"
        by (auto simp: flagged_db_def set_update_where)
      then show "stats_row (db_messages (flagged_db now st delta r d)) c"
        using d(2) stats_row_flagged [OF _ d(1) r delta, of b now] by (simp add: flagged_db_def list_all_iff)
    qed
    show "list_all (\<lambda>x. 0 \<le> r_size x) (db_messages (flagged_db now st delta r d))"
      using d(3) by (auto simp: flagged_db_def list_all_iff set_update_where)
  qed
  moreover have "uids_ok (flagged_db now st delta r d)"
    using d(4) by (auto simp: flagged_db_def uids_ok_def uid_below_def list_all_iff set_update_where adjust_unread_def)
  ultimately show ?thesis using sc by (simp add: store_ok_def)
qed

lemma mark_flagged:
  assumes "store_ok d" and r: "r \<in> set (db_messages d)" and "r_id r \<noteq> []"
  shows "r_status r = ''unread'' \<Longrightarrow> svc_MarkAsRead now (r_id r) d = (Inr (), flagged_db now ''read'' (- 1) r d)"
    and "r_status r \<noteq> ''unread'' \<Longrightarrow> svc_MarkAsUnread now (r_id r) d = (Inr (), flagged_db now ''unread'' 1 r d)"
    and "schema_ok (flagged_db now st delta r d)"
proof -
  have sc: "schema_ok d" using assms(1) by (simp add: store_ok_def)
  obtain b where b: "b \<in> set (db_mailboxes d)" "mr_id b = r_mailbox_id r" using mailbox_of_message [OF sc r] .
  let ?f = "\<lambda>st x. x\<lparr>r_status := st, r_updated_at := now\<rparr>"
  let ?d = "\<lambda>st. d\<lparr>db_messages := update_where (\<lambda>x. r_id x = r_id r) (?f st) (db_messages d)\<rparr>"
  have keys: "keeps_message_keys (?f st)" for st by (simp add: keeps_message_keys_def)
  note upd = update_messages_keys [OF sc keys]
  have ok: "schema_ok (?d st)" for st by (rule schema_ok_update_messages [OF sc keys])
  have b': "b \<in> set (db_mailboxes (?d st))" for st using b(1) by simp
  have cnt: "UpdateUnreadCount now (r_mailbox_id r) delta (?d st) = (Inr (), flagged_db now st delta r d)" for st delta
    using UpdateUnreadCount_ok [OF ok b' b(2), of now delta st] by (simp add: flagged_db_def)
  show "r_status r = ''unread'' \<Longrightarrow> svc_MarkAsRead now (r_id r) d = (Inr (), flagged_db now ''read'' (- 1) r d)"
    using assms(3) GetByID_found [OF sc r] cnt
    by (simp add: svc_MarkAsRead_def MarkAsRead_def require_id_def ID_IsEmpty_def andThen_def svc_wrap_def wrap_def
        Transaction_def upd MessageRead_def flagged_db_def)
  show "r_status r \<noteq> ''unread'' \<Longrightarrow> svc_MarkAsUnread now (r_id r) d = (Inr (), flagged_db now ''unread'' 1 r d)"
    using assms(3) GetByID_found [OF sc r] cnt
    by (simp add: svc_MarkAsUnread_def MarkAsUnread_def require_id_def ID_IsEmpty_def andThen_def svc_wrap_def wrap_def
        Transaction_def upd MessageUnread_def flagged_db_def)
  show "schema_ok (flagged_db now st delta r d)"
    using schema_ok_update_mailboxes [OF ok adjust_unread_keys, where P = "\<lambda>b. mr_id b = r_mailbox_id r"] by (simp add: flagged_db_def)
qed

lemma mark_noop:
  assumes "store_ok d" and r: "r \<in> set (db_messages d)" and "r_id r \<noteq> []"
  shows "r_status r = ''read'' \<Longrightarrow> svc_MarkAsRead now (r_id r) d = (Inr (), d)"
    and "r_status r = ''unread'' \<Longrightarrow> svc_MarkAsUnread now (r_id r) d = (Inr (), d)"
proof -
  have sc: "schema_ok d" using assms(1) by (simp add: store_ok_def)
  show "r_status r = ''read'' \<Longrightarrow> svc_MarkAsRead now (r_id r) d = (Inr (), d)"
    "r_status r = ''unread'' \<Longrightarrow> svc_MarkAsUnread now (r_id r) d = (Inr (), d)"
    using assms(3) GetByID_found [OF sc r]
    by (simp_all add: svc_MarkAsRead_def svc_MarkAsUnread_def MarkAsRead_def MarkAsUnread_def require_id_def
        ID_IsEmpty_def andThen_def svc_wrap_def wrap_def Transaction_def MessageRead_def MessageUnread_def)
qed

lemma flagged_status:
  assumes "r \<in> set (db_messages d)"
  shows "\<exists>x \<in> set (db_messages (flagged_db now st delta r d)). r_id x = r_id r \<and> r_status x = st"
  using assms by (intro bexI [of _ "r\<lparr>r_status := st, r_updated_at := now\<rparr>"]) (auto simp: flagged_db_def set_update_where)

text \<open>
  Marking a message as read or unread through the service succeeds, sets the status, and keeps the store
  consistent: the unread counter of the mailbox still equals its number of unread messages.
\<close>

theorem marking_keeps_counters:
  assumes "store_ok d" and "r \<in> set (db_messages d)" and "r_id r \<noteq> []"
    and "r_status r = ''read'' \<or> r_status r = ''unread''"
  shows "(\<exists>d'. svc_MarkAsRead now (r_id r) d = (Inr (), d') \<and> store_ok d' \<and>
      (\<exists>x \<in> set (db_messages d'). r_id x = r_id r \<and> r_status x = ''read'')) \<and>
    (\<exists>d'. svc_MarkAsUnread now (r_id r) d = (Inr (), d') \<and> store_ok d' \<and>
      (\<exists>x \<in> set (db_messages d'). r_id x = r_id r \<and> r_status x = ''unread''))"
proof (cases "r_status r = ''unread''")
  case True
  then show ?thesis
    using mark_flagged(1) [OF assms(1-3) True, of now] mark_noop(2) [OF assms(1-3) True, of now] flagged_status [OF assms(2)]
      store_ok_flagged [OF assms(1,2) _ mark_flagged(3) [OF assms(1-3)]] assms(1,2) by auto
next
  case False
  then have read: "r_status r = ''read''" using assms(4) by simp
  then show ?thesis
    using mark_flagged(2) [OF assms(1-3) False, of now] mark_noop(1) [OF assms(1-3) read, of now] flagged_status [OF assms(2)]
      store_ok_flagged [OF assms(1,2) _ mark_flagged(3) [OF assms(1-3)]] assms(1,2) by auto
qed

theorem marking_keeps_counters_witness:
  "\<exists>d'. svc_MarkAsRead 20 ''m1'' two_messages_db = (Inr (), d') \<and> store_ok d'"
proof -
  let ?r = "hd (db_messages two_messages_db)"
  have "store_ok two_messages_db" "?r \<in> set (db_messages two_messages_db)" "r_id ?r = ''m1''" "r_status ?r = ''unread''"
    by code_simp+
  then show ?thesis
    using marking_keeps_counters [of two_messages_db ?r 20] by auto
qed

section \<open>Deleting through the service\<close>

lemma DeleteByMessage_ok:
  assumes "schema_ok d"
  shows "\<exists>n as. DeleteByMessage i d = (Inr n, d\<lparr>db_attachments := as\<rparr>) \<and> schema_ok (d\<lparr>db_attachments := as\<rparr>)"
proof -
  let ?f = "\<lambda>r. r\<lparr>ar_content := None\<rparr>" and ?P = "\<lambda>r. ar_message_id r = i"
  let ?d = "d\<lparr>db_attachments := update_where ?P ?f (db_attachments d)\<rparr>"
  have "keeps_attachment_keys ?f" by (simp add: keeps_attachment_keys_def)
  note upd = update_attachments_ok [OF assms this, of ?P]
  show ?thesis
    using upd(1) delete_attachments_ok [OF upd(2), of ?P]
    by (simp add: DeleteByMessage_def delete_content_def andThen_def wrap_def) blast
qed

text \<open>
  \<^verbatim>\<open>DeleteMessage\<close> counts the deletion twice: \<^verbatim>\<open>Messages().Delete\<close> already lowers the mailbox counters, and
  the service lowers them again. Starting from a consistent store, deleting one of two or more
  messages of a mailbox succeeds and leaves a message count one below the number of stored messages.
\<close>

theorem delete_counts_twice:
  assumes "store_ok d" and "r \<in> set (db_messages d)" and "r_id r \<noteq> []"
    and "count_where (in_mailbox (r_mailbox_id r)) (db_messages d) \<ge> 2"
  shows "\<exists>d'. DeleteMessage now (r_id r) d = (Inr (), d') \<and> r_id r \<notin> r_id ` set (db_messages d') \<and>
    (\<exists>b \<in> set (db_mailboxes d'). mr_id b = r_mailbox_id r \<and>
       mr_message_count b = count_where (in_mailbox (mr_id b)) (db_messages d') - 1)"
proof -
  let ?u = "r_status r = MessageUnread"
  have sc: "schema_ok d" using assms(1) by (simp add: store_ok_def)
  obtain n as where del: "DeleteByMessage (r_id r) d = (Inr n, d\<lparr>db_attachments := as\<rparr>)" "schema_ok (d\<lparr>db_attachments := as\<rparr>)"
    using DeleteByMessage_ok [OF sc] by blast
  let ?d1 = "d\<lparr>db_attachments := as\<rparr>" let ?d2 = "deleted_db now r ?d1"
  have r1: "r \<in> set (db_messages ?d1)" using assms(2) by simp
  note del2 = Delete_ok [OF del(2) r1, of now]
  obtain b where b: "b \<in> set (db_mailboxes d)" "mr_id b = r_mailbox_id r" using mailbox_of_message [OF sc assms(2)] .
  let ?b2 = "drop_row now (r_size r) ?u b"
  have b2: "?b2 \<in> set (db_mailboxes ?d2)" "mr_id ?b2 = r_mailbox_id r"
    using b by (auto simp: deleted_db_def set_update_where drop_row_def)
  let ?d3 = "?d2\<lparr>db_mailboxes := update_where (\<lambda>c. mr_id c = r_mailbox_id r) (drop_row now (r_size r) ?u) (db_mailboxes ?d2)\<rparr>"
  have run: "DeleteMessage now (r_id r) d = (Inr (), ?d3)"
    using assms(3) GetByID_found [OF sc assms(2)] del(1) del2(1) DecrementMessageCount_ok [OF del2(2) b2, of now "r_size r" ?u]
    by (simp add: DeleteMessage_def require_id_def ID_IsEmpty_def andThen_def svc_wrap_def wrap_def Transaction_def)
  have ms: "db_messages ?d3 = filter (\<lambda>x. r_id x \<noteq> r_id r) (db_messages d)"
    by (simp add: deleted_db_def cascade_children_def)
  have "mr_message_count b = count_where (in_mailbox (mr_id b)) (db_messages d)"
    using assms(1) b(1) by (auto simp: store_ok_def stats_ok_def stats_row_def list_all_iff)
  moreover have "count_where (in_mailbox (mr_id b)) (db_messages ?d3) = count_where (in_mailbox (mr_id b)) (db_messages d) - 1"
    using count_where_remove [of r_id "db_messages d" r "in_mailbox (mr_id b)"] sc assms(2) b(2)
    by (simp add: ms schema_defs in_mailbox_def)
  moreover have "drop_row now (r_size r) ?u ?b2 \<in> set (db_mailboxes ?d3)"
    using b2 by (auto simp: set_update_where)
  ultimately have "\<exists>c \<in> set (db_mailboxes ?d3). mr_id c = r_mailbox_id r \<and>
      mr_message_count c = count_where (in_mailbox (mr_id c)) (db_messages ?d3) - 1"
    using b(2) assms(4) by (intro bexI [of _ "drop_row now (r_size r) ?u ?b2"]) (simp_all add: drop_row_def)
  moreover have "r_id r \<notin> r_id ` set (db_messages ?d3)" by (auto simp: ms)
  ultimately show ?thesis using run by blast
qed

definition three_messages_db :: db where
  "three_messages_db = snd (Create 9 (sample_message ''m3'' ''a'') two_messages_db)"

theorem delete_counts_twice_witness:
  "\<exists>d'. DeleteMessage 20 ''m1'' three_messages_db = (Inr (), d') \<and>
    (\<exists>b \<in> set (db_mailboxes d'). mr_id b = ''a'' \<and> mr_message_count b = count_where (in_mailbox ''a'') (db_messages d') - 1)"
proof -
  let ?r = "hd (db_messages three_messages_db)"
  have "store_ok three_messages_db" "?r \<in> set (db_messages three_messages_db)" "r_id ?r = ''m1''"
    "r_mailbox_id ?r = ''a''" "count_where (in_mailbox ''a'') (db_messages three_messages_db) \<ge> 2"
    by code_simp+
  then show ?thesis
    using delete_counts_twice [of three_messages_db ?r 20] by fastforce
qed

text \<open>
  The notification of a delivered message carries the number of messages in the mailbox where its
  IMAP UID belongs: whenever the mailbox has handed out more UIDs than it holds messages (after any
  deletion), the announced UID is not the UID of the message.
\<close>

theorem notice_has_wrong_uid:
  assumes "svc_notify s" and "\<not> smr_IsDuplicate res" and "smr_Message res = m"
    and "msg_IMAPUID m = word_of_int uid" and "0 \<le> uid" and "uid < 2 ^ 32"
    and "count_where (\<lambda>r. r_mailbox_id r = msg_MailboxID m) (db_messages d) < uid"
  shows "\<exists>res' n. notify_stored s res d = (Inr res', d) \<and> smr_Notice res' = Some n \<and>
    nn_MessageID n = msg_ID m \<and> nn_UID n \<noteq> msg_IMAPUID m"
proof -
  let ?c = "count_where (\<lambda>r. r_mailbox_id r = msg_MailboxID m) (db_messages d)"
  have "uint (word_of_int ?c :: 32 word) = ?c" "uint (word_of_int uid :: 32 word) = uid"
    using assms(5-7) by (auto intro!: uint_uid simp: scan_uint32_def)
  then have "(word_of_int ?c :: 32 word) \<noteq> word_of_int uid"
    using assms(7) by (metis less_irrefl)
  then show ?thesis
    using assms(1-4) by (simp add: notify_stored_def CountByMailbox_def)
qed

theorem notice_has_wrong_uid_witness:
  "\<exists>res' n. notify_stored sample_service
      \<lparr>smr_Message = (sample_message ''m9'' ''a'')\<lparr>msg_IMAPUID := word_of_int 5\<rparr>, smr_Attachments = [],
       smr_IsDuplicate = False, smr_DuplicateID = [], smr_Notice = None\<rparr> three_messages_db = (Inr res', three_messages_db) \<and>
     smr_Notice res' = Some n \<and> nn_UID n \<noteq> 5"
proof -
  let ?m = "(sample_message ''m9'' ''a'')\<lparr>msg_IMAPUID := word_of_int 5\<rparr>"
  have "svc_notify sample_service" "count_where (\<lambda>r. r_mailbox_id r = msg_MailboxID ?m) (db_messages three_messages_db) < 5"
    by code_simp+
  then show ?thesis
    using notice_has_wrong_uid [of sample_service "\<lparr>smr_Message = ?m, smr_Attachments = [],
       smr_IsDuplicate = False, smr_DuplicateID = [], smr_Notice = None\<rparr>" ?m 5 three_messages_db]
    by auto
qed

end
