(* ===== verification/Imap_Names.thy ===== *)
theory Imap_Names
  imports Domain_Model
begin

unbundle bit_operations_syntax

text \<open>
  Mailbox names of the IMAP server: \<^verbatim>\<open>internal/imap/mailbox.go\<close> (names, attributes, the data of SELECT and
  STATUS, paths and name validation) and the pattern matching of \<^verbatim>\<open>internal/imap/mailbox_list.go\<close>.

  The constants of the protocol library (\<^verbatim>\<open>imap.Flag\<close>, \<^verbatim>\<open>imap.MailboxAttr\<close>) are constructors of a datatype: the
  code only compares them. The library's response structures are records with the fields the code sets.
  \<^verbatim>\<open>matchWildcard\<close> is a recursion whose end is not evident from its text; it is a \<^theory_text>\<open>partial_function\<close>, so that not
  returning would be the value \<open>None\<close>, and the theory shows that it always returns and what it decides.
\<close>

section \<open>Names\<close>

definition MailboxHierarchySeparator :: char where
  "MailboxHierarchySeparator = CHR ''/''"

definition imap_SystemMailboxNames :: "string list" where
  "imap_SystemMailboxNames = [''INBOX'', ''Sent'', ''Drafts'', ''Trash'', ''Spam'']"

definition SystemMailboxNameMap :: "string \<Rightarrow> bool" where
  "SystemMailboxNameMap name \<longleftrightarrow> name \<in> {''INBOX'', ''Sent'', ''Drafts'', ''Trash'', ''Spam''}"

definition IsSystemMailbox :: "string \<Rightarrow> bool" where
  "IsSystemMailbox name \<longleftrightarrow> EqualFold name ''INBOX'' \<or> SystemMailboxNameMap name"

definition NormalizeMailboxName :: "string \<Rightarrow> string" where
  "NormalizeMailboxName name = (if EqualFold name ''INBOX'' then ''INBOX'' else name)"

section \<open>Attributes and list data\<close>

datatype MailboxAttr =
    MailboxAttrNoSelect | MailboxAttrAll | MailboxAttrArchive | MailboxAttrDrafts | MailboxAttrFlagged
  | MailboxAttrJunk | MailboxAttrSent | MailboxAttrTrash | MailboxAttrImportant

record MailboxInfo =
  mi_Name :: string
  mi_Delimiter :: string
  mi_Attributes :: "MailboxAttr list"
  mi_IsSystem :: bool

record ListData =
  ld_Mailbox :: string
  ld_Delim :: char
  ld_Attrs :: "MailboxAttr list"

definition getMailboxAttributes :: "string \<Rightarrow> MailboxAttr list" where
  "getMailboxAttributes name =
     (if EqualFold name ''INBOX'' then []
      else if name = ''Sent'' then [MailboxAttrSent]
      else if name = ''Drafts'' then [MailboxAttrDrafts]
      else if name = ''Trash'' then [MailboxAttrTrash]
      else if name = ''Spam'' then [MailboxAttrJunk] else [])"

definition NewMailboxInfo :: "Mailbox \<Rightarrow> MailboxInfo" where
  "NewMailboxInfo mailbox =
     (let name = NormalizeMailboxName (mb_Name mailbox) in
      \<lparr>mi_Name = name, mi_Delimiter = [MailboxHierarchySeparator], mi_Attributes = getMailboxAttributes name,
       mi_IsSystem = IsSystemMailbox name\<rparr>)"

definition ToIMAPListData :: "MailboxInfo \<Rightarrow> ListData" where
  "ToIMAPListData m = \<lparr>ld_Mailbox = mi_Name m, ld_Delim = hd (mi_Delimiter m), ld_Attrs = mi_Attributes m\<rparr>"

section \<open>Status and select data\<close>

text \<open>
  \<^verbatim>\<open>generateUIDValidity\<close>: the creation second as a 32-bit number, mixed with the low 16 bits of a hash of the ID.
\<close>

definition id_hash :: "ID \<Rightarrow> 32 word" where
  "id_hash i = foldl (\<lambda>h c. h * 31 + of_nat (of_char c)) 0 i"

definition generateUIDValidity :: "Mailbox \<Rightarrow> 32 word" where
  "generateUIDValidity mailbox =
     (let ts = word_of_int (mb_CreatedAt mailbox div Second);
          ts = (if ts = 0 then 1 else ts)
      in ts XOR (id_hash (mb_ID mailbox) AND 0xFFFF))"

record MailboxStatus =
  st_Name :: string
  st_Messages :: "32 word"
  st_Recent :: "32 word"
  st_Unseen :: "32 word"
  st_UIDNext :: "32 word"
  st_UIDValidity :: "32 word"
  st_Size :: int

definition NewMailboxStatus :: "Mailbox \<Rightarrow> MailboxStatus" where
  "NewMailboxStatus mailbox =
     \<lparr>st_Name = NormalizeMailboxName (mb_Name mailbox), st_Messages = word_of_int (mb_MessageCount mailbox),
      st_Recent = 0, st_Unseen = word_of_int (mb_UnreadCount mailbox), st_UIDNext = mb_UIDNext mailbox,
      st_UIDValidity = generateUIDValidity mailbox, st_Size = mb_TotalSize mailbox\<rparr>"

record StatusOptions =
  sto_NumMessages :: bool
  sto_NumUnseen :: bool
  sto_UIDNext :: bool
  sto_UIDValidity :: bool

record StatusData =
  sd_Mailbox :: string
  sd_NumMessages :: "32 word option"
  sd_NumUnseen :: "32 word option"
  sd_UIDNext :: "32 word"
  sd_UIDValidity :: "32 word"

definition ToIMAPStatusData :: "StatusOptions option \<Rightarrow> MailboxStatus \<Rightarrow> StatusData" where
  "ToIMAPStatusData options s =
     (case options of
        None \<Rightarrow> \<lparr>sd_Mailbox = st_Name s, sd_NumMessages = Some (st_Messages s), sd_NumUnseen = Some (st_Unseen s),
                 sd_UIDNext = st_UIDNext s, sd_UIDValidity = st_UIDValidity s\<rparr>
      | Some opt \<Rightarrow>
          \<lparr>sd_Mailbox = st_Name s,
           sd_NumMessages = (if sto_NumMessages opt then Some (st_Messages s) else None),
           sd_NumUnseen = (if sto_NumUnseen opt then Some (st_Unseen s) else None),
           sd_UIDNext = (if sto_UIDNext opt then st_UIDNext s else 0),
           sd_UIDValidity = (if sto_UIDValidity opt then st_UIDValidity s else 0)\<rparr>)"

datatype imap_flag =
    FlagSeen | FlagAnswered | FlagFlagged | FlagDeleted | FlagDraft | FlagWildcard | FlagJunk | OtherFlag string

record SelectData =
  sel_Flags :: "imap_flag list"
  sel_PermanentFlags :: "imap_flag list"
  sel_NumMessages :: "32 word"
  sel_NumRecent :: "32 word"
  sel_FirstUnseen :: "32 word"
  sel_UIDNext :: "32 word"
  sel_UIDValidity :: "32 word"

text \<open>\<^verbatim>\<open>ToIMAPSelectData\<close> copies the fields; \<^verbatim>\<open>FirstUnseen\<close> is always zero and is then left out.\<close>

definition NewSelectData :: "Mailbox \<Rightarrow> SelectData" where
  "NewSelectData mailbox =
     \<lparr>sel_Flags = [FlagSeen, FlagAnswered, FlagFlagged, FlagDeleted, FlagDraft],
      sel_PermanentFlags = [FlagSeen, FlagAnswered, FlagFlagged, FlagDeleted, FlagDraft, FlagWildcard],
      sel_NumMessages = word_of_int (mb_MessageCount mailbox), sel_NumRecent = 0, sel_FirstUnseen = 0,
      sel_UIDNext = mb_UIDNext mailbox, sel_UIDValidity = generateUIDValidity mailbox\<rparr>"

section \<open>Paths\<close>

record MailboxPath =
  mp_Full :: string
  mp_Parts :: "string list"
  mp_Parent :: string
  mp_Name :: string

definition ParseMailboxPath :: "string \<Rightarrow> MailboxPath" where
  "ParseMailboxPath path =
     (let normalized = NormalizeMailboxName path; parts = Split normalized MailboxHierarchySeparator in
      \<lparr>mp_Full = normalized, mp_Parts = parts,
       mp_Parent = (if length parts > 1 then Join (butlast parts) [MailboxHierarchySeparator] else []),
       mp_Name = last parts\<rparr>)"

definition IsChildOf :: "MailboxPath \<Rightarrow> string \<Rightarrow> bool" where
  "IsChildOf p parent \<longleftrightarrow>
     parent = [] \<or> HasPrefix (mp_Full p) (NormalizeMailboxName parent @ [MailboxHierarchySeparator])"

definition Depth :: "MailboxPath \<Rightarrow> int" where
  "Depth p = int (length (mp_Parts p)) - 1"

definition ValidateMailboxName :: "string \<Rightarrow> error option" where
  "ValidateMailboxName name =
     (if name = [] then Some (ValidationError ''name'' ''mailbox name cannot be empty'')
      else if length name > 255
      then Some (ValidationError ''name'' ''mailbox name too long (max 255 characters)'')
      else if ContainsAny name ''*%''
      then Some (ValidationError ''name'' ''mailbox name cannot contain wildcard characters (* or %)'')
      else if list_ex (\<lambda>part. part = []) (Split name MailboxHierarchySeparator)
      then Some (ValidationError ''name'' ''mailbox name cannot have empty path components'')
      else None)"

section \<open>Patterns\<close>

definition equalFoldChar :: "char \<Rightarrow> char \<Rightarrow> bool" where
  "equalFoldChar a b \<longleftrightarrow> a = b \<or> lower_char a = lower_char b"

partial_function (option) matchWildcard :: "string \<Rightarrow> string \<Rightarrow> nat \<Rightarrow> nat \<Rightarrow> bool option" where
  "matchWildcard name pat ni pi =
     (if ni < length name \<or> pi < length pat then
        if pi \<ge> length pat then Some False
        else if pat ! pi = CHR ''*'' then
          Option.bind (matchWildcard name pat ni (pi + 1)) (\<lambda>matched.
            if matched then Some True
            else if ni < length name then matchWildcard name pat (ni + 1) pi
            else Some False)
        else if pat ! pi = CHR ''%'' then
          Option.bind (matchWildcard name pat ni (pi + 1)) (\<lambda>matched.
            if matched then Some True
            else if ni < length name \<and> name ! ni \<noteq> MailboxHierarchySeparator then matchWildcard name pat (ni + 1) pi
            else Some False)
        else if ni \<ge> length name then Some False
        else if \<not> equalFoldChar (name ! ni) (pat ! pi) then Some False
        else matchWildcard name pat (ni + 1) (pi + 1)
      else Some (ni = length name \<and> pi = length pat))"

definition matchMailboxPattern :: "string \<Rightarrow> string \<Rightarrow> string \<Rightarrow> bool option" where
  "matchMailboxPattern name ref pat =
     (let fullPattern = (if ref \<noteq> [] \<and> \<not> HasPrefix pat ref then ref @ [MailboxHierarchySeparator] @ pat else pat);
          name = NormalizeMailboxName name;
          fullPattern = NormalizeMailboxName fullPattern
      in if \<not> ContainsAny fullPattern ''*%'' then Some (EqualFold name fullPattern)
         else matchWildcard name fullPattern 0 0)"

section \<open>What a pattern means\<close>

text \<open>
  The meaning RFC 3501 gives to a pattern: a star stands for any run of characters, a percent sign for a run
  without the hierarchy separator, any other character for itself up to ASCII case.
\<close>

fun wild :: "string \<Rightarrow> string \<Rightarrow> bool" where
  "wild [] s \<longleftrightarrow> s = []"
| "wild (p # ps) s \<longleftrightarrow>
     (if p = CHR ''*'' then \<exists>k \<le> length s. wild ps (drop k s)
      else if p = CHR ''%'' then \<exists>k \<le> length s. MailboxHierarchySeparator \<notin> set (take k s) \<and> wild ps (drop k s)
      else case s of [] \<Rightarrow> False | c # cs \<Rightarrow> lower_char c = lower_char p \<and> wild ps cs)"

lemma wild_star_Nil: "wild (CHR ''*'' # ps) [] = wild ps []"
  by simp

lemma wild_star_Cons: "wild (CHR ''*'' # ps) (c # cs) \<longleftrightarrow> wild ps (c # cs) \<or> wild (CHR ''*'' # ps) cs"
proof -
  have "wild ps (c # cs) \<or> (\<exists>k \<le> length cs. wild ps (drop k cs))"
    if "k \<le> Suc (length cs)" "wild ps (drop k (c # cs))" for k
    using that by (cases k) auto
  moreover have "\<exists>k \<le> Suc (length cs). wild ps (drop k (c # cs))" if "wild ps (c # cs)"
    using that by (intro exI [of _ 0]) simp
  moreover have "\<exists>k \<le> Suc (length cs). wild ps (drop k (c # cs))" if "k \<le> length cs" "wild ps (drop k cs)" for k
    using that by (intro exI [of _ "Suc k"]) simp
  ultimately show ?thesis by simp blast
qed

lemma wild_percent_Cons:
  "wild (CHR ''%'' # ps) (c # cs) \<longleftrightarrow>
     wild ps (c # cs) \<or> (c \<noteq> MailboxHierarchySeparator \<and> wild (CHR ''%'' # ps) cs)"
proof -
  have "(\<exists>k \<le> Suc (length cs). MailboxHierarchySeparator \<notin> set (take k (c # cs)) \<and> wild ps (drop k (c # cs))) \<longleftrightarrow>
      wild ps (c # cs) \<or> (c \<noteq> MailboxHierarchySeparator \<and>
        (\<exists>k \<le> length cs. MailboxHierarchySeparator \<notin> set (take k cs) \<and> wild ps (drop k cs)))"
    (is "?L \<longleftrightarrow> ?R")
  proof
    assume ?L
    then obtain k where k: "k \<le> Suc (length cs)" "MailboxHierarchySeparator \<notin> set (take k (c # cs))"
      "wild ps (drop k (c # cs))" by blast
    then show ?R by (cases k) auto
  next
    assume ?R
    then show ?L
    proof
      assume "wild ps (c # cs)"
      then show ?L by (intro exI [of _ 0]) simp
    next
      assume "c \<noteq> MailboxHierarchySeparator \<and>
        (\<exists>k \<le> length cs. MailboxHierarchySeparator \<notin> set (take k cs) \<and> wild ps (drop k cs))"
      then obtain k where "c \<noteq> MailboxHierarchySeparator" "k \<le> length cs"
        "MailboxHierarchySeparator \<notin> set (take k cs)" "wild ps (drop k cs)" by blast
      then show ?L by (intro exI [of _ "Suc k"]) auto
    qed
  qed
  then show ?thesis by simp
qed

lemma wild_percent_Nil: "wild (CHR ''%'' # ps) [] = wild ps []"
  by simp

lemma wild_literal:
  "p \<noteq> CHR ''*'' \<Longrightarrow> p \<noteq> CHR ''%'' \<Longrightarrow>
     wild (p # ps) s = (case s of [] \<Rightarrow> False | c # cs \<Rightarrow> lower_char c = lower_char p \<and> wild ps cs)"
  by simp

lemmas wild_rules = wild_star_Nil wild_star_Cons wild_percent_Nil wild_percent_Cons wild_literal

lemma matchWildcard_wild:
  assumes "ni \<le> length name" and "pi \<le> length pat"
  shows "matchWildcard name pat ni pi = Some (wild (drop pi pat) (drop ni name))"
  using assms
proof (induction "(length name - ni) + (length pat - pi)" arbitrary: ni pi rule: less_induct)
  case less
  have skip: "pi < length pat \<Longrightarrow>
      matchWildcard name pat ni (pi + 1) = Some (wild (drop (pi + 1) pat) (drop ni name))"
    using less.prems by (intro less.hyps) auto
  have eat: "ni < length name \<Longrightarrow>
      matchWildcard name pat (ni + 1) pi = Some (wild (drop pi pat) (drop (ni + 1) name))"
    using less.prems by (intro less.hyps) auto
  have both: "ni < length name \<Longrightarrow> pi < length pat \<Longrightarrow>
      matchWildcard name pat (ni + 1) (pi + 1) = Some (wild (drop (pi + 1) pat) (drop (ni + 1) name))"
    using less.prems by (intro less.hyps) auto
  show ?case
  proof (cases "pi < length pat")
    case False
    then show ?thesis
      using less.prems by (subst matchWildcard.simps) auto
  next
    case True
    then have pat: "drop pi pat = pat ! pi # drop (Suc pi) pat"
      by (simp add: Cons_nth_drop_Suc)
    show ?thesis
    proof (cases "ni < length name")
      case in_name: True
      then have "drop ni name = name ! ni # drop (Suc ni) name"
        by (simp add: Cons_nth_drop_Suc)
      then show ?thesis
        using True in_name skip eat both pat
        by (subst matchWildcard.simps) (auto simp: wild_rules equalFoldChar_def simp del: wild.simps)
    next
      case at_end: False
      then have "drop ni name = []" using less.prems by simp
      then show ?thesis
        using True at_end skip pat
        by (subst matchWildcard.simps) (auto simp: wild_rules simp del: wild.simps)
    qed
  qed
qed

text \<open>The case of a name does not matter, so normalizing INBOX does not either.\<close>

lemma lower_char_fixed: "\<not> letter_char x \<Longrightarrow> lower_char c = x \<longleftrightarrow> c = x"
  using lower_char_letter lower_char_same by metis

lemma fixed_chars [simp]:
  "lower_char c = MailboxHierarchySeparator \<longleftrightarrow> c = MailboxHierarchySeparator"
  "lower_char c = CHR ''*'' \<longleftrightarrow> c = CHR ''*''"
  "lower_char c = CHR ''%'' \<longleftrightarrow> c = CHR ''%''"
  by (rule lower_char_fixed; simp add: letter_char_def in_range_def MailboxHierarchySeparator_def)+

lemma ToLower_take_drop:
  assumes "ToLower s = ToLower t"
  shows "ToLower (drop k s) = ToLower (drop k t)"
    and "MailboxHierarchySeparator \<in> set (take k s) \<longleftrightarrow> MailboxHierarchySeparator \<in> set (take k t)"
proof -
  show "ToLower (drop k s) = ToLower (drop k t)"
    using assms by (metis ToLower_def drop_map)
  have "ToLower (take k s) = ToLower (take k t)"
    using assms by (metis ToLower_def take_map)
  then have "lower_char ` set (take k s) = lower_char ` set (take k t)"
    by (metis ToLower_def list.set_map)
  then show "MailboxHierarchySeparator \<in> set (take k s) \<longleftrightarrow> MailboxHierarchySeparator \<in> set (take k t)"
    by (metis (no_types, lifting) image_iff fixed_chars(1))
qed

lemma wild_fold: "ToLower p = ToLower q \<Longrightarrow> ToLower s = ToLower t \<Longrightarrow> wild p s = wild q t"
proof (induction p arbitrary: q s t)
  case Nil
  then show ?case by (auto simp: ToLower_def)
next
  case (Cons x p)
  from Cons.prems(1) obtain y q' where q: "q = y # q'" "lower_char x = lower_char y" "ToLower p = ToLower q'"
    by (cases q) (auto simp: ToLower_def)
  have special: "x = CHR ''*'' \<longleftrightarrow> y = CHR ''*''" "x = CHR ''%'' \<longleftrightarrow> y = CHR ''%''"
    using q(2) fixed_chars(2,3) by metis+
  have len: "length s = length t"
    using Cons.prems(2) by (metis length_ToLower)
  have rest: "wild p (drop k s) = wild q' (drop k t)" for k
    by (rule Cons.IH [OF q(3) ToLower_take_drop(1) [OF Cons.prems(2)]])
  show ?case
  proof (cases "x = CHR ''*'' \<or> x = CHR ''%''")
    case True
    then show ?thesis
      using special q(1) len rest ToLower_take_drop(2) [OF Cons.prems(2)] by auto
  next
    case False
    then show ?thesis
      using special q Cons.prems(2) Cons.IH [OF q(3)] by (cases s; cases t) (auto simp: ToLower_def)
  qed
qed

lemma ToLower_Normalize [simp]: "ToLower (NormalizeMailboxName s) = ToLower s"
  by (auto simp: NormalizeMailboxName_def EqualFold_def)

lemma wild_plain: "\<not> ContainsAny p ''*%'' \<Longrightarrow> wild p s \<longleftrightarrow> EqualFold s p"
proof (induction p arbitrary: s)
  case Nil
  then show ?case by (auto simp: EqualFold_def ToLower_def)
next
  case (Cons c p)
  then show ?case by (cases s) (auto simp: EqualFold_def ToLower_def ContainsAny_def)
qed

text \<open>The pattern LIST works with: the reference goes in front of it unless it is there already.\<close>

definition full_pattern :: "string \<Rightarrow> string \<Rightarrow> string" where
  "full_pattern ref pat = (if ref \<noteq> [] \<and> \<not> HasPrefix pat ref then ref @ [MailboxHierarchySeparator] @ pat else pat)"

lemma matchMailboxPattern_wild: "matchMailboxPattern name ref pat = Some (wild (full_pattern ref pat) name)"
proof -
  have "wild (NormalizeMailboxName p) (NormalizeMailboxName s) = wild p s" for p s
    by (rule wild_fold) simp_all
  then show ?thesis
    using wild_plain [of "NormalizeMailboxName (full_pattern ref pat)" "NormalizeMailboxName name"]
    by (simp add: matchMailboxPattern_def full_pattern_def Let_def matchWildcard_wild)
qed

lemma wild_prefix: "\<not> ContainsAny r ''*%'' \<Longrightarrow> wild (r @ p) (r @ s) = wild p s"
  by (induction r) (auto simp: ContainsAny_def)


section \<open>Names and their parents\<close>

lemma Join_snoc: "ps \<noteq> [] \<Longrightarrow> Join (ps @ [p]) sep = Join ps sep @ sep @ p"
  by (induction ps sep rule: Join.induct) auto

lemma Split_Join: "ps \<noteq> [] \<Longrightarrow> (\<And>p. p \<in> set ps \<Longrightarrow> sep \<notin> set p) \<Longrightarrow> Split (Join ps [sep]) sep = ps"
  by (induction ps "[sep]" rule: Join.induct) (auto simp: Split_no_sep Split_append_sep)

lemma valid_name_iff:
  "ValidateMailboxName n = None \<longleftrightarrow> n \<noteq> [] \<and> length n \<le> 255 \<and> \<not> ContainsAny n ''*%'' \<and>
     [] \<notin> set (Split n MailboxHierarchySeparator)"
  by (auto simp: ValidateMailboxName_def list_ex_iff)

lemma inbox_no_sep:
  assumes "EqualFold n ''INBOX''"
  shows "MailboxHierarchySeparator \<notin> set n"
proof -
  have "lower_char ` set n = lower_char ` set ''INBOX''"
    using assms by (metis EqualFold_def ToLower_def list.set_map)
  moreover have "MailboxHierarchySeparator \<notin> lower_char ` set ''INBOX''"
  proof -
    have "MailboxHierarchySeparator \<notin> set ''INBOX''"
      by (simp add: MailboxHierarchySeparator_def)
    then show ?thesis using fixed_chars(1) by (metis imageE)
  qed
  ultimately show ?thesis
    using fixed_chars(1) by (metis imageI)
qed

lemma parent_name_split:
  assumes "length (Split n MailboxHierarchySeparator) > 1"
  shows "n = mp_Parent (ParseMailboxPath n) @ [MailboxHierarchySeparator] @ mp_Name (ParseMailboxPath n)"
    and "Split (mp_Parent (ParseMailboxPath n)) MailboxHierarchySeparator = butlast (Split n MailboxHierarchySeparator)"
proof -
  let ?ps = "Split n MailboxHierarchySeparator"
  have norm: "NormalizeMailboxName n = n"
    using assms inbox_no_sep [of n] by (auto simp: NormalizeMailboxName_def Split_no_sep)
  have ne: "butlast ?ps \<noteq> []"
    using assms by (cases ?ps rule: rev_cases) auto
  have "n = Join (butlast ?ps @ [last ?ps]) [MailboxHierarchySeparator]"
    by simp
  also have "\<dots> = Join (butlast ?ps) [MailboxHierarchySeparator] @ [MailboxHierarchySeparator] @ last ?ps"
    by (rule Join_snoc [OF ne])
  finally show "n = mp_Parent (ParseMailboxPath n) @ [MailboxHierarchySeparator] @ mp_Name (ParseMailboxPath n)"
    using assms norm by (simp add: ParseMailboxPath_def Let_def)
  show "Split (mp_Parent (ParseMailboxPath n)) MailboxHierarchySeparator = butlast ?ps"
    using assms norm ne Split_Join [OF ne, of MailboxHierarchySeparator]
    by (simp add: ParseMailboxPath_def Let_def) (metis Split_parts in_set_butlastD)
qed

text \<open>C27. The mailbox hierarchy is well formed: a valid mailbox name with a parent is the parent,
  the separator and its last component, which is not empty; the parent is itself a valid name, one level up.\<close>

theorem valid_name_has_valid_parent:
  assumes valid: "ValidateMailboxName n = None" and inner: "mp_Parent (ParseMailboxPath n) \<noteq> []"
  shows "ValidateMailboxName (mp_Parent (ParseMailboxPath n)) = None
    \<and> n = mp_Parent (ParseMailboxPath n) @ [MailboxHierarchySeparator] @ mp_Name (ParseMailboxPath n)
    \<and> mp_Name (ParseMailboxPath n) \<noteq> []
    \<and> Depth (ParseMailboxPath n) = Depth (ParseMailboxPath (mp_Parent (ParseMailboxPath n))) + 1"
proof -
  let ?sep = "MailboxHierarchySeparator" and ?name = "mp_Name (ParseMailboxPath n)"
  let ?parent = "mp_Parent (ParseMailboxPath n)"
  have more: "length (Split (NormalizeMailboxName n) ?sep) > 1"
    using inner by (auto simp: ParseMailboxPath_def Let_def split: if_splits)
  have norm: "NormalizeMailboxName n = n"
    using more by (auto simp: NormalizeMailboxName_def MailboxHierarchySeparator_def)
  note split = parent_name_split [OF more [unfolded norm]]
  have parts: "set (butlast (Split n ?sep)) \<subseteq> set (Split n ?sep)"
    by (auto dest: in_set_butlastD)
  have ok: "ValidateMailboxName ?parent = None"
  proof -
    have "length ?parent \<le> length n"
      using arg_cong [OF split(1), of length] by (metis le_add1 length_append)
    moreover have "set ?parent \<subseteq> set n"
      using arg_cong [OF split(1), of set] by (metis Un_upper1 set_append)
    ultimately show ?thesis
      using valid inner parts split(2) by (auto simp: valid_name_iff ContainsAny_def list_ex_iff)
  qed
  have name: "?name \<in> set (Split n ?sep)"
    using norm by (simp add: ParseMailboxPath_def Let_def)
  have "length (Split (NormalizeMailboxName ?parent) ?sep) = length (Split ?parent ?sep)"
  proof (cases "NormalizeMailboxName ?parent = ?parent")
    case False
    then have "EqualFold ?parent ''INBOX''"
      by (auto simp: NormalizeMailboxName_def split: if_splits)
    then show ?thesis
      using inbox_no_sep [of ?parent] inbox_no_sep [OF EqualFold_refl]
      by (auto simp: NormalizeMailboxName_def Split_no_sep)
  qed simp
  then have depth: "Depth (ParseMailboxPath n) = Depth (ParseMailboxPath ?parent) + 1"
    using norm more split(2) by (simp add: Depth_def ParseMailboxPath_def Let_def)
  show ?thesis
    using ok split(1) name valid depth by (auto simp: valid_name_iff)
qed

theorem valid_name_has_valid_parent_witness:
  "ValidateMailboxName (mp_Parent (ParseMailboxPath ''Work/2024/Q1'')) = None
    \<and> mp_Parent (ParseMailboxPath ''Work/2024/Q1'') = ''Work/2024''
    \<and> Depth (ParseMailboxPath ''Work/2024/Q1'') = Depth (ParseMailboxPath ''Work/2024'') + 1"
proof -
  have valid: "ValidateMailboxName ''Work/2024/Q1'' = None"
    by code_simp
  have parent: "mp_Parent (ParseMailboxPath ''Work/2024/Q1'') = ''Work/2024''"
    by code_simp
  have inner: "mp_Parent (ParseMailboxPath ''Work/2024/Q1'') \<noteq> []"
    using parent by simp
  show ?thesis
    using valid_name_has_valid_parent [OF valid inner] parent by metis
qed

end
