(* ===== verification/Imap_Flags.thy ===== *)
theory Imap_Flags
  imports Imap_Names "HOL-Library.Multiset"
begin

text \<open>
  The flag sets of \<^verbatim>\<open>internal/imap/flags.go\<close> and their use by STORE (\<^verbatim>\<open>applyFlagOperation\<close> of
  \<^verbatim>\<open>internal/imap/store.go\<close>), and the two sorting loops of \<^verbatim>\<open>internal/imap/copy.go\<close>.

  A \<^verbatim>\<open>FlagSet\<close> holds a Go map from flags to \<^verbatim>\<open>true\<close>; the model keeps the keys as a list without repetition, in the
  order they were added. Go leaves the order of iteration over a map open; the slices that come from one are only
  used as sets. The locale \<open>flag_container\<close> is the interface the rest of the server relies on, through the set of
  flags a value stands for.
\<close>

section \<open>Flag sets\<close>

definition StandardFlags :: "imap_flag list" where
  "StandardFlags = [FlagSeen, FlagAnswered, FlagFlagged, FlagDeleted, FlagDraft]"

definition PermanentFlags :: "imap_flag list" where
  "PermanentFlags = [FlagSeen, FlagAnswered, FlagFlagged, FlagDeleted, FlagDraft, FlagWildcard]"

record FlagSet =
  fs_flags :: "imap_flag list"

definition NewFlagSet :: FlagSet where
  "NewFlagSet = \<lparr>fs_flags = []\<rparr>"

definition FlagSet_Add :: "imap_flag \<Rightarrow> FlagSet \<Rightarrow> FlagSet" where
  "FlagSet_Add f fs = (if f \<in> set (fs_flags fs) then fs else fs\<lparr>fs_flags := fs_flags fs @ [f]\<rparr>)"

definition FlagSet_Remove :: "imap_flag \<Rightarrow> FlagSet \<Rightarrow> FlagSet" where
  "FlagSet_Remove f fs = fs\<lparr>fs_flags := filter (\<lambda>g. g \<noteq> f) (fs_flags fs)\<rparr>"

definition FlagSet_Has :: "FlagSet \<Rightarrow> imap_flag \<Rightarrow> bool" where
  "FlagSet_Has fs f \<longleftrightarrow> f \<in> set (fs_flags fs)"

definition ToSlice :: "FlagSet \<Rightarrow> imap_flag list" where
  "ToSlice fs = fs_flags fs"

definition AddAll :: "imap_flag list \<Rightarrow> FlagSet \<Rightarrow> FlagSet" where
  "AddAll flags fs = fold FlagSet_Add flags fs"

definition RemoveAll :: "imap_flag list \<Rightarrow> FlagSet \<Rightarrow> FlagSet" where
  "RemoveAll flags fs = fold FlagSet_Remove flags fs"

definition NewFlagSetFromSlice :: "imap_flag list \<Rightarrow> FlagSet" where
  "NewFlagSetFromSlice flags = fold FlagSet_Add flags NewFlagSet"

definition Replace :: "imap_flag list \<Rightarrow> FlagSet \<Rightarrow> FlagSet" where
  "Replace flags fs = AddAll flags (fs\<lparr>fs_flags := []\<rparr>)"

definition FlagSet_Equal :: "FlagSet \<Rightarrow> FlagSet \<Rightarrow> bool" where
  "FlagSet_Equal fs other \<longleftrightarrow>
     length (fs_flags fs) = length (fs_flags other) \<and> list_all (FlagSet_Has other) (fs_flags fs)"

definition Clone :: "FlagSet \<Rightarrow> FlagSet" where
  "Clone fs = fold FlagSet_Add (fs_flags fs) NewFlagSet"

definition FlagSet_Size :: "FlagSet \<Rightarrow> int" where
  "FlagSet_Size fs = int (length (fs_flags fs))"

definition FlagSet_IsEmpty :: "FlagSet \<Rightarrow> bool" where
  "FlagSet_IsEmpty fs \<longleftrightarrow> length (fs_flags fs) = 0"

definition FlagSet_Clear :: "FlagSet \<Rightarrow> FlagSet" where
  "FlagSet_Clear fs = fs\<lparr>fs_flags := []\<rparr>"

definition NewFlagSetFromMessage :: "Message \<Rightarrow> FlagSet" where
  "NewFlagSetFromMessage msg =
     (let fs = NewFlagSet;
          fs = (if msg_Status msg = MessageRead then FlagSet_Add FlagSeen fs else fs);
          fs = (if msg_IsStarred msg then FlagSet_Add FlagFlagged fs else fs);
          fs = (if msg_IsDeleted msg then FlagSet_Add FlagDeleted fs else fs);
          fs = (if msg_IsDraft msg then FlagSet_Add FlagDraft fs else fs)
      in (if msg_IsAnswered msg then FlagSet_Add FlagAnswered fs else fs))"

definition IsStandardFlag :: "imap_flag \<Rightarrow> bool" where
  "IsStandardFlag flag =
     (case flag of FlagSeen \<Rightarrow> True | FlagAnswered \<Rightarrow> True | FlagFlagged \<Rightarrow> True | FlagDeleted \<Rightarrow> True | FlagDraft \<Rightarrow> True
      | _ \<Rightarrow> False)"

definition IsPermanentFlag :: "imap_flag \<Rightarrow> bool" where
  "IsPermanentFlag flag = True"

definition FilterPermanentFlags :: "imap_flag list \<Rightarrow> imap_flag list" where
  "FilterPermanentFlags flags = filter IsPermanentFlag flags"

section \<open>Flag changes\<close>

record FlagChange =
  fc_MessageID :: ID
  fc_SeqNum :: "32 word"
  fc_UID :: "32 word"
  fc_OldFlags :: FlagSet
  fc_NewFlags :: FlagSet

definition HasChanges :: "FlagChange \<Rightarrow> bool" where
  "HasChanges fc \<longleftrightarrow> \<not> FlagSet_Equal (fc_OldFlags fc) (fc_NewFlags fc)"

text \<open>\<^verbatim>\<open>SeenChanged\<close>, \<^verbatim>\<open>FlaggedChanged\<close>, \<^verbatim>\<open>DeletedChanged\<close>, \<^verbatim>\<open>DraftChanged\<close> and \<^verbatim>\<open>AnsweredChanged\<close> are \<open>Changed\<close> at their flag,
  the ten methods \<^verbatim>\<open>IsNowX\<close> and \<^verbatim>\<open>IsNowUnX\<close> are \<open>IsNow\<close> and \<open>IsNowUn\<close>.\<close>

definition Changed :: "imap_flag \<Rightarrow> FlagChange \<Rightarrow> bool" where
  "Changed f fc \<longleftrightarrow> FlagSet_Has (fc_OldFlags fc) f \<noteq> FlagSet_Has (fc_NewFlags fc) f"

definition IsNow :: "imap_flag \<Rightarrow> FlagChange \<Rightarrow> bool" where
  "IsNow f fc \<longleftrightarrow> \<not> FlagSet_Has (fc_OldFlags fc) f \<and> FlagSet_Has (fc_NewFlags fc) f"

definition IsNowUn :: "imap_flag \<Rightarrow> FlagChange \<Rightarrow> bool" where
  "IsNowUn f fc \<longleftrightarrow> FlagSet_Has (fc_OldFlags fc) f \<and> \<not> FlagSet_Has (fc_NewFlags fc) f"

section \<open>The operation of STORE on flags\<close>

datatype StoreFlagsOp = StoreFlagsSet | StoreFlagsAdd | StoreFlagsDel

record StoreFlags =
  stf_Op :: StoreFlagsOp
  stf_Silent :: bool
  stf_Flags :: "imap_flag list"

definition applyFlagOperation :: "FlagSet \<Rightarrow> StoreFlags \<Rightarrow> FlagSet" where
  "applyFlagOperation currentFlags storeFlags =
     (let result = Clone currentFlags; flags = FilterPermanentFlags (stf_Flags storeFlags) in
      case stf_Op storeFlags of
        StoreFlagsSet \<Rightarrow> Replace flags result
      | StoreFlagsAdd \<Rightarrow> AddAll flags result
      | StoreFlagsDel \<Rightarrow> RemoveAll flags result)"

section \<open>Sorting\<close>

text \<open>
  \<^verbatim>\<open>sortUint32\<close> and \<^verbatim>\<open>sortUint32Desc\<close> exchange the element at \<open>i\<close> with every later one that should come before it.
  \<open>exchange_pass\<close> is the inner loop: the element that ends up at \<open>i\<close> and the rest of the slice.
\<close>

fun exchange_pass :: "(32 word \<Rightarrow> 32 word \<Rightarrow> bool) \<Rightarrow> 32 word \<Rightarrow> 32 word list \<Rightarrow> 32 word \<times> 32 word list" where
  "exchange_pass wrong x [] = (x, [])"
| "exchange_pass wrong x (y # ys) =
     (if wrong x y then case exchange_pass wrong y ys of (m, zs) \<Rightarrow> (m, x # zs)
      else case exchange_pass wrong x ys of (m, zs) \<Rightarrow> (m, y # zs))"

lemma length_exchange_pass: "exchange_pass wrong x ys = (m, zs) \<Longrightarrow> length zs = length ys"
  by (induction wrong x ys arbitrary: m zs rule: exchange_pass.induct) (auto split: if_splits prod.splits)

function exchange_sort :: "(32 word \<Rightarrow> 32 word \<Rightarrow> bool) \<Rightarrow> 32 word list \<Rightarrow> 32 word list" where
  "exchange_sort wrong [] = []"
| "exchange_sort wrong (x # xs) = (case exchange_pass wrong x xs of (m, zs) \<Rightarrow> m # exchange_sort wrong zs)"
  by pat_completeness auto
termination
  by (relation "measure (\<lambda>(_, xs). length xs)") (auto dest: length_exchange_pass [OF sym])

definition sortUint32 :: "32 word list \<Rightarrow> 32 word list" where
  "sortUint32 s = exchange_sort (\<lambda>x y. x > y) s"

definition sortUint32Desc :: "32 word list \<Rightarrow> 32 word list" where
  "sortUint32Desc s = exchange_sort (\<lambda>x y. x < y) s"

section \<open>The interface of a flag set\<close>

locale flag_container =
  fixes emp :: 's
    and add :: "imap_flag \<Rightarrow> 's \<Rightarrow> 's"
    and remove :: "imap_flag \<Rightarrow> 's \<Rightarrow> 's"
    and has :: "'s \<Rightarrow> imap_flag \<Rightarrow> bool"
    and flags :: "'s \<Rightarrow> imap_flag set"
    and good :: "'s \<Rightarrow> bool"
  assumes emp: "flags emp = {}" "good emp"
    and add: "good s \<Longrightarrow> flags (add f s) = insert f (flags s)" "good s \<Longrightarrow> good (add f s)"
    and remove: "good s \<Longrightarrow> flags (remove f s) = flags s - {f}" "good s \<Longrightarrow> good (remove f s)"
    and has: "good s \<Longrightarrow> has s f \<longleftrightarrow> f \<in> flags s"
begin

lemma add_all: "good s \<Longrightarrow> flags (fold add fs s) = flags s \<union> set fs \<and> good (fold add fs s)"
  by (induction fs arbitrary: s) (auto simp: add)

lemma remove_all: "good s \<Longrightarrow> flags (fold remove fs s) = flags s - set fs \<and> good (fold remove fs s)"
  by (induction fs arbitrary: s) (auto simp: remove)

lemma from_list: "flags (fold add fs emp) = set fs" "good (fold add fs emp)"
  using add_all [OF emp(2), of fs] emp(1) by auto

end

definition flags_of :: "FlagSet \<Rightarrow> imap_flag set" where
  "flags_of fs = set (fs_flags fs)"

definition flags_ok :: "FlagSet \<Rightarrow> bool" where
  "flags_ok fs \<longleftrightarrow> distinct (fs_flags fs)"

interpretation fl: flag_container NewFlagSet FlagSet_Add FlagSet_Remove FlagSet_Has flags_of flags_ok
  by unfold_locales
    (auto simp: NewFlagSet_def FlagSet_Add_def FlagSet_Remove_def FlagSet_Has_def flags_of_def flags_ok_def)

lemma Clone_flags: "flags_of (Clone fs) = flags_of fs" "flags_ok (Clone fs)"
  by (auto simp: Clone_def flags_of_def [of fs] fl.from_list)

lemma Equal_iff:
  assumes "flags_ok a" and "flags_ok b"
  shows "FlagSet_Equal a b \<longleftrightarrow> flags_of a = flags_of b"
proof -
  have "set (fs_flags a) = set (fs_flags b)"
    if "length (fs_flags a) = length (fs_flags b)" "set (fs_flags a) \<subseteq> set (fs_flags b)"
    using that assms by (metis List.finite_set card_subset_eq distinct_card flags_ok_def)
  then show ?thesis
    using assms
    by (auto simp: FlagSet_Equal_def FlagSet_Has_def flags_of_def flags_ok_def list_all_iff dest: distinct_card)
      (metis distinct_card)
qed

definition store_flags :: "StoreFlags \<Rightarrow> imap_flag set \<Rightarrow> imap_flag set" where
  "store_flags sf F = (case stf_Op sf of
     StoreFlagsSet \<Rightarrow> set (stf_Flags sf) | StoreFlagsAdd \<Rightarrow> F \<union> set (stf_Flags sf) | StoreFlagsDel \<Rightarrow> F - set (stf_Flags sf))"

lemma applyFlagOperation_flags:
  "flags_of (applyFlagOperation fs sf) = store_flags sf (flags_of fs)"
  "flags_ok (applyFlagOperation fs sf)"
proof -
  have all: "FilterPermanentFlags l = l" for l
    by (simp add: FilterPermanentFlags_def IsPermanentFlag_def)
  have empty: "fs\<lparr>fs_flags := []\<rparr> = NewFlagSet" for fs
    by (cases fs) (simp add: NewFlagSet_def)
  show "flags_of (applyFlagOperation fs sf) = store_flags sf (flags_of fs)"
    using fl.add_all [OF Clone_flags(2)] fl.remove_all [OF Clone_flags(2)] fl.from_list
    by (auto simp: applyFlagOperation_def Replace_def AddAll_def RemoveAll_def all empty Let_def store_flags_def Clone_flags
        split: StoreFlagsOp.splits)
  show "flags_ok (applyFlagOperation fs sf)"
    using fl.add_all [OF Clone_flags(2)] fl.remove_all [OF Clone_flags(2)] fl.from_list
    by (auto simp: applyFlagOperation_def Replace_def AddAll_def RemoveAll_def empty Let_def
        split: StoreFlagsOp.splits)
qed

definition message_flags :: "Message \<Rightarrow> imap_flag set" where
  "message_flags m =
     (if msg_Status m = MessageRead then {FlagSeen} else {}) \<union> (if msg_IsStarred m then {FlagFlagged} else {}) \<union>
     (if msg_IsDeleted m then {FlagDeleted} else {}) \<union> (if msg_IsDraft m then {FlagDraft} else {}) \<union>
     (if msg_IsAnswered m then {FlagAnswered} else {})"

lemma NewFlagSetFromMessage_flags:
  "flags_of (NewFlagSetFromMessage m) = message_flags m" "flags_ok (NewFlagSetFromMessage m)"
  by (simp_all add: NewFlagSetFromMessage_def message_flags_def Let_def fl.emp fl.add)

section \<open>The sorting loops sort\<close>

lemma exchange_pass_mset: "exchange_pass wrong x ys = (m, zs) \<Longrightarrow> mset (m # zs) = mset (x # ys)"
  by (induction wrong x ys arbitrary: m zs rule: exchange_pass.induct)
    (auto split: if_splits prod.splits simp: add_mset_commute)

lemma exchange_sort_mset: "mset (exchange_sort wrong xs) = mset xs"
  by (induction wrong xs rule: exchange_sort.induct) (auto split: prod.splits dest: exchange_pass_mset)

lemma exchange_pass_least:
  fixes k :: "32 word \<Rightarrow> int"
  assumes "exchange_pass (\<lambda>x y. k y < k x) x ys = (m, zs)"
  shows "\<forall>z \<in> set (x # ys). k m \<le> k z"
  using assms by (induction "\<lambda>x y. k y < k x" x ys arbitrary: m zs rule: exchange_pass.induct)
    (fastforce split: if_splits prod.splits)+

lemma exchange_sort_sorted:
  fixes k :: "32 word \<Rightarrow> int"
  shows "sorted (map k (exchange_sort (\<lambda>x y. k y < k x) xs))"
proof (induction "\<lambda>x y. k y < k x" xs rule: exchange_sort.induct)
  case (2 x xs)
  obtain m zs where pass: "exchange_pass (\<lambda>x y. k y < k x) x xs = (m, zs)"
    by (cases "exchange_pass (\<lambda>x y. k y < k x) x xs") auto
  have "set (exchange_sort (\<lambda>x y. k y < k x) zs) = set zs"
    using exchange_sort_mset by (metis set_mset_mset)
  moreover have "set zs \<subseteq> set (x # xs)"
    using exchange_pass_mset [OF pass] by (metis list.set_intros(2) set_mset_mset subsetI)
  ultimately show ?case
    using 2 [OF pass [symmetric]] exchange_pass_least [OF pass] pass by auto
qed simp

lemma sortUint32_sorts: "sortUint32 s = sort s"
proof (rule properties_for_sort [symmetric])
  show "mset (sortUint32 s) = mset s"
    by (simp add: sortUint32_def exchange_sort_mset)
  have "sorted (map uint (sortUint32 s))"
    using exchange_sort_sorted [of uint s] by (simp add: sortUint32_def word_less_def)
  then show "sorted (sortUint32 s)"
    by (simp add: sorted_map word_le_def sorted_wrt_iff_nth_less)
qed

lemma sortUint32Desc_sorts: "sortUint32Desc s = rev (sort s)"
proof -
  have "sort s = rev (sortUint32Desc s)"
  proof (rule properties_for_sort)
    show "mset (rev (sortUint32Desc s)) = mset s"
      by (simp add: sortUint32Desc_def exchange_sort_mset)
    have "sorted (map (\<lambda>x. - uint x) (sortUint32Desc s))"
      using exchange_sort_sorted [of "\<lambda>x. - uint x" s] by (simp add: sortUint32Desc_def word_less_def)
    then have "sorted_wrt (\<lambda>x y. y \<le> x) (sortUint32Desc s)"
      by (simp add: sorted_map word_le_def)
    then show "sorted (rev (sortUint32Desc s))"
      by (simp add: sorted_wrt_rev)
  qed
  then show ?thesis by simp
qed

end
