(* ===== verification/Notify_Service.thy ===== *)
theory Notify_Service
  imports Yunt_Prelude "HOL-Library.AList"
begin

text \<open>
  The notification service of \<^verbatim>\<open>internal/service/notify.go\<close>: subscriptions to mailboxes and the fan-out of a
  notification to them.

  A Go map is an association list, updated and read by key; the order of its entries is the order they were first
  added in, and no theorem depends on it. A handler is a function value that \<^verbatim>\<open>Notify\<close> runs in a goroutine of its own:
  the model has a type \<open>'h\<close> of handlers, and \<open>Notify\<close> gives the list of the calls it starts. Every method holds the
  lock of the service, so methods do not overlap; the goroutines run later, in any order. The counters of
  \<^verbatim>\<open>NotifyStats\<close> are unbounded.
\<close>

section \<open>Data\<close>

datatype NotificationType =
    NotificationNewMessage | NotificationFlagsChanged | NotificationMessageExpunged | NotificationMailboxUpdated

definition NotificationType_String :: "NotificationType \<Rightarrow> string" where
  "NotificationType_String t =
     (case t of NotificationNewMessage \<Rightarrow> ''new_message'' | NotificationFlagsChanged \<Rightarrow> ''flags_changed''
      | NotificationMessageExpunged \<Rightarrow> ''message_expunged'' | NotificationMailboxUpdated \<Rightarrow> ''mailbox_updated'')"

record Notification =
  nf_Type :: NotificationType
  nf_MailboxID :: ID
  nf_UserID :: ID
  nf_MessageID :: ID
  nf_SeqNum :: "32 word"
  nf_UID :: "32 word"
  nf_Flags :: "string list"
  nf_MessageCount :: "32 word"
  nf_Timestamp :: instant

definition NewNotification :: "instant \<Rightarrow> NotificationType \<Rightarrow> ID \<Rightarrow> ID \<Rightarrow> Notification" where
  "NewNotification now notifType mailboxID userID =
     \<lparr>nf_Type = notifType, nf_MailboxID = mailboxID, nf_UserID = userID, nf_MessageID = [], nf_SeqNum = 0,
      nf_UID = 0, nf_Flags = [], nf_MessageCount = 0, nf_Timestamp = now\<rparr>"

record 'h Subscription =
  sub_ID :: string
  sub_MailboxID :: ID
  sub_UserID :: ID
  sub_Handler :: "'h option"
  sub_Created :: instant
  sub_closed :: bool

definition Subscription_close :: "'h Subscription \<Rightarrow> 'h Subscription" where
  "Subscription_close s = s\<lparr>sub_closed := True\<rparr>"

record NotifyStats =
  nst_TotalSubscriptions :: int
  nst_ActiveSubscriptions :: int
  nst_TotalNotifications :: int
  nst_LastNotificationAt :: "instant option"

type_synonym 'h subscriptions = "(ID \<times> (string \<times> 'h Subscription) list) list"

record 'h NotifyService =
  ns_subscriptions :: "'h subscriptions"
  ns_stats :: NotifyStats

definition NewNotifyService :: "'h NotifyService" where
  "NewNotifyService = \<lparr>ns_subscriptions = [], ns_stats = \<lparr>nst_TotalSubscriptions = 0, nst_ActiveSubscriptions = 0,
     nst_TotalNotifications = 0, nst_LastNotificationAt = None\<rparr>\<rparr>"

section \<open>Subscribing\<close>

definition Subscribe ::
  "instant \<Rightarrow> string \<Rightarrow> ID \<Rightarrow> ID \<Rightarrow> 'h option \<Rightarrow> 'h NotifyService \<Rightarrow> 'h NotifyService" where
  "Subscribe now subscriptionID mailboxID userID handler ns =
     (let sub = \<lparr>sub_ID = subscriptionID, sub_MailboxID = mailboxID, sub_UserID = userID, sub_Handler = handler,
                 sub_Created = now, sub_closed = False\<rparr>;
          m = (case map_of (ns_subscriptions ns) mailboxID of None \<Rightarrow> [] | Some m \<Rightarrow> m);
          st = ns_stats ns
      in ns\<lparr>ns_subscriptions := AList.update mailboxID (AList.update subscriptionID sub m) (ns_subscriptions ns),
            ns_stats := st\<lparr>nst_TotalSubscriptions := nst_TotalSubscriptions st + 1,
                           nst_ActiveSubscriptions := nst_ActiveSubscriptions st + 1\<rparr>\<rparr>)"

text \<open>Taking a subscription out of the map of its mailbox; an empty map goes too. Both unsubscribing methods do this.\<close>

definition drop_subscription :: "string \<Rightarrow> ID \<Rightarrow> 'h NotifyService \<Rightarrow> 'h NotifyService" where
  "drop_subscription subscriptionID mailboxID ns =
     (case map_of (ns_subscriptions ns) mailboxID of
        None \<Rightarrow> ns
      | Some m \<Rightarrow>
          if subscriptionID \<in> fst ` set m then
            let m' = AList.delete subscriptionID m; st = ns_stats ns in
            ns\<lparr>ns_subscriptions :=
                 (if m' = [] then AList.delete mailboxID (ns_subscriptions ns)
                  else AList.update mailboxID m' (ns_subscriptions ns)),
               ns_stats := st\<lparr>nst_ActiveSubscriptions := nst_ActiveSubscriptions st - 1\<rparr>\<rparr>
          else ns)"

definition Unsubscribe :: "string \<Rightarrow> ID \<Rightarrow> 'h NotifyService \<Rightarrow> 'h NotifyService" where
  "Unsubscribe subscriptionID mailboxID ns = drop_subscription subscriptionID mailboxID ns"

definition UnsubscribeByID :: "string \<Rightarrow> 'h NotifyService \<Rightarrow> 'h NotifyService" where
  "UnsubscribeByID subscriptionID ns =
     fold (drop_subscription subscriptionID) (map fst (ns_subscriptions ns)) ns"

section \<open>Notifying\<close>

definition notified :: "string \<Rightarrow> string \<times> 'h Subscription \<Rightarrow> bool" where
  "notified excludeSubscriptionID e \<longleftrightarrow>
     fst e \<noteq> excludeSubscriptionID \<and> \<not> sub_closed (snd e) \<and> sub_Handler (snd e) \<noteq> None"

definition Notify ::
  "instant \<Rightarrow> Notification \<Rightarrow> string \<Rightarrow> 'h NotifyService \<Rightarrow> ('h \<times> Notification) list \<times> 'h NotifyService" where
  "Notify now notification excludeSubscriptionID ns =
     (case map_of (ns_subscriptions ns) (nf_MailboxID notification) of
        None \<Rightarrow> ([], ns)
      | Some m \<Rightarrow>
          let st = ns_stats ns in
          (map (\<lambda>e. (the (sub_Handler (snd e)), notification)) (filter (notified excludeSubscriptionID) m),
           ns\<lparr>ns_stats := st\<lparr>nst_TotalNotifications := nst_TotalNotifications st + 1,
                             nst_LastNotificationAt := Some now\<rparr>\<rparr>))"

definition NotifyNewMessage ::
  "instant \<Rightarrow> ID \<Rightarrow> ID \<Rightarrow> ID \<Rightarrow> 32 word \<Rightarrow> 32 word \<Rightarrow> 32 word \<Rightarrow> 'h NotifyService \<Rightarrow>
     ('h \<times> Notification) list \<times> 'h NotifyService" where
  "NotifyNewMessage now mailboxID userID messageID seqNum uid messageCount =
     Notify now ((NewNotification now NotificationNewMessage mailboxID userID)
       \<lparr>nf_MessageID := messageID, nf_SeqNum := seqNum, nf_UID := uid, nf_MessageCount := messageCount\<rparr>) []"

definition NotifyFlagsChanged ::
  "instant \<Rightarrow> ID \<Rightarrow> ID \<Rightarrow> ID \<Rightarrow> 32 word \<Rightarrow> 32 word \<Rightarrow> string list \<Rightarrow> string \<Rightarrow> 'h NotifyService \<Rightarrow>
     ('h \<times> Notification) list \<times> 'h NotifyService" where
  "NotifyFlagsChanged now mailboxID userID messageID seqNum uid flags excludeSubscriptionID =
     Notify now ((NewNotification now NotificationFlagsChanged mailboxID userID)
       \<lparr>nf_MessageID := messageID, nf_SeqNum := seqNum, nf_UID := uid, nf_Flags := flags\<rparr>) excludeSubscriptionID"

definition NotifyMessageExpunged ::
  "instant \<Rightarrow> ID \<Rightarrow> ID \<Rightarrow> ID \<Rightarrow> 32 word \<Rightarrow> 'h NotifyService \<Rightarrow> ('h \<times> Notification) list \<times> 'h NotifyService" where
  "NotifyMessageExpunged now mailboxID userID messageID seqNum =
     Notify now ((NewNotification now NotificationMessageExpunged mailboxID userID)
       \<lparr>nf_MessageID := messageID, nf_SeqNum := seqNum\<rparr>) []"

definition NotifyMailboxUpdated ::
  "instant \<Rightarrow> ID \<Rightarrow> ID \<Rightarrow> 32 word \<Rightarrow> 'h NotifyService \<Rightarrow> ('h \<times> Notification) list \<times> 'h NotifyService" where
  "NotifyMailboxUpdated now mailboxID userID messageCount =
     Notify now ((NewNotification now NotificationMailboxUpdated mailboxID userID)\<lparr>nf_MessageCount := messageCount\<rparr>) []"

section \<open>Counting and closing\<close>

definition GetSubscriptionCount :: "ID \<Rightarrow> 'h NotifyService \<Rightarrow> int" where
  "GetSubscriptionCount mailboxID ns =
     (case map_of (ns_subscriptions ns) mailboxID of None \<Rightarrow> 0 | Some m \<Rightarrow> int (length m))"

definition GetTotalSubscriptions :: "'h NotifyService \<Rightarrow> int" where
  "GetTotalSubscriptions ns = sum_list (map (\<lambda>e. int (length (snd e))) (ns_subscriptions ns))"

definition HasSubscribers :: "ID \<Rightarrow> 'h NotifyService \<Rightarrow> bool" where
  "HasSubscribers mailboxID ns =
     (case map_of (ns_subscriptions ns) mailboxID of None \<Rightarrow> False | Some m \<Rightarrow> length m > 0)"

definition GetSubscribersForUser :: "ID \<Rightarrow> 'h NotifyService \<Rightarrow> string list" where
  "GetSubscribersForUser userID ns =
     concat (map (\<lambda>e. map fst (filter (\<lambda>x. sub_UserID (snd x) = userID) (snd e))) (ns_subscriptions ns))"

definition NotifyService_Close :: "'h NotifyService \<Rightarrow> 'h NotifyService" where
  "NotifyService_Close ns =
     ns\<lparr>ns_subscriptions := [], ns_stats := (ns_stats ns)\<lparr>nst_ActiveSubscriptions := 0\<rparr>\<rparr>"

section \<open>Well-formed registries\<close>

text \<open>Keys are distinct, no mailbox has an empty map, every subscription is open and filed under its own keys.\<close>

definition entry_ok :: "ID \<times> (string \<times> 'h Subscription) list \<Rightarrow> bool" where
  "entry_ok e \<longleftrightarrow> snd e \<noteq> [] \<and> distinct (map fst (snd e)) \<and>
     list_all (\<lambda>(i, s). sub_ID s = i \<and> sub_MailboxID s = fst e \<and> \<not> sub_closed s) (snd e)"

definition registry_ok :: "'h NotifyService \<Rightarrow> bool" where
  "registry_ok ns \<longleftrightarrow> distinct (map fst (ns_subscriptions ns)) \<and> list_all entry_ok (ns_subscriptions ns)"

definition subscribed :: "string \<Rightarrow> ID \<Rightarrow> 'h NotifyService \<Rightarrow> 'h Subscription option" where
  "subscribed i mb ns = Option.bind (map_of (ns_subscriptions ns) mb) (\<lambda>m. map_of m i)"

lemma subscribed_Subscribe:
  "subscribed i mb (Subscribe now i' mb' u h ns) =
     (if i = i' \<and> mb = mb'
      then Some \<lparr>sub_ID = i', sub_MailboxID = mb', sub_UserID = u, sub_Handler = h, sub_Created = now, sub_closed = False\<rparr>
      else subscribed i mb ns)"
  by (auto simp: subscribed_def Subscribe_def Let_def update_conv' split: option.splits)

lemma delete_map_of: "map_of (AList.delete k m) = (map_of m)(k := None)"
  by (rule delete_conv')

lemma subscribed_drop:
  "subscribed i mb (drop_subscription i' mb' ns) = (if i = i' \<and> mb = mb' then None else subscribed i mb ns)"
proof (cases "map_of (ns_subscriptions ns) mb'")
  case None
  then show ?thesis by (auto simp: subscribed_def drop_subscription_def)
next
  case (Some m)
  have gone: "map_of (AList.delete i' m) i = (if i = i' then None else map_of m i)"
    by (simp add: delete_conv')
  have none: "map_of m i = None" if "AList.delete i' m = []" "i \<noteq> i'"
    using gone that by simp
  show ?thesis
  proof (cases "i' \<in> fst ` set m")
    case True
    then show ?thesis
      using Some gone none by (auto simp: subscribed_def drop_subscription_def Let_def delete_conv' update_conv')
  next
    case False
    then have "map_of m i' = None" by (simp add: map_of_eq_None_iff)
    then show ?thesis
      using False Some by (auto simp: subscribed_def drop_subscription_def)
  qed
qed

lemma subscribed_drops:
  "subscribed i mb (fold (drop_subscription i') ks ns) = (if i = i' \<and> mb \<in> set ks then None else subscribed i mb ns)"
  by (induction ks arbitrary: ns) (auto simp: subscribed_drop)

lemma subscribed_UnsubscribeByID:
  "subscribed i mb (UnsubscribeByID i' ns) = (if i = i' then None else subscribed i mb ns)"
proof -
  have "subscribed i mb ns = None" if "mb \<notin> fst ` set (ns_subscriptions ns)"
    using that by (simp add: subscribed_def map_of_eq_None_iff [symmetric])
  then show ?thesis
    by (auto simp: UnsubscribeByID_def subscribed_drops)
qed

lemma subscribed_Notify: "subscribed i mb (snd (Notify now n ex ns)) = subscribed i mb ns"
  by (auto simp: Notify_def subscribed_def Let_def split: option.splits)

lemma Notify_calls:
  assumes "registry_ok ns"
  shows "(h, n') \<in> set (fst (Notify now n ex ns)) \<longleftrightarrow>
    n' = n \<and> (\<exists>i s. i \<noteq> ex \<and> subscribed i (nf_MailboxID n) ns = Some s \<and> sub_Handler s = Some h)"
proof (cases "map_of (ns_subscriptions ns) (nf_MailboxID n)")
  case None
  then show ?thesis by (simp add: Notify_def subscribed_def)
next
  case (Some m)
  then have "entry_ok (nf_MailboxID n, m)"
    using assms by (auto simp: registry_ok_def list_all_iff dest: map_of_SomeD)
  then have m: "distinct (map fst m)" "\<And>i s. (i, s) \<in> set m \<Longrightarrow> \<not> sub_closed s"
    by (auto simp: entry_ok_def list_all_iff)
  have look: "subscribed i (nf_MailboxID n) ns = Some s \<longleftrightarrow> (i, s) \<in> set m" for i s
    using Some m(1) by (simp add: subscribed_def)
  have "(h, n') \<in> set (fst (Notify now n ex ns)) \<longleftrightarrow>
      n' = n \<and> (\<exists>i s. (i, s) \<in> set m \<and> notified ex (i, s) \<and> h = the (sub_Handler s))"
    using Some by (simp add: Notify_def Let_def image_iff) blast
  also have "\<dots> \<longleftrightarrow> n' = n \<and> (\<exists>i s. i \<noteq> ex \<and> (i, s) \<in> set m \<and> sub_Handler s = Some h)"
    using m(2) unfolding notified_def by (metis fst_conv option.collapse option.distinct(1) option.sel snd_conv)
  finally show ?thesis by (simp only: look)
qed

section \<open>The registry stays well formed\<close>

lemma entry_ok_update:
  assumes "entry_ok (mb, m) \<or> m = []" and "sub_ID s = i" and "sub_MailboxID s = mb" and "\<not> sub_closed s"
  shows "entry_ok (mb, AList.update i s m)"
proof -
  have "AList.update i s m \<noteq> []" by (cases m) auto
  moreover have "distinct (map fst (AList.update i s m))"
    using assms(1) by (auto simp: entry_ok_def intro: distinct_update)
  moreover have "sub_ID t = j \<and> sub_MailboxID t = mb \<and> \<not> sub_closed t" if "(j, t) \<in> set (AList.update i s m)" for j t
  proof -
    have "(j, t) \<in> set m \<or> (j, t) = (i, s)"
      using that by (induction m) (auto split: if_splits)
    then show ?thesis
      using assms by (auto simp: entry_ok_def list_all_iff)
  qed
  ultimately show ?thesis
    by (auto simp: entry_ok_def list_all_iff)
qed

lemma registry_update:
  assumes "registry_ok ns" and "entry_ok (mb, m)"
  shows "registry_ok (ns\<lparr>ns_subscriptions := AList.update mb m (ns_subscriptions ns), ns_stats := st\<rparr>)"
proof -
  have "e \<in> set xs \<or> e = (mb, m)" if "e \<in> set (AList.update mb m xs)" for e xs
    using that by (induction xs) (auto split: if_splits)
  then show ?thesis
    using assms by (fastforce simp: registry_ok_def list_all_iff intro: distinct_update)
qed

lemma Subscribe_ok: "registry_ok ns \<Longrightarrow> registry_ok (Subscribe now i mb u h ns)"
proof -
  assume ok: "registry_ok ns"
  let ?m = "case map_of (ns_subscriptions ns) mb of None \<Rightarrow> [] | Some m \<Rightarrow> m"
  have "entry_ok (mb, ?m) \<or> ?m = []"
    using ok by (auto simp: registry_ok_def list_all_iff dest: map_of_SomeD split: option.splits)
  then show ?thesis
    unfolding Subscribe_def Let_def by (intro registry_update [OF ok] entry_ok_update) simp_all
qed

lemma drop_subscription_ok: "registry_ok ns \<Longrightarrow> registry_ok (drop_subscription i mb ns)"
proof -
  assume ok: "registry_ok ns"
  show ?thesis
  proof (cases "map_of (ns_subscriptions ns) mb")
    case (Some m)
    then have m: "entry_ok (mb, m)"
      using ok by (auto simp: registry_ok_def list_all_iff dest: map_of_SomeD)
    have "entry_ok (mb, AList.delete i m)" if "AList.delete i m \<noteq> []"
      using m that by (auto simp: entry_ok_def list_all_iff AList.delete_eq distinct_map_filter)
    moreover have "registry_ok (ns\<lparr>ns_subscriptions := AList.delete mb (ns_subscriptions ns), ns_stats := st\<rparr>)" for st
      using ok by (auto simp: registry_ok_def list_all_iff AList.delete_eq distinct_map_filter)
    ultimately show ?thesis
      using ok Some by (auto simp: drop_subscription_def Let_def intro: registry_update)
  qed (simp add: drop_subscription_def ok)
qed

lemma UnsubscribeByID_ok: "registry_ok ns \<Longrightarrow> registry_ok (UnsubscribeByID i ns)"
proof -
  have "registry_ok ns \<Longrightarrow> registry_ok (fold (drop_subscription i) ks ns)" for ks
    by (induction ks arbitrary: ns) (auto intro: drop_subscription_ok)
  then show "registry_ok ns \<Longrightarrow> registry_ok (UnsubscribeByID i ns)"
    by (simp add: UnsubscribeByID_def)
qed

lemma Notify_ok: "registry_ok ns \<Longrightarrow> registry_ok (snd (Notify now n ex ns))"
  by (auto simp: Notify_def registry_ok_def Let_def split: option.splits)

lemma Close_ok: "registry_ok (NotifyService_Close ns)"
  by (simp add: NotifyService_Close_def registry_ok_def)

lemma New_ok: "registry_ok NewNotifyService"
  by (simp add: NewNotifyService_def registry_ok_def)

section \<open>Counting subscriptions\<close>

definition subs_total :: "'h subscriptions \<Rightarrow> int" where
  "subs_total xs = sum_list (map (\<lambda>e. int (length (snd e))) xs)"

definition subs_at :: "'h subscriptions \<Rightarrow> ID \<Rightarrow> int" where
  "subs_at xs mb = (case map_of xs mb of None \<Rightarrow> 0 | Some m \<Rightarrow> int (length m))"

lemma subs_total_update: "subs_total (AList.update mb m xs) = subs_total xs - subs_at xs mb + int (length m)"
  by (induction xs) (auto simp: subs_total_def subs_at_def)

lemma subs_total_delete:
  "distinct (map fst xs) \<Longrightarrow> subs_total (AList.delete mb xs) = subs_total xs - subs_at xs mb"
proof (induction xs)
  case (Cons e xs)
  then show ?case
  proof (cases "fst e = mb")
    case True
    then have "map_of xs mb = None" using Cons.prems by (auto simp: map_of_eq_None_iff)
    with True Cons show ?thesis by (auto simp: subs_total_def subs_at_def)
  next
    case False
    with Cons show ?thesis by (auto simp: subs_total_def subs_at_def)
  qed
qed (simp add: subs_total_def subs_at_def)

lemma length_update_le: "length (AList.update k v m) \<le> Suc (length m)"
  by (induction m) auto

lemma length_delete_mem: "distinct (map fst m) \<Longrightarrow> k \<in> fst ` set m \<Longrightarrow> Suc (length (AList.delete k m)) = length m"
proof (induction m)
  case (Cons e m)
  show ?case
  proof (cases "fst e = k")
    case True
    then have "AList.delete k m = m"
      using Cons.prems(1) by (auto simp: AList.delete_eq filter_id_conv image_iff)
    with True show ?thesis by simp
  next
    case False
    with Cons show ?thesis by auto
  qed
qed simp

definition active_ok :: "'h NotifyService \<Rightarrow> bool" where
  "active_ok ns \<longleftrightarrow> registry_ok ns \<and> GetTotalSubscriptions ns \<le> nst_ActiveSubscriptions (ns_stats ns)"

lemma Total_eq: "GetTotalSubscriptions ns = subs_total (ns_subscriptions ns)"
  by (simp add: GetTotalSubscriptions_def subs_total_def)

lemma active_ok_Subscribe: "active_ok ns \<Longrightarrow> active_ok (Subscribe now i mb u h ns)"
proof -
  assume ok: "active_ok ns"
  let ?m = "case map_of (ns_subscriptions ns) mb of None \<Rightarrow> [] | Some m \<Rightarrow> m"
  have "int (length (AList.update i x ?m)) \<le> subs_at (ns_subscriptions ns) mb + 1" for x
    using length_update_le [of i x ?m] by (auto simp: subs_at_def split: option.splits)
  then show ?thesis
    using ok Subscribe_ok [of ns]
    by (simp add: active_ok_def Total_eq Subscribe_def Let_def subs_total_update) (smt (verit))
qed

lemma active_ok_drop: "active_ok ns \<Longrightarrow> active_ok (drop_subscription i mb ns)"
proof -
  assume ok: "active_ok ns"
  then have reg: "registry_ok ns" and le: "subs_total (ns_subscriptions ns) \<le> nst_ActiveSubscriptions (ns_stats ns)"
    by (simp_all add: active_ok_def Total_eq)
  show ?thesis
  proof (cases "\<exists>m. map_of (ns_subscriptions ns) mb = Some m \<and> i \<in> fst ` set m")
    case True
    then obtain m where m: "map_of (ns_subscriptions ns) mb = Some m" "i \<in> fst ` set m" by blast
    have d: "distinct (map fst (ns_subscriptions ns))" "distinct (map fst m)"
      using reg m(1) by (auto simp: registry_ok_def list_all_iff entry_ok_def dest!: map_of_SomeD)
    have len: "int (length m) = int (length (AList.delete i m)) + 1"
      using length_delete_mem [OF d(2) m(2)] by linarith
    have at: "subs_at (ns_subscriptions ns) mb = int (length m)"
      using m(1) by (simp add: subs_at_def)
    show ?thesis
      using drop_subscription_ok [OF reg, of i mb] le m len at d(1)
      by (auto simp: active_ok_def Total_eq drop_subscription_def Let_def subs_total_update subs_total_delete)
  next
    case False
    then have "drop_subscription i mb ns = ns"
      by (auto simp: drop_subscription_def split: option.splits)
    with ok show ?thesis by simp
  qed
qed

lemma active_ok_drops: "active_ok ns \<Longrightarrow> active_ok (fold (drop_subscription i) ks ns)"
  by (induction ks arbitrary: ns) (auto intro: active_ok_drop)

lemma active_ok_Notify: "active_ok ns \<Longrightarrow> active_ok (snd (Notify now n ex ns))"
  using Notify_ok [of ns now n ex] by (auto simp: active_ok_def Total_eq Notify_def Let_def split: option.splits)

inductive notify_step :: "'h NotifyService \<Rightarrow> 'h NotifyService \<Rightarrow> bool" where
  step_Subscribe: "notify_step ns (Subscribe now i mb u h ns)"
| step_Unsubscribe: "notify_step ns (Unsubscribe i mb ns)"
| step_UnsubscribeByID: "notify_step ns (UnsubscribeByID i ns)"
| step_Notify: "notify_step ns (snd (Notify now n ex ns))"
| step_Close: "notify_step ns (NotifyService_Close ns)"

interpretation notify: invariant_system "\<lambda>ns. ns = NewNotifyService" notify_step active_ok
proof
  show "active_ok ns" if "ns = NewNotifyService" for ns :: "'a NotifyService"
    using that New_ok by (simp add: active_ok_def Total_eq subs_total_def NewNotifyService_def)
  show "active_ok t" if "active_ok s" "notify_step s t" for s t :: "'a NotifyService"
    using that(2,1)
    by cases (auto simp: Unsubscribe_def UnsubscribeByID_def intro: active_ok_Subscribe active_ok_drop active_ok_drops
        active_ok_Notify, simp add: active_ok_def Close_ok, simp add: Total_eq subs_total_def NotifyService_Close_def)
qed

text \<open>C20. In every state the notification service can reach, a notification is handed to exactly the
  handlers of the subscriptions to its mailbox, the excluded subscription apart, and the reported number of active
  subscriptions is never below the number there are.\<close>

theorem notification_reaches_subscribers:
  assumes "reachable (\<lambda>ns. ns = NewNotifyService) notify_step ns"
  shows "((h, n') \<in> set (fst (Notify now n ex ns)) \<longleftrightarrow>
      n' = n \<and> (\<exists>i s. i \<noteq> ex \<and> subscribed i (nf_MailboxID n) ns = Some s \<and> sub_Handler s = Some h))
    \<and> GetTotalSubscriptions ns \<le> nst_ActiveSubscriptions (ns_stats ns)"
  using notify.reachable_inv [OF assms] Notify_calls [of ns h n' now n ex] by (auto simp: active_ok_def)

theorem notification_reaches_subscribers_witness:
  "(7 :: nat, NewNotification 0 NotificationNewMessage ''m1'' [])
     \<in> set (fst (Notify 0 (NewNotification 0 NotificationNewMessage ''m1'' []) []
          (Subscribe 0 ''s1'' ''m1'' ''u1'' (Some 7) NewNotifyService)))"
proof -
  let ?ns = "Subscribe 0 ''s1'' ''m1'' ''u1'' (Some 7) NewNotifyService :: nat NotifyService"
  have reach: "reachable (\<lambda>ns. ns = NewNotifyService) notify_step ?ns"
    by (rule reach_step, rule reach_init, rule refl, rule step_Subscribe)
  have sub: "subscribed ''s1'' ''m1'' ?ns = Some \<lparr>sub_ID = ''s1'', sub_MailboxID = ''m1'', sub_UserID = ''u1'',
      sub_Handler = Some 7, sub_Created = 0, sub_closed = False\<rparr>"
    by (simp add: subscribed_Subscribe)
  show ?thesis
    using notification_reaches_subscribers [OF reach, of 7 _ 0 "NewNotification 0 NotificationNewMessage ''m1'' []" "[]"] sub
    by (simp add: NewNotification_def) (metis Subscription.select_convs(4) list.distinct(1))
qed

end
