(* ===== verification/Imap_Store.thy ===== *)
theory Imap_Store
  imports Imap_Flags Notify_Service Message_Access
begin

text \<open>
  The IMAP commands STORE (\<^verbatim>\<open>internal/imap/store.go\<close>) and EXPUNGE (\<^verbatim>\<open>internal/imap/expunge.go\<close>) on the message
  repository, with the listing they share (\<^verbatim>\<open>imapListOptions\<close> of \<^verbatim>\<open>internal/imap/fetch.go\<close>).

  Outside the repository and therefore arguments: the number sets of the protocol library (a set is its \<^verbatim>\<open>Contains\<close>
  method), the text of a flag (\<open>fstr\<close>), the full-text index (\<open>fts\<close>), and the order in which Go iterates over the map of
  selected messages (\<open>ord\<close>, a permutation of the list it is given). What a handler writes to the client is part of its
  result, also when it fails halfway.
\<close>

section \<open>Errors and number sets\<close>

datatype ResponseCode = ResponseCodeTryCreate | ResponseCodeNonExistent | ResponseCodeAlreadyExists

text \<open>A NO response with an optional code, or an error of the repository handed on as it is.\<close>

datatype imap_error = ImapNo "ResponseCode option" string | RawError error

type_synonym 'a imapm = "db \<Rightarrow> (imap_error + 'a) \<times> db"

definition or_no :: "string \<Rightarrow> 'a dbm \<Rightarrow> 'a imapm" where
  "or_no msg m = (\<lambda>d. case m d of (Inl e, d') \<Rightarrow> (Inl (ImapNo None msg), d') | (Inr x, d') \<Rightarrow> (Inr x, d'))"

definition imap_ret :: "'a \<Rightarrow> 'a imapm" where
  "imap_ret x = (\<lambda>d. (Inr x, d))"

definition imap_fail :: "imap_error \<Rightarrow> 'a imapm" where
  "imap_fail e = (\<lambda>d. (Inl e, d))"

definition imap_then :: "'a imapm \<Rightarrow> ('a \<Rightarrow> 'b imapm) \<Rightarrow> 'b imapm" where
  "imap_then m f = (\<lambda>d. case m d of (Inl e, d') \<Rightarrow> (Inl e, d') | (Inr x, d') \<Rightarrow> f x d')"

datatype NumSet = SeqSet "32 word \<Rightarrow> bool" | UIDSet "32 word \<Rightarrow> bool" | OtherNumSet

definition numSetContainsMessage :: "NumSet \<Rightarrow> 32 word \<Rightarrow> 32 word \<Rightarrow> bool" where
  "numSetContainsMessage numSet seqNum uid =
     (case numSet of SeqSet c \<Rightarrow> c seqNum | UIDSet c \<Rightarrow> c uid | OtherNumSet \<Rightarrow> False)"

section \<open>The messages of the selected mailbox\<close>

definition imapListOptions :: ListOptions where
  "imapListOptions = \<lparr>lo_Pagination = None, lo_Sort = Some \<lparr>so_Field = ''imap_uid'', so_Order = SortAsc\<rparr>\<rparr>"

text \<open>\<open>numbered\<close> pairs the listed messages with their sequence numbers, \<^verbatim>\<open>uint32(i + 1)\<close>.\<close>

definition numbered :: "'m list \<Rightarrow> (32 word \<times> 'm) list" where
  "numbered xs = zip (map (\<lambda>i. word_of_nat (Suc i)) [0..<length xs]) xs"

definition getMessagesForNumSet :: "fts_index \<Rightarrow> Mailbox \<Rightarrow> NumSet \<Rightarrow> (32 word \<times> Message) list imapm" where
  "getMessagesForNumSet fts mbox numSet =
     imap_then (or_no ''Failed to list messages'' (ListByMailbox fts (mb_ID mbox) (Some imapListOptions)))
       (\<lambda>result. imap_ret (filter (\<lambda>(seqNum, msg). numSetContainsMessage numSet seqNum (msg_IMAPUID msg))
                    (numbered (lr_Items result))))"

section \<open>STORE\<close>

text \<open>
  \<^verbatim>\<open>persistFlagChanges\<close>: one repository call per changed flag. The fields of the message it also sets are not read
  again.
\<close>

definition persist_flag ::
  "imap_flag \<Rightarrow> FlagChange \<Rightarrow> string \<Rightarrow> 'a dbm \<Rightarrow> string \<Rightarrow> 'b dbm \<Rightarrow> unit imapm" where
  "persist_flag f change msg_on on msg_off off =
     (if Changed f change then
        if IsNow f change then imap_then (or_no msg_on on) (\<lambda>_. imap_ret ())
        else if IsNowUn f change then imap_then (or_no msg_off off) (\<lambda>_. imap_ret ())
        else imap_ret ()
      else imap_ret ())"

definition persistFlagChanges :: "instant \<Rightarrow> Message \<Rightarrow> FlagChange \<Rightarrow> unit imapm" where
  "persistFlagChanges now msg change =
     imap_then (persist_flag FlagSeen change
         ''Failed to mark message as read'' (MarkAsRead now (msg_ID msg))
         ''Failed to mark message as unread'' (MarkAsUnread now (msg_ID msg)))
    (\<lambda>_. imap_then (persist_flag FlagFlagged change
         ''Failed to star message'' (Star now (msg_ID msg))
         ''Failed to unstar message'' (Unstar now (msg_ID msg)))
    (\<lambda>_. imap_then (persist_flag FlagDeleted change
         ''Failed to mark message as deleted'' (MarkAsDeleted now (msg_ID msg))
         ''Failed to unmark message as deleted'' (UnmarkAsDeleted now (msg_ID msg)))
    (\<lambda>_. imap_then (persist_flag FlagDraft change
         ''Failed to mark message as draft'' (MarkAsDraft now (msg_ID msg))
         ''Failed to unmark message as draft'' (UnmarkAsDraft now (msg_ID msg)))
    (\<lambda>_. persist_flag FlagAnswered change
         ''Failed to mark message as answered'' (MarkAsAnswered now (msg_ID msg))
         ''Failed to unmark message as answered'' (UnmarkAsAnswered now (msg_ID msg))))))"

record StoreOut =
  so_responses :: "(32 word \<times> imap_flag list) list"
  so_changes :: "FlagChange list"

definition flag_change :: "StoreFlags \<Rightarrow> 32 word \<Rightarrow> Message \<Rightarrow> FlagChange" where
  "flag_change flags seqNum msg =
     (let oldFlags = NewFlagSetFromMessage msg in
      \<lparr>fc_MessageID = msg_ID msg, fc_SeqNum = seqNum, fc_UID = msg_IMAPUID msg, fc_OldFlags = oldFlags,
       fc_NewFlags = applyFlagOperation oldFlags flags\<rparr>)"

definition writeFetchResponse :: "StoreFlags \<Rightarrow> 32 word \<Rightarrow> FlagSet \<Rightarrow> StoreOut \<Rightarrow> StoreOut" where
  "writeFetchResponse flags seqNum newFlags out =
     (if stf_Silent flags then out else out\<lparr>so_responses := so_responses out @ [(seqNum, ToSlice newFlags)]\<rparr>)"

text \<open>The loop over the selected messages, in the order given.\<close>

fun store_loop ::
  "instant \<Rightarrow> StoreFlags \<Rightarrow> (32 word \<times> Message) list \<Rightarrow> StoreOut \<Rightarrow> db \<Rightarrow> (imap_error option \<times> StoreOut) \<times> db" where
  "store_loop now flags [] out d = ((None, out), d)"
| "store_loop now flags ((seqNum, msg) # ms) out d =
     (let change = flag_change flags seqNum msg in
      if HasChanges change then
        (case persistFlagChanges now msg change d of
           (Inl e, d') \<Rightarrow> ((Some e, out), d')
         | (Inr _, d') \<Rightarrow>
             store_loop now flags ms
               (writeFetchResponse flags seqNum (fc_NewFlags change) (out\<lparr>so_changes := so_changes out @ [change]\<rparr>)) d')
      else store_loop now flags ms (writeFetchResponse flags seqNum (fc_NewFlags change) out) d)"

text \<open>
  \<^verbatim>\<open>updateMailboxUnseenCount\<close> computes a difference and returns nil in every case; it changes nothing.
\<close>

definition seen_delta :: "FlagChange list \<Rightarrow> int" where
  "seen_delta changes =
     foldl (\<lambda>n c. if IsNow FlagSeen c then n - 1 else if IsNowUn FlagSeen c then n + 1 else n) 0 changes"

definition updateMailboxUnseenCount :: "FlagChange list \<Rightarrow> unit imapm" where
  "updateMailboxUnseenCount changes = (if seen_delta changes = 0 then imap_ret () else imap_ret ())"

fun notify_changes ::
  "(imap_flag \<Rightarrow> string) \<Rightarrow> instant \<Rightarrow> ID \<Rightarrow> string \<Rightarrow> FlagChange list \<Rightarrow> 'h NotifyService \<Rightarrow>
     ('h \<times> Notification) list \<times> 'h NotifyService" where
  "notify_changes fstr now mb sessionID [] ns = ([], ns)"
| "notify_changes fstr now mb sessionID (c # cs) ns =
     (case NotifyFlagsChanged now mb [] (fc_MessageID c) (fc_SeqNum c) (fc_UID c) (map fstr (ToSlice (fc_NewFlags c)))
             sessionID ns of (calls, ns') \<Rightarrow>
      case notify_changes fstr now mb sessionID cs ns' of (calls', ns'') \<Rightarrow> (calls @ calls', ns''))"

definition notify_via ::
  "('h NotifyService \<Rightarrow> ('h \<times> Notification) list \<times> 'h NotifyService) \<Rightarrow> 'h NotifyService option \<Rightarrow>
     ('h \<times> Notification) list \<times> 'h NotifyService option" where
  "notify_via f bridge = (case bridge of None \<Rightarrow> ([], None) | Some ns \<Rightarrow> (case f ns of (calls, ns') \<Rightarrow> (calls, Some ns')))"

definition emptyStoreOut :: StoreOut where
  "emptyStoreOut = \<lparr>so_responses = [], so_changes = []\<rparr>"

definition Store ::
  "((32 word \<times> Message) list \<Rightarrow> (32 word \<times> Message) list) \<Rightarrow> fts_index \<Rightarrow> instant \<Rightarrow> Mailbox option \<Rightarrow> NumSet \<Rightarrow>
     StoreFlags \<Rightarrow> db \<Rightarrow> (imap_error option \<times> StoreOut) \<times> db" where
  "Store ord fts now selectedMbox numSet flags d =
     (case selectedMbox of
        None \<Rightarrow> ((Some (ImapNo None ''No mailbox selected''), emptyStoreOut), d)
      | Some mbox \<Rightarrow>
          case getMessagesForNumSet fts mbox numSet d of
            (Inl e, d') \<Rightarrow> ((Some e, emptyStoreOut), d')
          | (Inr messages, d') \<Rightarrow>
              case store_loop now flags (ord messages) emptyStoreOut d' of
                ((Some e, out), d'') \<Rightarrow> ((Some e, out), d'')
              | ((None, out), d'') \<Rightarrow>
                  case updateMailboxUnseenCount (so_changes out) d'' of
                    (Inl e, d3) \<Rightarrow> ((Some e, out), d3)
                  | (Inr _, d3) \<Rightarrow> ((None, out), d3))"

text \<open>The last part of \<^verbatim>\<open>Store\<close>: the notifications of a run that succeeded.\<close>

definition Store_notify ::
  "(imap_flag \<Rightarrow> string) \<Rightarrow> instant \<Rightarrow> Mailbox \<Rightarrow> string \<Rightarrow> imap_error option \<times> StoreOut \<Rightarrow> 'h NotifyService option \<Rightarrow>
     ('h \<times> Notification) list \<times> 'h NotifyService option" where
  "Store_notify fstr now mbox sessionID res bridge =
     (case res of
        (Some e, out) \<Rightarrow> ([], bridge)
      | (None, out) \<Rightarrow> notify_via (notify_changes fstr now (mb_ID mbox) sessionID (so_changes out)) bridge)"

record StoreResult =
  srs_Changes :: "FlagChange list"
  srs_AffectedCount :: int
  srs_UnseenCountDelta :: int

definition StoreResult_AddChange :: "FlagChange \<Rightarrow> StoreResult \<Rightarrow> StoreResult" where
  "StoreResult_AddChange change r =
     (if HasChanges change then
        let r = r\<lparr>srs_Changes := srs_Changes r @ [change], srs_AffectedCount := srs_AffectedCount r + 1\<rparr> in
        if IsNow FlagSeen change then r\<lparr>srs_UnseenCountDelta := srs_UnseenCountDelta r - 1\<rparr>
        else if IsNowUn FlagSeen change then r\<lparr>srs_UnseenCountDelta := srs_UnseenCountDelta r + 1\<rparr>
        else r
      else r)"

section \<open>EXPUNGE\<close>

definition isMessageDeleted :: "Message \<Rightarrow> bool" where
  "isMessageDeleted msg = msg_IsDeleted msg"

definition findDeletedMessages :: "Message list \<Rightarrow> (32 word \<Rightarrow> bool) option \<Rightarrow> (32 word \<times> Message) list" where
  "findDeletedMessages allMessages uidFilter =
     filter (\<lambda>(seqNum, msg). (case uidFilter of None \<Rightarrow> True | Some c \<Rightarrow> c (msg_IMAPUID msg)) \<and> isMessageDeleted msg)
       (numbered allMessages)"

text \<open>A message that cannot be deleted is passed over. The result lists what was expunged, in order.\<close>

fun expunge_loop :: "instant \<Rightarrow> (32 word \<times> Message) list \<Rightarrow> 32 word list \<Rightarrow> db \<Rightarrow> (32 word \<times> ID) list \<times> db" where
  "expunge_loop now messages [] d = ([], d)"
| "expunge_loop now messages (seqNum # seqNums) d =
     (case map_of messages seqNum of
        None \<Rightarrow> expunge_loop now messages seqNums d
      | Some msg \<Rightarrow>
          case Delete now (msg_ID msg) d of
            (Inl _, d') \<Rightarrow> expunge_loop now messages seqNums d'
          | (Inr _, d') \<Rightarrow>
              case expunge_loop now messages seqNums d' of (done_, d'') \<Rightarrow> ((seqNum, msg_ID msg) # done_, d''))"

definition Expunge ::
  "fts_index \<Rightarrow> instant \<Rightarrow> Mailbox option \<Rightarrow> (32 word \<Rightarrow> bool) option \<Rightarrow> db \<Rightarrow>
     (imap_error option \<times> (32 word \<times> ID) list) \<times> db" where
  "Expunge fts now selectedMbox uids d =
     (case selectedMbox of
        None \<Rightarrow> ((Some (ImapNo None ''No mailbox selected''), []), d)
      | Some mbox \<Rightarrow>
          case or_no ''Failed to list messages'' (ListByMailbox fts (mb_ID mbox) (Some imapListOptions)) d of
            (Inl e, d') \<Rightarrow> ((Some e, []), d')
          | (Inr result, d') \<Rightarrow>
              let deleted = findDeletedMessages (lr_Items result) uids in
              if length deleted = 0 then ((None, []), d')
              else case expunge_loop now deleted (sortUint32Desc (map fst deleted)) d' of
                (expunged, d'') \<Rightarrow> ((None, expunged), snd (RecalculateStats now (mb_ID mbox) d'')))"

fun notify_expunged ::
  "instant \<Rightarrow> ID \<Rightarrow> (32 word \<times> ID) list \<Rightarrow> 'h NotifyService \<Rightarrow> ('h \<times> Notification) list \<times> 'h NotifyService" where
  "notify_expunged now mb [] ns = ([], ns)"
| "notify_expunged now mb ((seqNum, i) # es) ns =
     (case NotifyMessageExpunged now mb [] i seqNum ns of (calls, ns') \<Rightarrow>
      case notify_expunged now mb es ns' of (calls', ns'') \<Rightarrow> (calls @ calls', ns''))"

definition ExpungeByUIDs ::
  "fts_index \<Rightarrow> instant \<Rightarrow> Mailbox option \<Rightarrow> (32 word \<Rightarrow> bool) \<Rightarrow> db \<Rightarrow>
     (imap_error option \<times> (32 word \<times> ID) list) \<times> db" where
  "ExpungeByUIDs fts now selectedMbox uids = Expunge fts now selectedMbox (Some uids)"

definition WriteExpungeNotifications :: "32 word list \<Rightarrow> 32 word list" where
  "WriteExpungeNotifications expungedSeqNums = sortUint32Desc expungedSeqNums"

record ExpungeResult =
  exr_ExpungedSeqNums :: "32 word list"
  exr_ExpungedCount :: int
  exr_FreedSpace :: int

definition ExpungeAll :: "instant \<Rightarrow> Mailbox option \<Rightarrow> ExpungeResult imapm" where
  "ExpungeAll now selectedMbox =
     (case selectedMbox of
        None \<Rightarrow> imap_fail (ImapNo None ''No mailbox selected'')
      | Some mbox \<Rightarrow>
          imap_then (or_no ''Failed to delete messages'' (DeleteByMailbox (mb_ID mbox)))
            (\<lambda>deleted d. (Inr \<lparr>exr_ExpungedSeqNums = [], exr_ExpungedCount = deleted, exr_FreedSpace = 0\<rparr>,
                          snd (RecalculateStats now (mb_ID mbox) d))))"

end
