(* ===== verification/Imap_Sync.thy ===== *)
theory Imap_Sync
  imports Imap_Store
begin

text \<open>
  What a client sees of a mailbox and how STORE and EXPUNGE change it. The abstraction \<open>view\<close> maps the database to the
  list of UIDs and flag sets of a mailbox in sequence order; STORE is shown to refine the obvious change of such a list
  (\<open>spec_store\<close>), and EXPUNGE to send responses that carry the client's list to the server's.
\<close>

section \<open>The client's view of a mailbox\<close>

definition box_rows :: "ID \<Rightarrow> db \<Rightarrow> messageRow list" where
  "box_rows i d = sort_key (\<lambda>r. SInt (r_received_at r)) (filter (\<lambda>r. r_mailbox_id r = i) (db_messages d))"

definition row_flags :: "messageRow \<Rightarrow> imap_flag set" where
  "row_flags r = message_flags (toMessage r)"

lemma in_box_rows: "r \<in> set (box_rows i d) \<longleftrightarrow> r \<in> set (db_messages d) \<and> r_mailbox_id r = i"
  by (auto simp: box_rows_def)

lemma listing:
  "\<exists>res. ListByMailbox fts i (Some imapListOptions) d = (Inr res, d) \<and> lr_Items res = map (load d) (box_rows i d)"
proof -
  have "msg_where fts (Some (emptyMessageFilter\<lparr>sf_MailboxID := Some i\<rparr>)) = (\<lambda>r. r_mailbox_id r = i)"
    by (rule ext) (simp add: msg_where_def emptyMessageFilter_def)
  moreover have "msg_sort_key ''imap_uid'' = (\<lambda>r. SInt (r_received_at r))"
    by (rule ext) (simp add: msg_sort_key_def)
  ultimately show ?thesis
    by (simp add: ListByMailbox_def msg_List_def imapListOptions_def page_of_def limit_offset_def list_result_def
        sort_rows_def order_by_def SortAsc_def SortDesc_def box_rows_def Let_def)
qed

lemma load_flags [simp]: "message_flags (load d r) = row_flags r"
proof -
  have "msg_Status (fold add_recipient rs m) = msg_Status m \<and> msg_IsStarred (fold add_recipient rs m) = msg_IsStarred m \<and>
      msg_IsDeleted (fold add_recipient rs m) = msg_IsDeleted m \<and> msg_IsDraft (fold add_recipient rs m) = msg_IsDraft m \<and>
      msg_IsAnswered (fold add_recipient rs m) = msg_IsAnswered m" for rs m
    by (induction rs arbitrary: m) (simp_all add: add_recipient_def Let_def)
  then show ?thesis
    by (simp add: load_def loadRecipients_def row_flags_def message_flags_def)
qed

section \<open>STORE on rows\<close>

text \<open>Giving one standard flag the value it has in \<open>G\<close>, as the repository does it.\<close>

definition put_flag :: "instant \<Rightarrow> bool \<Rightarrow> imap_flag \<Rightarrow> messageRow \<Rightarrow> messageRow" where
  "put_flag now b f r =
     (case f of
        FlagSeen \<Rightarrow> r\<lparr>r_status := (if b then ''read'' else ''unread''), r_updated_at := now\<rparr>
      | FlagFlagged \<Rightarrow> r\<lparr>r_is_starred := b, r_updated_at := now\<rparr>
      | FlagDeleted \<Rightarrow> r\<lparr>r_is_deleted := b, r_updated_at := now\<rparr>
      | FlagDraft \<Rightarrow> r\<lparr>r_is_draft := b, r_updated_at := now\<rparr>
      | FlagAnswered \<Rightarrow> r\<lparr>r_is_answered := b, r_updated_at := now\<rparr>
      | _ \<Rightarrow> r)"

definition set_row :: "instant \<Rightarrow> imap_flag set \<Rightarrow> imap_flag \<Rightarrow> messageRow \<Rightarrow> messageRow" where
  "set_row now G f r = (if (f \<in> row_flags r) = (f \<in> G) then r else put_flag now (f \<in> G) f r)"

definition store_row :: "instant \<Rightarrow> StoreFlags \<Rightarrow> messageRow \<Rightarrow> messageRow" where
  "store_row now sf r =
     fold (set_row now (store_flags sf (row_flags r))) [FlagSeen, FlagFlagged, FlagDeleted, FlagDraft, FlagAnswered] r"

lemma put_flag_keys [simp]:
  "r_id (put_flag now b f r) = r_id r" "r_mailbox_id (put_flag now b f r) = r_mailbox_id r"
  "r_imap_uid (put_flag now b f r) = r_imap_uid r" "r_received_at (put_flag now b f r) = r_received_at r"
  by (cases f; simp add: put_flag_def)+

lemma set_row_keys [simp]:
  "r_id (set_row now G f r) = r_id r" "r_mailbox_id (set_row now G f r) = r_mailbox_id r"
  "r_imap_uid (set_row now G f r) = r_imap_uid r" "r_received_at (set_row now G f r) = r_received_at r"
  by (simp_all add: set_row_def)

lemma store_row_keys [simp]:
  "r_id (store_row now sf r) = r_id r" "r_mailbox_id (store_row now sf r) = r_mailbox_id r"
  "r_imap_uid (store_row now sf r) = r_imap_uid r" "r_received_at (store_row now sf r) = r_received_at r"
  by (simp_all add: store_row_def)

lemma row_flags_put:
  "f \<in> set StandardFlags \<Longrightarrow> row_flags (put_flag now b f r) = (if b then insert f (row_flags r) else row_flags r - {f})"
  by (cases f; cases b)
    (simp_all add: StandardFlags_def put_flag_def row_flags_def message_flags_def toMessage_def MessageRead_def
      insert_commute Diff_insert_absorb, auto)

lemma row_flags_set:
  "f \<in> set StandardFlags \<Longrightarrow> row_flags (set_row now G f r) = (if f \<in> G then insert f (row_flags r) else row_flags r - {f})"
  by (auto simp: set_row_def row_flags_put)

lemma row_flags_standard: "row_flags r \<subseteq> set StandardFlags"
  by (auto simp: row_flags_def message_flags_def StandardFlags_def)

lemma row_flags_sets:
  "set fs \<subseteq> set StandardFlags \<Longrightarrow> row_flags (fold (set_row now G) fs r) = row_flags r - set fs \<union> (G \<inter> set fs)"
proof (induction fs arbitrary: r)
  case (Cons f fs)
  then have "row_flags (set_row now G f r) = (if f \<in> G then insert f (row_flags r) else row_flags r - {f})"
    by (intro row_flags_set) simp
  then show ?case
    using Cons.IH [of "set_row now G f r"] Cons.prems by (cases "f \<in> G") auto
qed simp

lemma row_flags_store: "row_flags (store_row now sf r) = store_flags sf (row_flags r) \<inter> set StandardFlags"
proof -
  have "set [FlagSeen, FlagFlagged, FlagDeleted, FlagDraft, FlagAnswered] = set StandardFlags"
    by (auto simp: StandardFlags_def)
  then show ?thesis
    using row_flags_standard [of r] unfolding store_row_def by (subst row_flags_sets) auto
qed

text \<open>Updating the row of one message.\<close>

definition at_row :: "ID \<Rightarrow> (messageRow \<Rightarrow> messageRow) \<Rightarrow> db \<Rightarrow> db" where
  "at_row i g d = d\<lparr>db_messages := update_where (\<lambda>x. r_id x = i) g (db_messages d)\<rparr>"

lemma at_row_at_row: "(\<And>x. r_id (g x) = r_id x) \<Longrightarrow> at_row i h (at_row i g d) = at_row i (\<lambda>x. h (g x)) d"
  by (simp add: at_row_def update_where_def comp_def if_distrib cong: if_cong)

lemma schema_ok_at_row: "schema_ok d \<Longrightarrow> keeps_message_keys g \<Longrightarrow> schema_ok (at_row i g d)"
  unfolding at_row_def by (rule schema_ok_update_messages)

lemma mem_at_row: "r \<in> set (db_messages d) \<Longrightarrow> r_id r = i \<Longrightarrow> g r \<in> set (db_messages (at_row i g d))"
  by (force simp: at_row_def set_update_where)

lemma only_row:
  assumes "schema_ok d" and "r \<in> set (db_messages d)" and "x \<in> set (db_messages d)" and "r_id x = r_id r"
  shows "x = r"
  using assms find_message_iff [OF assms(1), of "r_id r"] by (metis option.inject)

lemma at_row_cong:
  assumes "schema_ok d" and "r \<in> set (db_messages d)" and "g r = h r"
  shows "at_row (r_id r) g d = at_row (r_id r) h d"
proof -
  have "update_where (\<lambda>x. r_id x = r_id r) g (db_messages d) = update_where (\<lambda>x. r_id x = r_id r) h (db_messages d)"
    unfolding update_where_def using only_row [OF assms(1,2)] assms(3) by (intro map_cong) auto
  then show ?thesis by (simp add: at_row_def)
qed

lemma at_row_same:
  assumes "schema_ok d" and "r \<in> set (db_messages d)" and "g r = r"
  shows "at_row (r_id r) g d = d"
proof -
  have "at_row (r_id r) g d = at_row (r_id r) (\<lambda>x. x) d"
    using assms by (intro at_row_cong) simp_all
  also have "\<dots> = d"
    by (simp add: at_row_def update_where_def)
  finally show ?thesis .
qed

lemma set_flag_ok:
  assumes "schema_ok d" and "r \<in> set (db_messages d)" and "keeps_message_keys g" and "\<And>x. g x = (f x)\<lparr>r_updated_at := now\<rparr>"
  shows "set_flag msg f now (r_id r) d = (Inr (), at_row (r_id r) g d)"
proof -
  have g: "(\<lambda>x. (f x)\<lparr>r_updated_at := now\<rparr>) = g"
    using assms(4) by auto
  have "count_where (\<lambda>x. r_id x = r_id r) (db_messages d) > 0"
    by (rule count_where_pos [OF assms(2)]) simp
  then show ?thesis
    unfolding set_flag_def at_row_def g
    by (intro expect_rows_pos) (simp_all add: update_messages_keys [OF assms(1,3)])
qed

lemma Mark_ok:
  assumes "schema_ok d" and "r \<in> set (db_messages d)"
  shows "r_status r \<noteq> ''read'' \<Longrightarrow> MarkAsRead now (r_id r) d = (Inr True, at_row (r_id r) (put_flag now True FlagSeen) d)"
    and "r_status r = ''read'' \<Longrightarrow> MarkAsUnread now (r_id r) d = (Inr True, at_row (r_id r) (put_flag now False FlagSeen) d)"
proof -
  have keys: "keeps_message_keys (\<lambda>x. x\<lparr>r_status := st, r_updated_at := now\<rparr>)" for st
    by (simp add: keeps_message_keys_def)
  have seen: "put_flag now b FlagSeen = (\<lambda>x. x\<lparr>r_status := (if b then ''read'' else ''unread''), r_updated_at := now\<rparr>)" for b
    by (rule ext) (simp add: put_flag_def)
  show "r_status r \<noteq> ''read'' \<Longrightarrow> MarkAsRead now (r_id r) d = (Inr True, at_row (r_id r) (put_flag now True FlagSeen) d)"
    and "r_status r = ''read'' \<Longrightarrow> MarkAsUnread now (r_id r) d = (Inr True, at_row (r_id r) (put_flag now False FlagSeen) d)"
    using GetByID_found [OF assms] update_messages_keys [OF assms(1) keys]
    by (simp_all add: MarkAsRead_def MarkAsUnread_def andThen_def wrap_def at_row_def seen MessageRead_def
        MessageUnread_def)
qed

lemmas flag_calls = Star_def Unstar_def MarkAsDeleted_def UnmarkAsDeleted_def MarkAsDraft_def UnmarkAsDraft_def
  MarkAsAnswered_def UnmarkAsAnswered_def setBoolFlag.simps

lemma put_flag_ok:
  assumes "schema_ok d" and "r \<in> set (db_messages d)"
  shows "Star now (r_id r) d = (Inr (), at_row (r_id r) (put_flag now True FlagFlagged) d)"
    "Unstar now (r_id r) d = (Inr (), at_row (r_id r) (put_flag now False FlagFlagged) d)"
    "MarkAsDeleted now (r_id r) d = (Inr (), at_row (r_id r) (put_flag now True FlagDeleted) d)"
    "UnmarkAsDeleted now (r_id r) d = (Inr (), at_row (r_id r) (put_flag now False FlagDeleted) d)"
    "MarkAsDraft now (r_id r) d = (Inr (), at_row (r_id r) (put_flag now True FlagDraft) d)"
    "UnmarkAsDraft now (r_id r) d = (Inr (), at_row (r_id r) (put_flag now False FlagDraft) d)"
    "MarkAsAnswered now (r_id r) d = (Inr (), at_row (r_id r) (put_flag now True FlagAnswered) d)"
    "UnmarkAsAnswered now (r_id r) d = (Inr (), at_row (r_id r) (put_flag now False FlagAnswered) d)"
  unfolding flag_calls
  by (rule set_flag_ok [OF assms]; simp add: put_flag_def keeps_message_keys_def)+

lemma persist_flag_ok:
  assumes "schema_ok d" and "r \<in> set (db_messages d)"
    and "f \<notin> row_flags r \<Longrightarrow> on d = (Inr x, at_row (r_id r) (put_flag now True f) d)"
    and "f \<in> row_flags r \<Longrightarrow> off d = (Inr y, at_row (r_id r) (put_flag now False f) d)"
    and "FlagSet_Has (fc_OldFlags c) f \<longleftrightarrow> f \<in> row_flags r" and "FlagSet_Has (fc_NewFlags c) f \<longleftrightarrow> f \<in> G"
  shows "persist_flag f c m1 on m2 off d = (Inr (), at_row (r_id r) (set_row now G f) d)"
proof (cases "(f \<in> row_flags r) = (f \<in> G)")
  case True
  then have "at_row (r_id r) (set_row now G f) d = d"
    by (intro at_row_same [OF assms(1,2)]) (simp add: set_row_def)
  then show ?thesis
    using True assms(5,6) by (simp add: persist_flag_def Changed_def imap_ret_def)
next
  case False
  then have "at_row (r_id r) (set_row now G f) d = at_row (r_id r) (put_flag now (f \<in> G) f) d"
    by (intro at_row_cong [OF assms(1,2)]) (simp add: set_row_def)
  then show ?thesis
    using False assms(3-6)
    by (auto simp: persist_flag_def Changed_def IsNow_def IsNowUn_def imap_then_def or_no_def imap_ret_def)
qed

lemma set_row_keeps: "keeps_message_keys (set_row now G f)"
  by (simp add: keeps_message_keys_def)

lemma persist_step:
  assumes "schema_ok d" and "r \<in> set (db_messages d)" and "f \<in> set StandardFlags"
  shows "schema_ok (at_row (r_id r) (set_row now G f) d)"
    and "set_row now G f r \<in> set (db_messages (at_row (r_id r) (set_row now G f) d))"
    and "g \<noteq> f \<Longrightarrow> g \<in> row_flags (set_row now G f r) \<longleftrightarrow> g \<in> row_flags r"
  using schema_ok_at_row [OF assms(1) set_row_keeps] mem_at_row [OF assms(2) refl] row_flags_set [OF assms(3)]
  by auto

lemma row_seen: "FlagSeen \<in> row_flags r \<longleftrightarrow> r_status r = ''read''"
  by (auto simp: row_flags_def message_flags_def toMessage_def MessageRead_def)

lemma persistFlagChanges_ok:
  assumes d: "schema_ok d" "r \<in> set (db_messages d)" and m: "msg_ID m = r_id r" "message_flags m = row_flags r"
  shows "persistFlagChanges now m (flag_change sf k m) d = (Inr (), at_row (r_id r) (store_row now sf) d)"
proof -
  define c where "c = flag_change sf k m"
  define G where "G = store_flags sf (row_flags r)"
  have old: "FlagSet_Has (fc_OldFlags c) f \<longleftrightarrow> f \<in> row_flags r" for f
    using m(2) by (simp add: c_def flag_change_def Let_def fl.has NewFlagSetFromMessage_flags)
  have new: "FlagSet_Has (fc_NewFlags c) f \<longleftrightarrow> f \<in> G" for f
    using m(2) by (simp add: c_def G_def flag_change_def Let_def fl.has applyFlagOperation_flags NewFlagSetFromMessage_flags)
  let ?s = "set_row now G" and ?i = "r_id r"
  have std: "FlagSeen \<in> set StandardFlags" "FlagFlagged \<in> set StandardFlags" "FlagDeleted \<in> set StandardFlags"
    "FlagDraft \<in> set StandardFlags" "FlagAnswered \<in> set StandardFlags"
    by (simp_all add: StandardFlags_def)
  define r1 where "r1 = ?s FlagSeen r"
  define r2 where "r2 = ?s FlagFlagged r1"
  define r3 where "r3 = ?s FlagDeleted r2"
  define r4 where "r4 = ?s FlagDraft r3"
  define d1 where "d1 = at_row ?i (?s FlagSeen) d"
  define d2 where "d2 = at_row ?i (?s FlagFlagged) d1"
  define d3 where "d3 = at_row ?i (?s FlagDeleted) d2"
  define d4 where "d4 = at_row ?i (?s FlagDraft) d3"
  note p1 = persist_step [OF d std(1), where now = now and G = G, folded r1_def d1_def]
  have i1: "r_id r1 = ?i" by (simp add: r1_def)
  note p2 = persist_step [OF p1(1,2) std(2), where now = now and G = G, unfolded i1, folded r2_def d2_def]
  have i2: "r_id r2 = ?i" by (simp add: r2_def i1)
  note p3 = persist_step [OF p2(1,2) std(3), where now = now and G = G, unfolded i2, folded r3_def d3_def]
  have i3: "r_id r3 = ?i" by (simp add: r3_def i2)
  note p4 = persist_step [OF p3(1,2) std(4), where now = now and G = G, unfolded i3, folded r4_def d4_def]
  have i4: "r_id r4 = ?i" by (simp add: r4_def i3)
  note call2 = put_flag_ok [OF p1(1,2), unfolded i1] and call3 = put_flag_ok [OF p2(1,2), unfolded i2]
    and call4 = put_flag_ok [OF p3(1,2), unfolded i3] and call5 = put_flag_ok [OF p4(1,2), unfolded i4]
  have s1: "persist_flag FlagSeen c m1 (MarkAsRead now ?i) m2 (MarkAsUnread now ?i) d = (Inr (), d1)" for m1 m2
    unfolding d1_def
    by (rule persist_flag_ok [OF d _ _ old new]; rule Mark_ok [OF d]; simp add: row_seen)
  have s2: "persist_flag FlagFlagged c m1 (Star now ?i) m2 (Unstar now ?i) d1 = (Inr (), d2)" for m1 m2
    unfolding d2_def i1 [symmetric]
    by (rule persist_flag_ok [OF p1(1,2)]) (use call2 i1 old new p1(3) in simp_all)
  have s3: "persist_flag FlagDeleted c m1 (MarkAsDeleted now ?i) m2 (UnmarkAsDeleted now ?i) d2 = (Inr (), d3)" for m1 m2
    unfolding d3_def i2 [symmetric]
    by (rule persist_flag_ok [OF p2(1,2)]) (use call3 i2 old new p1(3) p2(3) in simp_all)
  have s4: "persist_flag FlagDraft c m1 (MarkAsDraft now ?i) m2 (UnmarkAsDraft now ?i) d3 = (Inr (), d4)" for m1 m2
    unfolding d4_def i3 [symmetric]
    by (rule persist_flag_ok [OF p3(1,2)]) (use call4 i3 old new p1(3) p2(3) p3(3) in simp_all)
  have s5: "persist_flag FlagAnswered c m1 (MarkAsAnswered now ?i) m2 (UnmarkAsAnswered now ?i) d4 =
      (Inr (), at_row ?i (?s FlagAnswered) d4)" for m1 m2
    unfolding i4 [symmetric]
    by (rule persist_flag_ok [OF p4(1,2)]) (use call5 i4 old new p1(3) p2(3) p3(3) p4(3) in simp_all)
  have "persistFlagChanges now m c d = (Inr (), at_row ?i (?s FlagAnswered) d4)"
    by (simp add: persistFlagChanges_def imap_then_def m(1) s1 s2 s3 s4 s5)
  also have "at_row ?i (?s FlagAnswered) d4 = at_row ?i (store_row now sf) d"
    unfolding d4_def d3_def d2_def d1_def
    by (simp add: at_row_at_row) (rule at_row_cong [OF d], simp add: store_row_def G_def)
  finally show ?thesis by (simp add: c_def)
qed

lemma store_row_unchanged:
  "store_flags sf (row_flags r) = row_flags r \<Longrightarrow> store_row now sf r = r"
  by (simp add: store_row_def set_row_def)

text \<open>The rows of a set of messages, all at once.\<close>

definition at_rows :: "ID set \<Rightarrow> (messageRow \<Rightarrow> messageRow) \<Rightarrow> db \<Rightarrow> db" where
  "at_rows I g d = d\<lparr>db_messages := update_where (\<lambda>x. r_id x \<in> I) g (db_messages d)\<rparr>"

lemma at_rows_insert:
  assumes "\<And>x. r_id (g x) = r_id x" and "i \<notin> I"
  shows "at_rows I g (at_row i g d) = at_rows (insert i I) g d"
proof -
  have "update_where (\<lambda>x. r_id x \<in> I) g (update_where (\<lambda>x. r_id x = i) g xs) = update_where (\<lambda>x. r_id x \<in> insert i I) g xs" for xs
    using assms by (induction xs) auto
  then show ?thesis by (simp add: at_rows_def at_row_def)
qed

lemma at_rows_empty [simp]: "at_rows {} g d = d"
  by (simp add: at_rows_def update_where_def)

definition row_for :: "db \<Rightarrow> Message \<Rightarrow> bool" where
  "row_for d m \<longleftrightarrow> (\<exists>r \<in> set (db_messages d). r_id r = msg_ID m \<and> row_flags r = message_flags m)"

definition store_responses :: "StoreFlags \<Rightarrow> (32 word \<times> Message) list \<Rightarrow> (32 word \<times> imap_flag list) list" where
  "store_responses sf ms = (if stf_Silent sf then []
     else map (\<lambda>(k, m). (k, ToSlice (applyFlagOperation (NewFlagSetFromMessage m) sf))) ms)"

lemma store_responses_Cons:
  "store_responses sf ((k, m) # ms) =
     (if stf_Silent sf then [] else [(k, ToSlice (applyFlagOperation (NewFlagSetFromMessage m) sf))]) @ store_responses sf ms"
  by (simp add: store_responses_def)

lemma fst_store_responses: "map fst (store_responses sf ms) = (if stf_Silent sf then [] else map fst ms)"
  by (simp add: store_responses_def comp_def case_prod_unfold)

lemma HasChanges_iff: "HasChanges (flag_change sf k m) \<longleftrightarrow> store_flags sf (message_flags m) \<noteq> message_flags m"
  by (auto simp: HasChanges_def flag_change_def Let_def Equal_iff NewFlagSetFromMessage_flags applyFlagOperation_flags)

lemma rows_for_others:
  assumes "\<forall>y \<in> set ms. row_for d (snd y)" and "i \<notin> msg_ID ` snd ` set ms"
  shows "\<forall>y \<in> set ms. row_for (at_row i g d) (snd y)"
proof
  fix y assume y: "y \<in> set ms"
  then obtain q where q: "q \<in> set (db_messages d)" "r_id q = msg_ID (snd y)" "row_flags q = message_flags (snd y)"
    using assms(1) by (auto simp: row_for_def)
  have "r_id q \<noteq> i" using assms(2) y q(2) by (metis image_eqI)
  then have "q \<in> set (db_messages (at_row i g d))"
    using q(1) by (force simp: at_row_def set_update_where)
  with q show "row_for (at_row i g d) (snd y)" by (auto simp: row_for_def)
qed

lemma store_loop_ok:
  assumes "schema_ok d" and "distinct (map (msg_ID \<circ> snd) ms)" and "\<forall>x \<in> set ms. row_for d (snd x)"
  shows "\<exists>out'. store_loop now sf ms out d = ((None, out'), at_rows (msg_ID ` snd ` set ms) (store_row now sf) d) \<and>
    so_responses out' = so_responses out @ store_responses sf ms"
  using assms
proof (induction ms arbitrary: out d)
  case Nil
  then show ?case by (simp add: store_responses_def)
next
  case (Cons x ms)
  obtain k m where x: "x = (k, m)" by (cases x)
  from Cons.prems(3) x obtain r where r: "r \<in> set (db_messages d)" "r_id r = msg_ID m" "row_flags r = message_flags m"
    by (auto simp: row_for_def)
  let ?d = "at_row (msg_ID m) (store_row now sf) d"
  let ?c = "flag_change sf k m"
  have keep: "schema_ok ?d"
    by (rule schema_ok_at_row [OF Cons.prems(1)]) (simp add: keeps_message_keys_def)
  have new: "msg_ID m \<notin> msg_ID ` snd ` set ms"
    using Cons.prems(2) x by (auto simp: image_iff)
  have rest: "\<forall>y \<in> set ms. row_for ?d (snd y)"
    using Cons.prems(3) new by (intro rows_for_others) simp_all
  have dist: "distinct (map (msg_ID \<circ> snd) ms)" using Cons.prems(2) by (simp add: comp_def)
  have whole: "at_rows (msg_ID ` snd ` set ms) (store_row now sf) ?d = at_rows (msg_ID ` snd ` set (x # ms)) (store_row now sf) d"
    using at_rows_insert [of "store_row now sf" "msg_ID m", OF _ new] x by simp
  define out1 where "out1 = writeFetchResponse sf k (fc_NewFlags ?c)
    (if HasChanges ?c then out\<lparr>so_changes := so_changes out @ [?c]\<rparr> else out)"
  have resp: "so_responses out1 @ store_responses sf ms = so_responses out @ store_responses sf (x # ms)"
    by (simp add: out1_def writeFetchResponse_def x store_responses_Cons flag_change_def Let_def)
  have "store_loop now sf (x # ms) out d = store_loop now sf ms out1 ?d"
  proof (cases "HasChanges ?c")
    case True
    moreover have "persistFlagChanges now m ?c d = (Inr (), ?d)"
      using persistFlagChanges_ok [OF Cons.prems(1) r(1), of m now sf k] r by simp
    ultimately show ?thesis by (simp add: x out1_def Let_def)
  next
    case False
    then have "?d = d"
      using at_row_same [OF Cons.prems(1) r(1), of "store_row now sf"] r store_row_unchanged [of sf r now]
        HasChanges_iff [of sf k m] by simp
    with False show ?thesis by (simp add: x out1_def Let_def)
  qed
  then show ?case
    using Cons.IH [OF keep dist rest, of out1] whole resp by auto
qed

section \<open>STORE refines the change of a flag map\<close>

text \<open>What a client knows of a mailbox: the UID and the flags of each message, in sequence order.\<close>

type_synonym mailbox_view = "(32 word \<times> imap_flag set) list"

definition view :: "ID \<Rightarrow> db \<Rightarrow> mailbox_view" where
  "view i d = map (\<lambda>r. (r_imap_uid r, row_flags r)) (box_rows i d)"

definition spec_store :: "(32 word \<Rightarrow> 32 word \<Rightarrow> bool) \<Rightarrow> StoreFlags \<Rightarrow> mailbox_view \<Rightarrow> mailbox_view" where
  "spec_store sel sf v =
     map (\<lambda>(k, u, F). if sel k u then (u, store_flags sf F \<inter> set StandardFlags) else (u, F)) (numbered v)"

lemma sort_key_map_same:
  "(\<And>x. k (f x) = k x) \<Longrightarrow> sort_key k (map f xs) = map f (sort_key k xs)"
proof (induction xs)
  case (Cons x xs)
  have "insort_key k (f x) (map f ys) = map f (insort_key k x ys)" for ys
    by (induction ys) (simp_all add: Cons.prems)
  with Cons show ?case by simp
qed simp

lemma box_rows_at_rows:
  assumes "\<And>x. r_mailbox_id (g x) = r_mailbox_id x" and "\<And>x. r_received_at (g x) = r_received_at x"
  shows "box_rows i (at_rows I g d) = update_where (\<lambda>x. r_id x \<in> I) g (box_rows i d)"
proof -
  have "filter (\<lambda>r. r_mailbox_id r = i) (update_where P g xs) = update_where P g (filter (\<lambda>r. r_mailbox_id r = i) xs)" for P xs
    using assms(1) by (induction xs) (auto simp: update_where_def)
  then show ?thesis
    using assms(2) by (simp add: box_rows_def at_rows_def update_where_def sort_key_map_same)
qed

lemma numbered_map: "numbered (map f xs) = map (\<lambda>(k, x). (k, f x)) (numbered xs)"
  by (simp add: numbered_def zip_map2)

lemma snd_numbered [simp]: "map snd (numbered xs) = xs"
  by (simp add: numbered_def)

lemma distinct_box_rows: "schema_ok d \<Longrightarrow> distinct (map r_id (box_rows i d))"
proof -
  assume "schema_ok d"
  then have "distinct (map r_id (filter (\<lambda>r. r_mailbox_id r = i) (db_messages d)))"
    by (simp add: schema_defs distinct_map_filter)
  moreover have "mset (box_rows i d) = mset (filter (\<lambda>r. r_mailbox_id r = i) (db_messages d))"
    by (simp add: box_rows_def)
  ultimately show ?thesis
    by (metis mset_map mset_eq_imp_distinct_iff)
qed

lemma in_numbered: "(k, x) \<in> set (numbered xs) \<longleftrightarrow> (\<exists>i < length xs. k = word_of_nat (Suc i) \<and> x = xs ! i)"
  by (auto simp: numbered_def in_set_conv_nth simp del: of_nat_Suc)

lemma numbered_inj:
  assumes "distinct (map f xs)" and "(k, x) \<in> set (numbered xs)" and "(l, y) \<in> set (numbered xs)" and "f x = f y"
  shows "k = l \<and> x = y"
proof -
  from assms(2,3) obtain i j where ij: "i < length xs" "k = word_of_nat (Suc i)" "x = xs ! i"
    "j < length xs" "l = word_of_nat (Suc j)" "y = xs ! j"
    by (auto simp: in_numbered)
  then have "i = j"
    using assms(1,4) nth_eq_iff_index_eq [of "map f xs" i j] by simp
  with ij show ?thesis by simp
qed

text \<open>Selecting numbered rows by a predicate, and updating exactly those.\<close>

lemma update_selected:
  assumes "distinct (map r_id rs)"
  shows "update_where (\<lambda>x. r_id x \<in> r_id ` snd ` set (filter P (numbered rs))) g rs =
    map (\<lambda>(k, r). if P (k, r) then g r else r) (numbered rs)"
proof -
  define I where "I = r_id ` snd ` set (filter P (numbered rs))"
  have iff: "r_id r \<in> I \<longleftrightarrow> P (k, r)" if "(k, r) \<in> set (numbered rs)" for k r
  proof
    assume "r_id r \<in> I"
    then obtain l q where q: "(l, q) \<in> set (numbered rs)" "P (l, q)" "r_id r = r_id q" by (auto simp: I_def)
    from numbered_inj [OF assms that q(1,3)] q(2) show "P (k, r)" by simp
  next
    assume "P (k, r)"
    with that have "(k, r) \<in> set (filter P (numbered rs))" by simp
    then show "r_id r \<in> I" unfolding I_def by (metis imageI snd_conv)
  qed
  have "map (\<lambda>x. if r_id (snd x) \<in> I then g (snd x) else snd x) (numbered rs) =
      map (\<lambda>(k, r). if P (k, r) then g r else r) (numbered rs)"
    by (rule map_cong [OF refl]) (auto simp: iff)
  moreover have "map (\<lambda>x. if r_id (snd x) \<in> I then g (snd x) else snd x) (numbered rs) = update_where (\<lambda>x. r_id x \<in> I) g rs"
  proof -
    have "map (\<lambda>x. if r_id (snd x) \<in> I then g (snd x) else snd x) (numbered rs) =
        map (\<lambda>r. if r_id r \<in> I then g r else r) (map snd (numbered rs))"
      by (simp only: map_map comp_def)
    then show ?thesis by (simp only: snd_numbered update_where_def)
  qed
  ultimately show ?thesis unfolding I_def by (simp only:)
qed

lemma view_stored:
  assumes "schema_ok d" and "sel = numSetContainsMessage numSet"
    and "I = r_id ` snd ` set (filter (\<lambda>(k, r). sel k (r_imap_uid r)) (numbered (box_rows i d)))"
  shows "view i (at_rows I (store_row now sf) d) = spec_store sel sf (view i d)"
    and "j \<noteq> i \<Longrightarrow> view j (at_rows I (store_row now sf) d) = view j d"
proof -
  let ?f = "\<lambda>r. (r_imap_uid r, row_flags r)"
  have "view i (at_rows I (store_row now sf) d) =
      map ?f (map (\<lambda>(k, r). if sel k (r_imap_uid r) then store_row now sf r else r) (numbered (box_rows i d)))"
    using update_selected [OF distinct_box_rows [OF assms(1)], of "\<lambda>(k, r). sel k (r_imap_uid r)" i "store_row now sf"] assms(3)
    by (simp add: view_def box_rows_at_rows)
  also have "\<dots> = spec_store sel sf (view i d)"
    by (auto simp: spec_store_def view_def numbered_map row_flags_store)
  finally show "view i (at_rows I (store_row now sf) d) = spec_store sel sf (view i d)" .
  assume ji: "j \<noteq> i"
  have "r_id x \<notin> I" if x: "x \<in> set (box_rows j d)" for x
  proof
    assume "r_id x \<in> I"
    then obtain k y where y: "(k, y) \<in> set (numbered (box_rows i d))" "r_id x = r_id y"
      using assms(3) by auto
    then have "y \<in> set (box_rows i d)"
      by (metis image_eqI list.set_map snd_conv snd_numbered)
    then have "x = y" using only_row [OF assms(1)] x y(2) by (simp add: in_box_rows)
    with x \<open>y \<in> set (box_rows i d)\<close> ji show False by (simp add: in_box_rows)
  qed
  then have "update_where (\<lambda>x. r_id x \<in> I) (store_row now sf) (box_rows j d) = box_rows j d"
    by (rule update_where_id)
  then show "view j (at_rows I (store_row now sf) d) = view j d"
    by (simp add: view_def box_rows_at_rows)
qed

lemma getMessages_eq:
  "getMessagesForNumSet fts mbox numSet d =
     (Inr (map (\<lambda>(k, r). (k, load d r))
        (filter (\<lambda>(k, r). numSetContainsMessage numSet k (r_imap_uid r)) (numbered (box_rows (mb_ID mbox) d)))), d)"
proof -
  from listing obtain res where
    "ListByMailbox fts (mb_ID mbox) (Some imapListOptions) d = (Inr res, d)"
    "lr_Items res = map (load d) (box_rows (mb_ID mbox) d)" by blast
  then show ?thesis
    by (simp add: getMessagesForNumSet_def imap_then_def or_no_def imap_ret_def numbered_map filter_map comp_def case_prod_unfold)
qed

text \<open>The messages a command works on, in whatever order: distinct, each with its row.\<close>

lemma selected_messages:
  assumes d: "schema_ok d" and ord: "\<And>xs. mset (ord xs) = mset xs"
    and sel: "sel = filter P (numbered (box_rows i d))" and ms: "ms = ord (map (\<lambda>(k, r). (k, load d r)) sel)"
  shows "distinct (map (msg_ID \<circ> snd) ms)" and "\<forall>x \<in> set ms. row_for d (snd x)"
    and "msg_ID ` snd ` set ms = r_id ` snd ` set sel"
proof -
  have set_ms: "set ms = (\<lambda>(k, r). (k, load d r)) ` set sel"
    using arg_cong [OF ord [of "map (\<lambda>(k, r). (k, load d r)) sel"], of set_mset] by (simp add: ms)
  have rows: "r \<in> set (box_rows i d)" if "(k, r) \<in> set sel" for k r
  proof -
    have "(k, r) \<in> set (numbered (box_rows i d))" using that sel by simp
    then show ?thesis by (metis image_eqI list.set_map snd_conv snd_numbered)
  qed
  have "distinct (map (msg_ID \<circ> snd) (map (\<lambda>(k, r). (k, load d r)) sel))"
  proof -
    have eq: "map (msg_ID \<circ> snd) (map (\<lambda>(k, r). (k, load d r)) sel) = map (r_id \<circ> snd) sel"
      by (auto simp: comp_def)
    have "distinct (map (r_id \<circ> snd) (numbered (box_rows i d)))"
      using distinct_box_rows [OF d] by (metis map_map snd_numbered)
    then show ?thesis
      unfolding eq unfolding sel by (rule distinct_map_filter)
  qed
  then show "distinct (map (msg_ID \<circ> snd) ms)"
    using mset_eq_imp_distinct_iff [of "map (msg_ID \<circ> snd) ms" "map (msg_ID \<circ> snd) (map (\<lambda>(k, r). (k, load d r)) sel)"]
    by (simp only: mset_map ord ms)
  show "\<forall>x \<in> set ms. row_for d (snd x)"
  proof
    fix x assume "x \<in> set ms"
    then obtain k r where x: "(k, r) \<in> set sel" "x = (k, load d r)" by (auto simp: set_ms)
    show "row_for d (snd x)"
      using rows [OF x(1)] x(2) by (auto simp: row_for_def in_box_rows intro!: bexI [of _ r])
  qed
  show "msg_ID ` snd ` set ms = r_id ` snd ` set sel"
    unfolding set_ms image_image by (rule image_cong) auto
qed

lemma Store_ok:
  assumes d: "schema_ok d" and ord: "\<And>xs. mset (ord xs) = mset xs"
    and sel: "sel = filter (\<lambda>(k, r). numSetContainsMessage numSet k (r_imap_uid r)) (numbered (box_rows (mb_ID mbox) d))"
  shows "\<exists>out. Store ord fts now (Some mbox) numSet sf d = ((None, out), at_rows (r_id ` snd ` set sel) (store_row now sf) d) \<and>
    so_responses out = store_responses sf (ord (map (\<lambda>(k, r). (k, load d r)) sel))"
proof -
  let ?ms = "ord (map (\<lambda>(k, r). (k, load d r)) sel)"
  note ms = selected_messages [where ord = ord, OF d ord sel refl]
  from store_loop_ok [OF d ms(1,2), of now sf emptyStoreOut] obtain out where
    "store_loop now sf ?ms emptyStoreOut d = ((None, out), at_rows (r_id ` snd ` set sel) (store_row now sf) d)"
    "so_responses out = store_responses sf ?ms"
    by (auto simp: ms(3) emptyStoreOut_def)
  then show ?thesis
    by (simp add: Store_def getMessages_eq sel updateMailboxUnseenCount_def imap_ret_def)
qed

text \<open>C4. STORE implements the change of flags a client expects: whatever order the selected messages
  are visited in, the command succeeds; in the view of the selected mailbox each selected message has exactly the standard
  flags of the requested set, union or difference, every other message and every other mailbox looks as before, and
  unless the command is silent each selected message is answered once. Keywords are not kept, although the mailbox
  announces them as permanent.\<close>

theorem store_refines_flag_change:
  assumes "schema_ok d" and "\<And>xs. mset (ord xs) = mset xs"
  shows "\<exists>out d'. Store ord fts now (Some mbox) numSet sf d = ((None, out), d')
    \<and> view (mb_ID mbox) d' = spec_store (numSetContainsMessage numSet) sf (view (mb_ID mbox) d)
    \<and> (\<forall>j. j \<noteq> mb_ID mbox \<longrightarrow> view j d' = view j d)
    \<and> mset (map fst (so_responses out)) = (if stf_Silent sf then {#}
         else mset (map fst (filter (\<lambda>(k, u, F). numSetContainsMessage numSet k u) (numbered (view (mb_ID mbox) d)))))"
proof -
  define sel where "sel = filter (\<lambda>(k, r). numSetContainsMessage numSet k (r_imap_uid r)) (numbered (box_rows (mb_ID mbox) d))"
  from Store_ok [where numSet = numSet, OF assms sel_def, of fts now sf] obtain out where
    out: "Store ord fts now (Some mbox) numSet sf d = ((None, out), at_rows (r_id ` snd ` set sel) (store_row now sf) d)"
    "so_responses out = store_responses sf (ord (map (\<lambda>(k, r). (k, load d r)) sel))" by blast
  note views = view_stored [OF assms(1) refl, where I = "r_id ` snd ` set sel" and i = "mb_ID mbox" and numSet = numSet]
  have "mset (map fst (ord (map (\<lambda>(k, r). (k, load d r)) sel))) = mset (map fst sel)"
  proof -
    have "mset (map fst (ord (map (\<lambda>(k, r). (k, load d r)) sel))) = mset (map fst (map (\<lambda>(k, r). (k, load d r)) sel))"
      by (simp only: mset_map assms(2))
    also have "map fst (map (\<lambda>(k, r). (k, load d r)) sel) = map fst sel"
      by (simp add: comp_def split_beta)
    finally show ?thesis .
  qed
  moreover have "map fst sel = map fst (filter (\<lambda>(k, u, F). numSetContainsMessage numSet k u) (numbered (view (mb_ID mbox) d)))"
    by (simp add: sel_def view_def numbered_map filter_map comp_def case_prod_unfold)
  ultimately have "mset (map fst (so_responses out)) = (if stf_Silent sf then {#}
      else mset (map fst (filter (\<lambda>(k, u, F). numSetContainsMessage numSet k u) (numbered (view (mb_ID mbox) d)))))"
    unfolding out(2) fst_store_responses by simp
  then show ?thesis
    using out(1) views by (auto simp: sel_def)
qed

text \<open>A database with two messages in one mailbox, for the witnesses.\<close>

definition imap_db :: db where
  "imap_db =
     snd (MarkAsDeleted 8 ''y'' (snd (Create 9 ((sample_message ''y'' ''a'')\<lparr>msg_ReceivedAt := 20\<rparr>)
       (snd (Create 9 ((sample_message ''x'' ''a'')\<lparr>msg_ReceivedAt := 10\<rparr>) sample_db)))))"

lemma imap_db_ok: "store_ok imap_db"
  by code_simp

lemma imap_db_schema: "schema_ok imap_db"
  using imap_db_ok by (simp add: store_ok_def)

theorem store_refines_flag_change_witness:
  "\<exists>out d'. Store (\<lambda>xs. rev xs) (\<lambda>_ _. False) 5 (Some (toMailbox (hd (db_mailboxes imap_db)))) (SeqSet (\<lambda>k. k = 1))
       \<lparr>stf_Op = StoreFlagsAdd, stf_Silent = False, stf_Flags = [FlagFlagged]\<rparr> imap_db = ((None, out), d')
    \<and> view ''a'' d' = [(1, {FlagFlagged}), (2, {FlagDeleted})]"
proof -
  let ?sf = "\<lparr>stf_Op = StoreFlagsAdd, stf_Silent = False, stf_Flags = [FlagFlagged]\<rparr>"
  let ?mb = "toMailbox (hd (db_mailboxes imap_db))"
  have id: "mb_ID ?mb = ''a''"
    by code_simp
  have v: "view ''a'' imap_db = [(1, {}), (2, {FlagDeleted})]"
    by code_simp
  have "spec_store (numSetContainsMessage (SeqSet (\<lambda>k. k = 1))) ?sf [(1, {}), (2, {FlagDeleted})] =
      [(1, {FlagFlagged}), (2, {FlagDeleted})]"
    by (simp add: spec_store_def numbered_def numSetContainsMessage_def store_flags_def StandardFlags_def)
  then show ?thesis
    using store_refines_flag_change [OF imap_db_schema, of "\<lambda>xs. rev xs" "\<lambda>_ _. False" 5 ?mb "SeqSet (\<lambda>k. k = 1)" ?sf] id v
    by auto
qed

section \<open>EXPUNGE keeps the client in step\<close>

text \<open>What a client does on an EXPUNGE response: it drops the message with that number, and later ones move up.\<close>

definition drop_seq :: "32 word \<Rightarrow> 'a list \<Rightarrow> 'a list" where
  "drop_seq k xs = take (unat k - 1) xs @ drop (unat k) xs"

definition drop_at :: "nat \<Rightarrow> 'a list \<Rightarrow> 'a list" where
  "drop_at i xs = take i xs @ drop (Suc i) xs"

definition hits :: "('a \<Rightarrow> bool) \<Rightarrow> 'a list \<Rightarrow> nat list" where
  "hits P xs = filter (\<lambda>i. P (xs ! i)) [0..<length xs]"

lemma hits_snoc: "hits P (xs @ [x]) = hits P xs @ (if P x then [length xs] else [])"
proof -
  have "filter (\<lambda>i. P ((xs @ [x]) ! i)) [0..<length xs] = filter (\<lambda>i. P (xs ! i)) [0..<length xs]"
    by (rule filter_cong) (auto simp: nth_append)
  then show ?thesis by (simp add: hits_def)
qed

lemma drops_append:
  "sorted_wrt (\<lambda>i j. j < i) is \<Longrightarrow> (\<And>i. i \<in> set is \<Longrightarrow> i < length xs) \<Longrightarrow> fold drop_at is (xs @ ys) = fold drop_at is xs @ ys"
proof (induction "is" arbitrary: xs)
  case (Cons i "is")
  have len: "length (drop_at i xs) = length xs - 1"
    using Cons.prems(2) [of i] by (auto simp: drop_at_def)
  have "drop_at i (xs @ ys) = drop_at i xs @ ys"
    using Cons.prems(2) [of i] by (simp add: drop_at_def)
  moreover have "j < length (drop_at i xs)" if "j \<in> set is" for j
    using Cons.prems that len by fastforce
  ultimately show ?case
    using Cons.IH [of "drop_at i xs"] Cons.prems(1) by simp
qed simp

lemma sorted_hits: "sorted_wrt (<) (hits P xs)"
  unfolding hits_def by (rule sorted_wrt_filter) (simp add: sorted_wrt_iff_nth_less)

lemma hits_less: "i \<in> set (hits P xs) \<Longrightarrow> i < length xs"
  by (simp add: hits_def)

lemma drop_hits: "fold drop_at (rev (hits P xs)) xs = filter (\<lambda>x. \<not> P x) xs"
proof (induction xs rule: rev_induct)
  case (snoc x xs)
  have "fold drop_at (rev (hits P xs)) (xs @ [x]) = fold drop_at (rev (hits P xs)) xs @ [x]"
    using sorted_hits [of P xs] by (intro drops_append) (auto simp: sorted_wrt_rev dest: hits_less)
  moreover have "drop_at (length xs) (xs @ [x]) = xs"
    by (simp add: drop_at_def)
  ultimately show ?case
    using snoc by (simp add: hits_snoc)
qed (simp add: hits_def)

definition seq_of :: "nat \<Rightarrow> 32 word" where
  "seq_of i = word_of_nat (Suc i)"

lemma unat_seq_of: "i < 2 ^ 32 - 1 \<Longrightarrow> unat (seq_of i) = Suc i"
  by (simp add: seq_of_def unsigned_of_nat take_bit_nat_eq_self del: of_nat_Suc)

lemma drop_seqs: "(\<And>i. i \<in> set is \<Longrightarrow> i < 2 ^ 32 - 1) \<Longrightarrow> fold drop_seq (map seq_of is) xs = fold drop_at is xs"
  by (induction "is" arbitrary: xs) (simp_all add: drop_seq_def drop_at_def unat_seq_of)

lemma sort_seqs:
  assumes "sorted_wrt (<) is" and "\<And>i. i \<in> set is \<Longrightarrow> i < 2 ^ 32 - 1"
  shows "sort (map seq_of is) = map seq_of is" and "distinct (map seq_of is)"
proof -
  have less: "seq_of i < seq_of j" if "i < j" "i < 2 ^ 32 - 1" "j < 2 ^ 32 - 1" for i j
    using that unat_seq_of [of i] unat_seq_of [of j] by (simp add: word_less_nat_alt)
  have strict: "sorted_wrt (<) (map seq_of is)"
    using assms by (induction "is") (auto simp: less)
  then show "distinct (map seq_of is)"
    by (simp add: strict_sorted_iff)
  show "sort (map seq_of is) = map seq_of is"
    using strict by (simp add: strict_sorted_iff sorted_sort_id)
qed

lemma filter_numbered:
  "filter (\<lambda>(k, x). P x) (numbered xs) = map (\<lambda>i. (seq_of i, xs ! i)) (hits P xs)"
proof -
  have "numbered xs = map (\<lambda>i. (seq_of i, xs ! i)) [0..<length xs]"
    by (rule nth_equalityI) (simp_all add: numbered_def seq_of_def)
  then show ?thesis
    by (simp add: filter_map comp_def hits_def)
qed

lemma expunge_loop_ok:
  assumes "schema_ok d" and "distinct (map (\<lambda>k. msg_ID (the (map_of ms k))) ks)"
    and "\<And>k. k \<in> set ks \<Longrightarrow> \<exists>m. map_of ms k = Some m \<and> msg_ID m \<in> r_id ` set (db_messages d)"
  shows "\<exists>d'. expunge_loop now ms ks d = (map (\<lambda>k. (k, msg_ID (the (map_of ms k)))) ks, d') \<and> schema_ok d' \<and>
    db_messages d' = filter (\<lambda>x. r_id x \<notin> set (map (\<lambda>k. msg_ID (the (map_of ms k))) ks)) (db_messages d)"
  using assms
proof (induction ks arbitrary: d)
  case (Cons k ks)
  obtain m where m: "map_of ms k = Some m" "msg_ID m \<in> r_id ` set (db_messages d)"
    using Cons.prems(3) [of k] by auto
  then obtain r where r: "r \<in> set (db_messages d)" "r_id r = msg_ID m" by auto
  note del = Delete_ok [OF Cons.prems(1) r(1), of now]
  have msgs: "db_messages (deleted_db now r d) = filter (\<lambda>x. r_id x \<noteq> msg_ID m) (db_messages d)"
    using r(2) by (simp add: deleted_db_def cascade_children_def)
  have "\<exists>m'. map_of ms j = Some m' \<and> msg_ID m' \<in> r_id ` set (db_messages (deleted_db now r d))" if j: "j \<in> set ks" for j
  proof -
    obtain m' where m': "map_of ms j = Some m'" "msg_ID m' \<in> r_id ` set (db_messages d)"
      using Cons.prems(3) [of j] j by auto
    have "msg_ID m' \<noteq> msg_ID m"
      using Cons.prems(2) m(1) m'(1) j by (force simp: image_iff)
    with m' show ?thesis by (auto simp: msgs)
  qed
  from Cons.IH [OF del(2) _ this] Cons.prems(2) obtain d' where
    d': "expunge_loop now ms ks (deleted_db now r d) = (map (\<lambda>k. (k, msg_ID (the (map_of ms k)))) ks, d')" "schema_ok d'"
    "db_messages d' = filter (\<lambda>x. r_id x \<notin> set (map (\<lambda>k. msg_ID (the (map_of ms k))) ks)) (db_messages (deleted_db now r d))"
    by auto
  have "expunge_loop now ms (k # ks) d = (map (\<lambda>k. (k, msg_ID (the (map_of ms k)))) (k # ks), d')"
    using del(1) d'(1) m(1) r(2) by simp
  moreover have "db_messages d' = filter (\<lambda>x. r_id x \<notin> set (map (\<lambda>k. msg_ID (the (map_of ms k))) (k # ks))) (db_messages d)"
    using d'(3) m(1) by (auto simp: msgs intro: filter_cong)
  ultimately show ?case using d'(2) by blast
qed simp

definition expunged :: "(32 word \<Rightarrow> bool) option \<Rightarrow> 32 word \<times> imap_flag set \<Rightarrow> bool" where
  "expunged uids x \<longleftrightarrow> FlagDeleted \<in> snd x \<and> (case uids of None \<Rightarrow> True | Some c \<Rightarrow> c (fst x))"

lemma row_deleted: "FlagDeleted \<in> row_flags r \<longleftrightarrow> r_is_deleted r"
  by (auto simp: row_flags_def message_flags_def toMessage_def)

lemma load_deleted [simp]: "msg_IsDeleted (load d r) = r_is_deleted r"
proof -
  have "msg_IsDeleted (fold add_recipient rs m) = msg_IsDeleted m" for rs m
    by (induction rs arbitrary: m) (simp_all add: add_recipient_def Let_def)
  then show ?thesis by (simp add: load_def loadRecipients_def toMessage_def)
qed

lemma Recalculate_messages: "db_messages (snd (RecalculateStats now i d)) = db_messages d"
  by (auto simp: RecalculateStats_def expect_rows_def andThen_def wrap_def update_mailboxes_def stmt_def Let_def
      split: prod.splits sum.splits if_splits)

lemma box_rows_cong: "db_messages d = db_messages d' \<Longrightarrow> box_rows i d = box_rows i d'"
  by (simp add: box_rows_def)

lemma box_rows_filter:
  "db_messages d' = filter Q (db_messages d) \<Longrightarrow> box_rows i d' = filter Q (box_rows i d)"
  by (simp add: box_rows_def filter_sort [symmetric] conj_commute)

lemma map_of_hits:
  assumes "distinct (map seq_of is)" and "i \<in> set is"
  shows "map_of (map (\<lambda>i. (seq_of i, f i)) is) (seq_of i) = Some (f i)"
  using assms by (intro map_of_is_SomeI) (auto simp: comp_def)

lemma Expunge_ok:
  assumes d: "schema_ok d" and len: "length (box_rows (mb_ID mbox) d) < 2 ^ 32 - 1"
    and Q: "Q = (\<lambda>r. expunged uids (r_imap_uid r, row_flags r))"
  shows "\<exists>ex d'. Expunge fts now (Some mbox) uids d = ((None, ex), d') \<and>
    map fst ex = map seq_of (rev (hits Q (box_rows (mb_ID mbox) d))) \<and>
    db_messages d' = filter (\<lambda>x. x \<notin> set (filter Q (box_rows (mb_ID mbox) d))) (db_messages d)"
proof -
  let ?rs = "box_rows (mb_ID mbox) d"
  let ?is = "hits Q ?rs"
  obtain res where res: "ListByMailbox fts (mb_ID mbox) (Some imapListOptions) d = (Inr res, d)"
    "lr_Items res = map (load d) ?rs" using listing by blast
  have bound: "i < 2 ^ 32 - 1" if "i \<in> set ?is" for i
    using hits_less [OF that] len by simp
  note seqs = sort_seqs [OF sorted_hits [of Q ?rs] bound]
  have found: "findDeletedMessages (lr_Items res) uids = map (\<lambda>i. (seq_of i, load d (?rs ! i))) ?is"
  proof -
    have "findDeletedMessages (lr_Items res) uids =
        map (\<lambda>(k, r). (k, load d r)) (filter (\<lambda>(k, r). Q r) (numbered ?rs))"
      by (cases uids) (simp_all add: findDeletedMessages_def res(2) numbered_map filter_map comp_def case_prod_unfold
          isMessageDeleted_def Q expunged_def row_deleted conj_commute)
    then show ?thesis by (simp add: filter_numbered comp_def)
  qed
  let ?ms = "map (\<lambda>i. (seq_of i, load d (?rs ! i))) ?is"
  let ?id = "\<lambda>k. msg_ID (the (map_of ?ms k))"
  have at: "map_of ?ms (seq_of i) = Some (load d (?rs ! i))" if "i \<in> set ?is" for i
    using map_of_hits [OF seqs(2) that] .
  have ids: "map ?id (map seq_of (rev ?is)) = map (\<lambda>i. r_id (?rs ! i)) (rev ?is)"
    using at by simp
  have "distinct (map (\<lambda>i. r_id (?rs ! i)) ?is)"
  proof -
    have "distinct (map ((!) (map r_id ?rs)) ?is)"
      using distinct_box_rows [OF d] hits_less [of _ Q ?rs] sorted_hits [of Q ?rs]
      by (auto simp: distinct_map inj_on_def nth_eq_iff_index_eq strict_sorted_iff simp del: nth_map) 
    then show ?thesis
      using hits_less by (metis (no_types, lifting) map_cong nth_map)
  qed
  then have dist: "distinct (map ?id (map seq_of (rev ?is)))"
    unfolding ids by (metis distinct_rev rev_map)
  have mem: "?rs ! i \<in> set (db_messages d)" if "i \<in> set ?is" for i
    using hits_less [OF that] nth_mem in_box_rows by blast
  have "\<exists>m. map_of ?ms k = Some m \<and> msg_ID m \<in> r_id ` set (db_messages d)" if "k \<in> set (map seq_of (rev ?is))" for k
    using that at mem by auto
  from expunge_loop_ok [OF d dist this, of now] obtain d' where d':
    "expunge_loop now ?ms (map seq_of (rev ?is)) d = (map (\<lambda>k. (k, ?id k)) (map seq_of (rev ?is)), d')"
    "db_messages d' = filter (\<lambda>x. r_id x \<notin> set (map ?id (map seq_of (rev ?is)))) (db_messages d)" by blast
  have sorted: "sortUint32Desc (map fst ?ms) = map seq_of (rev ?is)"
    using seqs(1) by (simp add: sortUint32Desc_sorts comp_def rev_map)
  have hit: "r_id x \<in> set (map ?id (map seq_of (rev ?is))) \<longleftrightarrow> x \<in> set (filter Q ?rs)" if x: "x \<in> set (db_messages d)" for x
  proof -
    have "r_id x \<in> set (map ?id (map seq_of (rev ?is))) \<longleftrightarrow> (\<exists>i \<in> set ?is. r_id x = r_id (?rs ! i))"
      unfolding ids by auto
    also have "\<dots> \<longleftrightarrow> (\<exists>i \<in> set ?is. x = ?rs ! i)"
      using only_row [OF d mem x] by metis
    also have "\<dots> \<longleftrightarrow> x \<in> set (filter Q ?rs)"
      by (auto simp: hits_def in_set_conv_nth)
    finally show ?thesis .
  qed
  have msgs: "db_messages d' = filter (\<lambda>x. x \<notin> set (filter Q ?rs)) (db_messages d)"
    unfolding d'(2) using hit by (intro filter_cong) auto
  show ?thesis
  proof (cases "?is = []")
    case True
    then have "filter Q ?rs = []"
      by (auto simp: hits_def filter_empty_conv in_set_conv_nth)
    then have "filter (\<lambda>x. x \<notin> set (filter Q ?rs)) (db_messages d) = db_messages d"
      by simp
    with True show ?thesis
      by (simp add: Expunge_def or_no_def res(1) found)
  next
    case False
    have run: "Expunge fts now (Some mbox) uids d =
        ((None, map (\<lambda>k. (k, ?id k)) (map seq_of (rev ?is))), snd (RecalculateStats now (mb_ID mbox) d'))"
      using False d'(1) sorted by (simp add: Expunge_def or_no_def res(1) found del: map_map)
    have firsts: "map fst (map (\<lambda>k. (k, ?id k)) ks) = ks" for ks
      by (simp add: comp_def)
    show ?thesis
      by (rule exI, rule exI, intro conjI, rule run, rule firsts, simp only: Recalculate_messages msgs)
  qed
qed

lemma view_filter:
  assumes "db_messages d' = filter (\<lambda>x. x \<notin> set (filter Q (box_rows i d))) (db_messages d)"
  shows "box_rows i d' = filter (\<lambda>r. \<not> Q r) (box_rows i d)" and "j \<noteq> i \<Longrightarrow> box_rows j d' = box_rows j d"
proof -
  show "box_rows i d' = filter (\<lambda>r. \<not> Q r) (box_rows i d)"
    using box_rows_filter [OF assms, of i] by (auto intro: filter_cong)
  assume "j \<noteq> i"
  then show "box_rows j d' = box_rows j d"
    using box_rows_filter [OF assms, of j] by (auto simp: in_box_rows intro!: filter_True)
qed

text \<open>C14. EXPUNGE removes exactly the messages marked as deleted, restricted to the given UIDs if there
  are any, from the selected mailbox and no message from another one; and a client that applies the EXPUNGE responses one
  by one in the order they are sent ends with exactly the server's new list of messages.\<close>

theorem expunge_keeps_client_in_step:
  assumes "schema_ok d" and "length (view (mb_ID mbox) d) < 2 ^ 32 - 1"
  shows "\<exists>ex d'. Expunge fts now (Some mbox) uids d = ((None, ex), d')
    \<and> view (mb_ID mbox) d' = filter (\<lambda>x. \<not> (FlagDeleted \<in> snd x \<and> (case uids of None \<Rightarrow> True | Some c \<Rightarrow> c (fst x))))
        (view (mb_ID mbox) d)
    \<and> fold drop_seq (map fst ex) (view (mb_ID mbox) d) = view (mb_ID mbox) d'
    \<and> (\<forall>j. j \<noteq> mb_ID mbox \<longrightarrow> view j d' = view j d)"
proof -
  let ?i = "mb_ID mbox" and ?f = "\<lambda>r. (r_imap_uid r, row_flags r)"
  define Q where "Q = (\<lambda>r. expunged uids (?f r))"
  have len: "length (box_rows ?i d) < 2 ^ 32 - 1"
    using assms(2) by (simp add: view_def)
  from Expunge_ok [OF assms(1) len Q_def, of fts now] obtain ex d' where
    run: "Expunge fts now (Some mbox) uids d = ((None, ex), d')"
      "map fst ex = map seq_of (rev (hits Q (box_rows ?i d)))"
      "db_messages d' = filter (\<lambda>x. x \<notin> set (filter Q (box_rows ?i d))) (db_messages d)" by blast
  note rows = view_filter [OF run(3)]
  have v: "view ?i d' = filter (\<lambda>x. \<not> expunged uids x) (view ?i d)"
    by (simp add: view_def rows(1) filter_map comp_def Q_def)
  have "hits Q (box_rows ?i d) = hits (expunged uids) (view ?i d)"
    by (auto simp: hits_def view_def Q_def intro!: filter_cong)
  moreover have "i < 2 ^ 32 - 1" if "i \<in> set (hits (expunged uids) (view ?i d))" for i
    using hits_less [OF that] assms(2) by simp
  ultimately have "fold drop_seq (map fst ex) (view ?i d) = view ?i d'"
    using run(2) v drop_seqs [of "rev (hits (expunged uids) (view ?i d))" "view ?i d"]
      drop_hits [of "expunged uids" "view ?i d"] by simp
  then show ?thesis
    using run(1) v rows(2) by (auto simp: expunged_def view_def)
qed

theorem expunge_keeps_client_in_step_witness:
  "\<exists>ex d'. Expunge (\<lambda>_ _. False) 5 (Some (toMailbox (hd (db_mailboxes imap_db)))) None imap_db = ((None, ex), d')
    \<and> view ''a'' d' = [(1, {})]"
proof -
  let ?mb = "toMailbox (hd (db_mailboxes imap_db))"
  have id: "mb_ID ?mb = ''a''"
    by code_simp
  have v: "view ''a'' imap_db = [(1, {}), (2, {FlagDeleted})]"
    by code_simp
  show ?thesis
    using expunge_keeps_client_in_step [OF imap_db_schema, of ?mb "\<lambda>_ _. False" 5 None] id v by auto
qed

end
