(* ===== verification/Mailbox_Service.thy ===== *)
theory Mailbox_Service
  imports Message_Delivery
begin

text \<open>
  The mailbox service of \<^verbatim>\<open>internal/service/mailbox.go\<close> on the SQLite repository: creating, renaming,
  deleting and listing the mailboxes of a user, with the checks of ownership, address uniqueness and
  system mailboxes, and the single default mailbox of a user.

  A nil input is \<open>None\<close>, and a call reads the clock once. \<open>gen\<close> is the ID the generator hands out.
\<close>

section \<open>Data and errors\<close>

definition SystemMailboxNames :: "string list" where
  "SystemMailboxNames =
     [''Inbox'', ''INBOX'', ''inbox'', ''Sent'', ''SENT'', ''sent'', ''Drafts'', ''DRAFTS'', ''drafts'',
      ''Trash'', ''TRASH'', ''trash'', ''Spam'', ''SPAM'', ''spam'', ''Junk'', ''JUNK'', ''junk'']"

definition isSystemMailbox :: "string \<Rightarrow> bool" where
  "isSystemMailbox name \<longleftrightarrow> list_ex (\<lambda>sysName. name = sysName) SystemMailboxNames"

record CreateMailboxInput =
  cmi_UserID :: ID
  cmi_Name :: string
  cmi_Address :: string
  cmi_Description :: string
  cmi_IsCatchAll :: bool
  cmi_IsDefault :: bool
  cmi_RetentionDays :: int

record UpdateMailboxInput =
  umi_MailboxID :: ID
  umi_UserID :: ID
  umi_Name :: "string option"
  umi_Description :: "string option"
  umi_IsDefault :: "bool option"
  umi_RetentionDays :: "int option"

definition mbs_text :: "string \<Rightarrow> string \<Rightarrow> string" where
  "mbs_text op msg = ''mailbox service '' @ op @ '': '' @ msg"

definition mbs_fail :: "string \<Rightarrow> string \<Rightarrow> error \<Rightarrow> 'a dbm" where
  "mbs_fail op msg e = fail (Wrapped (mbs_text op msg) e)"

definition mbs_wrap :: "string \<Rightarrow> string \<Rightarrow> 'a dbm \<Rightarrow> 'a dbm" where
  "mbs_wrap op msg m = wrap (mbs_text op msg) m"

text \<open>The guard \<^verbatim>\<open>if id.IsEmpty() { return &MailboxServiceError{op, msg, domain.ErrInvalidInput} }\<close>\<close>

definition mbs_require :: "string \<Rightarrow> string \<Rightarrow> ID \<Rightarrow> 'a dbm \<Rightarrow> 'a dbm" where
  "mbs_require op msg i m = (if ID_IsEmpty i then mbs_fail op msg (Sentinel ErrInvalidInput) else m)"

text \<open>The lookup of the mailbox and the comparison of its owner with the acting user.\<close>

definition mbs_owned :: "string \<Rightarrow> ID \<Rightarrow> ID \<Rightarrow> Mailbox dbm" where
  "mbs_owned op mailboxID userID =
     andThen (mbs_wrap op ''failed to get mailbox'' (mbx_GetByID mailboxID))
       (\<lambda>mailbox. if mb_UserID mailbox \<noteq> userID
          then mbs_fail op ''access denied to mailbox'' (Sentinel ErrForbidden) else ret mailbox)"

section \<open>Operations\<close>

definition ListMailboxes :: "ID \<Rightarrow> ListOptions option \<Rightarrow> Mailbox ListResult dbm" where
  "ListMailboxes userID opts =
     mbs_require ''list'' ''user ID is required'' userID
       (mbs_wrap ''list'' ''failed to list mailboxes'' (ListByUser userID opts))"

definition GetMailbox :: "ID \<Rightarrow> ID \<Rightarrow> Mailbox dbm" where
  "GetMailbox mailboxID userID =
     mbs_require ''get'' ''mailbox ID is required'' mailboxID
       (mbs_require ''get'' ''user ID is required'' userID (mbs_owned ''get'' mailboxID userID))"

definition create_input :: "CreateMailboxInput \<Rightarrow> MailboxCreateInput" where
  "create_input inp =
     MailboxCreateInput_Normalize
       \<lparr>mci_Name = cmi_Name inp, mci_Address = cmi_Address inp, mci_Description = cmi_Description inp,
        mci_IsCatchAll = cmi_IsCatchAll inp, mci_IsDefault = cmi_IsDefault inp,
        mci_RetentionDays = cmi_RetentionDays inp\<rparr>"

definition new_mailbox :: "instant \<Rightarrow> ID \<Rightarrow> ID \<Rightarrow> MailboxCreateInput \<Rightarrow> Mailbox" where
  "new_mailbox now gen userID di =
     (NewMailbox now gen userID (mci_Name di) (mci_Address di))
       \<lparr>mb_Description := mci_Description di, mb_IsCatchAll := mci_IsCatchAll di,
        mb_IsDefault := mci_IsDefault di, mb_RetentionDays := mci_RetentionDays di\<rparr>"

definition CreateMailbox :: "ID \<Rightarrow> instant \<Rightarrow> CreateMailboxInput option \<Rightarrow> Mailbox dbm" where
  "CreateMailbox gen now input =
     (case input of
        None \<Rightarrow> mbs_fail ''create'' ''input is required'' (Sentinel ErrInvalidInput)
      | Some inp \<Rightarrow>
          mbs_require ''create'' ''user ID is required'' (cmi_UserID inp)
            (let domainInput = create_input inp; errs = MailboxCreateInput_Validate domainInput in
             if errs \<noteq> [] then mbs_fail ''create'' ''validation failed'' (ValidationErrs errs)
             else andThen (mbs_wrap ''create'' ''failed to check address uniqueness''
                             (ExistsByAddress (mci_Address domainInput)))
               (\<lambda>exists. if exists
                  then mbs_fail ''create'' ''mailbox with this address already exists''
                         (AlreadyExistsError ''mailbox'' ''address'' (mci_Address domainInput))
                  else let mailbox = new_mailbox now gen (cmi_UserID inp) domainInput in
                    mbs_wrap ''create'' ''failed to create mailbox''
                      (if mb_IsDefault mailbox
                       then Transaction False
                              (andThen (ClearDefault now (cmi_UserID inp)) (\<lambda>_. mbx_Create mailbox))
                       else mbx_Create mailbox))))"

definition update_input :: "UpdateMailboxInput \<Rightarrow> MailboxUpdateInput" where
  "update_input inp =
     \<lparr>mui_Name = umi_Name inp, mui_Description = umi_Description inp,
      mui_IsDefault = umi_IsDefault inp, mui_RetentionDays = umi_RetentionDays inp\<rparr>"

text \<open>
  The two halves of \<^verbatim>\<open>UpdateMailbox\<close> after the guards: the lookup, and the write of the changed copy.
  They are separate calls of the repository, so another request can run between them.
\<close>

definition update_read :: "UpdateMailboxInput \<Rightarrow> Mailbox dbm" where
  "update_read inp = mbs_owned ''update'' (umi_MailboxID inp) (umi_UserID inp)"

definition update_write :: "instant \<Rightarrow> UpdateMailboxInput \<Rightarrow> Mailbox \<Rightarrow> Mailbox dbm" where
  "update_write now inp mailbox =
     (let mailbox = MailboxUpdateInput_Apply now (update_input inp) mailbox in
      andThen (mbs_wrap ''update'' ''failed to update mailbox''
                 (if umi_IsDefault inp = Some True
                  then Transaction False
                         (andThen (ClearDefault now (umi_UserID inp)) (\<lambda>_. mbx_Update now mailbox))
                  else mbx_Update now mailbox))
        (\<lambda>_. ret mailbox))"

definition UpdateMailbox :: "instant \<Rightarrow> UpdateMailboxInput option \<Rightarrow> Mailbox dbm" where
  "UpdateMailbox now input =
     (case input of
        None \<Rightarrow> mbs_fail ''update'' ''input is required'' (Sentinel ErrInvalidInput)
      | Some inp \<Rightarrow>
          mbs_require ''update'' ''mailbox ID is required'' (umi_MailboxID inp)
            (mbs_require ''update'' ''user ID is required'' (umi_UserID inp)
              (let errs = MailboxUpdateInput_Validate (update_input inp) in
               if errs \<noteq> [] then mbs_fail ''update'' ''validation failed'' (ValidationErrs errs)
               else andThen (update_read inp) (update_write now inp))))"

definition DeleteMailbox :: "ID \<Rightarrow> ID \<Rightarrow> unit dbm" where
  "DeleteMailbox mailboxID userID =
     mbs_require ''delete'' ''mailbox ID is required'' mailboxID
       (mbs_require ''delete'' ''user ID is required'' userID
         (andThen (mbs_owned ''delete'' mailboxID userID)
           (\<lambda>mailbox. if isSystemMailbox (mb_Name mailbox)
              then mbs_fail ''delete'' ''cannot delete system mailbox''
                     (ConflictError ''mailbox'' ''system mailboxes cannot be deleted'')
              else mbs_wrap ''delete'' ''failed to delete mailbox'' (DeleteWithMessages mailboxID))))"

definition GetMailboxStats :: "ID \<Rightarrow> ID \<Rightarrow> MailboxStats dbm" where
  "GetMailboxStats mailboxID userID =
     mbs_require ''get_stats'' ''mailbox ID is required'' mailboxID
       (mbs_require ''get_stats'' ''user ID is required'' userID
         (andThen (mbs_owned ''get_stats'' mailboxID userID)
           (\<lambda>_. mbs_wrap ''get_stats'' ''failed to get mailbox stats'' (mbx_GetStats mailboxID))))"

definition GetUserMailboxStats :: "ID \<Rightarrow> MailboxStats dbm" where
  "GetUserMailboxStats userID =
     mbs_require ''get_user_stats'' ''user ID is required'' userID
       (mbs_wrap ''get_user_stats'' ''failed to get user mailbox stats'' (GetStatsByUser userID))"

definition SetDefaultMailbox :: "instant \<Rightarrow> ID \<Rightarrow> ID \<Rightarrow> unit dbm" where
  "SetDefaultMailbox now mailboxID userID =
     mbs_require ''set_default'' ''mailbox ID is required'' mailboxID
       (mbs_require ''set_default'' ''user ID is required'' userID
         (andThen (mbs_owned ''set_default'' mailboxID userID)
           (\<lambda>_. mbs_wrap ''set_default'' ''failed to set default mailbox''
             (Transaction False
               (andThen (ClearDefault now userID) (\<lambda>_. SetDefault now mailboxID))))))"

end
