(* ===== verification/Mailbox_Rules.thy ===== *)
theory Mailbox_Rules
  imports Mailbox_Service
begin

text \<open>
  What the mailbox service guarantees: every call of the mailbox and message services keeps at most one
  default mailbox per user, a created mailbox receives the mail sent to its address, system mailboxes are
  protected by their name, and what happens when an update and a delivery run at the same time.
\<close>

section \<open>Invariants of the mailbox table\<close>

text \<open>A call keeps \<open>I\<close> when \<open>I\<close> holds after it whatever it answers.\<close>

definition keeps :: "(db \<Rightarrow> bool) \<Rightarrow> 'a dbm \<Rightarrow> bool" where
  "keeps I m \<longleftrightarrow> (\<forall>d. I d \<longrightarrow> I (snd (m d)))"

named_theorems keeps_intros \<open>calls that keep an invariant\<close>

lemma keeps_basic [keeps_intros]:
  "keeps I (ret x)" "keeps I (fail e)" "keeps I (query q)" "keeps I (svc_fail op msg e)"
  "keeps I (mbs_fail op msg e)"
  by (simp_all add: keeps_def svc_fail_def mbs_fail_def)

lemma keeps_wraps [keeps_intros]:
  assumes "keeps I m"
  shows "keeps I (wrap msg m)" "keeps I (svc_wrap op msg m)" "keeps I (mbs_wrap op msg m)"
    "keeps I (require_id op msg i m)" "keeps I (mbs_require op msg i m)"
  using assms
  by (simp_all add: keeps_def svc_wrap_def mbs_wrap_def require_id_def mbs_require_def svc_fail_def mbs_fail_def)

lemma keeps_expect_rows [keeps_intros]: "keeps I m \<Longrightarrow> keeps I (expect_rows e m)"
  by (simp add: keeps_def)

lemma keeps_andThen [keeps_intros]:
  assumes "keeps I m" and "\<And>x. keeps I (f x)"
  shows "keeps I (andThen m f)"
  using assms by (auto simp: keeps_def snd_andThen split: prod.splits sum.splits)

lemma keeps_branches [keeps_intros]:
  "keeps I m \<Longrightarrow> keeps I n \<Longrightarrow> keeps I (if c then m else n)"
  "keeps I m \<Longrightarrow> (\<And>x. keeps I (f x)) \<Longrightarrow> keeps I (case v of None \<Rightarrow> m | Some x \<Rightarrow> f x)"
  "(\<And>e. keeps I (g e)) \<Longrightarrow> (\<And>x. keeps I (f x)) \<Longrightarrow> keeps I (case w of Inl e \<Rightarrow> g e | Inr x \<Rightarrow> f x)"
  "keeps I (h z) \<Longrightarrow> keeps I (let y = z in h y)"
  by (simp, cases v, simp_all, cases w, simp_all)

text \<open>A transaction only has to keep the invariant when it commits.\<close>

lemma keeps_commit:
  assumes "\<And>d x d'. I d \<Longrightarrow> m d = (Inr x, d') \<Longrightarrow> I d'"
  shows "keeps I (Transaction False m)"
  using assms by (auto simp: keeps_def Transaction_def split: prod.splits sum.splits)

lemma keeps_Transaction [keeps_intros]: "keeps I m \<Longrightarrow> keeps I (Transaction isTx m)"
  unfolding keeps_def Transaction_def by (auto split: prod.splits sum.splits)

lemma keeps_reads: "reads m \<Longrightarrow> keeps I m"
  by (simp add: keeps_def reads_def)

lemma keeps_stmt:
  assumes "\<And>d. I d \<Longrightarrow> schema_ok (f d) \<Longrightarrow> I (f d)"
  shows "keeps I (stmt f n)"
  using assms by (simp add: keeps_def stmt_def)

text \<open>A change that leaves everything but the counters, the description and the dates of a mailbox alone.\<close>

definition identity_kept :: "(mailboxRow \<Rightarrow> mailboxRow) \<Rightarrow> bool" where
  "identity_kept f \<longleftrightarrow> (\<forall>r. mr_id (f r) = mr_id r \<and> mr_user_id (f r) = mr_user_id r \<and>
     mr_name (f r) = mr_name r \<and> mr_address (f r) = mr_address r \<and>
     mr_is_catch_all (f r) = mr_is_catch_all r \<and> mr_is_default (f r) = mr_is_default r)"

lemma update_where_never [simp]: "update_where (\<lambda>_. False) f rs = rs"
  by (simp add: update_where_def)

text \<open>
  The contract between the mailbox table and the message service: an invariant that counter updates
  and changes of other tables cannot break is kept by everything the message service does.
\<close>

locale mailbox_law =
  fixes I :: "db \<Rightarrow> bool"
  assumes law: "I d \<Longrightarrow> schema_ok d' \<Longrightarrow> identity_kept f \<Longrightarrow>
    db_mailboxes d' = update_where P f (db_mailboxes d) \<Longrightarrow> I d'"
begin

lemma same_mailboxes: "I d \<Longrightarrow> schema_ok d' \<Longrightarrow> db_mailboxes d' = db_mailboxes d \<Longrightarrow> I d'"
  using law [of d d' id "\<lambda>_. False"] by (simp add: identity_kept_def)

lemma counters: "identity_kept f \<Longrightarrow> keeps I (update_mailboxes P f)"
  unfolding update_mailboxes_def by (intro keeps_stmt) (auto intro: law)

lemma other_tables:
  "keeps I (update_messages P1 f1)" "keeps I (insert_message r1)" "keeps I (delete_messages P1)"
  "keeps I (insert_recipient r2)" "keeps I (delete_recipients P2)"
  "keeps I (insert_attachment r3)" "keeps I (update_attachments P3 f3)" "keeps I (delete_attachments P3)"
  unfolding update_messages_def insert_message_def delete_messages_def insert_recipient_def
    delete_recipients_def insert_attachment_def update_attachments_def delete_attachments_def
  by (intro keeps_stmt; erule same_mailboxes; simp add: cascade_children_def)+

lemma counter_calls:
  "keeps I (IncrementMessageCount now i sz un)" "keeps I (DecrementMessageCount now i sz un)"
  "keeps I (UpdateUnreadCount now i delta)"
  unfolding IncrementMessageCount_def DecrementMessageCount_def UpdateUnreadCount_def
  by (intro keeps_intros counters; simp add: identity_kept_def bump_row_def drop_row_def)+

lemma reading: "keeps I (GetByID i)" "keeps I (mbx_GetByID j)"
  unfolding GetByID_def mbx_GetByID_def by (intro keeps_reads reads_gets)+

lemma creating: "keeps I (Create now m)"
proof -
  have rs: "keeps I (insert_recipients i k msg as)" for i k msg as
  proof (induction as)
    case (Cons a as)
    show ?case unfolding insert_recipients.simps by (intro keeps_intros other_tables Cons.IH)
  qed (simp only: insert_recipients.simps keeps_basic)
  show ?thesis
    unfolding Create_def assign_uid_def saveRecipients_def
    by (intro keeps_intros counter_calls other_tables rs)
qed

lemma storing_attachments: "keeps I (storeAttachments s now k i as)"
proof (induction as arbitrary: k)
  case (Cons a as)
  have content: "keeps I (StoreContent b j c)" for b j c
    unfolding StoreContent_def att_Exists_def att_GetByID_def get_attachment_def
    by (intro keeps_intros other_tables)
  show ?case
    unfolding storeAttachments.simps CreateWithContent_def att_Create_def
    by (intro keeps_intros other_tables Cons.IH content)
qed (simp only: storeAttachments.simps keeps_basic)

lemma store: "keeps I (StoreMessage s now inp)"
proof -
  have notify: "keeps I (notify_stored s res)" for res
    unfolding keeps_def using notify_stored_ok by (metis snd_conv)
  show ?thesis
    unfolding StoreMessage_def storeMessageInTransaction_def StoreRawBody_def set_flag_def
    by (intro keeps_intros notify keeps_reads [OF reads_find_duplicate] keeps_reads [OF reads_resolveMailbox]
        counter_calls other_tables creating storing_attachments)
qed

lemma service:
  "keeps I (DeleteMessage now i)" "keeps I (svc_MarkAsRead now i)" "keeps I (svc_MarkAsUnread now i)"
  "keeps I (MoveMessage now i target)"
  unfolding DeleteMessage_def svc_MarkAsRead_def svc_MarkAsUnread_def MoveMessage_def DeleteByMessage_def
    delete_content_def Delete_def MarkAsRead_def MarkAsUnread_def MoveToMailbox_def mbx_Exists_def
  by (intro keeps_intros other_tables counter_calls reading)+

end

section \<open>The default mailbox of a user\<close>

definition one_default :: "db \<Rightarrow> bool" where
  "one_default d \<longleftrightarrow> schema_ok d \<and> distinct (map mr_user_id (filter mr_is_default (db_mailboxes d)))"

definition no_default :: "ID \<Rightarrow> db \<Rightarrow> bool" where
  "no_default u d \<longleftrightarrow> list_all (\<lambda>b. mr_user_id b = u \<longrightarrow> \<not> mr_is_default b) (db_mailboxes d)"

lemma distinct_filter_update:
  assumes "distinct (map k (filter p xs))"
    and "\<And>x. x \<in> set xs \<Longrightarrow> P x \<Longrightarrow> k (f x) = k x \<and> (p (f x) \<longrightarrow> p x)"
  shows "distinct (map k (filter p (update_where P f xs))) \<and>
    k ` set (filter p (update_where P f xs)) \<subseteq> k ` set (filter p xs)"
  using assms
proof (induction xs)
  case (Cons x xs)
  then have "distinct (map k (filter p (update_where P f xs)))"
    "k ` set (filter p (update_where P f xs)) \<subseteq> k ` set (filter p xs)"
    by (auto split: if_splits)
  then show ?case
    using Cons.prems by (auto simp: update_where_def split: if_splits)
qed (simp add: update_where_def)

lemma update_where_idle: "(\<And>r. r \<in> set rs \<Longrightarrow> \<not> P r) \<Longrightarrow> update_where P f rs = rs"
  by (induction rs) (auto simp: update_where_def)

lemma update_where_split [simp]:
  "update_where P f (xs @ ys) = update_where P f xs @ update_where P f ys"
  "update_where P f (x # ys) = (if P x then f x else x) # update_where P f ys"
  by (simp_all add: update_where_def)

lemma one_default_update:
  assumes "one_default d" and "schema_ok d'" and "db_mailboxes d' = update_where P f (db_mailboxes d)"
    and "\<And>b. b \<in> set (db_mailboxes d) \<Longrightarrow> P b \<Longrightarrow> mr_user_id (f b) = mr_user_id b \<and> (mr_is_default (f b) \<longrightarrow> mr_is_default b)"
  shows "one_default d'"
  using assms distinct_filter_update [of mr_user_id mr_is_default "db_mailboxes d" P f]
  by (simp add: one_default_def)

interpretation dflt: mailbox_law one_default
proof
  fix d d' f P
  assume "one_default d" "schema_ok d'" "identity_kept f" "db_mailboxes d' = update_where P f (db_mailboxes d)"
  then show "one_default d'"
    by (rule_tac one_default_update [of d d' P f]) (auto simp: identity_kept_def)
qed

lemma stmt_InrD: "stmt f n d = (Inr x, d') \<Longrightarrow> schema_ok d' \<and> d' = f d \<and> x = n d"
  by (auto simp: stmt_def split: if_splits)

text \<open>Clearing: no default is left.\<close>

lemma ClearDefault_clears:
  assumes "one_default d" and "ClearDefault now u d = (Inr x, d')"
  shows "one_default d' \<and> no_default u d'"
proof -
  from assms(2) obtain n where "update_mailboxes (\<lambda>r. mr_user_id r = u \<and> mr_is_default r)
      (\<lambda>r. r\<lparr>mr_is_default := False, mr_updated_at := now\<rparr>) d = (Inr n, d')"
    unfolding ClearDefault_def by (auto elim!: andThen_InrE)
  then have d': "schema_ok d'" "d' = d\<lparr>db_mailboxes := update_where (\<lambda>r. mr_user_id r = u \<and> mr_is_default r)
      (\<lambda>r. r\<lparr>mr_is_default := False, mr_updated_at := now\<rparr>) (db_mailboxes d)\<rparr>"
    unfolding update_mailboxes_def by (auto dest!: stmt_InrD)
  have "one_default d'"
    by (rule one_default_update [OF assms(1) d'(1), of "\<lambda>r. mr_user_id r = u \<and> mr_is_default r"
          "\<lambda>r. r\<lparr>mr_is_default := False, mr_updated_at := now\<rparr>"]) (simp_all add: d'(2))
  moreover have "no_default u d'"
    unfolding no_default_def list_all_iff
    by (simp add: d'(2) set_update_where ball_Un)
  ultimately show ?thesis ..
qed

lemma ClearDefault_keeps: "keeps one_default (ClearDefault now u)"
proof -
  have "keeps one_default (update_mailboxes P (\<lambda>r. r\<lparr>mr_is_default := False, mr_updated_at := now\<rparr>))" for P
    unfolding update_mailboxes_def
    by (intro keeps_stmt, erule one_default_update [where P = P], assumption) auto
  then show ?thesis unfolding ClearDefault_def by (intro keeps_intros)
qed

text \<open>Statements that may set the flag, after the user's default was cleared.\<close>

lemma insert_default:
  assumes "one_default d" and "no_default (mr_user_id r) d \<or> \<not> mr_is_default r"
    and "insert_mailbox r d = (x, d')"
  shows "one_default d'"
  using assms
  by (auto simp: insert_mailbox_def stmt_def one_default_def no_default_def list_all_iff split: if_splits)

lemma update_default:
  assumes "one_default d" and "no_default (mr_user_id b) d \<or> (mr_is_default (f b) \<longrightarrow> mr_is_default b)"
    and "b \<in> set (db_mailboxes d)" and "mr_user_id (f b) = mr_user_id b"
    and "update_mailboxes (\<lambda>r. mr_id r = mr_id b) f d = (x, d')"
  shows "one_default d'"
proof -
  have upd: "one_default d" "update_mailboxes (\<lambda>r. mr_id r = mr_id b) f d = (x, d')" using assms by auto
  have only: "r = b" if "r \<in> set (db_mailboxes d)" "mr_id r = mr_id b" for r
    using assms(1,3) that find_mailbox_iff [of d "mr_id b"] unfolding one_default_def
    by (metis option.inject)
  show ?thesis
  proof (cases "mr_is_default (f b) \<longrightarrow> mr_is_default b")
    case True
    show ?thesis
      using upd assms(4) True only
      by (auto simp: update_mailboxes_def stmt_def split: if_splits
          intro!: one_default_update [of d _ "\<lambda>r. mr_id r = mr_id b" f])
  next
    case False
    then have none: "no_default (mr_user_id b) d" using assms(2) by auto
    obtain xs ys where xs: "db_mailboxes d = xs @ b # ys" using assms(3) by (metis split_list)
    have "mr_id b \<notin> mr_id ` set (xs @ ys)"
      using assms(1) xs by (auto simp: one_default_def schema_defs)
    then have same: "update_where (\<lambda>r. mr_id r = mr_id b) f (xs @ b # ys) = xs @ f b # ys"
      using update_where_idle [of xs "\<lambda>r. mr_id r = mr_id b" f] update_where_idle [of ys "\<lambda>r. mr_id r = mr_id b" f]
      by (simp add: image_iff) (metis Un_iff)
    show ?thesis
      using upd xs same none False assms(4)
      by (auto simp: update_mailboxes_def stmt_def one_default_def no_default_def list_all_iff split: if_splits)
  qed
qed


section \<open>Every operation keeps the default unique\<close>

lemma mbx_Create_keeps:
  assumes "one_default d" and "no_default (mb_UserID m) d \<or> \<not> mb_IsDefault m" and "mbx_Create m d = (x, d')"
  shows "one_default d'"
proof -
  let ?m = "if mb_UIDNext m = 0 then m\<lparr>mb_UIDNext := 1\<rparr> else m"
  have "d' = d \<or> (\<exists>y. insert_mailbox (row_of_mailbox ?m) d = (y, d'))"
    using assms(3)
    by (auto simp: mbx_Create_def ExistsByAddress_def Let_def andThen_def wrap_def split: if_splits prod.splits sum.splits)
  then show ?thesis
    using assms(1,2) insert_default [OF assms(1), of "row_of_mailbox ?m" _ d'] by (auto simp: row_of_mailbox_def)
qed

lemma CreateMailbox_keeps: "keeps one_default (CreateMailbox gen now input)"
proof -
  have plain: "keeps one_default (mbx_Create m)" if "\<not> mb_IsDefault m" for m
    using that unfolding keeps_def by (metis mbx_Create_keeps prod.collapse)
  have dflt: "keeps one_default (Transaction False (andThen (ClearDefault now u) (\<lambda>_. mbx_Create m)))"
    if "mb_UserID m = u" for m u
  proof (rule keeps_commit)
    fix d x d'
    assume "one_default d" and run: "andThen (ClearDefault now u) (\<lambda>_. mbx_Create m) d = (Inr x, d')"
    from run obtain y d1 where "ClearDefault now u d = (Inr y, d1)" and new: "mbx_Create m d1 = (Inr x, d')"
      by (rule andThen_InrE)
    then have "one_default d1" "no_default u d1" using ClearDefault_clears \<open>one_default d\<close> by blast+
    then show "one_default d'" using mbx_Create_keeps [OF _ _ new] that by simp
  qed
  have user: "mb_UserID (new_mailbox now gen u di) = u" for u di
    by (simp add: new_mailbox_def NewMailbox_def)
  have choose: "keeps one_default (if mb_IsDefault (new_mailbox now gen u di)
      then Transaction False (andThen (ClearDefault now u) (\<lambda>_. mbx_Create (new_mailbox now gen u di)))
      else mbx_Create (new_mailbox now gen u di))" for u di
    using dflt [OF user] plain by simp
  show ?thesis
    unfolding CreateMailbox_def ExistsByAddress_def Let_def
    by (intro keeps_intros choose)
qed

lemma mbs_owned_cases:
  "(\<exists>e. mbs_owned op i u d = (Inl e, d)) \<or>
   (\<exists>b \<in> set (db_mailboxes d). mr_id b = i \<and> mr_user_id b = u \<and> mbs_owned op i u d = (Inr (toMailbox b), d))"
  by (cases "find (\<lambda>r. mr_id r = i) (db_mailboxes d)")
    (auto simp: mbs_owned_def mbs_wrap_def mbs_fail_def mbx_GetByID_def get_mailbox_def andThen_def wrap_def
      toMailbox_def dest: find_SomeD)

lemma keeps_owned:
  assumes "\<And>d b. I d \<Longrightarrow> b \<in> set (db_mailboxes d) \<Longrightarrow> mr_id b = i \<Longrightarrow> mr_user_id b = u \<Longrightarrow> I (snd (f (toMailbox b) d))"
  shows "keeps I (andThen (mbs_owned op i u) f)"
  unfolding keeps_def using mbs_owned_cases [of op i u] assms
  by (metis (no_types, lifting) andThen_Inl andThen_Inr snd_conv)

lemma mbx_Update_row:
  assumes "mbx_Update now m d = (x, d')"
  shows "d' = d \<or> (\<exists>y. update_mailboxes (\<lambda>r. mr_id r = mb_ID m)
    (\<lambda>r. r\<lparr>mr_user_id := mb_UserID m, mr_name := mb_Name m, mr_address := ToLower (mb_Address m),
           mr_description := NullString (mb_Description m), mr_is_catch_all := mb_IsCatchAll m,
           mr_is_default := mb_IsDefault m, mr_message_count := mb_MessageCount m,
           mr_unread_count := mb_UnreadCount m, mr_total_size := mb_TotalSize m,
           mr_retention_days := mb_RetentionDays m, mr_updated_at := now\<rparr>) d = (y, d'))"
  using assms by (auto simp: mbx_Update_def mbx_Exists_def andThen_def wrap_def split: if_splits prod.splits sum.splits)

lemma Apply_fields [simp]:
  "mb_ID (MailboxUpdateInput_Apply now i m) = mb_ID m" "mb_UserID (MailboxUpdateInput_Apply now i m) = mb_UserID m"
  "mb_Address (MailboxUpdateInput_Apply now i m) = mb_Address m"
  "mb_IsDefault (MailboxUpdateInput_Apply now i m) = (case mui_IsDefault i of None \<Rightarrow> mb_IsDefault m | Some v \<Rightarrow> v)"
  "mb_MessageCount (MailboxUpdateInput_Apply now i m) = mb_MessageCount m"
  "mb_UnreadCount (MailboxUpdateInput_Apply now i m) = mb_UnreadCount m"
  "mb_TotalSize (MailboxUpdateInput_Apply now i m) = mb_TotalSize m"
  by (simp_all add: MailboxUpdateInput_Apply_def Let_def set_opt_def split: option.splits)

lemma toMailbox_fields [simp]:
  "mb_ID (toMailbox b) = mr_id b" "mb_UserID (toMailbox b) = mr_user_id b" "mb_Name (toMailbox b) = mr_name b"
  "mb_IsDefault (toMailbox b) = mr_is_default b" "mb_Address (toMailbox b) = mr_address b"
  "mb_MessageCount (toMailbox b) = mr_message_count b" "mb_UnreadCount (toMailbox b) = mr_unread_count b"
  "mb_TotalSize (toMailbox b) = mr_total_size b"
  by (simp_all add: toMailbox_def)

lemma mbx_Update_keeps:
  assumes "one_default d" and "mbx_Update now m d = (x, d')" and "b \<in> set (db_mailboxes d)"
    and "mb_ID m = mr_id b" and "mb_UserID m = mr_user_id b"
    and "no_default (mr_user_id b) d \<or> (mb_IsDefault m \<longrightarrow> mr_is_default b)"
  shows "one_default d'"
  using mbx_Update_row [OF assms(2)]
proof
  assume "\<exists>y. update_mailboxes (\<lambda>r. mr_id r = mb_ID m)
    (\<lambda>r. r\<lparr>mr_user_id := mb_UserID m, mr_name := mb_Name m, mr_address := ToLower (mb_Address m),
           mr_description := NullString (mb_Description m), mr_is_catch_all := mb_IsCatchAll m,
           mr_is_default := mb_IsDefault m, mr_message_count := mb_MessageCount m,
           mr_unread_count := mb_UnreadCount m, mr_total_size := mb_TotalSize m,
           mr_retention_days := mb_RetentionDays m, mr_updated_at := now\<rparr>) d = (y, d')"
  then show ?thesis
    unfolding assms(4) by (elim exE, rule_tac update_default [OF assms(1) _ assms(3)]) (use assms(5,6) in auto)
qed (use assms(1) in simp)

lemma ClearDefault_row:
  assumes "ClearDefault now u d = (Inr x, d')" and "b \<in> set (db_mailboxes d)"
  obtains b' where "b' \<in> set (db_mailboxes d')" "mr_id b' = mr_id b" "mr_user_id b' = mr_user_id b"
proof -
  let ?f = "\<lambda>r. r\<lparr>mr_is_default := False, mr_updated_at := now\<rparr>"
  let ?P = "\<lambda>r. mr_user_id r = u \<and> mr_is_default r"
  from assms(1) obtain n where "update_mailboxes ?P ?f d = (Inr n, d')"
    unfolding ClearDefault_def by (auto elim!: andThen_InrE)
  then have "db_mailboxes d' = update_where ?P ?f (db_mailboxes d)"
    unfolding update_mailboxes_def by (auto dest!: stmt_InrD)
  then have "(if ?P b then ?f b else b) \<in> set (db_mailboxes d')"
    using imageI [OF assms(2), of "\<lambda>r. if ?P r then ?f r else r"] by (simp only: set_update_where)
  then show thesis by (rule that) simp_all
qed

lemma Transaction_cases:
  obtains "snd (Transaction False m d) = d" | x where "m d = (Inr x, snd (Transaction False m d))"
  by (cases "m d"; cases "fst (m d)") (auto simp: Transaction_def)

text \<open>The transaction that clears the user's default and then sets a new one.\<close>

lemma default_transaction:
  assumes "one_default d" and "b \<in> set (db_mailboxes d)" and "mr_user_id b = u"
    and "\<And>d1 b1 x d2. one_default d1 \<Longrightarrow> no_default u d1 \<Longrightarrow> b1 \<in> set (db_mailboxes d1) \<Longrightarrow> mr_id b1 = mr_id b \<Longrightarrow>
      mr_user_id b1 = u \<Longrightarrow> m d1 = (Inr x, d2) \<Longrightarrow> one_default d2"
  shows "one_default (snd (Transaction False (andThen (ClearDefault now u) (\<lambda>_. m)) d))"
proof (cases rule: Transaction_cases [of "andThen (ClearDefault now u) (\<lambda>_. m)" d])
  case 1
  then show ?thesis using assms(1) by simp
next
  case (2 x)
  then obtain y d1 where c: "ClearDefault now u d = (Inr y, d1)"
    and m: "m d1 = (Inr x, snd (Transaction False (andThen (ClearDefault now u) (\<lambda>_. m)) d))"
    by (rule andThen_InrE)
  from c assms(2) obtain b1 where "b1 \<in> set (db_mailboxes d1)" "mr_id b1 = mr_id b" "mr_user_id b1 = mr_user_id b"
    by (rule ClearDefault_row)
  then show ?thesis
    using assms(3) ClearDefault_clears [OF assms(1) c] assms(4) [OF _ _ _ _ _ m] by blast
qed

lemma update_write_keeps:
  assumes "one_default d" and "b \<in> set (db_mailboxes d)" and "mr_user_id b = umi_UserID inp"
  shows "one_default (snd (update_write now inp (toMailbox b) d))"
proof -
  let ?m = "MailboxUpdateInput_Apply now (update_input inp) (toMailbox b)"
  have isd: "mui_IsDefault (update_input inp) = umi_IsDefault inp" by (simp add: update_input_def)
  have plain: "one_default (snd (mbx_Update now ?m d))" if "umi_IsDefault inp \<noteq> Some True"
    by (rule mbx_Update_keeps [OF assms(1) prod.collapse [symmetric] assms(2)])
      (use that isd in \<open>auto split: option.splits\<close>)
  have dflt: "one_default (snd (Transaction False
      (andThen (ClearDefault now (umi_UserID inp)) (\<lambda>_. mbx_Update now ?m)) d))"
  proof (rule default_transaction [OF assms])
    fix d1 b1 x d2
    assume "one_default d1" "no_default (umi_UserID inp) d1" "b1 \<in> set (db_mailboxes d1)"
      "mr_id b1 = mr_id b" "mr_user_id b1 = umi_UserID inp" "mbx_Update now ?m d1 = (Inr x, d2)"
    then show "one_default d2"
      using mbx_Update_keeps [of d1 now ?m "Inr x" d2 b1] assms(3) by simp
  qed
  show ?thesis
    using plain dflt by (simp add: update_write_def Let_def mbs_wrap_def snd_andThen split: prod.splits sum.splits)
      (auto simp: wrap_def split: prod.splits sum.splits)
qed

lemma UpdateMailbox_keeps: "keeps one_default (UpdateMailbox now input)"
  unfolding UpdateMailbox_def update_read_def Let_def
  by (intro keeps_intros keeps_owned update_write_keeps)

lemma mbx_GetByID_InrD:
  assumes "mbx_GetByID i d = (Inr m, d')"
  shows "\<exists>b \<in> set (db_mailboxes d). mr_id b = i \<and> m = toMailbox b \<and> d' = d"
proof (cases "find (\<lambda>r. mr_id r = i) (db_mailboxes d)")
  case (Some b)
  with assms show ?thesis
    using find_SomeD [OF Some] by (auto simp: mbx_GetByID_def get_mailbox_def split: if_splits)
qed (use assms in \<open>simp add: mbx_GetByID_def get_mailbox_def\<close>)

lemma SetDefault_keeps:
  assumes "one_default d" and "SetDefault now i d = (Inr x, d')"
  shows "one_default d'"
proof -
  let ?f = "\<lambda>r. r\<lparr>mr_is_default := True, mr_updated_at := now\<rparr>"
  from assms(2) obtain m d0 y d1 n where get: "mbx_GetByID i d = (Inr m, d0)"
    and clear: "ClearDefault now (mb_UserID m) d0 = (Inr y, d1)"
    and upd: "update_mailboxes (\<lambda>r. mr_id r = i) ?f d1 = (Inr n, d')"
    unfolding SetDefault_def by (auto elim!: andThen_InrE)
  from get obtain b where b: "b \<in> set (db_mailboxes d)" "mr_id b = i" "m = toMailbox b" "d0 = d"
    by (blast dest: mbx_GetByID_InrD)
  obtain b1 where b1: "b1 \<in> set (db_mailboxes d1)" "mr_id b1 = mr_id b" "mr_user_id b1 = mr_user_id b"
    using ClearDefault_row [OF clear [unfolded b(4)] b(1)] by blast
  have "one_default d1" "no_default (mr_user_id b) d1"
    using ClearDefault_clears [OF assms(1)] clear b by auto
  then show ?thesis
    using update_default [of d1 b1 ?f "Inr n" d'] upd b b1 by simp
qed

lemma SetDefaultMailbox_keeps: "keeps one_default (SetDefaultMailbox now i u)"
proof -
  have "keeps one_default (Transaction False (andThen (ClearDefault now u) (\<lambda>_. SetDefault now i)))"
  proof (rule keeps_commit)
    fix d x d'
    assume "one_default d" and run: "andThen (ClearDefault now u) (\<lambda>_. SetDefault now i) d = (Inr x, d')"
    from run obtain y d1 where "ClearDefault now u d = (Inr y, d1)" and "SetDefault now i d1 = (Inr x, d')"
      by (rule andThen_InrE)
    then show "one_default d'"
      using ClearDefault_clears \<open>one_default d\<close> SetDefault_keeps by blast
  qed
  note tx = this
  show ?thesis
    unfolding SetDefaultMailbox_def mbs_owned_def
    by (intro tx keeps_basic keeps_wraps keeps_andThen keeps_branches dflt.reading)
qed

lemma distinct_map_sub: "distinct (map k (filter p xs)) \<Longrightarrow> distinct (map k (filter p (filter q xs)))"
  by (induction xs) (auto split: if_splits)

lemma DeleteMailbox_keeps: "keeps one_default (DeleteMailbox i u)"
proof -
  have "keeps one_default (delete_mailboxes P)" for P
    unfolding delete_mailboxes_def
    by (intro keeps_stmt) (simp add: one_default_def cascade_messages_def cascade_children_def distinct_map_sub del: filter_filter)
  then show ?thesis
    unfolding DeleteMailbox_def DeleteWithMessages_def mbx_Delete_def mbs_owned_def
    by (intro keeps_intros dflt.reading)
qed


section \<open>Reachable databases\<close>

text \<open>One call of the mailbox service or of the message service, as a step of the database.\<close>

inductive service_step :: "db \<Rightarrow> db \<Rightarrow> bool" where
  create_step: "service_step d (snd (CreateMailbox gen now input d))"
| update_step: "service_step d (snd (UpdateMailbox now uinput d))"
| delete_step: "service_step d (snd (DeleteMailbox i u d))"
| default_step: "service_step d (snd (SetDefaultMailbox now i u d))"
| store_step: "service_step d (snd (StoreMessage s now sinput d))"
| delete_message_step: "service_step d (snd (DeleteMessage now i d))"
| read_step: "service_step d (snd (svc_MarkAsRead now i d))"
| unread_step: "service_step d (snd (svc_MarkAsUnread now i d))"
| move_step: "service_step d (snd (MoveMessage now i target d))"

inductive_cases service_stepE: "service_step d d'"

definition no_mailboxes :: "db \<Rightarrow> bool" where
  "no_mailboxes d \<longleftrightarrow> schema_ok d \<and> db_mailboxes d = []"

lemmas service_keeps = CreateMailbox_keeps UpdateMailbox_keeps DeleteMailbox_keeps SetDefaultMailbox_keeps
  dflt.store dflt.service

interpretation mailboxes: invariant_system no_mailboxes service_step one_default
proof
  show "no_mailboxes d \<Longrightarrow> one_default d" for d
    by (simp add: no_mailboxes_def one_default_def)
  show "one_default d \<Longrightarrow> service_step d d' \<Longrightarrow> one_default d'" for d d'
    by (elim service_stepE) (use service_keeps in \<open>auto simp: keeps_def\<close>)
qed


definition user_db :: db where
  "user_db = \<lparr>db_users = [sample_user ''u1'', sample_user ''u2''], db_mailboxes = [], db_messages = [], db_recipients = [], db_attachments = []\<rparr>"

definition box_input :: "string \<Rightarrow> string \<Rightarrow> bool \<Rightarrow> CreateMailboxInput" where
  "box_input name address isDefault =
     \<lparr>cmi_UserID = ''u1'', cmi_Name = name, cmi_Address = address, cmi_Description = [],
      cmi_IsCatchAll = False, cmi_IsDefault = isDefault, cmi_RetentionDays = 0\<rparr>"

definition work_box_db :: db where
  "work_box_db = snd (CreateMailbox ''m1'' 1 (Some (box_input '' Work '' ''Work@X'' True)) user_db)"

definition two_boxes_db :: db where
  "two_boxes_db = snd (CreateMailbox ''m2'' 2 (Some (box_input ''Home'' ''home@x'' True)) work_box_db)"

lemma two_boxes_reachable: "reachable no_mailboxes service_step two_boxes_db"
proof -
  have "no_mailboxes user_db" by code_simp
  then have "reachable no_mailboxes service_step user_db" by (rule reach_init)
  then have "reachable no_mailboxes service_step work_box_db"
    unfolding work_box_db_def by (rule reach_step) (rule create_step)
  then show ?thesis
    unfolding two_boxes_db_def by (rule reach_step) (rule create_step)
qed

lemma two_boxes_facts:
  "length (db_mailboxes two_boxes_db) = 2" "\<not> mr_is_default (db_mailboxes two_boxes_db ! 0)"
  "mr_is_default (db_mailboxes two_boxes_db ! 1)" "mr_id (db_mailboxes two_boxes_db ! 1) = ''m2''"
  by code_simp+


section \<open>A created mailbox receives its mail\<close>

definition cleared :: "instant \<Rightarrow> ID \<Rightarrow> bool \<Rightarrow> db \<Rightarrow> db" where
  "cleared now u c d = (if c then d\<lparr>db_mailboxes := update_where (\<lambda>r. mr_user_id r = u \<and> mr_is_default r)
     (\<lambda>r. r\<lparr>mr_is_default := False, mr_updated_at := now\<rparr>) (db_mailboxes d)\<rparr> else d)"

lemma ClearDefault_eq: "schema_ok d \<Longrightarrow> ClearDefault now u d = (Inr (), cleared now u True d)"
  by (simp add: ClearDefault_def update_mailboxes_keys keeps_mailbox_keys_def andThen_def wrap_def cleared_def)

lemma cleared_keys:
  "map mr_id (db_mailboxes (cleared now u c d)) = map mr_id (db_mailboxes d)"
  "map mr_address (db_mailboxes (cleared now u c d)) = map mr_address (db_mailboxes d)"
  "map mr_user_id (db_mailboxes (cleared now u c d)) = map mr_user_id (db_mailboxes d)"
  by (simp_all add: cleared_def map_update_where)

lemma schema_ok_cleared: "schema_ok d \<Longrightarrow> schema_ok (cleared now u c d)"
  by (simp add: cleared_def schema_ok_update_mailboxes keeps_mailbox_keys_def)

lemma ExistsByAddress_cleared:
  "ExistsByAddress a (cleared now u c d) = (fst (ExistsByAddress a d), cleared now u c d)"
proof -
  have "list_ex (\<lambda>r. EqualFold (mr_address r) (ToLower a)) rs = list_ex (\<lambda>x. EqualFold x (ToLower a)) (map mr_address rs)"
    for rs :: "mailboxRow list"
    by (induction rs) auto
  then show ?thesis by (simp only: ExistsByAddress_def query_apply cleared_keys fst_conv)
qed

lemma toMailbox_row_of_mailbox:
  assumes "ToLower (mb_Address m) = mb_Address m"
  shows "toMailbox (row_of_mailbox m) = m"
  using assms by (simp add: toMailbox_def row_of_mailbox_def)

lemma schema_ok_new_mailbox:
  assumes "schema_ok d" and "mr_id r \<notin> mr_id ` set (db_mailboxes d)" and "mr_user_id r \<in> ur_id ` set (db_users d)"
    and "\<And>b. b \<in> set (db_mailboxes d) \<Longrightarrow> ToLower (mr_address b) \<noteq> ToLower (mr_address r)"
  shows "schema_ok (d\<lparr>db_mailboxes := db_mailboxes d @ [r]\<rparr>)"
proof -
  have "ToLower (mr_address r) \<notin> (\<lambda>b. ToLower (mr_address b)) ` set (db_mailboxes d)"
  proof
    assume "ToLower (mr_address r) \<in> (\<lambda>b. ToLower (mr_address b)) ` set (db_mailboxes d)"
    then obtain b where "b \<in> set (db_mailboxes d)" "ToLower (mr_address b) = ToLower (mr_address r)" by auto
    then show False using assms(4) by simp
  qed
  then show ?thesis
    using assms(1-3) by (auto simp: schema_defs list_all_iff)
qed

text \<open>The input passes validation, its address is free, and the new ID and the owner are fine.\<close>

definition creatable :: "ID \<Rightarrow> CreateMailboxInput \<Rightarrow> db \<Rightarrow> bool" where
  "creatable gen inp d \<longleftrightarrow> schema_ok d \<and> MailboxCreateInput_Validate (create_input inp) = [] \<and>
     list_all (\<lambda>b. \<not> EqualFold (mr_address b) (mci_Address (create_input inp))) (db_mailboxes d) \<and>
     list_all (\<lambda>b. mr_id b \<noteq> gen) (db_mailboxes d) \<and> gen \<noteq> [] \<and>
     cmi_UserID inp \<in> ur_id ` set (db_users d) \<and> cmi_UserID inp \<noteq> []"

definition with_mailbox :: "instant \<Rightarrow> Mailbox \<Rightarrow> db \<Rightarrow> db" where
  "with_mailbox now m d =
     (let d = cleared now (mb_UserID m) (mb_IsDefault m) d
      in d\<lparr>db_mailboxes := db_mailboxes d @ [row_of_mailbox m]\<rparr>)"

lemma TrimSpace_lower: "ToLower s = s \<Longrightarrow> ToLower (TrimSpace s) = TrimSpace s"
proof -
  have fixed: "ToLower t = t \<longleftrightarrow> (\<forall>c \<in> set t. lower_char c = c)" for t
    by (induction t) (auto simp: ToLower_def)
  have "set (TrimSpace s) \<subseteq> set s"
    unfolding TrimSpace_def set_rev using set_dropWhileD by (metis set_rev subsetI)
  then show "ToLower s = s \<Longrightarrow> ToLower (TrimSpace s) = TrimSpace s"
    by (auto simp: fixed)
qed

lemma create_address_lower: "ToLower (mci_Address (create_input inp)) = mci_Address (create_input inp)"
  by (simp add: create_input_def MailboxCreateInput_Normalize_def TrimSpace_lower)

lemma new_mailbox_fields [simp]:
  "mb_ID (new_mailbox now gen u di) = gen" "mb_UserID (new_mailbox now gen u di) = u"
  "mb_Address (new_mailbox now gen u di) = mci_Address di" "mb_IsDefault (new_mailbox now gen u di) = mci_IsDefault di"
  "mb_UIDNext (new_mailbox now gen u di) = 1"
  by (simp_all add: new_mailbox_def NewMailbox_def)

lemma row_of_mailbox_fields [simp]:
  "mr_id (row_of_mailbox m) = mb_ID m" "mr_user_id (row_of_mailbox m) = mb_UserID m"
  "mr_address (row_of_mailbox m) = ToLower (mb_Address m)" "mr_is_default (row_of_mailbox m) = mb_IsDefault m"
  "mr_uid_next (row_of_mailbox m) = uint (mb_UIDNext m)"
  by (simp_all add: row_of_mailbox_def)

lemma mbx_Create_eq:
  assumes "schema_ok d" and "mb_UIDNext m \<noteq> 0" and "mb_UserID m \<in> ur_id ` set (db_users d)"
    and "mb_ID m \<notin> mr_id ` set (db_mailboxes d)"
    and "\<And>b. b \<in> set (db_mailboxes d) \<Longrightarrow> \<not> EqualFold (mr_address b) (mb_Address m)"
  shows "mbx_Create m d = (Inr m, d\<lparr>db_mailboxes := db_mailboxes d @ [row_of_mailbox m]\<rparr>)"
proof -
  have "schema_ok (d\<lparr>db_mailboxes := db_mailboxes d @ [row_of_mailbox m]\<rparr>)"
    using assms by (intro schema_ok_new_mailbox) (auto simp: EqualFold_def)
  moreover have "\<not> list_ex (\<lambda>r. EqualFold (mr_address r) (ToLower (mb_Address m))) (db_mailboxes d)"
    using assms(5) by (auto simp: list_ex_iff EqualFold_def)
  ultimately show ?thesis
    using assms(2) by (simp add: mbx_Create_def ExistsByAddress_def insert_mailbox_def stmt_def andThen_def wrap_def)
qed

lemma cleared_facts:
  "db_users (cleared now u c d) = db_users d"
  "b \<in> set (db_mailboxes (cleared now u c d)) \<Longrightarrow>
     \<exists>b' \<in> set (db_mailboxes d). mr_id b = mr_id b' \<and> mr_address b = mr_address b' \<and>
       (c \<longrightarrow> mr_user_id b = u \<longrightarrow> \<not> mr_is_default b)"
  by (auto simp: cleared_def set_update_where split: if_splits)

lemma CreateMailbox_eq:
  fixes now :: instant
  assumes "creatable gen inp d"
  defines "m \<equiv> new_mailbox now gen (cmi_UserID inp) (create_input inp)"
  shows "CreateMailbox gen now (Some inp) d = (Inr m, with_mailbox now m d)"
proof -
  let ?c = "cleared now (cmi_UserID inp) (mb_IsDefault m) d"
  have ok: "schema_ok d" using assms(1) by (simp add: creatable_def)
  have user: "mb_UserID m = cmi_UserID inp" by (simp add: m_def)
  have cleared_False: "cleared now u False d = d" for u by (simp add: cleared_def)
  have "mbx_Create m ?c = (Inr m, ?c\<lparr>db_mailboxes := db_mailboxes ?c @ [row_of_mailbox m]\<rparr>)"
  proof (rule mbx_Create_eq)
    show "schema_ok ?c" using ok by (rule schema_ok_cleared)
    show "mb_UserID m \<in> ur_id ` set (db_users ?c)" using assms(1) by (simp add: creatable_def m_def cleared_facts)
    show "mb_ID m \<notin> mr_id ` set (db_mailboxes ?c)"
      using assms(1) by (auto simp: creatable_def list_all_iff m_def dest!: cleared_facts(2))
    show "\<not> EqualFold (mr_address b) (mb_Address m)" if "b \<in> set (db_mailboxes ?c)" for b
      using assms(1) cleared_facts(2) [OF that] by (auto simp: creatable_def list_all_iff m_def)
  qed (simp add: m_def)
  then have "(if mb_IsDefault m then Transaction False (andThen (ClearDefault now (cmi_UserID inp)) (\<lambda>_. mbx_Create m))
      else mbx_Create m) d = (Inr m, with_mailbox now m d)"
    by (cases "mb_IsDefault m")
      (simp_all add: andThen_def ClearDefault_eq [OF ok] Transaction_def with_mailbox_def Let_def user cleared_False)
  moreover have "\<not> list_ex (\<lambda>r. EqualFold (mr_address r) (ToLower (mci_Address (create_input inp)))) (db_mailboxes d)"
    using assms(1) by (auto simp: creatable_def list_ex_iff list_all_iff EqualFold_def)
  ultimately show ?thesis
    using assms(1)
    by (simp add: CreateMailbox_def creatable_def mbs_require_def ID_IsEmpty_def ExistsByAddress_def mbs_wrap_def
        wrap_def andThen_def Let_def flip: m_def)
qed


text \<open>
  A mailbox that was created receives its mail. For a valid input with an unused address, \<^verbatim>\<open>CreateMailbox\<close>
  succeeds, and from then on the mailbox matches every recipient address that equals its address up to
  case, its owner can read it back as it was returned, and it is the owner's default when it was asked to be.
\<close>

theorem created_mailbox_receives:
  assumes "creatable gen inp d" and "EqualFold a (TrimSpace (ToLower (cmi_Address inp)))"
  shows "\<exists>m d'. CreateMailbox gen now (Some inp) d = (Inr m, d') \<and>
    FindMatchingMailbox a d' = (Inr m, d') \<and> GetMailbox gen (cmi_UserID inp) d' = (Inr m, d') \<and>
    (cmi_IsDefault inp \<longrightarrow> GetDefault (cmi_UserID inp) d' = (Inr m, d'))"
proof -
  define m where "m = new_mailbox now gen (cmi_UserID inp) (create_input inp)"
  let ?c = "cleared now (cmi_UserID inp) (mb_IsDefault m) d"
  let ?d = "with_mailbox now m d"
  have boxes: "db_mailboxes ?d = db_mailboxes ?c @ [row_of_mailbox m]"
    by (simp add: with_mailbox_def Let_def m_def)
  have addr: "mb_Address m = TrimSpace (ToLower (cmi_Address inp))" "ToLower (mb_Address m) = mb_Address m"
    using create_address_lower [of inp] by (simp_all add: m_def create_input_def MailboxCreateInput_Normalize_def)
  have restored: "toMailbox (row_of_mailbox m) = m" "scan_uint32 (mr_uid_next (row_of_mailbox m))"
    using addr(2) by (simp_all add: toMailbox_row_of_mailbox m_def scan_uint32_def)
  have get: "get_mailbox P msg e ?d = (Inr m, ?d)"
    if "P (row_of_mailbox m)" and "\<And>b. b \<in> set (db_mailboxes ?c) \<Longrightarrow> \<not> P b" for P msg e
    using find_last [of "db_mailboxes ?c" P "row_of_mailbox m"] that restored by (simp add: get_mailbox_def boxes)
  have old: "mr_id b \<noteq> gen" "\<not> EqualFold (mr_address b) (mb_Address m)"
    "mb_IsDefault m \<longrightarrow> mr_user_id b = cmi_UserID inp \<longrightarrow> \<not> mr_is_default b"
    if "b \<in> set (db_mailboxes ?c)" for b
    using assms(1) cleared_facts(2) [OF that] by (auto simp: creatable_def list_all_iff m_def)
  have "GetByAddress a ?d = (Inr m, ?d)"
    unfolding GetByAddress_def using assms(2) old(2) addr
    by (intro get) (auto simp: EqualFold_def)
  then have find: "FindMatchingMailbox a ?d = (Inr m, ?d)"
    by (simp add: FindMatchingMailbox_def orNotFound_def)
  have "mbx_GetByID gen ?d = (Inr m, ?d)"
    unfolding mbx_GetByID_def using old(1) by (intro get) (auto simp: m_def)
  then have own: "GetMailbox gen (cmi_UserID inp) ?d = (Inr m, ?d)"
    using assms(1)
    by (simp add: GetMailbox_def mbs_require_def mbs_owned_def mbs_wrap_def wrap_def andThen_def creatable_def
        ID_IsEmpty_def) (simp add: m_def)
  have dflt: "GetDefault (cmi_UserID inp) ?d = (Inr m, ?d)" if "cmi_IsDefault inp"
    unfolding GetDefault_def using old(3) that
    by (intro get) (auto simp: m_def create_input_def MailboxCreateInput_Normalize_def)
  have "CreateMailbox gen now (Some inp) d = (Inr m, ?d)"
    using CreateMailbox_eq [OF assms(1), of now] by (simp add: m_def)
  with find own dflt show ?thesis by blast
qed


theorem created_mailbox_receives_witness:
  "creatable ''m2'' (box_input '' Home '' '' Home@x'' True) work_box_db \<and> EqualFold ''HOME@x'' (TrimSpace (ToLower '' Home@x'')) \<and>
   (\<exists>m d'. CreateMailbox ''m2'' 5 (Some (box_input '' Home '' '' Home@x'' True)) work_box_db = (Inr m, d') \<and>
     FindMatchingMailbox ''HOME@x'' d' = (Inr m, d') \<and> GetDefault ''u1'' d' = (Inr m, d'))"
proof -
  have ok: "creatable ''m2'' (box_input '' Home '' '' Home@x'' True) work_box_db" by code_simp
  have addr: "EqualFold ''HOME@x'' (TrimSpace (ToLower '' Home@x''))" by code_simp
  have "cmi_Address (box_input '' Home '' '' Home@x'' True) = '' Home@x''"
    "cmi_IsDefault (box_input '' Home '' '' Home@x'' True)" "cmi_UserID (box_input '' Home '' '' Home@x'' True) = ''u1''"
    by (simp_all add: box_input_def)
  with created_mailbox_receives [OF ok, of "''HOME@x''" 5] ok addr show ?thesis by auto
qed

section \<open>Updates race with deliveries\<close>

lemma mbx_Update_counters:
  assumes "schema_ok d" and "b \<in> set (db_mailboxes d)" and "mb_ID m = mr_id b" and "mb_UserID m = mr_user_id b"
    and "ToLower (mb_Address m) = mr_address b"
  shows "\<exists>d' c. mbx_Update now m d = (Inr (), d') \<and> db_messages d' = db_messages d \<and> c \<in> set (db_mailboxes d') \<and>
    mr_id c = mr_id b \<and> mr_message_count c = mb_MessageCount m \<and> mr_name c = mb_Name m \<and>
    mr_user_id c = mr_user_id b \<and> mr_uid_next c = mr_uid_next b \<and> schema_ok d'"
proof -
  let ?f = "\<lambda>r. r\<lparr>mr_user_id := mb_UserID m, mr_name := mb_Name m, mr_address := ToLower (mb_Address m),
           mr_description := NullString (mb_Description m), mr_is_catch_all := mb_IsCatchAll m,
           mr_is_default := mb_IsDefault m, mr_message_count := mb_MessageCount m,
           mr_unread_count := mb_UnreadCount m, mr_total_size := mb_TotalSize m,
           mr_retention_days := mb_RetentionDays m, mr_updated_at := now\<rparr>"
  let ?d = "d\<lparr>db_mailboxes := update_where (\<lambda>r. mr_id r = mb_ID m) ?f (db_mailboxes d)\<rparr>"
  have only: "r = b" if "r \<in> set (db_mailboxes d)" "mr_id r = mb_ID m" for r
    using assms(1-3) that find_mailbox_iff [of d "mr_id b"] by (metis option.inject)
  have same: "map k (update_where (\<lambda>r. mr_id r = mb_ID m) ?f (db_mailboxes d)) = map k (db_mailboxes d)"
    if "k (?f b) = k b" for k :: "mailboxRow \<Rightarrow> string"
    using that by (auto simp: update_where_def dest: only)
  have ok: "schema_ok ?d"
    using assms(1,4,5) schema_ok_mailboxes [OF same [of mr_id] same [of mr_address] same [of mr_user_id]] by simp
  then have "mbx_Update now m d = (Inr (), ?d)"
    using assms(2,3)
    by (auto simp: mbx_Update_def mbx_Exists_def list_ex_iff update_mailboxes_def stmt_def andThen_def wrap_def)
  moreover have "?f b \<in> set (db_mailboxes ?d)"
    using imageI [OF assms(2), of "\<lambda>r. if mr_id r = mb_ID m then ?f r else r"] assms(3) by (simp add: set_update_where)
  ultimately show ?thesis using assms(3,4) ok by (intro exI [of _ ?d] exI [of _ "?f b"]) simp
qed

lemma mbs_owned_eq:
  assumes "schema_ok d" and "b \<in> set (db_mailboxes d)" and "scan_uint32 (mr_uid_next b)"
  shows "mbs_owned op (mr_id b) (mr_user_id b) d = (Inr (toMailbox b), d)"
  using assms find_mailbox_iff [OF assms(1), of "mr_id b" b]
  by (simp add: mbs_owned_def mbs_wrap_def wrap_def mbx_GetByID_def get_mailbox_def andThen_def)

text \<open>
  Renaming a mailbox while a message is delivered loses the delivery's count. \<^verbatim>\<open>UpdateMailbox\<close> reads the
  mailbox and later writes all of its columns back. If a message is created in the mailbox between the two,
  the write succeeds and leaves a message counter that is not the number of stored messages.
\<close>

theorem update_loses_delivery:
  assumes "store_ok d" and "b \<in> set (db_mailboxes d)" and "scan_uint32 (mr_uid_next b)"
    and "ToLower (mr_address b) = mr_address b"
    and "umi_MailboxID inp = mr_id b" and "umi_UserID inp = mr_user_id b" and "umi_IsDefault inp \<noteq> Some True"
    and "msg_MailboxID m = mr_id b" and "msg_IMAPUID m = 0" and "msg_ID m \<notin> r_id ` set (db_messages d)"
  shows "\<exists>old m' d1 new d2. update_read inp d = (Inr old, d) \<and> Create now m d = (Inr m', d1) \<and>
    update_write now inp old d1 = (Inr new, d2) \<and> \<not> stats_ok d2"
proof -
  have ok: "schema_ok d" "uids_ok d" "stats_ok d" using assms(1) by (simp_all add: store_ok_def)
  let ?m = "m\<lparr>msg_IMAPUID := word_of_int (mr_uid_next b)\<rparr>"
  let ?d1 = "created_db now ?m d"
  let ?new = "MailboxUpdateInput_Apply now (update_input inp) (toMailbox b)"
  note created = Create_ok [OF ok(1,2) assms(2) assms(8) [symmetric] assms(3) assms(9,10), of now]
  have row: "bump_row now (msg_Size m) (msg_Status m = MessageUnread) b \<in> set (db_mailboxes ?d1)"
    using imageI [OF assms(2), of "\<lambda>r. if mr_id r = mr_id b then bump_row now (msg_Size m) (msg_Status m = MessageUnread) r else r"]
    by (simp add: created_db_def set_update_where assms(8))
  obtain d2 c where upd: "mbx_Update now ?new ?d1 = (Inr (), d2)" "db_messages d2 = db_messages ?d1"
    "c \<in> set (db_mailboxes d2)" "mr_id c = mr_id b" "mr_message_count c = mr_message_count b"
    using mbx_Update_counters [OF created(2) row, of ?new now] assms(4) by (auto simp: bump_row_def)
  have "mr_message_count b = count_where (in_mailbox (mr_id b)) (db_messages d)"
    using ok(3) assms(2) by (simp add: stats_ok_def list_all_iff stats_row_def)
  then have "\<not> stats_row (db_messages d2) c"
    using upd(2,4,5) assms(8) by (simp add: stats_row_def created_db_def in_mailbox_def row_of_message_def)
  then have "\<not> stats_ok d2" using upd(3) by (auto simp: stats_ok_def list_all_iff)
  moreover have "update_read inp d = (Inr (toMailbox b), d)"
    unfolding update_read_def assms(5,6) by (rule mbs_owned_eq [OF ok(1) assms(2,3)])
  moreover have "update_write now inp (toMailbox b) ?d1 = (Inr ?new, d2)"
    using upd(1) assms(7) by (simp add: update_write_def mbs_wrap_def wrap_def andThen_def Let_def)
  ultimately show ?thesis using created(1) by blast
qed

definition rename_input :: "ID \<Rightarrow> string \<Rightarrow> UpdateMailboxInput" where
  "rename_input i name =
     \<lparr>umi_MailboxID = i, umi_UserID = ''u1'', umi_Name = Some name, umi_Description = None,
      umi_IsDefault = None, umi_RetentionDays = None\<rparr>"

theorem update_loses_delivery_witness:
  "\<exists>old m' d1 new d2. update_read (rename_input ''a'' ''Work'') sample_db = (Inr old, sample_db) \<and>
    Create 5 (sample_message ''m1'' ''a'') sample_db = (Inr m', d1) \<and>
    update_write 5 (rename_input ''a'' ''Work'') old d1 = (Inr new, d2) \<and> \<not> stats_ok d2"
proof -
  have facts: "sample_mailbox ''a'' ''a@x'' \<in> set (db_mailboxes sample_db)"
    "scan_uint32 (mr_uid_next (sample_mailbox ''a'' ''a@x''))"
    "ToLower (mr_address (sample_mailbox ''a'' ''a@x'')) = mr_address (sample_mailbox ''a'' ''a@x'')"
    "umi_MailboxID (rename_input ''a'' ''Work'') = mr_id (sample_mailbox ''a'' ''a@x'')"
    "umi_UserID (rename_input ''a'' ''Work'') = mr_user_id (sample_mailbox ''a'' ''a@x'')"
    "umi_IsDefault (rename_input ''a'' ''Work'') \<noteq> Some True"
    "msg_MailboxID (sample_message ''m1'' ''a'') = mr_id (sample_mailbox ''a'' ''a@x'')"
    "msg_IMAPUID (sample_message ''m1'' ''a'') = 0"
    "msg_ID (sample_message ''m1'' ''a'') \<notin> r_id ` set (db_messages sample_db)"
    by code_simp+
  show ?thesis by (rule update_loses_delivery [OF sample_db_ok facts])
qed

section \<open>System mailboxes\<close>

lemma DeleteMailbox_eq:
  assumes "schema_ok d" and "b \<in> set (db_mailboxes d)" and "scan_uint32 (mr_uid_next b)"
    and "mr_id b \<noteq> []" and "mr_user_id b \<noteq> []"
  shows "DeleteMailbox (mr_id b) (mr_user_id b) d =
    (if isSystemMailbox (mr_name b)
     then mbs_fail ''delete'' ''cannot delete system mailbox''
            (ConflictError ''mailbox'' ''system mailboxes cannot be deleted'')
     else mbs_wrap ''delete'' ''failed to delete mailbox'' (DeleteWithMessages (mr_id b))) d"
  using assms(4,5) mbs_owned_eq [OF assms(1-3)]
  by (simp add: DeleteMailbox_def mbs_require_def ID_IsEmpty_def andThen_def)

lemma DeleteWithMessages_ok:
  assumes "schema_ok d" and "b \<in> set (db_mailboxes d)"
  shows "\<exists>d'. DeleteWithMessages (mr_id b) d = (Inr (), d') \<and>
    list_all (\<lambda>c. mr_id c \<noteq> mr_id b) (db_mailboxes d') \<and> list_all (\<lambda>x. r_mailbox_id x \<noteq> mr_id b) (db_messages d')"
proof -
  let ?d = "cascade_messages (d\<lparr>db_mailboxes := filter (\<lambda>r. mr_id r \<noteq> mr_id b) (db_mailboxes d)\<rparr>)"
  have "schema_ok ?d"
    using assms(1)
    by (auto simp: schema_defs cascade_messages_def cascade_children_def list_all_iff distinct_map_filter)
  then have "delete_mailboxes (\<lambda>r. mr_id r = mr_id b) d = (Inr (count_where (\<lambda>r. mr_id r = mr_id b) (db_mailboxes d)), ?d)"
    by (simp add: delete_mailboxes_def stmt_def)
  moreover have "count_where (\<lambda>r. mr_id r = mr_id b) (db_mailboxes d) > 0"
    using count_where_pos [OF assms(2), of "\<lambda>r. mr_id r = mr_id b"] by simp
  ultimately have "DeleteWithMessages (mr_id b) d = (Inr (), ?d)"
    by (simp add: DeleteWithMessages_def mbx_Delete_def expect_rows_def andThen_def wrap_def)
  then show ?thesis
    by (auto simp: cascade_messages_def cascade_children_def list_all_iff)
qed

text \<open>
  A system mailbox cannot be deleted, but the check only looks at its present name. \<^verbatim>\<open>DeleteMailbox\<close> on a
  mailbox with a reserved name fails with a conflict and changes nothing; yet its owner can give it any
  unreserved name first, and then the same call removes the mailbox with all of its messages.
\<close>

theorem system_mailbox_protection:
  assumes "schema_ok d" and "b \<in> set (db_mailboxes d)" and "scan_uint32 (mr_uid_next b)"
    and "ToLower (mr_address b) = mr_address b" and "mr_id b \<noteq> []" and "mr_user_id b \<noteq> []"
    and "isSystemMailbox (mr_name b)"
    and "TrimSpace name \<noteq> []" and "length (TrimSpace name) \<le> 100" and "\<not> isSystemMailbox (TrimSpace name)"
  shows "(\<exists>e. DeleteMailbox (mr_id b) (mr_user_id b) d = (Inl e, d) \<and> IsConflict e) \<and>
    (\<exists>r d1 d2. UpdateMailbox now (Some \<lparr>umi_MailboxID = mr_id b, umi_UserID = mr_user_id b, umi_Name = Some name,
         umi_Description = None, umi_IsDefault = None, umi_RetentionDays = None\<rparr>) d = (Inr r, d1) \<and>
       DeleteMailbox (mr_id b) (mr_user_id b) d1 = (Inr (), d2) \<and>
       list_all (\<lambda>c. mr_id c \<noteq> mr_id b) (db_mailboxes d2) \<and> list_all (\<lambda>x. r_mailbox_id x \<noteq> mr_id b) (db_messages d2))"
proof
  show "\<exists>e. DeleteMailbox (mr_id b) (mr_user_id b) d = (Inl e, d) \<and> IsConflict e"
    using DeleteMailbox_eq [OF assms(1-3,5,6)] assms(7) by (simp add: mbs_fail_def IsConflict_def)
  let ?inp = "\<lparr>umi_MailboxID = mr_id b, umi_UserID = mr_user_id b, umi_Name = Some name,
    umi_Description = None, umi_IsDefault = None, umi_RetentionDays = None\<rparr>"
  let ?new = "MailboxUpdateInput_Apply now (update_input ?inp) (toMailbox b)"
  have name: "mb_Name ?new = TrimSpace name"
    by (simp add: MailboxUpdateInput_Apply_def update_input_def Let_def)
  have "MailboxUpdateInput_Validate (update_input ?inp) = []"
    using assms(8,9) by (simp add: MailboxUpdateInput_Validate_def update_input_def)
  moreover obtain d1 c where upd: "mbx_Update now ?new d = (Inr (), d1)" and c: "c \<in> set (db_mailboxes d1)"
    "mr_id c = mr_id b" "mr_name c = TrimSpace name" "mr_user_id c = mr_user_id b" "mr_uid_next c = mr_uid_next b"
    "schema_ok d1"
    using mbx_Update_counters [OF assms(1,2), of ?new now] assms(4) name by auto
  ultimately have "UpdateMailbox now (Some ?inp) d = (Inr ?new, d1)"
    using assms(5,6) mbs_owned_eq [OF assms(1-3), of "''update''"]
    by (simp add: UpdateMailbox_def mbs_require_def ID_IsEmpty_def update_read_def update_write_def mbs_wrap_def
        wrap_def andThen_def Let_def)
  moreover obtain d2 where "DeleteWithMessages (mr_id c) d1 = (Inr (), d2)"
    "list_all (\<lambda>x. mr_id x \<noteq> mr_id c) (db_mailboxes d2)" "list_all (\<lambda>x. r_mailbox_id x \<noteq> mr_id c) (db_messages d2)"
    using DeleteWithMessages_ok [OF c(6,1)] by blast
  moreover have "DeleteMailbox (mr_id c) (mr_user_id c) d1 =
      mbs_wrap ''delete'' ''failed to delete mailbox'' (DeleteWithMessages (mr_id c)) d1"
    using DeleteMailbox_eq [OF c(6,1)] assms(3,5,6,10) c by simp
  ultimately show "\<exists>r d1 d2. UpdateMailbox now (Some ?inp) d = (Inr r, d1) \<and>
       DeleteMailbox (mr_id b) (mr_user_id b) d1 = (Inr (), d2) \<and>
       list_all (\<lambda>c. mr_id c \<noteq> mr_id b) (db_mailboxes d2) \<and> list_all (\<lambda>x. r_mailbox_id x \<noteq> mr_id b) (db_messages d2)"
    using c(2,4) by (auto simp: mbs_wrap_def)
qed

definition inbox_row :: mailboxRow where
  "inbox_row = (sample_mailbox ''i'' ''i@x'')\<lparr>mr_name := ''Inbox''\<rparr>"

definition inbox_db :: db where
  "inbox_db = sample_db\<lparr>db_mailboxes := [inbox_row]\<rparr>"

theorem system_mailbox_protection_witness:
  "\<exists>e. DeleteMailbox (mr_id inbox_row) (mr_user_id inbox_row) inbox_db = (Inl e, inbox_db) \<and> IsConflict e"
proof -
  have facts: "schema_ok inbox_db" "inbox_row \<in> set (db_mailboxes inbox_db)" "scan_uint32 (mr_uid_next inbox_row)"
    "ToLower (mr_address inbox_row) = mr_address inbox_row" "mr_id inbox_row \<noteq> []" "mr_user_id inbox_row \<noteq> []"
    "isSystemMailbox (mr_name inbox_row)" "TrimSpace ''Old'' \<noteq> []" "length (TrimSpace ''Old'') \<le> 100"
    "\<not> isSystemMailbox (TrimSpace ''Old'')"
    by code_simp+
  show ?thesis using system_mailbox_protection [OF facts, of 7] by blast
qed

end
