(* ===== verification/Smtp_Ratelimit.thy ===== *)
theory Smtp_Ratelimit
  imports Yunt_Prelude "HOL-Library.AList"
begin

text \<open>
  The rate limiter of \<^verbatim>\<open>internal/smtp/ratelimit.go\<close>: counters in fixed windows per client address and per
  user, counters of open connections, and the backoff of repeated violators.

  A Go map is an association list read with \<open>map_of\<close>, so that its length can be taken. Every method holds
  the mutex for its whole body and is one atomic function; \<open>now\<close> is the clock it reads, in nanoseconds.
  Logging is left out. The goroutine that calls \<^verbatim>\<open>cleanup\<close> is the environment that decides when it runs.
\<close>

section \<open>Data\<close>

record RateLimitConfig =
  rc_Enabled :: bool
  rc_MessagesPerHour :: int
  rc_ConnectionsPerMinute :: int
  rc_MaxConcurrentConnections :: int
  rc_MaxGlobalConnections :: int
  rc_RecipientsPerMessage :: int
  rc_MessagesPerConnection :: int
  rc_UserMessagesPerHour :: int
  rc_AuthFailuresPerMinute :: int
  rc_CleanupInterval :: duration

definition DefaultRateLimitConfig :: RateLimitConfig where
  "DefaultRateLimitConfig =
     \<lparr>rc_Enabled = True, rc_MessagesPerHour = 100, rc_ConnectionsPerMinute = 20,
      rc_MaxConcurrentConnections = 10, rc_MaxGlobalConnections = 1000, rc_RecipientsPerMessage = 100,
      rc_MessagesPerConnection = 50, rc_UserMessagesPerHour = 50, rc_AuthFailuresPerMinute = 5,
      rc_CleanupInterval = 5 * Minute\<rparr>"

record rateLimitEntry =
  rle_count :: int
  rle_windowEnd :: instant

type_synonym 'a gomap = "(string \<times> 'a) list"

record RateLimiter =
  rl_config :: RateLimitConfig
  rl_messageCount :: "rateLimitEntry gomap"
  rl_connectionRate :: "rateLimitEntry gomap"
  rl_concurrentConnections :: "int gomap"
  rl_globalConnections :: int
  rl_messagesPerConnection :: "int gomap"
  rl_userMessageCount :: "rateLimitEntry gomap"
  rl_authFailures :: "rateLimitEntry gomap"
  rl_violations :: "rateLimitEntry gomap"

record SMTPError =
  se_Code :: int
  se_EnhancedCode :: "int \<times> int \<times> int"
  se_Message :: string

definition smtp_error :: "int \<Rightarrow> int \<times> int \<times> int \<Rightarrow> string \<Rightarrow> SMTPError" where
  "smtp_error c ec msg = \<lparr>se_Code = c, se_EnhancedCode = ec, se_Message = msg\<rparr>"

text \<open>The verb \<^verbatim>\<open>%d\<close> of \<^verbatim>\<open>fmt\<close>.\<close>

fun fmt_nat :: "nat \<Rightarrow> string" where
  "fmt_nat n = (if n < 10 then [char_of (48 + n)] else fmt_nat (n div 10) @ [char_of (48 + n mod 10)])"

declare fmt_nat.simps [simp del]

definition fmt_int :: "int \<Rightarrow> string" where
  "fmt_int n = (if n < 0 then CHR ''-'' # fmt_nat (nat (- n)) else fmt_nat (nat n))"

definition NewRateLimiter :: "RateLimitConfig option \<Rightarrow> RateLimiter" where
  "NewRateLimiter config =
     \<lparr>rl_config = (case config of None \<Rightarrow> DefaultRateLimitConfig | Some c \<Rightarrow> c),
      rl_messageCount = [], rl_connectionRate = [], rl_concurrentConnections = [],
      rl_globalConnections = 0, rl_messagesPerConnection = [], rl_userMessageCount = [],
      rl_authFailures = [], rl_violations = []\<rparr>"

text \<open>Reading a missing key of a \<^verbatim>\<open>map[string]int\<close> gives zero.\<close>

definition at0 :: "int gomap \<Rightarrow> string \<Rightarrow> int" where
  "at0 m k = (case map_of m k of None \<Rightarrow> 0 | Some n \<Rightarrow> n)"

definition expired :: "instant \<Rightarrow> rateLimitEntry \<Rightarrow> bool" where
  "expired now e \<longleftrightarrow> now > rle_windowEnd e"

text \<open>The counting step all windows share: a new window of the given length, or one more in the old one.\<close>

definition count_in_window :: "instant \<Rightarrow> duration \<Rightarrow> string \<Rightarrow> rateLimitEntry gomap \<Rightarrow> rateLimitEntry gomap" where
  "count_in_window now len k m =
     AList.update k
       (case map_of m k of
          None \<Rightarrow> \<lparr>rle_count = 1, rle_windowEnd = now + len\<rparr>
        | Some e \<Rightarrow> if expired now e then \<lparr>rle_count = 1, rle_windowEnd = now + len\<rparr>
                    else e\<lparr>rle_count := rle_count e + 1\<rparr>) m"

text \<open>The count of the current window; zero when there is none.\<close>

definition window_count :: "instant \<Rightarrow> string \<Rightarrow> rateLimitEntry gomap \<Rightarrow> int" where
  "window_count now k m =
     (case map_of m k of None \<Rightarrow> 0 | Some e \<Rightarrow> if expired now e then 0 else rle_count e)"

definition drop_expired :: "instant \<Rightarrow> rateLimitEntry gomap \<Rightarrow> rateLimitEntry gomap" where
  "drop_expired now m = filter (\<lambda>(k, e). \<not> expired now e) m"

definition cleanup :: "instant \<Rightarrow> RateLimiter \<Rightarrow> RateLimiter" where
  "cleanup now rl = rl\<lparr>rl_messageCount := drop_expired now (rl_messageCount rl),
     rl_connectionRate := drop_expired now (rl_connectionRate rl),
     rl_violations := drop_expired now (rl_violations rl)\<rparr>"

section \<open>Client addresses\<close>

text \<open>\<^verbatim>\<open>net.SplitHostPort\<close>: the host, or \<open>None\<close> for an address it rejects.\<close>

definition SplitHostPort :: "string \<Rightarrow> string option" where
  "SplitHostPort s =
     (if CHR '':'' \<notin> set s then None
      else let port = after_last s CHR '':'';
               host = take (length s - length port - 1) s in
      if hd s = CHR ''['' then
        (let inner = takeWhile (\<lambda>c. c \<noteq> CHR '']'') (tl s) in
         if host = CHR ''['' # inner @ '']'' \<and> CHR ''['' \<notin> set inner \<and>
            CHR ''['' \<notin> set port \<and> CHR '']'' \<notin> set port
         then Some inner else None)
      else if CHR '':'' \<in> set host \<or> CHR ''['' \<in> set s \<or> CHR '']'' \<in> set s then None
      else Some host)"

definition extractIP :: "string \<Rightarrow> string" where
  "extractIP remoteAddr = (case SplitHostPort remoteAddr of None \<Rightarrow> remoteAddr | Some host \<Rightarrow> host)"

section \<open>Connections\<close>

definition CheckConnection :: "instant \<Rightarrow> string \<Rightarrow> RateLimiter \<Rightarrow> SMTPError option \<times> RateLimiter" where
  "CheckConnection now remoteAddr rl =
     (let c = rl_config rl; ip = extractIP remoteAddr in
      if \<not> rc_Enabled c then (None, rl)
      else if rc_MaxGlobalConnections c > 0 \<and> rl_globalConnections rl \<ge> rc_MaxGlobalConnections c
      then (Some (smtp_error 421 (4, 7, 0) ''service temporarily unavailable, too many connections''), rl)
      else if rc_MaxConcurrentConnections c > 0 \<and>
              at0 (rl_concurrentConnections rl) ip \<ge> rc_MaxConcurrentConnections c
      then (Some (smtp_error 421 (4, 7, 0) (''too many concurrent connections from '' @ ip)), rl)
      else if rc_ConnectionsPerMinute c > 0 then
        (if window_count now ip (rl_connectionRate rl) \<ge> rc_ConnectionsPerMinute c
         then (Some (smtp_error 421 (4, 7, 0) ''connection rate limit exceeded, please try again later''), rl)
         else (None, rl\<lparr>rl_connectionRate := count_in_window now Minute ip (rl_connectionRate rl)\<rparr>))
      else (None, rl))"

definition OnConnectionOpened :: "string \<Rightarrow> RateLimiter \<Rightarrow> RateLimiter" where
  "OnConnectionOpened remoteAddr rl =
     (if \<not> rc_Enabled (rl_config rl) then rl
      else let ip = extractIP remoteAddr; m = rl_concurrentConnections rl in
           rl\<lparr>rl_globalConnections := rl_globalConnections rl + 1,
              rl_concurrentConnections := AList.update ip (at0 m ip + 1) m\<rparr>)"

definition OnConnectionClosed :: "string \<Rightarrow> RateLimiter \<Rightarrow> RateLimiter" where
  "OnConnectionClosed remoteAddr rl =
     (if \<not> rc_Enabled (rl_config rl) then rl
      else let ip = extractIP remoteAddr; m = rl_concurrentConnections rl in
           rl\<lparr>rl_globalConnections :=
                (if rl_globalConnections rl > 0 then rl_globalConnections rl - 1 else rl_globalConnections rl),
              rl_concurrentConnections :=
                (case map_of m ip of
                   None \<Rightarrow> m
                 | Some count \<Rightarrow> if count \<le> 1 then AList.delete ip m else AList.update ip (count - 1) m),
              rl_messagesPerConnection := AList.delete remoteAddr (rl_messagesPerConnection rl)\<rparr>)"

section \<open>Messages\<close>

definition CheckMessage :: "instant \<Rightarrow> string \<Rightarrow> RateLimiter \<Rightarrow> SMTPError option" where
  "CheckMessage now remoteAddr rl =
     (let c = rl_config rl; ip = extractIP remoteAddr in
      if \<not> rc_Enabled c then None
      else if rc_MessagesPerConnection c > 0 \<and>
              at0 (rl_messagesPerConnection rl) remoteAddr \<ge> rc_MessagesPerConnection c
      then Some (smtp_error 452 (4, 7, 1) ''too many messages in this connection, please reconnect'')
      else if rc_MessagesPerHour c > 0 \<and> window_count now ip (rl_messageCount rl) \<ge> rc_MessagesPerHour c
      then Some (smtp_error 452 (4, 7, 1) ''message rate limit exceeded, please try again later'')
      else None)"

definition OnMessageSent :: "instant \<Rightarrow> string \<Rightarrow> RateLimiter \<Rightarrow> RateLimiter" where
  "OnMessageSent now remoteAddr rl =
     (if \<not> rc_Enabled (rl_config rl) then rl
      else let m = rl_messagesPerConnection rl in
           rl\<lparr>rl_messagesPerConnection := AList.update remoteAddr (at0 m remoteAddr + 1) m,
              rl_messageCount := count_in_window now Hour (extractIP remoteAddr) (rl_messageCount rl)\<rparr>)"

definition CheckRecipients :: "int \<Rightarrow> RateLimiter \<Rightarrow> SMTPError option" where
  "CheckRecipients recipientCount rl =
     (let c = rl_config rl in
      if \<not> rc_Enabled c then None
      else if rc_RecipientsPerMessage c > 0 \<and> recipientCount > rc_RecipientsPerMessage c
      then Some (smtp_error 452 (4, 5, 3)
             (''too many recipients, maximum is '' @ fmt_int (rc_RecipientsPerMessage c)))
      else None)"

definition CheckUserMessage :: "instant \<Rightarrow> string \<Rightarrow> RateLimiter \<Rightarrow> SMTPError option" where
  "CheckUserMessage now username rl =
     (let c = rl_config rl in
      if \<not> rc_Enabled c \<or> rc_UserMessagesPerHour c \<le> 0 \<or> username = [] then None
      else if window_count now username (rl_userMessageCount rl) \<ge> rc_UserMessagesPerHour c
      then Some (smtp_error 452 (4, 7, 1) ''user message rate limit exceeded, please try again later'')
      else None)"

definition OnUserMessageSent :: "instant \<Rightarrow> string \<Rightarrow> RateLimiter \<Rightarrow> RateLimiter" where
  "OnUserMessageSent now username rl =
     (if \<not> rc_Enabled (rl_config rl) \<or> username = [] then rl
      else rl\<lparr>rl_userMessageCount := count_in_window now Hour username (rl_userMessageCount rl)\<rparr>)"

section \<open>Authentication failures and backoff\<close>

definition RecordAuthFailure :: "instant \<Rightarrow> string \<Rightarrow> RateLimiter \<Rightarrow> RateLimiter" where
  "RecordAuthFailure now ip rl = rl\<lparr>rl_authFailures := count_in_window now Minute ip (rl_authFailures rl)\<rparr>"

definition IsAuthBlocked :: "instant \<Rightarrow> string \<Rightarrow> RateLimiter \<Rightarrow> bool" where
  "IsAuthBlocked now ip rl \<longleftrightarrow>
     rc_AuthFailuresPerMinute (rl_config rl) > 0 \<and>
     (case map_of (rl_authFailures rl) ip of
        None \<Rightarrow> False
      | Some e \<Rightarrow> \<not> expired now e \<and> rle_count e \<ge> rc_AuthFailuresPerMinute (rl_config rl))"

definition RecordViolation :: "instant \<Rightarrow> string \<Rightarrow> RateLimiter \<Rightarrow> RateLimiter" where
  "RecordViolation now ip rl = rl\<lparr>rl_violations := count_in_window now (10 * Minute) ip (rl_violations rl)\<rparr>"

text \<open>
  \<^verbatim>\<open>time.Duration(1<<uint(entry.count-1)) * time.Second\<close> is computed in \<^verbatim>\<open>int64\<close>: the shift drops the bits
  beyond the width and the product wraps around. A negative count would shift by a huge \<^verbatim>\<open>uint\<close>, giving zero.
\<close>

definition backoff_delay :: "int \<Rightarrow> 64 word" where
  "backoff_delay count = (if count < 1 then 0 else push_bit (nat (count - 1)) 1) * 1000000000"

definition GetBackoff :: "instant \<Rightarrow> string \<Rightarrow> RateLimiter \<Rightarrow> duration" where
  "GetBackoff now ip rl =
     (case map_of (rl_violations rl) ip of
        None \<Rightarrow> 0
      | Some e \<Rightarrow> if expired now e then 0
                  else let delay = sint (backoff_delay (rle_count e)) in
                       if delay > 30 * Second then 30 * Second else delay)"

text \<open>\<^verbatim>\<open>applyBackoff\<close> records the violation; its result is how long the caller sleeps.\<close>

definition applyBackoff :: "instant \<Rightarrow> string \<Rightarrow> RateLimiter \<Rightarrow> duration \<times> RateLimiter" where
  "applyBackoff now ip rl =
     (let rl = RecordViolation now ip rl; backoff = GetBackoff now ip rl in (max 0 backoff, rl))"

record RateLimitStats =
  rs_GlobalConnections :: int
  rs_UniqueIPsWithMessages :: int
  rs_UniqueIPsConnected :: int

definition GetStats_rl :: "RateLimiter \<Rightarrow> RateLimitStats" where
  "GetStats_rl rl =
     \<lparr>rs_GlobalConnections = rl_globalConnections rl,
      rs_UniqueIPsWithMessages = int (length (rl_messageCount rl)),
      rs_UniqueIPsConnected = int (length (rl_concurrentConnections rl))\<rparr>"

section \<open>Backoff\<close>

lemma backoff_small:
  assumes "1 \<le> count" and "count \<le> 34"
  shows "sint (backoff_delay count) = 2 ^ nat (count - 1) * 1000000000"
proof -
  let ?n = "nat (count - 1)"
  have "(2::int) ^ ?n \<le> 2 ^ 33"
    using assms by (intro power_increasing) auto
  then have small: "(2::int) ^ ?n * 1000000000 < 2 ^ 63" by simp
  have "backoff_delay count = word_of_int (2 ^ ?n * 1000000000)"
    using assms by (simp add: backoff_delay_def push_bit_eq_mult)
  then have "sint (backoff_delay count) = signed_take_bit 63 (2 ^ ?n * 1000000000)"
    by (simp only: sint_sbintrunc') simp
  also have "\<dots> = 2 ^ ?n * 1000000000"
  proof (rule signed_take_bit_int_eq_self)
    have "(0::int) \<le> 2 ^ ?n * 1000000000" by simp
    then show "- (2 ^ 63) \<le> (2::int) ^ ?n * 1000000000" by (rule order_trans [rotated]) simp
  qed (rule small)
  finally show ?thesis .
qed

lemma backoff_large:
  assumes "56 \<le> count"
  shows "backoff_delay count = 0"
proof -
  obtain k where k: "nat (count - 1) = 55 + k"
  proof -
    have "55 \<le> nat (count - 1)" using assms by linarith
    then show thesis using le_Suc_ex that by blast
  qed
  have "(push_bit (nat (count - 1)) 1 :: 64 word) * 1000000000 = push_bit k 1 * (2 ^ 55 * 1000000000)"
    unfolding k by (simp only: push_bit_eq_mult power_add mult_1 ac_simps)
  also have "(2 ^ 55 * 1000000000 :: 64 word) = 0" by code_simp
  finally show ?thesis using assms by (simp add: backoff_delay_def)
qed

text \<open>
  The backoff of a client with \<open>n\<close> violations in its window is \<open>2 ^ (n - 1)\<close> seconds, capped at 30 seconds,
  as long as the computation does not wrap around, which holds up to 34 violations; no backoff ever exceeds
  30 seconds; and from the 56th violation on the product wraps to zero, so the worst offenders are not
  slowed down at all.
\<close>

theorem backoff_bounds:
  assumes "map_of (rl_violations rl) ip = Some e" and "\<not> expired now e"
  shows "GetBackoff now ip rl \<le> 30 * Second \<and>
    (1 \<le> rle_count e \<and> rle_count e \<le> 34 \<longrightarrow>
       GetBackoff now ip rl = min (2 ^ nat (rle_count e - 1) * Second) (30 * Second)) \<and>
    (56 \<le> rle_count e \<longrightarrow> GetBackoff now ip rl = 0)"
proof -
  have eq: "GetBackoff now ip rl = min (sint (backoff_delay (rle_count e))) (30 * Second)"
    using assms by (simp add: GetBackoff_def Let_def min_def)
  show ?thesis
    by (simp add: eq backoff_small backoff_large Second_def)
qed

definition persistent_offender :: RateLimiter where
  "persistent_offender = (NewRateLimiter None)\<lparr>rl_violations := [(''1.2.3.4'', \<lparr>rle_count = 60, rle_windowEnd = 100\<rparr>)]\<rparr>"

theorem backoff_bounds_witness: "GetBackoff 50 ''1.2.3.4'' persistent_offender = 0"
  using backoff_bounds [of persistent_offender "''1.2.3.4''" "\<lparr>rle_count = 60, rle_windowEnd = 100\<rparr>" 50]
  by (simp add: persistent_offender_def expired_def)

section \<open>Cleaning up is invisible\<close>

definition live :: "instant \<Rightarrow> rateLimitEntry gomap \<Rightarrow> string \<Rightarrow> rateLimitEntry option" where
  "live now m k = (case map_of m k of None \<Rightarrow> None | Some e \<Rightarrow> if expired now e then None else Some e)"

lemma live_mono: "live now m k = live now m' k \<Longrightarrow> now \<le> later \<Longrightarrow> live later m k = live later m' k"
  by (auto simp: live_def expired_def split: option.splits if_splits)

lemma window_count_live: "window_count now k m = (case live now m k of None \<Rightarrow> 0 | Some e \<Rightarrow> rle_count e)"
  by (simp add: window_count_def live_def split: option.splits)

lemma live_count_in_window:
  "live now (count_in_window now len k m) j =
     (if j = k then live now [(k, case live now m k of None \<Rightarrow> \<lparr>rle_count = 1, rle_windowEnd = now + len\<rparr>
                                 | Some e \<Rightarrow> e\<lparr>rle_count := rle_count e + 1\<rparr>)] k
      else live now m j)"
  by (auto simp: live_def count_in_window_def update_conv' split: option.splits)

lemma map_of_filter_distinct:
  assumes "distinct (map fst m)"
  shows "map_of (filter P m) k = (case map_of m k of None \<Rightarrow> None | Some e \<Rightarrow> if P (k, e) then Some e else None)"
  using assms
proof (induction m)
  case (Cons a m)
  then show ?case
    by (cases "fst a = k") (auto simp: map_of_eq_None_iff image_iff split: option.splits dest: map_of_SomeD)
qed simp

lemma live_drop_expired:
  assumes "distinct (map fst m)" and "now \<le> later"
  shows "live later (drop_expired now m) k = live later m k"
  using map_of_filter_distinct [OF assms(1), of "\<lambda>(k, e). \<not> expired now e" k] assms(2)
  by (auto simp: live_def drop_expired_def expired_def split: option.splits)

text \<open>Two limiters that no call can tell apart from time \<open>now\<close> on.\<close>

definition same_view :: "instant \<Rightarrow> RateLimiter \<Rightarrow> RateLimiter \<Rightarrow> bool" where
  "same_view now a b \<longleftrightarrow> rl_config a = rl_config b \<and>
     live now (rl_messageCount a) = live now (rl_messageCount b) \<and>
     live now (rl_connectionRate a) = live now (rl_connectionRate b) \<and>
     rl_concurrentConnections a = rl_concurrentConnections b \<and>
     rl_globalConnections a = rl_globalConnections b \<and>
     rl_messagesPerConnection a = rl_messagesPerConnection b \<and>
     live now (rl_userMessageCount a) = live now (rl_userMessageCount b) \<and>
     live now (rl_authFailures a) = live now (rl_authFailures b) \<and>
     live now (rl_violations a) = live now (rl_violations b)"

lemma live_mono_ext: "live now m = live now m' \<Longrightarrow> now \<le> later \<Longrightarrow> live later m = live later m'"
  by (rule ext) (metis live_mono)

lemma same_view_mono: "same_view now a b \<Longrightarrow> now \<le> later \<Longrightarrow> same_view later a b"
  unfolding same_view_def by (blast intro: live_mono_ext)

lemma live_count_cong: "live now m = live now m' \<Longrightarrow>
    live now (count_in_window now len k m) = live now (count_in_window now len k m')"
  by (rule ext) (simp only: live_count_in_window)


datatype limiter_call =
    Connect string | Opened string | Closed string | Message string | Sent string
  | User_Message string | User_Sent string | Auth_Failure string | Auth_Blocked string
  | Violation string | Backoff string

datatype limiter_answer = Verdict "SMTPError option" | Blocked bool | Delay duration | Done

fun limiter_run :: "instant \<Rightarrow> limiter_call \<Rightarrow> RateLimiter \<Rightarrow> limiter_answer \<times> RateLimiter" where
  "limiter_run now (Connect a) rl = apfst Verdict (CheckConnection now a rl)"
| "limiter_run now (Opened a) rl = (Done, OnConnectionOpened a rl)"
| "limiter_run now (Closed a) rl = (Done, OnConnectionClosed a rl)"
| "limiter_run now (Message a) rl = (Verdict (CheckMessage now a rl), rl)"
| "limiter_run now (Sent a) rl = (Done, OnMessageSent now a rl)"
| "limiter_run now (User_Message u) rl = (Verdict (CheckUserMessage now u rl), rl)"
| "limiter_run now (User_Sent u) rl = (Done, OnUserMessageSent now u rl)"
| "limiter_run now (Auth_Failure a) rl = (Done, RecordAuthFailure now a rl)"
| "limiter_run now (Auth_Blocked a) rl = (Blocked (IsAuthBlocked now a rl), rl)"
| "limiter_run now (Violation a) rl = (Done, RecordViolation now a rl)"
| "limiter_run now (Backoff a) rl = (Delay (GetBackoff now a rl), rl)"

fun limiter_answers :: "(instant \<times> limiter_call) list \<Rightarrow> RateLimiter \<Rightarrow> limiter_answer list" where
  "limiter_answers [] rl = []"
| "limiter_answers ((t, c) # cs) rl = (case limiter_run t c rl of (a, rl') \<Rightarrow> a # limiter_answers cs rl')"

lemma blocked_live: "IsAuthBlocked now ip rl \<longleftrightarrow> rc_AuthFailuresPerMinute (rl_config rl) > 0 \<and>
    (case live now (rl_authFailures rl) ip of None \<Rightarrow> False
     | Some e \<Rightarrow> rle_count e \<ge> rc_AuthFailuresPerMinute (rl_config rl))"
  by (simp add: IsAuthBlocked_def live_def split: option.splits)

lemma backoff_live: "GetBackoff now ip rl = (case live now (rl_violations rl) ip of None \<Rightarrow> 0
    | Some e \<Rightarrow> let delay = sint (backoff_delay (rle_count e)) in if delay > 30 * Second then 30 * Second else delay)"
  by (simp add: GetBackoff_def live_def split: option.splits)

lemma limiter_run_same_view:
  assumes "same_view now a b"
  shows "fst (limiter_run now c a) = fst (limiter_run now c b) \<and> same_view now (snd (limiter_run now c a)) (snd (limiter_run now c b))"
  using assms unfolding same_view_def
  by (cases c; elim conjE)
    (simp_all only: limiter_run.simps fst_conv snd_conv CheckConnection_def CheckMessage_def CheckUserMessage_def
      window_count_live blocked_live backoff_live OnConnectionOpened_def OnConnectionClosed_def OnMessageSent_def
      OnUserMessageSent_def RecordAuthFailure_def RecordViolation_def Let_def,
     auto intro: live_count_cong)

lemma limiter_answers_same_view:
  assumes "same_view now a b" and "sorted (now # map fst cs)"
  shows "limiter_answers cs a = limiter_answers cs b"
  using assms
proof (induction cs arbitrary: now a b)
  case (Cons tc cs)
  obtain t c where tc: "tc = (t, c)" by (cases tc)
  have "same_view t a b" using Cons.prems tc by (auto intro: same_view_mono)
  note run = limiter_run_same_view [OF this, of c]
  have "limiter_answers cs (snd (limiter_run t c a)) = limiter_answers cs (snd (limiter_run t c b))"
    using Cons.prems tc run by (intro Cons.IH [of t]) auto
  then show ?case using tc run by (simp add: case_prod_beta)
qed simp

definition limiter_wf :: "RateLimiter \<Rightarrow> bool" where
  "limiter_wf rl \<longleftrightarrow> distinct (map fst (rl_messageCount rl)) \<and> distinct (map fst (rl_connectionRate rl)) \<and>
     distinct (map fst (rl_concurrentConnections rl)) \<and> distinct (map fst (rl_messagesPerConnection rl)) \<and>
     distinct (map fst (rl_userMessageCount rl)) \<and> distinct (map fst (rl_authFailures rl)) \<and>
     distinct (map fst (rl_violations rl))"

lemma cleanup_same_view: "limiter_wf rl \<Longrightarrow> same_view now (cleanup now rl) rl"
  by (auto simp: same_view_def cleanup_def limiter_wf_def live_drop_expired)

inductive limiter_step :: "RateLimiter \<Rightarrow> RateLimiter \<Rightarrow> bool" where
  call_step: "limiter_step rl (snd (limiter_run now c rl))"
| cleanup_step: "limiter_step rl (cleanup now rl)"

inductive_cases limiter_stepE: "limiter_step rl rl'"

definition fresh_limiter :: "RateLimiter \<Rightarrow> bool" where
  "fresh_limiter rl \<longleftrightarrow> (\<exists>config. rl = NewRateLimiter config)"

lemma distinct_count_in_window: "distinct (map fst m) \<Longrightarrow> distinct (map fst (count_in_window now len k m))"
  by (simp add: count_in_window_def distinct_update)

lemma distinct_drop_expired: "distinct (map fst m) \<Longrightarrow> distinct (map fst (drop_expired now m))"
  by (simp add: drop_expired_def distinct_map_filter)

interpretation limiter: invariant_system fresh_limiter limiter_step limiter_wf
proof
  show "fresh_limiter rl \<Longrightarrow> limiter_wf rl" for rl
    by (auto simp: fresh_limiter_def NewRateLimiter_def limiter_wf_def)
  show "limiter_wf rl \<Longrightarrow> limiter_step rl rl' \<Longrightarrow> limiter_wf rl'" for rl rl'
  proof (elim limiter_stepE)
    fix now c assume wf: "limiter_wf rl" and rl': "rl' = snd (limiter_run now c rl)"
    show "limiter_wf rl'"
      using wf unfolding rl'
      by (cases c)
        (simp_all add: limiter_wf_def CheckConnection_def OnConnectionOpened_def OnConnectionClosed_def OnMessageSent_def
          OnUserMessageSent_def RecordAuthFailure_def RecordViolation_def Let_def distinct_count_in_window
          distinct_update distinct_delete split: option.splits)
  next
    fix now assume "limiter_wf rl" "rl' = cleanup now rl"
    then show "limiter_wf rl'" by (simp add: limiter_wf_def cleanup_def distinct_drop_expired)
  qed
qed

text \<open>
  The periodic cleanup cannot be observed. In every limiter that calls and cleanups can produce, running
  \<^verbatim>\<open>cleanup\<close> now and then any calls at later times, with a clock that never goes back, gives exactly the
  answers the same calls give without it.
\<close>

theorem cleanup_invisible:
  assumes "reachable fresh_limiter limiter_step rl" and "sorted (now # map fst calls)"
  shows "limiter_answers calls (cleanup now rl) = limiter_answers calls rl"
  using limiter_answers_same_view [OF cleanup_same_view [OF limiter.reachable_inv [OF assms(1)]] assms(2)] .

definition busy_limiter :: RateLimiter where
  "busy_limiter = snd (limiter_run 5 (Connect ''1.2.3.4:99'') (NewRateLimiter None))"

theorem cleanup_invisible_witness:
  "reachable fresh_limiter limiter_step busy_limiter \<and>
   limiter_answers [(Hour, Connect ''1.2.3.4:5''), (2 * Hour, Backoff ''1.2.3.4'')] (cleanup (10 * Minute) busy_limiter) =
   limiter_answers [(Hour, Connect ''1.2.3.4:5''), (2 * Hour, Backoff ''1.2.3.4'')] busy_limiter"
proof
  show r: "reachable fresh_limiter limiter_step busy_limiter"
    unfolding busy_limiter_def
    by (rule reach_step [of _ _ "NewRateLimiter None"], rule reach_init)
      (auto simp: fresh_limiter_def simp del: limiter_run.simps intro: call_step)
  show "limiter_answers [(Hour, Connect ''1.2.3.4:5''), (2 * Hour, Backoff ''1.2.3.4'')] (cleanup (10 * Minute) busy_limiter) =
   limiter_answers [(Hour, Connect ''1.2.3.4:5''), (2 * Hour, Backoff ''1.2.3.4'')] busy_limiter"
    by (rule cleanup_invisible [OF r]) (simp add: Hour_def Minute_def Second_def)
qed

end
