(* ===== verification/Sqlite_Users.thy ===== *)
theory Sqlite_Users
  imports Sqlite_Mailboxes
begin

text \<open>
  The SQLite user repository of \<^verbatim>\<open>internal/repository/sqlite/user.go\<close>: rows, lookups, listings, updates and
  soft deletion. A soft-deleted user keeps its row, and with it its place in the UNIQUE columns, but no
  lookup sees it.
\<close>

section \<open>Rows and lookups\<close>

definition toUser :: "userRow \<Rightarrow> User" where
  "toUser r =
     \<lparr>usr_ID = ur_id r, usr_Username = ur_username r, usr_Email = ur_email r,
      usr_PasswordHash = ur_password_hash r, usr_DisplayName = from_null (ur_display_name r),
      usr_Role = ur_role r, usr_Status = ur_status r, usr_AvatarURL = from_null (ur_avatar_url r),
      usr_Signature = ur_signature r, usr_SignatureHTML = ur_signature_html r,
      usr_LastLoginAt = ur_last_login_at r, usr_CreatedAt = ur_created_at r, usr_UpdatedAt = ur_updated_at r\<rparr>"

definition user_alive :: "userRow \<Rightarrow> bool" where
  "user_alive r \<longleftrightarrow> ur_deleted_at r = None"

definition get_user :: "(userRow \<Rightarrow> bool) \<Rightarrow> string \<Rightarrow> User dbm" where
  "get_user P k =
     andThen (query (\<lambda>d. find (\<lambda>r. P r \<and> user_alive r) (db_users d)))
       (\<lambda>row. case row of None \<Rightarrow> fail (NotFoundError ''user'' k) | Some r \<Rightarrow> ret (toUser r))"

definition usr_GetByID :: "ID \<Rightarrow> User dbm" where
  "usr_GetByID i = get_user (\<lambda>r. ur_id r = i) i"

definition GetByUsername :: "string \<Rightarrow> User dbm" where
  "GetByUsername username = get_user (\<lambda>r. EqualFold (ur_username r) username) username"

definition GetByEmail :: "string \<Rightarrow> User dbm" where
  "GetByEmail email = get_user (\<lambda>r. EqualFold (ur_email r) (ToLower email)) email"

section \<open>Listing\<close>

record UserFilter =
  uf_IDs :: "ID list"
  uf_Status :: "UserStatus option"
  uf_Statuses :: "UserStatus list"
  uf_Role :: "UserRole option"
  uf_Roles :: "UserRole list"
  uf_Search :: string
  uf_Username :: string
  uf_Email :: string
  uf_CreatedBefore :: "Timestamp option"
  uf_CreatedAfter :: "Timestamp option"
  uf_LastLoginBefore :: "Timestamp option"
  uf_LastLoginAfter :: "Timestamp option"
  uf_HasNeverLoggedIn :: "bool option"
  uf_IncludeDeleted :: bool

definition emptyUserFilter :: UserFilter where
  "emptyUserFilter =
     \<lparr>uf_IDs = [], uf_Status = None, uf_Statuses = [], uf_Role = None, uf_Roles = [], uf_Search = [],
      uf_Username = [], uf_Email = [], uf_CreatedBefore = None, uf_CreatedAfter = None,
      uf_LastLoginBefore = None, uf_LastLoginAfter = None, uf_HasNeverLoggedIn = None,
      uf_IncludeDeleted = False\<rparr>"

definition compare_null :: "('a \<Rightarrow> bool) \<Rightarrow> 'a option \<Rightarrow> bool" where
  "compare_null P v \<longleftrightarrow> (case v of None \<Rightarrow> False | Some x \<Rightarrow> P x)"

definition usr_where :: "UserFilter option \<Rightarrow> userRow \<Rightarrow> bool" where
  "usr_where flt r \<longleftrightarrow>
     (case flt of None \<Rightarrow> user_alive r
      | Some f \<Rightarrow>
         (uf_IncludeDeleted f \<or> user_alive r) \<and>
         when_set (uf_IDs f) (ur_id r \<in> set (uf_IDs f)) \<and>
         when_some (uf_Status f) (\<lambda>s. ur_status r = s) \<and>
         when_set (uf_Statuses f) (ur_status r \<in> set (uf_Statuses f)) \<and>
         when_some (uf_Role f) (\<lambda>s. ur_role r = s) \<and>
         when_set (uf_Roles f) (ur_role r \<in> set (uf_Roles f)) \<and>
         when_set (uf_Username f) (EqualFold (ur_username r) (uf_Username f)) \<and>
         when_set (uf_Email f) (EqualFold (ur_email r) (uf_Email f)) \<and>
         when_set (uf_Search f)
           (let p = ''%'' @ uf_Search f @ ''%''
            in like p (ur_username r) \<or> like p (ur_email r) \<or> like_null p (ur_display_name r)) \<and>
         when_some (uf_CreatedBefore f) (\<lambda>t. ur_created_at r < t) \<and>
         when_some (uf_CreatedAfter f) (\<lambda>t. ur_created_at r > t) \<and>
         when_some (uf_LastLoginBefore f) (\<lambda>t. compare_null (\<lambda>l. l < t) (ur_last_login_at r)) \<and>
         when_some (uf_LastLoginAfter f) (\<lambda>t. compare_null (\<lambda>l. l > t) (ur_last_login_at r)) \<and>
         when_some (uf_HasNeverLoggedIn f) (\<lambda>b. b \<longrightarrow> ur_last_login_at r = None))"

text \<open>The column \<^verbatim>\<open>mapSortField\<close> picks; user names and e-mail addresses sort by their NOCASE collation.\<close>

definition usr_sort_key :: "string \<Rightarrow> userRow \<Rightarrow> sql_value" where
  "usr_sort_key field r =
     (if field = ''username'' then STxt (ToLower (ur_username r))
      else if field = ''email'' then STxt (ToLower (ur_email r))
      else if field = ''displayName'' then (case ur_display_name r of None \<Rightarrow> SNull | Some s \<Rightarrow> STxt s)
      else if field = ''createdAt'' then SInt (ur_created_at r)
      else if field = ''updatedAt'' then SInt (ur_updated_at r)
      else if field = ''lastLoginAt'' then (case ur_last_login_at r of None \<Rightarrow> SNull | Some t \<Rightarrow> SInt t)
      else if field = ''role'' then STxt (ur_role r)
      else if field = ''status'' then STxt (ur_status r)
      else SInt (ur_created_at r))"

definition usr_List :: "UserFilter option \<Rightarrow> ListOptions option \<Rightarrow> User ListResult dbm" where
  "usr_List flt opts =
     andThen (query (\<lambda>d. filter (usr_where flt) (db_users d)))
       (\<lambda>all. let rows = limit_offset (page_of opts) (sort_rows usr_sort_key ''createdAt'' opts all)
              in ret (list_result opts (int (length all)) (map toUser rows)))"

section \<open>Existence and counts\<close>

definition usr_Exists :: "ID \<Rightarrow> bool dbm" where
  "usr_Exists i = query (\<lambda>d. list_ex (\<lambda>r. ur_id r = i \<and> user_alive r) (db_users d))"

definition ExistsByUsername :: "string \<Rightarrow> bool dbm" where
  "ExistsByUsername username =
     query (\<lambda>d. list_ex (\<lambda>r. EqualFold (ur_username r) username \<and> user_alive r) (db_users d))"

definition ExistsByEmail :: "string \<Rightarrow> bool dbm" where
  "ExistsByEmail email =
     query (\<lambda>d. list_ex (\<lambda>r. EqualFold (ur_email r) (ToLower email) \<and> user_alive r) (db_users d))"

definition usr_Count :: "UserFilter option \<Rightarrow> int dbm" where
  "usr_Count flt = query (\<lambda>d. count_where (usr_where flt) (db_users d))"

text \<open>\<^verbatim>\<open>GROUP BY\<close>: one entry per value that occurs.\<close>

definition group_counts :: "(userRow \<Rightarrow> string) \<Rightarrow> userRow list \<Rightarrow> (string \<times> int) list" where
  "group_counts k rs = map (\<lambda>v. (v, count_where (\<lambda>r. k r = v) rs)) (remdups (map k rs))"

definition CountByRole :: "(string \<times> int) list dbm" where
  "CountByRole = query (\<lambda>d. group_counts ur_role (filter user_alive (db_users d)))"

definition CountByStatus :: "(string \<times> int) list dbm" where
  "CountByStatus = query (\<lambda>d. group_counts ur_status (filter user_alive (db_users d)))"

section \<open>Creating, updating and deleting\<close>

definition row_of_user :: "User \<Rightarrow> userRow" where
  "row_of_user u =
     \<lparr>ur_id = usr_ID u, ur_username = usr_Username u, ur_email = usr_Email u,
      ur_password_hash = usr_PasswordHash u, ur_display_name = NullString (usr_DisplayName u),
      ur_role = usr_Role u, ur_status = usr_Status u, ur_avatar_url = NullString (usr_AvatarURL u),
      ur_signature = usr_Signature u, ur_signature_html = usr_SignatureHTML u,
      ur_last_login_at = usr_LastLoginAt u, ur_deleted_at = None,
      ur_created_at = usr_CreatedAt u, ur_updated_at = usr_UpdatedAt u\<rparr>"

definition usr_Create :: "User \<Rightarrow> unit dbm" where
  "usr_Create u =
     andThen (ExistsByUsername (usr_Username u))
       (\<lambda>exists. if exists then fail (AlreadyExistsError ''user'' ''username'' (usr_Username u))
         else andThen (ExistsByEmail (usr_Email u))
       (\<lambda>exists. if exists then fail (AlreadyExistsError ''user'' ''email'' (usr_Email u))
         else wrap ''failed to create user'' (insert_user (row_of_user u))))"

definition usr_Update :: "instant \<Rightarrow> User \<Rightarrow> unit dbm" where
  "usr_Update now u =
     andThen (usr_Exists (usr_ID u))
       (\<lambda>exists. if \<not> exists then fail (NotFoundError ''user'' (usr_ID u))
         else andThen (wrap ''failed to update user'' (update_users (\<lambda>r. ur_id r = usr_ID u)
            (\<lambda>r. r\<lparr>ur_username := usr_Username u, ur_email := usr_Email u,
                   ur_password_hash := usr_PasswordHash u,
                   ur_display_name := NullString (usr_DisplayName u), ur_role := usr_Role u,
                   ur_status := usr_Status u, ur_avatar_url := NullString (usr_AvatarURL u),
                   ur_signature := usr_Signature u, ur_signature_html := usr_SignatureHTML u,
                   ur_last_login_at := usr_LastLoginAt u, ur_updated_at := now\<rparr>)))
           (\<lambda>_. ret ()))"

definition usr_Delete :: "ID \<Rightarrow> unit dbm" where
  "usr_Delete i = expect_rows (NotFoundError ''user'' i)
     (wrap ''failed to delete user'' (delete_users (\<lambda>r. ur_id r = i)))"

definition SoftDelete :: "instant \<Rightarrow> ID \<Rightarrow> unit dbm" where
  "SoftDelete now i = expect_rows (NotFoundError ''user'' i)
     (wrap ''failed to soft delete user'' (update_users (\<lambda>r. ur_id r = i \<and> user_alive r)
        (\<lambda>r. r\<lparr>ur_deleted_at := Some now, ur_updated_at := now\<rparr>)))"

definition Restore :: "instant \<Rightarrow> ID \<Rightarrow> unit dbm" where
  "Restore now i = expect_rows (NotFoundError ''user'' i)
     (wrap ''failed to restore user'' (update_users (\<lambda>r. ur_id r = i \<and> \<not> user_alive r)
        (\<lambda>r. r\<lparr>ur_deleted_at := None, ur_updated_at := now\<rparr>)))"

text \<open>The single-column updates of one user that is not deleted.\<close>

definition set_user :: "string \<Rightarrow> (userRow \<Rightarrow> userRow) \<Rightarrow> instant \<Rightarrow> ID \<Rightarrow> unit dbm" where
  "set_user msg f now i = expect_rows (NotFoundError ''user'' i)
     (wrap msg (update_users (\<lambda>r. ur_id r = i \<and> user_alive r) (\<lambda>r. (f r)\<lparr>ur_updated_at := now\<rparr>)))"

definition usr_UpdatePassword :: "instant \<Rightarrow> ID \<Rightarrow> string \<Rightarrow> unit dbm" where
  "usr_UpdatePassword now i passwordHash =
     set_user ''failed to update password'' (\<lambda>r. r\<lparr>ur_password_hash := passwordHash\<rparr>) now i"

definition UpdateLastLogin :: "instant \<Rightarrow> ID \<Rightarrow> unit dbm" where
  "UpdateLastLogin now i = set_user ''failed to update last login'' (\<lambda>r. r\<lparr>ur_last_login_at := Some now\<rparr>) now i"

definition usr_UpdateStatus :: "instant \<Rightarrow> ID \<Rightarrow> UserStatus \<Rightarrow> unit dbm" where
  "usr_UpdateStatus now i status = set_user ''failed to update status'' (\<lambda>r. r\<lparr>ur_status := status\<rparr>) now i"

definition usr_UpdateRole :: "instant \<Rightarrow> ID \<Rightarrow> UserRole \<Rightarrow> unit dbm" where
  "usr_UpdateRole now i role = set_user ''failed to update role'' (\<lambda>r. r\<lparr>ur_role := role\<rparr>) now i"

section \<open>Further queries and bulk operations\<close>

definition GetActiveUsers :: "ListOptions option \<Rightarrow> User ListResult dbm" where
  "GetActiveUsers opts = usr_List (Some (emptyUserFilter\<lparr>uf_Status := Some StatusActive\<rparr>)) opts"

definition GetAdmins :: "User list dbm" where
  "GetAdmins = andThen (usr_List (Some (emptyUserFilter\<lparr>uf_Role := Some RoleAdmin\<rparr>)) None) (\<lambda>r. ret (lr_Items r))"

definition usr_Search :: "string \<Rightarrow> ListOptions option \<Rightarrow> User ListResult dbm" where
  "usr_Search q opts = usr_List (Some (emptyUserFilter\<lparr>uf_Search := q\<rparr>)) opts"

definition BulkUpdateStatus :: "instant \<Rightarrow> ID list \<Rightarrow> UserStatus \<Rightarrow> BulkOperation dbm" where
  "BulkUpdateStatus now ids status = bulk (\<lambda>i. usr_UpdateStatus now i status) ids NewBulkOperation"

definition usr_BulkDelete :: "ID list \<Rightarrow> BulkOperation dbm" where
  "usr_BulkDelete ids = bulk usr_Delete ids NewBulkOperation"

definition GetUsersCreatedBetween ::
  "(Timestamp option \<times> Timestamp option) option \<Rightarrow> ListOptions option \<Rightarrow> User ListResult dbm" where
  "GetUsersCreatedBetween dateRange opts =
     usr_List (Some (case dateRange of None \<Rightarrow> emptyUserFilter
       | Some (from, to) \<Rightarrow> emptyUserFilter\<lparr>uf_CreatedAfter := from, uf_CreatedBefore := to\<rparr>)) opts"

text \<open>\<^verbatim>\<open>time.Now().UTC().AddDate(0, 0, -days)\<close>: whole days of 24 hours.\<close>

definition days_before :: "instant \<Rightarrow> int \<Rightarrow> instant" where
  "days_before now days = now - days * (24 * Hour)"

definition GetUsersWithRecentLogin :: "instant \<Rightarrow> int \<Rightarrow> ListOptions option \<Rightarrow> User ListResult dbm" where
  "GetUsersWithRecentLogin now days opts =
     usr_List (Some (emptyUserFilter\<lparr>uf_LastLoginAfter := Some (days_before now days)\<rparr>)) opts"

definition GetInactiveUsers :: "instant \<Rightarrow> int \<Rightarrow> ListOptions option \<Rightarrow> User ListResult dbm" where
  "GetInactiveUsers now days opts =
     usr_List (Some (emptyUserFilter\<lparr>uf_LastLoginBefore := Some (days_before now days)\<rparr>)) opts"

section \<open>Lemmas\<close>

lemma toUser_row_of_user [simp]: "toUser (row_of_user u) = u"
  by (simp add: toUser_def row_of_user_def)

lemma schema_ok_users:
  assumes "map ur_id us = map ur_id (db_users d)" and "map ur_username us = map ur_username (db_users d)"
    and "map ur_email us = map ur_email (db_users d)"
  shows "schema_ok (d\<lparr>db_users := us\<rparr>) = schema_ok d"
proof -
  have "map (\<lambda>r. ToLower (ur_username r)) us = map (\<lambda>r. ToLower (ur_username r)) (db_users d)"
    "map (\<lambda>r. ToLower (ur_email r)) us = map (\<lambda>r. ToLower (ur_email r)) (db_users d)"
    using arg_cong [OF assms(2), of "map ToLower"] arg_cong [OF assms(3), of "map ToLower"] by (simp_all add: comp_def)
  moreover have "ur_id ` set us = ur_id ` set (db_users d)"
    using assms(1) by (metis list.set_map)
  ultimately show ?thesis
    using assms(1) by (simp add: schema_defs)
qed

lemma schema_ok_new_user:
  assumes "schema_ok d" and "ur_id r \<notin> ur_id ` set (db_users d)"
    and "\<And>u. u \<in> set (db_users d) \<Longrightarrow> \<not> EqualFold (ur_username u) (ur_username r)"
    and "\<And>u. u \<in> set (db_users d) \<Longrightarrow> \<not> EqualFold (ur_email u) (ur_email r)"
  shows "schema_ok (d\<lparr>db_users := db_users d @ [r]\<rparr>)"
proof -
  have "ToLower (ur_username r) \<notin> (\<lambda>u. ToLower (ur_username u)) ` set (db_users d)"
    "ToLower (ur_email r) \<notin> (\<lambda>u. ToLower (ur_email u)) ` set (db_users d)"
    using assms(3,4) by (fastforce simp: EqualFold_def)+
  then show ?thesis
    using assms(1,2) by (auto simp: schema_defs list_all_iff)
qed

end
