(* ===== verification/User_Service.thy ===== *)
theory User_Service
  imports Sqlite_Users
begin

text \<open>
  The user service of \<^verbatim>\<open>internal/service/user.go\<close> and the authenticator of \<^verbatim>\<open>internal/smtp/auth.go\<close> on the
  SQLite user repository.

  bcrypt is a parameter: \<open>bc_hash\<close> is \<^verbatim>\<open>GenerateFromPassword\<close> at the configured cost (it fails for instance
  on passwords of more than 72 bytes) and \<open>bc_check\<close> is \<^verbatim>\<open>CompareHashAndPassword\<close>. The asynchronous webhook
  that announces a new user is left out.
\<close>

record BCrypt =
  bc_hash :: "string \<Rightarrow> error + string"
  bc_check :: "string \<Rightarrow> string \<Rightarrow> bool"

section \<open>Reading\<close>

record UserListResponse =
  ulr_Users :: "User list"
  ulr_Total :: int
  ulr_Page :: int
  ulr_PageSize :: int
  ulr_TotalPages :: int

text \<open>\<^verbatim>\<open>if err != nil { return domain.NewInternalError(msg, err) }\<close>, and the variant that keeps not-found errors.\<close>

definition or_internal :: "string \<Rightarrow> 'a dbm \<Rightarrow> 'a dbm" where
  "or_internal msg m = (\<lambda>d. case m d of
     (Inl e, d') \<Rightarrow> (Inl (InternalError msg (Some e)), d') | (Inr x, d') \<Rightarrow> (Inr x, d'))"

definition us_List :: "UserFilter option \<Rightarrow> int \<Rightarrow> int \<Rightarrow> UserListResponse dbm" where
  "us_List flt page pageSize =
     (let page = (if page < 1 then 1 else page);
          pageSize = (if pageSize < 1 then DefaultPerPage else pageSize);
          pageSize = (if pageSize > MaxPerPage then MaxPerPage else pageSize);
          opts = \<lparr>lo_Pagination = Some \<lparr>po_Page = page, po_PerPage = pageSize\<rparr>,
                  lo_Sort = Some \<lparr>so_Field = ''createdAt'', so_Order = SortDesc\<rparr>\<rparr>
      in andThen (or_internal ''failed to list users'' (usr_List flt (Some opts)))
           (\<lambda>res. let totalPages = lr_Total res sdiv pageSize;
                      totalPages = (if lr_Total res smod pageSize > 0 then totalPages + 1 else totalPages)
                  in ret \<lparr>ulr_Users = lr_Items res, ulr_Total = lr_Total res, ulr_Page = page,
                          ulr_PageSize = pageSize, ulr_TotalPages = totalPages\<rparr>))"

definition us_GetByID :: "ID \<Rightarrow> User dbm" where
  "us_GetByID i = (\<lambda>d. case usr_GetByID i d of
     (Inr u, d') \<Rightarrow> (Inr u, d')
   | (Inl e, d') \<Rightarrow> if IsNotFound e then (Inl (NotFoundError ''user'' i), d')
                    else (Inl (InternalError ''failed to retrieve user'' (Some e)), d'))"

record UserInfo =
  ui_ID :: ID
  ui_Username :: string
  ui_Email :: string
  ui_DisplayName :: string
  ui_Role :: UserRole

definition UserInfoFromUser :: "User \<Rightarrow> UserInfo" where
  "UserInfoFromUser u =
     \<lparr>ui_ID = usr_ID u, ui_Username = usr_Username u, ui_Email = usr_Email u,
      ui_DisplayName = usr_DisplayName u, ui_Role = usr_Role u\<rparr>"

definition GetUserInfo :: "ID \<Rightarrow> UserInfo dbm" where
  "GetUserInfo i = andThen (us_GetByID i) (\<lambda>u. ret (UserInfoFromUser u))"

record UserProfile =
  up_ID :: ID
  up_Username :: string
  up_Email :: string
  up_DisplayName :: string
  up_Role :: UserRole
  up_Status :: UserStatus
  up_AvatarURL :: string
  up_LastLoginAt :: "Timestamp option"
  up_CreatedAt :: Timestamp
  up_UpdatedAt :: Timestamp

definition GetUserProfile :: "ID \<Rightarrow> UserProfile dbm" where
  "GetUserProfile i = andThen (us_GetByID i)
     (\<lambda>u. ret \<lparr>up_ID = usr_ID u, up_Username = usr_Username u, up_Email = usr_Email u,
        up_DisplayName = usr_DisplayName u, up_Role = usr_Role u, up_Status = usr_Status u,
        up_AvatarURL = usr_AvatarURL u, up_LastLoginAt = usr_LastLoginAt u,
        up_CreatedAt = usr_CreatedAt u, up_UpdatedAt = usr_UpdatedAt u\<rparr>)"

definition us_Search :: "string \<Rightarrow> int \<Rightarrow> int \<Rightarrow> UserListResponse dbm" where
  "us_Search q page pageSize = us_List (Some (emptyUserFilter\<lparr>uf_Search := q\<rparr>)) page pageSize"

record UserStats =
  ust_TotalUsers :: int
  ust_ByRole :: "(string \<times> int) list"
  ust_ByStatus :: "(string \<times> int) list"
  ust_ActiveUsers :: int
  ust_PendingUsers :: int

definition count_of :: "(string \<times> int) list \<Rightarrow> string \<Rightarrow> int" where
  "count_of m k = (case map_of m k of None \<Rightarrow> 0 | Some n \<Rightarrow> n)"

definition us_GetStats :: "UserStats dbm" where
  "us_GetStats =
     andThen (or_internal ''failed to count users'' (usr_Count None))
       (\<lambda>tot. andThen (or_internal ''failed to count by role'' CountByRole)
       (\<lambda>byRole. andThen (or_internal ''failed to count by status'' CountByStatus)
       (\<lambda>byStatus. ret \<lparr>ust_TotalUsers = tot, ust_ByRole = byRole, ust_ByStatus = byStatus,
          ust_ActiveUsers = count_of byStatus StatusActive, ust_PendingUsers = count_of byStatus StatusPending\<rparr>)))"

section \<open>Creating and updating\<close>

definition new_user :: "instant \<Rightarrow> ID \<Rightarrow> UserCreateInput \<Rightarrow> string \<Rightarrow> User" where
  "new_user now gen inp passwordHash =
     (NewUser now gen (uci_Username inp) (uci_Email inp))
       \<lparr>usr_PasswordHash := passwordHash, usr_DisplayName := uci_DisplayName inp,
        usr_Role := (if uci_Role inp \<noteq> [] then uci_Role inp else RoleUser), usr_Status := StatusActive\<rparr>"

text \<open>The error of the repository's \<^verbatim>\<open>Create\<close> or \<^verbatim>\<open>Update\<close>: already-exists errors pass, others become internal.\<close>

definition keep_exists :: "string \<Rightarrow> 'a dbm \<Rightarrow> 'a dbm" where
  "keep_exists msg m = (\<lambda>d. case m d of
     (Inr x, d') \<Rightarrow> (Inr x, d')
   | (Inl e, d') \<Rightarrow> if IsAlreadyExists e then (Inl e, d') else (Inl (InternalError msg (Some e)), d'))"

definition us_Create :: "BCrypt \<Rightarrow> ID \<Rightarrow> instant \<Rightarrow> UserCreateInput \<Rightarrow> User dbm" where
  "us_Create bc gen now input =
     (let inp = UserCreateInput_Normalize input; errs = UserCreateInput_Validate inp in
      if errs \<noteq> [] then fail (ValidationErrs errs)
      else andThen (or_internal ''failed to check username'' (ExistsByUsername (uci_Username inp)))
        (\<lambda>exists. if exists then fail (AlreadyExistsError ''user'' ''username'' (uci_Username inp))
          else andThen (or_internal ''failed to check email'' (ExistsByEmail (uci_Email inp)))
        (\<lambda>exists. if exists then fail (AlreadyExistsError ''user'' ''email'' (uci_Email inp))
          else case bc_hash bc (uci_Password inp) of
            Inl e \<Rightarrow> fail (InternalError ''failed to hash password'' (Some e))
          | Inr passwordHash \<Rightarrow>
              let user = new_user now gen inp passwordHash in
              andThen (keep_exists ''failed to create user'' (usr_Create user)) (\<lambda>_. ret user))))"

text \<open>The check that a new e-mail address is not taken by another user.\<close>

definition email_free :: "ID \<Rightarrow> User \<Rightarrow> string \<Rightarrow> unit dbm" where
  "email_free i user e =
     (let email = TrimSpace (ToLower e) in
      if email = usr_Email user then ret ()
      else (\<lambda>d. case GetByEmail email d of
              (Inr u, d') \<Rightarrow> if usr_ID u \<noteq> i then (Inl (AlreadyExistsError ''user'' ''email'' email), d')
                             else (Inr (), d')
            | (Inl err, d') \<Rightarrow> if IsNotFound err then (Inr (), d')
                             else (Inl (InternalError ''failed to check email'' (Some err)), d')))"

definition us_Update :: "instant \<Rightarrow> ID \<Rightarrow> UserUpdateInput \<Rightarrow> bool \<Rightarrow> User dbm" where
  "us_Update now i input isAdmin =
     (let errs = UserUpdateInput_Validate input in
      if errs \<noteq> [] then fail (ValidationErrs errs)
      else andThen (us_GetByID i)
        (\<lambda>user. andThen (case uui_Email input of None \<Rightarrow> ret () | Some e \<Rightarrow> email_free i user e)
        (\<lambda>_. let input = (if isAdmin then input else input\<lparr>uui_Role := None, uui_Status := None\<rparr>);
                 user = UserUpdateInput_Apply now input user
             in andThen (keep_exists ''failed to update user'' (usr_Update now user)) (\<lambda>_. ret user))))"

text \<open>\<^verbatim>\<open>exists, err := Exists(id)\<close> and the not-found error the deleting and updating methods share.\<close>

definition when_exists :: "ID \<Rightarrow> 'a dbm \<Rightarrow> 'a dbm" where
  "when_exists i m = andThen (or_internal ''failed to check user'' (usr_Exists i))
     (\<lambda>exists. if \<not> exists then fail (NotFoundError ''user'' i) else m)"

definition us_Delete :: "instant \<Rightarrow> ID \<Rightarrow> unit dbm" where
  "us_Delete now i = when_exists i (or_internal ''failed to delete user'' (SoftDelete now i))"

definition us_UpdatePassword :: "BCrypt \<Rightarrow> instant \<Rightarrow> ID \<Rightarrow> string \<Rightarrow> unit dbm" where
  "us_UpdatePassword bc now i newPassword =
     (if length newPassword < 8
      then fail (ValidationError ''password'' ''password must be at least 8 characters'')
      else if length newPassword > 128
      then fail (ValidationError ''password'' ''password must be at most 128 characters'')
      else when_exists i
        (case bc_hash bc newPassword of
           Inl e \<Rightarrow> fail (InternalError ''failed to hash password'' (Some e))
         | Inr passwordHash \<Rightarrow> or_internal ''failed to update password'' (usr_UpdatePassword now i passwordHash)))"

definition ChangePassword :: "BCrypt \<Rightarrow> instant \<Rightarrow> ID \<Rightarrow> string \<Rightarrow> string \<Rightarrow> unit dbm" where
  "ChangePassword bc now i currentPassword newPassword =
     andThen (us_GetByID i)
       (\<lambda>user. if \<not> bc_check bc (usr_PasswordHash user) currentPassword
          then fail (UnauthorizedError ''current password is incorrect'')
          else us_UpdatePassword bc now i newPassword)"

definition us_UpdateStatus :: "instant \<Rightarrow> ID \<Rightarrow> UserStatus \<Rightarrow> unit dbm" where
  "us_UpdateStatus now i status =
     (if \<not> UserStatus_IsValid status then fail (ValidationError ''status'' ''invalid status'')
      else when_exists i (or_internal ''failed to update status'' (usr_UpdateStatus now i status)))"

definition us_UpdateRole :: "instant \<Rightarrow> ID \<Rightarrow> UserRole \<Rightarrow> unit dbm" where
  "us_UpdateRole now i role =
     (if \<not> UserRole_IsValid role then fail (ValidationError ''role'' ''invalid role'')
      else when_exists i (or_internal ''failed to update role'' (usr_UpdateRole now i role)))"

definition PasswordUpdateInput_Validate :: "string \<Rightarrow> ValidationErrors" where
  "PasswordUpdateInput_Validate newPassword =
     (if newPassword = [] then [(''newPassword'', ''new password is required'')]
      else if length newPassword < 8 then [(''newPassword'', ''password must be at least 8 characters'')]
      else errs_Add (length newPassword > 128) ''newPassword'' ''password must be at most 128 characters'')"

section \<open>The SMTP authenticator\<close>

text \<open>
  \<^verbatim>\<open>AuthenticationError{Reason, Message}\<close> prints as \<^verbatim>\<open>authentication failed: Reason - Message\<close>; it wraps no
  other error. \<^verbatim>\<open>NewInternalAuthError\<close> puts the text of the error into the message, which is not modelled.
\<close>

datatype AuthenticationError = InvalidCredentials | AccountDisabled | AccountPending | InternalAuthError error

definition findUser :: "string \<Rightarrow> db \<Rightarrow> (AuthenticationError + User) \<times> db" where
  "findUser identifier d =
     (case GetByUsername identifier d of
        (Inr u, d') \<Rightarrow> (Inr u, d')
      | (Inl e, d') \<Rightarrow>
          if \<not> IsNotFound e then (Inl (InternalAuthError e), d')
          else (case GetByEmail identifier d' of
                  (Inr u, d'') \<Rightarrow> (Inr u, d'')
                | (Inl e, d'') \<Rightarrow> if IsNotFound e then (Inl InvalidCredentials, d'')
                                 else (Inl (InternalAuthError e), d'')))"

definition validateUserStatus :: "User \<Rightarrow> AuthenticationError option" where
  "validateUserStatus u =
     (if usr_Status u = StatusActive then None
      else if usr_Status u = StatusInactive then Some AccountDisabled
      else if usr_Status u = StatusPending then Some AccountPending
      else Some AccountDisabled)"

text \<open>The answer and the database; a failed update of the last login is ignored.\<close>

definition Authenticate ::
  "BCrypt \<Rightarrow> instant \<Rightarrow> string \<Rightarrow> string \<Rightarrow> db \<Rightarrow> (AuthenticationError + User) \<times> db" where
  "Authenticate bc now username password d =
     (if username = [] \<or> password = [] then (Inl InvalidCredentials, d)
      else case findUser username d of
        (Inl e, d') \<Rightarrow> (Inl e, d')
      | (Inr user, d') \<Rightarrow>
          if \<not> bc_check bc (usr_PasswordHash user) password then (Inl InvalidCredentials, d')
          else (case validateUserStatus user of
                  Some e \<Rightarrow> (Inl e, d')
                | None \<Rightarrow> (Inr user, snd (UpdateLastLogin now (usr_ID user) d'))))"

section \<open>A new user can log in\<close>

lemma or_internal_Inr [simp]: "m d = (Inr x, d') \<Longrightarrow> or_internal msg m d = (Inr x, d')"
  by (simp add: or_internal_def)

text \<open>The input passes validation, and no user, deleted or not, has the ID, the name or the address.\<close>

definition user_creatable :: "ID \<Rightarrow> UserCreateInput \<Rightarrow> db \<Rightarrow> bool" where
  "user_creatable gen input d \<longleftrightarrow>
     (let inp = UserCreateInput_Normalize input in
      schema_ok d \<and> UserCreateInput_Validate inp = [] \<and>
      list_all (\<lambda>r. ur_id r \<noteq> gen \<and> \<not> EqualFold (ur_username r) (uci_Username inp) \<and>
        \<not> EqualFold (ur_email r) (uci_Email inp)) (db_users d))"

lemma row_of_user_alive: "user_alive (row_of_user u)"
  by (simp add: user_alive_def row_of_user_def)

lemma usr_Create_eq:
  assumes "schema_ok d"
    and "\<And>r. r \<in> set (db_users d) \<Longrightarrow> ur_id r \<noteq> usr_ID u \<and> \<not> EqualFold (ur_username r) (usr_Username u) \<and>
      \<not> EqualFold (ur_email r) (usr_Email u)"
  shows "usr_Create u d = (Inr (), d\<lparr>db_users := db_users d @ [row_of_user u]\<rparr>)"
    and "schema_ok (d\<lparr>db_users := db_users d @ [row_of_user u]\<rparr>)"
proof -
  show ok: "schema_ok (d\<lparr>db_users := db_users d @ [row_of_user u]\<rparr>)"
  proof (rule schema_ok_new_user [OF assms(1)])
    show "ur_id (row_of_user u) \<notin> ur_id ` set (db_users d)"
      using assms(2) by (metis (no_types, lifting) imageE row_of_user_def userRow.select_convs(1))
  qed (use assms(2) in \<open>simp_all add: row_of_user_def\<close>)
  have "\<not> list_ex (\<lambda>r. EqualFold (ur_username r) (usr_Username u) \<and> user_alive r) (db_users d)"
    "\<not> list_ex (\<lambda>r. EqualFold (ur_email r) (ToLower (usr_Email u)) \<and> user_alive r) (db_users d)"
    using assms(2) by (auto simp: list_ex_iff EqualFold_def)
  then show "usr_Create u d = (Inr (), d\<lparr>db_users := db_users d @ [row_of_user u]\<rparr>)"
    using ok by (simp add: usr_Create_def ExistsByUsername_def ExistsByEmail_def insert_user_def stmt_def wrap_def)
qed

lemma us_Create_eq:
  assumes "user_creatable gen input d" and "bc_hash bc (uci_Password input) = Inr h"
  shows "us_Create bc gen now input d =
    (Inr (new_user now gen (UserCreateInput_Normalize input) h),
     d\<lparr>db_users := db_users d @ [row_of_user (new_user now gen (UserCreateInput_Normalize input) h)]\<rparr>)"
proof -
  let ?inp = "UserCreateInput_Normalize input"
  let ?u = "new_user now gen ?inp h"
  have pw: "uci_Password ?inp = uci_Password input" by (simp add: UserCreateInput_Normalize_def)
  have u: "usr_ID ?u = gen" "usr_Username ?u = uci_Username ?inp" "usr_Email ?u = uci_Email ?inp"
    by (simp_all add: new_user_def NewUser_def)
  have "usr_Create ?u d = (Inr (), d\<lparr>db_users := db_users d @ [row_of_user ?u]\<rparr>)"
    using assms(1) by (intro usr_Create_eq) (auto simp: user_creatable_def Let_def list_all_iff u)
  moreover have "\<not> list_ex (\<lambda>r. EqualFold (ur_username r) (uci_Username ?inp) \<and> user_alive r) (db_users d)"
    "\<not> list_ex (\<lambda>r. EqualFold (ur_email r) (ToLower (uci_Email ?inp)) \<and> user_alive r) (db_users d)"
    using assms(1) by (auto simp: list_ex_iff EqualFold_def user_creatable_def Let_def list_all_iff)
  ultimately show ?thesis
    using assms by (simp add: us_Create_def user_creatable_def Let_def or_internal_def ExistsByUsername_def
        ExistsByEmail_def andThen_def pw keep_exists_def)
qed

text \<open>A name that identifies the last row of the table.\<close>

definition identifies :: "string \<Rightarrow> userRow \<Rightarrow> userRow list \<Rightarrow> bool" where
  "identifies name r rs \<longleftrightarrow>
     EqualFold (ur_username r) name \<and> list_all (\<lambda>x. \<not> EqualFold (ur_username x) name) rs \<or>
     EqualFold (ur_email r) name \<and> \<not> EqualFold (ur_username r) name \<and>
       list_all (\<lambda>x. \<not> EqualFold (ur_username x) name \<and> \<not> EqualFold (ur_email x) name) rs"

lemma find_no_row: "(\<And>x. x \<in> set xs \<Longrightarrow> \<not> P x) \<Longrightarrow> find P xs = None"
  by (simp add: find_None_iff)

lemma findUser_last:
  assumes "identifies name r rs" and "user_alive r" and "db_users d = rs @ [r]"
  shows "findUser name d = (Inr (toUser r), d)"
  using assms(1) unfolding identifies_def
proof
  assume "EqualFold (ur_username r) name \<and> list_all (\<lambda>x. \<not> EqualFold (ur_username x) name) rs"
  then show ?thesis
    using assms(2,3) find_last [of rs "\<lambda>x. EqualFold (ur_username x) name \<and> user_alive x" r]
    by (simp add: findUser_def GetByUsername_def get_user_def list_all_iff)
next
  assume email: "EqualFold (ur_email r) name \<and> \<not> EqualFold (ur_username r) name \<and>
    list_all (\<lambda>x. \<not> EqualFold (ur_username x) name \<and> \<not> EqualFold (ur_email x) name) rs"
  then have "find (\<lambda>x. EqualFold (ur_username x) name \<and> user_alive x) (rs @ [r]) = None"
    by (intro find_no_row) (auto simp: list_all_iff)
  moreover have "find (\<lambda>x. EqualFold (ur_email x) (ToLower name) \<and> user_alive x) (rs @ [r]) = Some r"
    using email assms(2) by (intro find_last) (auto simp: list_all_iff EqualFold_def)
  ultimately show ?thesis
    using assms(3) by (simp add: findUser_def GetByUsername_def GetByEmail_def get_user_def IsNotFound_def)
qed

text \<open>
  C30. A user created by the user service can log in. With a fresh name and address and a password bcrypt
  accepts, \<^verbatim>\<open>Create\<close> succeeds, and then the SMTP authenticator accepts the password under the user name or the
  e-mail address in any casing (unless somebody else is called like that) and rejects every password that
  bcrypt does not match with the stored hash, without changing anything.
\<close>

theorem new_user_can_log_in:
  assumes "user_creatable gen input d" and "bc_hash bc (uci_Password input) = Inr h"
    and "bc_check bc h (uci_Password input)"
    and "us_Create bc gen now input d = (res, d')"
    and "identifies name (row_of_user (new_user now gen (UserCreateInput_Normalize input) h)) (db_users d)"
    and "name \<noteq> []"
  shows "\<exists>u d''. res = Inr u \<and> Authenticate bc later name (uci_Password input) d' = (Inr u, d'') \<and>
    (\<forall>q. \<not> bc_check bc h q \<longrightarrow> Authenticate bc later name q d' = (Inl InvalidCredentials, d'))"
proof -
  let ?u = "new_user now gen (UserCreateInput_Normalize input) h"
  have res: "res = Inr ?u" "d' = d\<lparr>db_users := db_users d @ [row_of_user ?u]\<rparr>"
    using us_Create_eq [OF assms(1,2), of now] assms(4) by auto
  have find: "findUser name d' = (Inr ?u, d')"
    using findUser_last [OF assms(5) row_of_user_alive, of d'] by (simp add: res)
  have u: "usr_PasswordHash ?u = h" "validateUserStatus ?u = None"
    by (simp_all add: new_user_def NewUser_def validateUserStatus_def)
  have "uci_Password input \<noteq> []"
    using assms(1) by (auto simp: user_creatable_def Let_def UserCreateInput_Validate_def UserCreateInput_Normalize_def)
  then have "Authenticate bc later name (uci_Password input) d' = (Inr ?u, snd (UpdateLastLogin later (usr_ID ?u) d'))"
    using find assms(3,6) by (simp add: Authenticate_def u)
  moreover have "Authenticate bc later name q d' = (Inl InvalidCredentials, d')" if "\<not> bc_check bc h q" for q
    using find that by (simp add: Authenticate_def u)
  ultimately show ?thesis using res(1) by blast
qed


text \<open>A stand-in for bcrypt, for the witnesses: hashing prefixes the password.\<close>

definition toy_bcrypt :: BCrypt where
  "toy_bcrypt = \<lparr>bc_hash = (\<lambda>p. Inr (CHR ''$'' # p)), bc_check = (\<lambda>h p. h = CHR ''$'' # p)\<rparr>"

definition ann_input :: UserCreateInput where
  "ann_input = \<lparr>uci_Username = '' Ann'', uci_Email = ''Ann@Example.org'', uci_Password = ''secret-99'',
     uci_DisplayName = [], uci_Role = []\<rparr>"

definition users_db :: db where
  "users_db = \<lparr>db_users = [], db_mailboxes = [], db_messages = [], db_recipients = [], db_attachments = []\<rparr>"

theorem new_user_can_log_in_witness:
  "\<exists>u d' d''. us_Create toy_bcrypt ''u7'' 3 ann_input users_db = (Inr u, d') \<and>
     Authenticate toy_bcrypt 9 ''ANN@example.org'' ''secret-99'' d' = (Inr u, d'')"
proof -
  obtain res d' where run: "us_Create toy_bcrypt ''u7'' 3 ann_input users_db = (res, d')" by fastforce
  have facts: "user_creatable ''u7'' ann_input users_db" "bc_hash toy_bcrypt (uci_Password ann_input) = Inr ''$secret-99''"
    "bc_check toy_bcrypt ''$secret-99'' (uci_Password ann_input)"
    "identifies ''ANN@example.org'' (row_of_user (new_user 3 ''u7'' (UserCreateInput_Normalize ann_input) ''$secret-99''))
       (db_users users_db)" "''ANN@example.org'' \<noteq> []" "uci_Password ann_input = ''secret-99''"
    by code_simp+
  show ?thesis
    using new_user_can_log_in [OF facts(1-3) run facts(4,5), of 9] run facts(6) by auto
qed

section \<open>What users may change\<close>

lemma GetByID_user:
  assumes "usr_GetByID i d = (Inr u, d')"
  shows "d' = d \<and> (\<exists>r \<in> set (db_users d). ur_id r = i \<and> user_alive r \<and> u = toUser r)"
proof (cases "find (\<lambda>r. ur_id r = i \<and> user_alive r) (db_users d)")
  case (Some r)
  with assms show ?thesis
    using find_SomeD [OF Some] by (auto simp: usr_GetByID_def get_user_def)
qed (use assms in \<open>simp add: usr_GetByID_def get_user_def\<close>)

lemma email_free_reads: "snd (email_free i u e d) = d"
  by (auto simp: email_free_def GetByEmail_def get_user_def Let_def split: option.splits)

text \<open>What a user without administrator rights must not be able to change by updating a profile.\<close>

definition rights :: "userRow \<Rightarrow> ID \<times> string \<times> string \<times> string \<times> string \<times> instant option" where
  "rights r = (ur_id r, ur_username r, ur_password_hash r, ur_role r, ur_status r, ur_deleted_at r)"

lemma map_update_where_on:
  "(\<And>r. r \<in> set rs \<Longrightarrow> P r \<Longrightarrow> k (f r) = k r) \<Longrightarrow> map k (update_where P f rs) = map k rs"
  by (simp add: update_where_def)

definition others_kept :: "ID \<Rightarrow> db \<Rightarrow> db \<Rightarrow> bool" where
  "others_kept i d d' \<longleftrightarrow> map rights (db_users d') = map rights (db_users d) \<and>
     filter (\<lambda>r. ur_id r \<noteq> i) (db_users d') = filter (\<lambda>r. ur_id r \<noteq> i) (db_users d) \<and>
     db_mailboxes d' = db_mailboxes d \<and> db_messages d' = db_messages d"

lemma others_kept_refl [simp]: "others_kept i d d"
  by (simp add: others_kept_def)

lemma filter_update_away:
  "(\<And>r. P r \<Longrightarrow> \<not> Q r \<and> \<not> Q (f r)) \<Longrightarrow> filter Q (update_where P f rs) = filter Q rs"
  by (induction rs) (auto simp: update_where_def)

lemma usr_Update_keeps:
  assumes "schema_ok d" and "r \<in> set (db_users d)" and "ur_id r = i"
    and "usr_ID u = i" and "usr_Username u = ur_username r" and "usr_PasswordHash u = ur_password_hash r"
    and "usr_Role u = ur_role r" and "usr_Status u = ur_status r"
  shows "others_kept i d (snd (usr_Update now u d))"
proof -
  let ?f = "\<lambda>r. r\<lparr>ur_username := usr_Username u, ur_email := usr_Email u,
       ur_password_hash := usr_PasswordHash u, ur_display_name := NullString (usr_DisplayName u),
       ur_role := usr_Role u, ur_status := usr_Status u, ur_avatar_url := NullString (usr_AvatarURL u),
       ur_signature := usr_Signature u, ur_signature_html := usr_SignatureHTML u,
       ur_last_login_at := usr_LastLoginAt u, ur_updated_at := now\<rparr>"
  let ?us = "update_where (\<lambda>r. ur_id r = usr_ID u) ?f (db_users d)"
  have only: "x = r" if "x \<in> set (db_users d)" "ur_id x = usr_ID u" for x
    using assms(1-4) that find_unique [of ur_id "db_users d" r] find_unique [of ur_id "db_users d" x]
    by (auto simp: schema_defs)
  have "map rights ?us = map rights (db_users d)"
    by (rule map_update_where_on) (use only assms(5-8) in \<open>auto simp: rights_def\<close>)
  moreover have "filter (\<lambda>r. ur_id r \<noteq> i) ?us = filter (\<lambda>r. ur_id r \<noteq> i) (db_users d)"
    by (rule filter_update_away) (simp add: assms(4))
  ultimately have "others_kept i d (d\<lparr>db_users := ?us\<rparr>)"
    by (simp add: others_kept_def)
  then show ?thesis
    by (auto simp: usr_Update_def usr_Exists_def update_users_def stmt_def andThen_def wrap_def)
qed

lemma snd_keep_exists [simp]: "snd (keep_exists msg m d) = snd (m d)"
  by (auto simp: keep_exists_def split: prod.splits sum.splits)

text \<open>
  A profile update without administrator rights never changes rights: whatever the input asks for and whether the
  call succeeds or fails, the names, password hashes, roles and statuses of all users and the rows of all
  other users stay as they were, and no mailbox or message is touched.
\<close>

theorem profile_update_keeps_rights:
  assumes "schema_ok d"
  shows "others_kept i d (snd (us_Update now i input False d))"
proof (cases "UserUpdateInput_Validate input = []")
  case False
  then show ?thesis by (simp add: us_Update_def Let_def)
next
  case True
  let ?inp = "input\<lparr>uui_Role := None, uui_Status := None\<rparr>"
  have upd: "us_Update now i input False = andThen (us_GetByID i)
    (\<lambda>user. andThen (case uui_Email input of None \<Rightarrow> ret () | Some e \<Rightarrow> email_free i user e)
    (\<lambda>_. andThen (keep_exists ''failed to update user'' (usr_Update now (UserUpdateInput_Apply now ?inp user)))
       (\<lambda>_. ret (UserUpdateInput_Apply now ?inp user))))"
    using True by (simp add: us_Update_def Let_def)
  show ?thesis
  proof (cases "usr_GetByID i d")
    case (Pair res d0)
    show ?thesis
    proof (cases res)
      case (Inl e)
      with Pair have "d0 = d" by (auto simp: usr_GetByID_def get_user_def split: option.splits)
      with Inl Pair show ?thesis by (auto simp: upd us_GetByID_def andThen_def)
    next
      case (Inr user)
      with Pair GetByID_user obtain r where r: "d0 = d" "r \<in> set (db_users d)" "ur_id r = i" "user = toUser r" by blast
      let ?u = "UserUpdateInput_Apply now ?inp user"
      have "usr_ID ?u = i" "usr_Username ?u = ur_username r" "usr_PasswordHash ?u = ur_password_hash r"
        "usr_Role ?u = ur_role r" "usr_Status ?u = ur_status r"
        by (simp_all add: UserUpdateInput_Apply_def Let_def set_opt_def r toUser_def flip: r(3) split: option.splits)
      then have kept: "others_kept i d (snd (usr_Update now ?u d))"
        by (rule usr_Update_keeps [OF assms r(2,3)])
      have email: "snd ((case uui_Email input of None \<Rightarrow> ret () | Some e \<Rightarrow> email_free i user e) d) = d"
        by (simp add: email_free_reads split: option.splits)
      have get: "us_GetByID i d = (Inr user, d)" using Pair Inr r(1) by (simp add: us_GetByID_def)
      have "others_kept i d (snd (keep_exists ''failed to update user'' (usr_Update now ?u) d))"
        using kept by simp
      then show ?thesis
        using email
        by (auto simp: upd get snd_andThen andThen_def simp del: snd_keep_exists split: prod.splits sum.splits)
    qed
  qed
qed

definition ann_db :: db where
  "ann_db = snd (us_Create toy_bcrypt ''u7'' 3 ann_input users_db)"

theorem profile_update_keeps_rights_witness:
  "others_kept ''u7'' ann_db (snd (us_Update 9 ''u7''
     \<lparr>uui_DisplayName = Some ''Root'', uui_Email = None, uui_Role = Some RoleAdmin, uui_Status = None, uui_AvatarURL = None\<rparr>
     False ann_db))"
proof -
  have "schema_ok ann_db" by code_simp
  then show ?thesis by (rule profile_update_keeps_rights)
qed

section \<open>Deleted users keep their names\<close>

definition soft_deleted :: "instant \<Rightarrow> userRow \<Rightarrow> userRow" where
  "soft_deleted now r = r\<lparr>ur_deleted_at := Some now, ur_updated_at := now\<rparr>"

definition without_user :: "instant \<Rightarrow> ID \<Rightarrow> db \<Rightarrow> db" where
  "without_user now i d =
     d\<lparr>db_users := update_where (\<lambda>r. ur_id r = i \<and> user_alive r) (soft_deleted now) (db_users d)\<rparr>"

lemma us_Delete_eq:
  assumes "schema_ok d" and "r \<in> set (db_users d)" and "user_alive r"
  shows "us_Delete now (ur_id r) d = (Inr (), without_user now (ur_id r) d)"
    and "schema_ok (without_user now (ur_id r) d)"
proof -
  show ok: "schema_ok (without_user now (ur_id r) d)"
    unfolding without_user_def using assms(1)
    by (subst schema_ok_users) (auto simp: soft_deleted_def intro!: map_update_where_on)
  have "0 < count_where (\<lambda>x. ur_id x = ur_id r \<and> user_alive x) (db_users d)"
    using assms(2,3) by (auto simp: count_where_def filter_empty_conv)
  moreover have "list_ex (\<lambda>x. ur_id x = ur_id r \<and> user_alive x) (db_users d)"
    using assms(2,3) by (auto simp: list_ex_iff)
  ultimately show "us_Delete now (ur_id r) d = (Inr (), without_user now (ur_id r) d)"
    using ok by (simp add: us_Delete_def when_exists_def usr_Exists_def SoftDelete_def expect_rows_def update_users_def
        stmt_def andThen_def wrap_def or_internal_def without_user_def soft_deleted_def [abs_def])
qed

lemma without_user_rows:
  assumes "x \<in> set (db_users (without_user now i d))"
  shows "\<exists>y \<in> set (db_users d). ur_id x = ur_id y \<and> ur_username x = ur_username y \<and> ur_email x = ur_email y \<and>
    (user_alive x \<longrightarrow> x = y \<and> ur_id y \<noteq> i)"
proof -
  from assms obtain y where "y \<in> set (db_users d)" "x = (if ur_id y = i \<and> user_alive y then soft_deleted now y else y)"
    unfolding without_user_def by (auto simp: update_where_def)
  then show ?thesis
    by (intro bexI [of _ y]) (auto simp: soft_deleted_def user_alive_def split: if_splits)
qed

lemma username_unique:
  assumes "schema_ok d" and "x \<in> set (db_users d)" and "y \<in> set (db_users d)"
    and "EqualFold (ur_username x) (ur_username y)"
  shows "x = y"
proof -
  have "inj_on (\<lambda>r. ToLower (ur_username r)) (set (db_users d))"
    using assms(1) by (simp add: schema_defs distinct_map)
  then show ?thesis using assms(2-4) by (auto simp: EqualFold_def dest: inj_onD)
qed

lemma insert_user_clash:
  assumes "x \<in> set (db_users d)" and "EqualFold (ur_username x) (ur_username r)"
  shows "insert_user r d = (Inl constraint_error, d)"
proof -
  have "ToLower (ur_username r) \<in> (\<lambda>r. ToLower (ur_username r)) ` set (db_users d)"
    using assms by (auto simp: EqualFold_def intro: rev_image_eqI)
  then show ?thesis by (simp add: insert_user_def stmt_def schema_defs)
qed

text \<open>
  The name of a deleted user cannot be used again, although no check says so. After the service deleted a
  user, \<^verbatim>\<open>ExistsByUsername\<close> answers that the name is free, but creating a user with it (a valid, otherwise
  unused input) fails on the UNIQUE column with an internal error, not with an already-exists error.
\<close>

theorem deleted_name_not_reusable:
  assumes "schema_ok d" and "r \<in> set (db_users d)" and "user_alive r"
    and "UserCreateInput_Validate (UserCreateInput_Normalize input) = []"
    and "EqualFold (ur_username r) (uci_Username (UserCreateInput_Normalize input))"
    and "list_all (\<lambda>x. \<not> EqualFold (ur_email x) (uci_Email (UserCreateInput_Normalize input))) (db_users d)"
    and "bc_hash bc (uci_Password input) = Inr h"
  shows "\<exists>d' e. us_Delete now (ur_id r) d = (Inr (), d') \<and>
    ExistsByUsername (uci_Username (UserCreateInput_Normalize input)) d' = (Inr False, d') \<and>
    us_Create bc gen now input d' = (Inl e, d') \<and> \<not> IsAlreadyExists e \<and> errors_Is e ErrInternal"
proof -
  let ?inp = "UserCreateInput_Normalize input"
  let ?d = "without_user now (ur_id r) d"
  let ?u = "new_user now gen ?inp h"
  have pw: "uci_Password ?inp = uci_Password input" by (simp add: UserCreateInput_Normalize_def)
  have names: "usr_Username ?u = uci_Username ?inp" "usr_Email ?u = uci_Email ?inp"
    by (simp_all add: new_user_def NewUser_def)
  have no_name: "\<not> list_ex (\<lambda>x. EqualFold (ur_username x) (uci_Username ?inp) \<and> user_alive x) (db_users ?d)"
  proof
    assume "list_ex (\<lambda>x. EqualFold (ur_username x) (uci_Username ?inp) \<and> user_alive x) (db_users ?d)"
    then obtain x where "x \<in> set (db_users ?d)" "EqualFold (ur_username x) (uci_Username ?inp)" "user_alive x"
      by (auto simp: list_ex_iff)
    then show False
      using without_user_rows [of x now "ur_id r" d] username_unique [OF assms(1,2), of x] assms(5)
      by (auto simp: EqualFold_def)
  qed
  have no_email: "\<not> list_ex (\<lambda>x. EqualFold (ur_email x) (ToLower (uci_Email ?inp)) \<and> user_alive x) (db_users ?d)"
  proof
    assume "list_ex (\<lambda>x. EqualFold (ur_email x) (ToLower (uci_Email ?inp)) \<and> user_alive x) (db_users ?d)"
    then obtain x where "x \<in> set (db_users ?d)" "EqualFold (ur_email x) (ToLower (uci_Email ?inp))"
      by (auto simp: list_ex_iff)
    then show False
      using without_user_rows [of x now "ur_id r" d] assms(6) by (auto simp: list_all_iff EqualFold_def)
  qed
  have rows: "db_users ?d = map (\<lambda>x. if ur_id x = ur_id r \<and> user_alive x then soft_deleted now x else x) (db_users d)"
    by (simp add: without_user_def update_where_def)
  have "(if ur_id r = ur_id r \<and> user_alive r then soft_deleted now r else r) \<in> set (db_users ?d)"
    unfolding rows set_map by (rule imageI) (rule assms(2))
  then obtain x where x: "x \<in> set (db_users ?d)" "ur_username x = ur_username r"
    by (rule that) (simp add: soft_deleted_def)
  then have clash: "insert_user (row_of_user ?u) ?d = (Inl constraint_error, ?d)"
    using assms(5) by (intro insert_user_clash [of x]) (simp_all add: row_of_user_def names)
  have "us_Create bc gen now input ?d =
      (Inl (InternalError ''failed to create user'' (Some (Wrapped ''failed to create user'' constraint_error))), ?d)"
    using assms(4,7) no_name no_email clash
    by (simp add: us_Create_def Let_def or_internal_def ExistsByUsername_def ExistsByEmail_def andThen_def pw
        keep_exists_def usr_Create_def names wrap_def IsAlreadyExists_def constraint_error_def)
  then show ?thesis
    using us_Delete_eq(1) [OF assms(1-3), of now] no_name
    by (auto simp: ExistsByUsername_def IsAlreadyExists_def constraint_error_def)
qed

theorem deleted_name_not_reusable_witness:
  "\<exists>d' e. us_Delete 9 ''u7'' ann_db = (Inr (), d') \<and>
    us_Create toy_bcrypt ''u8'' 9 (ann_input\<lparr>uci_Email := ''other@x''\<rparr>) d' = (Inl e, d') \<and> \<not> IsAlreadyExists e"
proof -
  let ?r = "hd (db_users ann_db)" and ?inp = "ann_input\<lparr>uci_Email := ''other@x''\<rparr>"
  have facts: "schema_ok ann_db" "?r \<in> set (db_users ann_db)" "user_alive ?r"
    "UserCreateInput_Validate (UserCreateInput_Normalize ?inp) = []"
    "EqualFold (ur_username ?r) (uci_Username (UserCreateInput_Normalize ?inp))"
    "list_all (\<lambda>x. \<not> EqualFold (ur_email x) (uci_Email (UserCreateInput_Normalize ?inp))) (db_users ann_db)"
    "bc_hash toy_bcrypt (uci_Password ?inp) = Inr ''$secret-99''" "ur_id ?r = ''u7''"
    by code_simp+
  show ?thesis
    using deleted_name_not_reusable [OF facts(1-7), of 9 "''u8''"] facts(8) by auto
qed

end
