(* ===== verification/Smtp_Session.thy ===== *)
theory Smtp_Session
  imports Mailbox_Rules Smtp_Ratelimit User_Service
begin

text \<open>
  The SMTP backend and session of \<^verbatim>\<open>internal/smtp/backend.go\<close>, \<^verbatim>\<open>internal/smtp/session.go\<close> and the SASL servers of
  \<^verbatim>\<open>internal/smtp/auth.go\<close>: accepting a connection, authentication, MAIL, RCPT and DATA, the delivery of a
  message to the mailboxes of its recipients, RSET and the end of the session.

  The state is the server (database, rate limiter, statistics, notifications) and the session. What is
  outside the repository is a field of \<open>Backend\<close>: bcrypt, the MIME parser, the UUID generator (\<open>bk_gen k\<close> is
  the \<open>k\<close>-th UUID of the process), the storage backend, the rendering of the date, and whether the relay host
  takes a message. A handler reads the clock once. Logging, metrics and the asynchronous webhook are left
  out, and the pauses of \<^verbatim>\<open>applyBackoff\<close> do not move the clock of the handler.
\<close>

section \<open>Data\<close>

record SmtpConfig =
  sc_Domain :: string
  sc_LocalDomains :: "string list"
  sc_MaxMessageSize :: int
  sc_MaxRecipients :: int
  sc_AuthRequired :: bool

definition IsLocalDomain :: "SmtpConfig \<Rightarrow> string \<Rightarrow> bool" where
  "IsLocalDomain c domain \<longleftrightarrow> list_ex (\<lambda>d. EqualFold d domain) (sc_LocalDomains c) \<or> EqualFold (sc_Domain c) domain"

text \<open>The repositories and services a backend may lack are flags.\<close>

record Backend =
  bk_config :: SmtpConfig
  bk_mailboxRepo :: bool
  bk_messageRepo :: bool
  bk_attachmentRepo :: bool
  bk_authenticator :: bool
  bk_notifyService :: bool
  bk_bcrypt :: BCrypt
  bk_parse :: "bytes \<Rightarrow> error + ParsedMessage"
  bk_gen :: "nat \<Rightarrow> string"
  bk_storage :: "storage_backend option"
  bk_relay :: "(string \<Rightarrow> string list \<Rightarrow> bytes \<Rightarrow> bool) option"
  bk_date :: "instant \<Rightarrow> string"

record Stats =
  st_connectionsOpen :: int
  st_connectionsTotal :: int
  st_messagesTotal :: int
  st_rateLimitRejected :: int
  st_relayAttemptsTotal :: int
  st_relaySuccessesTotal :: int
  st_relayFailuresTotal :: int

definition NewStats :: Stats where
  "NewStats = \<lparr>st_connectionsOpen = 0, st_connectionsTotal = 0, st_messagesTotal = 0, st_rateLimitRejected = 0,
     st_relayAttemptsTotal = 0, st_relaySuccessesTotal = 0, st_relayFailuresTotal = 0\<rparr>"

definition ConnectionOpened :: "Stats \<Rightarrow> Stats" where
  "ConnectionOpened s = s\<lparr>st_connectionsOpen := st_connectionsOpen s + 1,
     st_connectionsTotal := st_connectionsTotal s + 1\<rparr>"

definition ConnectionClosed :: "Stats \<Rightarrow> Stats" where
  "ConnectionClosed s =
     (if st_connectionsOpen s > 0 then s\<lparr>st_connectionsOpen := st_connectionsOpen s - 1\<rparr> else s)"

record Server =
  sv_db :: db
  sv_limiter :: "RateLimiter option"
  sv_stats :: Stats
  sv_uuids :: nat
  sv_notices :: "NewMessageNotice list"

record recipientInfo =
  ri_address :: string
  ri_mailbox :: "Mailbox option"

text \<open>\<open>ss_secure\<close> is \<^verbatim>\<open>security.IsSecure()\<close>; the options of MAIL are reduced to their size.\<close>

record Session =
  ss_remoteAddr :: string
  ss_hostname :: string
  ss_from :: string
  ss_fromOpts :: "int option"
  ss_recipients :: "recipientInfo list"
  ss_messageSize :: int
  ss_mailFromReceived :: bool
  ss_rateLimitExceeded :: bool
  ss_authenticated :: bool
  ss_authUser :: "User option"
  ss_secure :: bool

text \<open>The error a handler returns; \<open>None\<close> is nil, which go-smtp answers with a positive reply.\<close>

datatype smtp_failure =
    Smtp SMTPError | AuthFailure AuthenticationError | ErrAuthUnsupported | PlainError string

definition reject :: "int \<Rightarrow> int \<times> int \<times> int \<Rightarrow> string \<Rightarrow> smtp_failure option" where
  "reject c ec msg = Some (Smtp (smtp_error c ec msg))"

section \<open>Connections\<close>

definition backoff_server :: "instant \<Rightarrow> string \<Rightarrow> Server \<Rightarrow> Server" where
  "backoff_server now remoteAddr sv =
     sv\<lparr>sv_limiter := map_option (\<lambda>rl. snd (applyBackoff now (extractIP remoteAddr) rl)) (sv_limiter sv)\<rparr>"

definition count_rejected :: "Server \<Rightarrow> Server" where
  "count_rejected sv = sv\<lparr>sv_stats := (sv_stats sv)\<lparr>st_rateLimitRejected := st_rateLimitRejected (sv_stats sv) + 1\<rparr>\<rparr>"

definition new_session :: "string \<Rightarrow> string \<Rightarrow> Session" where
  "new_session remoteAddr hostname =
     \<lparr>ss_remoteAddr = remoteAddr, ss_hostname = hostname, ss_from = [], ss_fromOpts = None, ss_recipients = [],
      ss_messageSize = 0, ss_mailFromReceived = False, ss_rateLimitExceeded = False,
      ss_authenticated = False, ss_authUser = None, ss_secure = False\<rparr>"

definition NewSession :: "instant \<Rightarrow> string \<Rightarrow> string \<Rightarrow> Server \<Rightarrow> Session \<times> Server" where
  "NewSession now remoteAddr hostname sv =
     (let (exceeded, sv) =
        (case sv_limiter sv of
           None \<Rightarrow> (False, sv)
         | Some rl \<Rightarrow>
             (case CheckConnection now remoteAddr rl of
                (Some _, rl') \<Rightarrow> (True, count_rejected (backoff_server now remoteAddr (sv\<lparr>sv_limiter := Some rl'\<rparr>)))
              | (None, rl') \<Rightarrow> (False, sv\<lparr>sv_limiter := Some (OnConnectionOpened remoteAddr rl')\<rparr>)))
      in ((new_session remoteAddr hostname)\<lparr>ss_rateLimitExceeded := exceeded\<rparr>,
          sv\<lparr>sv_stats := ConnectionOpened (sv_stats sv)\<rparr>))"

definition Logout :: "Session \<Rightarrow> Server \<Rightarrow> Server" where
  "Logout s sv = sv\<lparr>sv_stats := ConnectionClosed (sv_stats sv),
     sv_limiter := map_option (OnConnectionClosed (ss_remoteAddr s)) (sv_limiter sv)\<rparr>"

definition Session_Reset :: "Session \<Rightarrow> Session" where
  "Session_Reset s = s\<lparr>ss_from := [], ss_fromOpts := None, ss_recipients := [], ss_messageSize := 0,
     ss_mailFromReceived := False\<rparr>"

section \<open>Authentication\<close>

definition SupportedAuthMechanisms :: "string list" where
  "SupportedAuthMechanisms = [''PLAIN'', ''LOGIN'']"

definition AuthMechanisms :: "Backend \<Rightarrow> string list" where
  "AuthMechanisms b = (if bk_authenticator b then SupportedAuthMechanisms else [])"

datatype sasl = PlainServer | LoginServer "string option"

text \<open>A LOGIN server waits for the user name (\<open>None\<close>) or, knowing it, for the password.\<close>

definition Auth :: "Backend \<Rightarrow> string \<Rightarrow> smtp_failure + sasl" where
  "Auth b mech =
     (if \<not> bk_authenticator b then Inl ErrAuthUnsupported
      else if mech = ''PLAIN'' then Inr PlainServer
      else if mech = ''LOGIN'' then Inr (LoginServer None)
      else Inl ErrAuthUnsupported)"

definition check_password ::
  "Backend \<Rightarrow> instant \<Rightarrow> string \<Rightarrow> string \<Rightarrow> Session \<Rightarrow> Server \<Rightarrow> smtp_failure option \<times> Session \<times> Server" where
  "check_password b now username password s sv =
     (if (case sv_limiter sv of None \<Rightarrow> False | Some rl \<Rightarrow> IsAuthBlocked now (ss_remoteAddr s) rl)
      then (reject 421 (4, 7, 0) ''Too many authentication failures, try again later'', s,
            backoff_server now (ss_remoteAddr s) sv)
      else case Authenticate (bk_bcrypt b) now username password (sv_db sv) of
        (Inl e, d) \<Rightarrow>
          (Some (AuthFailure e), s,
           sv\<lparr>sv_db := d, sv_limiter := map_option (RecordAuthFailure now (ss_remoteAddr s)) (sv_limiter sv)\<rparr>)
      | (Inr user, d) \<Rightarrow>
          (None, s\<lparr>ss_authenticated := True, ss_authUser := Some user\<rparr>, sv\<lparr>sv_db := d\<rparr>))"

definition splitNull :: "string \<Rightarrow> string list" where
  "splitNull data = Split data (char_of (0::nat))"

text \<open>
  One message of the SASL exchange. The result is the challenge for the client or the end of the exchange
  with its error, and the SASL server for the next message.
\<close>

definition sasl_Next ::
  "Backend \<Rightarrow> instant \<Rightarrow> sasl \<Rightarrow> string \<Rightarrow> Session \<Rightarrow> Server \<Rightarrow> (string + smtp_failure option) \<times> sasl \<times> Session \<times> Server" where
  "sasl_Next b now srv response s sv =
     (case srv of
        PlainServer \<Rightarrow>
          (case splitNull response of
             [identity, username, password] \<Rightarrow>
               (case check_password b now username password s sv of (r, s', sv') \<Rightarrow> (Inr r, srv, s', sv'))
           | _ \<Rightarrow> (Inr (Some (PlainError ''invalid PLAIN response format'')), srv, s, sv))
      | LoginServer None \<Rightarrow>
          if response = [] then (Inl ''Username:'', srv, s, sv)
          else (Inl ''Password:'', LoginServer (Some response), s, sv)
      | LoginServer (Some username) \<Rightarrow>
          (case check_password b now username response s sv of (r, s', sv') \<Rightarrow> (Inr r, srv, s', sv')))"

section \<open>The envelope\<close>

definition extractAddress :: "string \<Rightarrow> string" where
  "extractAddress addr =
     (let addr = TrimSpace addr in
      if HasPrefix addr ''<'' \<and> HasSuffix addr ''>'' then butlast (tl addr) else addr)"

definition isValidEmailFormat :: "string \<Rightarrow> bool" where
  "isValidEmailFormat email \<longleftrightarrow>
     email \<noteq> [] \<and> CHR ''@'' \<in> set email \<and> hd email \<noteq> CHR ''@'' \<and>
     length (takeWhile (\<lambda>c. c \<noteq> CHR ''@'') email) \<noteq> length email - 1 \<and>
     count_list email CHR ''@'' = 1 \<and>
     \<not> ContainsAny email [CHR '' '', char_of (9::nat), char_of (13::nat), char_of (10::nat)]"

definition Mail ::
  "Backend \<Rightarrow> string \<Rightarrow> int option \<Rightarrow> Session \<Rightarrow> smtp_failure option \<times> Session" where
  "Mail b from opts s =
     (if ss_rateLimitExceeded s
      then (reject 421 (4, 4, 5) ''Too many connections, try again later'', s)
      else if sc_AuthRequired (bk_config b) \<and> \<not> ss_authenticated s
      then (reject 530 (5, 7, 0) ''Authentication required'', s)
      else
        let s = (Session_Reset s)\<lparr>ss_mailFromReceived := True\<rparr>;
            address = (if from = [] then [] else extractAddress from)
        in if from \<noteq> [] \<and> \<not> isValidEmailFormat address
           then (reject 553 (5, 1, 3) ''invalid sender address format'', s)
           else
             let s = s\<lparr>ss_from := address\<rparr>; maxSize = sc_MaxMessageSize (bk_config b) in
             case opts of
               None \<Rightarrow> (None, s\<lparr>ss_fromOpts := None\<rparr>)
             | Some size_opt \<Rightarrow>
                 if size_opt > 0 \<and> maxSize > 0 \<and> size_opt > maxSize
                 then (reject 552 (5, 3, 4) (''message size '' @ fmt_int size_opt @ '' exceeds maximum '' @ fmt_int maxSize), s)
                 else (None, (if size_opt > 0 then s\<lparr>ss_messageSize := size_opt\<rparr> else s)\<lparr>ss_fromOpts := Some size_opt\<rparr>))"

definition validateRecipient :: "Backend \<Rightarrow> string \<Rightarrow> db \<Rightarrow> smtp_failure option" where
  "validateRecipient b address d =
     (if \<not> bk_mailboxRepo b then None
      else case fst (FindMatchingMailbox address d) of
        Inr _ \<Rightarrow> None
      | Inl e \<Rightarrow> if IsNotFound e then reject 550 (5, 1, 1) (''mailbox unavailable: '' @ address)
                 else reject 451 (4, 0, 0) ''temporary failure, please try again later'')"

definition getMailbox :: "Backend \<Rightarrow> string \<Rightarrow> db \<Rightarrow> Mailbox option" where
  "getMailbox b address d =
     (if \<not> bk_mailboxRepo b then None
      else case fst (FindMatchingMailbox address d) of Inr m \<Rightarrow> Some m | Inl _ \<Rightarrow> None)"

definition Rcpt :: "Backend \<Rightarrow> string \<Rightarrow> Session \<Rightarrow> db \<Rightarrow> smtp_failure option \<times> Session" where
  "Rcpt b to s d =
     (let to = extractAddress to; maxRecipients = sc_MaxRecipients (bk_config b) in
      if maxRecipients > 0 \<and> int (length (ss_recipients s)) \<ge> maxRecipients
      then (reject 452 (4, 5, 3) (''too many recipients, maximum is '' @ fmt_int maxRecipients), s)
      else if \<not> isValidEmailFormat to then (reject 553 (5, 1, 3) ''invalid recipient address format'', s)
      else if list_ex (\<lambda>r. EqualFold (ri_address r) to) (ss_recipients s) then (None, s)
      else case validateRecipient b to d of
        Some err \<Rightarrow>
          if bk_mailboxRepo b \<and> \<not> ss_authenticated s \<and> CHR ''@'' \<in> set to \<and>
             \<not> IsLocalDomain (bk_config b) (after_last to CHR ''@'')
          then (reject 550 (5, 7, 1) ''Relaying denied'', s)
          else (Some err, s)
      | None \<Rightarrow>
          (None, s\<lparr>ss_recipients := ss_recipients s @ [\<lparr>ri_address = to, ri_mailbox = getMailbox b to d\<rparr>]\<rparr>))"

section \<open>The message\<close>

definition to_bytes :: "string \<Rightarrow> bytes" where
  "to_bytes s = map of_char s"

definition receivedProtocol :: "Session \<Rightarrow> string" where
  "receivedProtocol s =
     (if ss_secure s \<and> ss_authenticated s then ''ESMTPSA''
      else if ss_secure s then ''ESMTPS''
      else if ss_authenticated s then ''ESMTPA'' else ''ESMTP'')"

definition crlf :: string where
  "crlf = [char_of (13::nat), char_of (10::nat)]"

definition received_header :: "Backend \<Rightarrow> instant \<Rightarrow> Session \<Rightarrow> ID \<Rightarrow> string" where
  "received_header b now s msgID =
     ''Received: from '' @ ss_hostname s @ '' ('' @ ss_remoteAddr s @ '')'' @ crlf @
     [char_of (9::nat)] @ ''by '' @ sc_Domain (bk_config b) @ '' with '' @ receivedProtocol s @ '' id '' @ msgID @ '';'' @
     crlf @ [char_of (9::nat)] @ bk_date b now @ crlf"

text \<open>\<open>k\<close> is the number of UUIDs used so far; a message takes two, one for its ID and one for its Message-ID.\<close>

definition createMessage ::
  "Backend \<Rightarrow> instant \<Rightarrow> nat \<Rightarrow> Session \<Rightarrow> ID \<Rightarrow> bytes \<Rightarrow> string list \<Rightarrow> Message" where
  "createMessage b now k s mailboxID data recipients =
     (let msgID = bk_gen b k; data = to_bytes (received_header b now s msgID) @ data in
      (NewMessage now msgID mailboxID)
        \<lparr>msg_From := \<lparr>ea_Name = [], ea_Address = ss_from s\<rparr>, msg_Size := int (length data), msg_RawBody := data,
         msg_ReceivedAt := now, msg_To := map (\<lambda>a. \<lparr>ea_Name = [], ea_Address = a\<rparr>) recipients,
         msg_MessageID := bk_gen b (Suc k) @ ''@'' @ sc_Domain (bk_config b)\<rparr>)"

text \<open>The zero \<^verbatim>\<open>time.Time\<close> is the first instant of year 1.\<close>

definition zero_time :: instant where
  "zero_time = - 62135596800 * Second"

definition ApplyTo :: "ParsedMessage \<Rightarrow> Message \<Rightarrow> Message" where
  "ApplyTo p m =
     (let m = m\<lparr>msg_Subject := pm_Subject p\<rparr>;
          m = (if ea_Address (pm_From p) \<noteq> [] then m\<lparr>msg_From := pm_From p\<rparr>
               else if ea_Name (pm_From p) \<noteq> [] then m\<lparr>msg_From := (msg_From m)\<lparr>ea_Name := ea_Name (pm_From p)\<rparr>\<rparr>
               else m);
          m = (if pm_To p \<noteq> [] then m\<lparr>msg_To := pm_To p\<rparr> else m);
          m = m\<lparr>msg_Cc := pm_Cc p, msg_Bcc := pm_Bcc p, msg_ReplyTo := pm_ReplyTo p,
                msg_TextBody := pm_TextBody p, msg_HTMLBody := pm_HTMLBody p, msg_InReplyTo := pm_InReplyTo p\<rparr>;
          m = (if pm_References p \<noteq> [] then m\<lparr>msg_References := pm_References p\<rparr> else m);
          m = (if pm_Headers p \<noteq> [] then m\<lparr>msg_Headers := pm_Headers p\<rparr> else m);
          m = (if pm_ContentType p \<noteq> [] then m\<lparr>msg_ContentType := pm_ContentType p\<rparr> else m);
          m = m\<lparr>msg_AttachmentCount := int (length (pm_Attachments p))\<rparr>;
          m = (if pm_MessageID p \<noteq> [] then m\<lparr>msg_MessageID := pm_MessageID p\<rparr> else m)
      in (case pm_Date p of
            None \<Rightarrow> m | Some t \<Rightarrow> if t = zero_time then m else m\<lparr>msg_SentAt := Some t\<rparr>))"

text \<open>An attachment that cannot be stored is logged and passed over; each one takes a UUID.\<close>

fun smtp_storeAttachments ::
  "Backend \<Rightarrow> instant \<Rightarrow> nat \<Rightarrow> ID \<Rightarrow> AttachmentData list \<Rightarrow> db \<Rightarrow> db" where
  "smtp_storeAttachments b now k messageID [] d = d"
| "smtp_storeAttachments b now k messageID (att # rest) d =
     smtp_storeAttachments b now (Suc k) messageID rest
       (snd (CreateWithContent (bk_storage b)
          \<lparr>at_ID = bk_gen b k, at_MessageID = messageID, at_Filename = ad_Filename att,
           at_ContentType = ad_ContentType att, at_Size = int (length (ad_Data att)),
           at_ContentID = ad_ContentID att, at_Disposition = ad_Disposition att, at_StoragePath = [],
           at_Checksum = [], at_IsInline = ad_IsInline att, at_CreatedAt = now\<rparr> (ad_Data att) d))"

text \<open>The message with what its MIME content says, and its attachments.\<close>

definition parsed_message :: "Backend \<Rightarrow> Message \<Rightarrow> Message \<times> AttachmentData list" where
  "parsed_message b m =
     (if msg_RawBody m = [] then (m, [])
      else case bk_parse b (msg_RawBody m) of
        Inl _ \<Rightarrow> (m, [])
      | Inr p \<Rightarrow>
          let envelopeFrom = ea_Address (msg_From m); m = ApplyTo p m in
          (if ea_Address (msg_From m) = [] then m\<lparr>msg_From := (msg_From m)\<lparr>ea_Address := envelopeFrom\<rparr>\<rparr> else m,
           pm_Attachments p))"

definition storeMessage :: "Backend \<Rightarrow> instant \<Rightarrow> Message \<Rightarrow> Server \<Rightarrow> (error + unit) \<times> Server" where
  "storeMessage b now m sv =
     (if \<not> bk_messageRepo b then (Inr (), sv)
      else let (m, atts) = parsed_message b m in
        case Create now m (sv_db sv) of
          (Inl e, d) \<Rightarrow> (Inl e, sv\<lparr>sv_db := d\<rparr>)
        | (Inr m, d) \<Rightarrow>
            let stored = atts \<noteq> [] \<and> bk_attachmentRepo b;
                d = (if stored then smtp_storeAttachments b now (sv_uuids sv) (msg_ID m) atts d else d);
                sv = sv\<lparr>sv_db := d, sv_uuids := (if stored then sv_uuids sv + length atts else sv_uuids sv)\<rparr>;
                count = (case fst (CountByMailbox (msg_MailboxID m) d) of Inr c \<Rightarrow> word_of_int c | Inl _ \<Rightarrow> 0)
            in (Inr (),
                if bk_notifyService b \<and> \<not> ID_IsEmpty (msg_MailboxID m)
                then sv\<lparr>sv_notices := sv_notices sv @
                       [\<lparr>nn_MailboxID = msg_MailboxID m, nn_UserID = msg_MailboxID m, nn_MessageID = msg_ID m,
                         nn_SeqNum = 0, nn_UID = 0, nn_MessageCount = count\<rparr>]\<rparr>
                else sv))"

text \<open>
  The loop over the recipients: one copy per mailbox, whether or not it can be stored. \<open>seen\<close> are the IDs of
  the mailboxes served so far.
\<close>

fun deliver_all ::
  "Backend \<Rightarrow> instant \<Rightarrow> Session \<Rightarrow> bytes \<Rightarrow> string list \<Rightarrow> ID list \<Rightarrow> recipientInfo list \<Rightarrow> Server \<Rightarrow> Server" where
  "deliver_all b now s data addrs seen [] sv = sv"
| "deliver_all b now s data addrs seen (r # rs) sv =
     (case ri_mailbox r of
        None \<Rightarrow> deliver_all b now s data addrs seen rs sv
      | Some mb \<Rightarrow>
          if mb_ID mb \<in> set seen then deliver_all b now s data addrs seen rs sv
          else let m = createMessage b now (sv_uuids sv) s (mb_ID mb) data addrs;
                   sv = sv\<lparr>sv_uuids := sv_uuids sv + 2\<rparr>
               in deliver_all b now s data addrs (mb_ID mb # seen) rs (snd (storeMessage b now m sv)))"

text \<open>
  The reader of the message text gives its chunks and then ends, with an error or without.
  \<open>limited_read\<close> is \<^verbatim>\<open>io.ReadAll\<close> on a \<^verbatim>\<open>limitedReader\<close>: the bytes, whether the limit was exceeded, and the error.
\<close>

fun limited_read :: "int \<Rightarrow> int \<Rightarrow> bytes list \<Rightarrow> error option \<Rightarrow> bytes \<times> bool \<times> error option" where
  "limited_read maxSize readSize [] err = ([], False, err)"
| "limited_read maxSize readSize (c # cs) err =
     (let readSize = readSize + int (length c) in
      if readSize > maxSize then (c, True, None)
      else case limited_read maxSize readSize cs err of (data, exceeded, e) \<Rightarrow> (c @ data, exceeded, e))"

definition read_data :: "Backend \<Rightarrow> bytes list \<Rightarrow> error option \<Rightarrow> bytes \<times> bool \<times> error option" where
  "read_data b chunks err =
     (let maxSize = sc_MaxMessageSize (bk_config b) in
      if maxSize > 0 then limited_read maxSize 0 chunks err else (concat chunks, False, err))"

definition relayMessage :: "Backend \<Rightarrow> Session \<Rightarrow> bytes \<Rightarrow> string list \<Rightarrow> Server \<Rightarrow> Server" where
  "relayMessage b s data recipients sv =
     (case bk_relay b of
        None \<Rightarrow> sv
      | Some relay \<Rightarrow>
          let st = (sv_stats sv)\<lparr>st_relayAttemptsTotal := st_relayAttemptsTotal (sv_stats sv) + 1\<rparr> in
          sv\<lparr>sv_stats := (if relay (ss_from s) recipients data
                          then st\<lparr>st_relaySuccessesTotal := st_relaySuccessesTotal st + 1\<rparr>
                          else st\<lparr>st_relayFailuresTotal := st_relayFailuresTotal st + 1\<rparr>)\<rparr>)"

definition rate_verdict :: "instant \<Rightarrow> Session \<Rightarrow> Server \<Rightarrow> (SMTPError \<times> Server) option" where
  "rate_verdict now s sv =
     (case sv_limiter sv of
        None \<Rightarrow> None
      | Some rl \<Rightarrow>
          (case CheckMessage now (ss_remoteAddr s) rl of
             Some e \<Rightarrow> Some (e, count_rejected (backoff_server now (ss_remoteAddr s) sv))
           | None \<Rightarrow>
               (case (ss_authenticated s, ss_authUser s) of
                  (True, Some u) \<Rightarrow>
                    (case CheckUserMessage now (usr_Username u) rl of
                       Some e \<Rightarrow> Some (e, count_rejected sv) | None \<Rightarrow> None)
                | _ \<Rightarrow> None)))"

definition count_sent :: "instant \<Rightarrow> Session \<Rightarrow> RateLimiter \<Rightarrow> RateLimiter" where
  "count_sent now s rl =
     (let rl = OnMessageSent now (ss_remoteAddr s) rl in
      case (ss_authenticated s, ss_authUser s) of
        (True, Some u) \<Rightarrow> OnUserMessageSent now (usr_Username u) rl | _ \<Rightarrow> rl)"

definition Data ::
  "Backend \<Rightarrow> instant \<Rightarrow> bytes list \<Rightarrow> error option \<Rightarrow> Session \<Rightarrow> Server \<Rightarrow> smtp_failure option \<times> Server" where
  "Data b now chunks read_err s sv =
     (if \<not> ss_mailFromReceived s then (reject 503 (5, 5, 1) ''need MAIL command'', sv)
      else if ss_recipients s = [] then (reject 503 (5, 5, 1) ''no valid recipients'', sv)
      else case rate_verdict now s sv of
        Some (e, sv') \<Rightarrow> (Some (Smtp e), sv')
      | None \<Rightarrow>
          let (data, exceeded, err) = read_data b chunks read_err in
          if exceeded
          then (reject 552 (5, 3, 4)
                 (''message size exceeds maximum '' @ fmt_int (sc_MaxMessageSize (bk_config b)) @ '' bytes''), sv)
          else if err \<noteq> None then (reject 451 (4, 0, 0) ''error reading message data'', sv)
          else
            let addrs = map ri_address (ss_recipients s);
                sv = deliver_all b now s data addrs [] (ss_recipients s) sv;
                sv = sv\<lparr>sv_stats := (sv_stats sv)\<lparr>st_messagesTotal := st_messagesTotal (sv_stats sv) + 1\<rparr>,
                        sv_limiter := map_option (count_sent now s) (sv_limiter sv)\<rparr>
            in (None, relayMessage b s data addrs sv))"

end
