(* ===== verification/Smtp_Delivery.thy ===== *)
theory Smtp_Delivery
  imports Smtp_Session
begin

text \<open>
  What the SMTP server guarantees: the states a session can reach and who can deliver, one copy of an
  accepted message in every mailbox it is addressed to, and where the code loses mail or count of its connections.
\<close>

section \<open>Sessions\<close>

text \<open>
  What one session can see: its own commands, in any order and as often as the client likes (go-smtp
  enforces no more than that), and arbitrary changes of the server state by other sessions in between.
\<close>

inductive session_step :: "Backend \<Rightarrow> Session \<times> Server \<Rightarrow> Session \<times> Server \<Rightarrow> bool" for b where
  mail: "Mail b from opts s = (r, s') \<Longrightarrow> session_step b (s, sv) (s', sv)"
| rcpt: "Rcpt b to s (sv_db sv) = (r, s') \<Longrightarrow> session_step b (s, sv) (s', sv)"
| data: "Data b now chunks err s sv = (r, sv') \<Longrightarrow> session_step b (s, sv) (s, sv')"
| rset: "session_step b (s, sv) (Session_Reset s, sv)"
| auth: "sasl_Next b now srv response s sv = (r, srv', s', sv') \<Longrightarrow> session_step b (s, sv) (s', sv')"
| environment: "session_step b (s, sv) (s, sv')"

inductive_cases session_stepE: "session_step b x y"

definition session_init :: "Session \<times> Server \<Rightarrow> bool" where
  "session_init x \<longleftrightarrow> (\<exists>now addr host sv. x = NewSession now addr host sv)"

definition session_ok :: "Backend \<Rightarrow> Session \<Rightarrow> bool" where
  "session_ok b s \<longleftrightarrow>
     (sc_MaxRecipients (bk_config b) > 0 \<longrightarrow> int (length (ss_recipients s)) \<le> sc_MaxRecipients (bk_config b)) \<and>
     distinct (map (\<lambda>r. ToLower (ri_address r)) (ss_recipients s)) \<and>
     list_all (\<lambda>r. isValidEmailFormat (ri_address r)) (ss_recipients s) \<and>
     (ss_mailFromReceived s \<longrightarrow> \<not> ss_rateLimitExceeded s) \<and>
     (ss_mailFromReceived s \<and> sc_AuthRequired (bk_config b) \<longrightarrow> ss_authenticated s) \<and>
     (ss_authenticated s \<longrightarrow> (\<exists>u. ss_authUser s = Some u \<and> usr_Status u = StatusActive))"

lemma session_ok_Reset: "session_ok b s \<Longrightarrow> session_ok b (Session_Reset s)"
  by (simp add: session_ok_def Session_Reset_def)

lemma session_ok_Mail:
  assumes "session_ok b s" and "Mail b from opts s = (r, s')"
  shows "session_ok b s'"
  using assms
  by (auto simp: Mail_def session_ok_def Session_Reset_def Let_def split: if_splits option.splits)

lemma session_ok_Rcpt:
  assumes "session_ok b s" and "Rcpt b to s d = (r, s')"
  shows "session_ok b s'"
proof -
  have "s' = s \<or> (\<exists>a m. s' = s\<lparr>ss_recipients := ss_recipients s @ [\<lparr>ri_address = a, ri_mailbox = m\<rparr>]\<rparr> \<and>
      isValidEmailFormat a \<and> \<not> list_ex (\<lambda>r. EqualFold (ri_address r) a) (ss_recipients s) \<and>
      (sc_MaxRecipients (bk_config b) > 0 \<longrightarrow> int (length (ss_recipients s)) < sc_MaxRecipients (bk_config b)))"
    using assms(2) by (auto simp: Rcpt_def Let_def split: if_splits option.splits)
  then show ?thesis
  proof (elim disjE exE conjE)
    fix a m
    assume s': "s' = s\<lparr>ss_recipients := ss_recipients s @ [\<lparr>ri_address = a, ri_mailbox = m\<rparr>]\<rparr>"
      and "isValidEmailFormat a" and new: "\<not> list_ex (\<lambda>r. EqualFold (ri_address r) a) (ss_recipients s)"
      and "sc_MaxRecipients (bk_config b) > 0 \<longrightarrow> int (length (ss_recipients s)) < sc_MaxRecipients (bk_config b)"
    moreover have "ToLower a \<notin> (\<lambda>r. ToLower (ri_address r)) ` set (ss_recipients s)"
      using new by (auto simp: list_ex_iff EqualFold_def)
    ultimately show ?thesis
      using assms(1) by (auto simp: session_ok_def)
  qed (use assms(1) in simp)
qed

lemma Authenticate_active: "Authenticate bc now u p d = (Inr user, d') \<Longrightarrow> usr_Status user = StatusActive"
  by (auto simp: Authenticate_def validateUserStatus_def split: if_splits prod.splits sum.splits option.splits)

lemma session_ok_check_password:
  assumes "session_ok b s" and "check_password b now u p s sv = (r, s', sv')"
  shows "session_ok b s'"
  using assms
  by (auto simp: check_password_def session_ok_def dest: Authenticate_active split: if_splits prod.splits sum.splits)

lemma session_ok_sasl:
  assumes "session_ok b s" and "sasl_Next b now srv response s sv = (r, srv', s', sv')"
  shows "session_ok b s'"
  using assms
  by (auto simp: sasl_Next_def dest: session_ok_check_password split: sasl.splits option.splits list.splits if_splits prod.splits)

interpretation session: invariant_system session_init "session_step b" "\<lambda>x. session_ok b (fst x)" for b
proof
  show "session_init x \<Longrightarrow> session_ok b (fst x)" for x
    by (auto simp: session_init_def NewSession_def new_session_def session_ok_def Let_def case_prod_beta)
  show "session_ok b (fst x) \<Longrightarrow> session_step b x y \<Longrightarrow> session_ok b (fst y)" for x y
    by (elim session_stepE)
      (auto intro: session_ok_Mail session_ok_Rcpt session_ok_Reset session_ok_sasl)
qed

section \<open>Who can deliver\<close>

text \<open>However the text is cut into chunks, the limit is exceeded exactly when the whole text is longer.\<close>

lemma limited_read_spec:
  assumes "n \<le> mx" and "limited_read mx n cs err = (data, ex, e)"
  shows "(ex \<longleftrightarrow> n + int (length (concat cs)) > mx) \<and> (\<not> ex \<longrightarrow> data = concat cs \<and> e = err)"
  using assms
proof (induction cs arbitrary: n data ex e)
  case (Cons c cs)
  show ?case
  proof (cases "n + int (length c) > mx")
    case False
    obtain data' ex' e' where run: "limited_read mx (n + int (length c)) cs err = (data', ex', e')"
      by (metis prod_cases3)
    have "data = c @ data'" "ex = ex'" "e = e'"
      using Cons.prems(2) False run by (simp_all add: Let_def)
    then show ?thesis
      using Cons.IH [OF _ run] False by (auto simp: algebra_simps)
  qed (use Cons.prems in \<open>auto simp: Let_def\<close>)
qed simp

lemma rate_verdict_db: "rate_verdict now s sv = Some (e, sv') \<Longrightarrow> sv_db sv' = sv_db sv"
  by (auto simp: rate_verdict_def count_rejected_def backoff_server_def
      split: option.splits prod.splits bool.splits if_splits)

lemma relayMessage_db [simp]: "sv_db (relayMessage b s data addrs sv) = sv_db sv"
  by (simp add: relayMessage_def Let_def split: option.splits)

text \<open>The one branch of \<^verbatim>\<open>Data\<close> that accepts the message.\<close>

definition accepts :: "Backend \<Rightarrow> instant \<Rightarrow> bytes list \<Rightarrow> error option \<Rightarrow> Session \<Rightarrow> Server \<Rightarrow> bool" where
  "accepts b now chunks err s sv \<longleftrightarrow> ss_mailFromReceived s \<and> ss_recipients s \<noteq> [] \<and> rate_verdict now s sv = None \<and>
     err = None \<and>
     (sc_MaxMessageSize (bk_config b) > 0 \<longrightarrow> int (length (concat chunks)) \<le> sc_MaxMessageSize (bk_config b))"

lemma Data_accepts:
  assumes "accepts b now chunks err s sv"
  shows "fst (Data b now chunks err s sv) = None"
    and "sv_db (snd (Data b now chunks err s sv)) =
      sv_db (deliver_all b now s (concat chunks) (map ri_address (ss_recipients s)) [] (ss_recipients s) sv)"
proof -
  let ?mx = "sc_MaxMessageSize (bk_config b)"
  have read: "read_data b chunks err = (concat chunks, False, None)"
  proof (cases "?mx > 0")
    case True
    obtain data ex e where run: "limited_read ?mx 0 chunks err = (data, ex, e)" by (metis prod_cases3)
    then show ?thesis
      using limited_read_spec [OF _ run] True assms by (auto simp: accepts_def read_data_def)
  qed (use assms in \<open>simp add: accepts_def read_data_def\<close>)
  show "fst (Data b now chunks err s sv) = None"
    "sv_db (snd (Data b now chunks err s sv)) =
      sv_db (deliver_all b now s (concat chunks) (map ri_address (ss_recipients s)) [] (ss_recipients s) sv)"
    using assms read by (simp_all add: Data_def accepts_def Let_def)
qed

lemma Data_refuses:
  assumes "\<not> accepts b now chunks err s sv"
  shows "fst (Data b now chunks err s sv) \<noteq> None \<and> sv_db (snd (Data b now chunks err s sv)) = sv_db sv"
proof (cases "ss_mailFromReceived s \<and> ss_recipients s \<noteq> [] \<and> rate_verdict now s sv = None")
  case False
  then show ?thesis
    by (auto simp: Data_def reject_def dest: rate_verdict_db)
next
  case True
  let ?mx = "sc_MaxMessageSize (bk_config b)"
  obtain data ex e where run: "read_data b chunks err = (data, ex, e)"
    by (metis prod_cases3)
  have "ex \<or> e \<noteq> None"
    using limited_read_spec [of 0 ?mx chunks err data ex e] run True assms
    by (auto simp: accepts_def read_data_def Let_def split: if_splits)
  then show ?thesis
    using True run by (auto simp: Data_def reject_def Let_def)
qed

text \<open>
  C6. Only admitted clients can deliver. In every state a session can reach, whatever the client sends and whatever
  other sessions do in between, a DATA command that is accepted or changes the database comes from a session
  that was not refused by the rate limiter, that is authenticated as an active user when the server requires
  it, has between one and the allowed number of valid recipients, all different, and whose message is within the
  size limit, in however many pieces it arrives.
\<close>

theorem only_admitted_clients_deliver:
  assumes "rtranclp (session_step b) (NewSession start addr host sv0) (s, sv)"
    and "Data b now chunks err s sv = (r, sv')"
    and "r = None \<or> sv_db sv' \<noteq> sv_db sv"
  shows "\<not> ss_rateLimitExceeded s \<and>
    (sc_AuthRequired (bk_config b) \<longrightarrow> (\<exists>u. ss_authUser s = Some u \<and> usr_Status u = StatusActive)) \<and>
    ss_recipients s \<noteq> [] \<and> distinct (map (\<lambda>x. ToLower (ri_address x)) (ss_recipients s)) \<and>
    (sc_MaxRecipients (bk_config b) > 0 \<longrightarrow> int (length (ss_recipients s)) \<le> sc_MaxRecipients (bk_config b)) \<and>
    (sc_MaxMessageSize (bk_config b) > 0 \<longrightarrow> int (length (concat chunks)) \<le> sc_MaxMessageSize (bk_config b))"
proof -
  have "session_ok b (fst (NewSession start addr host sv0))"
    by (rule session.init_inv) (auto simp: session_init_def)
  then have "session_ok b s"
    using session.run_inv [OF assms(1)] by simp
  moreover have "accepts b now chunks err s sv"
    using Data_refuses [of b now chunks err s sv] assms(2,3) by auto
  ultimately show ?thesis
    by (auto simp: session_ok_def accepts_def)
qed

section \<open>Delivery\<close>

lemma ApplyTo_keys [simp]:
  "msg_ID (ApplyTo p m) = msg_ID m" "msg_MailboxID (ApplyTo p m) = msg_MailboxID m"
  "msg_IMAPUID (ApplyTo p m) = msg_IMAPUID m" "msg_RawBody (ApplyTo p m) = msg_RawBody m"
  by (simp_all add: ApplyTo_def Let_def split: option.splits)

lemma parsed_message_keys [simp]:
  "msg_ID (fst (parsed_message b m)) = msg_ID m" "msg_MailboxID (fst (parsed_message b m)) = msg_MailboxID m"
  "msg_IMAPUID (fst (parsed_message b m)) = msg_IMAPUID m" "msg_RawBody (fst (parsed_message b m)) = msg_RawBody m"
  by (simp_all add: parsed_message_def Let_def split: sum.splits)

lemma createMessage_keys [simp]:
  "msg_ID (createMessage b now k s i data addrs) = bk_gen b k"
  "msg_MailboxID (createMessage b now k s i data addrs) = i"
  "msg_IMAPUID (createMessage b now k s i data addrs) = 0"
  "msg_RawBody (createMessage b now k s i data addrs) = to_bytes (received_header b now s (bk_gen b k)) @ data"
  by (simp_all add: createMessage_def NewMessage_def Let_def)

text \<open>Attachments do not touch messages and mailboxes.\<close>

definition same_mail :: "db \<Rightarrow> db \<Rightarrow> bool" where
  "same_mail base d \<longleftrightarrow> schema_ok d \<and> db_messages d = db_messages base \<and> db_mailboxes d = db_mailboxes base"

lemma same_mail_attachments:
  "keeps (same_mail base) (insert_attachment r)" "keeps (same_mail base) (update_attachments P f)"
  unfolding insert_attachment_def update_attachments_def
  by (intro keeps_stmt; simp add: same_mail_def)+

lemma smtp_storeAttachments_same:
  assumes "schema_ok d"
  shows "same_mail d (smtp_storeAttachments b now k i atts d)"
proof -
  have create: "keeps (same_mail base) (CreateWithContent st a c)" for base st a c
    unfolding CreateWithContent_def att_Create_def StoreContent_def att_Exists_def att_GetByID_def get_attachment_def
    by (intro keeps_intros same_mail_attachments)
  have "same_mail base d' \<Longrightarrow> same_mail base (smtp_storeAttachments b now k i atts d')" for base d'
  proof (induction atts arbitrary: k d')
    case (Cons a atts)
    then show ?case using create [of base] by (simp add: keeps_def)
  qed simp
  from this [of d d] assms show ?thesis by (simp add: same_mail_def)
qed

lemma smtp_storeMessage_ok:
  assumes "bk_messageRepo b" and "schema_ok (sv_db sv)" and "uids_ok (sv_db sv)"
    and "bx \<in> set (db_mailboxes (sv_db sv))" and "mr_id bx = msg_MailboxID m" and "scan_uint32 (mr_uid_next bx)"
    and "msg_IMAPUID m = 0" and "msg_ID m \<notin> r_id ` set (db_messages (sv_db sv))"
    and "storeMessage b now m sv = (r, sv')"
  shows "\<exists>x. db_messages (sv_db sv') = db_messages (sv_db sv) @ [x] \<and> r_mailbox_id x = msg_MailboxID m \<and>
      r_id x = msg_ID m \<and> r_raw_body x = msg_RawBody m"
    and "schema_ok (sv_db sv')" and "uids_ok (sv_db sv')"
    and "\<And>c. c \<in> set (db_mailboxes (sv_db sv)) \<Longrightarrow> mr_id c \<noteq> msg_MailboxID m \<Longrightarrow> c \<in> set (db_mailboxes (sv_db sv'))"
    and "sv_uuids sv \<le> sv_uuids sv'" and "r = Inr ()"
proof -
  let ?p = "fst (parsed_message b m)" and ?atts = "snd (parsed_message b m)"
  let ?m = "?p\<lparr>msg_IMAPUID := word_of_int (mr_uid_next bx)\<rparr>"
  let ?d = "created_db now ?m (sv_db sv)"
  have created: "Create now ?p (sv_db sv) = (Inr ?m, ?d)" "schema_ok ?d"
    using Create_ok [OF assms(2-4), of ?p now] assms(5-8) by auto
  have uids: "uids_ok ?d"
    using assms(2-6) by (intro uids_ok_created) simp_all
  let ?stored = "?atts \<noteq> [] \<and> bk_attachmentRepo b"
  let ?d' = "if ?stored then smtp_storeAttachments b now (sv_uuids sv) (msg_ID ?m) ?atts ?d else ?d"
  have same: "same_mail ?d ?d'"
    using smtp_storeAttachments_same [OF created(2)] created(2) by (simp add: same_mail_def)
  have sv': "sv_db sv' = ?d'" "sv_uuids sv \<le> sv_uuids sv'" "r = Inr ()"
    using assms(1,9) created(1) by (auto simp: storeMessage_def Let_def case_prod_beta split: if_splits)
  show "\<exists>x. db_messages (sv_db sv') = db_messages (sv_db sv) @ [x] \<and> r_mailbox_id x = msg_MailboxID m \<and>
      r_id x = msg_ID m \<and> r_raw_body x = msg_RawBody m"
    using same by (simp add: sv' same_mail_def created_db_def row_of_message_def)
  show "schema_ok (sv_db sv')" using same unfolding sv' same_mail_def by blast
  show "uids_ok (sv_db sv')" using same uids unfolding sv' same_mail_def uids_ok_def by metis
  show "c \<in> set (db_mailboxes (sv_db sv'))"
    if "c \<in> set (db_mailboxes (sv_db sv))" "mr_id c \<noteq> msg_MailboxID m" for c
    using that same unfolding sv' same_mail_def
    by (auto simp: created_db_def set_update_where intro: rev_image_eqI)
  show "sv_uuids sv \<le> sv_uuids sv'" "r = Inr ()" by (rule sv')+
qed

text \<open>The mailboxes a message goes to: those of its recipients, each once, in the order of the envelope.\<close>

fun target_mailboxes :: "ID list \<Rightarrow> recipientInfo list \<Rightarrow> ID list" where
  "target_mailboxes seen [] = []"
| "target_mailboxes seen (r # rs) =
     (case ri_mailbox r of
        None \<Rightarrow> target_mailboxes seen rs
      | Some mb \<Rightarrow> if mb_ID mb \<in> set seen then target_mailboxes seen rs
                   else mb_ID mb # target_mailboxes (mb_ID mb # seen) rs)"

lemma set_target_mailboxes:
  "set (target_mailboxes seen rs) = {mb_ID m | m r. r \<in> set rs \<and> ri_mailbox r = Some m} - set seen"
  by (induction seen rs rule: target_mailboxes.induct) (auto split: option.splits)

lemma distinct_target_mailboxes: "distinct (target_mailboxes seen rs)"
  by (induction seen rs rule: target_mailboxes.induct) (auto simp: set_target_mailboxes split: option.splits)

definition copy_of :: "Backend \<Rightarrow> instant \<Rightarrow> Session \<Rightarrow> bytes \<Rightarrow> messageRow \<Rightarrow> bool" where
  "copy_of b now s data x \<longleftrightarrow> r_raw_body x = to_bytes (received_header b now s (r_id x)) @ data"

text \<open>Everything a delivery needs of the server: a consistent store, fresh UUIDs, and the target mailboxes.\<close>

definition can_deliver :: "Backend \<Rightarrow> ID list \<Rightarrow> recipientInfo list \<Rightarrow> Server \<Rightarrow> bool" where
  "can_deliver b seen rs sv \<longleftrightarrow> bk_messageRepo b \<and> inj (bk_gen b) \<and> schema_ok (sv_db sv) \<and> uids_ok (sv_db sv) \<and>
     (\<forall>k \<ge> sv_uuids sv. bk_gen b k \<notin> r_id ` set (db_messages (sv_db sv))) \<and>
     (\<forall>i \<in> set (target_mailboxes seen rs). \<exists>bx \<in> set (db_mailboxes (sv_db sv)). mr_id bx = i \<and> scan_uint32 (mr_uid_next bx))"

lemma deliver_all_ok:
  assumes "can_deliver b seen rs sv"
  shows "\<exists>xs. db_messages (sv_db (deliver_all b now s data addrs seen rs sv)) = db_messages (sv_db sv) @ xs \<and>
    map r_mailbox_id xs = target_mailboxes seen rs \<and> list_all (copy_of b now s data) xs"
  using assms
proof (induction seen rs arbitrary: sv rule: target_mailboxes.induct)
  case (2 seen r rs)
  show ?case
  proof (cases "\<exists>mb. ri_mailbox r = Some mb \<and> mb_ID mb \<notin> set seen")
    case False
    then have "target_mailboxes seen (r # rs) = target_mailboxes seen rs"
      "deliver_all b now s data addrs seen (r # rs) sv = deliver_all b now s data addrs seen rs sv"
      by (auto split: option.splits)
    moreover have "\<exists>xs. db_messages (sv_db (deliver_all b now s data addrs seen rs sv)) = db_messages (sv_db sv) @ xs \<and>
        map r_mailbox_id xs = target_mailboxes seen rs \<and> list_all (copy_of b now s data) xs"
      using 2 False calculation(1) by (cases "ri_mailbox r") (auto simp: can_deliver_def)
    ultimately show ?thesis by simp
  next
    case True
    then obtain mb where mb: "ri_mailbox r = Some mb" "mb_ID mb \<notin> set seen" by blast
    let ?m = "createMessage b now (sv_uuids sv) s (mb_ID mb) data addrs"
    let ?sv = "sv\<lparr>sv_uuids := sv_uuids sv + 2\<rparr>"
    obtain r' sv' where run: "storeMessage b now ?m ?sv = (r', sv')" by fastforce
    obtain bx where bx: "bx \<in> set (db_mailboxes (sv_db sv))" "mr_id bx = mb_ID mb" "scan_uint32 (mr_uid_next bx)"
      using "2.prems" mb by (auto simp: can_deliver_def)
    have pre: "bk_messageRepo b" "schema_ok (sv_db ?sv)" "uids_ok (sv_db ?sv)" "bx \<in> set (db_mailboxes (sv_db ?sv))"
      "mr_id bx = msg_MailboxID ?m" "msg_ID ?m \<notin> r_id ` set (db_messages (sv_db ?sv))"
      using "2.prems" bx by (auto simp: can_deliver_def)
    note ok = smtp_storeMessage_ok [OF pre(1-5) bx(3) createMessage_keys(3) pre(6) run]
    obtain x where x: "db_messages (sv_db sv') = db_messages (sv_db sv) @ [x]" "r_mailbox_id x = mb_ID mb"
      "r_id x = bk_gen b (sv_uuids sv)" "copy_of b now s data x"
      using ok(1) by (auto simp: copy_of_def)
    have "can_deliver b (mb_ID mb # seen) rs sv'"
      unfolding can_deliver_def
    proof (intro conjI allI impI ballI)
      fix k assume k: "sv_uuids sv' \<le> k"
      then have "bk_gen b k \<noteq> bk_gen b (sv_uuids sv)"
        using ok(5) "2.prems" by (auto simp: can_deliver_def dest: injD)
      then show "bk_gen b k \<notin> r_id ` set (db_messages (sv_db sv'))"
        using "2.prems" k ok(5) x(1,3) by (auto simp: can_deliver_def)
    next
      fix i assume i: "i \<in> set (target_mailboxes (mb_ID mb # seen) rs)"
      then obtain c where "c \<in> set (db_mailboxes (sv_db sv))" "mr_id c = i" "scan_uint32 (mr_uid_next c)"
        using "2.prems" mb by (auto simp: can_deliver_def)
      moreover have "i \<noteq> mb_ID mb" using i by (auto simp: set_target_mailboxes)
      ultimately show "\<exists>c \<in> set (db_mailboxes (sv_db sv')). mr_id c = i \<and> scan_uint32 (mr_uid_next c)"
        using ok(4) by auto
    qed (use "2.prems" ok(2,3) in \<open>simp_all add: can_deliver_def\<close>)
    then obtain xs where "db_messages (sv_db (deliver_all b now s data addrs (mb_ID mb # seen) rs sv')) = db_messages (sv_db sv') @ xs"
      "map r_mailbox_id xs = target_mailboxes (mb_ID mb # seen) rs" "list_all (copy_of b now s data) xs"
      using "2.IH" mb by blast
    then show ?thesis
      using mb x run by (intro exI [of _ "x # xs"]) (simp add: Let_def)
  qed
qed simp

text \<open>
  C2. An accepted message reaches every mailbox exactly once. When DATA passes the checks of the session and the store
  is consistent, has fresh UUIDs and still has the recipients' mailboxes, the server answers with success
  and has stored, besides what was there before, exactly one message per mailbox of the recipients (however
  many of the addresses lead to it), each with the received text behind its trace header.
\<close>

theorem accepted_message_delivered_once:
  assumes "accepts b now chunks err s sv" and "can_deliver b [] (ss_recipients s) sv"
  shows "\<exists>xs sv'. Data b now chunks err s sv = (None, sv') \<and> db_messages (sv_db sv') = db_messages (sv_db sv) @ xs \<and>
    distinct (map r_mailbox_id xs) \<and>
    set (map r_mailbox_id xs) = {mb_ID m | m r. r \<in> set (ss_recipients s) \<and> ri_mailbox r = Some m} \<and>
    list_all (copy_of b now s (concat chunks)) xs"
proof -
  obtain xs where "db_messages (sv_db (snd (Data b now chunks err s sv))) = db_messages (sv_db sv) @ xs"
    "map r_mailbox_id xs = target_mailboxes [] (ss_recipients s)" "list_all (copy_of b now s (concat chunks)) xs"
    using deliver_all_ok [OF assms(2), of now s "concat chunks" "map ri_address (ss_recipients s)"]
      Data_accepts(2) [OF assms(1)] by auto
  then show ?thesis
    using Data_accepts(1) [OF assms(1)] distinct_target_mailboxes [of "[]"] set_target_mailboxes [of "[]"]
    by (metis prod.collapse Diff_empty empty_set)
qed

section \<open>Mail that is acknowledged and lost\<close>

lemma Create_missing:
  assumes "schema_ok d" and "msg_MailboxID m \<notin> mr_id ` set (db_mailboxes d)" and "msg_IMAPUID m = 0"
  shows "\<exists>e. Create now m d = (Inl e, d)"
proof -
  have idle: "update_where (\<lambda>r. mr_id r = msg_MailboxID m) f (db_mailboxes d) = db_mailboxes d" for f
    using assms(2) by (intro update_where_idle) (metis image_eqI)
  have "find (\<lambda>r. mr_id r = msg_MailboxID m) (db_mailboxes d) = None"
    using assms(2) unfolding find_None_iff by (metis image_eqI)
  then show ?thesis
    using assms(1,3) idle
    by (simp add: Create_def assign_uid_def IncrementMessageCount_def update_mailboxes_def stmt_def andThen_def wrap_def)
qed

lemma storeMessage_missing:
  assumes "schema_ok (sv_db sv)" and "msg_MailboxID m \<notin> mr_id ` set (db_mailboxes (sv_db sv))" and "msg_IMAPUID m = 0"
  shows "sv_db (snd (storeMessage b now m sv)) = sv_db sv"
  using Create_missing [of "sv_db sv" "fst (parsed_message b m)" now] assms
  by (auto simp: storeMessage_def Let_def case_prod_beta)

text \<open>
  C35. A message can be acknowledged and lost. When the recipients' mailboxes have disappeared between RCPT and DATA, so that
  no copy can be stored, DATA still answers with success, and the database is as before.
\<close>

theorem acknowledged_message_lost:
  assumes "accepts b now chunks err s sv" and "schema_ok (sv_db sv)"
    and "\<forall>r \<in> set (ss_recipients s). \<forall>m. ri_mailbox r = Some m \<longrightarrow> mb_ID m \<notin> mr_id ` set (db_mailboxes (sv_db sv))"
  shows "\<exists>sv'. Data b now chunks err s sv = (None, sv') \<and> sv_db sv' = sv_db sv"
proof -
  have "sv_db (deliver_all b now s data addrs seen rs sv0) = sv_db sv0"
    if "schema_ok (sv_db sv0)"
      "\<forall>r \<in> set rs. \<forall>m. ri_mailbox r = Some m \<longrightarrow> mb_ID m \<notin> mr_id ` set (db_mailboxes (sv_db sv0))"
    for data addrs seen rs sv0
    using that
  proof (induction rs arbitrary: seen sv0)
    case (Cons r rs)
    show ?case
    proof (cases "\<exists>mb. ri_mailbox r = Some mb \<and> mb_ID mb \<notin> set seen")
      case True
      then obtain mb where mb: "ri_mailbox r = Some mb" "mb_ID mb \<notin> set seen" by blast
      let ?sv = "sv0\<lparr>sv_uuids := sv_uuids sv0 + 2\<rparr>"
      let ?sv' = "snd (storeMessage b now (createMessage b now (sv_uuids sv0) s (mb_ID mb) data addrs) ?sv)"
      have "sv_db ?sv' = sv_db sv0"
        using storeMessage_missing [of ?sv] Cons.prems mb by simp
      then show ?thesis
        using Cons.IH [of ?sv'] Cons.prems mb by (simp add: Let_def)
    qed (use Cons in \<open>auto split: option.splits\<close>)
  qed simp
  then show ?thesis
    using Data_accepts [OF assms(1)] assms(2,3) by (metis prod.collapse)
qed


section \<open>A sample session\<close>

definition sample_backend :: Backend where
  "sample_backend =
     \<lparr>bk_config = \<lparr>sc_Domain = ''x'', sc_LocalDomains = [], sc_MaxMessageSize = 1000, sc_MaxRecipients = 5,
        sc_AuthRequired = False\<rparr>,
      bk_mailboxRepo = True, bk_messageRepo = True, bk_attachmentRepo = True, bk_authenticator = True,
      bk_notifyService = True, bk_bcrypt = toy_bcrypt, bk_parse = (\<lambda>_. Inl (OtherError ''no MIME'')),
      bk_gen = (\<lambda>k. replicate k CHR ''g''), bk_storage = None, bk_relay = None, bk_date = (\<lambda>_. ''now'')\<rparr>"

definition sample_server :: Server where
  "sample_server =
     \<lparr>sv_db = sample_db, sv_limiter = Some (NewRateLimiter None), sv_stats = NewStats, sv_uuids = 1, sv_notices = []\<rparr>"

definition started :: "Session \<times> Server" where
  "started = NewSession 5 ''1.2.3.4:99'' ''mx'' sample_server"

definition after_mail :: Session where
  "after_mail = snd (Mail sample_backend ''<joe@y>'' None (fst started))"

definition after_rcpt :: Session where
  "after_rcpt = snd (Rcpt sample_backend ''<b@x>'' (snd (Rcpt sample_backend ''a@x'' after_mail (sv_db (snd started)))) (sv_db (snd started)))"

lemma after_rcpt_reachable:
  "rtranclp (session_step b) started (s, sv) \<Longrightarrow> Rcpt b to s (sv_db sv) = (r, s') \<Longrightarrow> rtranclp (session_step b) started (s', sv)"
  by (rule rtranclp.rtrancl_into_rtrancl) (auto intro: session_step.rcpt)

lemma sample_session: "rtranclp (session_step sample_backend) started (after_rcpt, snd started)"
proof -
  have "rtranclp (session_step sample_backend) started (after_mail, snd started)"
    unfolding after_mail_def
    by (rule r_into_rtranclp) (metis prod.collapse session_step.mail)
  then show ?thesis
    unfolding after_rcpt_def by (intro after_rcpt_reachable [OF _ prod.collapse [symmetric]])
qed

lemma sample_accepts: "accepts sample_backend 6 [[72], [105, 33]] None after_rcpt (snd started)"
  by code_simp

lemma sample_deliverable: "can_deliver sample_backend [] (ss_recipients after_rcpt) (snd started)"
proof -
  have facts: "schema_ok (sv_db (snd started))" "uids_ok (sv_db (snd started))" "db_messages (sv_db (snd started)) = []"
    "target_mailboxes [] (ss_recipients after_rcpt) = [''a'', ''b'']" "bk_messageRepo sample_backend"
    "list_ex (\<lambda>bx. mr_id bx = ''a'' \<and> scan_uint32 (mr_uid_next bx)) (db_mailboxes (sv_db (snd started)))"
    "list_ex (\<lambda>bx. mr_id bx = ''b'' \<and> scan_uint32 (mr_uid_next bx)) (db_mailboxes (sv_db (snd started)))"
    by code_simp+
  have "inj (bk_gen sample_backend)" by (auto simp: sample_backend_def inj_def)
  with facts show ?thesis by (auto simp: can_deliver_def list_ex_iff)
qed

theorem only_admitted_clients_deliver_witness:
  "ss_recipients after_rcpt \<noteq> [] \<and> \<not> ss_rateLimitExceeded after_rcpt"
proof -
  obtain r sv' where run: "Data sample_backend 6 [[72], [105, 33]] None after_rcpt (snd started) = (r, sv')" by fastforce
  then have "r = None" using Data_accepts(1) [OF sample_accepts] by simp
  then show ?thesis
    using only_admitted_clients_deliver [OF sample_session [unfolded started_def] run [unfolded started_def]] by simp
qed

theorem accepted_message_delivered_once_witness:
  "\<exists>xs sv'. Data sample_backend 6 [[72], [105, 33]] None after_rcpt (snd started) = (None, sv') \<and>
     db_messages (sv_db sv') = db_messages (sv_db (snd started)) @ xs \<and> distinct (map r_mailbox_id xs) \<and>
     list_all (copy_of sample_backend 6 after_rcpt [72, 105, 33]) xs"
  using accepted_message_delivered_once [OF sample_accepts sample_deliverable] by auto

definition emptied_server :: Server where
  "emptied_server = (snd started)\<lparr>sv_db := sample_db\<lparr>db_mailboxes := []\<rparr>\<rparr>"

theorem acknowledged_message_lost_witness:
  "\<exists>sv'. Data sample_backend 6 [[72]] None after_rcpt emptied_server = (None, sv') \<and> sv_db sv' = sv_db emptied_server"
proof -
  have "accepts sample_backend 6 [[72]] None after_rcpt emptied_server" "schema_ok (sv_db emptied_server)"
    "db_mailboxes (sv_db emptied_server) = []"
    by code_simp+
  then show ?thesis by (intro acknowledged_message_lost) auto
qed

section \<open>Counting connections\<close>

text \<open>The server with its open sessions: clients connect and disconnect.\<close>

inductive conn_step :: "Server \<times> Session list \<Rightarrow> Server \<times> Session list \<Rightarrow> bool" where
  connect: "NewSession now addr host sv = (s, sv') \<Longrightarrow> conn_step (sv, ss) (sv', s # ss)"
| disconnect: "s \<in> set ss \<Longrightarrow> conn_step (sv, ss) (Logout s sv, remove1 s ss)"

inductive_cases conn_stepE: "conn_step x y"

definition conn_init :: "RateLimitConfig \<Rightarrow> Server \<times> Session list \<Rightarrow> bool" where
  "conn_init c x \<longleftrightarrow> sv_limiter (fst x) = Some (NewRateLimiter (Some c)) \<and> snd x = []"

text \<open>The limiter's own counters stay within the configured limits.\<close>

definition counters_ok :: "RateLimitConfig \<Rightarrow> RateLimiter \<Rightarrow> bool" where
  "counters_ok c rl \<longleftrightarrow> rl_config rl = c \<and> 0 \<le> rl_globalConnections rl \<and> (\<forall>k. 0 \<le> at0 (rl_concurrentConnections rl) k) \<and>
     (rc_MaxGlobalConnections c > 0 \<longrightarrow> rl_globalConnections rl \<le> rc_MaxGlobalConnections c) \<and>
     (rc_MaxConcurrentConnections c > 0 \<longrightarrow> (\<forall>k. at0 (rl_concurrentConnections rl) k \<le> rc_MaxConcurrentConnections c))"

lemma at0_update [simp]: "at0 (AList.update k v m) j = (if j = k then v else at0 m j)"
  by (simp add: at0_def update_conv')

lemma at0_delete [simp]: "at0 (AList.delete k m) j = (if j = k then 0 else at0 m j)"
  by (simp add: at0_def delete_conv' restrict_map_def)

lemma CheckConnection_counters:
  "CheckConnection now a rl = (v, rl') \<Longrightarrow>
     rl_config rl' = rl_config rl \<and> rl_globalConnections rl' = rl_globalConnections rl \<and>
     rl_concurrentConnections rl' = rl_concurrentConnections rl"
  by (auto simp: CheckConnection_def Let_def split: if_splits)

lemma CheckConnection_admits:
  assumes "CheckConnection now a rl = (None, rl')" and "rc_Enabled (rl_config rl)"
  shows "rc_MaxGlobalConnections (rl_config rl) > 0 \<longrightarrow> rl_globalConnections rl < rc_MaxGlobalConnections (rl_config rl)"
    and "rc_MaxConcurrentConnections (rl_config rl) > 0 \<longrightarrow>
      at0 (rl_concurrentConnections rl) (extractIP a) < rc_MaxConcurrentConnections (rl_config rl)"
  using assms by (auto simp: CheckConnection_def Let_def split: if_splits)

lemma applyBackoff_counters [simp]:
  "rl_config (snd (applyBackoff now ip rl)) = rl_config rl"
  "rl_globalConnections (snd (applyBackoff now ip rl)) = rl_globalConnections rl"
  "rl_concurrentConnections (snd (applyBackoff now ip rl)) = rl_concurrentConnections rl"
  "rl_connectionRate (snd (applyBackoff now ip rl)) = rl_connectionRate rl"
  by (simp_all add: applyBackoff_def RecordViolation_def Let_def)

text \<open>What accepting or refusing a connection does to the limiter.\<close>

lemma NewSession_cases:
  assumes "sv_limiter sv = Some rl" and "NewSession now addr host sv = (s, sv')"
  obtains (refused) e rl1 where "CheckConnection now addr rl = (Some e, rl1)" "ss_rateLimitExceeded s"
      "sv_limiter sv' = Some (snd (applyBackoff now (extractIP addr) rl1))" "ss_remoteAddr s = addr"
  | (admitted) rl1 where "CheckConnection now addr rl = (None, rl1)" "\<not> ss_rateLimitExceeded s"
      "sv_limiter sv' = Some (OnConnectionOpened addr rl1)" "ss_remoteAddr s = addr"
proof (cases "CheckConnection now addr rl")
  case (Pair v rl1)
  show thesis
  proof (cases v)
    case None
    show thesis
      by (rule admitted [of rl1]) (use assms Pair None in \<open>auto simp: NewSession_def new_session_def Let_def\<close>)
  next
    case (Some e)
    show thesis
      by (rule refused [of e rl1])
        (use assms Pair Some in \<open>auto simp: NewSession_def new_session_def count_rejected_def backoff_server_def Let_def\<close>)
  qed
qed

lemma counters_ok_closed: "counters_ok c rl \<Longrightarrow> counters_ok c (OnConnectionClosed addr rl)"
proof -
  assume ok: "counters_ok c rl"
  let ?m = "rl_concurrentConnections rl"
  have conc: "0 \<le> at0 (rl_concurrentConnections (OnConnectionClosed addr rl)) k \<and>
      at0 (rl_concurrentConnections (OnConnectionClosed addr rl)) k \<le> at0 ?m k" for k
  proof -
    have "0 \<le> at0 ?m k" using ok by (simp add: counters_ok_def)
    then show ?thesis
      by (auto simp: OnConnectionClosed_def Let_def at0_def [of ?m] split: option.splits)
  qed
  have "rl_config (OnConnectionClosed addr rl) = rl_config rl"
    "0 \<le> rl_globalConnections (OnConnectionClosed addr rl) \<and>
     rl_globalConnections (OnConnectionClosed addr rl) \<le> rl_globalConnections rl"
    using ok by (auto simp: OnConnectionClosed_def counters_ok_def Let_def)
  with ok conc show ?thesis
    unfolding counters_ok_def by (metis order_trans)
qed

lemma counters_ok_opened:
  assumes "counters_ok c rl" and "CheckConnection now addr rl = (None, rl1)"
  shows "counters_ok c (OnConnectionOpened addr rl1)"
proof (cases "rc_Enabled c")
  case True
  have "rl_config rl = c" using assms(1) by (simp add: counters_ok_def)
  then show ?thesis
    using CheckConnection_admits [OF assms(2)] CheckConnection_counters [OF assms(2)] assms(1) True
    by (auto simp: counters_ok_def OnConnectionOpened_def Let_def)
next
  case False
  then show ?thesis
    using CheckConnection_counters [OF assms(2)] assms(1) by (simp add: counters_ok_def OnConnectionOpened_def)
qed

definition limiter_counts :: "RateLimitConfig \<Rightarrow> Server \<times> Session list \<Rightarrow> bool" where
  "limiter_counts c x \<longleftrightarrow> (\<exists>rl. sv_limiter (fst x) = Some rl \<and> counters_ok c rl)"

interpretation conns: invariant_system "conn_init c" conn_step "limiter_counts c" for c
proof
  show "conn_init c x \<Longrightarrow> limiter_counts c x" for x
    by (auto simp: conn_init_def limiter_counts_def counters_ok_def NewRateLimiter_def at0_def)
  show "limiter_counts c x \<Longrightarrow> conn_step x y \<Longrightarrow> limiter_counts c y" for x y
  proof (elim conn_stepE)
    fix now addr host sv s sv' ss
    assume ok: "limiter_counts c x" and xy: "x = (sv, ss)" "y = (sv', s # ss)"
      and run: "NewSession now addr host sv = (s, sv')"
    from ok xy obtain rl where rl: "sv_limiter sv = Some rl" "counters_ok c rl" by (auto simp: limiter_counts_def)
    from rl(1) run show "limiter_counts c y"
    proof (cases rule: NewSession_cases)
      case (refused e rl1)
      then show ?thesis
        using CheckConnection_counters [OF refused(1)] rl(2) xy by (simp add: limiter_counts_def counters_ok_def)
    next
      case (admitted rl1)
      then show ?thesis
        using counters_ok_opened [OF rl(2) admitted(1)] xy by (simp add: limiter_counts_def)
    qed
  next
    fix s ss sv
    assume "limiter_counts c x" "x = (sv, ss)" "y = (Logout s sv, remove1 s ss)"
    then show "limiter_counts c y"
      by (auto simp: limiter_counts_def Logout_def counters_ok_closed)
  qed
qed

section \<open>Refused clients make room\<close>

lemma SplitHostPort_simple:
  assumes "CHR '':'' \<notin> set p" "CHR ''['' \<notin> set p" "CHR '']'' \<notin> set p"
  shows "extractIP (''1.2.3.4:'' @ p) = ''1.2.3.4''"
proof -
  have "takeWhile (\<lambda>c. c \<noteq> CHR '':'') (rev p @ CHR '':'' # ''4.3.2.1'') = rev p"
    using assms(1) by (subst takeWhile_append2) auto
  then have "after_last (''1.2.3.4:'' @ p) CHR '':'' = p"
    by (simp add: after_last_def)
  then show ?thesis
    using assms by (simp add: extractIP_def SplitHostPort_def Let_def)
qed

lemma window_passes: "\<exists>now. window_count now k m = 0"
proof (cases "map_of m k")
  case (Some e)
  then have "window_count (rle_windowEnd e + 1) k m = 0" by (simp add: window_count_def expired_def)
  then show ?thesis by blast
qed (simp add: window_count_def)

lemma fmt_nat_chars: "c \<in> set (fmt_nat n) \<Longrightarrow> \<exists>k<(10::nat). c = char_of (48 + k)"
proof (induction n rule: fmt_nat.induct)
  case (1 n)
  show ?case
  proof (cases "n < 10")
    case True
    then have "fmt_nat n = [char_of (48 + n)]" by (simp add: fmt_nat.simps [of n])
    then have "c = char_of (48 + n)" using 1(2) by (metis list.set_cases list.distinct(1) list.sel(1) set_ConsD empty_iff empty_set)
    then show ?thesis using True by blast
  next
    case False
    then have "c \<in> set (fmt_nat (n div 10)) \<or> c = char_of (48 + n mod 10)"
      using 1(2) by (auto simp add: fmt_nat.simps [of n])
    then show ?thesis
      using 1(1) [OF False] by (metis mod_less_divisor zero_less_numeral)
  qed
qed

definition port_addr :: "nat \<Rightarrow> string" where
  "port_addr n = ''1.2.3.4:'' @ fmt_nat n"

lemma extractIP_port_addr: "extractIP (port_addr n) = ''1.2.3.4''"
proof -
  have "c \<noteq> CHR '':'' \<and> c \<noteq> CHR ''['' \<and> c \<noteq> CHR '']''" if c: "c \<in> set (fmt_nat n)" for c
  proof -
    obtain k :: nat where "k < 10" "c = char_of (48 + k)" using fmt_nat_chars [OF c] by blast
    then have "of_char c = 48 + k" by simp
    with \<open>k < 10\<close> show ?thesis by auto
  qed
  then show ?thesis unfolding port_addr_def by (intro SplitHostPort_simple) blast+
qed

lemma admitted_when_room:
  assumes "rc_MaxGlobalConnections (rl_config rl) > 0 \<longrightarrow> rl_globalConnections rl < rc_MaxGlobalConnections (rl_config rl)"
    and "rc_MaxConcurrentConnections (rl_config rl) > 0 \<longrightarrow>
      at0 (rl_concurrentConnections rl) (extractIP a) < rc_MaxConcurrentConnections (rl_config rl)"
    and "window_count now (extractIP a) (rl_connectionRate rl) = 0"
  shows "fst (CheckConnection now a rl) = None"
  using assms by (auto simp: CheckConnection_def Let_def)

lemma refused_unchanged: "CheckConnection now a rl = (Some e, rl1) \<Longrightarrow> rl1 = rl"
  by (auto simp: CheckConnection_def Let_def split: if_splits)

lemma closed_makes_room:
  assumes "counters_ok c rl" and "rc_Enabled c"
  shows "rc_MaxGlobalConnections c > 0 \<longrightarrow> rl_globalConnections (OnConnectionClosed a rl) < rc_MaxGlobalConnections c"
    and "rc_MaxConcurrentConnections c > 0 \<longrightarrow>
      at0 (rl_concurrentConnections (OnConnectionClosed a rl)) (extractIP a) < rc_MaxConcurrentConnections c"
proof -
  let ?m = "rl_concurrentConnections rl" and ?ip = "extractIP a"
  have cfg: "rl_config rl = c" using assms(1) by (simp add: counters_ok_def)
  show "rc_MaxGlobalConnections c > 0 \<longrightarrow> rl_globalConnections (OnConnectionClosed a rl) < rc_MaxGlobalConnections c"
    using assms by (auto simp: OnConnectionClosed_def counters_ok_def Let_def)
  have "at0 (rl_concurrentConnections (OnConnectionClosed a rl)) ?ip = max 0 (at0 ?m ?ip - 1)"
    using assms cfg by (auto simp: OnConnectionClosed_def Let_def at0_def [of ?m] split: option.splits)
  then show "rc_MaxConcurrentConnections c > 0 \<longrightarrow>
      at0 (rl_concurrentConnections (OnConnectionClosed a rl)) ?ip < rc_MaxConcurrentConnections c"
    using assms(1) by (auto simp: counters_ok_def dest: spec [of _ ?ip])
qed

lemma one_more_connection:
  assumes "sv_limiter sv = Some rl" and "counters_ok c rl" and "rc_Enabled c"
  shows "\<exists>s sv'. rtranclp conn_step (sv, ss) (sv', s # ss) \<and> \<not> ss_rateLimitExceeded s \<and> ss_remoteAddr s = a"
proof -
  obtain now where now: "window_count now (extractIP a) (rl_connectionRate rl) = 0" using window_passes by blast
  obtain s sv1 where run: "NewSession now a host sv = (s, sv1)" by fastforce
  then have step: "conn_step (sv, ss) (sv1, s # ss)" by (rule connect)
  from assms(1) run show ?thesis
  proof (cases rule: NewSession_cases)
    case (admitted rl1)
    then show ?thesis using step by blast
  next
    case (refused e rl1)
    let ?rl = "OnConnectionClosed a (snd (applyBackoff now (extractIP a) rl))"
    have rl1: "rl1 = rl" using refused(1) by (rule refused_unchanged)
    have "conn_step (sv1, s # ss) (Logout s sv1, ss)"
      using disconnect [of s "s # ss" sv1] by simp
    moreover have lim: "sv_limiter (Logout s sv1) = Some ?rl"
      using refused rl1 by (simp add: Logout_def)
    moreover obtain s2 sv2 where run2: "NewSession now a host (Logout s sv1) = (s2, sv2)" by fastforce
    ultimately have steps: "rtranclp conn_step (sv, ss) (sv2, s2 # ss)"
      using step connect [OF run2, of ss] by (meson r_into_rtranclp rtranclp_trans)
    have ok: "counters_ok c (snd (applyBackoff now (extractIP a) rl))" using assms(2) by (simp add: counters_ok_def)
    have "rl_config ?rl = c" "rl_connectionRate ?rl = rl_connectionRate rl"
      using counters_ok_closed [OF ok] by (simp_all add: counters_ok_def OnConnectionClosed_def Let_def)
    then have "fst (CheckConnection now a ?rl) = None"
      using closed_makes_room [OF ok assms(3), of a] now by (intro admitted_when_room) simp_all
    with lim run2 show ?thesis
      using steps by (cases rule: NewSession_cases [OF lim run2]) auto
  qed
qed

definition open_connections :: "string \<Rightarrow> Session list \<Rightarrow> int" where
  "open_connections ip ss = int (length (filter (\<lambda>s. \<not> ss_rateLimitExceeded s \<and> extractIP (ss_remoteAddr s) = ip) ss))"

text \<open>
  The connection limits bound the counters, not the connections. For every configuration of an enabled limiter, its counters
  of all and of one client's connections never exceed the limits; but a refused session, which was never
  counted, is counted down when it ends, so one client can hold any number of accepted connections open:
  each refused attempt makes room for one more.
\<close>

theorem connection_limit_bypassed:
  assumes "rc_Enabled c"
  shows "(\<forall>sv ss. reachable (conn_init c) conn_step (sv, ss) \<longrightarrow> (\<exists>rl. sv_limiter sv = Some rl \<and> counters_ok c rl)) \<and>
    (\<forall>n. \<exists>sv ss. reachable (conn_init c) conn_step (sv, ss) \<and> open_connections ''1.2.3.4'' ss = int n)"
proof (intro conjI allI impI)
  fix sv ss assume "reachable (conn_init c) conn_step (sv, ss)"
  from conns.reachable_inv [OF this] show "\<exists>rl. sv_limiter sv = Some rl \<and> counters_ok c rl"
    by (simp add: limiter_counts_def)
next
  fix n
  show "\<exists>sv ss. reachable (conn_init c) conn_step (sv, ss) \<and> open_connections ''1.2.3.4'' ss = int n"
  proof (induction n)
    case 0
    have "reachable (conn_init c) conn_step (sample_server\<lparr>sv_limiter := Some (NewRateLimiter (Some c))\<rparr>, [])"
      by (rule reach_init) (simp add: conn_init_def)
    moreover have "open_connections ''1.2.3.4'' [] = int 0" by (simp add: open_connections_def)
    ultimately show ?case by blast
  next
    case (Suc n)
    then obtain sv ss where r: "reachable (conn_init c) conn_step (sv, ss)" "open_connections ''1.2.3.4'' ss = int n" by blast
    then obtain rl where "sv_limiter sv = Some rl" "counters_ok c rl"
      using conns.reachable_inv [OF r(1)] by (auto simp: limiter_counts_def)
    from one_more_connection [OF this assms, of ss "port_addr n"] obtain s sv'
      where s: "rtranclp conn_step (sv, ss) (sv', s # ss)" "\<not> ss_rateLimitExceeded s" "ss_remoteAddr s = port_addr n"
      by blast
    have "reachable (conn_init c) conn_step (sv', s # ss)"
      using s(1) r(1) by (rule reachable_steps)
    moreover have "open_connections ''1.2.3.4'' (s # ss) = int (Suc n)"
      using s(2,3) r(2) by (simp add: open_connections_def extractIP_port_addr)
    ultimately show ?case by blast
  qed
qed

theorem connection_limit_bypassed_witness:
  "\<exists>sv ss. reachable (conn_init DefaultRateLimitConfig) conn_step (sv, ss) \<and> open_connections ''1.2.3.4'' ss = 500"
proof -
  have "rc_Enabled DefaultRateLimitConfig" by (simp add: DefaultRateLimitConfig_def)
  from connection_limit_bypassed [OF this] show ?thesis by (metis of_nat_numeral)
qed

end
