(* ===== verification/Imap_Copy.thy ===== *)
theory Imap_Copy
  imports Imap_Sync Smtp_Delivery
begin

text \<open>
  The IMAP commands COPY and MOVE (\<^verbatim>\<open>internal/imap/copy.go\<close>) and APPEND (\<^verbatim>\<open>internal/imap/append.go\<close>).

  \<open>gen k\<close> is the \<open>k\<close>-th UUID of the process; a command takes one for each message it makes, also when the message
  cannot be stored. The UID sets of the protocol library are the lists of the numbers added to them. The MIME parser and
  the text of an appended message are arguments.
\<close>

section \<open>Finding the mailbox\<close>

definition find_by_name :: "string \<Rightarrow> Mailbox list \<Rightarrow> Mailbox option" where
  "find_by_name name mbs = find (\<lambda>m. EqualFold (NormalizeMailboxName (mb_Name m)) name) mbs"

definition copy_findMailboxByName :: "ID \<Rightarrow> string \<Rightarrow> Mailbox dbm" where
  "copy_findMailboxByName userID name =
     andThen (ListByUser userID None)
       (\<lambda>result. case find_by_name (NormalizeMailboxName name) (lr_Items result) of
          None \<Rightarrow> fail (Sentinel ErrNotFound) | Some m \<Rightarrow> ret m)"

text \<open>How the commands report a failed search: the not-found case has a response code of its own.\<close>

definition or_missing :: "ResponseCode \<Rightarrow> string \<Rightarrow> string \<Rightarrow> 'a dbm \<Rightarrow> 'a imapm" where
  "or_missing code missing other m =
     (\<lambda>d. case m d of
        (Inl e, d') \<Rightarrow> (Inl (if errors_Is e ErrNotFound then ImapNo (Some code) missing else ImapNo None other), d')
      | (Inr x, d') \<Rightarrow> (Inr x, d'))"

section \<open>Copying\<close>

record CopyResult =
  cr_SourceUIDs :: "32 word list"
  cr_DestUIDs :: "32 word list"
  cr_UIDValidity :: "32 word"
  cr_CopiedCount :: int
  cr_FailedCount :: int

record CopyData =
  cd_UIDValidity :: "32 word"
  cd_SourceUIDs :: "32 word list"
  cd_DestUIDs :: "32 word list"

definition copyMessageData :: "instant \<Rightarrow> Message \<Rightarrow> ID \<Rightarrow> ID \<Rightarrow> Message" where
  "copyMessageData now m newID destMailboxID =
     \<lparr>msg_ID = newID, msg_MailboxID = destMailboxID, msg_MessageID = msg_MessageID m, msg_From = msg_From m,
      msg_To = msg_To m, msg_Cc = msg_Cc m, msg_Bcc = msg_Bcc m, msg_ReplyTo = msg_ReplyTo m,
      msg_Subject = msg_Subject m, msg_TextBody = msg_TextBody m, msg_HTMLBody = msg_HTMLBody m, msg_RawBody = [],
      msg_Headers = msg_Headers m, msg_ContentType = msg_ContentType m, msg_Size = msg_Size m,
      msg_AttachmentCount = msg_AttachmentCount m, msg_Status = msg_Status m, msg_IsStarred = msg_IsStarred m,
      msg_IsSpam = msg_IsSpam m, msg_IsDeleted = False, msg_IsDraft = False, msg_IsAnswered = False, msg_IMAPUID = 0,
      msg_InReplyTo = msg_InReplyTo m, msg_References = msg_References m, msg_ReceivedAt = msg_ReceivedAt m,
      msg_SentAt = msg_SentAt m, msg_ThreadID = [], msg_BlobID = [], msg_AllHeaders = [], msg_CreatedAt = now,
      msg_UpdatedAt = now\<rparr>"

text \<open>Copying the raw body: whatever fails here is passed over.\<close>

definition copy_raw_body :: "instant \<Rightarrow> ID \<Rightarrow> ID \<Rightarrow> db \<Rightarrow> db" where
  "copy_raw_body now i newMsgID d =
     (case GetRawBody i d of
        (Inl _, d') \<Rightarrow> d'
      | (Inr rawBody, d') \<Rightarrow> if length rawBody > 0 then snd (StoreRawBody now newMsgID rawBody d') else d')"

fun copy_loop ::
  "(nat \<Rightarrow> ID) \<Rightarrow> instant \<Rightarrow> ID \<Rightarrow> nat \<Rightarrow> (32 word \<times> Message) list \<Rightarrow> CopyResult \<Rightarrow> db \<Rightarrow> CopyResult \<times> db" where
  "copy_loop gen now dest k [] result d = (result, d)"
| "copy_loop gen now dest k ((seqNum, msg) # ms) result d =
     (case Create now (copyMessageData now msg (gen k) dest) d of
        (Inl _, d') \<Rightarrow> copy_loop gen now dest (Suc k) ms (result\<lparr>cr_FailedCount := cr_FailedCount result + 1\<rparr>) d'
      | (Inr newMsg, d') \<Rightarrow>
          copy_loop gen now dest (Suc k) ms
            (result\<lparr>cr_SourceUIDs := cr_SourceUIDs result @ [msg_IMAPUID msg],
                    cr_DestUIDs := cr_DestUIDs result @ [msg_IMAPUID newMsg],
                    cr_CopiedCount := cr_CopiedCount result + 1\<rparr>)
            (copy_raw_body now (msg_ID msg) (gen k) d'))"

text \<open>The map of messages is read in ascending order of its keys.\<close>

definition in_seq_order :: "32 word list \<Rightarrow> (32 word \<times> Message) list \<Rightarrow> (32 word \<times> Message) list" where
  "in_seq_order seqNums messages = concat (map (\<lambda>k. case map_of messages k of None \<Rightarrow> [] | Some m \<Rightarrow> [(k, m)]) seqNums)"

definition copyMessages ::
  "(nat \<Rightarrow> ID) \<Rightarrow> instant \<Rightarrow> nat \<Rightarrow> (32 word \<times> Message) list \<Rightarrow> Mailbox \<Rightarrow> db \<Rightarrow> CopyResult \<times> db" where
  "copyMessages gen now k messages destMailbox =
     copy_loop gen now (mb_ID destMailbox) k (in_seq_order (sortUint32 (map fst messages)) messages)
       \<lparr>cr_SourceUIDs = [], cr_DestUIDs = [], cr_UIDValidity = generateUIDValidity destMailbox, cr_CopiedCount = 0,
        cr_FailedCount = 0\<rparr>"

text \<open>What COPY and MOVE do first: the destination, which must be another mailbox, and the selected messages.\<close>

definition copy_prepare ::
  "fts_index \<Rightarrow> ID \<Rightarrow> Mailbox option \<Rightarrow> NumSet \<Rightarrow> string \<Rightarrow> string \<Rightarrow> (Mailbox \<times> (32 word \<times> Message) list) imapm" where
  "copy_prepare fts userID selectedMbox numSet destName same =
     (case selectedMbox of
        None \<Rightarrow> imap_fail (ImapNo None ''No mailbox selected'')
      | Some mbox \<Rightarrow>
          imap_then (or_missing ResponseCodeTryCreate ''Destination mailbox does not exist''
              ''Failed to find destination mailbox'' (copy_findMailboxByName userID destName))
            (\<lambda>dest. if mb_ID dest = mb_ID mbox then imap_fail (ImapNo None same)
               else imap_then (getMessagesForNumSet fts mbox numSet) (\<lambda>messages. imap_ret (dest, messages))))"

definition Copy ::
  "fts_index \<Rightarrow> (nat \<Rightarrow> ID) \<Rightarrow> instant \<Rightarrow> nat \<Rightarrow> ID \<Rightarrow> Mailbox option \<Rightarrow> NumSet \<Rightarrow> string \<Rightarrow> CopyData imapm" where
  "Copy fts gen now k userID selectedMbox numSet destName =
     imap_then (copy_prepare fts userID selectedMbox numSet destName ''Cannot copy messages to the same mailbox'')
       (\<lambda>(dest, messages) d.
          if messages = []
          then (Inr \<lparr>cd_UIDValidity = generateUIDValidity dest, cd_SourceUIDs = [], cd_DestUIDs = []\<rparr>, d)
          else case copyMessages gen now k messages dest d of
            (result, d') \<Rightarrow> (Inr \<lparr>cd_UIDValidity = cr_UIDValidity result, cd_SourceUIDs = cr_SourceUIDs result,
                                 cd_DestUIDs = cr_DestUIDs result\<rparr>, d'))"

section \<open>Moving\<close>

definition deleteOriginalMessages ::
  "instant \<Rightarrow> Mailbox \<Rightarrow> (32 word \<times> Message) list \<Rightarrow> db \<Rightarrow> 32 word list \<times> db" where
  "deleteOriginalMessages now mbox messages d =
     (case expunge_loop now messages (sortUint32Desc (map fst messages)) d of
        (gone, d') \<Rightarrow> (map fst gone, snd (RecalculateStats now (mb_ID mbox) d')))"

definition Move ::
  "fts_index \<Rightarrow> (nat \<Rightarrow> ID) \<Rightarrow> instant \<Rightarrow> nat \<Rightarrow> ID \<Rightarrow> Mailbox option \<Rightarrow> NumSet \<Rightarrow> string \<Rightarrow>
     (CopyData \<times> 32 word list) imapm" where
  "Move fts gen now k userID selectedMbox numSet destName =
     imap_then (copy_prepare fts userID selectedMbox numSet destName ''Cannot move messages to the same mailbox'')
       (\<lambda>(dest, messages) d.
          if messages = []
          then (Inr (\<lparr>cd_UIDValidity = generateUIDValidity dest, cd_SourceUIDs = [], cd_DestUIDs = []\<rparr>, []), d)
          else case copyMessages gen now k messages dest d of
            (result, d') \<Rightarrow>
              case deleteOriginalMessages now (the selectedMbox) messages d' of
                (seqNums, d'') \<Rightarrow>
                  (Inr (\<lparr>cd_UIDValidity = cr_UIDValidity result, cd_SourceUIDs = cr_SourceUIDs result,
                         cd_DestUIDs = cr_DestUIDs result\<rparr>, seqNums), d''))"

section \<open>Appending\<close>

record AppendOptions =
  ao_Flags :: "imap_flag list"
  ao_Time :: instant

record AppendData =
  apd_UID :: "32 word"
  apd_UIDValidity :: "32 word"

definition findAppendMailbox :: "string \<Rightarrow> ID \<Rightarrow> Mailbox imapm" where
  "findAppendMailbox name userID =
     imap_then (or_no ''Failed to list mailboxes'' (ListByUser userID None))
       (\<lambda>result. case find_by_name name (lr_Items result) of
          None \<Rightarrow> imap_fail (ImapNo (Some ResponseCodeTryCreate) ''Mailbox does not exist'')
        | Some m \<Rightarrow> imap_ret m)"

text \<open>The fields \<^verbatim>\<open>appendMessage\<close> does not set have their zero value, the time of reception among them.\<close>

definition appended_message :: "instant \<Rightarrow> ID \<Rightarrow> ID \<Rightarrow> bytes \<Rightarrow> Message" where
  "appended_message now i mailboxID rawBody =
     (NewMessage now i mailboxID)\<lparr>msg_RawBody := rawBody, msg_Size := int (length rawBody), msg_ContentType := [],
        msg_ReceivedAt := zero_time, msg_UpdatedAt := zero_time\<rparr>"

definition append_flag :: "imap_flag \<Rightarrow> Message \<Rightarrow> Message" where
  "append_flag flag m =
     (case flag of
        FlagSeen \<Rightarrow> m\<lparr>msg_Status := MessageRead\<rparr>
      | FlagFlagged \<Rightarrow> m\<lparr>msg_IsStarred := True\<rparr>
      | FlagDeleted \<Rightarrow> m\<lparr>msg_IsDeleted := True\<rparr>
      | FlagDraft \<Rightarrow> m\<lparr>msg_IsDraft := True\<rparr>
      | FlagAnswered \<Rightarrow> m\<lparr>msg_IsAnswered := True\<rparr>
      | _ \<Rightarrow> m)"

definition append_options :: "AppendOptions option \<Rightarrow> Message \<Rightarrow> Message" where
  "append_options options m =
     (case options of
        None \<Rightarrow> m
      | Some opt \<Rightarrow>
          let m = fold append_flag (ao_Flags opt) m in
          if ao_Time opt = zero_time then m else m\<lparr>msg_SentAt := Some (ao_Time opt)\<rparr>)"

text \<open>\<open>literal\<close> is what the reader of the message gives, \<open>None\<close> when it fails; \<open>user\<close> is \<open>None\<close> without a session.\<close>

definition appendMessage ::
  "(bytes \<Rightarrow> error + ParsedMessage) \<Rightarrow> ID \<Rightarrow> instant \<Rightarrow> ID option \<Rightarrow> string \<Rightarrow> bytes option \<Rightarrow> AppendOptions option \<Rightarrow>
     AppendData imapm" where
  "appendMessage parse newID now user mailbox literal options =
     (case user of
        None \<Rightarrow> imap_fail (ImapNo None ''Not authenticated'')
      | Some userID \<Rightarrow>
          imap_then (findAppendMailbox mailbox userID)
            (\<lambda>mbox. case literal of
               None \<Rightarrow> imap_fail (ImapNo None ''Failed to read message data'')
             | Some rawBody \<Rightarrow>
                 let m = append_options options (appended_message now newID (mb_ID mbox) rawBody);
                     m = (case parse rawBody of Inl _ \<Rightarrow> m | Inr p \<Rightarrow> ApplyTo p m)
                 in imap_then (or_no ''Failed to store message'' (Create now m))
                      (\<lambda>m d. (Inr \<lparr>apd_UID = msg_IMAPUID m, apd_UIDValidity = generateUIDValidity mbox\<rparr>,
                              snd (StoreRawBody now (msg_ID m) rawBody d)))))"

section \<open>What COPY stores\<close>

definition raw_of :: "db \<Rightarrow> ID \<Rightarrow> bytes" where
  "raw_of d i = (case find (\<lambda>r. r_id r = i) (db_messages d) of None \<Rightarrow> [] | Some r \<Rightarrow> r_raw_body r)"

definition copy_row :: "instant \<Rightarrow> ID \<Rightarrow> ID \<Rightarrow> 32 word \<Rightarrow> bytes \<Rightarrow> Message \<Rightarrow> messageRow" where
  "copy_row now i dest uid raw m =
     row_of_message ((copyMessageData now m i dest)\<lparr>msg_IMAPUID := uid, msg_RawBody := raw\<rparr>)"

fun copies ::
  "(nat \<Rightarrow> ID) \<Rightarrow> instant \<Rightarrow> ID \<Rightarrow> (ID \<Rightarrow> bytes) \<Rightarrow> int \<Rightarrow> nat \<Rightarrow> (32 word \<times> Message) list \<Rightarrow> messageRow list" where
  "copies gen now dest raw uid k [] = []"
| "copies gen now dest raw uid k ((s, m) # ms) =
     copy_row now (gen k) dest (word_of_int uid) (raw (msg_ID m)) m # copies gen now dest raw (uid + 1) (Suc k) ms"

lemma copies_cong:
  "\<forall>x \<in> set ms. raw (msg_ID (snd x)) = raw' (msg_ID (snd x)) \<Longrightarrow>
     copies gen now dest raw uid k ms = copies gen now dest raw' uid k ms"
  by (induction ms arbitrary: uid k) auto

lemma copy_row_keys [simp]:
  "r_id (copy_row now i dest uid raw m) = i" "r_mailbox_id (copy_row now i dest uid raw m) = dest"
  "r_imap_uid (copy_row now i dest uid raw m) = uid" "r_raw_body (copy_row now i dest uid raw m) = raw"
  by (simp_all add: copy_row_def row_of_message_def copyMessageData_def)

lemma in_copies: "x \<in> set (copies gen now dest raw uid k ms) \<Longrightarrow> r_mailbox_id x = dest \<and> (\<exists>j \<ge> k. r_id x = gen j)"
proof (induction ms arbitrary: uid k)
  case (Cons y ms)
  obtain s m where y: "y = (s, m)" by (cases y)
  show ?case
    using Cons.prems Cons.IH [of "uid + 1" "Suc k"] unfolding y by (auto intro: Suc_leD)
qed simp

lemma uids_copies: "map r_imap_uid (copies gen now dest raw uid k ms) = map (\<lambda>j. word_of_int (uid + int j)) [0..<length ms]"
proof (induction ms arbitrary: uid k)
  case (Cons x ms)
  have "[0..<length (x # ms)] = 0 # map Suc [0..<length ms]"
    by (simp add: upt_conv_Cons map_Suc_upt del: upt_Suc)
  then show ?case
    using Cons by (cases x) (simp add: comp_def algebra_simps)
qed simp

lemma recipients_of_uid [simp]:
  "recipients_of (m\<lparr>msg_IMAPUID := u\<rparr>) = recipients_of m" "recipients_of (m\<lparr>msg_RawBody := raw\<rparr>) = recipients_of m"
  by (simp_all add: recipients_of_def split: option.split)

text \<open>One message copied: the new row, and what else of the store is still as the loop needs it.\<close>

lemma at_new_row:
  assumes "db_messages d1 = ms @ [x]" and "r_id x \<notin> r_id ` set ms"
  shows "at_row (r_id x) g d1 = d1\<lparr>db_messages := ms @ [g x]\<rparr>"
proof -
  have "update_where (\<lambda>y. r_id y = r_id x) g ms = ms"
    using assms(2) unfolding update_where_def by (intro map_idI) (auto simp: image_iff)
  then show ?thesis
    using assms(1) by (simp add: at_row_def update_where_def)
qed

lemma store_raw_created:
  assumes d1: "schema_ok d1" "db_messages d1 = ms @ [x]" and x: "r_id x \<notin> r_id ` set ms" "r_updated_at x = now"
  shows "snd (StoreRawBody now (r_id x) raw d1) = d1\<lparr>db_messages := ms @ [x\<lparr>r_raw_body := raw\<rparr>]\<rparr>"
proof -
  let ?g = "\<lambda>y. (y\<lparr>r_raw_body := raw\<rparr>)\<lparr>r_updated_at := now\<rparr>"
  have "StoreRawBody now (r_id x) raw d1 = (Inr (), at_row (r_id x) ?g d1)"
    unfolding StoreRawBody_def using d1 by (intro set_flag_ok) (simp_all add: keeps_message_keys_def)
  then show ?thesis
    using at_new_row [OF d1(2) x(1), of ?g] x(2) by simp
qed

lemma copy_one:
  assumes d: "schema_ok d" "uids_ok d" and b: "b \<in> set (db_mailboxes d)" "mr_id b = dest" "scan_uint32 (mr_uid_next b)"
    and i: "i \<notin> r_id ` set (db_messages d)" and r: "r \<in> set (db_messages d)" "r_id r = msg_ID m"
  shows "\<exists>n d1. Create now (copyMessageData now m i dest) d = (Inr n, d1) \<and> msg_IMAPUID n = word_of_int (mr_uid_next b) \<and>
    (\<exists>d2. copy_raw_body now (msg_ID m) i d1 = d2 \<and> schema_ok d2 \<and> uids_ok d2 \<and>
      db_messages d2 = db_messages d @ [copy_row now i dest (word_of_int (mr_uid_next b)) (raw_of d (msg_ID m)) m] \<and>
      db_recipients d2 = db_recipients d @ recipients_of (copyMessageData now m i dest) \<and>
      (\<exists>f. db_mailboxes d2 = update_where (\<lambda>r. mr_id r = dest) (\<lambda>b. bump_row now (f b) (msg_Status m = MessageUnread) b)
         (db_mailboxes d)))"
proof -
  let ?m = "(copyMessageData now m i dest)\<lparr>msg_IMAPUID := word_of_int (mr_uid_next b)\<rparr>"
  let ?d1 = "created_db now ?m d"
  let ?x = "row_of_message ?m"
  have keys: "msg_MailboxID (copyMessageData now m i dest) = dest" "msg_IMAPUID (copyMessageData now m i dest) = 0"
    "msg_ID (copyMessageData now m i dest) = i" "msg_Status (copyMessageData now m i dest) = msg_Status m"
    by (simp_all add: copyMessageData_def)
  note created = Create_ok [OF d b(1), of "copyMessageData now m i dest" now, unfolded keys, OF b(2,3) refl i]
  have uids: "uids_ok ?d1"
    using d b by (intro uids_ok_created) (simp_all add: keys)
  have x: "r_id ?x = i" "r_updated_at ?x = now" "r_raw_body ?x = []"
    by (simp_all add: row_of_message_def copyMessageData_def)
  have msgs: "db_messages ?d1 = db_messages d @ [?x]"
    by (simp add: created_db_def)
  have find: "find (\<lambda>r. r_id r = msg_ID m) (db_messages d) = Some r"
    using r by (simp add: find_message_iff [OF d(1)])
  have raw: "raw_of d (msg_ID m) = r_raw_body r"
    by (simp add: raw_of_def find)
  have get: "GetRawBody (msg_ID m) ?d1 = (Inr (r_raw_body r), ?d1)"
    using find by (simp add: GetRawBody_def msgs find_append)
  let ?d2 = "?d1\<lparr>db_messages := db_messages d @ [?x\<lparr>r_raw_body := r_raw_body r\<rparr>]\<rparr>"
  have run: "copy_raw_body now (msg_ID m) i ?d1 = ?d2"
  proof (cases "r_raw_body r = []")
    case True
    have "?x\<lparr>r_raw_body := []\<rparr> = ?x"
      using x(3) by simp
    moreover have "?d1\<lparr>db_messages := db_messages ?d1\<rparr> = ?d1"
      by simp
    ultimately show ?thesis
      using True by (simp add: copy_raw_body_def get msgs)
  next
    case False
    then show ?thesis
      using store_raw_created [OF created(2) msgs _ x(2), of "r_raw_body r"] i x(1)
      by (simp add: copy_raw_body_def get)
  qed
  have ok: "schema_ok ?d2"
    using at_new_row [OF msgs, of "\<lambda>y. y\<lparr>r_raw_body := r_raw_body r\<rparr>"] i x(1)
      schema_ok_at_row [OF created(2), of "\<lambda>y. y\<lparr>r_raw_body := r_raw_body r\<rparr>" i] by (simp add: keeps_message_keys_def)
  have uids2: "uids_ok ?d2"
    using uids by (simp add: uids_ok_def uid_below_def msgs)
  have row: "?x\<lparr>r_raw_body := r_raw_body r\<rparr> = copy_row now i dest (word_of_int (mr_uid_next b)) (raw_of d (msg_ID m)) m"
    by (simp add: copy_row_def raw row_of_message_def)
  show ?thesis
    using created(1) run ok uids2 row
    by (intro exI [of _ ?m] exI [of _ ?d1] conjI exI [of _ ?d2] exI [of _ "\<lambda>_. msg_Size ?m"])
      (simp_all add: created_db_def keys)
qed


lemma load_copy:
  assumes "\<forall>r \<in> set (db_recipients d). rr_message_id r \<noteq> i"
    and "filter (\<lambda>r. rr_message_id r = i) (db_recipients d') = filter (\<lambda>r. rr_message_id r = i)
      (db_recipients d @ recipients_of (copyMessageData now m i dest))"
  shows "load d' (copy_row now i dest uid raw m) = (copyMessageData now m i dest)\<lparr>msg_IMAPUID := uid, msg_RawBody := raw\<rparr>"
proof -
  let ?m = "(copyMessageData now m i dest)\<lparr>msg_IMAPUID := uid, msg_RawBody := raw\<rparr>"
  have id: "msg_ID ?m = i"
    by (simp add: copyMessageData_def)
  have "loadRecipients (db_recipients d') (toMessage (row_of_message ?m)) =
      loadRecipients (db_recipients d @ recipients_of ?m) (toMessage (row_of_message ?m))"
    using assms(2) id by (simp add: loadRecipients_def toMessage_def row_of_message_def)
  also have "\<dots> = ?m\<lparr>msg_AllHeaders := []\<rparr>"
    by (rule load_saved) (simp add: id assms(1))
  also have "\<dots> = ?m"
    by (simp add: copyMessageData_def)
  finally show ?thesis by (simp add: load_def copy_row_def)
qed

lemma copy_recipients_of:
  "i \<noteq> i' \<Longrightarrow> filter (\<lambda>r. rr_message_id r = i) (recipients_of (copyMessageData now m i' dest)) = []"
  by (auto simp: recipients_of_def recipient_row_def copyMessageData_def filter_empty_conv split: option.splits)

text \<open>The loop over fresh UUIDs with room for the new UIDs: no copy fails.\<close>

lemma copy_loop_ok:
  assumes "schema_ok d" and "uids_ok d" and "b \<in> set (db_mailboxes d)" and "mr_id b = dest"
    and "mr_uid_next b + int (length ms) \<le> 2 ^ 32" and "inj gen" and "\<forall>j \<ge> k. gen j \<notin> r_id ` set (db_messages d)"
    and "\<forall>x \<in> set ms. msg_ID (snd x) \<in> r_id ` set (db_messages d)"
  shows "\<exists>d' new. copy_loop gen now dest k ms res d =
      (res\<lparr>cr_SourceUIDs := cr_SourceUIDs res @ map (msg_IMAPUID \<circ> snd) ms,
           cr_DestUIDs := cr_DestUIDs res @ map r_imap_uid new,
           cr_CopiedCount := cr_CopiedCount res + int (length ms)\<rparr>, d') \<and> schema_ok d' \<and>
    new = copies gen now dest (raw_of d) (mr_uid_next b) k ms \<and> db_messages d' = db_messages d @ new \<and>
    (\<forall>i. (\<forall>j \<ge> k. i \<noteq> gen j) \<longrightarrow>
       filter (\<lambda>r. rr_message_id r = i) (db_recipients d') = filter (\<lambda>r. rr_message_id r = i) (db_recipients d)) \<and>
    list_all2 (\<lambda>x r. load d' r = (copyMessageData now (snd x) (r_id r) dest)
        \<lparr>msg_IMAPUID := r_imap_uid r, msg_RawBody := raw_of d (msg_ID (snd x))\<rparr>) ms new"
  using assms
proof (induction ms arbitrary: d b k res)
  case (Cons x ms)
  obtain s m where x: "x = (s, m)" by (cases x)
  obtain r where r: "r \<in> set (db_messages d)" "r_id r = msg_ID m"
    using Cons.prems(8) x by auto
  have uid: "scan_uint32 (mr_uid_next b)"
    using Cons.prems(2,3,5) by (auto simp: scan_uint32_def uids_ok_def list_all_iff)
  have fresh: "gen k \<notin> r_id ` set (db_messages d)"
    using Cons.prems(7) by simp
  let ?x = "copy_row now (gen k) dest (word_of_int (mr_uid_next b)) (raw_of d (msg_ID m)) m"
  from copy_one [OF Cons.prems(1-4) uid fresh r, of now] obtain n d1 d2 f where
    create: "Create now (copyMessageData now m (gen k) dest) d = (Inr n, d1)" "msg_IMAPUID n = word_of_int (mr_uid_next b)"
      "copy_raw_body now (msg_ID m) (gen k) d1 = d2"
    and d2: "schema_ok d2" "uids_ok d2" "db_messages d2 = db_messages d @ [?x]"
      "db_recipients d2 = db_recipients d @ recipients_of (copyMessageData now m (gen k) dest)"
      "db_mailboxes d2 = update_where (\<lambda>r. mr_id r = dest) (\<lambda>b. bump_row now (f b) (msg_Status m = MessageUnread) b)
         (db_mailboxes d)"
    by blast
  define b' where "b' = bump_row now (f b) (msg_Status m = MessageUnread) b"
  have b': "b' \<in> set (db_mailboxes d2)" "mr_id b' = dest" "mr_uid_next b' = mr_uid_next b + 1"
    using Cons.prems(3,4) by (force simp: b'_def d2(5) set_update_where bump_row_def)+
  have ne: "gen j \<noteq> gen k" if "j \<ge> Suc k" for j
    using that Cons.prems(6) by (auto dest: injD)
  have fresh': "\<forall>j \<ge> Suc k. gen j \<notin> r_id ` set (db_messages d2)"
    using Cons.prems(7) ne by (auto simp: d2(3) dest: Suc_leD)
  have orig: "\<forall>x \<in> set ms. msg_ID (snd x) \<in> r_id ` set (db_messages d2)"
    using Cons.prems(8) by (auto simp: d2(3))
  have raw: "raw_of d2 i = raw_of d i" if "i \<in> r_id ` set (db_messages d)" for i
  proof -
    from that obtain y where "find (\<lambda>r. r_id r = i) (db_messages d) = Some y"
      using find_message_iff [OF Cons.prems(1)] by blast
    then show ?thesis by (simp add: raw_of_def d2(3) find_append)
  qed
  let ?res = "res\<lparr>cr_SourceUIDs := cr_SourceUIDs res @ [msg_IMAPUID m], cr_DestUIDs := cr_DestUIDs res @ [msg_IMAPUID n],
     cr_CopiedCount := cr_CopiedCount res + 1\<rparr>"
  have room: "mr_uid_next b' + int (length ms) \<le> 2 ^ 32"
    using Cons.prems(5) b'(3) by simp
  from Cons.IH [OF d2(1,2) b'(1,2) room Cons.prems(6) fresh' orig, of ?res] obtain d' new where
    IH: "copy_loop gen now dest (Suc k) ms ?res d2 =
      (?res\<lparr>cr_SourceUIDs := cr_SourceUIDs ?res @ map (msg_IMAPUID \<circ> snd) ms,
           cr_DestUIDs := cr_DestUIDs ?res @ map r_imap_uid new,
           cr_CopiedCount := cr_CopiedCount ?res + int (length ms)\<rparr>, d')" "schema_ok d'"
      "new = copies gen now dest (raw_of d2) (mr_uid_next b') (Suc k) ms" "db_messages d' = db_messages d2 @ new"
    and rec: "\<forall>i. (\<forall>j \<ge> Suc k. i \<noteq> gen j) \<longrightarrow>
       filter (\<lambda>r. rr_message_id r = i) (db_recipients d') = filter (\<lambda>r. rr_message_id r = i) (db_recipients d2)"
    and loads: "list_all2 (\<lambda>x r. load d' r = (copyMessageData now (snd x) (r_id r) dest)
        \<lparr>msg_IMAPUID := r_imap_uid r, msg_RawBody := raw_of d2 (msg_ID (snd x))\<rparr>) ms new"
    by blast
  have raws: "\<forall>x \<in> set ms. raw_of d2 (msg_ID (snd x)) = raw_of d (msg_ID (snd x))"
    using raw Cons.prems(8) by simp
  have new: "new = copies gen now dest (raw_of d) (mr_uid_next b + 1) (Suc k) ms"
    using copies_cong [OF raws] IH(3) b'(3) by simp
  have none: "\<forall>r \<in> set (db_recipients d). rr_message_id r \<noteq> gen k"
    using Cons.prems(1) fresh by (simp add: schema_defs list_all_iff) metis
  have "load d' ?x = (copyMessageData now m (gen k) dest)\<lparr>msg_IMAPUID := word_of_int (mr_uid_next b), msg_RawBody := raw_of d (msg_ID m)\<rparr>"
  proof (rule load_copy [OF none])
    show "filter (\<lambda>r. rr_message_id r = gen k) (db_recipients d') = filter (\<lambda>r. rr_message_id r = gen k)
        (db_recipients d @ recipients_of (copyMessageData now m (gen k) dest))"
      using rec ne unfolding d2(4) by metis
  qed
  moreover have "list_all2 (\<lambda>x r. load d' r = (copyMessageData now (snd x) (r_id r) dest)
        \<lparr>msg_IMAPUID := r_imap_uid r, msg_RawBody := raw_of d (msg_ID (snd x))\<rparr>) ms new"
    using loads raws by (auto simp: list_all2_conv_all_nth)
  ultimately have l: "list_all2 (\<lambda>x r. load d' r = (copyMessageData now (snd x) (r_id r) dest)
        \<lparr>msg_IMAPUID := r_imap_uid r, msg_RawBody := raw_of d (msg_ID (snd x))\<rparr>) (x # ms) (?x # new)"
    by (simp add: x)
  have r': "filter (\<lambda>r. rr_message_id r = i) (db_recipients d') = filter (\<lambda>r. rr_message_id r = i) (db_recipients d)"
    if "\<forall>j \<ge> k. i \<noteq> gen j" for i
    using that rec by (simp add: d2(4) copy_recipients_of)
  show ?case
    using create IH(1,2,4) d2(3) l r' new
    by (intro exI [of _ d'] exI [of _ "?x # new"] conjI) (simp_all add: x)
qed simp


section \<open>COPY and MOVE as a whole\<close>

text \<open>The rows a number set selects in a mailbox, with their sequence numbers.\<close>

definition selected :: "NumSet \<Rightarrow> ID \<Rightarrow> db \<Rightarrow> (32 word \<times> messageRow) list" where
  "selected numSet i d = filter (\<lambda>(k, r). numSetContainsMessage numSet k (r_imap_uid r)) (numbered (box_rows i d))"

lemma sorted_numbered:
  assumes "length xs < 2 ^ 32"
  shows "sorted_wrt (<) (map fst (filter P (numbered xs)))"
proof -
  have "seq_of i < seq_of j" if "i < j" "j < length xs" for i j
    using that assms by (simp add: word_less_nat_alt unat_seq_of)
  then have "sorted_wrt (\<lambda>x y. fst x < fst y) (numbered xs)"
    by (simp add: sorted_wrt_iff_nth_less numbered_def seq_of_def del: of_nat_Suc)
  from sorted_wrt_filter [OF this, of P] show ?thesis
    by (simp add: sorted_wrt_map)
qed

lemma in_seq_order_sorted:
  assumes "sorted_wrt (<) (map fst ms)"
  shows "in_seq_order (sortUint32 (map fst ms)) ms = ms"
proof -
  have d: "distinct (map fst ms)" and sorted: "sort (map fst ms) = map fst ms"
    using assms by (simp_all add: strict_sorted_iff sorted_sort_id)
  have "map (\<lambda>x. case map_of ms (fst x) of None \<Rightarrow> [] | Some m \<Rightarrow> [(fst x, m)]) ms = map (\<lambda>x. [x]) ms"
    using d by (intro map_cong) auto
  then have "in_seq_order (map fst ms) ms = concat (map (\<lambda>x. [x]) ms)"
    by (simp only: in_seq_order_def map_map comp_def)
  moreover have "concat (map (\<lambda>x. [x]) ms) = ms"
    by (induction ms) simp_all
  ultimately show ?thesis
    by (simp only: sortUint32_sorts sorted)
qed

lemma selected_rows:
  assumes "(k, r) \<in> set (selected numSet i d)"
  shows "r \<in> set (db_messages d)" and "r_mailbox_id r = i"
proof -
  have "(k, r) \<in> set (numbered (box_rows i d))"
    using assms by (simp add: selected_def)
  then have "r \<in> set (box_rows i d)"
    by (metis image_eqI list.set_map snd_conv snd_numbered)
  then show "r \<in> set (db_messages d)" and "r_mailbox_id r = i"
    by (simp_all add: in_box_rows)
qed

lemma load_raw [simp]: "msg_RawBody (load d r) = r_raw_body r" "msg_AllHeaders (load d r) = []"
proof -
  have "msg_RawBody (fold add_recipient rs m) = msg_RawBody m \<and> msg_AllHeaders (fold add_recipient rs m) = msg_AllHeaders m" for rs m
    by (induction rs arbitrary: m) (simp_all add: add_recipient_def Let_def)
  then show "msg_RawBody (load d r) = r_raw_body r" "msg_AllHeaders (load d r) = []"
    by (simp_all add: load_def loadRecipients_def toMessage_def)
qed

text \<open>What a copy keeps of its original and what it does not.\<close>

definition copied :: "instant \<Rightarrow> ID \<Rightarrow> Message \<Rightarrow> Message \<Rightarrow> Message" where
  "copied now dest x m =
     m\<lparr>msg_ID := msg_ID x, msg_MailboxID := dest, msg_IMAPUID := msg_IMAPUID x, msg_IsDeleted := False,
       msg_IsDraft := False, msg_IsAnswered := False, msg_ThreadID := [], msg_BlobID := [], msg_CreatedAt := now,
       msg_UpdatedAt := now\<rparr>"

lemma copies_rows:
  "\<forall>x \<in> set sel. raw (r_id (snd x)) = r_raw_body (snd x) \<Longrightarrow>
     list_all2 (\<lambda>(_, r) x. \<exists>j u. x = copy_row now (gen j) dest u (r_raw_body r) (load d r)) sel
       (copies gen now dest raw uid k (map (\<lambda>(k, r). (k, load d r)) sel))"
proof (induction sel arbitrary: uid k)
  case (Cons x sel)
  then show ?case by (cases x) (auto intro: exI [of _ k] exI [of _ "word_of_int uid"])
qed simp

lemma copyMessages_ok:
  assumes d: "schema_ok d" "uids_ok d" and b: "b \<in> set (db_mailboxes d)"
    and room: "mr_uid_next b + int (length sel) \<le> 2 ^ 32" and gen: "inj gen" "\<forall>j \<ge> k. gen j \<notin> r_id ` set (db_messages d)"
    and sel: "sel = selected numSet i d" and len: "length (box_rows i d) < 2 ^ 32"
  shows "\<exists>res d' new. copyMessages gen now k (map (\<lambda>(k, r). (k, load d r)) sel) (toMailbox b) d = (res, d') \<and>
    cr_UIDValidity res = generateUIDValidity (toMailbox b) \<and> cr_SourceUIDs res = map (r_imap_uid \<circ> snd) sel \<and>
    cr_DestUIDs res = map r_imap_uid new \<and>
    map r_imap_uid new = map (\<lambda>j. word_of_int (mr_uid_next b + int j)) [0..<length sel] \<and>
    schema_ok d' \<and> db_messages d' = db_messages d @ new \<and>
    list_all2 (\<lambda>(_, r) x. load d' x = copied now (mr_id b) (load d' x) (load d r)) sel new \<and>
    list_all2 (\<lambda>(_, r) x. \<exists>j u. x = copy_row now (gen j) (mr_id b) u (r_raw_body r) (load d r)) sel new"
proof -
  let ?ms = "map (\<lambda>(k, r). (k, load d r)) sel"
  have fst: "map fst ?ms = map fst sel"
    by (simp add: comp_def case_prod_unfold)
  have "sorted_wrt (<) (map fst ?ms)"
    unfolding fst using sorted_numbered [OF len] by (simp add: sel selected_def)
  note order = in_seq_order_sorted [OF this]
  have ids: "\<forall>x \<in> set ?ms. msg_ID (snd x) \<in> r_id ` set (db_messages d)"
    using selected_rows(1) sel by (auto simp: case_prod_unfold)
  have raw: "raw_of d (r_id r) = r_raw_body r" if "(k, r) \<in> set sel" for k r
    using that selected_rows(1) sel find_message_iff [OF d(1), of "r_id r" r] by (simp add: raw_of_def)
  let ?res = "\<lparr>cr_SourceUIDs = [], cr_DestUIDs = [], cr_UIDValidity = generateUIDValidity (toMailbox b),
     cr_CopiedCount = 0, cr_FailedCount = 0\<rparr>"
  have id: "mb_ID (toMailbox b) = mr_id b"
    by (simp add: toMailbox_def)
  have room': "mr_uid_next b + int (length ?ms) \<le> 2 ^ 32"
    using room by simp
  from copy_loop_ok [OF d b refl room' gen ids, of now ?res] obtain d' new where
    run: "copy_loop gen now (mr_id b) k ?ms ?res d = (?res\<lparr>cr_SourceUIDs := cr_SourceUIDs ?res @ map (msg_IMAPUID \<circ> snd) ?ms,
           cr_DestUIDs := cr_DestUIDs ?res @ map r_imap_uid new,
           cr_CopiedCount := cr_CopiedCount ?res + int (length ?ms)\<rparr>, d')" "schema_ok d'"
    and new: "new = copies gen now (mr_id b) (raw_of d) (mr_uid_next b) k ?ms" "db_messages d' = db_messages d @ new"
    and loads: "list_all2 (\<lambda>x r. load d' r = (copyMessageData now (snd x) (r_id r) (mr_id b))
        \<lparr>msg_IMAPUID := r_imap_uid r, msg_RawBody := raw_of d (msg_ID (snd x))\<rparr>) ?ms new"
    by blast
  have uids: "map r_imap_uid new = map (\<lambda>j. word_of_int (mr_uid_next b + int j)) [0..<length sel]"
    unfolding new(1) by (subst uids_copies) simp
  have "list_all2 (\<lambda>(_, r) x. load d' x = copied now (mr_id b) (load d' x) (load d r)) sel new"
    unfolding list_all2_conv_all_nth
  proof (intro conjI allI impI)
    show "length sel = length new" using loads by (auto dest: list_all2_lengthD)
    fix n assume n: "n < length sel"
    obtain k r where kr: "sel ! n = (k, r)" by (cases "sel ! n")
    then have "(k, r) \<in> set sel" using n by (metis nth_mem)
    from raw [OF this] have "load d' (new ! n) = (copyMessageData now (load d r) (r_id (new ! n)) (mr_id b))
        \<lparr>msg_IMAPUID := r_imap_uid (new ! n), msg_RawBody := r_raw_body r\<rparr>"
      using loads n kr by (auto simp: list_all2_conv_all_nth)
    then show "(\<lambda>(_, r) x. load d' x = copied now (mr_id b) (load d' x) (load d r)) (sel ! n) (new ! n)"
      by (simp add: kr copied_def copyMessageData_def)
  qed
  moreover have "list_all2 (\<lambda>(_, r) x. \<exists>j u. x = copy_row now (gen j) (mr_id b) u (r_raw_body r) (load d r)) sel new"
    unfolding new(1) by (rule copies_rows) (use raw in auto)
  moreover have "copyMessages gen now k ?ms (toMailbox b) d =
      (?res\<lparr>cr_SourceUIDs := cr_SourceUIDs ?res @ map (msg_IMAPUID \<circ> snd) ?ms,
           cr_DestUIDs := cr_DestUIDs ?res @ map r_imap_uid new,
           cr_CopiedCount := cr_CopiedCount ?res + int (length ?ms)\<rparr>, d')"
    unfolding copyMessages_def order id by (rule run)
  ultimately show ?thesis
    using run(2) new(2) uids
    by (intro exI [of _ "?res\<lparr>cr_SourceUIDs := cr_SourceUIDs ?res @ map (msg_IMAPUID \<circ> snd) ?ms,
           cr_DestUIDs := cr_DestUIDs ?res @ map r_imap_uid new,
           cr_CopiedCount := cr_CopiedCount ?res + int (length ?ms)\<rparr>"] exI [of _ d'] exI [of _ new] conjI)
      (simp_all add: comp_def case_prod_unfold)
qed

lemma prepare_ok:
  assumes "copy_findMailboxByName userID destName d = (Inr dest, d)" and "mb_ID dest \<noteq> mb_ID mbox"
  shows "copy_prepare fts userID (Some mbox) numSet destName same d =
    (Inr (dest, map (\<lambda>(k, r). (k, load d r)) (selected numSet (mb_ID mbox) d)), d)"
  using assms by (simp add: copy_prepare_def imap_then_def imap_ret_def or_missing_def getMessages_eq selected_def)


section \<open>MOVE\<close>

lemma copy_row_flags: "row_flags (copy_row now i dest uid raw m) = message_flags m \<inter> {FlagSeen, FlagFlagged}"
  by (auto simp: row_flags_def copy_row_def message_flags_def toMessage_def row_of_message_def copyMessageData_def)

lemma copy_row_content:
  "r_received_at (copy_row now i dest uid raw (load d r)) = r_received_at r"
  "r_size (copy_row now i dest uid raw (load d r)) = r_size r"
proof -
  have "msg_ReceivedAt (fold add_recipient rs m) = msg_ReceivedAt m \<and> msg_Size (fold add_recipient rs m) = msg_Size m" for rs m
    by (induction rs arbitrary: m) (simp_all add: add_recipient_def Let_def)
  then show "r_received_at (copy_row now i dest uid raw (load d r)) = r_received_at r"
    "r_size (copy_row now i dest uid raw (load d r)) = r_size r"
    by (simp_all add: copy_row_def row_of_message_def copyMessageData_def load_def loadRecipients_def toMessage_def)
qed

lemma deleteOriginalMessages_ok:
  assumes d': "schema_ok d'" "set (db_messages d) \<subseteq> set (db_messages d')" and d: "schema_ok d"
    and sel: "sel = selected numSet (mb_ID mbox) d" and len: "length (box_rows (mb_ID mbox) d) < 2 ^ 32"
  shows "\<exists>d''. deleteOriginalMessages now mbox (map (\<lambda>(k, r). (k, load d r)) sel) d' = (rev (map fst sel), d'') \<and>
    db_messages d'' = filter (\<lambda>x. r_id x \<notin> r_id ` snd ` set sel) (db_messages d')"
proof -
  let ?ms = "map (\<lambda>(k, r). (k, load d r)) sel"
  have fst: "map fst ?ms = map fst sel"
    by (simp add: comp_def case_prod_unfold)
  have sorted: "sorted_wrt (<) (map fst sel)"
    using sorted_numbered [OF len] by (simp add: sel selected_def)
  then have dist: "distinct (map fst ?ms)" and seqs: "sortUint32Desc (map fst ?ms) = rev (map fst sel)"
    by (simp_all only: fst strict_sorted_iff sortUint32Desc_sorts sorted_sort_id)
  have at: "map_of ?ms k = Some (load d r)" if "(k, r) \<in> set sel" for k r
    using dist that by (intro map_of_is_SomeI) auto
  have ids: "map (\<lambda>k. msg_ID (the (map_of ?ms k))) (rev (map fst sel)) = rev (map (r_id \<circ> snd) sel)"
  proof -
    have "map (\<lambda>x. msg_ID (the (map_of ?ms (fst x)))) sel = map (r_id \<circ> snd) sel"
    proof (rule map_cong [OF refl])
      fix x assume "x \<in> set sel"
      then show "msg_ID (the (map_of ?ms (fst x))) = (r_id \<circ> snd) x"
        using at [of "fst x" "snd x"] by simp
    qed
    then show ?thesis by (simp add: rev_map [symmetric] comp_def)
  qed
  have "distinct (map (r_id \<circ> snd) (numbered (box_rows (mb_ID mbox) d)))"
    using distinct_box_rows [OF d] by (metis map_map snd_numbered)
  then have "distinct (map (r_id \<circ> snd) sel)"
    unfolding sel selected_def by (rule distinct_map_filter)
  then have dist2: "distinct (map (\<lambda>k. msg_ID (the (map_of ?ms k))) (rev (map fst sel)))"
    unfolding ids by simp
  have mem: "\<exists>m. map_of ?ms k = Some m \<and> msg_ID m \<in> r_id ` set (db_messages d')" if "k \<in> set (rev (map fst sel))" for k
    using that at selected_rows(1) sel d'(2) by fastforce
  from expunge_loop_ok [OF d'(1) dist2 mem, of now] obtain d'' where
    run: "expunge_loop now ?ms (rev (map fst sel)) d' = (map (\<lambda>k. (k, msg_ID (the (map_of ?ms k)))) (rev (map fst sel)), d'')"
    and msgs: "db_messages d'' = filter (\<lambda>x. r_id x \<notin> set (map (\<lambda>k. msg_ID (the (map_of ?ms k))) (rev (map fst sel)))) (db_messages d')"
    by blast
  have firsts: "map fst (map (\<lambda>k. (k, f k)) ks) = ks" for f :: "32 word \<Rightarrow> ID" and ks
    by (simp add: comp_def)
  have "deleteOriginalMessages now mbox ?ms d' = (rev (map fst sel), snd (RecalculateStats now (mb_ID mbox) d''))"
    unfolding deleteOriginalMessages_def seqs run prod.case firsts ..
  moreover have "db_messages (snd (RecalculateStats now (mb_ID mbox) d'')) =
      filter (\<lambda>x. r_id x \<notin> r_id ` snd ` set sel) (db_messages d')"
    unfolding Recalculate_messages msgs ids by (simp add: image_comp)
  ultimately show ?thesis by blast
qed



text \<open>A generator of UUIDs for the witnesses.\<close>

definition sample_gen :: "nat \<Rightarrow> ID" where
  "sample_gen j = replicate (Suc (Suc j)) CHR ''z''"

lemma sample_gen_fresh: "inj sample_gen" "\<forall>j \<ge> 0. sample_gen j \<notin> r_id ` set (db_messages imap_db)"
proof -
  show "inj sample_gen"
    by (auto simp: inj_def sample_gen_def)
  have "map r_id (db_messages imap_db) = [''x'', ''y'']"
    by code_simp
  then have "r_id ` set (db_messages imap_db) = {''x'', ''y''}"
    by (metis list.set(1) list.simps(15) list.set_map)
  then show "\<forall>j \<ge> 0. sample_gen j \<notin> r_id ` set (db_messages imap_db)"
    by (simp add: sample_gen_def)
qed

definition imap_box :: "nat \<Rightarrow> mailboxRow" where
  "imap_box n = db_mailboxes imap_db ! n"

lemma imap_box_facts:
  "imap_box 1 \<in> set (db_mailboxes imap_db)" "mr_id (imap_box 1) = ''b''" "mr_uid_next (imap_box 1) = 1"
  "mb_ID (toMailbox (imap_box 0)) = ''a''" "schema_ok imap_db" "uids_ok imap_db"
  "length (box_rows ''a'' imap_db) = 2"
  by code_simp+

lemma imap_find_b: "copy_findMailboxByName ''u1'' ''b'' imap_db = (Inr (toMailbox (imap_box 1)), imap_db)"
  by code_simp

lemma imap_selected:
  "map (\<lambda>(k, r). (k, r_id r, r_imap_uid r)) (selected (SeqSet (\<lambda>k. k = 2)) ''a'' imap_db) = [(2, ''y'', 2)]"
  by code_simp

lemma imap_copy_ready:
  "mr_id (imap_box 1) \<noteq> mb_ID (toMailbox (imap_box 0))"
  "mr_uid_next (imap_box 1) + int (length (selected (SeqSet (\<lambda>k. k = 2)) (mb_ID (toMailbox (imap_box 0))) imap_db)) \<le> 2 ^ 32"
  "length (box_rows (mb_ID (toMailbox (imap_box 0))) imap_db) < 2 ^ 32"
  "length (selected (SeqSet (\<lambda>k. k = 2)) ''a'' imap_db) = 1"
proof -
  show one: "length (selected (SeqSet (\<lambda>k. k = 2)) ''a'' imap_db) = 1"
    using arg_cong [OF imap_selected, of length] by simp
  show "mr_id (imap_box 1) \<noteq> mb_ID (toMailbox (imap_box 0))"
    "mr_uid_next (imap_box 1) + int (length (selected (SeqSet (\<lambda>k. k = 2)) (mb_ID (toMailbox (imap_box 0))) imap_db)) \<le> 2 ^ 32"
    "length (box_rows (mb_ID (toMailbox (imap_box 0))) imap_db) < 2 ^ 32"
    unfolding imap_box_facts one by simp_all
qed



section \<open>Where an appended message comes to stand\<close>

lemma append_flag_keys [simp]:
  "msg_ID (append_flag f m) = msg_ID m" "msg_MailboxID (append_flag f m) = msg_MailboxID m"
  "msg_IMAPUID (append_flag f m) = msg_IMAPUID m" "msg_ReceivedAt (append_flag f m) = msg_ReceivedAt m"
  "msg_RawBody (append_flag f m) = msg_RawBody m"
  by (cases f; simp add: append_flag_def)+

lemma append_flags_keys [simp]:
  "msg_ID (fold append_flag fs m) = msg_ID m" "msg_MailboxID (fold append_flag fs m) = msg_MailboxID m"
  "msg_IMAPUID (fold append_flag fs m) = msg_IMAPUID m" "msg_ReceivedAt (fold append_flag fs m) = msg_ReceivedAt m"
  "msg_RawBody (fold append_flag fs m) = msg_RawBody m"
  by (induction fs arbitrary: m) simp_all

lemma append_flag_flags: "message_flags (append_flag f m) = message_flags m \<union> ({f} \<inter> set StandardFlags)"
  by (cases f) (auto simp: append_flag_def message_flags_def StandardFlags_def)

lemma append_flags_flags: "message_flags (fold append_flag fs m) = message_flags m \<union> (set fs \<inter> set StandardFlags)"
  by (induction fs arbitrary: m) (auto simp: append_flag_flags)

definition option_flags :: "AppendOptions option \<Rightarrow> imap_flag set" where
  "option_flags options = (case options of None \<Rightarrow> {} | Some opt \<Rightarrow> set (ao_Flags opt))"

lemma append_options_keys [simp]:
  "msg_ID (append_options options m) = msg_ID m" "msg_MailboxID (append_options options m) = msg_MailboxID m"
  "msg_IMAPUID (append_options options m) = msg_IMAPUID m" "msg_ReceivedAt (append_options options m) = msg_ReceivedAt m"
  "msg_RawBody (append_options options m) = msg_RawBody m"
  by (simp_all add: append_options_def Let_def split: option.splits)

lemma append_options_flags: "message_flags (append_options options m) = message_flags m \<union> (option_flags options \<inter> set StandardFlags)"
proof (cases options)
  case (Some opt)
  have "message_flags (m\<lparr>msg_SentAt := t\<rparr>) = message_flags m" for m t
    by (simp add: message_flags_def)
  then show ?thesis
    using Some by (simp add: append_options_def option_flags_def Let_def append_flags_flags)
qed (simp add: append_options_def option_flags_def)

text \<open>What a parsed message does not touch.\<close>

definition same_marks :: "Message \<Rightarrow> Message \<Rightarrow> bool" where
  "same_marks m x \<longleftrightarrow> msg_ReceivedAt x = msg_ReceivedAt m \<and> msg_Status x = msg_Status m \<and>
     msg_IsStarred x = msg_IsStarred m \<and> msg_IsDeleted x = msg_IsDeleted m \<and> msg_IsDraft x = msg_IsDraft m \<and>
     msg_IsAnswered x = msg_IsAnswered m"

lemma same_marks_let: "same_marks m a \<Longrightarrow> (\<And>x. same_marks m x \<Longrightarrow> same_marks m (f x)) \<Longrightarrow> same_marks m (let x = a in f x)"
  by simp

lemma same_marks_if: "same_marks m a \<Longrightarrow> same_marks m b \<Longrightarrow> same_marks m (if c then a else b)"
  by simp

lemma same_marks_option: "same_marks m a \<Longrightarrow> (\<And>t. same_marks m (f t)) \<Longrightarrow> same_marks m (case ot of None \<Rightarrow> a | Some t \<Rightarrow> f t)"
  by (cases ot) simp_all

lemma same_marks_upd:
  assumes "same_marks m x"
  shows "same_marks m (x\<lparr>msg_Subject := s\<rparr>)" "same_marks m (x\<lparr>msg_From := e\<rparr>)" "same_marks m (x\<lparr>msg_To := es\<rparr>)"
    "same_marks m (x\<lparr>msg_Cc := es\<rparr>)" "same_marks m (x\<lparr>msg_Bcc := es\<rparr>)" "same_marks m (x\<lparr>msg_ReplyTo := eo\<rparr>)"
    "same_marks m (x\<lparr>msg_TextBody := s\<rparr>)" "same_marks m (x\<lparr>msg_HTMLBody := s\<rparr>)" "same_marks m (x\<lparr>msg_InReplyTo := s\<rparr>)"
    "same_marks m (x\<lparr>msg_References := ss\<rparr>)" "same_marks m (x\<lparr>msg_Headers := hs\<rparr>)" "same_marks m (x\<lparr>msg_ContentType := s\<rparr>)"
    "same_marks m (x\<lparr>msg_AttachmentCount := n\<rparr>)" "same_marks m (x\<lparr>msg_MessageID := s\<rparr>)" "same_marks m (x\<lparr>msg_SentAt := t\<rparr>)"
  using assms by (simp_all add: same_marks_def)

lemma ApplyTo_marks: "same_marks m (ApplyTo p m)"
  unfolding ApplyTo_def
  by (intro same_marks_let same_marks_if same_marks_option same_marks_upd; (assumption | simp add: same_marks_def))

lemma ApplyTo_flags [simp]:
  "msg_ReceivedAt (ApplyTo p m) = msg_ReceivedAt m" "message_flags (ApplyTo p m) = message_flags m"
  using ApplyTo_marks [of m p] by (simp_all add: same_marks_def message_flags_def)

lemma sort_key_first: "\<forall>y \<in> set ys. f x < (f y :: 'b::linorder) \<Longrightarrow> sort_key f (ys @ [x]) = x # sort_key f ys"
  by (induction ys) auto

lemma SInt_less: "SInt i < SInt j \<longleftrightarrow> i < j"
  by (auto simp: less_sql_value_def)

definition append_ready :: "(bytes \<Rightarrow> error + ParsedMessage) \<Rightarrow> instant \<Rightarrow> ID \<Rightarrow> ID \<Rightarrow> bytes \<Rightarrow> AppendOptions option \<Rightarrow> Message" where
  "append_ready parse now newID box raw options =
     (let m = append_options options (appended_message now newID box raw)
      in case parse raw of Inl _ \<Rightarrow> m | Inr p \<Rightarrow> ApplyTo p m)"

lemma append_ready_keys:
  "msg_ID (append_ready parse now newID box raw options) = newID"
  "msg_MailboxID (append_ready parse now newID box raw options) = box"
  "msg_IMAPUID (append_ready parse now newID box raw options) = 0"
  "msg_ReceivedAt (append_ready parse now newID box raw options) = zero_time"
  "msg_RawBody (append_ready parse now newID box raw options) = raw"
  "message_flags (append_ready parse now newID box raw options) = option_flags options \<inter> set StandardFlags"
proof -
  have "message_flags (appended_message now newID box raw) = {}"
    by (simp add: message_flags_def appended_message_def NewMessage_def MessageRead_def MessageUnread_def)
  then show "message_flags (append_ready parse now newID box raw options) = option_flags options \<inter> set StandardFlags"
    by (simp add: append_ready_def Let_def append_options_flags split: sum.splits)
qed (simp_all add: append_ready_def Let_def appended_message_def NewMessage_def split: sum.splits)

lemma appendMessage_found:
  assumes "findAppendMailbox mailbox userID d = (Inr mbox, d)"
    and "Create now (append_ready parse now newID (mb_ID mbox) raw options) d = (Inr m, d')"
  shows "appendMessage parse newID now (Some userID) mailbox (Some raw) options d =
    (Inr \<lparr>apd_UID = msg_IMAPUID m, apd_UIDValidity = generateUIDValidity mbox\<rparr>, snd (StoreRawBody now (msg_ID m) raw d'))"
  using assms by (simp add: appendMessage_def append_ready_def imap_then_def or_no_def Let_def)

text \<open>APPEND stores the message with its text and the standard flags of the command under the next UID of the mailbox.
  But it leaves the time of reception unset and the mailbox is listed by that time, so the message with the highest UID
  becomes the first of the mailbox and every other message moves up by one sequence number.\<close>

theorem appended_message_comes_first:
  assumes "schema_ok d" and "uids_ok d" and "b \<in> set (db_mailboxes d)"
    and "findAppendMailbox mailbox userID d = (Inr (toMailbox b), d)" and "mr_uid_next b < 2 ^ 32"
    and "newID \<notin> r_id ` set (db_messages d)" and "\<forall>r \<in> set (box_rows (mr_id b) d). zero_time < r_received_at r"
  shows "\<exists>d'. appendMessage parse newID now (Some userID) mailbox (Some raw) options d =
      (Inr \<lparr>apd_UID = word_of_int (mr_uid_next b), apd_UIDValidity = generateUIDValidity (toMailbox b)\<rparr>, d') \<and>
    view (mr_id b) d' = (word_of_int (mr_uid_next b), option_flags options \<inter> set StandardFlags) # view (mr_id b) d \<and>
    (\<forall>j. j \<noteq> mr_id b \<longrightarrow> view j d' = view j d) \<and> fst (GetRawBody newID d') = Inr raw"
proof -
  let ?uid = "word_of_int (mr_uid_next b) :: 32 word"
  let ?m = "append_ready parse now newID (mr_id b) raw options"
  let ?x = "row_of_message (?m\<lparr>msg_IMAPUID := ?uid\<rparr>)"
  let ?d1 = "created_db now (?m\<lparr>msg_IMAPUID := ?uid\<rparr>) d"
  let ?g = "\<lambda>y. (y\<lparr>r_raw_body := raw\<rparr>)\<lparr>r_updated_at := now\<rparr>"
  let ?d2 = "?d1\<lparr>db_messages := db_messages d @ [?g ?x]\<rparr>"
  have uid: "scan_uint32 (mr_uid_next b)"
    using assms(2,3,5) by (auto simp: scan_uint32_def uids_ok_def list_all_iff)
  have id: "mb_ID (toMailbox b) = mr_id b"
    by (simp add: toMailbox_def)
  note created = Create_ok [OF assms(1-3), of ?m now, unfolded append_ready_keys, OF refl uid refl assms(6)]
  have msgs: "db_messages ?d1 = db_messages d @ [?x]"
    by (simp add: created_db_def)
  have xid: "r_id ?x = newID" "r_mailbox_id ?x = mr_id b" "r_imap_uid ?x = ?uid" "r_received_at ?x = zero_time"
    by (simp_all add: row_of_message_def append_ready_keys)
  have flags: "row_flags (?g ?x) = option_flags options \<inter> set StandardFlags"
    using append_ready_keys(6) [of parse now newID "mr_id b" raw options]
    by (simp add: row_flags_def message_flags_def toMessage_def row_of_message_def)
  have fresh: "r_id ?x \<notin> r_id ` set (db_messages d)"
    using assms(6) by (simp add: xid(1))
  have "StoreRawBody now (r_id ?x) raw ?d1 = (Inr (), at_row (r_id ?x) ?g ?d1)"
    unfolding StoreRawBody_def using created(2) msgs by (intro set_flag_ok) (simp_all add: keeps_message_keys_def)
  then have stored: "StoreRawBody now newID raw ?d1 = (Inr (), ?d2)"
    using at_new_row [OF msgs fresh, of ?g] by (simp only: xid(1))
  have run: "appendMessage parse newID now (Some userID) mailbox (Some raw) options d =
      (Inr \<lparr>apd_UID = ?uid, apd_UIDValidity = generateUIDValidity (toMailbox b)\<rparr>, ?d2)"
    using appendMessage_found [OF assms(4), unfolded id, OF created(1)] stored by (simp add: append_ready_keys)
  have rows: "box_rows (mr_id b) ?d2 = ?g ?x # box_rows (mr_id b) d"
    using assms(7) sort_key_first [of "filter (\<lambda>r. r_mailbox_id r = mr_id b) (db_messages d)" "\<lambda>r. SInt (r_received_at r)" "?g ?x"]
    by (simp add: box_rows_def xid SInt_less)
  have other: "box_rows j ?d2 = box_rows j d" if "j \<noteq> mr_id b" for j
    using that by (simp add: box_rows_def xid)
  have "find (\<lambda>r. r_id r = newID) (db_messages d) = None"
    using assms(6) by (auto simp: find_None_iff)
  then have "fst (GetRawBody newID ?d2) = Inr raw"
    by (simp add: GetRawBody_def find_append xid)
  then show ?thesis
    using run rows other flags xid(3) by (intro exI [of _ ?d2]) (simp add: view_def)
qed

theorem appended_message_comes_first_witness:
  "\<exists>d'. appendMessage (\<lambda>_. Inl (Sentinel ErrNotFound)) ''n'' 7 (Some ''u1'') ''a'' (Some [1]) None imap_db =
      (Inr \<lparr>apd_UID = 3, apd_UIDValidity = generateUIDValidity (toMailbox (imap_box 0))\<rparr>, d') \<and>
    view ''a'' d' = [(3, {}), (1, {}), (2, {FlagDeleted})]"
proof -
  have box: "imap_box 0 \<in> set (db_mailboxes imap_db)" "mr_id (imap_box 0) = ''a''" "mr_uid_next (imap_box 0) = 3"
    "findAppendMailbox ''a'' ''u1'' imap_db = (Inr (toMailbox (imap_box 0)), imap_db)"
    "''n'' \<notin> r_id ` set (db_messages imap_db)" "\<forall>r \<in> set (box_rows ''a'' imap_db). zero_time < r_received_at r"
    "view ''a'' imap_db = [(1, {}), (2, {FlagDeleted})]"
    by code_simp+
  show ?thesis
    using appended_message_comes_first [OF imap_box_facts(5,6) box(1,4), of "''n''" "\<lambda>_. Inl (Sentinel ErrNotFound)" 7 "[1]" None]
      box(2,3,5-7) by (auto simp: option_flags_def)
qed

end
