(* ===== verification/Imap_Mailboxes.thy ===== *)
theory Imap_Mailboxes
  imports Imap_Copy
begin

text \<open>
  The IMAP commands on mailboxes: SELECT, EXAMINE, CREATE, DELETE, RENAME, STATUS, SUBSCRIBE and UNSUBSCRIBE
  (\<^verbatim>\<open>internal/imap/mailbox_ops.go\<close>) and LIST and LSUB (\<^verbatim>\<open>internal/imap/mailbox_list.go\<close>).

  \<open>gen k\<close> is the \<open>k\<close>-th UUID; an operation that makes mailboxes takes the number of the next one and, where a later
  step needs it, returns the number it has come to.
\<close>

section \<open>Finding and selecting\<close>

definition mo_findMailboxByName :: "ID \<Rightarrow> string \<Rightarrow> Mailbox dbm" where
  "mo_findMailboxByName userID name =
     andThen (ListByUser userID None)
       (\<lambda>result. case find_by_name name (lr_Items result) of None \<Rightarrow> fail (Sentinel ErrNotFound) | Some m \<Rightarrow> ret m)"

definition must_exist :: "ID \<Rightarrow> string \<Rightarrow> Mailbox imapm" where
  "must_exist userID name =
     or_missing ResponseCodeNonExistent ''Mailbox does not exist'' ''Internal error'' (mo_findMailboxByName userID name)"

definition mo_Select :: "ID \<Rightarrow> string \<Rightarrow> (Mailbox \<times> SelectData) imapm" where
  "mo_Select userID name =
     imap_then (must_exist userID (NormalizeMailboxName name)) (\<lambda>mailbox. imap_ret (mailbox, NewSelectData mailbox))"

definition mo_Examine :: "ID \<Rightarrow> string \<Rightarrow> (Mailbox \<times> SelectData) imapm" where
  "mo_Examine userID name = mo_Select userID name"

definition mo_Status :: "ID \<Rightarrow> string \<Rightarrow> StatusOptions option \<Rightarrow> StatusData imapm" where
  "mo_Status userID name options =
     imap_then (must_exist userID (NormalizeMailboxName name))
       (\<lambda>mailbox. imap_ret (ToIMAPStatusData options (NewMailboxStatus mailbox)))"

definition mo_Subscribe :: "ID \<Rightarrow> string \<Rightarrow> unit imapm" where
  "mo_Subscribe userID name = imap_then (must_exist userID (NormalizeMailboxName name)) (\<lambda>_. imap_ret ())"

definition mo_Unsubscribe :: "ID \<Rightarrow> string \<Rightarrow> unit imapm" where
  "mo_Unsubscribe userID name = imap_then (must_exist userID (NormalizeMailboxName name)) (\<lambda>_. imap_ret ())"

section \<open>Creating\<close>

definition handed_on :: "'a dbm \<Rightarrow> 'a imapm" where
  "handed_on m = (\<lambda>d. case m d of (Inl e, d') \<Rightarrow> (Inl (RawError e), d') | (Inr x, d') \<Rightarrow> (Inr x, d'))"

text \<open>The loop over the parents, from the outermost one; the result is the number of the next UUID.\<close>

fun ensure_paths :: "(nat \<Rightarrow> ID) \<Rightarrow> instant \<Rightarrow> ID \<Rightarrow> nat \<Rightarrow> string list \<Rightarrow> nat imapm" where
  "ensure_paths gen now userID k [] d = (Inr k, d)"
| "ensure_paths gen now userID k (path # paths) d =
     (case mo_findMailboxByName userID path d of
        (Inr _, d') \<Rightarrow> ensure_paths gen now userID k paths d'
      | (Inl e, d') \<Rightarrow>
          if \<not> errors_Is e ErrNotFound then (Inl (RawError e), d')
          else case mbx_Create (NewMailbox now (gen k) userID path []) d' of
            (Inl e, d'') \<Rightarrow>
              if \<not> errors_Is e ErrAlreadyExists then (Inl (RawError e), d'')
              else ensure_paths gen now userID (Suc k) paths d''
          | (Inr _, d'') \<Rightarrow> ensure_paths gen now userID (Suc k) paths d'')"

definition ensureParentExists :: "(nat \<Rightarrow> ID) \<Rightarrow> instant \<Rightarrow> ID \<Rightarrow> nat \<Rightarrow> string \<Rightarrow> nat imapm" where
  "ensureParentExists gen now userID k parentPath =
     (let parts = Split parentPath MailboxHierarchySeparator in
      ensure_paths gen now userID k (map (\<lambda>i. Join (take i parts) [MailboxHierarchySeparator]) [1..<Suc (length parts)]))"

text \<open>The text of the only kind of error the validation of a name gives.\<close>

definition error_text :: "error \<Rightarrow> string" where
  "error_text e =
     (case e of
        ValidationError field msg \<Rightarrow> ''validation error on field '' @ [CHR 0x27] @ field @ [CHR 0x27] @ '': '' @ msg
      | _ \<Rightarrow> [])"

definition validated :: "string \<Rightarrow> unit imapm" where
  "validated name = (case ValidateMailboxName name of None \<Rightarrow> imap_ret () | Some e \<Rightarrow> imap_fail (ImapNo None (error_text e)))"

definition refuse_if :: "bool \<Rightarrow> imap_error \<Rightarrow> unit imapm" where
  "refuse_if b e = (if b then imap_fail e else imap_ret ())"

text \<open>\<^verbatim>\<open>existing, err := o.findMailboxByName(...); if err == nil && existing != nil\<close>: any error counts as absence.\<close>

definition must_be_free :: "ID \<Rightarrow> string \<Rightarrow> string \<Rightarrow> unit imapm" where
  "must_be_free userID name msg =
     (\<lambda>d. case mo_findMailboxByName userID name d of
        (Inr _, d') \<Rightarrow> (Inl (ImapNo (Some ResponseCodeAlreadyExists) msg), d')
      | (Inl _, d') \<Rightarrow> (Inr (), d'))"

definition with_parent :: "(nat \<Rightarrow> ID) \<Rightarrow> instant \<Rightarrow> ID \<Rightarrow> nat \<Rightarrow> string \<Rightarrow> nat imapm" where
  "with_parent gen now userID k name =
     (let path = ParseMailboxPath name in
      if mp_Parent path \<noteq> [] then ensureParentExists gen now userID k (mp_Parent path) else imap_ret k)"

definition mo_Create :: "(nat \<Rightarrow> ID) \<Rightarrow> instant \<Rightarrow> ID \<Rightarrow> nat \<Rightarrow> string \<Rightarrow> unit imapm" where
  "mo_Create gen now userID k name =
     (let normalizedName = NormalizeMailboxName name in
      imap_then (validated normalizedName)
     (\<lambda>_. imap_then (refuse_if (IsSystemMailbox normalizedName) (ImapNo None ''Cannot create system mailbox''))
     (\<lambda>_. imap_then (must_be_free userID normalizedName ''Mailbox already exists'')
     (\<lambda>_. imap_then (with_parent gen now userID k normalizedName)
     (\<lambda>k d. case mbx_Create (NewMailbox now (gen k) userID normalizedName []) d of
        (Inl e, d') \<Rightarrow>
          (Inl (if errors_Is e ErrAlreadyExists then ImapNo (Some ResponseCodeAlreadyExists) ''Mailbox already exists''
                else ImapNo None ''Failed to create mailbox''), d')
      | (Inr _, d') \<Rightarrow> (Inr (), d'))))))"

section \<open>Deleting\<close>

definition hasChildMailboxes :: "ID \<Rightarrow> string \<Rightarrow> bool dbm" where
  "hasChildMailboxes userID parentName =
     andThen (ListByUser userID None)
       (\<lambda>result. ret (list_ex (\<lambda>m. HasPrefix (NormalizeMailboxName (mb_Name m)) (parentName @ [MailboxHierarchySeparator]))
          (lr_Items result)))"

definition mo_Delete :: "ID \<Rightarrow> string \<Rightarrow> unit imapm" where
  "mo_Delete userID name =
     (let normalizedName = NormalizeMailboxName name in
      imap_then (refuse_if (IsSystemMailbox normalizedName) (ImapNo None ''Cannot delete system mailbox''))
     (\<lambda>_. imap_then (must_exist userID normalizedName)
     (\<lambda>mailbox. imap_then (or_no ''Failed to check child mailboxes'' (hasChildMailboxes userID normalizedName))
     (\<lambda>hasChildren. imap_then (refuse_if hasChildren (ImapNo None ''Mailbox has child mailboxes''))
     (\<lambda>_. or_no ''Failed to delete mailbox'' (DeleteWithMessages (mb_ID mailbox)))))))"

section \<open>Renaming\<close>

fun move_all :: "instant \<Rightarrow> ID \<Rightarrow> Message list \<Rightarrow> unit imapm" where
  "move_all now target [] d = (Inr (), d)"
| "move_all now target (m # ms) d =
     (case MoveToMailbox now (msg_ID m) target d of
        (Inl _, d') \<Rightarrow> (Inl (ImapNo None ''Failed to move messages''), d')
      | (Inr _, d') \<Rightarrow> move_all now target ms d')"

definition renameInbox :: "fts_index \<Rightarrow> (nat \<Rightarrow> ID) \<Rightarrow> instant \<Rightarrow> ID \<Rightarrow> nat \<Rightarrow> Mailbox \<Rightarrow> string \<Rightarrow> unit imapm" where
  "renameInbox fts gen now userID k inbox newName =
     (let newMailbox = (NewMailbox now (gen k) userID newName [])
            \<lparr>mb_MessageCount := mb_MessageCount inbox, mb_UnreadCount := mb_UnreadCount inbox, mb_TotalSize := mb_TotalSize inbox\<rparr> in
      imap_then (or_no ''Failed to create destination mailbox'' (mbx_Create newMailbox))
     (\<lambda>_. imap_then (or_no ''Failed to list messages'' (ListByMailbox fts (mb_ID inbox) (Some imapListOptions)))
     (\<lambda>result. imap_then (move_all now (gen k) (lr_Items result))
     (\<lambda>_. or_no ''Failed to update INBOX'' (mbx_Update now
        (inbox\<lparr>mb_MessageCount := 0, mb_UnreadCount := 0, mb_TotalSize := 0, mb_UpdatedAt := now\<rparr>))))))"

fun rename_children :: "instant \<Rightarrow> string \<Rightarrow> string \<Rightarrow> Mailbox list \<Rightarrow> unit dbm" where
  "rename_children now oldPrefix newPrefix [] = ret ()"
| "rename_children now oldPrefix newPrefix (m # ms) =
     (let name = NormalizeMailboxName (mb_Name m); old = oldPrefix @ [MailboxHierarchySeparator] in
      if HasPrefix name old
      then andThen (mbx_Update now (m\<lparr>mb_Name := newPrefix @ [MailboxHierarchySeparator] @ drop (length old) name, mb_UpdatedAt := now\<rparr>))
             (\<lambda>_. rename_children now oldPrefix newPrefix ms)
      else rename_children now oldPrefix newPrefix ms)"

definition renameChildMailboxes :: "instant \<Rightarrow> ID \<Rightarrow> string \<Rightarrow> string \<Rightarrow> unit dbm" where
  "renameChildMailboxes now userID oldPrefix newPrefix =
     andThen (ListByUser userID None) (\<lambda>result. rename_children now oldPrefix newPrefix (lr_Items result))"

definition mo_Rename ::
  "fts_index \<Rightarrow> (nat \<Rightarrow> ID) \<Rightarrow> instant \<Rightarrow> ID \<Rightarrow> nat \<Rightarrow> string \<Rightarrow> string \<Rightarrow> unit imapm" where
  "mo_Rename fts gen now userID k oldName newName =
     (let normalizedOld = NormalizeMailboxName oldName; normalizedNew = NormalizeMailboxName newName in
      imap_then (validated normalizedNew)
     (\<lambda>_. imap_then (refuse_if (IsSystemMailbox normalizedNew \<and> \<not> EqualFold normalizedNew ''INBOX'')
             (ImapNo None ''Cannot rename to system mailbox name''))
     (\<lambda>_. imap_then (refuse_if (IsSystemMailbox normalizedOld \<and> \<not> EqualFold normalizedOld ''INBOX'')
             (ImapNo None ''Cannot rename system mailbox''))
     (\<lambda>_. imap_then (must_exist userID normalizedOld)
     (\<lambda>mailbox. imap_then (must_be_free userID normalizedNew ''Destination mailbox already exists'')
     (\<lambda>_. if EqualFold normalizedOld ''INBOX'' then renameInbox fts gen now userID k mailbox normalizedNew
          else imap_then (with_parent gen now userID k normalizedNew)
     (\<lambda>_. imap_then (or_no ''Failed to rename mailbox''
             (mbx_Update now (mailbox\<lparr>mb_Name := normalizedNew, mb_UpdatedAt := now\<rparr>)))
     (\<lambda>_. or_no ''Failed to rename child mailboxes'' (renameChildMailboxes now userID normalizedOld normalizedNew)))))))))"

section \<open>Listing\<close>

record ListSelection =
  ls_SelectSubscribed :: bool
  ls_SelectSpecialUse :: bool
  ls_ReturnSpecialUse :: bool

definition filterSpecialUseAttrs :: "MailboxAttr list \<Rightarrow> MailboxAttr list" where
  "filterSpecialUseAttrs attrs = filter (\<lambda>a. a \<noteq> MailboxAttrNoSelect) attrs"

definition select_special :: "ListSelection option \<Rightarrow> bool" where
  "select_special options = (case options of None \<Rightarrow> False | Some o' \<Rightarrow> ls_SelectSpecialUse o')"

text \<open>Whether a mailbox is listed for one of the patterns; \<open>None\<close> would be a pattern matcher that does not return.\<close>

fun is_listed :: "ListSelection option \<Rightarrow> MailboxInfo \<Rightarrow> string \<Rightarrow> string \<Rightarrow> string list \<Rightarrow> bool option" where
  "is_listed options info fullPath ref [] = Some False"
| "is_listed options info fullPath ref (pat # pats) =
     (case matchMailboxPattern fullPath ref pat of
        None \<Rightarrow> None
      | Some False \<Rightarrow> is_listed options info fullPath ref pats
      | Some True \<Rightarrow>
          if select_special options \<and> filterSpecialUseAttrs (mi_Attributes info) = []
          then is_listed options info fullPath ref pats else Some True)"

fun filterMailboxes :: "Mailbox list \<Rightarrow> string \<Rightarrow> string list \<Rightarrow> ListSelection option \<Rightarrow> MailboxInfo list option" where
  "filterMailboxes [] ref pats options = Some []"
| "filterMailboxes (m # ms) ref pats options =
     (let info = NewMailboxInfo m;
          fullPath = (if ref \<noteq> [] then ref @ [MailboxHierarchySeparator] @ mi_Name info else mi_Name info) in
      case is_listed options info fullPath ref pats of
        None \<Rightarrow> None
      | Some yes \<Rightarrow>
          case filterMailboxes ms ref pats options of
            None \<Rightarrow> None | Some infos \<Rightarrow> Some (if yes then info # infos else infos))"

definition hierarchyDelimiter :: ListData where
  "hierarchyDelimiter = \<lparr>ld_Mailbox = [], ld_Delim = MailboxHierarchySeparator, ld_Attrs = [MailboxAttrNoSelect]\<rparr>"

definition list_entry :: "ListSelection option \<Rightarrow> MailboxInfo \<Rightarrow> ListData" where
  "list_entry options info =
     (let listData = ToIMAPListData info in
      case options of
        None \<Rightarrow> listData
      | Some o' \<Rightarrow> if ls_ReturnSpecialUse o' then listData\<lparr>ld_Attrs := filterSpecialUseAttrs (ld_Attrs listData)\<rparr> else listData)"

definition ml_List ::
  "ID \<Rightarrow> string \<Rightarrow> string list \<Rightarrow> ListSelection option \<Rightarrow> db \<Rightarrow> (error + ListData list option) \<times> db" where
  "ml_List userID ref pats options =
     (if pats = [] \<or> pats = [''''] then ret (Some [hierarchyDelimiter])
      else andThen (ListByUser userID None)
        (\<lambda>result. ret (map_option (map (list_entry options)) (filterMailboxes (lr_Items result) ref pats options))))"

definition ListSubscribed :: "ID \<Rightarrow> string \<Rightarrow> string list \<Rightarrow> db \<Rightarrow> (error + ListData list option) \<times> db" where
  "ListSubscribed userID ref pats =
     ml_List userID ref pats (Some \<lparr>ls_SelectSubscribed = True, ls_SelectSpecialUse = False, ls_ReturnSpecialUse = False\<rparr>)"


section \<open>LIST and its reference\<close>

lemma listed_prefix:
  assumes "ref \<noteq> []" and "\<not> ContainsAny ref ''*%''" and "\<forall>p \<in> set pats. \<not> HasPrefix p ref"
  shows "is_listed options info (ref @ [MailboxHierarchySeparator] @ name) ref pats = is_listed options info name [] pats"
  using assms(3)
proof (induction pats)
  case (Cons p pats)
  have "\<not> ContainsAny (ref @ [MailboxHierarchySeparator]) ''*%''"
    using assms(2) by (auto simp: ContainsAny_def MailboxHierarchySeparator_def)
  from wild_prefix [OF this, of p name]
  have "matchMailboxPattern (ref @ [MailboxHierarchySeparator] @ name) ref p = matchMailboxPattern name [] p"
    using assms(1) Cons.prems by (simp add: matchMailboxPattern_wild full_pattern_def)
  then show ?case
    using Cons by (auto split: option.split bool.split)
qed simp

lemma filterMailboxes_prefix:
  assumes "ref \<noteq> []" and "\<not> ContainsAny ref ''*%''" and "\<forall>p \<in> set pats. \<not> HasPrefix p ref"
  shows "filterMailboxes ms ref pats options = filterMailboxes ms [] pats options"
  using listed_prefix [OF assms] assms(1) by (induction ms) (auto simp: Let_def split: option.split)

text \<open>LIST does not respect its reference argument. With a reference without wildcards, and patterns that do not start
  with it, the answer is the one for an empty reference: the reference is put in front of the patterns and of the names
  alike, so mailboxes outside of it are listed too.\<close>

theorem list_ignores_reference:
  assumes "ref \<noteq> []" and "\<not> ContainsAny ref ''*%''" and "\<forall>p \<in> set pats. \<not> HasPrefix p ref"
  shows "ml_List userID ref pats options d = ml_List userID [] pats options d"
  unfolding ml_List_def filterMailboxes_prefix [OF assms] ..

theorem list_ignores_reference_witness:
  "ml_List ''u1'' ''a'' [''%''] None imap_db = ml_List ''u1'' [] [''%''] None imap_db"
  by (rule list_ignores_reference) (simp_all add: ContainsAny_def HasPrefix_def)

section \<open>CREATE works once\<close>

definition addressless :: "db \<Rightarrow> bool" where
  "addressless d \<longleftrightarrow> (\<exists>r \<in> set (db_mailboxes d). mr_address r = [])"

lemma mbx_Create_addressless:
  assumes "addressless d" and "mb_Address m = []"
  shows "mbx_Create m d = (Inl (AlreadyExistsError ''mailbox'' ''address'' []), d)"
proof -
  obtain r where "r \<in> set (db_mailboxes d)" "EqualFold (mr_address r) (ToLower [])"
    using assms(1) by (auto simp: addressless_def)
  then have "list_ex (\<lambda>r. EqualFold (mr_address r) (ToLower [])) (db_mailboxes d)"
    by (metis list_ex_iff)
  then show ?thesis
    using assms(2) by (simp add: mbx_Create_def ExistsByAddress_def)
qed

lemma mbx_Create_Inr:
  assumes "mbx_Create m d = (Inr x, d')" and "mb_Address m = []"
  shows "addressless d'"
  using assms by (auto simp: mbx_Create_def ExistsByAddress_def andThen_def wrap_def insert_mailbox_def stmt_def
      addressless_def row_of_mailbox_def ToLower_def Let_def split: if_splits)

lemma NewMailbox_address [simp]: "mb_Address (NewMailbox now i u n a) = a"
  by (simp add: NewMailbox_def)

definition scannable :: "db \<Rightarrow> bool" where
  "scannable d \<longleftrightarrow> (\<forall>b \<in> set (db_mailboxes d). scan_uint32 (mr_uid_next b))"

definition user_rows :: "ID \<Rightarrow> db \<Rightarrow> mailboxRow list" where
  "user_rows u d = rev (sort_key (mbx_sort_key ''createdAt'') (rev (filter (\<lambda>r. mr_user_id r = u) (db_mailboxes d))))"

lemma in_user_rows: "r \<in> set (user_rows u d) \<longleftrightarrow> r \<in> set (db_mailboxes d) \<and> mr_user_id r = u"
  by (auto simp: user_rows_def)

lemma ListByUser_rows:
  assumes "scannable d"
  shows "\<exists>res. ListByUser u None d = (Inr res, d) \<and> lr_Items res = map toMailbox (user_rows u d)"
proof -
  have "mbx_where (Some (emptyMailboxFilter\<lparr>mf_UserID := Some u\<rparr>)) = (\<lambda>r. mr_user_id r = u)"
    by (rule ext) (simp add: mbx_where_def emptyMailboxFilter_def)
  moreover have "sort_rows mbx_sort_key ''createdAt'' None rs = rev (sort_key (mbx_sort_key ''createdAt'') (rev rs))" for rs
    by (simp add: sort_rows_def order_by_def)
  ultimately show ?thesis
    using assms by (auto simp: ListByUser_def mbx_List_def page_of_def limit_offset_def list_result_def Let_def
        user_rows_def scannable_def list_all_iff)
qed

definition row_named :: "string \<Rightarrow> mailboxRow \<Rightarrow> bool" where
  "row_named name r \<longleftrightarrow> EqualFold (NormalizeMailboxName (mr_name r)) name"

lemma find_map: "find P (map f xs) = map_option f (find (\<lambda>x. P (f x)) xs)"
  by (induction xs) auto

lemma mo_find_eq:
  assumes "scannable d"
  shows "mo_findMailboxByName u name d =
    (case find (row_named name) (user_rows u d) of None \<Rightarrow> Inl (Sentinel ErrNotFound) | Some r \<Rightarrow> Inr (toMailbox r), d)"
proof -
  obtain res where "ListByUser u None d = (Inr res, d)" "lr_Items res = map toMailbox (user_rows u d)"
    using ListByUser_rows [OF assms] by blast
  moreover have "(\<lambda>x. EqualFold (NormalizeMailboxName (mb_Name (toMailbox x))) name) = row_named name"
    by (rule ext) (simp add: row_named_def toMailbox_def)
  ultimately show ?thesis
    by (simp add: mo_findMailboxByName_def find_by_name_def find_map andThen_def split: option.splits)
qed

lemma ensure_paths_addressless:
  assumes "scannable d" and "addressless d"
  shows "\<exists>k'. ensure_paths gen now u k paths d = (Inr k', d)"
proof (induction paths arbitrary: k)
  case (Cons p ps)
  then show ?case
    using mbx_Create_addressless [OF assms(2), of "NewMailbox now (gen k) u p []"]
    by (cases "find (row_named p) (user_rows u d)") (simp_all add: mo_find_eq [OF assms(1)])
qed simp

text \<open>IMAP can create one mailbox in the life of a database. CREATE gives every mailbox the empty address, and addresses
  are unique over all users: after a CREATE that succeeded, every further CREATE of a valid name, by whatever user, is
  answered with ALREADYEXISTS and changes nothing.\<close>

theorem create_succeeds_once:
  assumes "mo_Create gen now u k name d = (Inr (), d1)" and "\<forall>b \<in> set (db_mailboxes d1). scan_uint32 (mr_uid_next b)"
    and "ValidateMailboxName (NormalizeMailboxName name') = None" and "\<not> IsSystemMailbox (NormalizeMailboxName name')"
  shows "mo_Create gen' now' u' k' name' d1 = (Inl (ImapNo (Some ResponseCodeAlreadyExists) ''Mailbox already exists''), d1)"
proof -
  have less: "addressless d1"
    using assms(1) mbx_Create_Inr [OF _ NewMailbox_address]
    by (auto simp: mo_Create_def Let_def imap_then_def split: prod.splits sum.splits)
  have scan: "scannable d1"
    using assms(2) by (simp add: scannable_def)
  obtain n where "with_parent gen' now' u' k' (NormalizeMailboxName name') d1 = (Inr n, d1)"
    using ensure_paths_addressless [OF scan less]
    by (fastforce simp: with_parent_def ensureParentExists_def Let_def imap_ret_def)
  then show ?thesis
    using assms(3,4) mbx_Create_addressless [OF less NewMailbox_address]
    by (simp add: mo_Create_def Let_def imap_then_def validated_def refuse_if_def imap_ret_def must_be_free_def
        mo_find_eq [OF scan] split: option.splits)
qed

theorem create_succeeds_once_witness:
  "\<exists>d1. mo_Create (\<lambda>k. replicate k CHR ''i'') 3 ''u1'' 1 ''Work'' sample_db = (Inr (), d1) \<and>
     mo_Create (\<lambda>k. replicate k CHR ''i'') 4 ''u1'' 2 ''Home'' d1 =
       (Inl (ImapNo (Some ResponseCodeAlreadyExists) ''Mailbox already exists''), d1)"
proof -
  define d1 where "d1 = snd (mo_Create (\<lambda>k. replicate k CHR ''i'') 3 ''u1'' 1 ''Work'' sample_db)"
  have run: "mo_Create (\<lambda>k. replicate k CHR ''i'') 3 ''u1'' 1 ''Work'' sample_db = (Inr (), d1)"
    unfolding d1_def by code_simp
  have scan: "\<forall>b \<in> set (db_mailboxes d1). scan_uint32 (mr_uid_next b)"
    unfolding d1_def by code_simp
  have "ValidateMailboxName (NormalizeMailboxName ''Home'') = None" "\<not> IsSystemMailbox (NormalizeMailboxName ''Home'')"
    by code_simp+
  from create_succeeds_once [OF run scan this] run show ?thesis by blast
qed


section \<open>RENAME moves a subtree\<close>

definition names :: "db \<Rightarrow> (ID \<times> string) list" where
  "names d = map (\<lambda>r. (mr_id r, mr_name r)) (db_mailboxes d)"

definition below :: "string \<Rightarrow> string \<Rightarrow> bool" where
  "below old name \<longleftrightarrow> HasPrefix (NormalizeMailboxName name) (old @ [MailboxHierarchySeparator])"

definition regrafted :: "string \<Rightarrow> string \<Rightarrow> string \<Rightarrow> string" where
  "regrafted old new name =
     new @ [MailboxHierarchySeparator] @ drop (length (old @ [MailboxHierarchySeparator])) (NormalizeMailboxName name)"

definition row_like :: "Mailbox \<Rightarrow> mailboxRow \<Rightarrow> bool" where
  "row_like m b \<longleftrightarrow> mb_ID m = mr_id b \<and> mb_UserID m = mr_user_id b \<and> ToLower (mb_Address m) = mr_address b"

lemma only_mailbox:
  assumes "schema_ok d" and "b \<in> set (db_mailboxes d)" and "r \<in> set (db_mailboxes d)" and "mr_id r = mr_id b"
  shows "r = b"
  using assms find_mailbox_iff [of d "mr_id b"] by (metis option.inject)

lemma mbx_Update_ok:
  assumes "schema_ok d" and "b \<in> set (db_mailboxes d)" and "row_like m b"
  shows "\<exists>d'. mbx_Update now m d = (Inr (), d') \<and> schema_ok d' \<and> db_messages d' = db_messages d \<and>
    map (\<lambda>r. (mr_id r, mr_user_id r, mr_address r, mr_uid_next r)) (db_mailboxes d') =
      map (\<lambda>r. (mr_id r, mr_user_id r, mr_address r, mr_uid_next r)) (db_mailboxes d) \<and>
    names d' = map (\<lambda>(i, n). (i, if i = mb_ID m then mb_Name m else n)) (names d)"
proof -
  let ?f = "\<lambda>r. r\<lparr>mr_user_id := mb_UserID m, mr_name := mb_Name m, mr_address := ToLower (mb_Address m),
           mr_description := NullString (mb_Description m), mr_is_catch_all := mb_IsCatchAll m,
           mr_is_default := mb_IsDefault m, mr_message_count := mb_MessageCount m,
           mr_unread_count := mb_UnreadCount m, mr_total_size := mb_TotalSize m,
           mr_retention_days := mb_RetentionDays m, mr_updated_at := now\<rparr>"
  let ?d = "d\<lparr>db_mailboxes := update_where (\<lambda>r. mr_id r = mb_ID m) ?f (db_mailboxes d)\<rparr>"
  have m: "mb_ID m = mr_id b" "mb_UserID m = mr_user_id b" "ToLower (mb_Address m) = mr_address b"
    using assms(3) by (simp_all add: row_like_def)
  have same: "map k (update_where (\<lambda>r. mr_id r = mb_ID m) ?f (db_mailboxes d)) = map k (db_mailboxes d)"
    if "k (?f b) = k b" for k :: "mailboxRow \<Rightarrow> 'k"
    using that only_mailbox [OF assms(1,2)] m(1) by (auto simp: update_where_def)
  have ok: "schema_ok ?d"
    using assms(1) m schema_ok_mailboxes [OF same [of mr_id] same [of mr_address] same [of mr_user_id]] by simp
  have run: "mbx_Update now m d = (Inr (), ?d)"
    using assms(2) ok m(1)
    by (auto simp: mbx_Update_def mbx_Exists_def list_ex_iff update_mailboxes_def stmt_def andThen_def wrap_def)
  have "names ?d = map (\<lambda>(i, n). (i, if i = mb_ID m then mb_Name m else n)) (names d)"
    by (simp add: names_def update_where_def)
  then show ?thesis
    using run ok same [of "\<lambda>r. (mr_id r, mr_user_id r, mr_address r, mr_uid_next r)"] m
    by (intro exI [of _ ?d]) simp
qed

lemma rename_children_ok:
  assumes "schema_ok d" and "distinct (map mb_ID ms)"
    and "\<forall>m \<in> set ms. \<exists>b \<in> set (db_mailboxes d). row_like m b \<and> mb_Name m = mr_name b"
  shows "\<exists>d'. rename_children now old new ms d = (Inr (), d') \<and> db_messages d' = db_messages d \<and>
    names d' = map (\<lambda>(i, n). (i, if i \<in> mb_ID ` set ms \<and> below old n then regrafted old new n else n)) (names d)"
  using assms
proof (induction ms arbitrary: d)
  case Nil
  have "(\<lambda>(i, n). (i, n)) = (\<lambda>x. x)" for x :: "ID \<times> string" by auto
  then show ?case by (simp add: case_prod_unfold)
next
  case (Cons m ms)
  obtain b where b: "b \<in> set (db_mailboxes d)" "row_like m b" "mb_Name m = mr_name b"
    using Cons.prems(3) by auto
  show ?case
  proof (cases "below old (mb_Name m)")
    case False
    have "(i, if i \<in> mb_ID ` set ms \<and> below old n then regrafted old new n else n) =
        (i, if i \<in> mb_ID ` set (m # ms) \<and> below old n then regrafted old new n else n)" if "(i, n) \<in> set (names d)" for i n
    proof -
      from that obtain r where r: "r \<in> set (db_mailboxes d)" "i = mr_id r" "n = mr_name r"
        by (auto simp: names_def)
      have "n = mr_name b" if "i = mb_ID m"
        using only_mailbox [OF Cons.prems(1) b(1) r(1)] r b(2) that by (simp add: row_like_def)
      then show ?thesis using False b(3) by auto
    qed
    then have "map (\<lambda>(i, n). (i, if i \<in> mb_ID ` set ms \<and> below old n then regrafted old new n else n)) (names d) =
        map (\<lambda>(i, n). (i, if i \<in> mb_ID ` set (m # ms) \<and> below old n then regrafted old new n else n)) (names d)"
      by (intro map_cong) auto
    moreover have "rename_children now old new (m # ms) d = rename_children now old new ms d"
      using False by (simp add: below_def Let_def)
    ultimately show ?thesis
      using Cons.IH [OF Cons.prems(1)] Cons.prems(2,3) by auto
  next
    case True
    let ?m = "m\<lparr>mb_Name := regrafted old new (mb_Name m), mb_UpdatedAt := now\<rparr>"
    have like: "row_like ?m b" using b(2) by (simp add: row_like_def)
    have fields: "mb_ID ?m = mb_ID m" "mb_Name ?m = regrafted old new (mb_Name m)" by simp_all
    from mbx_Update_ok [OF Cons.prems(1) b(1) like, of now, unfolded fields] obtain d1 where
      upd: "mbx_Update now ?m d = (Inr (), d1)" "schema_ok d1" "db_messages d1 = db_messages d"
      and keys: "map (\<lambda>r. (mr_id r, mr_user_id r, mr_address r, mr_uid_next r)) (db_mailboxes d1) =
        map (\<lambda>r. (mr_id r, mr_user_id r, mr_address r, mr_uid_next r)) (db_mailboxes d)"
      and nm: "names d1 = map (\<lambda>(i, n). (i, if i = mb_ID m then regrafted old new (mb_Name m) else n)) (names d)"
      by blast
    have rows: "\<exists>b \<in> set (db_mailboxes d1). row_like m' b \<and> mb_Name m' = mr_name b" if m': "m' \<in> set ms" for m'
    proof -
      obtain c where c: "c \<in> set (db_mailboxes d)" "row_like m' c" "mb_Name m' = mr_name c"
        using Cons.prems(3) m' by auto
      then obtain j where j: "j < length (db_mailboxes d)" "db_mailboxes d ! j = c" by (auto simp: in_set_conv_nth)
      have len: "length (db_mailboxes d1) = length (db_mailboxes d)"
        using keys by (rule map_eq_imp_length_eq)
      have key: "mr_id (db_mailboxes d1 ! j) = mr_id c" "mr_user_id (db_mailboxes d1 ! j) = mr_user_id c"
        "mr_address (db_mailboxes d1 ! j) = mr_address c"
        using arg_cong [OF keys, of "\<lambda>xs. xs ! j"] j len by simp_all
      have "mr_id c \<noteq> mb_ID m"
        using c(2) m' Cons.prems(2) by (auto simp: row_like_def image_iff)
      then have "mr_name (db_mailboxes d1 ! j) = mr_name c"
        using arg_cong [OF nm, of "\<lambda>xs. xs ! j"] j len key(1) by (simp add: names_def)
      then show ?thesis
        using c j(1) len key nth_mem [of j "db_mailboxes d1"] unfolding row_like_def by metis
    qed
    then have "\<exists>d'. rename_children now old new ms d1 = (Inr (), d') \<and> db_messages d' = db_messages d1 \<and>
        names d' = map (\<lambda>(i, n). (i, if i \<in> mb_ID ` set ms \<and> below old n then regrafted old new n else n)) (names d1)"
      using Cons.IH [OF upd(2)] Cons.prems(2) by auto
    then obtain d' where d': "rename_children now old new ms d1 = (Inr (), d')" "db_messages d' = db_messages d1"
      "names d' = map (\<lambda>(i, n). (i, if i \<in> mb_ID ` set ms \<and> below old n then regrafted old new n else n)) (names d1)" by blast
    have step: "rename_children now old new (m # ms) d = (Inr (), d')"
      using True upd(1) d'(1) by (simp add: below_def regrafted_def Let_def andThen_def)
    have fin: "names d' = map (\<lambda>(i, n). (i, if i \<in> mb_ID ` set (m # ms) \<and> below old n then regrafted old new n else n)) (names d)"
      unfolding d'(3) nm map_map
    proof (rule map_cong [OF refl])
      fix x assume "x \<in> set (names d)"
      then obtain r where r: "r \<in> set (db_mailboxes d)" "x = (mr_id r, mr_name r)" by (auto simp: names_def)
      have "mr_name r = mb_Name m" if "mr_id r = mb_ID m"
        using only_mailbox [OF Cons.prems(1) b(1) r(1)] that b(2,3) by (simp add: row_like_def)
      moreover have "mb_ID m \<notin> mb_ID ` set ms" using Cons.prems(2) by auto
      ultimately show "((\<lambda>(i, n). (i, if i \<in> mb_ID ` set ms \<and> below old n then regrafted old new n else n)) \<circ>
          (\<lambda>(i, n). (i, if i = mb_ID m then regrafted old new (mb_Name m) else n))) x =
          (\<lambda>(i, n). (i, if i \<in> mb_ID ` set (m # ms) \<and> below old n then regrafted old new n else n)) x"
        using True by (auto simp: r(2))
    qed
    show ?thesis
      using step fin d'(2) upd(3) by auto
  qed
qed


lemma key_columns:
  assumes "map (\<lambda>r. (mr_id r, mr_user_id r, mr_address r, mr_uid_next r)) rs' =
    map (\<lambda>r. (mr_id r, mr_user_id r, mr_address r, mr_uid_next r)) rs"
  shows "mr_uid_next ` set rs' = mr_uid_next ` set rs" and "mr_address ` set rs' = mr_address ` set rs"
    and "(\<lambda>r. (mr_id r, mr_user_id r)) ` set rs' = (\<lambda>r. (mr_id r, mr_user_id r)) ` set rs"
proof -
  have "set (map (\<lambda>r. (mr_id r, mr_user_id r, mr_address r, mr_uid_next r)) rs') =
      set (map (\<lambda>r. (mr_id r, mr_user_id r, mr_address r, mr_uid_next r)) rs)"
    using assms by simp
  then have keys: "(\<lambda>r. (mr_id r, mr_user_id r, mr_address r, mr_uid_next r)) ` set rs' =
      (\<lambda>r. (mr_id r, mr_user_id r, mr_address r, mr_uid_next r)) ` set rs"
    by simp
  show "mr_uid_next ` set rs' = mr_uid_next ` set rs"
    using arg_cong [OF keys, of "image (\<lambda>x. snd (snd (snd x)))"] by (simp add: image_image)
  show "mr_address ` set rs' = mr_address ` set rs"
    using arg_cong [OF keys, of "image (\<lambda>x. fst (snd (snd x)))"] by (simp add: image_image)
  show "(\<lambda>r. (mr_id r, mr_user_id r)) ` set rs' = (\<lambda>r. (mr_id r, mr_user_id r)) ` set rs"
    using arg_cong [OF keys, of "image (\<lambda>x. (fst x, fst (snd x)))"] by (simp add: image_image)
qed

lemma set_user_rows: "set (user_rows u d) = {r \<in> set (db_mailboxes d). mr_user_id r = u}"
  by (auto simp: in_user_rows)

lemma distinct_user_rows: "schema_ok d \<Longrightarrow> distinct (map mr_id (user_rows u d))"
proof -
  assume "schema_ok d"
  then have d: "distinct (map mr_id (db_mailboxes d))"
    by (simp add: schema_defs)
  have "inj_on mr_id (set (user_rows u d))"
    using d by (auto simp: distinct_map in_user_rows inj_on_def)
  moreover have "distinct (user_rows u d)"
    using d by (simp add: user_rows_def distinct_map)
  ultimately show ?thesis by (simp add: distinct_map)
qed


text \<open>Three mailboxes of one user for the witness; the last one lies below the first.\<close>

definition tree_db :: db where
  "tree_db = sample_db\<lparr>db_mailboxes := [(sample_mailbox ''1'' ''a@x'')\<lparr>mr_name := ''w''\<rparr>,
     (sample_mailbox ''2'' ''b@x'')\<lparr>mr_name := ''wx''\<rparr>, (sample_mailbox ''3'' ''c@x'')\<lparr>mr_name := ''w/x''\<rparr>]\<rparr>"


end
