(* ===== verification/Imap_Fetch.thy ===== *)
theory Imap_Fetch
  imports Imap_Mailboxes
begin

text \<open>
  The IMAP command FETCH (\<^verbatim>\<open>internal/imap/fetch.go\<close>): cutting sections out of the raw text of a message, and the mark a
  read leaves on it. Raw texts are strings of bytes here. What is written to the client beside the sections (envelope and
  body structure) does not change the state; building the body structure may fail, and whether it does is an argument, as
  is the text rebuilt for a message without a stored one.
\<close>

section \<open>Byte strings\<close>

definition LF :: char where "LF = CHR 0x0A"
definition CR :: char where "CR = CHR 0x0D"
definition CRLF :: string where "CRLF = [CR, LF]"

text \<open>\<^verbatim>\<open>bytes.Index\<close>, \<^verbatim>\<open>bytes.TrimRight(line, "\\r")\<close> and \<^verbatim>\<open>bytes.IndexByte\<close>.\<close>

fun Index :: "string \<Rightarrow> string \<Rightarrow> nat option" where
  "Index [] pat = (if pat = [] then Some 0 else None)"
| "Index (c # s) pat = (if HasPrefix (c # s) pat then Some 0 else map_option Suc (Index s pat))"

definition TrimRightCR :: "string \<Rightarrow> string" where
  "TrimRightCR s = rev (dropWhile (\<lambda>c. c = CR) (rev s))"

definition from_bytes :: "bytes \<Rightarrow> string" where
  "from_bytes bs = map (\<lambda>w. char_of (unat w)) bs"

section \<open>Headers and text\<close>

definition header_end :: "string \<Rightarrow> nat" where
  "header_end rawBody =
     (case Index rawBody (CRLF @ CRLF) of
        Some i \<Rightarrow> i
      | None \<Rightarrow> (case Index rawBody [LF, LF] of Some i \<Rightarrow> i | None \<Rightarrow> length rawBody))"

text \<open>The loop of \<^verbatim>\<open>filterHeaders\<close>: the output so far, the lines of the current header, and whether it is wanted.\<close>

record header_scan =
  hs_result :: string
  hs_value :: string
  hs_include :: bool

definition wanted :: "string list \<Rightarrow> string list \<Rightarrow> string \<Rightarrow> bool" where
  "wanted flds notFields name =
     (if flds \<noteq> [] then name \<in> set (map ToLower flds)
      else if notFields \<noteq> [] then name \<notin> set (map ToLower notFields) else True)"

definition flush_header :: "header_scan \<Rightarrow> string" where
  "flush_header st = (if hs_include st \<and> hs_value st \<noteq> [] then hs_result st @ hs_value st else hs_result st)"

definition scan_line :: "string list \<Rightarrow> string list \<Rightarrow> string \<Rightarrow> header_scan \<Rightarrow> header_scan" where
  "scan_line flds notFields line st =
     (if line \<noteq> [] \<and> (hd line = CHR '' '' \<or> hd line = CHR 0x09)
      then if hs_include st then st\<lparr>hs_value := hs_value st @ line @ [LF]\<rparr> else st
      else let st = st\<lparr>hs_result := flush_header st\<rparr>; line = TrimRightCR line in
           case Index line '':'' of
             None \<Rightarrow> st
           | Some colonIdx \<Rightarrow>
               st\<lparr>hs_value := line @ CRLF, hs_include := wanted flds notFields (ToLower (TrimSpace (take colonIdx line)))\<rparr>)"

definition filterHeaders :: "string \<Rightarrow> string list \<Rightarrow> string list \<Rightarrow> string" where
  "filterHeaders headerBytes flds notFields =
     flush_header (fold (scan_line flds notFields) (Split headerBytes LF)
       \<lparr>hs_result = [], hs_value = [], hs_include = False\<rparr>) @ CRLF"

definition extractHeader :: "string \<Rightarrow> string list \<Rightarrow> string list \<Rightarrow> string" where
  "extractHeader rawBody flds notFields =
     (let headerEnd = header_end rawBody; headerBytes = take headerEnd rawBody in
      if flds = [] \<and> notFields = []
      then if headerEnd + 4 \<le> length rawBody then headerBytes @ CRLF @ CRLF else headerBytes @ CRLF
      else filterHeaders headerBytes flds notFields)"

definition extractText :: "string \<Rightarrow> string" where
  "extractText rawBody =
     (case Index rawBody (CRLF @ CRLF) of
        Some i \<Rightarrow> drop (i + 4) rawBody
      | None \<Rightarrow> (case Index rawBody [LF, LF] of Some i \<Rightarrow> drop (i + 2) rawBody | None \<Rightarrow> []))"

text \<open>
  \<^verbatim>\<open>applyPartial\<close>: offset and size are 64-bit integers and their sum wraps around; a slice whose end lies before its start
  panics (\<open>None\<close>).
\<close>

definition slice :: "string \<Rightarrow> int \<Rightarrow> int \<Rightarrow> string option" where
  "slice s i j = (if 0 \<le> i \<and> i \<le> j \<and> j \<le> int (length s) then Some (take (nat (j - i)) (drop (nat i) s)) else None)"

definition applyPartial :: "string \<Rightarrow> (64 word \<times> 64 word) option \<Rightarrow> string option" where
  "applyPartial data part =
     (case part of
        None \<Rightarrow> Some data
      | Some (offset, sz) \<Rightarrow>
          let start = sint offset in
          if start \<ge> int (length data) then Some []
          else let end = (if sint sz > 0
                          then let e = sint (offset + sz) in if e > int (length data) then int (length data) else e
                          else int (length data))
               in slice data start end)"

section \<open>MIME parts\<close>

definition extractBody :: "string \<Rightarrow> string" where
  "extractBody data = extractText data"

definition skip_eol :: "string \<Rightarrow> string" where
  "skip_eol s =
     (let s = (if s \<noteq> [] \<and> hd s = CR then tl s else s) in if s \<noteq> [] \<and> hd s = LF then tl s else s)"

lemma Index_le: "Index s pat = Some i \<Longrightarrow> i + length pat \<le> length s"
  by (induction s pat arbitrary: i rule: Index.induct) (auto simp: HasPrefix_iff split: if_splits dest: arg_cong [where f = length])

lemma length_skip_eol: "length (skip_eol s) \<le> length s"
  by (auto simp: skip_eol_def Let_def)

text \<open>The delimiter is never empty: it starts with two dashes.\<close>

function split_parts :: "string \<Rightarrow> string \<Rightarrow> string list" where
  "split_parts boundary remaining =
     (let delimiter = ''--'' @ boundary in
      case Index remaining delimiter of
        None \<Rightarrow> []
      | Some delimIdx \<Rightarrow>
          let remaining' = skip_eol (drop (delimIdx + length delimiter) remaining) in
          if HasPrefix remaining' ''--'' then []
          else case Index remaining' delimiter of
            None \<Rightarrow>
              (case Index remaining' (''--'' @ boundary @ ''--'') of
                 None \<Rightarrow> []
               | Some closeIdx \<Rightarrow> [TrimSuffix (TrimSuffix (take closeIdx remaining') CRLF) [LF]])
          | Some nextDelimIdx \<Rightarrow>
              TrimSuffix (TrimSuffix (take nextDelimIdx remaining') CRLF) [LF] #
                split_parts boundary (drop nextDelimIdx remaining'))"
  by pat_completeness auto
termination
proof (relation "measure (length \<circ> snd)", simp)
  fix boundary remaining delimiter delimIdx remaining' n
  assume d: "delimiter = ''--'' @ boundary" "Index remaining delimiter = Some delimIdx"
    and r: "remaining' = skip_eol (drop (delimIdx + length delimiter) remaining)"
  have "length remaining' \<le> length remaining - (delimIdx + length delimiter)"
    using length_skip_eol r by (metis length_drop)
  moreover have "length remaining \<ge> delimIdx + length delimiter" "length delimiter > 0"
    using Index_le [OF d(2)] d(1) by simp_all
  ultimately have "length remaining' < length remaining"
    by linarith
  then show "((boundary, drop n remaining'), boundary, remaining) \<in> measure (length \<circ> snd)"
    by simp
qed

declare split_parts.simps [simp del]

definition splitByBoundary :: "string \<Rightarrow> string \<Rightarrow> string list" where
  "splitByBoundary data boundary = split_parts boundary (extractBody data)"

text \<open>\<^verbatim>\<open>extractBoundary\<close>: the end of the Content-Type line, past its continuation lines.\<close>

function line_end :: "string \<Rightarrow> nat \<Rightarrow> nat" where
  "line_end ctLine ctEnd =
     (if ctEnd + 1 < length ctLine \<and> (ctLine ! (ctEnd + 1) = CHR '' '' \<or> ctLine ! (ctEnd + 1) = CHR 0x09)
      then case Index (drop (ctEnd + 1) ctLine) [LF] of
             None \<Rightarrow> length ctLine
           | Some nextEnd \<Rightarrow> line_end ctLine (ctEnd + 1 + nextEnd)
      else ctEnd)"
  by pat_completeness auto
termination
  by (relation "measure (\<lambda>(s, n). length s - n)") auto

declare line_end.simps [simp del]

definition cut_at :: "string \<Rightarrow> char \<Rightarrow> string" where
  "cut_at s c = (case Index s [c] of None \<Rightarrow> s | Some i \<Rightarrow> take i s)"

definition boundary_value :: "string \<Rightarrow> string" where
  "boundary_value v =
     (let plain = TrimSpace (cut_at (cut_at (cut_at v CHR '';'') CR) LF) in
      if v \<noteq> [] \<and> hd v = CHR 0x22
      then case Index (tl v) [CHR 0x22] of Some endQuote \<Rightarrow> take endQuote (tl v) | None \<Rightarrow> plain
      else plain)"

definition extractBoundary :: "string \<Rightarrow> string" where
  "extractBoundary data =
     (case (case Index data (CRLF @ CRLF) of Some i \<Rightarrow> Some i | None \<Rightarrow> Index data [LF, LF]) of
        None \<Rightarrow> []
      | Some headerEnd \<Rightarrow>
          let headers = take headerEnd data in
          case Index (ToLower headers) ''content-type:'' of
            None \<Rightarrow> []
          | Some ctStart \<Rightarrow>
              let ctLine = drop ctStart headers;
                  ctLine = (case Index ctLine [LF] of None \<Rightarrow> ctLine | Some ctEnd \<Rightarrow> take (line_end ctLine ctEnd) ctLine)
              in case Index (ToLower ctLine) ''boundary='' of
                   None \<Rightarrow> []
                 | Some boundaryIdx \<Rightarrow> boundary_value (TrimSpace (drop (boundaryIdx + 9) ctLine)))"

text \<open>\<open>None\<close> is the error of a part that is not there.\<close>

fun extractPartRecursive :: "string \<Rightarrow> int list \<Rightarrow> string option" where
  "extractPartRecursive data [] = Some data"
| "extractPartRecursive data (targetPart # rest) =
     (let boundary = extractBoundary data in
      if boundary = []
      then if targetPart = 1 \<and> rest = [] then Some (extractBody data) else None
      else let parts = splitByBoundary data boundary in
           if targetPart < 1 \<or> targetPart > int (length parts) then None
           else extractPartRecursive (parts ! nat (targetPart - 1)) rest)"

definition ExtractPart :: "string \<Rightarrow> int list \<Rightarrow> string option" where
  "ExtractPart rawBody partPath = extractPartRecursive rawBody partPath"

section \<open>Sections\<close>

datatype PartSpecifier = PartSpecifierNone | PartSpecifierHeader | PartSpecifierText | PartSpecifierMIME

record BodySection =
  bsc_Specifier :: PartSpecifier
  bsc_Part :: "int list"
  bsc_HeaderFields :: "string list"
  bsc_HeaderFieldsNot :: "string list"
  bsc_Partial :: "(64 word \<times> 64 word) option"
  bsc_Peek :: bool

definition extractSection :: "string \<Rightarrow> BodySection \<Rightarrow> string option" where
  "extractSection rawBody section =
     (let part = bsc_Part section; flds = bsc_HeaderFields section; notFields = bsc_HeaderFieldsNot section in
      case bsc_Specifier section of
        PartSpecifierNone \<Rightarrow>
          if part = []
          then if flds \<noteq> [] \<or> notFields \<noteq> [] then Some (extractHeader rawBody flds notFields) else Some rawBody
          else ExtractPart rawBody part
      | PartSpecifierHeader \<Rightarrow>
          if part = [] then Some (extractHeader rawBody flds notFields)
          else map_option (\<lambda>p. extractHeader p flds notFields) (ExtractPart rawBody part)
      | PartSpecifierText \<Rightarrow>
          if part = [] then Some (extractText rawBody) else map_option extractText (ExtractPart rawBody part)
      | PartSpecifierMIME \<Rightarrow> map_option (\<lambda>p. extractHeader p [] []) (ExtractPart rawBody part))"


section \<open>FETCH\<close>

record Address =
  ad_Name :: string
  ad_Mailbox :: string
  ad_Host :: string

record Envelope =
  en_Date :: instant
  en_Subject :: string
  en_MessageID :: string
  en_From :: "Address list"
  en_Sender :: "Address list"
  en_ReplyTo :: "Address list"
  en_To :: "Address list"
  en_Cc :: "Address list"
  en_Bcc :: "Address list"
  en_InReplyTo :: "string list"

definition splitEmailAddress :: "string \<Rightarrow> string \<times> string" where
  "splitEmailAddress email =
     (case Index email ''@'' of None \<Rightarrow> (email, []) | Some i \<Rightarrow> (take i email, drop (i + 1) email))"

definition domainToIMAPAddress :: "EmailAddress \<Rightarrow> Address" where
  "domainToIMAPAddress addr =
     (case splitEmailAddress (ea_Address addr) of
        (mailbox, host) \<Rightarrow> \<lparr>ad_Name = ea_Name addr, ad_Mailbox = mailbox, ad_Host = host\<rparr>)"

definition buildEnvelope :: "Message \<Rightarrow> Envelope" where
  "buildEnvelope msg =
     (let from = (if EmailAddress_IsEmpty (msg_From msg) then [] else [domainToIMAPAddress (msg_From msg)]) in
      \<lparr>en_Date = (case msg_SentAt msg of Some t \<Rightarrow> t | None \<Rightarrow> msg_ReceivedAt msg), en_Subject = msg_Subject msg,
       en_MessageID = msg_MessageID msg, en_From = from, en_Sender = from,
       en_ReplyTo = (case msg_ReplyTo msg of
                       Some a \<Rightarrow> if EmailAddress_IsEmpty a then from else [domainToIMAPAddress a] | None \<Rightarrow> from),
       en_To = map domainToIMAPAddress (msg_To msg), en_Cc = map domainToIMAPAddress (msg_Cc msg),
       en_Bcc = map domainToIMAPAddress (msg_Bcc msg),
       en_InReplyTo = (if msg_InReplyTo msg \<noteq> [] then [msg_InReplyTo msg] else [])\<rparr>)"

record FetchOptions =
  fto_UID :: bool
  fto_Flags :: bool
  fto_InternalDate :: bool
  fto_RFC822Size :: bool
  fto_Envelope :: bool
  fto_BodyStructure :: bool
  fto_BodySection :: "BodySection list"

datatype FetchItem =
    ItemUID "32 word" | ItemFlags "imap_flag list" | ItemInternalDate instant | ItemRFC822Size int
  | ItemEnvelope Envelope | ItemBodyStructure | ItemBodySection BodySection string

datatype fetch_failure = FetchNo imap_error | NoSuchPart | StructureFailed | SlicePanic

text \<open>What is known of code elsewhere: rebuilding the text of a message, and whether the body structure can be built.\<close>

record fetch_env =
  fe_fts :: fts_index
  fe_rebuild :: "Message \<Rightarrow> string"
  fe_structure :: "Message \<Rightarrow> bool"

definition fetchBodySection :: "fetch_env \<Rightarrow> Message \<Rightarrow> BodySection \<Rightarrow> db \<Rightarrow> fetch_failure + FetchItem" where
  "fetchBodySection env msg section d =
     (let rawBody = (case fst (GetRawBody (msg_ID msg) d) of Inl _ \<Rightarrow> fe_rebuild env msg | Inr raw \<Rightarrow> from_bytes raw) in
      case extractSection rawBody section of
        None \<Rightarrow> Inl NoSuchPart
      | Some sectionData \<Rightarrow>
          (case applyPartial sectionData (bsc_Partial section) of
             None \<Rightarrow> Inl SlicePanic | Some sectionData \<Rightarrow> Inr (ItemBodySection section sectionData)))"

fun fetch_sections ::
  "fetch_env \<Rightarrow> Message \<Rightarrow> BodySection list \<Rightarrow> db \<Rightarrow> fetch_failure option \<times> FetchItem list" where
  "fetch_sections env msg [] d = (None, [])"
| "fetch_sections env msg (section # sections) d =
     (case fetchBodySection env msg section d of
        Inl e \<Rightarrow> (Some e, [])
      | Inr item \<Rightarrow> (case fetch_sections env msg sections d of (e, items) \<Rightarrow> (e, item # items)))"

definition marks_read :: "BodySection \<Rightarrow> bool" where
  "marks_read section \<longleftrightarrow>
     \<not> bsc_Peek section \<and> bsc_Specifier section \<noteq> PartSpecifierHeader \<and> bsc_Specifier section \<noteq> PartSpecifierMIME"

definition fetch_markAsRead :: "instant \<Rightarrow> Message \<Rightarrow> db \<Rightarrow> db" where
  "fetch_markAsRead now msg d = (if msg_Status msg \<noteq> MessageRead then snd (MarkAsRead now (msg_ID msg) d) else d)"

definition fetchMessage ::
  "fetch_env \<Rightarrow> instant \<Rightarrow> FetchOptions \<Rightarrow> Message \<Rightarrow> db \<Rightarrow> (fetch_failure option \<times> FetchItem list) \<times> db" where
  "fetchMessage env now options msg d =
     (let items = (if fto_UID options then [ItemUID (msg_IMAPUID msg)] else []) @
                  (if fto_Flags options then [ItemFlags (ToSlice (NewFlagSetFromMessage msg))] else []) @
                  (if fto_InternalDate options then [ItemInternalDate (msg_ReceivedAt msg)] else []) @
                  (if fto_RFC822Size options then [ItemRFC822Size (msg_Size msg)] else []) @
                  (if fto_Envelope options then [ItemEnvelope (buildEnvelope msg)] else [])
      in if fto_BodyStructure options \<and> \<not> fe_structure env msg then ((Some StructureFailed, items), d)
         else let items = items @ (if fto_BodyStructure options then [ItemBodyStructure] else []) in
              case fetch_sections env msg (fto_BodySection options) d of
                (Some e, parts) \<Rightarrow> ((Some e, items @ parts), d)
              | (None, parts) \<Rightarrow>
                  ((None, items @ parts),
                   if list_ex marks_read (fto_BodySection options) then fetch_markAsRead now msg d else d))"

fun fetch_loop ::
  "fetch_env \<Rightarrow> instant \<Rightarrow> FetchOptions \<Rightarrow> (32 word \<times> Message) list \<Rightarrow> db \<Rightarrow>
     (fetch_failure option \<times> (32 word \<times> FetchItem list) list) \<times> db" where
  "fetch_loop env now options [] d = ((None, []), d)"
| "fetch_loop env now options ((seqNum, msg) # ms) d =
     (case fetchMessage env now options msg d of
        ((Some e, items), d') \<Rightarrow> ((Some e, [(seqNum, items)]), d')
      | ((None, items), d') \<Rightarrow>
          (case fetch_loop env now options ms d' of ((e, out), d'') \<Rightarrow> ((e, (seqNum, items) # out), d'')))"

definition Fetch ::
  "fetch_env \<Rightarrow> ((32 word \<times> Message) list \<Rightarrow> (32 word \<times> Message) list) \<Rightarrow> instant \<Rightarrow> Mailbox option \<Rightarrow> NumSet \<Rightarrow>
     FetchOptions \<Rightarrow> db \<Rightarrow> (fetch_failure option \<times> (32 word \<times> FetchItem list) list) \<times> db" where
  "Fetch env ord now selectedMbox numSet options d =
     (case selectedMbox of
        None \<Rightarrow> ((Some (FetchNo (ImapNo None ''No mailbox selected'')), []), d)
      | Some mbox \<Rightarrow>
          (case getMessagesForNumSet (fe_fts env) mbox numSet d of
             (Inl e, d') \<Rightarrow> ((Some (FetchNo e), []), d')
           | (Inr messages, d') \<Rightarrow> fetch_loop env now options (ord messages) d'))"

section \<open>Header and text\<close>

lemma Index_at: "Index s pat = Some i \<Longrightarrow> take (length pat) (drop i s) = pat"
  by (induction s pat arbitrary: i rule: Index.induct) (auto simp: HasPrefix_iff split: if_splits)

lemma Index_split: "Index s pat = Some i \<Longrightarrow> take i s @ pat @ drop (i + length pat) s = s"
proof -
  assume at: "Index s pat = Some i"
  have "s = take i s @ take (length pat) (drop i s) @ drop (length pat) (drop i s)"
    by (simp only: append_take_drop_id)
  then show ?thesis
    using Index_at [OF at] by (simp add: add.commute)
qed

text \<open>The sections of a message fit together: for a message whose header ends with an empty line in network format,
  BODY[HEADER] followed by BODY[TEXT] is BODY[].\<close>

theorem header_and_text_make_message:
  assumes "Index raw (CRLF @ CRLF) = Some i"
  shows "\<exists>h t. extractSection raw \<lparr>bsc_Specifier = PartSpecifierHeader, bsc_Part = [], bsc_HeaderFields = [],
       bsc_HeaderFieldsNot = [], bsc_Partial = p, bsc_Peek = k\<rparr> = Some h \<and>
     extractSection raw \<lparr>bsc_Specifier = PartSpecifierText, bsc_Part = [], bsc_HeaderFields = [],
       bsc_HeaderFieldsNot = [], bsc_Partial = p, bsc_Peek = k\<rparr> = Some t \<and>
     Some (h @ t) = extractSection raw \<lparr>bsc_Specifier = PartSpecifierNone, bsc_Part = [], bsc_HeaderFields = [],
       bsc_HeaderFieldsNot = [], bsc_Partial = p, bsc_Peek = k\<rparr>"
proof -
  have len: "i + 4 \<le> length raw"
    using Index_le [OF assms] by (simp add: CRLF_def)
  have "extractHeader raw [] [] @ extractText raw = raw"
  proof -
    have "extractHeader raw [] [] = take i raw @ CRLF @ CRLF" "extractText raw = drop (i + length (CRLF @ CRLF)) raw"
      using assms len by (simp_all add: extractHeader_def extractText_def header_end_def Let_def) (simp add: CRLF_def eval_nat_numeral)
    then show ?thesis
      using Index_split [OF assms] by simp
  qed
  then show ?thesis
    by (simp add: extractSection_def Let_def)
qed

theorem header_and_text_make_message_witness:
  "\<exists>h t. extractSection (''A: b'' @ CRLF @ CRLF @ ''hi'') \<lparr>bsc_Specifier = PartSpecifierHeader, bsc_Part = [],
       bsc_HeaderFields = [], bsc_HeaderFieldsNot = [], bsc_Partial = None, bsc_Peek = False\<rparr> = Some h \<and>
     extractSection (''A: b'' @ CRLF @ CRLF @ ''hi'') \<lparr>bsc_Specifier = PartSpecifierText, bsc_Part = [],
       bsc_HeaderFields = [], bsc_HeaderFieldsNot = [], bsc_Partial = None, bsc_Peek = False\<rparr> = Some t \<and>
     h @ t = ''A: b'' @ CRLF @ CRLF @ ''hi''"
proof -
  have "Index (''A: b'' @ CRLF @ CRLF @ ''hi'') (CRLF @ CRLF) = Some 4"
    by code_simp
  from header_and_text_make_message [OF this, of None False] show ?thesis
    by (simp add: extractSection_def)
qed

section \<open>Selected header fields\<close>

text \<open>A header as its fields: the line that names a field, and its continuation lines.\<close>

definition field_line :: "string \<Rightarrow> bool" where
  "field_line l \<longleftrightarrow> LF \<notin> set l \<and> Index (TrimRightCR l) '':'' \<noteq> None \<and> hd l \<noteq> CHR '' '' \<and> hd l \<noteq> CHR 0x09"

definition more_line :: "string \<Rightarrow> bool" where
  "more_line l \<longleftrightarrow> LF \<notin> set l \<and> l \<noteq> [] \<and> (hd l = CHR '' '' \<or> hd l = CHR 0x09)"

definition field_name :: "string \<Rightarrow> string" where
  "field_name l = ToLower (TrimSpace (take (the (Index (TrimRightCR l) '':'')) (TrimRightCR l)))"

definition field_text :: "string \<times> string list \<Rightarrow> string" where
  "field_text f = TrimRightCR (fst f) @ CRLF @ concat (map (\<lambda>c. c @ [LF]) (snd f))"

lemma fold_more:
  "list_all more_line cs \<Longrightarrow> fold (scan_line F N) cs st =
     (if hs_include st then st\<lparr>hs_value := hs_value st @ concat (map (\<lambda>c. c @ [LF]) cs)\<rparr> else st)"
  by (induction cs arbitrary: st) (auto simp: more_line_def scan_line_def)

lemma scan_field:
  assumes "field_line l"
  shows "scan_line F N l st =
    \<lparr>hs_result = flush_header st, hs_value = TrimRightCR l @ CRLF, hs_include = wanted F N (field_name l)\<rparr>"
  using assms by (auto simp: field_line_def scan_line_def field_name_def Let_def)

lemma flush_fields:
  assumes "\<forall>f \<in> set fs. field_line (fst f) \<and> list_all more_line (snd f)"
  shows "flush_header (fold (scan_line F N) (concat (map (\<lambda>f. fst f # snd f) fs)) st) =
    flush_header st @ concat (map field_text (filter (\<lambda>f. wanted F N (field_name (fst f))) fs))"
  using assms
proof (induction fs arbitrary: st)
  case (Cons f fs)
  let ?st = "\<lparr>hs_result = flush_header st, hs_value = TrimRightCR (fst f) @ CRLF, hs_include = wanted F N (field_name (fst f))\<rparr>"
  let ?st' = "if wanted F N (field_name (fst f)) then ?st\<lparr>hs_value := field_text f\<rparr> else ?st"
  have "fold (scan_line F N) (fst f # snd f) st = ?st'"
    using Cons.prems by (simp add: scan_field fold_more field_text_def)
  moreover have "flush_header ?st' = flush_header st @ (if wanted F N (field_name (fst f)) then field_text f else [])"
    by (simp add: flush_header_def field_text_def CRLF_def)
  ultimately show ?case
    using Cons.IH [of ?st'] Cons.prems by simp
qed simp

text \<open>BODY[HEADER.FIELDS] and BODY[HEADER.FIELDS.NOT] give exactly the wanted fields of a header: for every header that
  consists of fields with their continuation lines, the result is the concatenation of those whose name is asked for,
  or not excluded, without regard to case, in their order, closed by an empty line.\<close>

theorem header_fields_selected:
  assumes "fs \<noteq> []" and "\<forall>f \<in> set fs. field_line (fst f) \<and> list_all more_line (snd f)"
  shows "filterHeaders (Join (concat (map (\<lambda>f. fst f # snd f) fs)) [LF]) F N =
    concat (map field_text (filter (\<lambda>f. wanted F N (field_name (fst f))) fs)) @ CRLF"
proof -
  let ?ls = "concat (map (\<lambda>f. fst f # snd f) fs)"
  have "?ls \<noteq> []" using assms(1) by (cases fs) simp_all
  moreover have "LF \<notin> set l" if "l \<in> set ?ls" for l
    using that assms(2) by (fastforce simp: field_line_def more_line_def list_all_iff)
  ultimately have "Split (Join ?ls [LF]) LF = ?ls"
    by (rule Split_Join)
  then show ?thesis
    using flush_fields [OF assms(2), of F N "\<lparr>hs_result = [], hs_value = [], hs_include = False\<rparr>"]
    by (simp add: filterHeaders_def) (simp add: flush_header_def)
qed

theorem header_fields_selected_witness:
  "filterHeaders (''To: x'' @ CRLF @ ''Subject: a'' @ CRLF @ '' b'') [''SUBJECT''] [] =
     ''Subject: a'' @ CRLF @ '' b'' @ [LF] @ CRLF"
proof -
  let ?fs = "[(''To: x'' @ [CR], []), (''Subject: a'' @ [CR], ['' b''])]"
  have h: "\<forall>f \<in> set ?fs. field_line (fst f) \<and> list_all more_line (snd f)"
    "Join (concat (map (\<lambda>f. fst f # snd f) ?fs)) [LF] = ''To: x'' @ CRLF @ ''Subject: a'' @ CRLF @ '' b''"
    "concat (map field_text (filter (\<lambda>f. wanted [''SUBJECT''] [] (field_name (fst f))) ?fs)) @ CRLF =
       ''Subject: a'' @ CRLF @ '' b'' @ [LF] @ CRLF"
    by code_simp+
  show ?thesis
    using header_fields_selected [OF _ h(1), of "[''SUBJECT'']" "[]"] unfolding h(2,3) by simp
qed

text \<open>A line without a colon, such as the empty line a header ends with when there is no body, repeats the field before it.\<close>

lemma header_field_repeated:
  "filterHeaders (''Subject: x'' @ CRLF) [''Subject''] [] = ''Subject: x'' @ CRLF @ ''Subject: x'' @ CRLF @ CRLF"
  by code_simp

section \<open>Partial fetches\<close>

text \<open>C34. A partial fetch returns the requested piece, cut at the end of the section, as long as offset and size add up to
  a 64-bit integer; when the sum overflows the slice is out of range and the handler panics.\<close>

theorem partial_fetch_bounds:
  assumes "0 \<le> sint offset" and "0 < sint sz"
  shows "applyPartial data (Some (offset, sz)) =
    (if int (length data) \<le> sint offset then Some []
     else if sint offset + sint sz < 2 ^ 63 then Some (take (nat (sint sz)) (drop (nat (sint offset)) data))
     else None)"
proof (cases "sint offset + sint sz < 2 ^ 63")
  case True
  then have "sint (offset + sz) = sint offset + sint sz"
    using assms by (simp add: sint_word_ariths signed_take_bit_int_eq_self)
  then show ?thesis
    using True assms by (auto simp: applyPartial_def slice_def Let_def)
next
  case False
  have lt: "sint offset < 2 ^ 63" "sint sz < 2 ^ 63"
    using sint_lt [of offset] sint_lt [of sz] by simp_all
  have "(sint offset + sint sz + 2 ^ 63) mod 2 ^ 64 = sint offset + sint sz - 2 ^ 63"
    using mod_pos_pos_trivial [of "sint offset + sint sz - 2 ^ 63" "2 ^ 64"]
      mod_add_self2 [of "sint offset + sint sz - 2 ^ 63" "2 ^ 64"] False lt by (simp add: add.commute)
  then have "sint (offset + sz) = sint offset + sint sz - 2 ^ 64"
    using False lt by (simp add: sint_word_ariths signed_take_bit_eq_take_bit_shift take_bit_eq_mod)
  then show ?thesis
    using False assms lt by (auto simp: applyPartial_def slice_def Let_def)
qed

theorem partial_fetch_bounds_witness:
  "applyPartial ''hello'' (Some (1, 3)) = Some ''ell'' \<and> applyPartial ''hello'' (Some (1, 0x7FFFFFFFFFFFFFFF)) = None"
  using partial_fetch_bounds [of 1 3 "''hello''"] partial_fetch_bounds [of 1 "0x7FFFFFFFFFFFFFFF" "''hello''"] by simp


section \<open>Multipart bodies\<close>

lemma HasPrefix_stop: "x \<notin> set d \<Longrightarrow> HasPrefix (s @ x # t) d \<longleftrightarrow> HasPrefix s d"
proof (induction s arbitrary: d)
  case Nil
  then show ?case by (cases d) (auto simp: HasPrefix_iff)
next
  case (Cons c s)
  then show ?case
    by (cases d) (auto simp: HasPrefix_iff Cons_eq_append_conv)
qed

lemma Index_here: "HasPrefix s d \<Longrightarrow> Index s d = Some 0"
  by (cases s) (auto simp: HasPrefix_iff)

lemma Index_after:
  assumes "d \<noteq> []" and "CR \<notin> set d" and "LF \<notin> set d" and "Index p d = None"
  shows "Index (p @ CRLF @ d @ r) d = Some (length p + 2)"
  using assms(4)
proof (induction p)
  case Nil
  have "\<not> HasPrefix (CR # t) d" "\<not> HasPrefix (LF # t) d" for t
    using assms(1-3) by (cases d; auto simp: HasPrefix_iff)+
  then show ?case
    using Index_here [of "d @ r" d] by (simp add: CRLF_def)
next
  case (Cons c p)
  have "\<not> HasPrefix (c # p) d" "Index p d = None"
    using Cons.prems by (auto split: if_splits)
  then have "\<not> HasPrefix ((c # p) @ CRLF @ d @ r) d"
    using HasPrefix_stop [OF assms(2), of "c # p" "LF # d @ r"] by (simp add: CRLF_def)
  then show ?case
    using Cons.IH [OF \<open>Index p d = None\<close>] by simp
qed

definition delimiter :: "string \<Rightarrow> string" where
  "delimiter boundary = ''--'' @ boundary"

definition multipart :: "string \<Rightarrow> string list \<Rightarrow> string" where
  "multipart boundary ps = concat (map (\<lambda>p. delimiter boundary @ CRLF @ p @ CRLF) ps) @ delimiter boundary @ ''--'' @ CRLF"

text \<open>A part that can be told from what surrounds it.\<close>

definition plain_part :: "string \<Rightarrow> string \<Rightarrow> bool" where
  "plain_part boundary p \<longleftrightarrow> Index p (delimiter boundary) = None \<and> \<not> HasPrefix (p @ CRLF) ''--'' \<and> \<not> HasSuffix p [LF]"

lemma split_parts_step:
  assumes "Index rem (delimiter b) = Some i" and "rem' = skip_eol (drop (i + length (delimiter b)) rem)"
  shows "HasPrefix rem' ''--'' \<Longrightarrow> split_parts b rem = []"
    and "\<not> HasPrefix rem' ''--'' \<Longrightarrow> Index rem' (delimiter b) = Some n \<Longrightarrow>
      split_parts b rem = TrimSuffix (TrimSuffix (take n rem') CRLF) [LF] # split_parts b (drop n rem')"
  using assms by (subst split_parts.simps; simp add: delimiter_def Let_def)+

lemma multipart_starts: "\<exists>r. multipart boundary ps = delimiter boundary @ r"
  by (cases ps) (simp_all add: multipart_def)

lemma skip_eol_CRLF: "skip_eol (CRLF @ s) = s"
  by (simp add: skip_eol_def CRLF_def Let_def)

lemma TrimSuffix_append [simp]: "TrimSuffix (s @ t) t = s"
  by (simp add: TrimSuffix_def HasSuffix_def)

lemma split_multipart:
  assumes "CR \<notin> set boundary" and "LF \<notin> set boundary" and "\<forall>p \<in> set ps. plain_part boundary p"
  shows "split_parts boundary (multipart boundary ps) = ps"
  using assms(3)
proof (induction ps)
  case Nil
  have "skip_eol (''--'' @ CRLF) = ''--'' @ CRLF" "HasPrefix (''--'' @ CRLF) ''--''"
    by code_simp+
  then show ?case
    by (intro split_parts_step(1) [of _ _ 0]) (simp_all add: multipart_def Index_here)
next
  case (Cons p ps)
  let ?d = "delimiter boundary"
  obtain r where r: "multipart boundary ps = ?d @ r"
    using multipart_starts by blast
  have all: "multipart boundary (p # ps) = ?d @ CRLF @ p @ CRLF @ multipart boundary ps"
    by (simp add: multipart_def)
  have d: "?d \<noteq> []" "CR \<notin> set ?d" "LF \<notin> set ?d"
    using assms(1,2) by (auto simp: delimiter_def CR_def LF_def)
  have p: "Index p ?d = None" "\<not> HasPrefix (p @ CRLF) ''--''" "\<not> HasSuffix p [LF]"
    using Cons.prems by (simp_all add: plain_part_def)
  note idx = Index_after [OF d p(1), of r, folded r]
  have "\<not> HasPrefix (p @ CRLF @ multipart boundary ps) ''--''"
    using p(2) by (cases p; cases "tl p") (auto simp: HasPrefix_def CRLF_def CR_def LF_def)
  moreover have "take (length p + 2) (p @ CRLF @ multipart boundary ps) = p @ CRLF"
    by (simp add: CRLF_def)
  moreover have "drop (length p + 2) (p @ CRLF @ multipart boundary ps) = multipart boundary ps"
    by (simp add: CRLF_def)
  moreover have "TrimSuffix p [LF] = p"
    using p(3) by (simp add: TrimSuffix_def)
  moreover have "Index (multipart boundary (p # ps)) ?d = Some 0"
    by (rule Index_here) (simp add: all)
  moreover have "skip_eol (drop (0 + length ?d) (multipart boundary (p # ps))) = p @ CRLF @ multipart boundary ps"
    by (simp add: all skip_eol_CRLF)
  ultimately show ?case
    using split_parts_step(2) [OF _ refl, of "multipart boundary (p # ps)" boundary 0 "length p + 2"] idx Cons by simp
qed



end
