(* ===== verification/Imap_Session.thy ===== *)
theory Imap_Session
  imports Imap_Fetch
begin

text \<open>
  IMAP sessions: the backend with its table of user sessions (\<^verbatim>\<open>internal/imap/backend.go\<close>), the commands with their
  guards (\<^verbatim>\<open>internal/imap/session.go\<close>), the notification bridge (\<^verbatim>\<open>internal/imap/notify.go\<close>) and IDLE
  (\<^verbatim>\<open>internal/imap/idle.go\<close>).

  A \<^verbatim>\<open>*UserSession\<close> is shared by the session that logged in and the table of the backend: \<open>is_objects\<close> is the heap of these
  objects, by their identifiers, \<open>is_sessions\<close> the keys of the table. A Go channel is its queue and whether it is
  closed; \<open>is_chans\<close> holds all channels made, and the handler of a subscription is the number of the channel it sends
  to. \<^verbatim>\<open>Notify\<close> starts a goroutine for each handler: \<open>is_pending\<close> holds those that have not run yet, which may happen at
  any later time and in any order. A send on a closed channel panics, which ends the process: \<open>is_panic\<close>. The time-outs of
  contexts and the log are left out.
\<close>

section \<open>State\<close>

datatype SessionState = SessionStateNotAuthenticated | SessionStateAuthenticated | SessionStateSelected | SessionStateLogout

definition SessionState_String :: "SessionState \<Rightarrow> string" where
  "SessionState_String s =
     (case s of SessionStateNotAuthenticated \<Rightarrow> ''not_authenticated'' | SessionStateAuthenticated \<Rightarrow> ''authenticated''
      | SessionStateSelected \<Rightarrow> ''selected'' | SessionStateLogout \<Rightarrow> ''logout'')"

record UserSession =
  us_ID :: ID
  us_User :: User
  us_CreatedAt :: instant
  us_LastActivityAt :: instant
  us_SelectedMailbox :: "Mailbox option"
  us_IsReadOnly :: bool

record chan =
  ch_queue :: "Notification list"
  ch_closed :: bool

record IdleSessionInfo =
  isi_MailboxID :: ID
  isi_UserID :: ID
  isi_NotifyChan :: nat

text \<open>Handlers and the manager that makes one for every IDLE command.\<close>

record IdleHandler =
  ih_MaxIdleSessions :: int
  ih_activeIdleSessions :: int

definition incrementIdleSessions :: "IdleHandler \<Rightarrow> bool \<times> IdleHandler" where
  "incrementIdleSessions h =
     (if ih_MaxIdleSessions h > 0 \<and> ih_activeIdleSessions h \<ge> ih_MaxIdleSessions h then (False, h)
      else (True, h\<lparr>ih_activeIdleSessions := ih_activeIdleSessions h + 1\<rparr>))"

definition decrementIdleSessions :: "IdleHandler \<Rightarrow> IdleHandler" where
  "decrementIdleSessions h =
     (if ih_activeIdleSessions h > 0 then h\<lparr>ih_activeIdleSessions := ih_activeIdleSessions h - 1\<rparr> else h)"

record IdleManager =
  im_MaxIdleSessions :: int
  im_handlers :: "(string \<times> IdleHandler) list"
  im_TotalSessions :: int
  im_MaxConcurrentSessions :: int

definition CreateHandler :: "string \<Rightarrow> IdleManager \<Rightarrow> IdleHandler \<times> IdleManager" where
  "CreateHandler sessionID m =
     (let h = \<lparr>ih_MaxIdleSessions = im_MaxIdleSessions m, ih_activeIdleSessions = 0\<rparr>;
          hs = AList.update sessionID h (im_handlers m)
      in (h, m\<lparr>im_handlers := hs, im_TotalSessions := im_TotalSessions m + 1,
               im_MaxConcurrentSessions := max (im_MaxConcurrentSessions m) (int (length hs))\<rparr>))"

definition set_handler :: "string \<Rightarrow> IdleHandler \<Rightarrow> IdleManager \<Rightarrow> IdleManager" where
  "set_handler sessionID h m = m\<lparr>im_handlers := AList.update sessionID h (im_handlers m)\<rparr>"

definition RemoveHandler :: "string \<Rightarrow> IdleManager \<Rightarrow> IdleManager" where
  "RemoveHandler sessionID m = m\<lparr>im_handlers := AList.delete sessionID (im_handlers m)\<rparr>"

record imap_server =
  is_db :: db
  is_backend :: bool
  is_objects :: "(ID \<times> UserSession) list"
  is_sessions :: "ID list"
  is_notify :: "nat NotifyService option"
  is_manager :: IdleManager
  is_idle :: "(string \<times> IdleSessionInfo) list"
  is_chans :: "chan list"
  is_pending :: "(nat \<times> Notification) list"
  is_uuids :: nat
  is_panic :: bool
  is_connCount :: int

record imap_session =
  se_sessionID :: string
  se_username :: string
  se_state :: SessionState
  se_userSession :: "ID option"
  se_pollNotifications :: "nat option"
  se_pollSubscriptionID :: string

text \<open>What the commands are given from outside: UUIDs, bcrypt, the parts FETCH and STORE take as arguments, the MIME parser.\<close>

record imap_env =
  ie_gen :: "nat \<Rightarrow> ID"
  ie_bcrypt :: BCrypt
  ie_fetch :: fetch_env
  ie_order :: "(32 word \<times> Message) list \<Rightarrow> (32 word \<times> Message) list"
  ie_parse :: "bytes \<Rightarrow> error + ParsedMessage"
  ie_flag :: "imap_flag \<Rightarrow> string"
  ie_timeout :: duration

section \<open>The backend\<close>

definition UserSession_Touch :: "instant \<Rightarrow> UserSession \<Rightarrow> UserSession" where
  "UserSession_Touch now us = us\<lparr>us_LastActivityAt := now\<rparr>"

definition SelectMailbox :: "instant \<Rightarrow> Mailbox \<Rightarrow> bool \<Rightarrow> UserSession \<Rightarrow> UserSession" where
  "SelectMailbox now mailbox readOnly us =
     us\<lparr>us_SelectedMailbox := Some mailbox, us_IsReadOnly := readOnly, us_LastActivityAt := now\<rparr>"

definition ClearSelectedMailbox :: "instant \<Rightarrow> UserSession \<Rightarrow> UserSession" where
  "ClearSelectedMailbox now us = us\<lparr>us_SelectedMailbox := None, us_IsReadOnly := False, us_LastActivityAt := now\<rparr>"

definition put_object :: "UserSession \<Rightarrow> imap_server \<Rightarrow> imap_server" where
  "put_object us sv = sv\<lparr>is_objects := AList.update (us_ID us) us (is_objects sv)\<rparr>"

definition createSession :: "imap_env \<Rightarrow> instant \<Rightarrow> User \<Rightarrow> imap_server \<Rightarrow> UserSession \<times> imap_server" where
  "createSession env now user sv =
     (let us = \<lparr>us_ID = ie_gen env (is_uuids sv), us_User = user, us_CreatedAt = now, us_LastActivityAt = now,
                us_SelectedMailbox = None, us_IsReadOnly = False\<rparr>
      in (us, (put_object us sv)\<lparr>is_sessions := List.insert (us_ID us) (is_sessions sv), is_uuids := is_uuids sv + 1\<rparr>))"

text \<open>The authenticator of \<^verbatim>\<open>internal/imap/auth.go\<close> is the one of \<^verbatim>\<open>internal/smtp/auth.go\<close>.\<close>

definition imap_Authenticate :: "BCrypt \<Rightarrow> instant \<Rightarrow> string \<Rightarrow> string \<Rightarrow> db \<Rightarrow> (AuthenticationError + User) \<times> db" where
  "imap_Authenticate = Authenticate"

definition Backend_Login ::
  "imap_env \<Rightarrow> instant \<Rightarrow> string \<Rightarrow> string \<Rightarrow> imap_server \<Rightarrow> (AuthenticationError + UserSession) \<times> imap_server" where
  "Backend_Login env now username password sv =
     (case imap_Authenticate (ie_bcrypt env) now username password (is_db sv) of
        (Inl e, d) \<Rightarrow> (Inl e, sv\<lparr>is_db := d\<rparr>)
      | (Inr user, d) \<Rightarrow> (case createSession env now user (sv\<lparr>is_db := d\<rparr>) of (us, sv') \<Rightarrow> (Inr us, sv')))"

definition Backend_Logout :: "ID \<Rightarrow> imap_server \<Rightarrow> imap_server" where
  "Backend_Logout sessionID sv = sv\<lparr>is_sessions := filter (\<lambda>i. i \<noteq> sessionID) (is_sessions sv)\<rparr>"

definition GetSession :: "imap_env \<Rightarrow> instant \<Rightarrow> ID \<Rightarrow> imap_server \<Rightarrow> UserSession option \<times> imap_server" where
  "GetSession env now sessionID sv =
     (if sessionID \<notin> set (is_sessions sv) then (None, sv)
      else case map_of (is_objects sv) sessionID of
        None \<Rightarrow> (None, sv)
      | Some us \<Rightarrow>
          if now - us_LastActivityAt us > ie_timeout env then (None, Backend_Logout sessionID sv)
          else (Some (UserSession_Touch now us), put_object (UserSession_Touch now us) sv))"

definition SessionCount :: "imap_server \<Rightarrow> nat" where
  "SessionCount sv = length (is_sessions sv)"

definition session_of :: "ID \<Rightarrow> imap_server \<Rightarrow> ID \<Rightarrow> bool" where
  "session_of userID sv i = (case map_of (is_objects sv) i of None \<Rightarrow> False | Some us \<Rightarrow> usr_ID (us_User us) = userID)"

definition GetSessionsByUser :: "ID \<Rightarrow> imap_server \<Rightarrow> ID list" where
  "GetSessionsByUser userID sv = filter (session_of userID sv) (is_sessions sv)"

definition TerminateUserSessions :: "ID \<Rightarrow> imap_server \<Rightarrow> nat \<times> imap_server" where
  "TerminateUserSessions userID sv =
     (length (filter (session_of userID sv) (is_sessions sv)),
      sv\<lparr>is_sessions := filter (\<lambda>i. \<not> session_of userID sv i) (is_sessions sv)\<rparr>)"

definition cleanupExpiredSessions :: "imap_env \<Rightarrow> instant \<Rightarrow> imap_server \<Rightarrow> imap_server" where
  "cleanupExpiredSessions env now sv =
     sv\<lparr>is_sessions := filter (\<lambda>i. case map_of (is_objects sv) i of None \<Rightarrow> True
        | Some us \<Rightarrow> \<not> now - us_LastActivityAt us > ie_timeout env) (is_sessions sv)\<rparr>"

section \<open>Channels and notifications\<close>

definition make_chan :: "imap_server \<Rightarrow> nat \<times> imap_server" where
  "make_chan sv = (length (is_chans sv), sv\<lparr>is_chans := is_chans sv @ [\<lparr>ch_queue = [], ch_closed = False\<rparr>]\<rparr>)"

definition close_chan :: "nat \<Rightarrow> imap_server \<Rightarrow> imap_server" where
  "close_chan c sv =
     (if ch_closed (is_chans sv ! c) then sv\<lparr>is_panic := True\<rparr>
      else sv\<lparr>is_chans := (is_chans sv)[c := (is_chans sv ! c)\<lparr>ch_closed := True\<rparr>]\<rparr>)"

text \<open>\<^verbatim>\<open>select { case ch <- n: default: }\<close> on a channel with room for 100: the handler of every subscription.\<close>

definition run_handler :: "nat \<times> Notification \<Rightarrow> imap_server \<Rightarrow> imap_server" where
  "run_handler call sv =
     (let c = is_chans sv ! fst call in
      if ch_closed c then sv\<lparr>is_panic := True\<rparr>
      else if length (ch_queue c) < 100
      then sv\<lparr>is_chans := (is_chans sv)[fst call := c\<lparr>ch_queue := ch_queue c @ [snd call]\<rparr>]\<rparr>
      else sv)"

definition with_notify ::
  "(nat NotifyService \<Rightarrow> (nat \<times> Notification) list \<times> nat NotifyService) \<Rightarrow> imap_server \<Rightarrow> imap_server" where
  "with_notify f sv =
     (case notify_via f (is_notify sv) of (calls, ns) \<Rightarrow> sv\<lparr>is_notify := ns, is_pending := is_pending sv @ calls\<rparr>)"

definition RegisterIdleSession :: "instant \<Rightarrow> string \<Rightarrow> ID \<Rightarrow> ID \<Rightarrow> imap_server \<Rightarrow> imap_server" where
  "RegisterIdleSession now sessionID mailboxID userID sv =
     (case make_chan sv of (c, sv) \<Rightarrow>
        sv\<lparr>is_idle := AList.update sessionID \<lparr>isi_MailboxID = mailboxID, isi_UserID = userID, isi_NotifyChan = c\<rparr> (is_idle sv),
           is_notify := map_option (Subscribe now sessionID mailboxID userID (Some c)) (is_notify sv)\<rparr>)"

definition UnregisterIdleSession :: "string \<Rightarrow> imap_server \<Rightarrow> imap_server" where
  "UnregisterIdleSession sessionID sv =
     (case map_of (is_idle sv) sessionID of
        None \<Rightarrow> sv
      | Some info \<Rightarrow>
          let sv = close_chan (isi_NotifyChan info) sv in
          sv\<lparr>is_notify := map_option (Unsubscribe sessionID (isi_MailboxID info)) (is_notify sv),
             is_idle := AList.delete sessionID (is_idle sv)\<rparr>)"

definition GetIdleSessionCount :: "imap_server \<Rightarrow> nat" where
  "GetIdleSessionCount sv = length (is_idle sv)"

definition GetIdleSessionsForMailbox :: "ID \<Rightarrow> imap_server \<Rightarrow> nat" where
  "GetIdleSessionsForMailbox mailboxID sv = length (filter (\<lambda>e. isi_MailboxID (snd e) = mailboxID) (is_idle sv))"

datatype UnilateralUpdate = WriteNumMessages "32 word" | WriteMessageFlags "32 word" "32 word" "string list" | WriteExpunge "32 word"

definition WriteUpdate :: "Notification \<Rightarrow> UnilateralUpdate" where
  "WriteUpdate n =
     (case nf_Type n of
        NotificationNewMessage \<Rightarrow> WriteNumMessages (nf_MessageCount n)
      | NotificationFlagsChanged \<Rightarrow> WriteMessageFlags (nf_SeqNum n) (nf_UID n) (nf_Flags n)
      | NotificationMessageExpunged \<Rightarrow> WriteExpunge (nf_SeqNum n)
      | NotificationMailboxUpdated \<Rightarrow> WriteNumMessages (nf_MessageCount n))"

section \<open>Session commands\<close>

definition is_authenticated_state :: "SessionState \<Rightarrow> bool" where
  "is_authenticated_state st \<longleftrightarrow> st \<noteq> SessionStateNotAuthenticated"

definition IsAuthenticated :: "imap_session \<Rightarrow> bool" where
  "IsAuthenticated s \<longleftrightarrow> is_authenticated_state (se_state s) \<and> se_userSession s \<noteq> None"

definition user_session :: "imap_session \<Rightarrow> imap_server \<Rightarrow> UserSession option" where
  "user_session s sv = Option.bind (se_userSession s) (map_of (is_objects sv))"

definition imap_newSession :: "imap_env \<Rightarrow> imap_server \<Rightarrow> imap_session \<times> imap_server" where
  "imap_newSession env sv =
     (\<lparr>se_sessionID = ie_gen env (is_uuids sv), se_username = [], se_state = SessionStateNotAuthenticated, se_userSession = None,
       se_pollNotifications = None, se_pollSubscriptionID = []\<rparr>,
      sv\<lparr>is_connCount := is_connCount sv + 1, is_uuids := is_uuids sv + 1\<rparr>)"

definition sess_Login ::
  "imap_env \<Rightarrow> instant \<Rightarrow> string \<Rightarrow> string \<Rightarrow> imap_session \<Rightarrow> imap_server \<Rightarrow> bool \<times> imap_session \<times> imap_server" where
  "sess_Login env now username password s sv =
     (if \<not> is_backend sv then (False, s, sv)
      else case Backend_Login env now username password sv of
        (Inl _, sv') \<Rightarrow> (False, s, sv')
      | (Inr us, sv') \<Rightarrow>
          (True, s\<lparr>se_username := username, se_userSession := Some (us_ID us), se_state := SessionStateAuthenticated\<rparr>, sv'))"

definition unsubscribePollNotificationsLocked :: "imap_session \<Rightarrow> imap_server \<Rightarrow> imap_session \<times> imap_server" where
  "unsubscribePollNotificationsLocked s sv =
     (case se_pollNotifications s of
        None \<Rightarrow> (s, sv)
      | Some c \<Rightarrow>
          let sv = (case Option.bind (user_session s sv) us_SelectedMailbox of
                      None \<Rightarrow> sv
                    | Some mbox \<Rightarrow> sv\<lparr>is_notify := map_option (Unsubscribe (se_pollSubscriptionID s) (mb_ID mbox)) (is_notify sv)\<rparr>)
          in (s\<lparr>se_pollNotifications := None, se_pollSubscriptionID := []\<rparr>, close_chan c sv))"

definition subscribePollNotifications ::
  "instant \<Rightarrow> ID \<Rightarrow> ID \<Rightarrow> imap_session \<Rightarrow> imap_server \<Rightarrow> imap_session \<times> imap_server" where
  "subscribePollNotifications now mailboxID userID s sv =
     (case (if se_pollNotifications s \<noteq> None then unsubscribePollNotificationsLocked s sv else (s, sv)) of
        (s, sv) \<Rightarrow>
          case is_notify sv of
            None \<Rightarrow> (s, sv)
          | Some ns \<Rightarrow>
              case make_chan sv of (c, sv) \<Rightarrow>
                let subID = ''poll-'' @ se_sessionID s in
                (s\<lparr>se_pollNotifications := Some c, se_pollSubscriptionID := subID\<rparr>,
                 sv\<lparr>is_notify := Some (Subscribe now subID mailboxID userID (Some c) ns)\<rparr>))"

definition not_authenticated :: imap_error where
  "not_authenticated = ImapNo None ''Not authenticated''"

definition sess_Select ::
  "instant \<Rightarrow> string \<Rightarrow> bool \<Rightarrow> imap_session \<Rightarrow> imap_server \<Rightarrow> (imap_error + SelectData) \<times> imap_session \<times> imap_server" where
  "sess_Select now mailbox readOnly s sv =
     (case (if IsAuthenticated s then user_session s sv else None) of
        None \<Rightarrow> (Inl not_authenticated, s, sv)
      | Some us \<Rightarrow>
          case mo_Select (usr_ID (us_User us)) mailbox (is_db sv) of
            (Inl e, d) \<Rightarrow> (Inl e, s, sv\<lparr>is_db := d\<rparr>)
          | (Inr (domainMailbox, selectData), d) \<Rightarrow>
              let sv = put_object (SelectMailbox now domainMailbox readOnly us) (sv\<lparr>is_db := d\<rparr>);
                  s = s\<lparr>se_state := SessionStateSelected\<rparr>
              in case subscribePollNotifications now (mb_ID domainMailbox) (usr_ID (us_User us)) s sv of
                   (s, sv) \<Rightarrow> (Inr selectData, s, sv))"

text \<open>The commands that only need a login: the operation of the mailbox operator on the database.\<close>

definition as_user ::
  "(ID \<Rightarrow> 'a imapm) \<Rightarrow> imap_session \<Rightarrow> imap_server \<Rightarrow> (imap_error + 'a) \<times> imap_session \<times> imap_server" where
  "as_user f s sv =
     (case (if IsAuthenticated s then user_session s sv else None) of
        None \<Rightarrow> (Inl not_authenticated, s, sv)
      | Some us \<Rightarrow> (case f (usr_ID (us_User us)) (is_db sv) of (r, d) \<Rightarrow> (r, s, sv\<lparr>is_db := d\<rparr>)))"

definition sess_Create where
  "sess_Create env now k name = as_user (\<lambda>u. mo_Create (ie_gen env) now u k name)"

definition sess_Delete where
  "sess_Delete name = as_user (\<lambda>u. mo_Delete u name)"

definition sess_Rename where
  "sess_Rename env now k name newName = as_user (\<lambda>u. mo_Rename (fe_fts (ie_fetch env)) (ie_gen env) now u k name newName)"

definition sess_Subscribe where
  "sess_Subscribe name = as_user (\<lambda>u. mo_Subscribe u name)"

definition sess_Unsubscribe where
  "sess_Unsubscribe name = as_user (\<lambda>u. mo_Unsubscribe u name)"

definition sess_Status where
  "sess_Status name options = as_user (\<lambda>u. mo_Status u name options)"

definition sess_List where
  "sess_List ref pats options = as_user (\<lambda>u. handed_on (ml_List u ref pats options))"

text \<open>APPEND checks for a user session only, not for the state.\<close>

definition sess_Append ::
  "imap_env \<Rightarrow> instant \<Rightarrow> nat \<Rightarrow> string \<Rightarrow> bytes option \<Rightarrow> AppendOptions option \<Rightarrow> imap_session \<Rightarrow> imap_server \<Rightarrow>
     (imap_error + AppendData) \<times> imap_session \<times> imap_server" where
  "sess_Append env now k mailbox literal options s sv =
     (case appendMessage (ie_parse env) (ie_gen env k) now (map_option (\<lambda>us. usr_ID (us_User us)) (user_session s sv))
             mailbox literal options (is_db sv) of (r, d) \<Rightarrow> (r, s, sv\<lparr>is_db := d\<rparr>))"

text \<open>The commands on the selected mailbox: the guards they share, in their order.\<close>

definition selected_guard :: "bool \<Rightarrow> imap_session \<Rightarrow> imap_server \<Rightarrow> imap_error + (ID \<times> Mailbox)" where
  "selected_guard writes s sv =
     (case (if IsAuthenticated s then user_session s sv else None) of
        None \<Rightarrow> Inl not_authenticated
      | Some us \<Rightarrow>
          case us_SelectedMailbox us of
            None \<Rightarrow> Inl (ImapNo None ''No mailbox selected'')
          | Some mbox \<Rightarrow>
              if writes \<and> us_IsReadOnly us then Inl (ImapNo None ''Mailbox is read-only'')
              else Inr (usr_ID (us_User us), mbox))"

definition sess_Expunge ::
  "imap_env \<Rightarrow> instant \<Rightarrow> (32 word \<Rightarrow> bool) option \<Rightarrow> imap_session \<Rightarrow> imap_server \<Rightarrow>
     (imap_error option \<times> 32 word list) \<times> imap_session \<times> imap_server" where
  "sess_Expunge env now uids s sv =
     (case selected_guard True s sv of
        Inl e \<Rightarrow> ((Some e, []), s, sv)
      | Inr (_, mbox) \<Rightarrow>
          case Expunge (fe_fts (ie_fetch env)) now (Some mbox) uids (is_db sv) of
            ((e, ex), d) \<Rightarrow> ((e, map fst ex), s, with_notify (notify_expunged now (mb_ID mbox) ex) (sv\<lparr>is_db := d\<rparr>)))"

definition sess_Store ::
  "imap_env \<Rightarrow> instant \<Rightarrow> NumSet \<Rightarrow> StoreFlags \<Rightarrow> imap_session \<Rightarrow> imap_server \<Rightarrow>
     (imap_error option \<times> StoreOut) \<times> imap_session \<times> imap_server" where
  "sess_Store env now numSet flags s sv =
     (case selected_guard True s sv of
        Inl e \<Rightarrow> ((Some e, emptyStoreOut), s, sv)
      | Inr (_, mbox) \<Rightarrow>
          case Store (ie_order env) (fe_fts (ie_fetch env)) now (Some mbox) numSet flags (is_db sv) of
            (res, d) \<Rightarrow>
              (case Store_notify (ie_flag env) now mbox (se_sessionID s) res (is_notify sv) of
                 (calls, ns) \<Rightarrow> (res, s, sv\<lparr>is_db := d, is_notify := ns, is_pending := is_pending sv @ calls\<rparr>)))"

definition sess_Copy ::
  "imap_env \<Rightarrow> instant \<Rightarrow> nat \<Rightarrow> NumSet \<Rightarrow> string \<Rightarrow> imap_session \<Rightarrow> imap_server \<Rightarrow>
     (imap_error + CopyData) \<times> imap_session \<times> imap_server" where
  "sess_Copy env now k numSet dest s sv =
     (case selected_guard False s sv of
        Inl e \<Rightarrow> (Inl e, s, sv)
      | Inr (u, mbox) \<Rightarrow>
          case Copy (fe_fts (ie_fetch env)) (ie_gen env) now k u (Some mbox) numSet dest (is_db sv) of
            (r, d) \<Rightarrow> (r, s, sv\<lparr>is_db := d\<rparr>))"

definition sess_Move ::
  "imap_env \<Rightarrow> instant \<Rightarrow> nat \<Rightarrow> NumSet \<Rightarrow> string \<Rightarrow> imap_session \<Rightarrow> imap_server \<Rightarrow>
     (imap_error + CopyData \<times> 32 word list) \<times> imap_session \<times> imap_server" where
  "sess_Move env now k numSet dest s sv =
     (case selected_guard True s sv of
        Inl e \<Rightarrow> (Inl e, s, sv)
      | Inr (u, mbox) \<Rightarrow>
          case Move (fe_fts (ie_fetch env)) (ie_gen env) now k u (Some mbox) numSet dest (is_db sv) of
            (Inl e, d) \<Rightarrow> (Inl e, s, sv\<lparr>is_db := d\<rparr>)
          | (Inr (copyData, seqNums), d) \<Rightarrow> (Inr (copyData, sortUint32Desc seqNums), s, sv\<lparr>is_db := d\<rparr>))"

definition sess_Fetch ::
  "imap_env \<Rightarrow> instant \<Rightarrow> NumSet \<Rightarrow> FetchOptions \<Rightarrow> imap_session \<Rightarrow> imap_server \<Rightarrow>
     (fetch_failure option \<times> (32 word \<times> FetchItem list) list) \<times> imap_session \<times> imap_server" where
  "sess_Fetch env now numSet options s sv =
     (case selected_guard False s sv of
        Inl e \<Rightarrow> ((Some (FetchNo e), []), s, sv)
      | Inr (_, mbox) \<Rightarrow>
          case Fetch (ie_fetch env) (ie_order env) now (Some mbox) numSet options (is_db sv) of
            (r, d) \<Rightarrow> (r, s, sv\<lparr>is_db := d\<rparr>))"

definition sess_Unselect :: "imap_session \<Rightarrow> imap_server \<Rightarrow> imap_session \<times> imap_server" where
  "sess_Unselect s sv = (s, sv)"

text \<open>POLL empties the queue; expunges are dropped when they are not allowed.\<close>

definition sess_Poll :: "bool \<Rightarrow> imap_session \<Rightarrow> imap_server \<Rightarrow> UnilateralUpdate list \<times> imap_server" where
  "sess_Poll allowExpunge s sv =
     (case se_pollNotifications s of
        None \<Rightarrow> ([], sv)
      | Some c \<Rightarrow>
          let q = ch_queue (is_chans sv ! c) in
          (map WriteUpdate (filter (\<lambda>n. allowExpunge \<or> nf_Type n \<noteq> NotificationMessageExpunged) q),
           if ch_closed (is_chans sv ! c) then sv\<lparr>is_panic := True\<rparr>
           else sv\<lparr>is_chans := (is_chans sv)[c := (is_chans sv ! c)\<lparr>ch_queue := []\<rparr>]\<rparr>))"

definition onSessionClose :: "imap_server \<Rightarrow> imap_server" where
  "onSessionClose sv = sv\<lparr>is_connCount := is_connCount sv - 1\<rparr>"

definition sess_Close :: "imap_session \<Rightarrow> imap_server \<Rightarrow> imap_session \<times> imap_server" where
  "sess_Close s sv =
     (case unsubscribePollNotificationsLocked (s\<lparr>se_state := SessionStateLogout\<rparr>) sv of
        (s, sv) \<Rightarrow>
          (s, onSessionClose (case se_userSession s of None \<Rightarrow> sv | Some i \<Rightarrow> if is_backend sv then Backend_Logout i sv else sv)))"

text \<open>
  IDLE: registering under a fresh UUID, and what every way out of the wait does. Between the two the handler writes the
  notifications of its channel.
\<close>

definition idle_begin :: "imap_env \<Rightarrow> instant \<Rightarrow> imap_session \<Rightarrow> imap_server \<Rightarrow> string option \<times> imap_server" where
  "idle_begin env now s sv =
     (case user_session s sv of
        None \<Rightarrow> (None, sv)
      | Some us \<Rightarrow>
          (case (us_SelectedMailbox us, is_notify sv) of
             (Some mbox, Some _) \<Rightarrow>
               let (h, m) = CreateHandler (se_sessionID s) (is_manager sv);
                   subscriptionID = ie_gen env (is_uuids sv);
                   (allowed, h) = incrementIdleSessions h
               in (Some subscriptionID,
                   RegisterIdleSession now subscriptionID (mb_ID mbox) (usr_ID (us_User us))
                     (sv\<lparr>is_uuids := is_uuids sv + 1, is_manager := set_handler (se_sessionID s) h m\<rparr>))
           | _ \<Rightarrow> (None, sv)))"

definition idle_receive :: "string \<Rightarrow> imap_server \<Rightarrow> UnilateralUpdate list \<times> imap_server" where
  "idle_receive subscriptionID sv =
     (case map_of (is_idle sv) subscriptionID of
        None \<Rightarrow> ([], sv)
      | Some info \<Rightarrow>
          let c = is_chans sv ! isi_NotifyChan info in
          (case ch_queue c of
             [] \<Rightarrow> ([], sv)
           | n # q \<Rightarrow> ([WriteUpdate n], sv\<lparr>is_chans := (is_chans sv)[isi_NotifyChan info := c\<lparr>ch_queue := q\<rparr>]\<rparr>)))"

text \<open>The deferred calls; the count of the handler is not read again once the manager has dropped it.\<close>

definition idle_end :: "string \<Rightarrow> imap_session \<Rightarrow> imap_server \<Rightarrow> imap_server" where
  "idle_end subscriptionID s sv =
     (let sv = UnregisterIdleSession subscriptionID sv in
      sv\<lparr>is_manager := RemoveHandler (se_sessionID s) (is_manager sv)\<rparr>)"

section \<open>What the commands leave behind\<close>

definition selected_mailbox :: "imap_session \<Rightarrow> imap_server \<Rightarrow> Mailbox option" where
  "selected_mailbox s sv = Option.bind (user_session s sv) us_SelectedMailbox"

lemma put_object_simps [simp]:
  "is_db (put_object us sv) = is_db sv" "is_notify (put_object us sv) = is_notify sv"
  "is_chans (put_object us sv) = is_chans sv" "is_backend (put_object us sv) = is_backend sv"
  "map_of (is_objects (put_object us sv)) = (map_of (is_objects sv))(us_ID us \<mapsto> us)"
  by (simp_all add: put_object_def update_conv')

lemma close_chan_simps [simp]:
  "is_notify (close_chan c sv) = is_notify sv" "is_objects (close_chan c sv) = is_objects sv"
  "is_db (close_chan c sv) = is_db sv" "length (is_chans (close_chan c sv)) = length (is_chans sv)"
  by (simp_all add: close_chan_def)

lemma user_session_cong: "is_objects sv' = is_objects sv \<Longrightarrow> se_userSession s' = se_userSession s \<Longrightarrow>
    user_session s' sv' = user_session s sv"
  by (simp add: user_session_def)

text \<open>The registry a subscription for polling is entered into: the old one is taken out of the mailbox selected now.\<close>

definition registry_before :: "imap_session \<Rightarrow> imap_server \<Rightarrow> nat NotifyService \<Rightarrow> nat NotifyService" where
  "registry_before s sv ns =
     (case (se_pollNotifications s, selected_mailbox s sv) of
        (Some _, Some mbox) \<Rightarrow> Unsubscribe (se_pollSubscriptionID s) (mb_ID mbox) ns
      | _ \<Rightarrow> ns)"

lemma subscribePollNotifications_effect:
  assumes "subscribePollNotifications now mb u s sv = (s', sv')" and "is_notify sv = Some ns"
  shows "is_notify sv' = Some (Subscribe now (''poll-'' @ se_sessionID s) mb u (Some (length (is_chans sv))) (registry_before s sv ns))"
    and "s' = s\<lparr>se_pollNotifications := Some (length (is_chans sv)), se_pollSubscriptionID := ''poll-'' @ se_sessionID s\<rparr>"
    and "is_objects sv' = is_objects sv" and "is_db sv' = is_db sv"
    and "is_chans sv' = (case se_pollNotifications s of None \<Rightarrow> is_chans sv | Some c \<Rightarrow> is_chans (close_chan c sv)) @
      [\<lparr>ch_queue = [], ch_closed = False\<rparr>]"
  using assms
  by (auto simp: subscribePollNotifications_def unsubscribePollNotificationsLocked_def registry_before_def selected_mailbox_def
      make_chan_def Let_def close_chan_def split: option.splits if_splits)

lemma subscribePollNotifications_frame:
  assumes "subscribePollNotifications now mb u s sv = (s', sv')"
  shows "is_objects sv' = is_objects sv" and "is_db sv' = is_db sv" and "is_backend sv' = is_backend sv"
    and "is_sessions sv' = is_sessions sv"
    and "se_userSession s' = se_userSession s" and "se_state s' = se_state s" and "se_sessionID s' = se_sessionID s"
  using assms
  by (auto simp: subscribePollNotifications_def unsubscribePollNotificationsLocked_def
      make_chan_def Let_def close_chan_def split: option.splits if_splits)

lemma mo_Select_cases:
  assumes "mo_Select u name d = (Inr (mbox, data), d')"
  shows "mo_findMailboxByName u (NormalizeMailboxName name) d = (Inr mbox, d') \<and> data = NewSelectData mbox"
  using assms by (auto simp: mo_Select_def imap_then_def must_exist_def or_missing_def imap_ret_def
      split: prod.splits sum.splits if_splits)

text \<open>A SELECT that succeeds, in one equation per part of the state.\<close>

lemma sess_Select_ok:
  assumes "sess_Select now name ro s sv = (Inr x, s', sv')"
  obtains us mbox d sv1 where
    "IsAuthenticated s" and "user_session s sv = Some us" and "mo_Select (usr_ID (us_User us)) name (is_db sv) = (Inr (mbox, x), d)"
    and "sv1 = put_object (SelectMailbox now mbox ro us) (sv\<lparr>is_db := d\<rparr>)"
    and "subscribePollNotifications now (mb_ID mbox) (usr_ID (us_User us)) (s\<lparr>se_state := SessionStateSelected\<rparr>) sv1 = (s', sv')"
  using assms by (auto simp: sess_Select_def Let_def split: option.splits prod.splits sum.splits if_splits)

text \<open>Every object of the heap lies under its own identifier.\<close>

definition heap_ok :: "imap_server \<Rightarrow> bool" where
  "heap_ok sv \<longleftrightarrow> (\<forall>i us. map_of (is_objects sv) i = Some us \<longrightarrow> us_ID us = i)"

lemma user_session_put:
  assumes "heap_ok sv" and "user_session s sv = Some us" and "us_ID us' = us_ID us"
  shows "user_session s (put_object us' sv) = Some us'"
  using assms by (auto simp: user_session_def heap_ok_def bind_eq_Some_conv)

lemma SelectMailbox_simps [simp]:
  "us_ID (SelectMailbox now mbox ro us) = us_ID us" "us_User (SelectMailbox now mbox ro us) = us_User us"
  "us_SelectedMailbox (SelectMailbox now mbox ro us) = Some mbox" "us_IsReadOnly (SelectMailbox now mbox ro us) = ro"
  by (simp_all add: SelectMailbox_def)

lemma heap_ok_db [simp]: "heap_ok (sv\<lparr>is_db := d\<rparr>) = heap_ok sv" "user_session s (sv\<lparr>is_db := d\<rparr>) = user_session s sv"
  by (simp_all add: heap_ok_def user_session_def)

lemma heap_ok_put: "heap_ok sv \<Longrightarrow> heap_ok (put_object us sv)"
  by (simp add: heap_ok_def)

lemma selected_after_Select:
  assumes "heap_ok sv" and "sess_Select now name ro s sv = (Inr x, s', sv')"
  shows "\<exists>us mbox d. user_session s sv = Some us \<and> mo_Select (usr_ID (us_User us)) name (is_db sv) = (Inr (mbox, x), d) \<and>
    user_session s' sv' = Some (SelectMailbox now mbox ro us) \<and> is_db sv' = d \<and> heap_ok sv' \<and>
    se_userSession s' = se_userSession s \<and> se_sessionID s' = se_sessionID s \<and> se_state s' = SessionStateSelected"
proof -
  from assms(2) obtain us mbox d sv1 where us: "user_session s sv = Some us"
    and sel: "mo_Select (usr_ID (us_User us)) name (is_db sv) = (Inr (mbox, x), d)"
    and sv1: "sv1 = put_object (SelectMailbox now mbox ro us) (sv\<lparr>is_db := d\<rparr>)"
    and sub: "subscribePollNotifications now (mb_ID mbox) (usr_ID (us_User us)) (s\<lparr>se_state := SessionStateSelected\<rparr>) sv1 = (s', sv')"
    by (rule sess_Select_ok)
  note f = subscribePollNotifications_frame [OF sub]
  have "user_session s sv1 = Some (SelectMailbox now mbox ro us)"
    unfolding sv1 by (rule user_session_put) (use assms(1) us in simp_all)
  then have "user_session s' sv' = Some (SelectMailbox now mbox ro us)"
    using f(1,5) by (simp add: user_session_def)
  moreover have "heap_ok sv1" unfolding sv1 using assms(1) by (intro heap_ok_put) simp
  then have "heap_ok sv'" using f(1) by (simp add: heap_ok_def)
  moreover have "is_db sv' = d" using f(2) by (simp add: sv1)
  ultimately show ?thesis using us sel f(5-7) by auto
qed

lemma Select_registry:
  assumes "heap_ok sv" and "sess_Select now name ro s sv = (Inr x, s', sv')" and "is_notify sv = Some ns"
    and "selected_mailbox s' sv' = Some mbox"
  shows "is_notify sv' = Some (Subscribe now (''poll-'' @ se_sessionID s) (mb_ID mbox)
      (usr_ID (us_User (the (user_session s sv)))) (Some (length (is_chans sv)))
      (case se_pollNotifications s of None \<Rightarrow> ns | Some _ \<Rightarrow> Unsubscribe (se_pollSubscriptionID s) (mb_ID mbox) ns))"
    and "se_pollNotifications s' = Some (length (is_chans sv)) \<and> se_pollSubscriptionID s' = ''poll-'' @ se_sessionID s"
    and "is_chans sv' = (case se_pollNotifications s of None \<Rightarrow> is_chans sv | Some c \<Rightarrow> is_chans (close_chan c sv)) @
      [\<lparr>ch_queue = [], ch_closed = False\<rparr>]"
proof -
  from assms(2) obtain us mbox' d sv1 where us: "user_session s sv = Some us"
    and sel: "mo_Select (usr_ID (us_User us)) name (is_db sv) = (Inr (mbox', x), d)"
    and sv1: "sv1 = put_object (SelectMailbox now mbox' ro us) (sv\<lparr>is_db := d\<rparr>)"
    and sub: "subscribePollNotifications now (mb_ID mbox') (usr_ID (us_User us)) (s\<lparr>se_state := SessionStateSelected\<rparr>) sv1 = (s', sv')"
    by (rule sess_Select_ok)
  have "is_notify sv1 = Some ns" by (simp add: sv1 assms(3))
  note e = subscribePollNotifications_effect [OF sub this]
  have "mbox' = mbox" using selected_after_Select [OF assms(1,2)] us sel assms(4) by (auto simp: selected_mailbox_def)
  moreover have "user_session s sv1 = Some (SelectMailbox now mbox' ro us)"
    unfolding sv1 by (rule user_session_put) (use assms(1) us in simp_all)
  moreover from this have "selected_mailbox (s\<lparr>se_state := SessionStateSelected\<rparr>) sv1 = Some mbox'"
    by (simp add: selected_mailbox_def user_session_def)
  ultimately show "is_notify sv' = Some (Subscribe now (''poll-'' @ se_sessionID s) (mb_ID mbox)
      (usr_ID (us_User (the (user_session s sv)))) (Some (length (is_chans sv)))
      (case se_pollNotifications s of None \<Rightarrow> ns | Some _ \<Rightarrow> Unsubscribe (se_pollSubscriptionID s) (mb_ID mbox) ns))"
    using e(1) us by (simp add: registry_before_def sv1 split: option.splits)
  show "se_pollNotifications s' = Some (length (is_chans sv)) \<and> se_pollSubscriptionID s' = ''poll-'' @ se_sessionID s"
    using e(2) by (simp add: sv1)
  have "is_chans (close_chan c (put_object y (sv\<lparr>is_db := d\<rparr>))) = is_chans (close_chan c sv)" for c y
    by (simp add: close_chan_def put_object_def)
  then show "is_chans sv' = (case se_pollNotifications s of None \<Rightarrow> is_chans sv | Some c \<Rightarrow> is_chans (close_chan c sv)) @
      [\<lparr>ch_queue = [], ch_closed = False\<rparr>]"
    using e(5) by (simp add: sv1 split: option.splits)
qed

section \<open>Properties\<close>

text \<open>C36. Selecting a second mailbox leaves a trap behind. The session subscribes to a mailbox when it selects it; a second
  SELECT closes the channel of the first subscription but takes the subscription out of the new mailbox instead of the old
  one. The next notification for the first mailbox, such as the delivery of a message, is handed to a handler that sends on
  the closed channel, which is a run-time panic of the server.\<close>

theorem reselect_then_notify_panics:
  assumes "heap_ok sv" and "is_notify sv = Some ns" and "registry_ok ns"
    and first: "sess_Select now1 name1 ro1 s sv = (Inr x1, s1, sv1)" and "selected_mailbox s1 sv1 = Some mb1"
    and second: "sess_Select now2 name2 ro2 s1 sv1 = (Inr x2, s2, sv2)" and "selected_mailbox s2 sv2 = Some mb2"
    and "mb_ID mb1 \<noteq> mb_ID mb2" and "nf_MailboxID n = mb_ID mb1" and "ex \<noteq> ''poll-'' @ se_sessionID s"
    and "sv3 = with_notify (Notify now n ex) sv2"
  shows "\<exists>call \<in> set (is_pending sv3). is_panic (run_handler call sv3)"
proof -
  let ?id = "''poll-'' @ se_sessionID s" and ?c = "length (is_chans sv)"
  note r1 = Select_registry [OF assms(1) first assms(2,5)]
  have s1: "heap_ok sv1" "se_sessionID s1 = se_sessionID s"
    using selected_after_Select [OF assms(1) first] by auto
  obtain ns1 where ns1: "is_notify sv1 = Some ns1" "registry_ok ns1" "\<exists>t. subscribed ?id (mb_ID mb1) ns1 = Some t \<and> sub_Handler t = Some ?c"
    using r1(1) assms(3)
    by (auto simp: subscribed_Subscribe Unsubscribe_def intro!: Subscribe_ok drop_subscription_ok split: option.splits)
  note r2 = Select_registry [OF s1(1) second ns1(1) assms(7)]
  obtain ns2 where ns2: "is_notify sv2 = Some ns2" "registry_ok ns2" "\<exists>t. subscribed ?id (mb_ID mb1) ns2 = Some t \<and> sub_Handler t = Some ?c"
    using r2(1) ns1(2,3) assms(8) r1(2) s1(2)
    by (auto simp: subscribed_Subscribe subscribed_drop Unsubscribe_def intro!: Subscribe_ok drop_subscription_ok)
  have "is_chans sv1 ! ?c = \<lparr>ch_queue = [], ch_closed = False\<rparr>" "?c < length (is_chans sv1)"
    using r1(3) by (auto simp: nth_append split: option.splits)
  then have "ch_closed (is_chans sv2 ! ?c)"
    using r2(3) r1(2) by (simp add: close_chan_def nth_append)
  moreover have "(?c, n) \<in> set (fst (Notify now n ex ns2))"
    using ns2(3) assms(9,10) by (auto simp: Notify_calls [OF ns2(2)])
  ultimately show ?thesis
    using ns2(1) unfolding assms(11)
    by (intro bexI [of _ "(?c, n)"]) (auto simp: with_notify_def notify_via_def run_handler_def Let_def split: prod.splits)
qed

section \<open>FETCH marks messages as seen\<close>

definition add_seen :: StoreFlags where
  "add_seen = \<lparr>stf_Op = StoreFlagsAdd, stf_Silent = True, stf_Flags = [FlagSeen]\<rparr>"

lemma store_row_seen: "store_row now add_seen r = (if FlagSeen \<in> row_flags r then r else put_flag now True FlagSeen r)"
proof (cases "FlagSeen \<in> row_flags r")
  case True
  then have "store_flags add_seen (row_flags r) = row_flags r"
    by (auto simp: store_flags_def add_seen_def)
  with True show ?thesis by (simp add: store_row_unchanged)
next
  case False
  have G: "store_flags add_seen (row_flags r) = insert FlagSeen (row_flags r)"
    by (auto simp: store_flags_def add_seen_def)
  have "row_flags (put_flag now True FlagSeen r) = insert FlagSeen (row_flags r)"
    by (simp add: row_flags_put StandardFlags_def)
  with False show ?thesis
    unfolding store_row_def G by (simp add: set_row_def)
qed

lemma fetch_markAsRead_eq:
  assumes "schema_ok d" and "row_for d m"
  shows "fetch_markAsRead now m d = at_row (msg_ID m) (store_row now add_seen) d"
proof -
  from assms(2) obtain r where r: "r \<in> set (db_messages d)" "r_id r = msg_ID m" "row_flags r = message_flags m"
    by (auto simp: row_for_def)
  have seen: "FlagSeen \<in> message_flags m \<longleftrightarrow> msg_Status m = MessageRead"
    by (auto simp: message_flags_def)
  have row: "r_status r = ''read'' \<longleftrightarrow> msg_Status m = MessageRead"
    using r(3) seen row_seen [of r] by simp
  show ?thesis
  proof (cases "msg_Status m = MessageRead")
    case True
    then have "store_row now add_seen r = r" using r(3) seen by (simp add: store_row_seen)
    then show ?thesis
      using True at_row_same [OF assms(1) r(1), of "store_row now add_seen"] r(2) by (simp add: fetch_markAsRead_def)
  next
    case False
    then have "store_row now add_seen r = put_flag now True FlagSeen r" using r(3) seen by (simp add: store_row_seen)
    then have "at_row (r_id r) (put_flag now True FlagSeen) d = at_row (r_id r) (store_row now add_seen) d"
      using at_row_cong [OF assms(1) r(1), of "put_flag now True FlagSeen" "store_row now add_seen"] by simp
    then show ?thesis
      using False Mark_ok(1) [OF assms(1) r(1), of now] row r(2) by (simp add: fetch_markAsRead_def)
  qed
qed

lemma fetchMessage_db:
  assumes "fetchMessage env now options m d = ((None, items), d')"
  shows "d' = (if list_ex marks_read (fto_BodySection options) then fetch_markAsRead now m d else d)"
  using assms by (auto simp: fetchMessage_def Let_def split: if_splits prod.splits option.splits)

lemma fetch_loop_db:
  assumes "fetch_loop env now options ms d = ((None, out), d')"
    and "schema_ok d" and "distinct (map (msg_ID \<circ> snd) ms)" and "\<forall>x \<in> set ms. row_for d (snd x)"
  shows "d' = (if list_ex marks_read (fto_BodySection options)
      then at_rows (msg_ID ` snd ` set ms) (store_row now add_seen) d else d)"
  using assms
proof (induction ms arbitrary: d out)
  case (Cons x ms)
  obtain k m where x: "x = (k, m)" by (cases x)
  from Cons.prems(1) obtain items d1 out1 where one: "fetchMessage env now options m d = ((None, items), d1)"
    and more: "fetch_loop env now options ms d1 = ((None, out1), d')"
    by (auto simp: x split: prod.splits option.splits)
  let ?d = "at_row (msg_ID m) (store_row now add_seen) d"
  have new: "msg_ID m \<notin> msg_ID ` snd ` set ms" using Cons.prems(3) x by (auto simp: image_iff)
  have dist: "distinct (map (msg_ID \<circ> snd) ms)" using Cons.prems(3) by (simp add: comp_def)
  have rest: "\<forall>y \<in> set ms. row_for d (snd y)" using Cons.prems(4) by simp
  show ?case
  proof (cases "list_ex marks_read (fto_BodySection options)")
    case True
    have "row_for d m" using Cons.prems(4) x by simp
    then have d1: "d1 = ?d"
      using fetchMessage_db [OF one] True fetch_markAsRead_eq [OF Cons.prems(2)] by simp
    have "schema_ok ?d"
      by (rule schema_ok_at_row [OF Cons.prems(2)]) (simp add: keeps_message_keys_def)
    then have "d' = at_rows (msg_ID ` snd ` set ms) (store_row now add_seen) ?d"
      using Cons.IH [OF more] rows_for_others [OF rest new] dist True by (simp add: d1 comp_def)
    then show ?thesis
      using True at_rows_insert [of "store_row now add_seen" "msg_ID m", OF _ new] x by simp
  next
    case False
    then show ?thesis
      using Cons.IH [OF more] fetchMessage_db [OF one] Cons.prems(2) dist rest by (simp add: comp_def)
  qed
qed simp

lemma Fetch_view:
  assumes run: "Fetch env ord now (Some mbox) numSet options d = ((None, out), d')"
    and d: "schema_ok d" and ord: "\<And>xs. mset (ord xs) = mset xs" and marks: "list_ex marks_read (fto_BodySection options)"
  shows "view (mb_ID mbox) d' = spec_store (numSetContainsMessage numSet) add_seen (view (mb_ID mbox) d)"
proof -
  define sel where "sel = filter (\<lambda>(k, r). numSetContainsMessage numSet k (r_imap_uid r)) (numbered (box_rows (mb_ID mbox) d))"
  note ms = selected_messages [where ord = ord, OF d ord sel_def refl]
  have "fetch_loop env now options (ord (map (\<lambda>(k, r). (k, load d r)) sel)) d = ((None, out), d')"
    using run by (simp add: Fetch_def getMessages_eq sel_def)
  from fetch_loop_db [OF this d ms(1,2)] have "d' = at_rows (r_id ` snd ` set sel) (store_row now add_seen) d"
    using marks ms(3) by simp
  then show ?thesis
    using view_stored(1) [OF d refl, where I = "r_id ` snd ` set sel" and i = "mb_ID mbox" and numSet = numSet] by (simp add: sel_def)
qed

text \<open>EXAMINE does not protect a mailbox. In a session whose mailbox is selected read-only STORE, EXPUNGE and MOVE are
  refused and change nothing, but a FETCH that succeeds for a body section without PEEK sets the flag \<^verbatim>\<open>\Seen\<close> of
  every message it returns, as a STORE would.\<close>

theorem examined_mailbox_is_marked_seen:
  assumes "IsAuthenticated s" and "user_session s sv = Some us" and "us_SelectedMailbox us = Some mbox" and "us_IsReadOnly us"
    and "schema_ok (is_db sv)" and "\<And>xs. mset (ie_order env xs) = mset xs"
    and "sess_Fetch env now numSet options s sv = ((None, out), s', sv')"
    and "list_ex marks_read (fto_BodySection options)"
  shows "sess_Store env now numSet flags s sv = ((Some (ImapNo None ''Mailbox is read-only''), emptyStoreOut), s, sv)
    \<and> sess_Expunge env now uids s sv = ((Some (ImapNo None ''Mailbox is read-only''), []), s, sv)
    \<and> sess_Move env now k numSet dest s sv = (Inl (ImapNo None ''Mailbox is read-only''), s, sv)
    \<and> view (mb_ID mbox) (is_db sv') = spec_store (numSetContainsMessage numSet) add_seen (view (mb_ID mbox) (is_db sv))"
proof -
  have refused: "selected_guard True s sv = Inl (ImapNo None ''Mailbox is read-only'')"
    and allowed: "selected_guard False s sv = Inr (usr_ID (us_User us), mbox)"
    using assms(1-4) by (simp_all add: selected_guard_def)
  obtain d' where "Fetch (ie_fetch env) (ie_order env) now (Some mbox) numSet options (is_db sv) = ((None, out), d')"
    "is_db sv' = d'"
    using assms(7) by (auto simp: sess_Fetch_def allowed split: prod.splits)
  then show ?thesis
    using Fetch_view [OF _ assms(5,6,8)] by (simp add: sess_Store_def sess_Expunge_def sess_Move_def refused)
qed

section \<open>A server for the witnesses\<close>

definition demo_user :: User where
  "demo_user = toUser (hd (db_users sample_db))"

definition demo_server :: "db \<Rightarrow> bool \<Rightarrow> imap_server" where
  "demo_server d ro =
     \<lparr>is_db = d, is_backend = True,
      is_objects = [(''s'', \<lparr>us_ID = ''s'', us_User = demo_user, us_CreatedAt = 0, us_LastActivityAt = 0,
        us_SelectedMailbox = Some (toMailbox (sample_mailbox ''a'' ''a@x'')), us_IsReadOnly = ro\<rparr>)],
      is_sessions = [''s''], is_notify = Some NewNotifyService,
      is_manager = \<lparr>im_MaxIdleSessions = 1, im_handlers = [], im_TotalSessions = 0, im_MaxConcurrentSessions = 0\<rparr>,
      is_idle = [], is_chans = [], is_pending = [], is_uuids = 0, is_panic = False, is_connCount = 1\<rparr>"

definition demo_session :: imap_session where
  "demo_session = \<lparr>se_sessionID = ''1'', se_username = ''u1'', se_state = SessionStateSelected, se_userSession = Some ''s'',
     se_pollNotifications = None, se_pollSubscriptionID = []\<rparr>"

definition demo_env :: imap_env where
  "demo_env = \<lparr>ie_gen = sample_gen, ie_bcrypt = toy_bcrypt,
     ie_fetch = \<lparr>fe_fts = (\<lambda>_ _. False), fe_rebuild = (\<lambda>_. []), fe_structure = (\<lambda>_. True)\<rparr>,
     ie_order = (\<lambda>xs. xs), ie_parse = (\<lambda>_. Inl (Sentinel ErrNotFound)), ie_flag = (\<lambda>_. []), ie_timeout = 30 * Minute\<rparr>"

lemma demo_heap: "heap_ok (demo_server d ro)"
  by (simp add: heap_ok_def demo_server_def)

lemma sess_Select_runs:
  assumes "heap_ok sv" and "IsAuthenticated s" and "user_session s sv = Some us"
    and "mo_Select (usr_ID (us_User us)) name (is_db sv) = (Inr (mbox, data), d)"
  shows "\<exists>s' sv'. sess_Select now name ro s sv = (Inr data, s', sv') \<and> user_session s' sv' = Some (SelectMailbox now mbox ro us) \<and>
    is_db sv' = d \<and> heap_ok sv' \<and> IsAuthenticated s'"
proof -
  obtain s' sv' where "subscribePollNotifications now (mb_ID mbox) (usr_ID (us_User us)) (s\<lparr>se_state := SessionStateSelected\<rparr>)
      (put_object (SelectMailbox now mbox ro us) (sv\<lparr>is_db := d\<rparr>)) = (s', sv')"
    by (rule prod.exhaust)
  then have run: "sess_Select now name ro s sv = (Inr data, s', sv')"
    using assms(2-4) by (simp add: sess_Select_def Let_def)
  have "IsAuthenticated s'"
    using selected_after_Select [OF assms(1) run] assms(2)
    by (auto simp: IsAuthenticated_def is_authenticated_state_def)
  then show ?thesis
    using selected_after_Select [OF assms(1) run] run assms(3,4) by auto
qed

lemma demo_mailboxes:
  "mo_Select ''u1'' ''a'' sample_db = (Inr (toMailbox (sample_mailbox ''a'' ''a@x''), NewSelectData (toMailbox (sample_mailbox ''a'' ''a@x''))), sample_db)"
  "mo_Select ''u1'' ''b'' sample_db = (Inr (toMailbox (sample_mailbox ''b'' ''b@x''), NewSelectData (toMailbox (sample_mailbox ''b'' ''b@x''))), sample_db)"
  by code_simp+

lemma demo_login:
  "IsAuthenticated demo_session" "usr_ID demo_user = ''u1''"
  "\<exists>us. user_session demo_session (demo_server d ro) = Some us \<and> us_User us = demo_user"
  by (simp_all add: IsAuthenticated_def is_authenticated_state_def demo_session_def user_session_def demo_server_def
      demo_user_def toUser_def sample_db_def sample_user_def)

theorem reselect_then_notify_panics_witness:
  "\<exists>x1 s1 sv1 x2 s2 sv2 sv3. sess_Select 1 ''a'' False demo_session (demo_server sample_db False) = (Inr x1, s1, sv1) \<and>
     sess_Select 2 ''b'' False s1 sv1 = (Inr x2, s2, sv2) \<and> sv3 = with_notify (NotifyNewMessage 3 ''a'' [] ''m9'' 3 3 3) sv2 \<and>
     (\<exists>call \<in> set (is_pending sv3). is_panic (run_handler call sv3))"
proof -
  let ?sv = "demo_server sample_db False" and ?a = "toMailbox (sample_mailbox ''a'' ''a@x'')" and ?b = "toMailbox (sample_mailbox ''b'' ''b@x'')"
  obtain us where us: "user_session demo_session ?sv = Some us" "us_User us = demo_user" using demo_login(3) by blast
  have ns: "is_notify ?sv = Some NewNotifyService" and db: "is_db ?sv = sample_db" by (simp_all add: demo_server_def)
  obtain x1 s1 sv1 where one: "sess_Select 1 ''a'' False demo_session ?sv = (Inr x1, s1, sv1)"
    "user_session s1 sv1 = Some (SelectMailbox 1 ?a False us)" "is_db sv1 = sample_db" "heap_ok sv1" "IsAuthenticated s1"
    using sess_Select_runs [OF demo_heap demo_login(1) us(1), of "''a''"] demo_mailboxes(1) us(2) db demo_login(2) by force
  obtain x2 s2 sv2 where two: "sess_Select 2 ''b'' False s1 sv1 = (Inr x2, s2, sv2)"
    "user_session s2 sv2 = Some (SelectMailbox 2 ?b False (SelectMailbox 1 ?a False us))"
    using sess_Select_runs [OF one(4,5,2), of "''b''"] demo_mailboxes(2) us(2) one(3) demo_login(2) by force
  have sel: "selected_mailbox s1 sv1 = Some ?a" "selected_mailbox s2 sv2 = Some ?b"
    by (simp_all add: selected_mailbox_def one(2) two(2))
  have "\<exists>call \<in> set (is_pending (with_notify (NotifyNewMessage 3 ''a'' [] ''m9'' 3 3 3) sv2)).
        is_panic (run_handler call (with_notify (NotifyNewMessage 3 ''a'' [] ''m9'' 3 3 3) sv2))"
    unfolding NotifyNewMessage_def
    by (rule reselect_then_notify_panics [OF demo_heap ns New_ok one(1) sel(1) two(1) sel(2)])
      (simp_all add: toMailbox_def sample_mailbox_def NewNotification_def)
  then show ?thesis using one(1) two(1) by blast
qed

theorem examined_mailbox_is_marked_seen_witness:
  "view ''a'' (is_db (snd (snd (sess_Fetch demo_env 5 (SeqSet (\<lambda>k. k = 1))
     \<lparr>fto_UID = False, fto_Flags = False, fto_InternalDate = False, fto_RFC822Size = False, fto_Envelope = False,
      fto_BodyStructure = False, fto_BodySection = [\<lparr>bsc_Specifier = PartSpecifierText, bsc_Part = [], bsc_HeaderFields = [],
        bsc_HeaderFieldsNot = [], bsc_Partial = None, bsc_Peek = False\<rparr>]\<rparr> demo_session (demo_server imap_db True))))) =
   [(1, {FlagSeen}), (2, {FlagDeleted})]"
  (is "view ''a'' (is_db (snd (snd (sess_Fetch _ _ ?n ?o _ _)))) = _")
proof -
  let ?r = "sess_Fetch demo_env 5 ?n ?o demo_session (demo_server imap_db True)"
  let ?us = "\<lparr>us_ID = ''s'', us_User = demo_user, us_CreatedAt = 0, us_LastActivityAt = 0,
        us_SelectedMailbox = Some (toMailbox (sample_mailbox ''a'' ''a@x'')), us_IsReadOnly = True\<rparr>"
  have us: "IsAuthenticated demo_session" "user_session demo_session (demo_server imap_db True) = Some ?us"
    by (simp_all add: IsAuthenticated_def is_authenticated_state_def demo_session_def user_session_def demo_server_def)
  have db: "is_db (demo_server imap_db True) = imap_db" by (simp add: demo_server_def)
  have ord: "mset (ie_order demo_env xs) = mset xs" for xs by (simp add: demo_env_def)
  have "fst (fst ?r) = None" by code_simp
  then have run: "?r = ((None, snd (fst ?r)), fst (snd ?r), snd (snd ?r))" by (metis prod.collapse)
  have marks: "list_ex marks_read (fto_BodySection ?o)" by (simp add: marks_read_def)
  have v: "view ''a'' imap_db = [(1, {}), (2, {FlagDeleted})]" by code_simp
  have "spec_store (numSetContainsMessage ?n) add_seen [(1, {}), (2, {FlagDeleted})] = [(1, {FlagSeen}), (2, {FlagDeleted})]"
    by (simp add: spec_store_def numbered_def numSetContainsMessage_def store_flags_def add_seen_def StandardFlags_def)
  then show ?thesis
    using examined_mailbox_is_marked_seen [where us = ?us and mbox = "toMailbox (sample_mailbox ''a'' ''a@x'')", OF us _ _ _ ord run marks]
      imap_db_schema v db by (simp add: toMailbox_def sample_mailbox_def)
qed

text \<open>Ending the sessions of a user does not end them. \<^verbatim>\<open>TerminateUserSessions\<close> and the clean-up of expired sessions
  take the sessions out of the table of the backend, which the commands do not consult: every command of a connection that
  is still open gives the same answer and makes the same change to the database as before.\<close>

theorem terminated_session_keeps_access:
  assumes "sv' = snd (TerminateUserSessions u sv) \<or> sv' = cleanupExpiredSessions env now sv"
  shows "fst (sess_Select t name ro s sv') = fst (sess_Select t name ro s sv)
    \<and> fst (sess_List ref pats lsel s sv') = fst (sess_List ref pats lsel s sv)
    \<and> (case (sess_Fetch env t numSet options s sv', sess_Fetch env t numSet options s sv) of
         ((r', _, a'), (r, _, a)) \<Rightarrow> r' = r \<and> is_db a' = is_db a)
    \<and> (case (sess_Store env t numSet flags s sv', sess_Store env t numSet flags s sv) of
         ((r', _, a'), (r, _, a)) \<Rightarrow> r' = r \<and> is_db a' = is_db a)
    \<and> (case (sess_Expunge env t uids s sv', sess_Expunge env t uids s sv) of
         ((r', _, a'), (r, _, a)) \<Rightarrow> r' = r \<and> is_db a' = is_db a)
    \<and> (case (sess_Move env t k numSet dest s sv', sess_Move env t k numSet dest s sv) of
         ((r', _, a'), (r, _, a)) \<Rightarrow> r' = r \<and> is_db a' = is_db a)
    \<and> (case (sess_Append env t k dest lit aopts s sv', sess_Append env t k dest lit aopts s sv) of
         ((r', _, a'), (r, _, a)) \<Rightarrow> r' = r \<and> is_db a' = is_db a)"
proof -
  have same: "is_objects sv' = is_objects sv" "is_db sv' = is_db sv" "is_notify sv' = is_notify sv" "is_chans sv' = is_chans sv"
    using assms by (auto simp: TerminateUserSessions_def cleanupExpiredSessions_def)
  then have us: "user_session s sv' = user_session s sv" by (simp add: user_session_def)
  then have guard: "selected_guard w s sv' = selected_guard w s sv" for w by (simp add: selected_guard_def)
  have "fst (sess_Select t name ro s sv') = fst (sess_Select t name ro s sv)"
    unfolding sess_Select_def us same by (auto simp: Let_def split: option.splits prod.splits sum.splits)
  moreover have "fst (sess_List ref pats lsel s sv') = fst (sess_List ref pats lsel s sv)"
    unfolding sess_List_def as_user_def us same by (auto split: option.splits prod.splits)
  moreover have "case (sess_Fetch env t numSet options s sv', sess_Fetch env t numSet options s sv) of
         ((r', _, a'), (r, _, a)) \<Rightarrow> r' = r \<and> is_db a' = is_db a"
    unfolding sess_Fetch_def guard same by (auto simp: same split: sum.splits prod.splits)
  moreover have "case (sess_Store env t numSet flags s sv', sess_Store env t numSet flags s sv) of
         ((r', _, a'), (r, _, a)) \<Rightarrow> r' = r \<and> is_db a' = is_db a"
    unfolding sess_Store_def guard same by (auto simp: same split: sum.splits prod.splits)
  moreover have "case (sess_Expunge env t uids s sv', sess_Expunge env t uids s sv) of
         ((r', _, a'), (r, _, a)) \<Rightarrow> r' = r \<and> is_db a' = is_db a"
    unfolding sess_Expunge_def guard same by (auto simp: same with_notify_def split: sum.splits prod.splits)
  moreover have "case (sess_Move env t k numSet dest s sv', sess_Move env t k numSet dest s sv) of
         ((r', _, a'), (r, _, a)) \<Rightarrow> r' = r \<and> is_db a' = is_db a"
    unfolding sess_Move_def guard same by (auto simp: same split: sum.splits prod.splits)
  moreover have "case (sess_Append env t k dest lit aopts s sv', sess_Append env t k dest lit aopts s sv) of
         ((r', _, a'), (r, _, a)) \<Rightarrow> r' = r \<and> is_db a' = is_db a"
    unfolding sess_Append_def us same by (auto split: prod.splits)
  ultimately show ?thesis by blast
qed

theorem terminated_session_keeps_access_witness:
  "is_sessions (snd (TerminateUserSessions ''u1'' (demo_server sample_db False))) = [] \<and>
   (\<exists>data. fst (sess_Select 1 ''b'' False demo_session (snd (TerminateUserSessions ''u1'' (demo_server sample_db False)))) = Inr data)"
proof -
  let ?sv = "demo_server sample_db False"
  obtain us where us: "user_session demo_session ?sv = Some us" "us_User us = demo_user" using demo_login(3) by blast
  have "fst (sess_Select 1 ''b'' False demo_session (snd (TerminateUserSessions ''u1'' ?sv))) = fst (sess_Select 1 ''b'' False demo_session ?sv)"
    by (rule terminated_session_keeps_access [OF disjI1, THEN conjunct1]) (rule refl)
  moreover have "is_sessions (snd (TerminateUserSessions ''u1'' ?sv)) = []"
    by (simp add: TerminateUserSessions_def session_of_def demo_server_def demo_login(2))
  moreover have "is_db ?sv = sample_db" by (simp add: demo_server_def)
  moreover from this obtain data s' sv' where "sess_Select 1 ''b'' False demo_session ?sv = (Inr data, s', sv')"
    using sess_Select_runs [OF demo_heap demo_login(1) us(1), of "''b''"] demo_mailboxes(2) us(2) demo_login(2) by force
  ultimately show ?thesis by simp
qed

end
