(* ===== verification/Imap_Access.thy ===== *)
theory Imap_Access
  imports Imap_Session
begin

text \<open>
  Isolation of users in the IMAP server: whatever commands a session sends, the mailboxes, messages, recipients and attachments
  of everybody but its user stay as they are. A call is \<open>safe\<close> when it keeps the rows of the others and the schema;
  which mailboxes and messages are somebody else's can be read off these rows, so it never changes.
\<close>

section \<open>Safe calls\<close>

type_synonym foreign_rows = "mailboxRow list \<times> messageRow list \<times> recipientRow list \<times> attachmentRow list"

definition intact :: "ID \<Rightarrow> foreign_rows \<Rightarrow> db \<Rightarrow> bool" where
  "intact u F d \<longleftrightarrow> schema_ok d \<and> others u d = F"

definition foreign_boxes :: "foreign_rows \<Rightarrow> ID set" where
  "foreign_boxes F = mr_id ` set (fst F)"

definition foreign_msgs :: "foreign_rows \<Rightarrow> ID set" where
  "foreign_msgs F = r_id ` set (fst (snd F))"

definition safe :: "ID \<Rightarrow> foreign_rows \<Rightarrow> (db \<Rightarrow> 'r \<times> db) \<Rightarrow> ('r \<Rightarrow> bool) \<Rightarrow> bool" where
  "safe u F m P \<longleftrightarrow> (\<forall>d. intact u F d \<longrightarrow> intact u F (snd (m d)) \<and> P (fst (m d)))"

fun on_ok :: "('a \<Rightarrow> bool) \<Rightarrow> 'e + 'a \<Rightarrow> bool" where
  "on_ok P (Inl e) \<longleftrightarrow> True"
| "on_ok P (Inr x) \<longleftrightarrow> P x"

abbreviation harmless :: "ID \<Rightarrow> foreign_rows \<Rightarrow> (db \<Rightarrow> 'r \<times> db) \<Rightarrow> bool" where
  "harmless u F m \<equiv> safe u F m (\<lambda>_. True)"

named_theorems safe_intros \<open>calls that keep the rows of other users\<close>

lemma on_ok_True: "on_ok (\<lambda>_. True) r"
  by (cases r) simp_all

lemma safe_weaken: "safe u F m P \<Longrightarrow> (\<And>r. P r \<Longrightarrow> Q r) \<Longrightarrow> safe u F m Q"
  by (auto simp: safe_def)

lemma safe_harmless: "safe u F m P \<Longrightarrow> harmless u F m"
  by (auto simp: safe_def)

lemma safe_on_ok: "harmless u F m \<Longrightarrow> safe u F m (on_ok (\<lambda>_. True))"
  by (rule safe_weaken) (simp_all add: on_ok_True)

lemma safe_pure:
  "P x \<Longrightarrow> safe u F (ret x) (on_ok P)" "safe u F (fail e) (on_ok P)"
  "P y \<Longrightarrow> safe u F (imap_ret y) (on_ok P)" "safe u F (imap_fail e') (on_ok P)"
  by (simp_all add: safe_def ret_def fail_def imap_ret_def imap_fail_def)

lemma safe_pure_unit [safe_intros]:
  "harmless u F (ret x)" "harmless u F (fail e)" "harmless u F (imap_ret y)" "harmless u F (imap_fail e')"
  "harmless u F (query q)"
  by (simp_all add: safe_def ret_def fail_def imap_ret_def imap_fail_def query_def)

lemma safe_query: "(\<And>d. intact u F d \<Longrightarrow> P (q d)) \<Longrightarrow> safe u F (query q) (on_ok P)"
  by (simp add: safe_def query_def)

lemma safe_andThen:
  assumes "safe u F m (on_ok P)" and "\<And>x. P x \<Longrightarrow> safe u F (f x) Q" and "\<And>e. Q (Inl e)"
  shows "safe u F (andThen m f) Q"
  unfolding safe_def
proof (intro allI impI)
  fix d assume d: "intact u F d"
  obtain r d' where m: "m d = (r, d')" by (cases "m d")
  then have "intact u F d'" "on_ok P r" using assms(1) d by (auto simp: safe_def)
  then show "intact u F (snd (andThen m f d)) \<and> Q (fst (andThen m f d))"
    using assms(2,3) m by (cases r) (auto simp: andThen_def safe_def)
qed

lemma safe_imap_then:
  assumes "safe u F m (on_ok P)" and "\<And>x. P x \<Longrightarrow> safe u F (f x) Q" and "\<And>e. Q (Inl e)"
  shows "safe u F (imap_then m f) Q"
  unfolding safe_def
proof (intro allI impI)
  fix d assume d: "intact u F d"
  obtain r d' where m: "m d = (r, d')" by (cases "m d")
  then have "intact u F d'" "on_ok P r" using assms(1) d by (auto simp: safe_def)
  then show "intact u F (snd (imap_then m f d)) \<and> Q (fst (imap_then m f d))"
    using assms(2,3) m by (cases r) (auto simp: imap_then_def safe_def)
qed

lemma harmless_then [safe_intros]:
  "harmless u F m \<Longrightarrow> (\<And>x. harmless u F (f x)) \<Longrightarrow> harmless u F (andThen m f)"
  "harmless u F m' \<Longrightarrow> (\<And>x. harmless u F (f' x)) \<Longrightarrow> harmless u F (imap_then m' f')"
  by (rule safe_andThen [where P = "\<lambda>_. True"] safe_imap_then [where P = "\<lambda>_. True"]; simp add: safe_on_ok)+

lemma safe_map_error:
  assumes "safe u F m (on_ok P)"
  shows "safe u F (wrap msg m) (on_ok P)" and "safe u F (or_no msg' m) (on_ok P)"
    and "safe u F (or_missing code msg' msg'' m) (on_ok P)" and "safe u F (handed_on m) (on_ok P)"
proof -
  have run: "intact u F d' \<and> on_ok P r" if "intact u F d" "m d = (r, d')" for d d' r
    using assms that by (force simp: safe_def)
  show "safe u F (wrap msg m) (on_ok P)" "safe u F (or_no msg' m) (on_ok P)"
    "safe u F (or_missing code msg' msg'' m) (on_ok P)" "safe u F (handed_on m) (on_ok P)"
    unfolding safe_def wrap_def or_no_def or_missing_def handed_on_def
    by (auto split: prod.split sum.split dest: run)
qed

lemma harmless_map_error [safe_intros]:
  assumes "harmless u F m"
  shows "harmless u F (wrap msg m)" and "harmless u F (or_no msg' m)" and "harmless u F (or_missing code msg' msg'' m)"
    and "harmless u F (handed_on m)"
  using safe_map_error [OF safe_on_ok [OF assms], THEN safe_harmless] by blast+

lemma harmless_expect_rows [safe_intros]: "harmless u F m \<Longrightarrow> harmless u F (expect_rows e m)"
  unfolding expect_rows_def by (intro safe_intros) (simp_all add: safe_intros)

lemma harmless_branch [safe_intros]:
  "harmless u F m \<Longrightarrow> harmless u F n \<Longrightarrow> harmless u F (if c then m else n)"
  "harmless u F m \<Longrightarrow> (\<And>x. harmless u F (f x)) \<Longrightarrow> harmless u F (case v of None \<Rightarrow> m | Some x \<Rightarrow> f x)"
  "harmless u F (f y) \<Longrightarrow> harmless u F (let x = y in f x)"
  by (simp_all split: option.split)

section \<open>Whose rows they are\<close>

lemma references:
  assumes "intact u F d"
  shows "r \<in> set (db_messages d) \<Longrightarrow> r_mailbox_id r \<in> mr_id ` set (db_mailboxes d)"
    and "q \<in> set (db_recipients d) \<Longrightarrow> rr_message_id q \<in> r_id ` set (db_messages d)"
    and "a \<in> set (db_attachments d) \<Longrightarrow> ar_message_id a \<in> r_id ` set (db_messages d)"
  using assms by (simp_all add: intact_def schema_defs list_all_iff)

lemma owned_or_foreign_box:
  assumes "intact u F d" and "b \<in> set (db_mailboxes d)"
  shows "mr_id b \<in> foreign_boxes F \<longleftrightarrow> mr_user_id b \<noteq> u"
proof -
  have F: "foreign_boxes F = mr_id ` {b \<in> set (db_mailboxes d). mr_user_id b \<noteq> u}"
    using assms(1) by (auto simp: intact_def foreign_boxes_def others_def)
  have "b = c" if "c \<in> set (db_mailboxes d)" "mr_id b = mr_id c" for c
    using assms that by (auto simp: intact_def schema_defs distinct_map inj_on_def)
  then show ?thesis using assms(2) by (auto simp: F)
qed

lemma owned_boxes_iff:
  assumes "intact u F d"
  shows "j \<in> owned_boxes u d \<longleftrightarrow> j \<in> mr_id ` set (db_mailboxes d) \<and> j \<notin> foreign_boxes F"
  using owned_or_foreign_box [OF assms] by (auto simp: owned_boxes_def)

lemma foreign_msg_iff:
  assumes "intact u F d" and "r \<in> set (db_messages d)"
  shows "r_id r \<in> foreign_msgs F \<longleftrightarrow> r_mailbox_id r \<in> foreign_boxes F"
proof -
  have F: "foreign_msgs F = r_id ` {r \<in> set (db_messages d). r_mailbox_id r \<notin> owned_boxes u d}"
    using assms(1) by (auto simp: intact_def foreign_msgs_def others_def)
  note fk = references(1) [OF assms]
  have "r = q" if "q \<in> set (db_messages d)" "r_id r = r_id q" for q
    using assms that by (auto simp: intact_def schema_defs distinct_map inj_on_def)
  then have "r_id r \<in> foreign_msgs F \<longleftrightarrow> r_mailbox_id r \<notin> owned_boxes u d"
    using assms(2) by (auto simp: F)
  then show ?thesis using fk owned_boxes_iff [OF assms(1)] by blast
qed

lemma frame_of_intact:
  assumes "intact u F d" and "i \<notin> foreign_msgs F"
  shows "frame u i d d"
proof -
  have "r_mailbox_id r \<in> owned_boxes u d" if r: "r \<in> set (db_messages d)" "r_id r = i" for r
  proof -
    show ?thesis using references(1) [OF assms(1) r(1)] foreign_msg_iff [OF assms(1) r(1)] assms(2) r(2) owned_boxes_iff [OF assms(1)] by simp
  qed
  then show ?thesis using assms(1) by (simp add: frame_def intact_def)
qed

lemma harmless_framed:
  assumes "i \<notin> foreign_msgs F" and "\<And>d. intact u F d \<Longrightarrow> framed u i d m"
  shows "harmless u F m"
  unfolding safe_def
proof (intro allI impI conjI TrueI)
  fix d assume d: "intact u F d"
  then have "frame u i d (snd (m d))"
    using frame_of_intact [OF d assms(1)] assms(2) by (simp add: framed_def)
  then show "intact u F (snd (m d))" using d by (simp add: frame_def intact_def)
qed

section \<open>Statements\<close>

lemma harmless_stmt:
  assumes "\<And>d. intact u F d \<Longrightarrow> schema_ok (f d) \<Longrightarrow> others u (f d) = F"
  shows "harmless u F (stmt f n)"
  using assms by (auto simp: safe_def stmt_def intact_def)

lemma owned_msgs_eq:
  assumes "intact u F d" and "r \<in> set (db_messages d)"
  shows "r_id r \<in> owned_msgs u d \<longleftrightarrow> r_mailbox_id r \<in> owned_boxes u d"
proof -
  have "r = q" if "q \<in> set (db_messages d)" "r_id r = r_id q" for q
    using assms that by (auto simp: intact_def schema_defs distinct_map inj_on_def)
  then show ?thesis using assms(2) by (auto simp: owned_msgs_def)
qed

lemma harmless_update_mailboxes [safe_intros]:
  assumes "j \<notin> foreign_boxes F" and "\<And>r. mr_id (f r) = mr_id r" and "\<And>r. mr_user_id r = u \<Longrightarrow> mr_user_id (f r) = u"
  shows "harmless u F (update_mailboxes (\<lambda>r. mr_id r = j) f)"
  unfolding update_mailboxes_def
proof (rule harmless_stmt)
  fix d assume d: "intact u F d"
  let ?bs = "update_where (\<lambda>r. mr_id r = j) f (db_mailboxes d)"
  have mine: "mr_user_id b = u" if "b \<in> set (db_mailboxes d)" "mr_id b = j" for b
    using owned_or_foreign_box [OF d that(1)] assms(1) that(2) by blast
  have user: "mr_user_id (if mr_id b = j then f b else b) = mr_user_id b" if "b \<in> set (db_mailboxes d)" for b
    using mine [OF that] assms(3) by auto
  have "filter (\<lambda>b. mr_user_id b \<noteq> u) ?bs = filter (\<lambda>b. mr_user_id b \<noteq> u) (db_mailboxes d)"
    using mine assms(3) by (intro filter_update_outside) auto
  moreover have "owned_boxes u (d\<lparr>db_mailboxes := ?bs\<rparr>) = owned_boxes u d"
  proof -
    have same: "map mr_id (filter (\<lambda>b. mr_user_id b = u) (map g bs)) = map mr_id (filter (\<lambda>b. mr_user_id b = u) bs)"
      if "\<forall>b \<in> set bs. mr_user_id (g b) = mr_user_id b \<and> mr_id (g b) = mr_id b" for g bs
      using that by (induction bs) auto
    have "map mr_id (filter (\<lambda>b. mr_user_id b = u) ?bs) = map mr_id (filter (\<lambda>b. mr_user_id b = u) (db_mailboxes d))"
      unfolding update_where_def by (rule same) (use user assms(2) in auto)
    from arg_cong [OF this, of set] show ?thesis by (simp add: owned_boxes_def)
  qed
  ultimately show "others u (d\<lparr>db_mailboxes := ?bs\<rparr>) = F"
    using d by (simp add: intact_def others_def owned_msgs_def)
qed

lemma harmless_insert_mailbox [safe_intros]:
  assumes "mr_user_id b = u"
  shows "harmless u F (insert_mailbox b)"
  unfolding insert_mailbox_def
proof (rule harmless_stmt)
  fix d assume d: "intact u F d"
  let ?d = "d\<lparr>db_mailboxes := db_mailboxes d @ [b]\<rparr>"
  assume ok: "schema_ok ?d"
  have boxes: "owned_boxes u ?d = insert (mr_id b) (owned_boxes u d)" using assms by (auto simp: owned_boxes_def)
  have "mr_id b \<notin> mr_id ` set (db_mailboxes d)" using ok by (simp add: schema_defs)
  then have "r_mailbox_id r \<noteq> mr_id b" if "r \<in> set (db_messages d)" for r
    using references(1) [OF d that] by metis
  then have same: "r_mailbox_id r \<in> owned_boxes u ?d \<longleftrightarrow> r_mailbox_id r \<in> owned_boxes u d" if "r \<in> set (db_messages d)" for r
    using that boxes by simp
  then have "owned_msgs u ?d = owned_msgs u d" by (auto simp: owned_msgs_def)
  moreover have "filter (\<lambda>r. r_mailbox_id r \<notin> owned_boxes u ?d) (db_messages d) = filter (\<lambda>r. r_mailbox_id r \<notin> owned_boxes u d) (db_messages d)"
    using same by (intro filter_cong) auto
  ultimately show "others u ?d = F" using d assms by (simp add: intact_def others_def)
qed

text \<open>A message that could be inserted lies in a mailbox that exists, and its identifier was free.\<close>

lemma safe_insert_message:
  assumes "r_mailbox_id r \<notin> foreign_boxes F"
  shows "safe u F (insert_message r) (on_ok (\<lambda>_. r_id r \<notin> foreign_msgs F))"
proof -
  have run: "others u (d\<lparr>db_messages := db_messages d @ [r]\<rparr>) = F \<and> r_id r \<notin> foreign_msgs F"
    if d: "intact u F d" and ok: "schema_ok (d\<lparr>db_messages := db_messages d @ [r]\<rparr>)" for d
  proof -
    let ?d = "d\<lparr>db_messages := db_messages d @ [r]\<rparr>"
    have new: "r_id r \<notin> r_id ` set (db_messages d)" and box: "r_mailbox_id r \<in> mr_id ` set (db_mailboxes d)"
      using ok by (auto simp: schema_defs)
    then have mine: "r_mailbox_id r \<in> owned_boxes u d" using owned_boxes_iff [OF d] assms by blast
    then have msgs: "owned_msgs u ?d = insert (r_id r) (owned_msgs u d)" by (auto simp: owned_msgs_def)
    have "filter (\<lambda>q. rr_message_id q \<notin> insert (r_id r) (owned_msgs u d)) (db_recipients d) =
        filter (\<lambda>q. rr_message_id q \<notin> owned_msgs u d) (db_recipients d)"
      using references(2) [OF d] new by (intro filter_cong refl) (metis insert_iff)
    moreover have "filter (\<lambda>q. ar_message_id q \<notin> insert (r_id r) (owned_msgs u d)) (db_attachments d) =
        filter (\<lambda>q. ar_message_id q \<notin> owned_msgs u d) (db_attachments d)"
      using references(3) [OF d] new by (intro filter_cong refl) (metis insert_iff)
    ultimately have "others u ?d = others u d" using mine by (simp add: others_def msgs)
    moreover have "foreign_msgs F \<subseteq> r_id ` set (db_messages d)"
      using d by (auto simp: intact_def foreign_msgs_def others_def)
    ultimately show ?thesis using d new by (auto simp: intact_def)
  qed
  show ?thesis
    using run by (auto simp: safe_def insert_message_def stmt_def intact_def)
qed

lemma harmless_insert_recipient [safe_intros]:
  assumes "rr_message_id q \<notin> foreign_msgs F"
  shows "harmless u F (insert_recipient q)"
  unfolding insert_recipient_def
proof (rule harmless_stmt)
  fix d assume d: "intact u F d"
  let ?d = "d\<lparr>db_recipients := db_recipients d @ [q]\<rparr>"
  assume "schema_ok ?d"
  then obtain r where r: "r \<in> set (db_messages d)" "r_id r = rr_message_id q"
    by (auto simp: schema_defs)
  have "rr_message_id q \<in> owned_msgs u d"
    using assms r owned_msgs_eq [OF d r(1)] foreign_msg_iff [OF d r(1)] owned_boxes_iff [OF d] references(1) [OF d r(1)] by simp
  then show "others u ?d = F"
    using d by (simp add: intact_def others_def owned_msgs_def)
qed

lemma key_in_filter:
  assumes "\<And>q. q \<in> set all \<Longrightarrow> k q = k r \<Longrightarrow> q = r" and "set xs \<subseteq> set all"
  shows "k r \<in> k ` set (filter P xs) \<longleftrightarrow> r \<in> set xs \<and> P r"
  using assms by auto

lemma harmless_delete_mailbox [safe_intros]:
  assumes "j \<notin> foreign_boxes F"
  shows "harmless u F (delete_mailboxes (\<lambda>b. mr_id b = j))"
  unfolding delete_mailboxes_def
proof (rule harmless_stmt)
  fix d assume d: "intact u F d"
  let ?bs = "filter (\<lambda>b. mr_id b \<noteq> j) (db_mailboxes d)"
  let ?d = "cascade_messages (d\<lparr>db_mailboxes := ?bs\<rparr>)"
  let ?ms = "filter (\<lambda>r. r_mailbox_id r \<in> mr_id ` set ?bs) (db_messages d)"
  have dms: "db_messages ?d = ?ms" and dbs: "db_mailboxes ?d = ?bs"
    and drs: "db_recipients ?d = filter (\<lambda>q. rr_message_id q \<in> r_id ` set ?ms) (db_recipients d)"
    and das: "db_attachments ?d = filter (\<lambda>q. ar_message_id q \<in> r_id ` set ?ms) (db_attachments d)"
    by (simp_all add: cascade_messages_def cascade_children_def)
  have boxes: "owned_boxes u ?d = owned_boxes u d - {j}" by (auto simp: owned_boxes_def dbs)
  have gone: "r_mailbox_id r \<in> mr_id ` set ?bs \<longleftrightarrow> r_mailbox_id r \<noteq> j" if "r \<in> set (db_messages d)" for r
    using references(1) [OF d that] by auto
  have mine: "r_mailbox_id r \<in> owned_boxes u d" if "r \<in> set (db_messages d)" "r_mailbox_id r = j" for r
    using references(1) [OF d that(1)] owned_boxes_iff [OF d] assms that(2) by simp
  have key: "(i \<notin> owned_msgs u ?d \<and> i \<in> r_id ` set ?ms) = (i \<notin> owned_msgs u d)" if "i \<in> r_id ` set (db_messages d)" for i
  proof -
    from that obtain r where r: "r \<in> set (db_messages d)" "i = r_id r" by blast
    have uniq: "q = r" if "q \<in> set (db_messages d)" "r_id q = r_id r" for q
      using d r(1) that by (auto simp: intact_def schema_defs distinct_map inj_on_def)
    have left: "r \<in> set ?ms \<longleftrightarrow> r_mailbox_id r \<noteq> j"
      using r(1) gone [OF r(1)] by simp
    have one: "i \<in> r_id ` set (filter P ?ms) \<longleftrightarrow> r \<in> set ?ms \<and> P r" for P
      unfolding r(2) by (rule key_in_filter [where all = "db_messages d"]) (use uniq in auto)
    have "i \<in> r_id ` set ?ms \<longleftrightarrow> r_mailbox_id r \<noteq> j"
      using one [of "\<lambda>_. True"] left by simp
    moreover have "i \<in> owned_msgs u ?d \<longleftrightarrow> r_mailbox_id r \<noteq> j \<and> r_mailbox_id r \<in> owned_boxes u d"
      unfolding owned_msgs_def boxes dms one left by auto
    ultimately show ?thesis using owned_msgs_eq [OF d r(1)] mine [OF r(1)] r(2) by auto
  qed
  have "filter (\<lambda>b. mr_user_id b \<noteq> u) ?bs = filter (\<lambda>b. mr_user_id b \<noteq> u) (db_mailboxes d)"
    using owned_or_foreign_box [OF d] assms by (auto intro!: filter_cong)
  moreover have "filter (\<lambda>r. r_mailbox_id r \<notin> owned_boxes u d - {j}) ?ms = filter (\<lambda>r. r_mailbox_id r \<notin> owned_boxes u d) (db_messages d)"
    unfolding filter_filter using gone mine by (intro filter_cong refl) auto
  moreover have "filter (\<lambda>q. rr_message_id q \<notin> owned_msgs u ?d) (db_recipients ?d) = filter (\<lambda>q. rr_message_id q \<notin> owned_msgs u d) (db_recipients d)"
    unfolding drs by (rule filter_filter_key [OF references(2) [OF d] key])
  moreover have "filter (\<lambda>q. ar_message_id q \<notin> owned_msgs u ?d) (db_attachments ?d) = filter (\<lambda>q. ar_message_id q \<notin> owned_msgs u d) (db_attachments d)"
    unfolding das by (rule filter_filter_key [OF references(3) [OF d] key])
  ultimately have "others u ?d = others u d"
    unfolding others_def boxes dbs dms by simp
  then show "others u ?d = F" using d by (simp add: intact_def)
qed

section \<open>Repository calls\<close>

lemma harmless_counters [safe_intros]:
  assumes "j \<notin> foreign_boxes F"
  shows "harmless u F (IncrementMessageCount now j sz b)" and "harmless u F (RecalculateStats now j)"
    and "harmless u F (mbx_Delete j)"
  unfolding IncrementMessageCount_def RecalculateStats_def mbx_Delete_def case_prod_unfold
  by (intro safe_intros assms; simp add: bump_row_def)+

lemma harmless_mbx_Create [safe_intros]: "mb_UserID m = u \<Longrightarrow> harmless u F (mbx_Create m)"
  unfolding mbx_Create_def ExistsByAddress_def by (intro safe_intros) (simp add: row_of_mailbox_def)

lemma harmless_mbx_Update [safe_intros]:
  "mb_UserID m = u \<Longrightarrow> mb_ID m \<notin> foreign_boxes F \<Longrightarrow> harmless u F (mbx_Update now m)"
  unfolding mbx_Update_def mbx_Exists_def by (intro safe_intros) simp_all

lemma harmless_insert_recipients [safe_intros]: "i \<notin> foreign_msgs F \<Longrightarrow> harmless u F (insert_recipients i kind msg as)"
  by (induction as) (auto intro!: safe_intros)

lemma harmless_saveRecipients [safe_intros]: "msg_ID m \<notin> foreign_msgs F \<Longrightarrow> harmless u F (saveRecipients m)"
  unfolding saveRecipients_def by (intro safe_intros)

lemma safe_Create:
  assumes "msg_MailboxID m \<notin> foreign_boxes F"
  shows "safe u F (Create now m) (on_ok (\<lambda>m'. msg_ID m' = msg_ID m \<and> msg_ID m \<notin> foreign_msgs F))"
  unfolding Create_def
proof (rule safe_andThen)
  show "safe u F (assign_uid now m) (on_ok (\<lambda>m'. \<exists>uid. m' = m\<lparr>msg_IMAPUID := uid\<rparr>))"
  proof -
    have "safe u F (wrap msg (IncrementMessageCount now (msg_MailboxID m) sz b)) (on_ok (\<lambda>_. True))" for msg sz b
      by (intro safe_on_ok safe_intros assms)
    then have "safe u F (andThen (wrap msg (IncrementMessageCount now (msg_MailboxID m) sz b)) (\<lambda>uid. ret (m\<lparr>msg_IMAPUID := uid\<rparr>)))
        (on_ok (\<lambda>m'. \<exists>uid. m' = m\<lparr>msg_IMAPUID := uid\<rparr>))" for msg sz b
      by (rule safe_andThen) (auto intro!: safe_pure)
    moreover have "safe u F (ret m) (on_ok (\<lambda>m'. \<exists>uid. m' = m\<lparr>msg_IMAPUID := uid\<rparr>))"
      by (rule safe_pure(1)) (rule exI [of _ "msg_IMAPUID m"], simp)
    ultimately show ?thesis
      unfolding assign_uid_def by simp
  qed
  fix m' assume "\<exists>uid. m' = m\<lparr>msg_IMAPUID := uid\<rparr>"
  then have m': "msg_ID m' = msg_ID m" "msg_MailboxID m' = msg_MailboxID m" by auto
  then have row: "r_id (row_of_message m') = msg_ID m" "r_mailbox_id (row_of_message m') \<notin> foreign_boxes F"
    using assms by (simp_all add: row_of_message_def)
  show "safe u F (andThen (wrap ''failed to create message'' (insert_message (row_of_message m')))
       (\<lambda>_. andThen (saveRecipients m') (\<lambda>_. ret m'))) (on_ok (\<lambda>m'. msg_ID m' = msg_ID m \<and> msg_ID m \<notin> foreign_msgs F))"
  proof (rule safe_andThen [OF safe_map_error(1) [OF safe_insert_message [OF row(2)]]])
    fix x assume "r_id (row_of_message m') \<notin> foreign_msgs F"
    then have "msg_ID m \<notin> foreign_msgs F" by (simp add: row)
    then show "safe u F (andThen (saveRecipients m') (\<lambda>_. ret m')) (on_ok (\<lambda>m'. msg_ID m' = msg_ID m \<and> msg_ID m \<notin> foreign_msgs F))"
      using m'(1) by (auto intro!: safe_andThen [OF safe_on_ok] safe_intros safe_pure)
  qed simp
qed simp

text \<open>Calls on one message that is not a stranger's.\<close>

lemma harmless_message [safe_intros]:
  assumes "i \<notin> foreign_msgs F"
  shows "(\<And>r. r_id (f r) = r_id r) \<Longrightarrow> (\<And>r. r_mailbox_id (f r) = r_mailbox_id r) \<Longrightarrow> harmless u F (set_flag msg f now i)"
    and "harmless u F (MarkAsRead now i)" and "harmless u F (MarkAsUnread now i)"
    and "harmless u F (Delete now i)"
  by (auto intro!: harmless_framed [OF assms] framed_intros)

lemma harmless_flags [safe_intros]:
  assumes "i \<notin> foreign_msgs F"
  shows "harmless u F (Star now i)" "harmless u F (Unstar now i)" "harmless u F (MarkAsDeleted now i)"
    "harmless u F (UnmarkAsDeleted now i)" "harmless u F (MarkAsDraft now i)" "harmless u F (UnmarkAsDraft now i)"
    "harmless u F (MarkAsAnswered now i)" "harmless u F (UnmarkAsAnswered now i)" "harmless u F (StoreRawBody now i raw)"
  unfolding flag_calls StoreRawBody_def by (rule harmless_message(1) [OF assms]; simp)+

lemma harmless_MoveToMailbox [safe_intros]:
  assumes "i \<notin> foreign_msgs F" and "target \<notin> foreign_boxes F"
  shows "harmless u F (MoveToMailbox now i target)"
  unfolding safe_def
proof (intro allI impI conjI TrueI)
  fix d assume d: "intact u F d"
  show "intact u F (snd (MoveToMailbox now i target d))"
  proof (cases "target \<in> mr_id ` set (db_mailboxes d)")
    case True
    then have "framed u i d (MoveToMailbox now i target)"
      using owned_boxes_iff [OF d] assms(2) by (intro framed_Move) simp
    then have "frame u i d (snd (MoveToMailbox now i target d))"
      using frame_of_intact [OF d assms(1)] by (simp add: framed_def)
    then show ?thesis using d by (simp add: frame_def intact_def)
  next
    case False
    then have "mbx_Exists target d = (Inr False, d)"
      by (auto simp: mbx_Exists_def query_def list_ex_iff)
    then have "snd (MoveToMailbox now i target d) = d"
      using GetByID_cases [of i d] by (auto simp: MoveToMailbox_def andThen_def ret_def fail_def)
    then show ?thesis using d by simp
  qed
qed

lemma lr_Items_list_result [simp]: "lr_Items (list_result opts n xs) = xs"
  by (simp add: list_result_def Let_def split: option.split)

lemma safe_ListByUser:
  "safe u F (ListByUser u opts) (on_ok (\<lambda>res. \<forall>m \<in> set (lr_Items res). mb_UserID m = u \<and> mb_ID m \<notin> foreign_boxes F))"
  unfolding ListByUser_def mbx_List_def
proof (rule safe_andThen)
  let ?flt = "Some (emptyMailboxFilter\<lparr>mf_UserID := Some u\<rparr>)"
  let ?ok = "\<lambda>all. \<forall>r \<in> set all. mr_user_id r = u \<and> mr_id r \<notin> foreign_boxes F"
  show "safe u F (query (\<lambda>d. filter (mbx_where ?flt) (db_mailboxes d))) (on_ok ?ok)"
  proof (rule safe_query)
    fix d assume d: "intact u F d"
    show "?ok (filter (mbx_where ?flt) (db_mailboxes d))"
      using owned_or_foreign_box [OF d] by (auto simp: mbx_where_def emptyMailboxFilter_def)
  qed
  fix all :: "mailboxRow list" assume all: "?ok all"
  have "set (limit_offset (page_of opts) (sort_rows mbx_sort_key ''createdAt'' opts all)) \<subseteq> set all"
    using set_limit_offset by fastforce
  with all show "safe u F (let rows = limit_offset (page_of opts) (sort_rows mbx_sort_key ''createdAt'' opts all)
       in if list_all (\<lambda>r. scan_uint32 (mr_uid_next r)) rows
          then ret (list_result opts (int (length all)) (map toMailbox rows))
          else fail (Wrapped ''failed to list mailboxes'' scan_error))
     (on_ok (\<lambda>res. \<forall>m \<in> set (lr_Items res). mb_UserID m = u \<and> mb_ID m \<notin> foreign_boxes F))"
    unfolding Let_def by (auto simp: toMailbox_def subset_iff simp del: set_sort_rows intro!: safe_pure)
qed simp

lemma safe_ListByMailbox:
  assumes "i \<notin> foreign_boxes F"
  shows "safe u F (ListByMailbox fts i opts) (on_ok (\<lambda>res. \<forall>m \<in> set (lr_Items res). msg_ID m \<notin> foreign_msgs F))"
  unfolding ListByMailbox_def msg_List_def
proof (rule safe_query)
  fix d assume d: "intact u F d"
  let ?all = "filter (msg_where fts (Some (emptyMessageFilter\<lparr>sf_MailboxID := Some i\<rparr>))) (db_messages d)"
  have "r_id r \<notin> foreign_msgs F" if "r \<in> set ?all" for r
    using that foreign_msg_iff [OF d, of r] assms by (auto simp: msg_where_def emptyMessageFilter_def)
  moreover have "set (limit_offset (page_of opts) (sort_rows msg_sort_key ''receivedAt'' opts ?all)) \<subseteq> set ?all"
    using set_limit_offset by fastforce
  ultimately show "\<forall>m \<in> set (lr_Items (let all = ?all; rows = limit_offset (page_of opts) (sort_rows msg_sort_key ''receivedAt'' opts all)
        in list_result opts (int (length all)) (map (load d) rows))). msg_ID m \<notin> foreign_msgs F"
    by (auto simp: Let_def)
qed

section \<open>Mailbox commands\<close>

definition mine :: "ID \<Rightarrow> foreign_rows \<Rightarrow> Mailbox \<Rightarrow> bool" where
  "mine u F m \<longleftrightarrow> mb_UserID m = u \<and> mb_ID m \<notin> foreign_boxes F"

lemma mine_update [simp]:
  "mine u F (m\<lparr>mb_Name := n\<rparr>) = mine u F m" "mine u F (m\<lparr>mb_UpdatedAt := t\<rparr>) = mine u F m"
  "mine u F (m\<lparr>mb_MessageCount := c\<rparr>) = mine u F m" "mine u F (m\<lparr>mb_UnreadCount := c\<rparr>) = mine u F m"
  "mine u F (m\<lparr>mb_TotalSize := c\<rparr>) = mine u F m"
  by (simp_all add: mine_def)

lemma harmless_Update_mine [safe_intros]: "mine u F m \<Longrightarrow> harmless u F (mbx_Update now m)"
  by (simp add: mine_def harmless_mbx_Update)

lemma safe_listed: "safe u F (ListByUser u opts) (on_ok (\<lambda>res. \<forall>m \<in> set (lr_Items res). mine u F m))"
  by (rule safe_weaken [OF safe_ListByUser]) (auto simp: mine_def elim!: on_ok.elims)

lemma find_by_name_mem: "find_by_name name ms = Some m \<Longrightarrow> m \<in> set ms"
  by (auto simp: find_by_name_def dest: find_SomeD)

lemma safe_find:
  "safe u F (mo_findMailboxByName u name) (on_ok (mine u F))"
  "safe u F (copy_findMailboxByName u name) (on_ok (mine u F))"
  "safe u F (findAppendMailbox name u) (on_ok (mine u F))"
  unfolding mo_findMailboxByName_def copy_findMailboxByName_def findAppendMailbox_def
  by (rule safe_andThen [OF safe_listed] safe_imap_then [OF safe_map_error(2) [OF safe_listed]];
      auto split: option.split dest: find_by_name_mem intro!: safe_pure)+

lemma harmless_find [safe_intros]:
  "harmless u F (mo_findMailboxByName u name)" "harmless u F (must_exist u name)"
  unfolding must_exist_def by (intro safe_intros safe_harmless [OF safe_find(1)])+

lemma safe_must_exist: "safe u F (must_exist u name) (on_ok (mine u F))"
  unfolding must_exist_def by (rule safe_map_error(3) [OF safe_find(1)])

lemma harmless_must_exist_then:
  "(\<And>m. mine u F m \<Longrightarrow> harmless u F (f m)) \<Longrightarrow> harmless u F (imap_then (must_exist u name) f)"
  by (rule safe_imap_then [OF safe_must_exist]) simp_all

lemma harmless_listed_then:
  assumes "\<And>res. \<forall>m \<in> set (lr_Items res). mine u F m \<Longrightarrow> harmless u F (f res)"
  shows "harmless u F (andThen (ListByUser u opts) f)"
  by (rule safe_andThen [OF safe_listed]) (simp_all add: assms)

lemma NewMailbox_user [simp]: "mb_UserID (NewMailbox now i u n a) = u"
  by (simp add: NewMailbox_def)

text \<open>Handling an error and going on.\<close>

lemma harmless_case:
  assumes "harmless u F m" and "\<And>e. harmless u F (f e)" and "\<And>x. harmless u F (g x)"
  shows "harmless u F (\<lambda>d. case m d of (Inl e, d') \<Rightarrow> f e d' | (Inr x, d') \<Rightarrow> g x d')"
  unfolding safe_def
proof (intro allI impI conjI TrueI)
  fix d assume "intact u F d"
  then have "intact u F (snd (m d))" using assms(1) by (simp add: safe_def)
  then show "intact u F (snd (case m d of (Inl e, d') \<Rightarrow> f e d' | (Inr x, d') \<Rightarrow> g x d'))"
    using assms(2,3) by (auto simp: safe_def split: prod.splits sum.splits)
qed

lemma harmless_pair [safe_intros]: "harmless u F (\<lambda>d. (x, d))"
  by (simp add: safe_def)

lemma harmless_ensure_paths [safe_intros]: "harmless u F (ensure_paths gen now u k paths)"
proof (induction paths arbitrary: k)
  case Nil
  then show ?case by (simp add: safe_def)
next
  case (Cons path paths)
  have create: "harmless u F (\<lambda>d. case mbx_Create (NewMailbox now (gen k) u path []) d of
            (Inl e, d'') \<Rightarrow> (if \<not> errors_Is e ErrAlreadyExists then (\<lambda>d. (Inl (RawError e), d)) else ensure_paths gen now u (Suc k) paths) d''
          | (Inr _, d'') \<Rightarrow> ensure_paths gen now u (Suc k) paths d'')"
    by (rule harmless_case) (auto intro!: safe_intros Cons)
  have "harmless u F (\<lambda>d. case mo_findMailboxByName u path d of
        (Inl e, d') \<Rightarrow> (if \<not> errors_Is e ErrNotFound then (\<lambda>d. (Inl (RawError e), d)) else (\<lambda>d. case mbx_Create (NewMailbox now (gen k) u path []) d of
            (Inl e, d'') \<Rightarrow> (if \<not> errors_Is e ErrAlreadyExists then (\<lambda>d. (Inl (RawError e), d)) else ensure_paths gen now u (Suc k) paths) d''
          | (Inr _, d'') \<Rightarrow> ensure_paths gen now u (Suc k) paths d'')) d'
      | (Inr _, d') \<Rightarrow> ensure_paths gen now u k paths d')"
    by (rule harmless_case) (auto intro!: safe_intros create Cons)
  then show ?case
    by (rule back_subst [of "harmless u F"]) (auto simp: fun_eq_iff split: prod.split sum.split)
qed

lemma harmless_parts [safe_intros]:
  "harmless u F (with_parent gen now u k name)" "harmless u F (validated name)" "harmless u F (refuse_if b e)"
  "harmless u F (must_be_free u name msg)"
  unfolding with_parent_def ensureParentExists_def validated_def refuse_if_def must_be_free_def Let_def
  by (auto intro!: safe_intros harmless_case split: option.split)

lemma harmless_mo_Create: "harmless u F (mo_Create gen now u k name)"
  unfolding mo_Create_def Let_def by (intro safe_intros harmless_case NewMailbox_user)

lemma harmless_mo_Delete: "harmless u F (mo_Delete u name)"
  unfolding mo_Delete_def Let_def hasChildMailboxes_def DeleteWithMessages_def
  by (intro harmless_must_exist_then safe_intros harmless_listed_then) (simp add: mine_def)

lemma harmless_move_all: "target \<notin> foreign_boxes F \<Longrightarrow> \<forall>m \<in> set ms. msg_ID m \<notin> foreign_msgs F \<Longrightarrow> harmless u F (move_all now target ms)"
proof (induction ms)
  case (Cons m ms)
  have "harmless u F (\<lambda>d. case MoveToMailbox now (msg_ID m) target d of
        (Inl e, d') \<Rightarrow> (\<lambda>d. (Inl (ImapNo None ''Failed to move messages''), d)) d'
      | (Inr x, d') \<Rightarrow> move_all now target ms d')"
    by (rule harmless_case) (use Cons in \<open>auto intro!: safe_intros\<close>)
  then show ?case by (rule back_subst [of "harmless u F"]) auto
qed (simp add: safe_def)

lemma harmless_rename_children: "\<forall>m \<in> set ms. mine u F m \<Longrightarrow> harmless u F (rename_children now old new ms)"
  by (induction ms) (auto simp: Let_def intro!: safe_intros)

text \<open>A mailbox that could be created has an identifier that nobody had.\<close>

lemma safe_mbx_Create:
  assumes "mb_UserID m = u"
  shows "safe u F (mbx_Create m) (on_ok (\<lambda>_. mb_ID m \<notin> foreign_boxes F))"
  unfolding safe_def
proof (intro allI impI conjI)
  fix d assume d: "intact u F d"
  then show d': "intact u F (snd (mbx_Create m d))"
    using harmless_mbx_Create [OF assms, of F] by (simp add: safe_def)
  show "on_ok (\<lambda>_. mb_ID m \<notin> foreign_boxes F) (fst (mbx_Create m d))"
  proof (cases "fst (mbx_Create m d)")
    case (Inr x)
    then have "\<exists>b \<in> set (db_mailboxes (snd (mbx_Create m d))). mr_id b = mb_ID m \<and> mr_user_id b = u"
      using assms by (auto simp: mbx_Create_def andThen_def ExistsByAddress_def query_def wrap_def insert_mailbox_def stmt_def
          row_of_mailbox_def fail_def ret_def Let_def split: if_splits)
    then obtain b where b: "b \<in> set (db_mailboxes (snd (mbx_Create m d)))" "mr_id b = mb_ID m" "mr_user_id b = u" by blast
    show ?thesis using owned_or_foreign_box [OF d' b(1)] b(2,3) Inr by simp
  qed simp
qed

lemma harmless_renameInbox:
  assumes "mine u F inbox"
  shows "harmless u F (renameInbox fts gen now u k inbox newName)"
  unfolding renameInbox_def Let_def
proof (rule safe_imap_then)
  let ?m = "(NewMailbox now (gen k) u newName [])\<lparr>mb_MessageCount := mb_MessageCount inbox, mb_UnreadCount := mb_UnreadCount inbox,
    mb_TotalSize := mb_TotalSize inbox\<rparr>"
  have "mb_ID ?m = gen k" by (simp add: NewMailbox_def)
  then show "safe u F (or_no ''Failed to create destination mailbox'' (mbx_Create ?m)) (on_ok (\<lambda>_. gen k \<notin> foreign_boxes F))"
    using safe_map_error(2) [OF safe_mbx_Create [of ?m u F]] by simp
  fix x assume new: "gen k \<notin> foreign_boxes F"
  have "mb_ID inbox \<notin> foreign_boxes F" using assms by (simp add: mine_def)
  from safe_map_error(2) [OF safe_ListByMailbox [OF this]]
  show "harmless u F (imap_then (or_no ''Failed to list messages'' (ListByMailbox fts (mb_ID inbox) (Some imapListOptions)))
     (\<lambda>result. imap_then (move_all now (gen k) (lr_Items result))
     (\<lambda>_. or_no ''Failed to update INBOX'' (mbx_Update now
        (inbox\<lparr>mb_MessageCount := 0, mb_UnreadCount := 0, mb_TotalSize := 0, mb_UpdatedAt := now\<rparr>)))))"
    by (rule safe_imap_then) (use assms new in \<open>auto intro!: safe_intros harmless_move_all\<close>)
qed simp

lemma harmless_mo_Rename: "harmless u F (mo_Rename fts gen now u k oldName newName)"
  unfolding mo_Rename_def Let_def renameChildMailboxes_def
  by (intro harmless_must_exist_then safe_intros harmless_listed_then harmless_renameInbox harmless_rename_children) simp_all

lemma safe_mo_Select: "safe u F (mo_Select u name) (on_ok (\<lambda>r. mine u F (fst r)))"
  unfolding mo_Select_def by (rule safe_imap_then [OF safe_must_exist]) (auto intro!: safe_pure)

lemma harmless_reading:
  "harmless u F (mo_Status u name options)" "harmless u F (mo_Subscribe u name)" "harmless u F (mo_Unsubscribe u name)"
  "harmless u F (handed_on (ml_List u ref pats lsel))"
  unfolding mo_Status_def mo_Subscribe_def mo_Unsubscribe_def ml_List_def
  by (intro safe_intros harmless_listed_then)+

section \<open>Message commands\<close>

lemma safe_getMessages:
  assumes "mb_ID mbox \<notin> foreign_boxes F"
  shows "safe u F (getMessagesForNumSet fts mbox numSet) (on_ok (\<lambda>ms. \<forall>x \<in> set ms. msg_ID (snd x) \<notin> foreign_msgs F))"
  unfolding getMessagesForNumSet_def
proof (rule safe_imap_then [OF safe_map_error(2) [OF safe_ListByMailbox [OF assms]]])
  fix res :: "Message ListResult" assume "\<forall>m \<in> set (lr_Items res). msg_ID m \<notin> foreign_msgs F"
  moreover have "snd x \<in> set (lr_Items res)" if "x \<in> set (numbered (lr_Items res))" for x
    using that by (metis image_eqI list.set_map snd_numbered)
  ultimately show "safe u F (imap_ret (filter (\<lambda>(seqNum, msg). numSetContainsMessage numSet seqNum (msg_IMAPUID msg)) (numbered (lr_Items res))))
      (on_ok (\<lambda>ms. \<forall>x \<in> set ms. msg_ID (snd x) \<notin> foreign_msgs F))"
    by (auto intro!: safe_pure)
qed simp

lemma harmless_persist: "msg_ID m \<notin> foreign_msgs F \<Longrightarrow> harmless u F (persistFlagChanges now m change)"
  unfolding persistFlagChanges_def persist_flag_def by (intro safe_intros)

lemma harmless_store_loop:
  "\<forall>x \<in> set ms. msg_ID (snd x) \<notin> foreign_msgs F \<Longrightarrow> harmless u F (store_loop now flags ms out)"
proof (induction ms arbitrary: out)
  case (Cons x ms)
  obtain k m where x: "x = (k, m)" by (cases x)
  let ?c = "flag_change flags k m"
  have "harmless u F (\<lambda>d. case persistFlagChanges now m ?c d of
      (Inl e, d') \<Rightarrow> (\<lambda>d. ((Some e, out), d)) d'
    | (Inr y, d') \<Rightarrow> store_loop now flags ms (writeFetchResponse flags k (fc_NewFlags ?c) (out\<lparr>so_changes := so_changes out @ [?c]\<rparr>)) d')"
    by (rule harmless_case) (use Cons x in \<open>auto intro!: safe_intros harmless_persist\<close>)
  moreover have "harmless u F (store_loop now flags ms (writeFetchResponse flags k (fc_NewFlags ?c) out))"
    using Cons by simp
  ultimately have "harmless u F (if HasChanges ?c then (\<lambda>d. case persistFlagChanges now m ?c d of
      (Inl e, d') \<Rightarrow> (\<lambda>d. ((Some e, out), d)) d'
    | (Inr y, d') \<Rightarrow> store_loop now flags ms (writeFetchResponse flags k (fc_NewFlags ?c) (out\<lparr>so_changes := so_changes out @ [?c]\<rparr>)) d')
    else store_loop now flags ms (writeFetchResponse flags k (fc_NewFlags ?c) out))" by simp
  then show ?case by (rule back_subst [of "harmless u F"]) (auto simp: x Let_def fun_eq_iff)
qed (simp add: safe_def)

lemma harmless_expunge_loop:
  "\<forall>x \<in> set ms. msg_ID (snd x) \<notin> foreign_msgs F \<Longrightarrow> harmless u F (expunge_loop now ms ks)"
proof (induction ks)
  case (Cons k ks)
  show ?case
  proof (cases "map_of ms k")
    case (Some m)
    then have m: "msg_ID m \<notin> foreign_msgs F" using Cons.prems by (force dest: map_of_SomeD)
    have more: "harmless u F (\<lambda>d. case expunge_loop now ms ks d of (done_, d'') \<Rightarrow> ((k, msg_ID m) # done_, d''))"
      using Cons by (simp add: safe_def case_prod_unfold)
    have "harmless u F (\<lambda>d. case Delete now (msg_ID m) d of (Inl e, d') \<Rightarrow> expunge_loop now ms ks d'
        | (Inr y, d') \<Rightarrow> (\<lambda>d. case expunge_loop now ms ks d of (done_, d'') \<Rightarrow> ((k, msg_ID m) # done_, d'')) d')"
      by (rule harmless_case) (use Cons m more in \<open>auto intro!: safe_intros\<close>)
    then show ?thesis by (rule back_subst [of "harmless u F"]) (auto simp: Some fun_eq_iff)
  qed (use Cons in \<open>simp add: safe_def\<close>)
qed (simp add: safe_def)

lemma harmless_copy_loop:
  assumes "dest \<notin> foreign_boxes F"
  shows "harmless u F (copy_loop gen now dest k ms result)"
proof (induction ms arbitrary: k result)
  case (Cons x ms)
  obtain s m where x: "x = (s, m)" by (cases x)
  let ?m = "copyMessageData now m (gen k) dest"
  have keys: "msg_MailboxID ?m \<notin> foreign_boxes F" "msg_ID ?m = gen k" using assms by (simp_all add: copyMessageData_def)
  show ?case
    unfolding safe_def
  proof (intro allI impI conjI TrueI)
    fix d assume d: "intact u F d"
    obtain r d' where run: "Create now ?m d = (r, d')" by (cases "Create now ?m d")
    then have r: "intact u F d'" "\<And>y. r = Inr y \<Longrightarrow> gen k \<notin> foreign_msgs F"
      using safe_Create [OF keys(1), of u now] d keys(2) by (auto simp: safe_def)
    have rest: "intact u F (snd (copy_loop gen now dest (Suc k) ms res e))" if "intact u F e" for res e
      using Cons.IH that by (simp add: safe_def)
    have raw: "intact u F (copy_raw_body now (msg_ID m) (gen k) d')" if "gen k \<notin> foreign_msgs F"
    proof -
      have "snd (GetRawBody (msg_ID m) d') = d'"
        by (simp add: GetRawBody_def andThen_def query_def fail_def ret_def split: option.split)
      then show ?thesis
        using r(1) harmless_flags(9) [OF that, of u now] by (auto simp: copy_raw_body_def safe_def split: prod.splits sum.splits)
    qed
    show "intact u F (snd (copy_loop gen now dest k (x # ms) result d))"
      using run r rest raw by (cases r) (auto simp: x)
  qed
qed (simp add: safe_def)

lemma intact_after: "harmless u F m \<Longrightarrow> intact u F d \<Longrightarrow> m d = (r, d') \<Longrightarrow> intact u F d'"
  by (force simp: safe_def)

lemma result_after: "safe u F m (on_ok P) \<Longrightarrow> intact u F d \<Longrightarrow> m d = (Inr x, d') \<Longrightarrow> intact u F d' \<and> P x"
  by (force simp: safe_def)

lemma harmless_Store:
  assumes "mb_ID mbox \<notin> foreign_boxes F" and "\<And>xs. mset (ord xs) = mset xs"
  shows "harmless u F (Store ord fts now (Some mbox) numSet flags)"
  unfolding safe_def
proof (intro allI impI conjI TrueI)
  fix d assume d: "intact u F d"
  obtain ms where ms: "getMessagesForNumSet fts mbox numSet d = (Inr ms, d)" by (simp add: getMessages_eq)
  have "set (ord ms) = set ms" by (metis assms(2) set_mset_mset)
  then have "harmless u F (store_loop now flags (ord ms) emptyStoreOut)"
    using result_after [OF safe_getMessages [OF assms(1)] d ms] by (intro harmless_store_loop) simp
  then have "intact u F (snd (store_loop now flags (ord ms) emptyStoreOut d))"
    using d by (simp add: safe_def)
  then show "intact u F (snd (Store ord fts now (Some mbox) numSet flags d))"
    by (auto simp: Store_def ms updateMailboxUnseenCount_def imap_ret_def split: prod.splits option.splits)
qed

lemma harmless_Recalculate_after:
  assumes "harmless u F m" and "j \<notin> foreign_boxes F" and "intact u F d"
  shows "intact u F (snd (RecalculateStats now j (snd (m d))))"
  using harmless_counters(2) [OF assms(2), of u now] assms(1,3) by (simp add: safe_def)

lemma harmless_Expunge:
  assumes "mb_ID mbox \<notin> foreign_boxes F"
  shows "harmless u F (Expunge fts now (Some mbox) uids)"
  unfolding safe_def
proof (intro allI impI conjI TrueI)
  fix d assume d: "intact u F d"
  obtain res where res: "ListByMailbox fts (mb_ID mbox) (Some imapListOptions) d = (Inr res, d)"
    by (simp add: ListByMailbox_def msg_List_def query_def)
  let ?ms = "findDeletedMessages (lr_Items res) uids"
  have "\<forall>x \<in> set ?ms. snd x \<in> set (lr_Items res)"
    by (auto simp: findDeletedMessages_def) (metis image_eqI list.set_map snd_conv snd_numbered)
  then have "harmless u F (expunge_loop now ?ms (sortUint32Desc (map fst ?ms)))"
    using result_after [OF safe_ListByMailbox [OF assms] d res] by (intro harmless_expunge_loop) auto
  from harmless_Recalculate_after [OF this assms d] show "intact u F (snd (Expunge fts now (Some mbox) uids d))"
    using d by (simp add: Expunge_def or_no_def res Let_def case_prod_unfold)
qed

lemma safe_copy_prepare:
  assumes "mb_ID mbox \<notin> foreign_boxes F"
  shows "safe u F (copy_prepare fts u (Some mbox) numSet destName same)
    (on_ok (\<lambda>(dest, ms). mb_ID dest \<notin> foreign_boxes F \<and> (\<forall>x \<in> set ms. msg_ID (snd x) \<notin> foreign_msgs F)))"
  unfolding copy_prepare_def option.case
  by (rule safe_imap_then [OF safe_map_error(3) [OF safe_find(2)]])
    (auto simp: mine_def intro!: safe_pure safe_imap_then [OF safe_getMessages [OF assms]])

lemma harmless_Copy:
  assumes "mb_ID mbox \<notin> foreign_boxes F"
  shows "harmless u F (Copy fts gen now k u (Some mbox) numSet destName)"
  unfolding Copy_def
  by (rule safe_imap_then [OF safe_copy_prepare [OF assms]])
    (auto simp: safe_def copyMessages_def case_prod_unfold dest: harmless_copy_loop [unfolded safe_def, rule_format])

lemma harmless_Move:
  assumes "mb_ID mbox \<notin> foreign_boxes F"
  shows "harmless u F (Move fts gen now k u (Some mbox) numSet destName)"
  unfolding Move_def
proof (rule safe_imap_then [OF safe_copy_prepare [OF assms]])
  fix y :: "Mailbox \<times> (32 word \<times> Message) list"
  obtain dest ms where y: "y = (dest, ms)" by (cases y)
  assume "case y of (dest, ms) \<Rightarrow> mb_ID dest \<notin> foreign_boxes F \<and> (\<forall>x \<in> set ms. msg_ID (snd x) \<notin> foreign_msgs F)"
  then have dest: "mb_ID dest \<notin> foreign_boxes F" and ms: "\<forall>x \<in> set ms. msg_ID (snd x) \<notin> foreign_msgs F" by (simp_all add: y)
  have "intact u F (snd (copyMessages gen now k ms dest d))" if "intact u F d" for d
    using harmless_copy_loop [OF dest, of u] that by (simp add: copyMessages_def safe_def)
  moreover have "intact u F (snd (deleteOriginalMessages now mbox ms d))" if "intact u F d" for d
    using harmless_Recalculate_after [OF harmless_expunge_loop [OF ms] assms that]
    by (simp add: deleteOriginalMessages_def case_prod_unfold)
  ultimately show "harmless u F (case y of (dest, messages) \<Rightarrow> \<lambda>d.
      if messages = [] then (Inr (\<lparr>cd_UIDValidity = generateUIDValidity dest, cd_SourceUIDs = [], cd_DestUIDs = []\<rparr>, []), d)
      else case copyMessages gen now k messages dest d of (result, d') \<Rightarrow>
        case deleteOriginalMessages now (the (Some mbox)) messages d' of (seqNums, d'') \<Rightarrow>
          (Inr (\<lparr>cd_UIDValidity = cr_UIDValidity result, cd_SourceUIDs = cr_SourceUIDs result,
                 cd_DestUIDs = cr_DestUIDs result\<rparr>, seqNums), d''))"
    by (simp add: y safe_def case_prod_unfold)
qed simp

lemma harmless_fetch_loop:
  "\<forall>x \<in> set ms. msg_ID (snd x) \<notin> foreign_msgs F \<Longrightarrow> harmless u F (fetch_loop env now options ms)"
proof (induction ms)
  case (Cons x ms)
  obtain k m where x: "x = (k, m)" by (cases x)
  have mark: "intact u F (fetch_markAsRead now m d)" if "intact u F d" for d
    using that harmless_message(2) [of "msg_ID m" F u now] Cons.prems x by (simp add: fetch_markAsRead_def safe_def)
  show ?case
    unfolding safe_def
  proof (intro allI impI conjI TrueI)
    fix d assume d: "intact u F d"
    obtain e items d' where one: "fetchMessage env now options m d = ((e, items), d')"
      by (metis prod.exhaust)
    then have "intact u F d'"
      using d mark [OF d] by (auto simp: fetchMessage_def Let_def split: if_splits prod.splits option.splits)
    moreover from this have "intact u F (snd (fetch_loop env now options ms d'))"
      using Cons by (simp add: safe_def)
    ultimately show "intact u F (snd (fetch_loop env now options (x # ms) d))"
      using one by (auto simp: x split: option.splits prod.splits)
  qed
qed (simp add: safe_def)

lemma harmless_Fetch:
  assumes "mb_ID mbox \<notin> foreign_boxes F" and "\<And>xs. mset (ord xs) = mset xs"
  shows "harmless u F (Fetch env ord now (Some mbox) numSet options)"
  unfolding safe_def
proof (intro allI impI conjI TrueI)
  fix d assume d: "intact u F d"
  obtain ms where ms: "getMessagesForNumSet (fe_fts env) mbox numSet d = (Inr ms, d)" by (simp add: getMessages_eq)
  have "set (ord ms) = set ms" by (metis assms(2) set_mset_mset)
  then have "harmless u F (fetch_loop env now options (ord ms))"
    using result_after [OF safe_getMessages [OF assms(1)] d ms] by (intro harmless_fetch_loop) simp
  then show "intact u F (snd (Fetch env ord now (Some mbox) numSet options d))"
    using d by (simp add: Fetch_def ms safe_def)
qed

lemma harmless_appendMessage:
  assumes "user = None \<or> user = Some u"
  shows "harmless u F (appendMessage parse newID now user mailbox literal options)"
proof (cases user)
  case None
  then show ?thesis by (simp add: appendMessage_def safe_intros)
next
  case (Some v)
  then have v: "v = u" using assms by simp
  have box: "msg_MailboxID (fold append_flag fs m) = msg_MailboxID m" for fs m
    by (induction fs arbitrary: m) (simp_all add: append_flag_def split: imap_flag.split)
  have opts: "msg_MailboxID (append_options options m) = msg_MailboxID m" for m
    by (simp add: append_options_def Let_def box split: option.split)
  show ?thesis
    unfolding Some v appendMessage_def option.case
  proof (rule safe_imap_then [OF safe_find(3)])
    fix mbox assume "mine u F mbox"
    then have box': "mb_ID mbox \<notin> foreign_boxes F" by (simp add: mine_def)
    show "harmless u F (case literal of None \<Rightarrow> imap_fail (ImapNo None ''Failed to read message data'')
       | Some rawBody \<Rightarrow> let m = append_options options (appended_message now newID (mb_ID mbox) rawBody);
             m = (case parse rawBody of Inl _ \<Rightarrow> m | Inr p \<Rightarrow> ApplyTo p m)
         in imap_then (or_no ''Failed to store message'' (Create now m))
              (\<lambda>m d. (Inr \<lparr>apd_UID = msg_IMAPUID m, apd_UIDValidity = generateUIDValidity mbox\<rparr>,
                      snd (StoreRawBody now (msg_ID m) rawBody d))))"
    proof (cases literal)
      case (Some raw)
      define m where "m = (case parse raw of Inl _ \<Rightarrow> append_options options (appended_message now newID (mb_ID mbox) raw)
        | Inr p \<Rightarrow> ApplyTo p (append_options options (appended_message now newID (mb_ID mbox) raw)))"
      have "msg_MailboxID m \<notin> foreign_boxes F"
        using box' by (simp add: m_def opts appended_message_def NewMessage_def split: sum.split)
      from safe_map_error(2) [OF safe_Create [OF this]]
      have "harmless u F (imap_then (or_no ''Failed to store message'' (Create now m))
          (\<lambda>m d. (Inr \<lparr>apd_UID = msg_IMAPUID m, apd_UIDValidity = generateUIDValidity mbox\<rparr>, snd (StoreRawBody now (msg_ID m) raw d))))"
        by (rule safe_imap_then) (use harmless_flags(9) in \<open>auto simp: safe_def\<close>)
      then show ?thesis by (simp add: Some Let_def m_def)
    qed (simp add: safe_intros)
  qed simp
qed

section \<open>Sessions\<close>

text \<open>The commands of a session that is logged in, in any order and with any arguments.\<close>

inductive command :: "imap_env \<Rightarrow> imap_session \<times> imap_server \<Rightarrow> imap_session \<times> imap_server \<Rightarrow> bool" for env where
  cmd_select: "sess_Select now name ro s sv = (r, s', sv') \<Longrightarrow> command env (s, sv) (s', sv')"
| cmd_create: "sess_Create env now k name s sv = (r, s', sv') \<Longrightarrow> command env (s, sv) (s', sv')"
| cmd_delete: "sess_Delete name s sv = (r, s', sv') \<Longrightarrow> command env (s, sv) (s', sv')"
| cmd_rename: "sess_Rename env now k name newName s sv = (r, s', sv') \<Longrightarrow> command env (s, sv) (s', sv')"
| cmd_subscribe: "sess_Subscribe name s sv = (r, s', sv') \<Longrightarrow> command env (s, sv) (s', sv')"
| cmd_unsubscribe: "sess_Unsubscribe name s sv = (r, s', sv') \<Longrightarrow> command env (s, sv) (s', sv')"
| cmd_status: "sess_Status name opts s sv = (r, s', sv') \<Longrightarrow> command env (s, sv) (s', sv')"
| cmd_list: "sess_List ref pats lsel s sv = (r, s', sv') \<Longrightarrow> command env (s, sv) (s', sv')"
| cmd_append: "sess_Append env now k name lit aopts s sv = (r, s', sv') \<Longrightarrow> command env (s, sv) (s', sv')"
| cmd_expunge: "sess_Expunge env now uids s sv = (r, s', sv') \<Longrightarrow> command env (s, sv) (s', sv')"
| cmd_store: "sess_Store env now numSet flags s sv = (r, s', sv') \<Longrightarrow> command env (s, sv) (s', sv')"
| cmd_copy: "sess_Copy env now k numSet name s sv = (r, s', sv') \<Longrightarrow> command env (s, sv) (s', sv')"
| cmd_move: "sess_Move env now k numSet name s sv = (r, s', sv') \<Longrightarrow> command env (s, sv) (s', sv')"
| cmd_fetch: "sess_Fetch env now numSet options s sv = (r, s', sv') \<Longrightarrow> command env (s, sv) (s', sv')"
| cmd_unselect: "sess_Unselect s sv = (s', sv') \<Longrightarrow> command env (s, sv) (s', sv')"
| cmd_poll: "sess_Poll allowExpunge s sv = (r, sv') \<Longrightarrow> command env (s, sv) (s, sv')"
| cmd_idle: "idle_begin env now s sv = (r, sv') \<Longrightarrow> command env (s, sv) (s, sv')"
| cmd_receive: "idle_receive i sv = (r, sv') \<Longrightarrow> command env (s, sv) (s, sv')"
| cmd_done: "idle_end i s sv = sv' \<Longrightarrow> command env (s, sv) (s, sv')"
| cmd_close: "sess_Close s sv = (s', sv') \<Longrightarrow> command env (s, sv) (s', sv')"

inductive_cases commandE: "command env (s, sv) st'"

text \<open>The session is the user's, and so is the mailbox it has selected.\<close>

definition session_of_user :: "ID \<Rightarrow> foreign_rows \<Rightarrow> imap_session \<times> imap_server \<Rightarrow> bool" where
  "session_of_user u F st \<longleftrightarrow> intact u F (is_db (snd st)) \<and> heap_ok (snd st) \<and>
     (\<forall>us. user_session (fst st) (snd st) = Some us \<longrightarrow>
        usr_ID (us_User us) = u \<and> (\<forall>m. us_SelectedMailbox us = Some m \<longrightarrow> mine u F m))"

lemma session_same:
  assumes "session_of_user u F (s, sv)" and "is_objects sv' = is_objects sv" and "se_userSession s' = se_userSession s"
    and "intact u F (is_db sv')"
  shows "session_of_user u F (s', sv')"
  using assms by (simp add: session_of_user_def heap_ok_def user_session_def)

text \<open>Commands that run an operation of the mailbox operator as the user, or an operation on the selected mailbox.\<close>

lemma as_user_session:
  assumes "session_of_user u F (s, sv)" and "harmless u F (f u)" and "as_user f s sv = (r, s', sv')"
  shows "session_of_user u F (s', sv')"
proof (cases "if IsAuthenticated s then user_session s sv else None")
  case None
  then show ?thesis using assms(1,3) by (simp add: as_user_def)
next
  case (Some us)
  then have u: "usr_ID (us_User us) = u" "intact u F (is_db sv)"
    using assms(1) by (auto simp: session_of_user_def split: if_splits)
  obtain r' d where run: "f u (is_db sv) = (r', d)" by (cases "f u (is_db sv)")
  then have "intact u F d" using intact_after [OF assms(2)] u(2) by blast
  moreover have "s' = s" "sv' = sv\<lparr>is_db := d\<rparr>"
    using assms(3) Some u(1) run by (auto simp: as_user_def)
  ultimately show ?thesis by (intro session_same [OF assms(1)]) simp_all
qed

lemma guard_mine:
  assumes "session_of_user u F (s, sv)" and "selected_guard w s sv = Inr (v, mbox)"
  shows "v = u" and "mb_ID mbox \<notin> foreign_boxes F" and "intact u F (is_db sv)"
  using assms by (auto simp: selected_guard_def session_of_user_def mine_def split: option.splits if_splits)

lemma bookkeeping:
  "is_objects (with_notify f sv) = is_objects sv" "is_db (with_notify f sv) = is_db sv"
  "is_objects (UnregisterIdleSession i sv) = is_objects sv" "is_db (UnregisterIdleSession i sv) = is_db sv"
  "is_objects (RegisterIdleSession now i mb v sv) = is_objects sv" "is_db (RegisterIdleSession now i mb v sv) = is_db sv"
  "is_objects (Backend_Logout i sv) = is_objects sv" "is_db (Backend_Logout i sv) = is_db sv"
  by (auto simp: with_notify_def UnregisterIdleSession_def RegisterIdleSession_def make_chan_def Backend_Logout_def Let_def
      split: prod.splits option.splits)

lemma unsubscribe_frame:
  assumes "unsubscribePollNotificationsLocked s sv = (s', sv')"
  shows "is_objects sv' = is_objects sv \<and> is_db sv' = is_db sv \<and> se_userSession s' = se_userSession s"
  using assms by (auto simp: unsubscribePollNotificationsLocked_def Let_def split: option.splits)

lemma Select_session:
  assumes "session_of_user u F (s, sv)" and "sess_Select now name ro s sv = (r, s', sv')"
  shows "session_of_user u F (s', sv')"
proof (cases "if IsAuthenticated s then user_session s sv else None")
  case None
  then show ?thesis using assms by (simp add: sess_Select_def)
next
  case (Some us)
  then have us: "user_session s sv = Some us" "usr_ID (us_User us) = u" "intact u F (is_db sv)" "heap_ok sv"
    using assms(1) by (auto simp: session_of_user_def split: if_splits)
  obtain res d where run: "mo_Select u name (is_db sv) = (res, d)" by (cases "mo_Select u name (is_db sv)")
  then have d: "intact u F d" using intact_after [OF safe_harmless [OF safe_mo_Select] us(3)] by blast
  show ?thesis
  proof (cases res)
    case (Inl e)
    then have "s' = s" "sv' = sv\<lparr>is_db := d\<rparr>" using assms(2) Some us(2) run by (auto simp: sess_Select_def)
    then show ?thesis using d by (intro session_same [OF assms(1)]) simp_all
  next
    case (Inr p)
    obtain mbox data where p: "p = (mbox, data)" by (cases p)
    have mine: "mine u F mbox" using result_after [OF safe_mo_Select us(3), of name p d] run Inr p by simp
    have "r = Inr data" using assms(2) Some us(2) run Inr p by (auto simp: sess_Select_def Let_def split: prod.splits)
    then have "user_session s' sv' = Some (SelectMailbox now mbox ro us)" "is_db sv' = d" "heap_ok sv'"
      using selected_after_Select [OF us(4), of now name ro s data s' sv'] assms(2) us(1,2) run Inr p by auto
    then show ?thesis using d mine us(2) by (simp add: session_of_user_def)
  qed
qed

text \<open>The guard of the commands on the selected mailbox, once for all of them.\<close>

lemma guarded_session:
  assumes inv: "session_of_user u F (s, sv)"
    and run: "\<And>v mbox. selected_guard w s sv = Inr (v, mbox) \<Longrightarrow> \<exists>r d. m v mbox (is_db sv) = (r, d) \<and> is_db sv' = d"
    and stay: "\<And>e. selected_guard w s sv = Inl e \<Longrightarrow> is_db sv' = is_db sv"
    and safe: "\<And>mbox. mb_ID mbox \<notin> foreign_boxes F \<Longrightarrow> harmless u F (m u mbox)"
    and rest: "is_objects sv' = is_objects sv" "se_userSession s' = se_userSession s"
  shows "session_of_user u F (s', sv')"
proof (cases "selected_guard w s sv")
  case (Inl e)
  then show ?thesis
    using inv stay rest by (intro session_same [OF inv]) (simp_all add: session_of_user_def)
next
  case (Inr p)
  obtain v mbox where p: "p = (v, mbox)" by (cases p)
  note g = guard_mine [OF inv Inr [unfolded p]]
  obtain x d where "m u mbox (is_db sv) = (x, d)" "is_db sv' = d" using run Inr p g(1) by blast
  then have "intact u F (is_db sv')" using intact_after [OF safe [OF g(2)] g(3)] by blast
  then show ?thesis using rest by (intro session_same [OF inv])
qed

lemma command_session:
  assumes "command env st st'" and "session_of_user u F st" and ord: "\<And>xs. mset (ie_order env xs) = mset xs"
  shows "session_of_user u F st'"
  using assms(1,2)
proof (induction rule: command.induct)
  case (cmd_select now name ro s sv r s' sv')
  show ?case by (rule Select_session [OF cmd_select.prems cmd_select.hyps])
next
  case (cmd_create now k name s sv r s' sv')
  show ?case by (rule as_user_session [OF cmd_create.prems _ cmd_create.hyps [unfolded sess_Create_def]]) (rule harmless_mo_Create)
next
  case (cmd_delete name s sv r s' sv')
  show ?case by (rule as_user_session [OF cmd_delete.prems _ cmd_delete.hyps [unfolded sess_Delete_def]]) (rule harmless_mo_Delete)
next
  case (cmd_rename now k name newName s sv r s' sv')
  show ?case by (rule as_user_session [OF cmd_rename.prems _ cmd_rename.hyps [unfolded sess_Rename_def]]) (rule harmless_mo_Rename)
next
  case (cmd_subscribe name s sv r s' sv')
  show ?case by (rule as_user_session [OF cmd_subscribe.prems _ cmd_subscribe.hyps [unfolded sess_Subscribe_def]]) (rule harmless_reading(2))
next
  case (cmd_unsubscribe name s sv r s' sv')
  show ?case by (rule as_user_session [OF cmd_unsubscribe.prems _ cmd_unsubscribe.hyps [unfolded sess_Unsubscribe_def]]) (rule harmless_reading(3))
next
  case (cmd_status name opts s sv r s' sv')
  show ?case by (rule as_user_session [OF cmd_status.prems _ cmd_status.hyps [unfolded sess_Status_def]]) (rule harmless_reading(1))
next
  case (cmd_list ref pats lsel s sv r s' sv')
  show ?case by (rule as_user_session [OF cmd_list.prems _ cmd_list.hyps [unfolded sess_List_def]]) (rule harmless_reading(4))
next
  case (cmd_append now k name lit aopts s sv r s' sv')
  let ?user = "map_option (\<lambda>us. usr_ID (us_User us)) (user_session s sv)"
  have "?user = None \<or> ?user = Some u" "intact u F (is_db sv)"
    using cmd_append.prems by (auto simp: session_of_user_def)
  from intact_after [OF harmless_appendMessage [OF this(1)] this(2)] cmd_append show ?case
    by (auto simp: sess_Append_def intro!: session_same [OF cmd_append.prems] split: prod.splits)
next
  case (cmd_expunge now uids s sv r s' sv')
  show ?case
    by (rule guarded_session [OF cmd_expunge.prems, where w = True and m = "\<lambda>v mbox. Expunge (fe_fts (ie_fetch env)) now (Some mbox) uids"])
      (use cmd_expunge.hyps in \<open>auto simp: sess_Expunge_def bookkeeping intro!: harmless_Expunge split: prod.splits sum.splits\<close>)
next
  case (cmd_store now numSet flags s sv r s' sv')
  show ?case
    by (rule guarded_session [OF cmd_store.prems, where w = True and m = "\<lambda>v mbox. Store (ie_order env) (fe_fts (ie_fetch env)) now (Some mbox) numSet flags"])
      (use cmd_store.hyps in \<open>auto simp: sess_Store_def bookkeeping intro!: harmless_Store ord split: prod.splits sum.splits\<close>)
next
  case (cmd_copy now k numSet name s sv r s' sv')
  show ?case
    by (rule guarded_session [OF cmd_copy.prems, where w = False and m = "\<lambda>v mbox. Copy (fe_fts (ie_fetch env)) (ie_gen env) now k v (Some mbox) numSet name"])
      (use cmd_copy.hyps in \<open>auto simp: sess_Copy_def bookkeeping intro!: harmless_Copy split: prod.splits sum.splits\<close>)
next
  case (cmd_move now k numSet name s sv r s' sv')
  show ?case
    by (rule guarded_session [OF cmd_move.prems, where w = True and m = "\<lambda>v mbox. Move (fe_fts (ie_fetch env)) (ie_gen env) now k v (Some mbox) numSet name"])
      (use cmd_move.hyps in \<open>auto simp: sess_Move_def bookkeeping intro!: harmless_Move split: prod.splits sum.splits\<close>)
next
  case (cmd_fetch now numSet options s sv r s' sv')
  show ?case
    by (rule guarded_session [OF cmd_fetch.prems, where w = False and m = "\<lambda>v mbox. Fetch (ie_fetch env) (ie_order env) now (Some mbox) numSet options"])
      (use cmd_fetch.hyps in \<open>auto simp: sess_Fetch_def bookkeeping intro!: harmless_Fetch ord split: prod.splits sum.splits\<close>)
next
  case (cmd_unselect s sv s' sv')
  then show ?case by (simp add: sess_Unselect_def)
next
  case (cmd_poll allowExpunge s sv r sv')
  then show ?case
    by (intro session_same [OF cmd_poll.prems]) (auto simp: sess_Poll_def session_of_user_def Let_def split: option.splits if_splits)
next
  case (cmd_idle now s sv r sv')
  then show ?case
    by (intro session_same [OF cmd_idle.prems])
      (auto simp: idle_begin_def session_of_user_def Let_def bookkeeping split: option.splits prod.splits)
next
  case (cmd_receive i sv r sv' s)
  then show ?case
    by (intro session_same [OF cmd_receive.prems])
      (auto simp: idle_receive_def session_of_user_def Let_def split: option.splits list.splits)
next
  case (cmd_done i s sv sv')
  then show ?case
    by (intro session_same [OF cmd_done.prems]) (auto simp: idle_end_def session_of_user_def Let_def bookkeeping)
next
  case (cmd_close s sv s' sv')
  then show ?case
    by (intro session_same [OF cmd_close.prems])
      (auto simp: sess_Close_def onSessionClose_def session_of_user_def bookkeeping split: prod.splits option.splits if_splits dest!: unsubscribe_frame)
qed

section \<open>Properties\<close>

lemma UpdateLastLogin_intact: "intact u F d \<Longrightarrow> intact u F (snd (UpdateLastLogin now i d))"
  unfolding UpdateLastLogin_def set_user_def expect_rows_def update_users_def
  by (auto simp: intact_def andThen_def wrap_def stmt_def ret_def fail_def others_def owned_boxes_def owned_msgs_def
      split: prod.splits sum.splits if_splits)

lemma findUser_reads: "snd (findUser name d) = d"
  by (auto simp: findUser_def GetByUsername_def GetByEmail_def get_user_def Let_def split: prod.splits sum.splits option.splits)

lemma Authenticate_intact:
  assumes "Authenticate bc now name pw d = (r, d')" and "intact u F d"
  shows "intact u F d'"
  using assms findUser_reads [of name d] UpdateLastLogin_intact [OF assms(2)]
  by (auto simp: Authenticate_def split: prod.splits sum.splits if_splits option.splits)

lemma Login_session:
  assumes "sess_Login env now name pw s0 sv0 = (True, s, sv)" and "schema_ok (is_db sv0)" and "heap_ok sv0"
  shows "\<exists>us. user_session s sv = Some us \<and> us_SelectedMailbox us = None \<and>
    session_of_user (usr_ID (us_User us)) (others (usr_ID (us_User us)) (is_db sv0)) (s, sv)"
proof -
  from assms(1) obtain us where us: "Backend_Login env now name pw sv0 = (Inr us, sv)" "se_userSession s = Some (us_ID us)"
    by (auto simp: sess_Login_def split: if_splits prod.splits sum.splits)
  from us(1) obtain user d where auth: "Authenticate (ie_bcrypt env) now name pw (is_db sv0) = (Inr user, d)"
    and made: "createSession env now user (sv0\<lparr>is_db := d\<rparr>) = (us, sv)"
    by (auto simp: Backend_Login_def imap_Authenticate_def split: prod.splits sum.splits)
  from made have new: "us_User us = user" "us_SelectedMailbox us = None" "is_db sv = d"
    "map_of (is_objects sv) = (map_of (is_objects sv0))(us_ID us \<mapsto> us)"
    by (auto simp: createSession_def Let_def put_object_def update_conv')
  have "intact (usr_ID user) (others (usr_ID user) (is_db sv0)) d"
    using Authenticate_intact [OF auth] assms(2) by (simp add: intact_def)
  moreover have "heap_ok sv" using assms(3) new(4) by (simp add: heap_ok_def)
  moreover have "user_session s sv = Some us" by (simp add: user_session_def us(2) new(4))
  ultimately show ?thesis using new by (auto simp: session_of_user_def)
qed

text \<open>C3. Isolation over IMAP: after a user has logged in, whatever commands the session sends, in whatever order and with
  whatever arguments, and however they fail, the mailboxes, messages, recipients and attachments of all other users stay
  exactly as they were before the login, the database keeps its integrity constraints, and a mailbox the session has
  selected is always one of the user's own.\<close>

theorem imap_user_isolation:
  assumes "sess_Login env now name pw s0 sv0 = (True, s, sv)" and "schema_ok (is_db sv0)" and "heap_ok sv0"
    and "user_session s sv = Some us" and "(command env)\<^sup>*\<^sup>* (s, sv) (s', sv')" and "\<And>xs. mset (ie_order env xs) = mset xs"
  shows "others (usr_ID (us_User us)) (is_db sv') = others (usr_ID (us_User us)) (is_db sv0) \<and> schema_ok (is_db sv') \<and>
    (\<forall>m. selected_mailbox s' sv' = Some m \<longrightarrow> mb_UserID m = usr_ID (us_User us))"
proof -
  let ?u = "usr_ID (us_User us)" and ?F = "others (usr_ID (us_User us)) (is_db sv0)"
  have start: "session_of_user ?u ?F (s, sv)" using Login_session [OF assms(1-3)] assms(4) by auto
  from assms(5) have "session_of_user ?u ?F (s', sv')"
  proof (induction rule: rtranclp_induct2)
    case refl
    show ?case by (rule start)
  next
    case (step s1 sv1 s2 sv2)
    show ?case by (rule command_session [OF step.hyps(2) step.IH assms(6)])
  qed
  then show ?thesis
    by (auto simp: session_of_user_def intact_def selected_mailbox_def bind_eq_Some_conv mine_def)
qed

theorem imap_user_isolation_witness:
  "\<exists>s sv us s' sv'. sess_Login (demo_env\<lparr>ie_bcrypt := \<lparr>bc_hash = Inr, bc_check = (=)\<rparr>\<rparr>) 1 ''u1'' ''h''
        (demo_session\<lparr>se_userSession := None\<rparr>) (demo_server sample_db False) = (True, s, sv) \<and> user_session s sv = Some us \<and>
     sess_Delete ''b'' s sv = (Inr (), s', sv') \<and> others (usr_ID (us_User us)) (is_db sv') = others (usr_ID (us_User us)) sample_db"
proof -
  let ?env = "demo_env\<lparr>ie_bcrypt := \<lparr>bc_hash = Inr, bc_check = (=)\<rparr>\<rparr>" and ?sv = "demo_server sample_db False"
    and ?s = "demo_session\<lparr>se_userSession := None\<rparr>"
  let ?r = "sess_Login ?env 1 ''u1'' ''h'' ?s ?sv"
  have ok: "fst ?r" "fst (sess_Delete ''b'' (fst (snd ?r)) (snd (snd ?r))) = Inr ()" "schema_ok sample_db"
    by code_simp+
  obtain s sv where login: "?r = (True, s, sv)" using ok(1) by (metis (full_types) prod.collapse)
  have db: "is_db ?sv = sample_db" by (simp add: demo_server_def)
  have schema: "schema_ok (is_db ?sv)" using ok(3) by (simp add: db)
  obtain us where us: "user_session s sv = Some us" using Login_session [OF login schema demo_heap] by blast
  obtain s' sv' where del: "sess_Delete ''b'' s sv = (Inr (), s', sv')" using ok(2) login by (metis fst_conv snd_conv prod.collapse)
  have "(command ?env)\<^sup>*\<^sup>* (s, sv) (s', sv')" using cmd_delete [OF del] by (rule r_into_rtranclp)
  from imap_user_isolation [OF login schema demo_heap us this] have
    "others (usr_ID (us_User us)) (is_db sv') = others (usr_ID (us_User us)) sample_db"
    by (simp add: demo_env_def db)
  with login us del show ?thesis by blast
qed

end
