(* ===== verification/Auth_Sessions.thy ===== *)
theory Auth_Sessions
  imports User_Service
begin

text \<open>
  Tokens and sessions: the types of \<^verbatim>\<open>internal/domain/token.go\<close>, the interface \<^verbatim>\<open>SessionStore\<close> of
  \<^verbatim>\<open>internal/service/auth.go\<close>, and its two implementations, the map of \<^verbatim>\<open>InMemorySessionStore\<close> and the
  table of \<^verbatim>\<open>internal/repository/sqlite/session_store.go\<close>. The locale \<open>session_store\<close> is the contract the
  authentication service relies on; both implementations are interpretations of it.

  A Go interface value is the record of its methods. The in-memory store hands out pointers to its
  sessions; the service changes such a session only just before it writes it back or deletes it, so
  that a store that returns values has the same states between calls.
\<close>

section \<open>Tokens\<close>

type_synonym TokenType = string

definition TokenTypeAccess :: TokenType where
  "TokenTypeAccess = ''access''"

definition TokenTypeRefresh :: TokenType where
  "TokenTypeRefresh = ''refresh''"

definition TokenType_IsValid :: "TokenType \<Rightarrow> bool" where
  "TokenType_IsValid t \<longleftrightarrow> t = TokenTypeAccess \<or> t = TokenTypeRefresh"

record TokenClaims =
  tc_UserID :: ID
  tc_Username :: string
  tc_Email :: string
  tc_Role :: UserRole
  tc_TokenType :: TokenType
  tc_SessionID :: string

record TokenPair =
  tp_AccessToken :: string
  tp_RefreshToken :: string
  tp_AccessTokenExpiresAt :: instant
  tp_RefreshTokenExpiresAt :: instant
  tp_TokenType :: string

definition NewTokenPair :: "string \<Rightarrow> string \<Rightarrow> instant \<Rightarrow> instant \<Rightarrow> TokenPair" where
  "NewTokenPair accessToken refreshToken accessExp refreshExp =
     \<lparr>tp_AccessToken = accessToken, tp_RefreshToken = refreshToken,
      tp_AccessTokenExpiresAt = accessExp, tp_RefreshTokenExpiresAt = refreshExp,
      tp_TokenType = ''Bearer''\<rparr>"

record LoginInput =
  li_Username :: string
  li_Password :: string

definition LoginInput_Validate :: "LoginInput \<Rightarrow> ValidationErrors" where
  "LoginInput_Validate i =
     errs_Add (li_Username i = []) ''username'' ''username is required'' @
     errs_Add (li_Password i = []) ''password'' ''password is required''"

definition RefreshTokenInput_Validate :: "string \<Rightarrow> ValidationErrors" where
  "RefreshTokenInput_Validate refreshToken =
     errs_Add (refreshToken = []) ''refreshToken'' ''refresh token is required''"

record AuthResponse =
  ar_User :: UserInfo
  ar_Tokens :: TokenPair

text \<open>The errors of \<^verbatim>\<open>token.go\<close>, beside the domain errors.\<close>

datatype auth_error =
    DomainError error
  | InvalidTokenError string
  | ExpiredTokenError instant
  | SessionRevokedError string

section \<open>Sessions\<close>

record AuthSession =
  ssn_ID :: string
  ssn_UserID :: ID
  ssn_RefreshTokenHash :: string
  ssn_UserAgent :: string
  ssn_IPAddress :: string
  ssn_IsRevoked :: bool
  ssn_CreatedAt :: Timestamp
  ssn_ExpiresAt :: Timestamp
  ssn_LastUsedAt :: Timestamp

definition NewAuthSession :: "instant \<Rightarrow> string \<Rightarrow> ID \<Rightarrow> string \<Rightarrow> instant \<Rightarrow> AuthSession" where
  "NewAuthSession now i userID tokenHash expiresAt =
     \<lparr>ssn_ID = i, ssn_UserID = userID, ssn_RefreshTokenHash = tokenHash, ssn_UserAgent = [],
      ssn_IPAddress = [], ssn_IsRevoked = False, ssn_CreatedAt = now, ssn_ExpiresAt = expiresAt,
      ssn_LastUsedAt = now\<rparr>"

definition Session_IsExpired :: "instant \<Rightarrow> AuthSession \<Rightarrow> bool" where
  "Session_IsExpired now s \<longleftrightarrow> now > ssn_ExpiresAt s"

definition Session_IsValid :: "instant \<Rightarrow> AuthSession \<Rightarrow> bool" where
  "Session_IsValid now s \<longleftrightarrow> \<not> ssn_IsRevoked s \<and> \<not> Session_IsExpired now s"

definition Session_Revoke :: "AuthSession \<Rightarrow> AuthSession" where
  "Session_Revoke s = s\<lparr>ssn_IsRevoked := True\<rparr>"

definition Session_Touch :: "instant \<Rightarrow> AuthSession \<Rightarrow> AuthSession" where
  "Session_Touch now s = s\<lparr>ssn_LastUsedAt := now\<rparr>"

section \<open>The session store\<close>

text \<open>
  The methods of \<^verbatim>\<open>SessionStore\<close>. A call returns its error, \<open>None\<close> for nil, and the store it leaves; \<open>Create\<close>
  also sees the database, whose table of users a foreign key refers to.
\<close>

record 's SessionStore =
  ss_Create :: "db \<Rightarrow> AuthSession \<Rightarrow> 's \<Rightarrow> error option \<times> 's"
  ss_Get :: "string \<Rightarrow> 's \<Rightarrow> error + AuthSession"
  ss_Update :: "AuthSession \<Rightarrow> 's \<Rightarrow> error option \<times> 's"
  ss_Delete :: "string \<Rightarrow> 's \<Rightarrow> error option \<times> 's"
  ss_DeleteByUserID :: "ID \<Rightarrow> 's \<Rightarrow> error option \<times> 's"
  ss_Touch :: "instant \<Rightarrow> string \<Rightarrow> 's \<Rightarrow> error option \<times> 's"

subsection \<open>In memory\<close>

type_synonym memory = "string \<rightharpoonup> AuthSession"

definition mem_Create :: "db \<Rightarrow> AuthSession \<Rightarrow> memory \<Rightarrow> error option \<times> memory" where
  "mem_Create d session m = (None, m(ssn_ID session \<mapsto> session))"

definition mem_Get :: "string \<Rightarrow> memory \<Rightarrow> error + AuthSession" where
  "mem_Get i m = (case m i of None \<Rightarrow> Inl (NotFoundError ''session'' i) | Some session \<Rightarrow> Inr session)"

definition mem_Update :: "AuthSession \<Rightarrow> memory \<Rightarrow> error option \<times> memory" where
  "mem_Update session m =
     (if m (ssn_ID session) = None then (Some (NotFoundError ''session'' (ssn_ID session)), m)
      else (None, m(ssn_ID session \<mapsto> session)))"

definition mem_Delete :: "string \<Rightarrow> memory \<Rightarrow> error option \<times> memory" where
  "mem_Delete i m = (None, m(i := None))"

definition mem_DeleteByUserID :: "ID \<Rightarrow> memory \<Rightarrow> error option \<times> memory" where
  "mem_DeleteByUserID userID m =
     (None, \<lambda>i. case m i of None \<Rightarrow> None
                | Some session \<Rightarrow> if ssn_UserID session = userID then None else Some session)"

definition mem_Touch :: "instant \<Rightarrow> string \<Rightarrow> memory \<Rightarrow> error option \<times> memory" where
  "mem_Touch now i m =
     (case m i of None \<Rightarrow> (Some (NotFoundError ''session'' i), m)
      | Some session \<Rightarrow> (None, m(i \<mapsto> Session_Touch now session)))"

definition NewInMemorySessionStore :: "memory SessionStore" where
  "NewInMemorySessionStore =
     \<lparr>ss_Create = mem_Create, ss_Get = mem_Get, ss_Update = mem_Update, ss_Delete = mem_Delete,
      ss_DeleteByUserID = mem_DeleteByUserID, ss_Touch = mem_Touch\<rparr>"

subsection \<open>In the database\<close>

text \<open>
  The rows of the table \<^verbatim>\<open>sessions\<close> of migration 005. The three time columns hold RFC 3339 text without a
  fraction; the model keeps the whole seconds the text denotes.
\<close>

record sessionRow =
  sr_id :: string
  sr_user_id :: string
  sr_refresh_token_hash :: string
  sr_user_agent :: string
  sr_ip_address :: string
  sr_is_revoked :: bool
  sr_created_at :: int
  sr_expires_at :: int
  sr_last_used_at :: int

definition Format_RFC3339 :: "instant \<Rightarrow> int" where
  "Format_RFC3339 t = t div Second"

definition Parse_RFC3339 :: "int \<Rightarrow> instant" where
  "Parse_RFC3339 n = n * Second"

definition rowToSession :: "sessionRow \<Rightarrow> AuthSession" where
  "rowToSession r =
     \<lparr>ssn_ID = sr_id r, ssn_UserID = sr_user_id r, ssn_RefreshTokenHash = sr_refresh_token_hash r,
      ssn_UserAgent = sr_user_agent r, ssn_IPAddress = sr_ip_address r, ssn_IsRevoked = sr_is_revoked r,
      ssn_CreatedAt = Parse_RFC3339 (sr_created_at r), ssn_ExpiresAt = Parse_RFC3339 (sr_expires_at r),
      ssn_LastUsedAt = Parse_RFC3339 (sr_last_used_at r)\<rparr>"

definition session_row :: "AuthSession \<Rightarrow> sessionRow" where
  "session_row s =
     \<lparr>sr_id = ssn_ID s, sr_user_id = ssn_UserID s, sr_refresh_token_hash = ssn_RefreshTokenHash s,
      sr_user_agent = ssn_UserAgent s, sr_ip_address = ssn_IPAddress s, sr_is_revoked = ssn_IsRevoked s,
      sr_created_at = Format_RFC3339 (ssn_CreatedAt s), sr_expires_at = Format_RFC3339 (ssn_ExpiresAt s),
      sr_last_used_at = Format_RFC3339 (ssn_LastUsedAt s)\<rparr>"

definition ds_Create :: "db \<Rightarrow> AuthSession \<Rightarrow> sessionRow list \<Rightarrow> error option \<times> sessionRow list" where
  "ds_Create d session rows =
     (if list_ex (\<lambda>r. sr_id r = ssn_ID session) rows \<or>
         \<not> list_ex (\<lambda>u. ur_id u = ssn_UserID session) (db_users d)
      then (Some (Wrapped ''failed to create session'' constraint_error), rows)
      else (None, rows @ [session_row session]))"

definition ds_Get :: "string \<Rightarrow> sessionRow list \<Rightarrow> error + AuthSession" where
  "ds_Get i rows =
     (case find (\<lambda>r. sr_id r = i) rows of None \<Rightarrow> Inl (OtherError ''session not found'')
      | Some r \<Rightarrow> Inr (rowToSession r))"

definition ds_Update :: "AuthSession \<Rightarrow> sessionRow list \<Rightarrow> error option \<times> sessionRow list" where
  "ds_Update session rows =
     (None, map (\<lambda>r. if sr_id r = ssn_ID session
        then r\<lparr>sr_refresh_token_hash := ssn_RefreshTokenHash session,
               sr_user_agent := ssn_UserAgent session, sr_ip_address := ssn_IPAddress session,
               sr_is_revoked := ssn_IsRevoked session,
               sr_last_used_at := Format_RFC3339 (ssn_LastUsedAt session)\<rparr>
        else r) rows)"

definition ds_Delete :: "string \<Rightarrow> sessionRow list \<Rightarrow> error option \<times> sessionRow list" where
  "ds_Delete i rows = (None, filter (\<lambda>r. sr_id r \<noteq> i) rows)"

definition ds_DeleteByUserID :: "ID \<Rightarrow> sessionRow list \<Rightarrow> error option \<times> sessionRow list" where
  "ds_DeleteByUserID userID rows = (None, filter (\<lambda>r. sr_user_id r \<noteq> userID) rows)"

definition ds_Touch :: "instant \<Rightarrow> string \<Rightarrow> sessionRow list \<Rightarrow> error option \<times> sessionRow list" where
  "ds_Touch now i rows =
     (None, map (\<lambda>r. if sr_id r = i then r\<lparr>sr_last_used_at := Format_RFC3339 now\<rparr> else r) rows)"

definition NewDBSessionStore :: "sessionRow list SessionStore" where
  "NewDBSessionStore =
     \<lparr>ss_Create = ds_Create, ss_Get = ds_Get, ss_Update = ds_Update, ss_Delete = ds_Delete,
      ss_DeleteByUserID = ds_DeleteByUserID, ss_Touch = ds_Touch\<rparr>"

section \<open>The contract\<close>

text \<open>
  A store is a map from session IDs to sessions: \<open>lookup\<close> reads it, \<open>kept\<close> is what the store keeps of a
  session (its time stamps may lose their fraction of a second), \<open>clock\<close> the time stamp a touch leaves,
  \<open>missing\<close> the error for an ID that is not there, and \<open>keyed\<close> the invariant that every session is
  stored under its own ID.
\<close>

locale session_store =
  fixes store :: "'s SessionStore"
    and keyed :: "'s \<Rightarrow> bool"
    and lookup :: "'s \<Rightarrow> string \<Rightarrow> AuthSession option"
    and kept :: "AuthSession \<Rightarrow> AuthSession"
    and clock :: "instant \<Rightarrow> instant"
    and missing :: "string \<Rightarrow> error"
  assumes create_new: "lookup s (ssn_ID x) = None \<Longrightarrow> list_ex (\<lambda>u. ur_id u = ssn_UserID x) (db_users d) \<Longrightarrow>
      fst (ss_Create store d x s) = None \<and> lookup (snd (ss_Create store d x s)) = (lookup s)(ssn_ID x \<mapsto> kept x)"
    and create_other: "k \<noteq> ssn_ID x \<Longrightarrow> lookup (snd (ss_Create store d x s)) k = lookup s k"
    and create_error: "fst (ss_Create store d x s) \<noteq> None \<Longrightarrow> snd (ss_Create store d x s) = s"
    and get: "ss_Get store k s = (case lookup s k of None \<Rightarrow> Inl (missing k) | Some x \<Rightarrow> Inr x)"
    and get_ID: "keyed s \<Longrightarrow> lookup s k = Some x \<Longrightarrow> ssn_ID x = k"
    and update_revoked: "keyed s \<Longrightarrow> lookup s k = Some x \<Longrightarrow>
      lookup (snd (ss_Update store (Session_Revoke x) s)) = (lookup s)(k \<mapsto> Session_Revoke x)"
    and delete: "lookup (snd (ss_Delete store k s)) = (lookup s)(k := None)"
    and delete_ok: "fst (ss_Delete store k s) = None"
    and delete_user: "keyed s \<Longrightarrow> lookup (snd (ss_DeleteByUserID store uid s)) k =
      (case lookup s k of None \<Rightarrow> None | Some x \<Rightarrow> if ssn_UserID x = uid then None else Some x)"
    and delete_user_ok: "fst (ss_DeleteByUserID store uid s) = None"
    and touch: "lookup (snd (ss_Touch store now k s)) =
      (lookup s)(k := map_option (Session_Touch (clock now)) (lookup s k))"
    and keyed_preserved: "keyed s \<Longrightarrow> keyed (snd (ss_Create store d x s))"
      "keyed s \<Longrightarrow> keyed (snd (ss_Update store x s))" "keyed s \<Longrightarrow> keyed (snd (ss_Delete store k s))"
      "keyed s \<Longrightarrow> keyed (snd (ss_DeleteByUserID store uid s))"
      "keyed s \<Longrightarrow> keyed (snd (ss_Touch store now k s))"
    and kept_fields: "ssn_ID (kept x) = ssn_ID x" "ssn_UserID (kept x) = ssn_UserID x"
      "ssn_RefreshTokenHash (kept x) = ssn_RefreshTokenHash x" "ssn_IsRevoked (kept x) = ssn_IsRevoked x"
      "ssn_UserAgent (kept x) = ssn_UserAgent x" "ssn_IPAddress (kept x) = ssn_IPAddress x"
    and kept_expiry: "ssn_ExpiresAt x div Second * Second \<le> ssn_ExpiresAt (kept x)"
      "ssn_ExpiresAt (kept x) \<le> ssn_ExpiresAt x"

lemma whole_second: "t div Second * Second \<le> t"
  unfolding Second_def by linarith

subsection \<open>The in-memory store keeps it\<close>

definition mem_keyed :: "memory \<Rightarrow> bool" where
  "mem_keyed m \<longleftrightarrow> (\<forall>k x. m k = Some x \<longrightarrow> ssn_ID x = k)"

lemmas mem_defs = NewInMemorySessionStore_def mem_Create_def mem_Get_def mem_Update_def mem_Delete_def
  mem_DeleteByUserID_def mem_Touch_def

lemmas session_ops = Session_Revoke_def Session_Touch_def

interpretation mem: session_store NewInMemorySessionStore mem_keyed "\<lambda>m. m" "\<lambda>x. x" "\<lambda>t. t"
  "NotFoundError ''session''"
proof unfold_locales
  show "x div Second * Second \<le> x" for x
    by (rule whole_second)
qed (auto simp: mem_defs session_ops mem_keyed_def fun_eq_iff whole_second split: option.splits if_splits)

subsection \<open>The database store keeps it\<close>

definition ds_lookup :: "sessionRow list \<Rightarrow> string \<Rightarrow> AuthSession option" where
  "ds_lookup rows i = map_option rowToSession (find (\<lambda>r. sr_id r = i) rows)"

lemmas ds_defs = NewDBSessionStore_def ds_Create_def ds_Get_def ds_Update_def ds_Delete_def
  ds_DeleteByUserID_def ds_Touch_def

definition ds_keyed :: "sessionRow list \<Rightarrow> bool" where
  "ds_keyed rows \<longleftrightarrow> distinct (map sr_id rows)"

definition ds_kept :: "AuthSession \<Rightarrow> AuthSession" where
  "ds_kept s = rowToSession (session_row s)"

lemma ds_lookup_map:
  fixes f :: "sessionRow \<Rightarrow> sessionRow"
  assumes "\<And>r. sr_id (f r) = sr_id r"
  shows "ds_lookup (map f rows) k = map_option (\<lambda>r. rowToSession (f r)) (find (\<lambda>r. sr_id r = k) rows)"
  unfolding ds_lookup_def
  by (subst find_map_update [where f = f]) (simp_all add: assms option.map_comp comp_def)

lemma ds_lookup_delete:
  "ds_lookup (filter (\<lambda>r. sr_id r \<noteq> k) rows) = (ds_lookup rows)(k := None)"
  by (induction rows) (auto simp: ds_lookup_def fun_eq_iff)

lemma find_delete_user:
  assumes "ds_keyed rows"
  shows "find (\<lambda>r. sr_id r = k) (filter (\<lambda>r. sr_user_id r \<noteq> uid) rows) =
     (case find (\<lambda>r. sr_id r = k) rows of None \<Rightarrow> None | Some r \<Rightarrow> if sr_user_id r = uid then None else Some r)"
  using assms
proof (induction rows)
  case (Cons r rows)
  have "find (\<lambda>r. sr_id r = k) (filter (\<lambda>r. sr_user_id r \<noteq> uid) rows) = None" if "sr_id r = k"
    unfolding find_eq_None using Cons.prems that by (auto simp: ds_keyed_def image_iff)
  with Cons show ?case
    by (auto simp: ds_keyed_def)
qed simp

lemma ds_lookup_delete_user:
  assumes "ds_keyed rows"
  shows "ds_lookup (filter (\<lambda>r. sr_user_id r \<noteq> uid) rows) k =
     (case ds_lookup rows k of None \<Rightarrow> None | Some x \<Rightarrow> if ssn_UserID x = uid then None else Some x)"
  by (simp add: ds_lookup_def find_delete_user [OF assms] rowToSession_def split: option.splits)

text \<open>An update of the row of one session.\<close>

lemma ds_lookup_update_one:
  fixes f :: "sessionRow \<Rightarrow> sessionRow"
  assumes "\<And>r. sr_id (f r) = sr_id r"
  shows "ds_lookup (map (\<lambda>r. if sr_id r = k then f r else r) rows) j =
     (if j = k then map_option (\<lambda>r. rowToSession (f r)) (find (\<lambda>r. sr_id r = k) rows) else ds_lookup rows j)"
proof -
  let ?g = "\<lambda>r. if sr_id r = k then f r else r"
  have "ds_lookup (map ?g rows) j = map_option (\<lambda>r. rowToSession (?g r)) (find (\<lambda>r. sr_id r = j) rows)"
    by (rule ds_lookup_map) (simp add: assms)
  then show ?thesis
    by (cases "find (\<lambda>r. sr_id r = j) rows") (auto simp: ds_lookup_def dest: find_SomeD)
qed

lemma ds_lookup_update:
  assumes "ds_lookup rows k = Some x"
  shows "ds_lookup (snd (ds_Update (Session_Revoke x) rows)) = (ds_lookup rows)(k \<mapsto> Session_Revoke x)"
proof -
  obtain r where r: "find (\<lambda>r. sr_id r = k) rows = Some r" "x = rowToSession r"
    using assms by (auto simp: ds_lookup_def)
  have "ssn_ID (Session_Revoke x) = k"
    using find_SomeD [OF r(1)] r(2) by (simp add: Session_Revoke_def rowToSession_def)
  then show ?thesis
    unfolding ds_Update_def snd_conv fun_eq_iff
    by (simp add: ds_lookup_update_one r(1))
      (simp add: r(2) Session_Revoke_def rowToSession_def Format_RFC3339_def Parse_RFC3339_def Second_def)
qed

lemma ds_lookup_touch:
  "ds_lookup (snd (ds_Touch now k rows)) =
     (ds_lookup rows)(k := map_option (Session_Touch (now div Second * Second)) (ds_lookup rows k))"
  unfolding ds_Touch_def snd_conv fun_eq_iff
  by (simp add: ds_lookup_update_one)
    (simp add: ds_lookup_def Session_Touch_def rowToSession_def Format_RFC3339_def Parse_RFC3339_def
      option.map_comp comp_def)

lemma ds_lookup_create:
  "ds_lookup (snd (ds_Create d x rows)) k =
     (if k = ssn_ID x \<and> fst (ds_Create d x rows) = None then Some (ds_kept x) else ds_lookup rows k)"
proof (cases "list_ex (\<lambda>r. sr_id r = ssn_ID x) rows \<or> \<not> list_ex (\<lambda>u. ur_id u = ssn_UserID x) (db_users d)")
  case False
  then have "find (\<lambda>r. sr_id r = ssn_ID x) rows = None"
    by (simp add: find_eq_None list_ex_iff)
  moreover have "sr_id (session_row x) = ssn_ID x"
    by (simp add: session_row_def)
  ultimately show ?thesis
    using False by (auto simp: ds_Create_def ds_lookup_def find_append ds_kept_def split: option.splits)
qed (simp add: ds_Create_def)

lemma ds_missing: "ds_lookup rows k = None \<longleftrightarrow> \<not> list_ex (\<lambda>r. sr_id r = k) rows"
  by (simp add: ds_lookup_def find_eq_None list_ex_iff)

interpretation dbs: session_store NewDBSessionStore ds_keyed ds_lookup ds_kept "\<lambda>t. t div Second * Second"
  "\<lambda>_. OtherError ''session not found''"
proof unfold_locales
  fix rows and d :: db and x :: AuthSession
  assume "ds_lookup rows (ssn_ID x) = None" "list_ex (\<lambda>u. ur_id u = ssn_UserID x) (db_users d)"
  then have "fst (ds_Create d x rows) = None"
    by (simp add: ds_Create_def ds_missing)
  then show "fst (ss_Create NewDBSessionStore d x rows) = None \<and>
      ds_lookup (snd (ss_Create NewDBSessionStore d x rows)) = (ds_lookup rows)(ssn_ID x \<mapsto> ds_kept x)"
    by (auto simp: NewDBSessionStore_def ds_lookup_create)
next
  fix rows and k and x
  assume "ds_lookup rows k = Some x"
  then show "ds_lookup (snd (ss_Update NewDBSessionStore (Session_Revoke x) rows)) = (ds_lookup rows)(k \<mapsto> Session_Revoke x)"
    by (simp add: NewDBSessionStore_def ds_lookup_update)
next
  show "ssn_ExpiresAt (ds_kept x) \<le> ssn_ExpiresAt x" for x
    by (simp add: ds_kept_def rowToSession_def session_row_def Parse_RFC3339_def Format_RFC3339_def whole_second)
next
  fix rows :: "sessionRow list" and now k
  show "ds_lookup (snd (ss_Touch NewDBSessionStore now k rows)) =
      (ds_lookup rows)(k := map_option (Session_Touch (now div Second * Second)) (ds_lookup rows k))"
    by (simp add: NewDBSessionStore_def ds_lookup_touch)
next
  fix rows :: "sessionRow list" and k x
  assume "ds_lookup rows k = Some x"
  then show "ssn_ID x = k"
    by (auto simp: ds_lookup_def rowToSession_def dest: find_SomeD)
next
  fix rows :: "sessionRow list" and x and d :: db
  show "fst (ss_Create NewDBSessionStore d x rows) \<noteq> None \<Longrightarrow> snd (ss_Create NewDBSessionStore d x rows) = rows"
    by (auto simp: NewDBSessionStore_def ds_Create_def)
next
  fix rows :: "sessionRow list" and x and d :: db
  assume "ds_keyed rows"
  then show "ds_keyed (snd (ss_Create NewDBSessionStore d x rows))"
    by (auto simp: NewDBSessionStore_def ds_Create_def ds_keyed_def session_row_def list_ex_iff)
next
  fix rows :: "sessionRow list" and x
  assume "ds_keyed rows"
  then show "ds_keyed (snd (ss_Update NewDBSessionStore x rows))"
    by (simp add: NewDBSessionStore_def ds_Update_def ds_keyed_def comp_def if_distrib [of sr_id] cong: if_cong)
next
  fix rows :: "sessionRow list" and now k
  assume "ds_keyed rows"
  then show "ds_keyed (snd (ss_Touch NewDBSessionStore now k rows))"
    by (simp add: NewDBSessionStore_def ds_Touch_def ds_keyed_def comp_def if_distrib [of sr_id] cong: if_cong)
next
  fix rows :: "sessionRow list" and k
  show "ss_Get NewDBSessionStore k rows =
      (case ds_lookup rows k of None \<Rightarrow> Inl (OtherError ''session not found'') | Some x \<Rightarrow> Inr x)"
    by (simp add: NewDBSessionStore_def ds_Get_def ds_lookup_def split: option.splits)
qed (simp_all add: NewDBSessionStore_def ds_lookup_create ds_lookup_delete_user ds_Delete_def ds_DeleteByUserID_def
    ds_lookup_delete ds_keyed_def distinct_map_filter ds_kept_def rowToSession_def session_row_def
    Parse_RFC3339_def Format_RFC3339_def)

end
