(* ===== verification/Auth_Service.thy ===== *)
theory Auth_Service
  imports Auth_Sessions
begin

text \<open>
  The authentication service of \<^verbatim>\<open>internal/service/auth.go\<close>: login, token refresh, logout and the validation
  of access tokens, over the SQLite user repository and a session store.

  Parameters of the model, in the record of the service: the JWT library (\<open>jwt_sign\<close> is
  \<^verbatim>\<open>NewWithClaims(SigningMethodHS256, \<dots>).SignedString\<close>, \<open>jwt_parse\<close> is \<^verbatim>\<open>ParseWithClaims\<close> with its key function),
  SHA-256 in hexadecimal, and bcrypt. The UUID a call generates and the clock it reads are arguments.
\<close>

section \<open>The JWT library\<close>

datatype signing_method = SigningMethodHMAC string | OtherMethod string

text \<open>
  \<open>ErrTokenExpired\<close> is the library's sentinel itself, \<open>JwtError\<close> every other error with its text. A
  \<^verbatim>\<open>NumericDate\<close> is a count of seconds: \<^verbatim>\<open>NewNumericDate\<close> truncates.
\<close>

datatype jwt_error = ErrTokenExpired | JwtError string

record jwtClaims =
  jc_Subject :: string
  jc_IssuedAt :: int
  jc_ExpiresAt :: int
  jc_NotBefore :: int
  jc_Issuer :: string
  jc_TokenClaims :: TokenClaims

record JWT =
  jwt_sign :: "string \<Rightarrow> jwtClaims \<Rightarrow> error + string"
  jwt_parse :: "(signing_method \<Rightarrow> auth_error + string) \<Rightarrow> instant \<Rightarrow> string \<Rightarrow> jwt_error + jwtClaims"

definition NewNumericDate :: "instant \<Rightarrow> int" where
  "NewNumericDate t = t div Second"

section \<open>The service\<close>

record AuthConfig =
  ac_JWTSecret :: string
  ac_JWTExpiration :: duration
  ac_RefreshExpiration :: duration

record 's AuthService =
  as_config :: AuthConfig
  as_sessionStore :: "'s SessionStore"
  as_jwt :: JWT
  as_sha256 :: "string \<Rightarrow> string"
  as_bcrypt :: BCrypt

definition NewAuthService ::
  "AuthConfig \<Rightarrow> 's SessionStore \<Rightarrow> JWT \<Rightarrow> (string \<Rightarrow> string) \<Rightarrow> BCrypt \<Rightarrow> 's AuthService" where
  "NewAuthService cfg sessionStore jwt sha256 bc =
     \<lparr>as_config = cfg, as_sessionStore = sessionStore, as_jwt = jwt, as_sha256 = sha256, as_bcrypt = bc\<rparr>"

record 's auth_state =
  au_db :: db
  au_sessions :: 's

definition hashToken :: "'s AuthService \<Rightarrow> string \<Rightarrow> string" where
  "hashToken svc token = as_sha256 svc token"

definition token_claims :: "TokenType \<Rightarrow> string \<Rightarrow> instant \<Rightarrow> instant \<Rightarrow> User \<Rightarrow> jwtClaims" where
  "token_claims typ sessionID now expiry user =
     \<lparr>jc_Subject = usr_ID user, jc_IssuedAt = NewNumericDate now, jc_ExpiresAt = NewNumericDate expiry,
      jc_NotBefore = NewNumericDate now, jc_Issuer = ''yunt'',
      jc_TokenClaims =
        \<lparr>tc_UserID = usr_ID user, tc_Username = usr_Username user, tc_Email = usr_Email user,
         tc_Role = usr_Role user, tc_TokenType = typ, tc_SessionID = sessionID\<rparr>\<rparr>"

definition generateTokenPair ::
  "'s AuthService \<Rightarrow> string \<Rightarrow> instant \<Rightarrow> User \<Rightarrow> error + TokenPair \<times> AuthSession" where
  "generateTokenPair svc sessionID now user =
     (let accessExp = now + ac_JWTExpiration (as_config svc);
          refreshExp = now + ac_RefreshExpiration (as_config svc);
          secret = ac_JWTSecret (as_config svc)
      in case jwt_sign (as_jwt svc) secret (token_claims TokenTypeAccess sessionID now accessExp user) of
           Inl err \<Rightarrow> Inl err
         | Inr accessTokenString \<Rightarrow>
             (case jwt_sign (as_jwt svc) secret (token_claims TokenTypeRefresh sessionID now refreshExp user) of
                Inl err \<Rightarrow> Inl err
              | Inr refreshTokenString \<Rightarrow>
                  Inr (NewTokenPair accessTokenString refreshTokenString accessExp refreshExp,
                       NewAuthSession now sessionID (usr_ID user) (hashToken svc refreshTokenString) refreshExp)))"

definition internal :: "string \<Rightarrow> error \<Rightarrow> auth_error" where
  "internal msg err = DomainError (InternalError msg (Some err))"

definition unauthorized :: "string \<Rightarrow> auth_error" where
  "unauthorized reason = DomainError (UnauthorizedError reason)"

text \<open>
  The last part of \<^verbatim>\<open>Login\<close> and \<^verbatim>\<open>RefreshToken\<close>: new tokens and a stored session with the client's
  metadata.
\<close>

definition start_session ::
  "'s AuthService \<Rightarrow> string \<Rightarrow> instant \<Rightarrow> User \<Rightarrow> string \<Rightarrow> string \<Rightarrow> 's auth_state \<Rightarrow>
   (auth_error + AuthResponse) \<times> 's auth_state" where
  "start_session svc gen now user userAgent ipAddress st =
     (case generateTokenPair svc gen now user of
        Inl err \<Rightarrow> (Inl (internal ''failed to generate tokens'' err), st)
      | Inr (tokenPair, session) \<Rightarrow>
          (case ss_Create (as_sessionStore svc) (au_db st)
                  (session\<lparr>ssn_UserAgent := userAgent, ssn_IPAddress := ipAddress\<rparr>) (au_sessions st) of
             (Some err, s') \<Rightarrow> (Inl (internal ''failed to create session'' err), st\<lparr>au_sessions := s'\<rparr>)
           | (None, s') \<Rightarrow> (Inr \<lparr>ar_User = UserInfoFromUser user, ar_Tokens = tokenPair\<rparr>,
                            st\<lparr>au_sessions := s'\<rparr>)))"

definition Login ::
  "'s AuthService \<Rightarrow> string \<Rightarrow> instant \<Rightarrow> LoginInput \<Rightarrow> string \<Rightarrow> string \<Rightarrow> 's auth_state \<Rightarrow>
   (auth_error + AuthResponse) \<times> 's auth_state" where
  "Login svc gen now input userAgent ipAddress st =
     (if LoginInput_Validate input \<noteq> [] then (Inl (DomainError (ValidationErrs (LoginInput_Validate input))), st)
      else case GetByUsername (li_Username input) (au_db st) of
        (Inl err, _) \<Rightarrow>
          (if IsNotFound err then (Inl (unauthorized ''invalid credentials''), st)
           else (Inl (internal ''failed to retrieve user'' err), st))
      | (Inr user, _) \<Rightarrow>
          if \<not> IsActive user then (Inl (unauthorized ''account is not active''), st)
          else if \<not> bc_check (as_bcrypt svc) (usr_PasswordHash user) (li_Password input)
          then (Inl (unauthorized ''invalid credentials''), st)
          else (case start_session svc gen now user userAgent ipAddress st of
                  (Inl err, st') \<Rightarrow> (Inl err, st')
                | (Inr response, st') \<Rightarrow>
                    (Inr response, st'\<lparr>au_db := snd (UpdateLastLogin now (usr_ID user) (au_db st'))\<rparr>)))"

definition keyfunc :: "string \<Rightarrow> signing_method \<Rightarrow> auth_error + string" where
  "keyfunc secret m =
     (case m of SigningMethodHMAC _ \<Rightarrow> Inr secret | OtherMethod _ \<Rightarrow> Inl (InvalidTokenError ''invalid signing method''))"

definition ValidateToken :: "'s AuthService \<Rightarrow> instant \<Rightarrow> string \<Rightarrow> auth_error + TokenClaims" where
  "ValidateToken svc now tokenString =
     (case jwt_parse (as_jwt svc) (keyfunc (ac_JWTSecret (as_config svc))) now tokenString of
        Inl ErrTokenExpired \<Rightarrow> Inl (ExpiredTokenError now)
      | Inl (JwtError text) \<Rightarrow> Inl (InvalidTokenError text)
      | Inr claims \<Rightarrow> Inr (jc_TokenClaims claims))"

text \<open>The session of a token: not found, revoked and expired sessions are errors.\<close>

definition valid_session :: "'s AuthService \<Rightarrow> instant \<Rightarrow> string \<Rightarrow> 's \<Rightarrow> auth_error + AuthSession" where
  "valid_session svc now sessionID s =
     (case ss_Get (as_sessionStore svc) sessionID s of
        Inl err \<Rightarrow> Inl (if IsNotFound err then InvalidTokenError ''session not found''
                        else internal ''failed to retrieve session'' err)
      | Inr session \<Rightarrow>
          if \<not> Session_IsValid now session
          then Inl (if ssn_IsRevoked session then SessionRevokedError (ssn_ID session)
                    else ExpiredTokenError (ssn_ExpiresAt session))
          else Inr session)"

definition RefreshToken ::
  "'s AuthService \<Rightarrow> string \<Rightarrow> instant \<Rightarrow> string \<Rightarrow> 's auth_state \<Rightarrow>
   (auth_error + AuthResponse) \<times> 's auth_state" where
  "RefreshToken svc gen now refreshToken st =
     (if RefreshTokenInput_Validate refreshToken \<noteq> []
      then (Inl (DomainError (ValidationErrs (RefreshTokenInput_Validate refreshToken))), st)
      else case ValidateToken svc now refreshToken of
        Inl err \<Rightarrow> (Inl err, st)
      | Inr claims \<Rightarrow>
          if tc_TokenType claims \<noteq> TokenTypeRefresh then (Inl (InvalidTokenError ''not a refresh token''), st)
          else case valid_session svc now (tc_SessionID claims) (au_sessions st) of
            Inl err \<Rightarrow> (Inl err, st)
          | Inr session \<Rightarrow>
              if ssn_RefreshTokenHash session \<noteq> hashToken svc refreshToken
              then (Inl (InvalidTokenError ''token mismatch''),
                    st\<lparr>au_sessions := snd (ss_Update (as_sessionStore svc) (Session_Revoke session) (au_sessions st))\<rparr>)
              else case usr_GetByID (ssn_UserID session) (au_db st) of
                (Inl err, _) \<Rightarrow>
                  (if IsNotFound err then (Inl (unauthorized ''user not found''), st)
                   else (Inl (internal ''failed to retrieve user'' err), st))
              | (Inr user, _) \<Rightarrow>
                  if \<not> IsActive user then (Inl (unauthorized ''account is not active''), st)
                  else start_session svc gen now user (ssn_UserAgent session) (ssn_IPAddress session)
                    (st\<lparr>au_sessions := snd (ss_Delete (as_sessionStore svc) (ssn_ID session) (au_sessions st))\<rparr>))"

definition as_Logout :: "'s AuthService \<Rightarrow> string \<Rightarrow> 's auth_state \<Rightarrow> auth_error option \<times> 's auth_state" where
  "as_Logout svc sessionID st =
     (case ss_Get (as_sessionStore svc) sessionID (au_sessions st) of
        Inl err \<Rightarrow> (if IsNotFound err then (None, st) else (Some (internal ''failed to retrieve session'' err), st))
      | Inr session \<Rightarrow>
          (case ss_Delete (as_sessionStore svc) sessionID (au_sessions st) of
             (Some err, s') \<Rightarrow> (Some (internal ''failed to delete session'' err), st\<lparr>au_sessions := s'\<rparr>)
           | (None, s') \<Rightarrow> (None, st\<lparr>au_sessions := s'\<rparr>)))"

definition LogoutAll :: "'s AuthService \<Rightarrow> ID \<Rightarrow> 's auth_state \<Rightarrow> auth_error option \<times> 's auth_state" where
  "LogoutAll svc userID st =
     (case ss_DeleteByUserID (as_sessionStore svc) userID (au_sessions st) of
        (Some err, s') \<Rightarrow> (Some (internal ''failed to delete sessions'' err), st\<lparr>au_sessions := s'\<rparr>)
      | (None, s') \<Rightarrow> (None, st\<lparr>au_sessions := s'\<rparr>))"

definition ValidateAccessToken ::
  "'s AuthService \<Rightarrow> instant \<Rightarrow> string \<Rightarrow> 's auth_state \<Rightarrow> (auth_error + TokenClaims) \<times> 's auth_state" where
  "ValidateAccessToken svc now tokenString st =
     (case ValidateToken svc now tokenString of
        Inl err \<Rightarrow> (Inl err, st)
      | Inr claims \<Rightarrow>
          if tc_TokenType claims \<noteq> TokenTypeAccess then (Inl (InvalidTokenError ''not an access token''), st)
          else case valid_session svc now (tc_SessionID claims) (au_sessions st) of
            Inl err \<Rightarrow> (Inl err, st)
          | Inr session \<Rightarrow>
              (Inr claims,
               st\<lparr>au_sessions := snd (ss_Touch (as_sessionStore svc) now (tc_SessionID claims) (au_sessions st))\<rparr>))"

definition GetUserFromToken ::
  "'s AuthService \<Rightarrow> instant \<Rightarrow> string \<Rightarrow> 's auth_state \<Rightarrow> (auth_error + User) \<times> 's auth_state" where
  "GetUserFromToken svc now tokenString st =
     (case ValidateAccessToken svc now tokenString st of
        (Inl err, st') \<Rightarrow> (Inl err, st')
      | (Inr claims, st') \<Rightarrow>
          (case usr_GetByID (tc_UserID claims) (au_db st') of
             (Inl err, _) \<Rightarrow> (Inl (if IsNotFound err then unauthorized ''user not found''
                                   else internal ''failed to retrieve user'' err), st')
           | (Inr user, _) \<Rightarrow>
               (if \<not> IsActive user then Inl (unauthorized ''account is not active'') else Inr user, st')))"

definition as_HashPassword :: "'s AuthService \<Rightarrow> string \<Rightarrow> auth_error + string" where
  "as_HashPassword svc password =
     (case bc_hash (as_bcrypt svc) password of
        Inl err \<Rightarrow> Inl (internal ''failed to hash password'' err) | Inr h \<Rightarrow> Inr h)"

section \<open>Sequences of calls\<close>

text \<open>
  What happens to the state of the service: its own calls, and any other work on the database
  (\<open>OtherWork\<close>), which does not touch the sessions.
\<close>

datatype auth_call =
    CallLogin string instant LoginInput string string
  | CallRefreshToken string instant string
  | CallLogout string
  | CallLogoutAll ID
  | CallValidateAccessToken instant string
  | CallGetUserFromToken instant string
  | OtherWork db

fun auth_run :: "'s AuthService \<Rightarrow> auth_call \<Rightarrow> 's auth_state \<Rightarrow> 's auth_state" where
  "auth_run svc (CallLogin gen now input userAgent ipAddress) st = snd (Login svc gen now input userAgent ipAddress st)"
| "auth_run svc (CallRefreshToken gen now tok) st = snd (RefreshToken svc gen now tok st)"
| "auth_run svc (CallLogout sid) st = snd (as_Logout svc sid st)"
| "auth_run svc (CallLogoutAll uid) st = snd (LogoutAll svc uid st)"
| "auth_run svc (CallValidateAccessToken now tok) st = snd (ValidateAccessToken svc now tok st)"
| "auth_run svc (CallGetUserFromToken now tok) st = snd (GetUserFromToken svc now tok st)"
| "auth_run svc (OtherWork d) st = st\<lparr>au_db := d\<rparr>"

text \<open>The UUID a call may give to a new session.\<close>

fun generated :: "auth_call \<Rightarrow> string option" where
  "generated (CallLogin gen _ _ _ _) = Some gen"
| "generated (CallRefreshToken gen _ _) = Some gen"
| "generated _ = None"

section \<open>The service over a store\<close>

lemma session_of_pair:
  assumes "generateTokenPair svc gen now user = Inr (pair, session)"
  shows "session = NewAuthSession now gen (usr_ID user) (hashToken svc (tp_RefreshToken pair))
      (now + ac_RefreshExpiration (as_config svc))"
  using assms by (auto simp: generateTokenPair_def Let_def NewTokenPair_def split: sum.splits)

text \<open>
  What the service relies on of the JWT library for the claims it signs: the token is not empty, and
  with the same key under HS256 it parses back to the claims from \<^verbatim>\<open>nbf\<close> on and before \<^verbatim>\<open>exp\<close>; at any other time
  parsing fails with an error that wraps the cause.
\<close>

definition signs :: "JWT \<Rightarrow> string \<Rightarrow> jwtClaims \<Rightarrow> string \<Rightarrow> bool" where
  "signs jwt secret c t \<longleftrightarrow> jwt_sign jwt secret c = Inr t \<and> t \<noteq> [] \<and>
     (\<forall>keyf now. keyf (SigningMethodHMAC ''HS256'') = Inr secret \<longrightarrow>
        (if jc_NotBefore c * Second \<le> now \<and> now < jc_ExpiresAt c * Second then jwt_parse jwt keyf now t = Inr c
         else \<exists>text. jwt_parse jwt keyf now t = Inl (JwtError text)))"

lemma ValidateToken_signed:
  assumes "signs (as_jwt svc) (ac_JWTSecret (as_config svc)) (token_claims typ sid now expiry user) tok"
    and "now \<le> t"
  shows "t < expiry div Second * Second \<Longrightarrow>
      ValidateToken svc t tok = Inr (jc_TokenClaims (token_claims typ sid now expiry user))"
    and "\<not> t < expiry div Second * Second \<Longrightarrow> \<exists>text. ValidateToken svc t tok = Inl (InvalidTokenError text)"
  using assms whole_second [of now]
    conjunct2 [OF conjunct2 [OF assms(1) [unfolded signs_def]], rule_format,
      of "keyfunc (ac_JWTSecret (as_config svc))" t]
  by (auto simp: ValidateToken_def keyfunc_def token_claims_def NewNumericDate_def split: if_splits)

lemma generateTokenPair_signed:
  assumes "signs (as_jwt svc) (ac_JWTSecret (as_config svc))
      (token_claims TokenTypeAccess gen now (now + ac_JWTExpiration (as_config svc)) user) access"
    and "signs (as_jwt svc) (ac_JWTSecret (as_config svc))
      (token_claims TokenTypeRefresh gen now (now + ac_RefreshExpiration (as_config svc)) user) refresh"
  shows "generateTokenPair svc gen now user =
     Inr (NewTokenPair access refresh (now + ac_JWTExpiration (as_config svc)) (now + ac_RefreshExpiration (as_config svc)),
          NewAuthSession now gen (usr_ID user) (hashToken svc refresh) (now + ac_RefreshExpiration (as_config svc)))"
  using assms by (simp add: generateTokenPair_def signs_def Let_def)

lemma GetByUsername_user:
  assumes "GetByUsername name d = (Inr u, d')"
  shows "d' = d \<and> (\<exists>r \<in> set (db_users d). EqualFold (ur_username r) name \<and> user_alive r \<and> u = toUser r)"
proof (cases "find (\<lambda>r. EqualFold (ur_username r) name \<and> user_alive r) (db_users d)")
  case (Some r)
  with assms show ?thesis
    using find_SomeD [OF Some] by (auto simp: GetByUsername_def get_user_def)
qed (use assms in \<open>simp add: GetByUsername_def get_user_def\<close>)

locale auth_over_store = session_store +
  fixes svc :: "'a AuthService"
  assumes sessionStore: "as_sessionStore svc = store"
begin

lemma valid_session_gone:
  "lookup s k = None \<Longrightarrow> \<not> is_ok (valid_session svc now k s)"
  by (simp add: valid_session_def sessionStore get)

lemma valid_session_found:
  "valid_session svc now k s = Inr x \<longleftrightarrow> lookup s k = Some x \<and> Session_IsValid now x"
  by (auto simp: valid_session_def sessionStore get split: option.splits)

lemma start_session_sessions:
  "au_sessions (snd (start_session svc gen now user ua ip st)) =
     (case generateTokenPair svc gen now user of Inl _ \<Rightarrow> au_sessions st
      | Inr (_, session) \<Rightarrow> snd (ss_Create store (au_db st)
          (session\<lparr>ssn_UserAgent := ua, ssn_IPAddress := ip\<rparr>) (au_sessions st)))"
  by (simp add: start_session_def sessionStore split: sum.splits prod.splits option.splits)

lemma start_session_db [simp]: "au_db (snd (start_session svc gen now user ua ip st)) = au_db st"
  by (simp add: start_session_def split: sum.splits prod.splits option.splits)

lemma start_session_lookup:
  assumes "k \<noteq> gen"
  shows "lookup (au_sessions (snd (start_session svc gen now user ua ip st))) k = lookup (au_sessions st) k"
proof (cases "generateTokenPair svc gen now user")
  case (Inr p)
  then obtain pair session where p: "generateTokenPair svc gen now user = Inr (pair, session)"
    by (cases p) auto
  then have "ssn_ID session = gen"
    by (simp add: session_of_pair [OF p] NewAuthSession_def)
  with p assms show ?thesis
    by (simp add: start_session_sessions create_other)
qed (simp add: start_session_sessions)

lemma start_session_keyed:
  "keyed (au_sessions st) \<Longrightarrow> keyed (au_sessions (snd (start_session svc gen now user ua ip st)))"
  by (simp add: start_session_sessions keyed_preserved split: sum.split prod.split)

text \<open>The sessions after each call, in terms of the store's operations.\<close>

lemma RefreshToken_sessions:
  obtains (same) "snd (RefreshToken svc gen now tok st) = st"
  | (mismatch) claims session where "ValidateToken svc now tok = Inr claims"
      "lookup (au_sessions st) (tc_SessionID claims) = Some session"
      "snd (RefreshToken svc gen now tok st) =
         st\<lparr>au_sessions := snd (ss_Update store (Session_Revoke session) (au_sessions st))\<rparr>"
  | (rotated) claims session user where "ValidateToken svc now tok = Inr claims"
      "lookup (au_sessions st) (tc_SessionID claims) = Some session"
      "RefreshToken svc gen now tok st =
         start_session svc gen now user (ssn_UserAgent session) (ssn_IPAddress session)
           (st\<lparr>au_sessions := snd (ss_Delete store (ssn_ID session) (au_sessions st))\<rparr>)"
proof (cases "RefreshTokenInput_Validate tok = [] \<and> (\<exists>claims session.
    ValidateToken svc now tok = Inr claims \<and> tc_TokenType claims = TokenTypeRefresh \<and>
    valid_session svc now (tc_SessionID claims) (au_sessions st) = Inr session)")
  case True
  then obtain claims session where c: "ValidateToken svc now tok = Inr claims" "tc_TokenType claims = TokenTypeRefresh"
      "valid_session svc now (tc_SessionID claims) (au_sessions st) = Inr session" and v: "RefreshTokenInput_Validate tok = []"
    by blast
  have l: "lookup (au_sessions st) (tc_SessionID claims) = Some session"
    using c(3) by (simp add: valid_session_found)
  show thesis
  proof (cases "ssn_RefreshTokenHash session = hashToken svc tok")
    case False
    show thesis
      by (rule mismatch [OF c(1) l]) (simp add: RefreshToken_def v c False sessionStore)
  next
    case h: True
    show thesis
    proof (cases "\<exists>user d. usr_GetByID (ssn_UserID session) (au_db st) = (Inr user, d) \<and> IsActive user")
      case True
      then obtain user d where u: "usr_GetByID (ssn_UserID session) (au_db st) = (Inr user, d)" "IsActive user"
        by blast
      show thesis
        by (rule rotated [OF c(1) l]) (simp add: RefreshToken_def v c h u sessionStore)
    next
      case False
      then show thesis
        by (intro same) (auto simp: RefreshToken_def v c h split: prod.splits sum.splits)
    qed
  qed
next
  case False
  then show thesis
    by (intro same) (auto simp: RefreshToken_def split: sum.splits)
qed

lemma auth_run_gone:
  assumes "keyed (au_sessions st)" and "lookup (au_sessions st) k = None" and "generated call \<noteq> Some k"
  shows "keyed (au_sessions (auth_run svc call st)) \<and> lookup (au_sessions (auth_run svc call st)) k = None"
proof (cases call)
  case (CallLogin gen now input ua ip)
  have "auth_run svc call st = st \<or>
      (\<exists>user. au_sessions (auth_run svc call st) = au_sessions (snd (start_session svc gen now user ua ip st)))"
    by (auto simp: CallLogin Login_def split: prod.splits sum.splits) (metis snd_conv)+
  with assms CallLogin show ?thesis
    by (auto simp: start_session_lookup start_session_keyed)
next
  case (CallRefreshToken gen now tok)
  show ?thesis
  proof (cases rule: RefreshToken_sessions [of gen now tok st])
    case (mismatch claims session)
    then show ?thesis
      using assms CallRefreshToken by (auto simp: keyed_preserved update_revoked)
  next
    case (rotated claims session user)
    then show ?thesis
      using assms CallRefreshToken
      by (simp add: start_session_lookup start_session_keyed keyed_preserved delete)
  qed (use assms CallRefreshToken in simp)
next
  case (CallLogout sid)
  then show ?thesis
    using assms delete [of sid "au_sessions st"] keyed_preserved(3) [of "au_sessions st" sid]
    by (auto simp: as_Logout_def sessionStore split: sum.splits prod.splits option.splits)
next
  case (CallLogoutAll uid)
  then show ?thesis
    using assms delete_user [of "au_sessions st" uid k] keyed_preserved(4) [of "au_sessions st" uid]
    by (auto simp: LogoutAll_def sessionStore split: prod.splits option.splits)
next
  case (CallValidateAccessToken now tok)
  then show ?thesis
    using assms by (auto simp: ValidateAccessToken_def sessionStore keyed_preserved touch split: sum.splits)
next
  case (CallGetUserFromToken now tok)
  have "au_sessions (snd (GetUserFromToken svc now tok st)) = au_sessions (snd (ValidateAccessToken svc now tok st))"
    by (simp add: GetUserFromToken_def split: prod.splits sum.splits)
  then show ?thesis
    using assms CallGetUserFromToken
    by (auto simp: ValidateAccessToken_def sessionStore keyed_preserved touch split: sum.splits)
qed (use assms in simp)

lemma auth_runs_gone:
  assumes "keyed (au_sessions st)" and "lookup (au_sessions st) k = None" and "\<forall>call \<in> set calls. generated call \<noteq> Some k"
  shows "lookup (au_sessions (fold (auth_run svc) calls st)) k = None"
  using assms by (induction calls arbitrary: st) (auto simp: auth_run_gone)

text \<open>Tokens of a session that is gone are refused, and nothing changes.\<close>

lemma gone_refused:
  assumes "lookup (au_sessions st) (tc_SessionID claims) = None" and "ValidateToken svc now tok = Inr claims"
  shows "\<not> is_ok (fst (ValidateAccessToken svc now tok st)) \<and> snd (ValidateAccessToken svc now tok st) = st \<and>
     \<not> is_ok (fst (RefreshToken svc gen now tok st)) \<and> snd (RefreshToken svc gen now tok st) = st"
  using valid_session_gone [OF assms(1), of now] assms(2)
  by (auto simp: ValidateAccessToken_def RefreshToken_def split: sum.splits)

text \<open>A session that is opened, and what its tokens are good for.\<close>

lemma start_session_opens:
  assumes "generateTokenPair svc gen now user = Inr (pair, session)"
    and "lookup (au_sessions st) gen = None" and "list_ex (\<lambda>u. ur_id u = usr_ID user) (db_users (au_db st))"
  shows "\<exists>s'. start_session svc gen now user ua ip st =
      (Inr \<lparr>ar_User = UserInfoFromUser user, ar_Tokens = pair\<rparr>, st\<lparr>au_sessions := s'\<rparr>) \<and>
     lookup s' = (lookup (au_sessions st))(gen \<mapsto> kept (session\<lparr>ssn_UserAgent := ua, ssn_IPAddress := ip\<rparr>))"
proof -
  let ?x = "session\<lparr>ssn_UserAgent := ua, ssn_IPAddress := ip\<rparr>"
  have x: "ssn_ID ?x = gen" "ssn_UserID ?x = usr_ID user"
    by (simp_all add: session_of_pair [OF assms(1)] NewAuthSession_def)
  obtain s' where "ss_Create store (au_db st) ?x (au_sessions st) = (None, s')"
      "lookup s' = (lookup (au_sessions st))(gen \<mapsto> kept ?x)"
    using create_new [of "au_sessions st" ?x "au_db st"] assms(2,3) x by (metis prod.collapse)
  then show ?thesis
    using assms(1) by (auto simp: start_session_def sessionStore)
qed

lemma Login_opens:
  assumes "LoginInput_Validate input = []" and "GetByUsername (li_Username input) (au_db st) = (Inr user, d)"
    and "IsActive user" and "bc_check (as_bcrypt svc) (usr_PasswordHash user) (li_Password input)"
    and "generateTokenPair svc gen now user = Inr (pair, session)" and "lookup (au_sessions st) gen = None"
  shows "\<exists>s'. Login svc gen now input ua ip st =
      (Inr \<lparr>ar_User = UserInfoFromUser user, ar_Tokens = pair\<rparr>,
       st\<lparr>au_sessions := s', au_db := snd (UpdateLastLogin now (usr_ID user) (au_db st))\<rparr>) \<and>
     lookup s' = (lookup (au_sessions st))(gen \<mapsto> kept (session\<lparr>ssn_UserAgent := ua, ssn_IPAddress := ip\<rparr>))"
proof -
  have "list_ex (\<lambda>u. ur_id u = usr_ID user) (db_users (au_db st))"
    using GetByUsername_user [OF assms(2)] by (auto simp: list_ex_iff toUser_def)
  then show ?thesis
    using start_session_opens [OF assms(5,6), of ua ip] assms(1-4) by (auto simp: Login_def)
qed

lemma access_token_accepted:
  assumes "signs (as_jwt svc) (ac_JWTSecret (as_config svc)) (token_claims TokenTypeAccess gen now expiry user) tok"
    and "lookup (au_sessions st) gen = Some session" and "\<not> ssn_IsRevoked session"
    and "expiry div Second * Second \<le> ssn_ExpiresAt session" and "now \<le> t" and "t < expiry div Second * Second"
  shows "fst (ValidateAccessToken svc t tok st) = Inr (jc_TokenClaims (token_claims TokenTypeAccess gen now expiry user))"
proof -
  have "ValidateToken svc t tok = Inr (jc_TokenClaims (token_claims TokenTypeAccess gen now expiry user))"
    using ValidateToken_signed [OF assms(1)] assms(5,6) by simp
  moreover have "valid_session svc t gen (au_sessions st) = Inr session"
    using assms(2-6) by (simp add: valid_session_found Session_IsValid_def Session_IsExpired_def)
  ultimately show ?thesis
    by (simp add: ValidateAccessToken_def token_claims_def)
qed

lemma refresh_accepted:
  assumes "ValidateToken svc t tok = Inr claims" and "tok \<noteq> []" and "tc_TokenType claims = TokenTypeRefresh"
    and "lookup (au_sessions st) (tc_SessionID claims) = Some session" and "Session_IsValid t session"
    and "ssn_RefreshTokenHash session = hashToken svc tok"
    and "usr_GetByID (ssn_UserID session) (au_db st) = (Inr user, d)" and "IsActive user"
    and "generateTokenPair svc gen t user = Inr (pair, session')"
    and "keyed (au_sessions st)" and "lookup (au_sessions st) gen = None"
  shows "\<exists>s'. RefreshToken svc gen t tok st =
      (Inr \<lparr>ar_User = UserInfoFromUser user, ar_Tokens = pair\<rparr>, st\<lparr>au_sessions := s'\<rparr>) \<and>
     lookup s' = (lookup (au_sessions st))(tc_SessionID claims := None, gen \<mapsto>
       kept (session'\<lparr>ssn_UserAgent := ssn_UserAgent session, ssn_IPAddress := ssn_IPAddress session\<rparr>))"
proof -
  let ?st = "st\<lparr>au_sessions := snd (ss_Delete store (tc_SessionID claims) (au_sessions st))\<rparr>"
  have sid: "ssn_ID session = tc_SessionID claims"
    using get_ID [OF assms(10,4)] .
  have "RefreshToken svc gen t tok st =
      start_session svc gen t user (ssn_UserAgent session) (ssn_IPAddress session) ?st"
    using assms(1-8) by (simp add: RefreshToken_def RefreshTokenInput_Validate_def valid_session_def
        sessionStore get sid)
  moreover have "list_ex (\<lambda>u. ur_id u = usr_ID user) (db_users (au_db ?st))"
    using GetByID_user [OF assms(7)] by (auto simp: list_ex_iff toUser_def)
  moreover have "lookup (au_sessions ?st) gen = None"
    using assms(11) by (simp add: delete)
  ultimately show ?thesis
    using start_session_opens [OF assms(9), of ?st] by (auto simp: delete)
qed

lemma refresh_success:
  assumes "RefreshToken svc gen now tok st = (Inr resp, st1)" and "ValidateToken svc now tok = Inr claims"
    and "keyed (au_sessions st)" and "gen \<noteq> tc_SessionID claims"
  shows "keyed (au_sessions st1)" and "lookup (au_sessions st1) (tc_SessionID claims) = None"
    and "\<exists>user. ar_User resp = UserInfoFromUser user"
proof -
  obtain session where s: "lookup (au_sessions st) (tc_SessionID claims) = Some session"
    using assms(1,2) by (auto simp: RefreshToken_def valid_session_found split: if_splits sum.splits)
  obtain user where run: "start_session svc gen now user (ssn_UserAgent session) (ssn_IPAddress session)
      (st\<lparr>au_sessions := snd (ss_Delete store (ssn_ID session) (au_sessions st))\<rparr>) = (Inr resp, st1)"
    using assms(1,2) s
    by (auto simp: RefreshToken_def valid_session_found sessionStore split: if_splits sum.splits prod.splits)
  let ?st = "st\<lparr>au_sessions := snd (ss_Delete store (ssn_ID session) (au_sessions st))\<rparr>"
  have sid: "ssn_ID session = tc_SessionID claims"
    using get_ID [OF assms(3) s] .
  show "keyed (au_sessions st1)"
    using start_session_keyed [of ?st gen now user "ssn_UserAgent session" "ssn_IPAddress session"] assms(3)
    by (simp add: run keyed_preserved)
  show "lookup (au_sessions st1) (tc_SessionID claims) = None"
    using start_session_lookup [of "tc_SessionID claims" gen now user "ssn_UserAgent session" "ssn_IPAddress session" ?st]
      assms(4) unfolding run by (simp add: delete sid)
  show "\<exists>user. ar_User resp = UserInfoFromUser user"
    using run by (auto simp: start_session_def split: sum.splits prod.splits option.splits)
qed

lemma validate_again:
  assumes "fst (ValidateAccessToken svc now tok st) = Inr claims"
  shows "fst (ValidateAccessToken svc now tok (snd (ValidateAccessToken svc now tok st))) = Inr claims"
    and "lookup (au_sessions st) k = None \<Longrightarrow> lookup (au_sessions (snd (ValidateAccessToken svc now tok st))) k = None"
proof -
  obtain session where v: "ValidateToken svc now tok = Inr claims" "tc_TokenType claims = TokenTypeAccess"
      "lookup (au_sessions st) (tc_SessionID claims) = Some session" "Session_IsValid now session"
    using assms by (auto simp: ValidateAccessToken_def valid_session_found split: sum.splits if_splits)
  have "valid_session svc now (tc_SessionID claims) (au_sessions st) = Inr session"
    using v by (simp add: valid_session_found)
  then have st': "snd (ValidateAccessToken svc now tok st) =
      st\<lparr>au_sessions := snd (ss_Touch store now (tc_SessionID claims) (au_sessions st))\<rparr>"
    using v(1,2) by (simp add: ValidateAccessToken_def sessionStore)
  have "valid_session svc now (tc_SessionID claims) (au_sessions (snd (ValidateAccessToken svc now tok st))) =
      Inr (Session_Touch (clock now) session)"
    using v(3,4) by (simp add: st' valid_session_found touch Session_Touch_def Session_IsValid_def Session_IsExpired_def)
  then show "fst (ValidateAccessToken svc now tok (snd (ValidateAccessToken svc now tok st))) = Inr claims"
    using v(1,2) by (simp add: ValidateAccessToken_def [of svc now tok "snd (ValidateAccessToken svc now tok st)"])
  show "lookup (au_sessions (snd (ValidateAccessToken svc now tok st))) k = None" if "lookup (au_sessions st) k = None"
    using that by (auto simp: st' touch)
qed

end

section \<open>The service over the two stores\<close>

interpretation mem_auth: auth_over_store NewInMemorySessionStore mem_keyed "\<lambda>m. m" "\<lambda>x. x" "\<lambda>t. t"
  "NotFoundError ''session''" "NewAuthService cfg NewInMemorySessionStore jwt sha256 bc" for cfg jwt sha256 bc
  by unfold_locales (simp add: NewAuthService_def)

interpretation db_auth: auth_over_store NewDBSessionStore ds_keyed ds_lookup ds_kept "\<lambda>t. t div Second * Second"
  "\<lambda>_. OtherError ''session not found''" "NewAuthService cfg NewDBSessionStore jwt sha256 bc" for cfg jwt sha256 bc
  by unfold_locales (simp add: NewAuthService_def)

abbreviation sqlite_auth :: "AuthConfig \<Rightarrow> JWT \<Rightarrow> (string \<Rightarrow> string) \<Rightarrow> BCrypt \<Rightarrow> sessionRow list AuthService" where
  "sqlite_auth cfg jwt sha256 bc \<equiv> NewAuthService cfg NewDBSessionStore jwt sha256 bc"

lemma NewAuthService_fields [simp]:
  "as_config (NewAuthService cfg store jwt sha256 bc) = cfg" "as_jwt (NewAuthService cfg store jwt sha256 bc) = jwt"
  "as_bcrypt (NewAuthService cfg store jwt sha256 bc) = bc" "as_sha256 (NewAuthService cfg store jwt sha256 bc) = sha256"
  "as_sessionStore (NewAuthService cfg store jwt sha256 bc) = store"
  by (simp_all add: NewAuthService_def)

lemma Logout_removes:
  assumes "as_Logout (sqlite_auth cfg jwt sha256 bc) sid st = (None, st')"
  shows "ds_lookup (au_sessions st') sid = None" and "ds_keyed (au_sessions st) \<Longrightarrow> ds_keyed (au_sessions st')"
  using assms dbs.delete [of sid "au_sessions st"] dbs.keyed_preserved(3) [of "au_sessions st" sid]
  by (auto simp: as_Logout_def dbs.get IsNotFound_def split: option.splits sum.splits prod.splits if_splits)

text \<open>
  C7. Logging out is final. Once \<^verbatim>\<open>Logout\<close> of a session has returned without an error, no token of that
  session is accepted again, neither as an access token nor for a refresh: not after any sequence of
  later logins, refreshes, logouts and validations that generate other session IDs, and not after any
  other work on the database.
\<close>

theorem logout_is_final:
  assumes "ds_keyed (au_sessions st)" and "as_Logout (sqlite_auth cfg jwt sha256 bc) sid st = (None, st1)"
    and "\<forall>call \<in> set calls. generated call \<noteq> Some sid"
    and "st2 = fold (auth_run (sqlite_auth cfg jwt sha256 bc)) calls st1"
    and "ValidateToken (sqlite_auth cfg jwt sha256 bc) now tok = Inr claims" and "tc_SessionID claims = sid"
  shows "\<not> is_ok (fst (ValidateAccessToken (sqlite_auth cfg jwt sha256 bc) now tok st2)) \<and>
     \<not> is_ok (fst (RefreshToken (sqlite_auth cfg jwt sha256 bc) gen now tok st2))"
proof -
  have "ds_lookup (au_sessions st2) sid = None"
    using db_auth.auth_runs_gone [OF Logout_removes(2,1) assms(3)] assms(1,2,4) by simp
  then show ?thesis
    using db_auth.gone_refused [of st2 claims] assms(5,6) by blast
qed

text \<open>
  \<^verbatim>\<open>LogoutAll\<close> ends every session of the user for good: no token of a session the user had is accepted
  after it, whatever happens in between, while the sessions of other users are not touched.
\<close>

theorem logout_all_is_final:
  assumes "ds_keyed (au_sessions st)" and "LogoutAll (sqlite_auth cfg jwt sha256 bc) uid st = (res, st1)"
    and "st2 = fold (auth_run (sqlite_auth cfg jwt sha256 bc)) calls st1"
  shows "res = None \<and>
     (\<forall>sid x. ds_lookup (au_sessions st) sid = Some x \<longrightarrow> ssn_UserID x \<noteq> uid \<longrightarrow> ds_lookup (au_sessions st1) sid = Some x) \<and>
     (\<forall>sid x tok claims now gen. ds_lookup (au_sessions st) sid = Some x \<longrightarrow> ssn_UserID x = uid \<longrightarrow>
        (\<forall>call \<in> set calls. generated call \<noteq> Some sid) \<longrightarrow>
        ValidateToken (sqlite_auth cfg jwt sha256 bc) now tok = Inr claims \<longrightarrow> tc_SessionID claims = sid \<longrightarrow>
        \<not> is_ok (fst (ValidateAccessToken (sqlite_auth cfg jwt sha256 bc) now tok st2)) \<and>
        \<not> is_ok (fst (RefreshToken (sqlite_auth cfg jwt sha256 bc) gen now tok st2)))"
proof -
  have st1: "res = None" "au_sessions st1 = snd (ds_DeleteByUserID uid (au_sessions st))"
    using assms(2) by (auto simp: LogoutAll_def NewDBSessionStore_def ds_DeleteByUserID_def)
  have look: "ds_lookup (au_sessions st1) k =
      (case ds_lookup (au_sessions st) k of None \<Rightarrow> None | Some x \<Rightarrow> if ssn_UserID x = uid then None else Some x)" for k
    using ds_lookup_delete_user [OF assms(1), of uid k] by (simp add: st1(2) ds_DeleteByUserID_def)
  have keyed: "ds_keyed (au_sessions st1)"
    using assms(1) by (simp add: st1(2) ds_DeleteByUserID_def ds_keyed_def distinct_map_filter)
  have "ds_lookup (au_sessions st2) sid = None"
    if "ds_lookup (au_sessions st) sid = Some x" "ssn_UserID x = uid" "\<forall>call \<in> set calls. generated call \<noteq> Some sid" for sid x
    unfolding assms(3) by (rule db_auth.auth_runs_gone [OF keyed _ that(3)]) (simp add: look that)
  then have gone: "\<not> is_ok (fst (ValidateAccessToken (sqlite_auth cfg jwt sha256 bc) now tok st2)) \<and>
      \<not> is_ok (fst (RefreshToken (sqlite_auth cfg jwt sha256 bc) gen now tok st2))"
    if "ds_lookup (au_sessions st) sid = Some x" "ssn_UserID x = uid" "\<forall>call \<in> set calls. generated call \<noteq> Some sid"
      "ValidateToken (sqlite_auth cfg jwt sha256 bc) now tok = Inr claims" "tc_SessionID claims = sid"
    for sid x tok claims now gen
    using db_auth.gone_refused [of st2 claims] that by metis
  show ?thesis
    by (intro conjI allI impI) (simp_all add: st1(1) look gone)
qed

text \<open>
  C8. A login opens a session that works. With the right password of an active user and a fresh UUID, and
  as far as the JWT library signs the claims, \<^verbatim>\<open>Login\<close> answers with both tokens; from then on until the
  second in which the access token expires the access token is accepted with the claims of the user,
  whatever else happens to the database, and from that second on it is refused.
\<close>

theorem login_opens_session:
  assumes "li_Username input \<noteq> []" and "li_Password input \<noteq> []"
    and "GetByUsername (li_Username input) (au_db st) = (Inr user, d)" and "IsActive user"
    and "bc_check bc (usr_PasswordHash user) (li_Password input)"
    and "signs jwt (ac_JWTSecret cfg) (token_claims TokenTypeAccess gen now (now + ac_JWTExpiration cfg) user) access"
    and "signs jwt (ac_JWTSecret cfg) (token_claims TokenTypeRefresh gen now (now + ac_RefreshExpiration cfg) user) refresh"
    and "ds_lookup (au_sessions st) gen = None" and "ac_JWTExpiration cfg \<le> ac_RefreshExpiration cfg"
  shows "\<exists>resp st'. Login (sqlite_auth cfg jwt sha256 bc) gen now input ua ip st = (Inr resp, st') \<and>
     ar_User resp = UserInfoFromUser user \<and>
     tp_AccessToken (ar_Tokens resp) = access \<and> tp_RefreshToken (ar_Tokens resp) = refresh \<and>
     (\<forall>t d'. now \<le> t \<longrightarrow> (if t < (now + ac_JWTExpiration cfg) div Second * Second
        then fst (ValidateAccessToken (sqlite_auth cfg jwt sha256 bc) t access (st'\<lparr>au_db := d'\<rparr>)) =
          Inr (jc_TokenClaims (token_claims TokenTypeAccess gen now (now + ac_JWTExpiration cfg) user))
        else \<not> is_ok (fst (ValidateAccessToken (sqlite_auth cfg jwt sha256 bc) t access (st'\<lparr>au_db := d'\<rparr>)))))"
proof -
  let ?svc = "sqlite_auth cfg jwt sha256 bc"
  let ?x = "(NewAuthSession now gen (usr_ID user) (hashToken ?svc refresh) (now + ac_RefreshExpiration cfg))
      \<lparr>ssn_UserAgent := ua, ssn_IPAddress := ip\<rparr>"
  have pair: "generateTokenPair ?svc gen now user = Inr (NewTokenPair access refresh (now + ac_JWTExpiration cfg)
      (now + ac_RefreshExpiration cfg),
      NewAuthSession now gen (usr_ID user) (hashToken ?svc refresh) (now + ac_RefreshExpiration cfg))"
    using generateTokenPair_signed [of ?svc gen now user access refresh] assms(6,7) by simp
  obtain s' where s': "Login ?svc gen now input ua ip st =
      (Inr \<lparr>ar_User = UserInfoFromUser user, ar_Tokens = NewTokenPair access refresh (now + ac_JWTExpiration cfg)
        (now + ac_RefreshExpiration cfg)\<rparr>,
       st\<lparr>au_sessions := s', au_db := snd (UpdateLastLogin now (usr_ID user) (au_db st))\<rparr>)"
      "ds_lookup s' gen = Some (ds_kept ?x)"
    using db_auth.Login_opens [OF _ assms(3,4) _ pair assms(8), of ua ip] assms(1,2,5)
    by (auto simp: LoginInput_Validate_def)
  have "(now + ac_JWTExpiration cfg) div Second * Second \<le> (now + ac_RefreshExpiration cfg) div Second * Second"
    using assms(9) by (intro mult_right_mono zdiv_mono1) (simp_all add: Second_def)
  also have "\<dots> \<le> ssn_ExpiresAt (ds_kept ?x)"
    using dbs.kept_expiry(1) [of ?x] by (simp add: NewAuthSession_def)
  finally have live: "(now + ac_JWTExpiration cfg) div Second * Second \<le> ssn_ExpiresAt (ds_kept ?x)"
    "\<not> ssn_IsRevoked (ds_kept ?x)"
    by (simp_all add: dbs.kept_fields NewAuthSession_def)
  have ok: "fst (ValidateAccessToken ?svc t access st'') =
      Inr (jc_TokenClaims (token_claims TokenTypeAccess gen now (now + ac_JWTExpiration cfg) user))"
    if "now \<le> t" "t < (now + ac_JWTExpiration cfg) div Second * Second" "au_sessions st'' = s'" for t st''
    using db_auth.access_token_accepted [of cfg jwt sha256 bc gen now "now + ac_JWTExpiration cfg" user access st''
        "ds_kept ?x" t] assms(6) live s'(2) that by simp
  have late: "\<not> is_ok (fst (ValidateAccessToken ?svc t access st''))"
    if "now \<le> t" "\<not> t < (now + ac_JWTExpiration cfg) div Second * Second" for t st''
    using ValidateToken_signed(2) [of ?svc TokenTypeAccess gen now "now + ac_JWTExpiration cfg" user access t]
      assms(6) that by (auto simp: ValidateAccessToken_def)
  show ?thesis
    unfolding s'(1) using ok late by (auto simp: NewTokenPair_def)
qed

text \<open>
  C37. A refresh token works once. After a successful refresh the old session is gone: every later refresh
  with the same token and every access token of the old session is refused, at any time and after any
  further calls. The refused refresh changes nothing, so the session the first refresh opened stays as
  it is, although the token has been used twice.
\<close>

theorem refresh_works_once:
  assumes "ds_keyed (au_sessions st)" and "RefreshToken (sqlite_auth cfg jwt sha256 bc) gen now tok st = (Inr resp, st1)"
    and "ValidateToken (sqlite_auth cfg jwt sha256 bc) now tok = Inr claims"
    and "\<forall>t c. ValidateToken (sqlite_auth cfg jwt sha256 bc) t tok = Inr c \<longrightarrow> c = claims"
    and "gen \<noteq> tc_SessionID claims" and "\<forall>call \<in> set calls. generated call \<noteq> Some (tc_SessionID claims)"
    and "st2 = fold (auth_run (sqlite_auth cfg jwt sha256 bc)) calls st1"
  shows "\<not> is_ok (fst (RefreshToken (sqlite_auth cfg jwt sha256 bc) gen' t tok st2)) \<and>
     snd (RefreshToken (sqlite_auth cfg jwt sha256 bc) gen' t tok st2) = st2 \<and>
     (\<forall>access c. ValidateToken (sqlite_auth cfg jwt sha256 bc) t access = Inr c \<longrightarrow>
        tc_SessionID c = tc_SessionID claims \<longrightarrow>
        \<not> is_ok (fst (ValidateAccessToken (sqlite_auth cfg jwt sha256 bc) t access st2)))"
proof -
  let ?svc = "sqlite_auth cfg jwt sha256 bc"
  note old = db_auth.refresh_success [OF assms(2,3,1,5)]
  have gone: "ds_lookup (au_sessions st2) (tc_SessionID claims) = None"
    unfolding assms(7) by (rule db_auth.auth_runs_gone [OF old(1,2) assms(6)])
  have "\<not> is_ok (fst (RefreshToken ?svc gen' t tok st2)) \<and> snd (RefreshToken ?svc gen' t tok st2) = st2"
  proof (cases "ValidateToken ?svc t tok")
    case (Inr c)
    with assms(4) have "ValidateToken ?svc t tok = Inr claims" by blast
    then show ?thesis
      using db_auth.gone_refused [OF gone] by blast
  qed (simp add: RefreshToken_def)
  moreover have "\<not> is_ok (fst (ValidateAccessToken ?svc t access st2))"
    if "ValidateToken ?svc t access = Inr c" "tc_SessionID c = tc_SessionID claims" for access c
    using db_auth.gone_refused [of st2 c cfg jwt sha256 bc t access] gone that by simp
  ultimately show ?thesis
    by blast
qed

section \<open>Witnesses\<close>

text \<open>A stand-in for the JWT library, a table of tokens and their claims, and two users.\<close>

definition toy_jwt :: "(string \<times> jwtClaims) list \<Rightarrow> JWT" where
  "toy_jwt table =
     \<lparr>jwt_sign = (\<lambda>secret c. case find (\<lambda>(t, c'). c' = c) table of
        None \<Rightarrow> Inl (OtherError ''no token'') | Some (t, _) \<Rightarrow> Inr t),
      jwt_parse = (\<lambda>keyf now t. case keyf (SigningMethodHMAC ''HS256'') of
        Inl _ \<Rightarrow> Inl (JwtError ''no key'')
      | Inr _ \<Rightarrow> (case map_of table t of None \<Rightarrow> Inl (JwtError ''token is malformed'')
          | Some c \<Rightarrow> if jc_NotBefore c * Second \<le> now \<and> now < jc_ExpiresAt c * Second then Inr c
                      else Inl (JwtError ''token is expired'')))\<rparr>"

lemma toy_signs:
  assumes "find (\<lambda>(t, c'). c' = c) table = Some (t, c)" and "map_of table t = Some c" and "t \<noteq> []"
  shows "signs (toy_jwt table) secret c t"
  using assms by (auto simp: signs_def toy_jwt_def)

definition auth_user :: "ID \<Rightarrow> string \<Rightarrow> UserRole \<Rightarrow> string \<Rightarrow> userRow" where
  "auth_user i name role hash =
     \<lparr>ur_id = i, ur_username = name, ur_email = name @ ''@x'', ur_password_hash = hash, ur_display_name = None,
      ur_role = role, ur_status = StatusActive, ur_avatar_url = None, ur_signature = [],
      ur_signature_html = [], ur_last_login_at = None, ur_deleted_at = None, ur_created_at = 0, ur_updated_at = 0\<rparr>"

definition auth_db :: db where
  "auth_db = users_db\<lparr>db_users := [auth_user ''u1'' ''ann'' RoleAdmin ''$secret-99'', auth_user ''u2'' ''vic'' RoleViewer ''$viewer-1'']\<rparr>"

definition toy_config :: AuthConfig where
  "toy_config = \<lparr>ac_JWTSecret = ''k'', ac_JWTExpiration = 60 * Second, ac_RefreshExpiration = 600 * Second\<rparr>"

definition ann :: User where
  "ann = toUser (auth_user ''u1'' ''ann'' RoleAdmin ''$secret-99'')"

definition vic :: User where
  "vic = toUser (auth_user ''u2'' ''vic'' RoleViewer ''$viewer-1'')"

definition toy_tokens :: "(string \<times> jwtClaims) list" where
  "toy_tokens =
     [(''A1'', token_claims TokenTypeAccess ''s1'' 0 (60 * Second) ann),
      (''R1'', token_claims TokenTypeRefresh ''s1'' 0 (600 * Second) ann),
      (''A2'', token_claims TokenTypeAccess ''s2'' (5 * Second) (65 * Second) ann),
      (''R2'', token_claims TokenTypeRefresh ''s2'' (5 * Second) (605 * Second) ann),
      (''AV'', token_claims TokenTypeAccess ''v1'' 0 (60 * Second) vic),
      (''RV'', token_claims TokenTypeRefresh ''v1'' 0 (600 * Second) vic)]"

abbreviation toy_auth :: "sessionRow list AuthService" where
  "toy_auth \<equiv> sqlite_auth toy_config (toy_jwt toy_tokens) (\<lambda>t. t) toy_bcrypt"

definition logged_in :: "sessionRow list auth_state" where
  "logged_in = snd (Login toy_auth ''s1'' 0 \<lparr>li_Username = ''Ann'', li_Password = ''secret-99''\<rparr> ''curl'' ''::1''
     \<lparr>au_db = auth_db, au_sessions = []\<rparr>)"

lemma toy_logout:
  "as_Logout toy_auth ''s1'' logged_in = (None, snd (as_Logout toy_auth ''s1'' logged_in))"
proof (rule prod_eqI)
  show "fst (as_Logout toy_auth ''s1'' logged_in) = fst (None, snd (as_Logout toy_auth ''s1'' logged_in))"
    by code_simp
qed simp

theorem logout_is_final_witness:
  "\<not> is_ok (fst (ValidateAccessToken toy_auth (2 * Second) ''A1''
       (fold (auth_run toy_auth) [OtherWork users_db] (snd (as_Logout toy_auth ''s1'' logged_in)))))"
proof -
  have "ds_keyed (au_sessions logged_in)" "ValidateToken toy_auth (2 * Second) ''A1'' =
      Inr (jc_TokenClaims (token_claims TokenTypeAccess ''s1'' 0 (60 * Second) ann))"
    by code_simp+
  then show ?thesis
    using logout_is_final [OF _ toy_logout, of "[OtherWork users_db]"] by (simp add: token_claims_def)
qed

theorem logout_all_is_final_witness:
  "fst (LogoutAll toy_auth ''u1'' logged_in) = None \<and>
   \<not> is_ok (fst (RefreshToken toy_auth ''s2'' (2 * Second) ''R1'' (snd (LogoutAll toy_auth ''u1'' logged_in))))"
proof -
  have facts: "ds_keyed (au_sessions logged_in)" "ValidateToken toy_auth (2 * Second) ''R1'' =
      Inr (jc_TokenClaims (token_claims TokenTypeRefresh ''s1'' 0 (600 * Second) ann))"
    "map_option ssn_UserID (ds_lookup (au_sessions logged_in) ''s1'') = Some ''u1''"
    by code_simp+
  then obtain x where "ds_lookup (au_sessions logged_in) ''s1'' = Some x" "ssn_UserID x = ''u1''"
    by auto
  then show ?thesis
    using logout_all_is_final [OF facts(1) surjective_pairing refl, of toy_config "toy_jwt toy_tokens" "\<lambda>t. t" toy_bcrypt
        "''u1''" "[]"] facts(2) by (simp add: token_claims_def)
qed

lemma toy_tokens_sign:
  "signs (toy_jwt toy_tokens) secret (token_claims TokenTypeAccess ''s1'' 0 (60 * Second) ann) ''A1''"
  "signs (toy_jwt toy_tokens) secret (token_claims TokenTypeRefresh ''s1'' 0 (600 * Second) ann) ''R1''"
  "signs (toy_jwt toy_tokens) secret (token_claims TokenTypeAccess ''s2'' (5 * Second) (65 * Second) ann) ''A2''"
  "signs (toy_jwt toy_tokens) secret (token_claims TokenTypeRefresh ''s2'' (5 * Second) (605 * Second) ann) ''R2''"
  by (rule toy_signs; code_simp)+

theorem login_opens_session_witness:
  "\<exists>resp st'. Login toy_auth ''s1'' 0 \<lparr>li_Username = ''Ann'', li_Password = ''secret-99''\<rparr> ''curl'' ''::1''
       \<lparr>au_db = auth_db, au_sessions = []\<rparr> = (Inr resp, st') \<and> tp_AccessToken (ar_Tokens resp) = ''A1'' \<and>
     fst (ValidateAccessToken toy_auth (3 * Second) ''A1'' (st'\<lparr>au_db := users_db\<rparr>)) =
       Inr (jc_TokenClaims (token_claims TokenTypeAccess ''s1'' 0 (60 * Second) ann)) \<and>
     \<not> is_ok (fst (ValidateAccessToken toy_auth (60 * Second) ''A1'' st'))"
proof -
  have facts: "GetByUsername ''Ann'' auth_db = (Inr ann, auth_db)" "IsActive ann"
    "bc_check toy_bcrypt (usr_PasswordHash ann) ''secret-99''" "ds_lookup [] ''s1'' = None"
    by code_simp+
  have cfg: "ac_JWTExpiration toy_config = 60 * Second" "ac_RefreshExpiration toy_config = 600 * Second" "Second > 0"
    by (simp_all add: toy_config_def Second_def)
  obtain resp st' where r: "Login toy_auth ''s1'' 0 \<lparr>li_Username = ''Ann'', li_Password = ''secret-99''\<rparr> ''curl'' ''::1''
       \<lparr>au_db = auth_db, au_sessions = []\<rparr> = (Inr resp, st')" "tp_AccessToken (ar_Tokens resp) = ''A1''"
    and v: "\<forall>t d'. 0 \<le> t \<longrightarrow> (if t < (0 + ac_JWTExpiration toy_config) div Second * Second
        then fst (ValidateAccessToken toy_auth t ''A1'' (st'\<lparr>au_db := d'\<rparr>)) =
          Inr (jc_TokenClaims (token_claims TokenTypeAccess ''s1'' 0 (0 + ac_JWTExpiration toy_config) ann))
        else \<not> is_ok (fst (ValidateAccessToken toy_auth t ''A1'' (st'\<lparr>au_db := d'\<rparr>))))"
    using login_opens_session [of "\<lparr>li_Username = ''Ann'', li_Password = ''secret-99''\<rparr>"
        "\<lparr>au_db = auth_db, au_sessions = []\<rparr>" ann auth_db toy_bcrypt "toy_jwt toy_tokens" toy_config "''s1''" 0 "''A1''" "''R1''"
        "\<lambda>t. t" "''curl''" "''::1''"] facts toy_tokens_sign(1,2) cfg by auto
  have "fst (ValidateAccessToken toy_auth (60 * Second) ''A1'' (st'\<lparr>au_db := au_db st'\<rparr>)) =
     fst (ValidateAccessToken toy_auth (60 * Second) ''A1'' st')" by simp
  with r v [rule_format, of "3 * Second" users_db] v [rule_format, of "60 * Second" "au_db st'"] cfg show ?thesis
    by (intro exI [of _ resp] exI [of _ st']) simp
qed

lemma toy_refresh:
  "\<exists>resp. RefreshToken toy_auth ''s2'' (5 * Second) ''R1'' logged_in =
     (Inr resp, snd (RefreshToken toy_auth ''s2'' (5 * Second) ''R1'' logged_in))"
proof -
  have "is_ok (fst (RefreshToken toy_auth ''s2'' (5 * Second) ''R1'' logged_in))"
    by code_simp
  then show ?thesis
    by (metis is_ok_iff prod.collapse)
qed

lemma toy_claims:
  "ValidateToken toy_auth t tok = Inr c \<longleftrightarrow> (\<exists>jc. map_of toy_tokens tok = Some jc \<and> c = jc_TokenClaims jc \<and>
     jc_NotBefore jc * Second \<le> t \<and> t < jc_ExpiresAt jc * Second)"
  by (auto simp: ValidateToken_def toy_jwt_def keyfunc_def toy_config_def split: option.splits)

theorem refresh_works_once_witness:
  "\<not> is_ok (fst (RefreshToken toy_auth ''s3'' (6 * Second) ''R1''
       (snd (RefreshToken toy_auth ''s2'' (5 * Second) ''R1'' logged_in))))"
proof -
  let ?c = "jc_TokenClaims (token_claims TokenTypeRefresh ''s1'' 0 (600 * Second) ann)"
  obtain resp where run: "RefreshToken toy_auth ''s2'' (5 * Second) ''R1'' logged_in =
     (Inr resp, snd (RefreshToken toy_auth ''s2'' (5 * Second) ''R1'' logged_in))"
    using toy_refresh by blast
  have facts: "ds_keyed (au_sessions logged_in)" "ValidateToken toy_auth (5 * Second) ''R1'' = Inr ?c"
    "map_of toy_tokens ''R1'' = Some (token_claims TokenTypeRefresh ''s1'' 0 (600 * Second) ann)"
    by code_simp+
  have "\<forall>t c. ValidateToken toy_auth t ''R1'' = Inr c \<longrightarrow> c = ?c"
    using facts(3) by (auto simp: toy_claims)
  then show ?thesis
    using refresh_works_once [OF facts(1) run facts(2), of "[]"] by (simp add: token_claims_def)
qed

end
