(* ===== verification/Rest_Access.thy ===== *)
theory Rest_Access
  imports Auth_Service Attachments
begin

text \<open>
  The access control of the HTTP API: the responses of \<^verbatim>\<open>internal/api/response.go\<close>, the authentication
  middleware of \<^verbatim>\<open>internal/api/middleware/auth.go\<close> and the role checks of \<^verbatim>\<open>internal/api/middleware/rbac.go\<close>.

  A handler maps the echo context and the state to its reply and the state it leaves; a middleware
  maps a handler to a handler. The metadata of a response (time stamp and request ID) is left out.
\<close>

section \<open>Error texts\<close>

fun sentinel_text :: "sentinel \<Rightarrow> string" where
  "sentinel_text ErrNotFound = ''entity not found''"
| "sentinel_text ErrAlreadyExists = ''entity already exists''"
| "sentinel_text ErrInvalidInput = ''invalid input''"
| "sentinel_text ErrUnauthorized = ''unauthorized''"
| "sentinel_text ErrForbidden = ''forbidden''"
| "sentinel_text ErrConflict = ''conflict''"
| "sentinel_text ErrInternal = ''internal error''"

definition quote :: string where
  "quote = [char_of (39 :: nat)]"

definition validation_text :: "string \<Rightarrow> string \<Rightarrow> string" where
  "validation_text field msg = ''validation error on field '' @ quote @ field @ quote @ '': '' @ msg"

fun Error_text :: "error \<Rightarrow> string" where
  "Error_text (Sentinel s) = sentinel_text s"
| "Error_text (ValidationError f m) = validation_text f m"
| "Error_text (ValidationErrs es) =
     (case es of [] \<Rightarrow> ''validation failed'' | [(f, m)] \<Rightarrow> validation_text f m
      | _ \<Rightarrow> ''validation failed: '' @ intToString (int (length es)) @ '' errors'')"
| "Error_text (NotFoundError entity i) =
     (if i \<noteq> [] then entity @ '' with ID '' @ quote @ i @ quote @ '' not found'' else entity @ '' not found'')"
| "Error_text (AlreadyExistsError entity f v) =
     (if f \<noteq> [] \<and> v \<noteq> [] then entity @ '' with '' @ f @ '' '' @ quote @ v @ quote @ '' already exists''
      else entity @ '' already exists'')"
| "Error_text (UnauthorizedError reason) =
     (if reason \<noteq> [] then ''unauthorized: '' @ reason else ''unauthorized'')"
| "Error_text (ForbiddenError action res) =
     (if action \<noteq> [] \<and> res \<noteq> [] then ''forbidden: cannot '' @ action @ '' '' @ res else ''forbidden'')"
| "Error_text (ConflictError entity reason) =
     (if reason \<noteq> [] then ''conflict on '' @ entity @ '': '' @ reason else ''conflict on '' @ entity)"
| "Error_text (InternalError msg None) = (if msg \<noteq> [] then ''internal error: '' @ msg else ''internal error'')"
| "Error_text (InternalError msg (Some e)) =
     (if msg \<noteq> [] then ''internal error: '' @ msg @ '': '' @ Error_text e else ''internal error: '' @ Error_text e)"
| "Error_text (Wrapped msg e) = msg @ '': '' @ Error_text e"
| "Error_text (OtherError msg) = msg"

definition InvalidToken_text :: "string \<Rightarrow> string" where
  "InvalidToken_text reason = (if reason \<noteq> [] then ''invalid token: '' @ reason else ''invalid token'')"

text \<open>\<^verbatim>\<open>errors.As\<close> at the two validation errors, through what \<^verbatim>\<open>Unwrap\<close> reaches.\<close>

fun as_ValidationError :: "error \<Rightarrow> ValidationErrors option" where
  "as_ValidationError (ValidationError f m) = Some [(f, m)]"
| "as_ValidationError (InternalError _ (Some e)) = as_ValidationError e"
| "as_ValidationError (Wrapped _ e) = as_ValidationError e"
| "as_ValidationError _ = None"

fun as_ValidationErrors :: "error \<Rightarrow> ValidationErrors option" where
  "as_ValidationErrors (ValidationErrs es) = Some es"
| "as_ValidationErrors (InternalError _ (Some e)) = as_ValidationErrors e"
| "as_ValidationErrors (Wrapped _ e) = as_ValidationErrors e"
| "as_ValidationErrors _ = None"

section \<open>Responses\<close>

text \<open>
  \<open>Data\<close> and \<open>Failure\<close> are the two shapes of \<^verbatim>\<open>api.Response\<close> under an HTTP status, \<open>Denied\<close> is the
  \<^verbatim>\<open>AuthErrorResponse\<close> of the middleware, and \<open>Empty\<close> a response without a body.
\<close>

datatype 'd reply =
    Data nat 'd
  | Failure nat string string "ValidationErrors option"
  | Denied nat string string
  | Empty nat

fun status_of :: "'d reply \<Rightarrow> nat" where
  "status_of (Data s _) = s"
| "status_of (Failure s _ _ _) = s"
| "status_of (Denied s _ _) = s"
| "status_of (Empty s) = s"

definition OK :: "'d \<Rightarrow> 'd reply" where
  "OK d = Data 200 d"

definition Created :: "'d \<Rightarrow> 'd reply" where
  "Created d = Data 201 d"

definition NoContent :: "'d reply" where
  "NoContent = Empty 204"

definition BadRequest :: "string \<Rightarrow> 'd reply" where
  "BadRequest msg = Failure 400 ''BAD_REQUEST'' msg None"

definition or_default :: "string \<Rightarrow> string \<Rightarrow> string" where
  "or_default msg d = (if msg = [] then d else msg)"

definition Unauthorized :: "string \<Rightarrow> 'd reply" where
  "Unauthorized msg = Failure 401 ''UNAUTHORIZED'' (or_default msg ''Authentication required'') None"

definition Forbidden :: "string \<Rightarrow> 'd reply" where
  "Forbidden msg = Failure 403 ''FORBIDDEN'' (or_default msg ''Access denied'') None"

definition NotFound :: "string \<Rightarrow> 'd reply" where
  "NotFound msg = Failure 404 ''NOT_FOUND'' (or_default msg ''Resource not found'') None"

definition Conflict :: "string \<Rightarrow> 'd reply" where
  "Conflict msg = Failure 409 ''CONFLICT'' msg None"

definition ValidationFailed :: "ValidationErrors \<Rightarrow> 'd reply" where
  "ValidationFailed errs = Failure 422 ''VALIDATION_FAILED'' ''Validation failed'' (Some errs)"

definition InternalServerError :: "string \<Rightarrow> 'd reply" where
  "InternalServerError msg =
     Failure 500 ''INTERNAL_SERVER_ERROR'' (or_default msg ''An unexpected error occurred'') None"

definition ServiceUnavailable :: "string \<Rightarrow> 'd reply" where
  "ServiceUnavailable msg =
     Failure 503 ''SERVICE_UNAVAILABLE'' (or_default msg ''Service temporarily unavailable'') None"

text \<open>\<^verbatim>\<open>FromError\<close> on the errors of the domain package and on those of the token file.\<close>

definition FromDomainError :: "error \<Rightarrow> 'd reply" where
  "FromDomainError err =
     (if errors_Is err ErrNotFound then NotFound (Error_text err)
      else if errors_Is err ErrAlreadyExists then Conflict (Error_text err)
      else if errors_Is err ErrUnauthorized then Unauthorized (Error_text err)
      else if errors_Is err ErrForbidden then Forbidden (Error_text err)
      else if errors_Is err ErrConflict then Conflict (Error_text err)
      else if errors_Is err ErrInvalidInput then BadRequest (Error_text err)
      else case as_ValidationError err of
        Some errs \<Rightarrow> ValidationFailed errs
      | None \<Rightarrow> (case as_ValidationErrors err of
                  Some errs \<Rightarrow> ValidationFailed errs
                | None \<Rightarrow> InternalServerError ''An unexpected error occurred''))"

fun FromError :: "auth_error \<Rightarrow> 'd reply" where
  "FromError (DomainError err) = FromDomainError err"
| "FromError (InvalidTokenError reason) = Unauthorized (InvalidToken_text reason)"
| "FromError (ExpiredTokenError _) = Unauthorized ''token expired''"
| "FromError (SessionRevokedError _) = Unauthorized ''session has been revoked''"

record 'a PaginatedData =
  pd_Items :: "'a list"
  pd_Page :: int
  pd_PageSize :: int
  pd_TotalItems :: int
  pd_TotalPages :: int
  pd_HasNext :: bool
  pd_HasPrev :: bool

text \<open>\<^verbatim>\<open>Paginated\<close>; the page sizes its callers pass are positive.\<close>

definition Paginated :: "'a list \<Rightarrow> int \<Rightarrow> int \<Rightarrow> int \<Rightarrow> 'a PaginatedData" where
  "Paginated items page pageSize totalItems =
     (let totalPages = totalItems div pageSize + (if totalItems mod pageSize > 0 then 1 else 0)
      in \<lparr>pd_Items = items, pd_Page = page, pd_PageSize = pageSize, pd_TotalItems = totalItems, pd_TotalPages = totalPages,
          pd_HasNext = page < totalPages, pd_HasPrev = page > 1\<rparr>)"

section \<open>The echo context\<close>

text \<open>
  The request (path, \<^verbatim>\<open>Authorization\<close> header, path and query parameters, \<^verbatim>\<open>""\<close> when absent) and what the
  middleware stores: the values of \<^verbatim>\<open>c.Set\<close> and those of the request's context.
\<close>

record echo_context =
  cx_path :: string
  cx_authorization :: string
  cx_param :: "string \<Rightarrow> string"
  cx_query :: "string \<Rightarrow> string"
  cx_claims :: "TokenClaims option"
  cx_userId :: "ID option"
  cx_username :: "string option"
  cx_userRole :: "UserRole option"
  cx_sessionId :: "string option"
  cx_ctx_claims :: "TokenClaims option"
  cx_ctx_sessionId :: "string option"

type_synonym ('s, 'd) handler = "echo_context \<Rightarrow> 's auth_state \<Rightarrow> 'd reply \<times> 's auth_state"

definition GetClaims :: "echo_context \<Rightarrow> TokenClaims option" where
  "GetClaims c = cx_claims c"

definition GetClaimsFromContext :: "echo_context \<Rightarrow> TokenClaims option" where
  "GetClaimsFromContext c = cx_ctx_claims c"

definition or_empty :: "string option \<Rightarrow> string" where
  "or_empty v = (case v of None \<Rightarrow> [] | Some s \<Rightarrow> s)"

definition GetUserID :: "echo_context \<Rightarrow> ID" where
  "GetUserID c = or_empty (cx_userId c)"

definition GetUsername :: "echo_context \<Rightarrow> string" where
  "GetUsername c = or_empty (cx_username c)"

definition GetUserRole :: "echo_context \<Rightarrow> UserRole" where
  "GetUserRole c = or_empty (cx_userRole c)"

definition GetSessionID :: "echo_context \<Rightarrow> string" where
  "GetSessionID c = or_empty (cx_sessionId c)"

definition GetSessionIDFromContext :: "echo_context \<Rightarrow> string" where
  "GetSessionIDFromContext c = or_empty (cx_ctx_sessionId c)"

definition mw_IsAuthenticated :: "echo_context \<Rightarrow> bool" where
  "mw_IsAuthenticated c \<longleftrightarrow> GetClaims c \<noteq> None"

definition mw_IsAdmin :: "echo_context \<Rightarrow> bool" where
  "mw_IsAdmin c \<longleftrightarrow> GetUserRole c = RoleAdmin"

definition HasRole :: "echo_context \<Rightarrow> UserRole list \<Rightarrow> bool" where
  "HasRole c roles \<longleftrightarrow> GetUserRole c \<in> set roles"

definition unauthorizedError :: "string \<Rightarrow> 'd reply" where
  "unauthorizedError msg = Denied 401 ''UNAUTHORIZED'' msg"

definition forbiddenError :: "string \<Rightarrow> 'd reply" where
  "forbiddenError msg = Denied 403 ''FORBIDDEN'' msg"

section \<open>Authentication\<close>

record mw_AuthConfig =
  mc_SkipPaths :: "string list"
  mc_Optional :: bool

text \<open>\<^verbatim>\<open>strings.SplitN(s, " ", 2)\<close>: \<open>None\<close> when there is no space.\<close>

definition split_space :: "string \<Rightarrow> (string \<times> string) option" where
  "split_space s =
     (case dropWhile (\<lambda>ch. ch \<noteq> CHR '' '') s of [] \<Rightarrow> None
      | _ # rest \<Rightarrow> Some (takeWhile (\<lambda>ch. ch \<noteq> CHR '' '') s, rest))"

definition with_claims :: "TokenClaims \<Rightarrow> echo_context \<Rightarrow> echo_context" where
  "with_claims claims c =
     c\<lparr>cx_claims := Some claims, cx_userId := Some (tc_UserID claims), cx_username := Some (tc_Username claims),
       cx_userRole := Some (tc_Role claims), cx_sessionId := Some (tc_SessionID claims),
       cx_ctx_claims := Some claims, cx_ctx_sessionId := Some (tc_SessionID claims)\<rparr>"

definition AuthWithConfig ::
  "'s AuthService \<Rightarrow> mw_AuthConfig \<Rightarrow> instant \<Rightarrow> ('s, 'd) handler \<Rightarrow> ('s, 'd) handler" where
  "AuthWithConfig svc cfg now next c st =
     (let refuse = (\<lambda>msg st. if mc_Optional cfg then next c st else (unauthorizedError msg, st)) in
      if list_ex (\<lambda>skipPath. cx_path c = skipPath \<or> HasPrefix (cx_path c) skipPath) (mc_SkipPaths cfg)
      then next c st
      else if cx_authorization c = [] then refuse ''missing authorization header'' st
      else case split_space (cx_authorization c) of
        None \<Rightarrow> refuse ''invalid authorization header format'' st
      | Some (scheme, tokenString) \<Rightarrow>
          if \<not> EqualFold scheme ''Bearer'' then refuse ''invalid authorization header format'' st
          else if tokenString = [] then refuse ''missing token'' st
          else case ValidateAccessToken svc now tokenString st of
            (Inr claims, st') \<Rightarrow> next (with_claims claims c) st'
          | (Inl (ExpiredTokenError _), st') \<Rightarrow> (unauthorizedError ''token expired'', st')
          | (Inl (InvalidTokenError reason), st') \<Rightarrow> (unauthorizedError (InvalidToken_text reason), st')
          | (Inl (SessionRevokedError _), st') \<Rightarrow> (unauthorizedError ''session revoked'', st')
          | (Inl (DomainError _), st') \<Rightarrow> refuse ''invalid token'' st')"

definition mw_Auth :: "'s AuthService \<Rightarrow> instant \<Rightarrow> ('s, 'd) handler \<Rightarrow> ('s, 'd) handler" where
  "mw_Auth svc now = AuthWithConfig svc \<lparr>mc_SkipPaths = [], mc_Optional = False\<rparr> now"

section \<open>Roles\<close>

definition RequireRole :: "UserRole list \<Rightarrow> ('s, 'd) handler \<Rightarrow> ('s, 'd) handler" where
  "RequireRole roles next c st =
     (case GetClaims c of
        None \<Rightarrow> (unauthorizedError ''authentication required'', st)
      | Some claims \<Rightarrow>
          if tc_Role claims \<in> set roles then next c st
          else (forbiddenError ''insufficient permissions'', st))"

definition RequireAdmin :: "('s, 'd) handler \<Rightarrow> ('s, 'd) handler" where
  "RequireAdmin = RequireRole [RoleAdmin]"

definition RequireUser :: "('s, 'd) handler \<Rightarrow> ('s, 'd) handler" where
  "RequireUser = RequireRole [RoleAdmin, RoleUser]"

definition RequireViewer :: "('s, 'd) handler \<Rightarrow> ('s, 'd) handler" where
  "RequireViewer = RequireRole [RoleAdmin, RoleUser, RoleViewer]"

record RBACConfig =
  rb_AllowedRoles :: "UserRole list"
  rb_RequireOwnership :: bool
  rb_OwnerIDParam :: string

definition RBAC :: "RBACConfig \<Rightarrow> ('s, 'd) handler \<Rightarrow> ('s, 'd) handler" where
  "RBAC cfg next c st =
     (case GetClaims c of
        None \<Rightarrow> (unauthorizedError ''authentication required'', st)
      | Some claims \<Rightarrow>
          let hasRequiredRole = (tc_Role claims \<in> set (rb_AllowedRoles cfg));
              owned = (rb_RequireOwnership cfg \<and> rb_OwnerIDParam cfg \<noteq> []);
              ownerID = cx_param c (rb_OwnerIDParam cfg)
          in if tc_Role claims = RoleAdmin then next c st
             else if owned \<and> ownerID \<noteq> [] \<and> ownerID = tc_UserID claims then next c st
             else if owned \<and> \<not> hasRequiredRole
             then (forbiddenError ''access denied: you can only access your own resources'', st)
             else if \<not> hasRequiredRole then (forbiddenError ''insufficient permissions'', st)
             else next c st)"

definition AdminOnly :: "('s, 'd) handler \<Rightarrow> ('s, 'd) handler" where
  "AdminOnly = RBAC \<lparr>rb_AllowedRoles = [RoleAdmin], rb_RequireOwnership = False, rb_OwnerIDParam = []\<rparr>"

definition UserOrAdmin :: "('s, 'd) handler \<Rightarrow> ('s, 'd) handler" where
  "UserOrAdmin = RBAC \<lparr>rb_AllowedRoles = [RoleAdmin, RoleUser], rb_RequireOwnership = False, rb_OwnerIDParam = []\<rparr>"

definition ViewerOrHigher :: "('s, 'd) handler \<Rightarrow> ('s, 'd) handler" where
  "ViewerOrHigher =
     RBAC \<lparr>rb_AllowedRoles = [RoleAdmin, RoleUser, RoleViewer], rb_RequireOwnership = False, rb_OwnerIDParam = []\<rparr>"

definition OwnerOrAdmin :: "string \<Rightarrow> ('s, 'd) handler \<Rightarrow> ('s, 'd) handler" where
  "OwnerOrAdmin ownerIDParam =
     RBAC \<lparr>rb_AllowedRoles = [RoleAdmin, RoleUser, RoleViewer], rb_RequireOwnership = True,
           rb_OwnerIDParam = ownerIDParam\<rparr>"

section \<open>Permissions\<close>

definition rolePermissions :: "UserRole \<Rightarrow> string list option" where
  "rolePermissions role =
     (if role = RoleAdmin then Some
        [''user:read'', ''user:write'', ''user:delete'', ''user:manage'',
         ''mailbox:read'', ''mailbox:write'', ''mailbox:delete'',
         ''message:read'', ''message:write'', ''message:delete'',
         ''settings:read'', ''settings:write'', ''webhook:read'', ''webhook:write'', ''webhook:delete'']
      else if role = RoleUser then Some
        [''user:read'', ''mailbox:read'', ''mailbox:write'', ''mailbox:delete'',
         ''message:read'', ''message:write'', ''message:delete'', ''webhook:read'', ''webhook:write'']
      else if role = RoleViewer then Some [''user:read'', ''mailbox:read'', ''message:read'']
      else None)"

definition HasPermission :: "UserRole \<Rightarrow> string \<Rightarrow> bool" where
  "HasPermission role permission =
     (case rolePermissions role of None \<Rightarrow> False | Some ps \<Rightarrow> permission \<in> set ps)"

definition GetPermissions :: "UserRole \<Rightarrow> string list" where
  "GetPermissions role = (case rolePermissions role of None \<Rightarrow> [] | Some ps \<Rightarrow> ps)"

definition RequirePermission :: "string \<Rightarrow> ('s, 'd) handler \<Rightarrow> ('s, 'd) handler" where
  "RequirePermission permission next c st =
     (case GetClaims c of
        None \<Rightarrow> (unauthorizedError ''authentication required'', st)
      | Some claims \<Rightarrow>
          if \<not> HasPermission (tc_Role claims) permission
          then (forbiddenError ''insufficient permissions'', st) else next c st)"

definition CanUserManageOtherUser :: "echo_context \<Rightarrow> ID \<Rightarrow> bool" where
  "CanUserManageOtherUser c targetUserID \<longleftrightarrow>
     (case GetClaims c of None \<Rightarrow> False
      | Some claims \<Rightarrow> tc_Role claims = RoleAdmin \<or> tc_UserID claims = targetUserID)"

definition IsSelfOrAdmin :: "echo_context \<Rightarrow> ID \<Rightarrow> bool" where
  "IsSelfOrAdmin c targetUserID \<longleftrightarrow> CanUserManageOtherUser c targetUserID"

section \<open>What the middleware lets through\<close>

lemma ValidateAccessToken_error: "ValidateAccessToken svc now tok st = (Inl e, st') \<Longrightarrow> st' = st"
  by (auto simp: ValidateAccessToken_def split: sum.splits if_splits)

lemma ValidateAccessToken_db [simp]: "au_db (snd (ValidateAccessToken svc now tok st)) = au_db st"
  by (auto simp: ValidateAccessToken_def split: sum.splits if_splits)

lemma ValidateAccessToken_claims:
  "fst (ValidateAccessToken svc now tok st) = Inr claims \<Longrightarrow> ValidateToken svc now tok = Inr claims"
  by (auto simp: ValidateAccessToken_def split: sum.splits if_splits)

text \<open>The two outcomes of the mandatory middleware.\<close>

lemma Auth_cases:
  obtains (accepted) scheme tok claims where "split_space (cx_authorization c) = Some (scheme, tok)"
      "fst (ValidateAccessToken svc now tok st) = Inr claims"
      "mw_Auth svc now next c st = next (with_claims claims c) (snd (ValidateAccessToken svc now tok st))"
  | (refused) msg where "mw_Auth svc now next c st = (unauthorizedError msg, st)"
proof (cases "\<exists>scheme tok claims. cx_authorization c \<noteq> [] \<and> split_space (cx_authorization c) = Some (scheme, tok) \<and>
    EqualFold scheme ''Bearer'' \<and> tok \<noteq> [] \<and> fst (ValidateAccessToken svc now tok st) = Inr claims")
  case True
  then obtain scheme tok claims where t: "cx_authorization c \<noteq> []" "split_space (cx_authorization c) = Some (scheme, tok)"
      "EqualFold scheme ''Bearer''" "tok \<noteq> []" "fst (ValidateAccessToken svc now tok st) = Inr claims"
    by blast
  obtain st' where v: "ValidateAccessToken svc now tok st = (Inr claims, st')"
    using t(5) by (metis prod.collapse)
  then have "mw_Auth svc now next c st = next (with_claims claims c) (snd (ValidateAccessToken svc now tok st))"
    using t(1-4) by (simp add: mw_Auth_def AuthWithConfig_def Let_def)
  then show thesis
    by (rule accepted [OF t(2,5)])
next
  case False
  have "\<exists>msg. mw_Auth svc now next c st = (unauthorizedError msg, st)"
    using False by (auto simp: mw_Auth_def AuthWithConfig_def Let_def dest: ValidateAccessToken_error
        split: option.split prod.split sum.split auth_error.split)
  then show thesis
    using refused by blast
qed

lemma Auth_accepts:
  assumes "cx_authorization c = ''Bearer '' @ tok" and "tok \<noteq> []"
    and "fst (ValidateAccessToken svc now tok st) = Inr claims"
  shows "mw_Auth svc now h c st = h (with_claims claims c) (snd (ValidateAccessToken svc now tok st))"
proof -
  obtain st' where "ValidateAccessToken svc now tok st = (Inr claims, st')"
    using assms(3) by (metis prod.collapse)
  then show ?thesis
    using assms(1,2) by (simp add: mw_Auth_def AuthWithConfig_def split_space_def EqualFold_def Let_def)
qed

text \<open>
  The guard \<^verbatim>\<open>OwnerOrAdmin\<close> lets everybody pass: every role the system has is in its list of allowed roles, so
  that the comparison of the owner with the user decides nothing.
\<close>

lemma OwnerOrAdmin_admits:
  assumes "GetClaims c = Some claims" and "UserRole_IsValid (tc_Role claims)"
  shows "OwnerOrAdmin param next c st = next c st"
  using assms by (auto simp: OwnerOrAdmin_def RBAC_def UserRole_IsValid_def Let_def)

lemma AdminOnly_refuses:
  assumes "GetClaims c = Some claims" and "tc_Role claims \<noteq> RoleAdmin"
  shows "AdminOnly next c st = (forbiddenError ''insufficient permissions'', st)"
  using assms by (simp add: AdminOnly_def RBAC_def Let_def)

lemma AdminOnly_admits:
  assumes "GetClaims c = Some claims" and "tc_Role claims = RoleAdmin"
  shows "AdminOnly next c st = next c st"
  using assms by (simp add: AdminOnly_def RBAC_def Let_def)

lemma with_claims_fields [simp]:
  "GetClaims (with_claims claims c) = Some claims" "mw_IsAdmin (with_claims claims c) \<longleftrightarrow> tc_Role claims = RoleAdmin"
  "cx_param (with_claims claims c) = cx_param c" "cx_authorization (with_claims claims c) = cx_authorization c"
  "cx_query (with_claims claims c) = cx_query c" "cx_path (with_claims claims c) = cx_path c"
  by (simp_all add: with_claims_def GetClaims_def mw_IsAdmin_def GetUserRole_def or_empty_def)

lemma with_claims_twice [simp]: "with_claims a (with_claims b c) = with_claims a c"
  by (simp add: with_claims_def)

end
