(* ===== verification/Rest_Users.thy ===== *)
theory Rest_Users
  imports Rest_Access
begin

text \<open>
  The handlers of \<^verbatim>\<open>internal/api/handlers/auth.go\<close> and \<^verbatim>\<open>internal/api/handlers/users.go\<close> with their routes, as
  \<^verbatim>\<open>cmd/yunt/cmd_serve.go\<close> registers them. What \<^verbatim>\<open>c.Bind\<close> decodes from the request body is an argument, \<open>None\<close>
  when it fails; the asynchronous webhook that announces a new user is left out.
\<close>

section \<open>Replies\<close>

datatype users_data =
    AuthData AuthResponse
  | UserInfoData UserInfo
  | ProfileData UserProfile
  | UserListData UserListResponse
  | UserStatsData UserStats

text \<open>A service call, its error answered by \<^verbatim>\<open>api.FromError\<close>.\<close>

definition answer :: "'a dbm \<Rightarrow> ('a \<Rightarrow> 'd reply) \<Rightarrow> 's auth_state \<Rightarrow> 'd reply \<times> 's auth_state" where
  "answer m k st =
     (case m (au_db st) of
        (Inl err, d) \<Rightarrow> (FromDomainError err, st\<lparr>au_db := d\<rparr>)
      | (Inr x, d) \<Rightarrow> (k x, st\<lparr>au_db := d\<rparr>))"

section \<open>Authentication\<close>

definition ah_Login ::
  "'s AuthService \<Rightarrow> string \<Rightarrow> instant \<Rightarrow> LoginInput option \<Rightarrow> string \<Rightarrow> string \<Rightarrow> ('s, users_data) handler" where
  "ah_Login svc gen now input userAgent ipAddress c st =
     (case input of None \<Rightarrow> (BadRequest ''invalid request body'', st)
      | Some input \<Rightarrow>
          (case Login svc gen now input userAgent ipAddress st of
             (Inl err, st') \<Rightarrow> (FromError err, st') | (Inr response, st') \<Rightarrow> (OK (AuthData response), st')))"

definition ah_RefreshToken ::
  "'s AuthService \<Rightarrow> string \<Rightarrow> instant \<Rightarrow> string option \<Rightarrow> ('s, users_data) handler" where
  "ah_RefreshToken svc gen now input c st =
     (case input of None \<Rightarrow> (BadRequest ''invalid request body'', st)
      | Some refreshToken \<Rightarrow>
          (case RefreshToken svc gen now refreshToken st of
             (Inl err, st') \<Rightarrow> (FromError err, st') | (Inr response, st') \<Rightarrow> (OK (AuthData response), st')))"

definition ah_Logout :: "'s AuthService \<Rightarrow> ('s, users_data) handler" where
  "ah_Logout svc c st =
     (if GetSessionID c = [] then (Unauthorized ''session not found'', st)
      else case as_Logout svc (GetSessionID c) st of
        (Some err, st') \<Rightarrow> (FromError err, st') | (None, st') \<Rightarrow> (NoContent, st'))"

definition ah_LogoutAll :: "'s AuthService \<Rightarrow> ('s, users_data) handler" where
  "ah_LogoutAll svc c st =
     (if ID_IsEmpty (GetUserID c) then (Unauthorized ''user not found'', st)
      else case LogoutAll svc (GetUserID c) st of
        (Some err, st') \<Rightarrow> (FromError err, st') | (None, st') \<Rightarrow> (NoContent, st'))"

definition GetCurrentUser :: "('s, users_data) handler" where
  "GetCurrentUser c st =
     (case GetClaims c of None \<Rightarrow> (Unauthorized ''authentication required'', st)
      | Some claims \<Rightarrow>
          (OK (UserInfoData \<lparr>ui_ID = tc_UserID claims, ui_Username = tc_Username claims,
             ui_Email = tc_Email claims, ui_DisplayName = [], ui_Role = tc_Role claims\<rparr>), st))"

datatype auth_route =
    PostLogin "LoginInput option" string string
  | PostRefresh "string option"
  | PostLogout
  | PostLogoutAll
  | GetMe

fun serve_auth ::
  "'s AuthService \<Rightarrow> string \<Rightarrow> instant \<Rightarrow> auth_route \<Rightarrow> ('s, users_data) handler" where
  "serve_auth svc gen now (PostLogin input userAgent ipAddress) = ah_Login svc gen now input userAgent ipAddress"
| "serve_auth svc gen now (PostRefresh input) = ah_RefreshToken svc gen now input"
| "serve_auth svc gen now PostLogout = mw_Auth svc now (ah_Logout svc)"
| "serve_auth svc gen now PostLogoutAll = mw_Auth svc now (ah_LogoutAll svc)"
| "serve_auth svc gen now GetMe = mw_Auth svc now GetCurrentUser"

section \<open>Users\<close>

text \<open>
  \<^verbatim>\<open>n, _ := strconv.Atoi(s)\<close> with its error dropped: 0 on a syntax error, the nearest 64-bit integer when
  the number is out of range. The digits are read from the left, and reading stops when an unsigned
  64-bit integer would overflow.
\<close>

definition max_uint64 :: int where
  "max_uint64 = 18446744073709551615"

definition max_int64 :: int where
  "max_int64 = 9223372036854775807"

fun parse_digits :: "int \<Rightarrow> string \<Rightarrow> int option" where
  "parse_digits n [] = Some n"
| "parse_digits n (ch # s) =
     (if \<not> digit_char ch then None
      else let n1 = n * 10 + (int (of_char ch) - 48)
           in if n1 > max_uint64 then Some max_uint64 else parse_digits n1 s)"

definition Atoi :: "string \<Rightarrow> int" where
  "Atoi s =
     (let neg = (s \<noteq> [] \<and> hd s = CHR ''-'');
          ds = (if s \<noteq> [] \<and> (hd s = CHR ''+'' \<or> hd s = CHR ''-'') then tl s else s)
      in if ds = [] then 0
         else case parse_digits 0 ds of None \<Rightarrow> 0
              | Some n \<Rightarrow> if neg then - min n (max_int64 + 1) else min n max_int64)"

text \<open>\<^verbatim>\<open>strconv.Atoi\<close> with its error.\<close>

definition Atoi_ok :: "string \<Rightarrow> int option" where
  "Atoi_ok s =
     (let neg = (s \<noteq> [] \<and> hd s = CHR ''-'');
          ds = (if s \<noteq> [] \<and> (hd s = CHR ''+'' \<or> hd s = CHR ''-'') then tl s else s)
      in if ds = [] then None
         else case parse_digits 0 ds of None \<Rightarrow> None
              | Some n \<Rightarrow> if neg then (if n > max_int64 + 1 then None else Some (- n))
                          else if n > max_int64 then None else Some n)"

definition ListUsers :: "('s, users_data) handler" where
  "ListUsers c st =
     (let flt = emptyUserFilter
            \<lparr>uf_Status := (let s = cx_query c ''status'' in if s \<noteq> [] \<and> UserStatus_IsValid s then Some s else None),
             uf_Role := (let r = cx_query c ''role'' in if r \<noteq> [] \<and> UserRole_IsValid r then Some r else None),
             uf_Search := cx_query c ''search''\<rparr>
      in answer (us_List (Some flt) (Atoi (cx_query c ''page'')) (Atoi (cx_query c ''pageSize'')))
           (\<lambda>result. OK (UserListData result)) st)"

definition GetUser :: "('s, users_data) handler" where
  "GetUser c st = answer (GetUserProfile (cx_param c ''id'')) (\<lambda>profile. OK (ProfileData profile)) st"

definition CreateUser :: "BCrypt \<Rightarrow> ID \<Rightarrow> instant \<Rightarrow> UserCreateInput option \<Rightarrow> ('s, users_data) handler" where
  "CreateUser bc gen now input c st =
     (case input of None \<Rightarrow> (BadRequest ''invalid request body'', st)
      | Some input \<Rightarrow> answer (us_Create bc gen now input) (\<lambda>user. Created (UserInfoData (UserInfoFromUser user))) st)"

definition profile_of_user :: "User \<Rightarrow> UserProfile" where
  "profile_of_user u =
     \<lparr>up_ID = usr_ID u, up_Username = usr_Username u, up_Email = usr_Email u,
      up_DisplayName = usr_DisplayName u, up_Role = usr_Role u, up_Status = usr_Status u,
      up_AvatarURL = usr_AvatarURL u, up_LastLoginAt = usr_LastLoginAt u,
      up_CreatedAt = usr_CreatedAt u, up_UpdatedAt = usr_UpdatedAt u\<rparr>"

definition UpdateUser :: "instant \<Rightarrow> UserUpdateInput option \<Rightarrow> ('s, users_data) handler" where
  "UpdateUser now input c st =
     (case input of None \<Rightarrow> (BadRequest ''invalid request body'', st)
      | Some input \<Rightarrow>
          answer (us_Update now (cx_param c ''id'') input (mw_IsAdmin c)) (\<lambda>user. OK (ProfileData (profile_of_user user))) st)"

text \<open>The guard against acting on one's own account.\<close>

definition is_self :: "echo_context \<Rightarrow> ID \<Rightarrow> bool" where
  "is_self c userID \<longleftrightarrow> (case GetClaims c of None \<Rightarrow> False | Some claims \<Rightarrow> tc_UserID claims = userID)"

definition DeleteUser :: "instant \<Rightarrow> ('s, users_data) handler" where
  "DeleteUser now c st =
     (let userID = cx_param c ''id'' in
      if is_self c userID then (BadRequest ''cannot delete your own account'', st)
      else answer (us_Delete now userID) (\<lambda>_. NoContent) st)"

record PasswordUpdateInput =
  pui_CurrentPassword :: string
  pui_NewPassword :: string

definition UpdatePassword :: "BCrypt \<Rightarrow> instant \<Rightarrow> PasswordUpdateInput option \<Rightarrow> ('s, users_data) handler" where
  "UpdatePassword bc now input c st =
     (let userID = cx_param c ''id'' in
      case input of None \<Rightarrow> (BadRequest ''invalid request body'', st)
      | Some input \<Rightarrow>
          let errs = PasswordUpdateInput_Validate (pui_NewPassword input) in
          if errs \<noteq> [] then (FromDomainError (ValidationErrs errs), st)
          else if is_self c userID \<and> \<not> mw_IsAdmin c
          then (if pui_CurrentPassword input = []
                then (ValidationFailed [(''currentPassword'', ''current password is required'')], st)
                else answer (ChangePassword bc now userID (pui_CurrentPassword input) (pui_NewPassword input))
                       (\<lambda>_. NoContent) st)
          else answer (us_UpdatePassword bc now userID (pui_NewPassword input)) (\<lambda>_. NoContent) st)"

definition UpdateUserRole :: "instant \<Rightarrow> string option \<Rightarrow> ('s, users_data) handler" where
  "UpdateUserRole now input c st =
     (let userID = cx_param c ''id'' in
      case input of None \<Rightarrow> (BadRequest ''invalid request body'', st)
      | Some role \<Rightarrow>
          if role = [] then (ValidationFailed [(''role'', ''role is required'')], st)
          else if \<not> UserRole_IsValid role
          then (ValidationFailed [(''role'', ''invalid role, must be one of: admin, user, viewer'')], st)
          else if is_self c userID \<and> role \<noteq> RoleAdmin then (BadRequest ''cannot change your own role'', st)
          else answer (us_UpdateRole now userID role) (\<lambda>_. NoContent) st)"

definition UpdateUserStatus :: "instant \<Rightarrow> string option \<Rightarrow> ('s, users_data) handler" where
  "UpdateUserStatus now input c st =
     (let userID = cx_param c ''id'' in
      case input of None \<Rightarrow> (BadRequest ''invalid request body'', st)
      | Some status \<Rightarrow>
          if status = [] then (ValidationFailed [(''status'', ''status is required'')], st)
          else if \<not> UserStatus_IsValid status
          then (ValidationFailed [(''status'', ''invalid status, must be one of: active, inactive, pending'')], st)
          else if is_self c userID \<and> status \<noteq> StatusActive then (BadRequest ''cannot deactivate your own account'', st)
          else answer (us_UpdateStatus now userID status) (\<lambda>_. NoContent) st)"

definition GetUserStats :: "('s, users_data) handler" where
  "GetUserStats c st = answer us_GetStats (\<lambda>stats. OK (UserStatsData stats)) st"

definition GetMyProfile :: "('s, users_data) handler" where
  "GetMyProfile c st =
     (case GetClaims c of None \<Rightarrow> (Unauthorized ''authentication required'', st)
      | Some claims \<Rightarrow> answer (GetUserProfile (tc_UserID claims)) (\<lambda>profile. OK (ProfileData profile)) st)"

definition UpdateMyProfile :: "instant \<Rightarrow> UserUpdateInput option \<Rightarrow> ('s, users_data) handler" where
  "UpdateMyProfile now input c st =
     (case GetClaims c of None \<Rightarrow> (Unauthorized ''authentication required'', st)
      | Some claims \<Rightarrow>
          (case input of None \<Rightarrow> (BadRequest ''invalid request body'', st)
           | Some input \<Rightarrow>
               answer (us_Update now (tc_UserID claims) (input\<lparr>uui_Role := None, uui_Status := None\<rparr>) False)
                 (\<lambda>user. OK (ProfileData (profile_of_user user))) st))"

definition ChangeMyPassword :: "BCrypt \<Rightarrow> instant \<Rightarrow> PasswordUpdateInput option \<Rightarrow> ('s, users_data) handler" where
  "ChangeMyPassword bc now input c st =
     (case GetClaims c of None \<Rightarrow> (Unauthorized ''authentication required'', st)
      | Some claims \<Rightarrow>
          (case input of None \<Rightarrow> (BadRequest ''invalid request body'', st)
           | Some input \<Rightarrow>
               let errs = errs_Add (pui_CurrentPassword input = []) ''currentPassword'' ''current password is required'' @
                     PasswordUpdateInput_Validate (pui_NewPassword input)
               in if errs \<noteq> [] then (FromDomainError (ValidationErrs errs), st)
                  else answer (ChangePassword bc now (tc_UserID claims) (pui_CurrentPassword input) (pui_NewPassword input))
                         (\<lambda>_. NoContent) st))"

section \<open>Routes\<close>

datatype users_route =
    RListUsers
  | RCreateUser "UserCreateInput option"
  | RDeleteUser
  | RUpdateUserRole "string option"
  | RUpdateUserStatus "string option"
  | RGetUserStats
  | RGetUser
  | RUpdateUser "UserUpdateInput option"
  | RUpdatePassword "PasswordUpdateInput option"
  | RGetMyProfile
  | RUpdateMyProfile "UserUpdateInput option"
  | RChangeMyPassword "PasswordUpdateInput option"

fun users_routes :: "BCrypt \<Rightarrow> ID \<Rightarrow> instant \<Rightarrow> users_route \<Rightarrow> ('s, users_data) handler" where
  "users_routes bc gen now RListUsers = AdminOnly ListUsers"
| "users_routes bc gen now (RCreateUser input) = AdminOnly (CreateUser bc gen now input)"
| "users_routes bc gen now RDeleteUser = AdminOnly (DeleteUser now)"
| "users_routes bc gen now (RUpdateUserRole input) = AdminOnly (UpdateUserRole now input)"
| "users_routes bc gen now (RUpdateUserStatus input) = AdminOnly (UpdateUserStatus now input)"
| "users_routes bc gen now RGetUserStats = AdminOnly GetUserStats"
| "users_routes bc gen now RGetUser = OwnerOrAdmin ''id'' GetUser"
| "users_routes bc gen now (RUpdateUser input) = OwnerOrAdmin ''id'' (UpdateUser now input)"
| "users_routes bc gen now (RUpdatePassword input) = OwnerOrAdmin ''id'' (UpdatePassword bc now input)"
| "users_routes bc gen now RGetMyProfile = GetMyProfile"
| "users_routes bc gen now (RUpdateMyProfile input) = UpdateMyProfile now input"
| "users_routes bc gen now (RChangeMyPassword input) = ChangeMyPassword bc now input"

text \<open>The authentication middleware runs twice: for the group \<^verbatim>\<open>authed\<close> and for the group of the users.\<close>

definition serve_users :: "'s AuthService \<Rightarrow> ID \<Rightarrow> instant \<Rightarrow> users_route \<Rightarrow> ('s, users_data) handler" where
  "serve_users svc gen now rt = mw_Auth svc now (mw_Auth svc now (users_routes (as_bcrypt svc) gen now rt))"

section \<open>What users without administrator rights can do\<close>

text \<open>The standing of a user: identity, name, role, status and whether the account is deleted.\<close>

definition standing :: "userRow \<Rightarrow> ID \<times> string \<times> UserRole \<times> UserStatus \<times> instant option" where
  "standing r = (ur_id r, ur_username r, ur_role r, ur_status r, ur_deleted_at r)"

definition standing_kept :: "db \<Rightarrow> db \<Rightarrow> bool" where
  "standing_kept d d' \<longleftrightarrow> map standing (db_users d') = map standing (db_users d) \<and>
     db_mailboxes d' = db_mailboxes d \<and> db_messages d' = db_messages d"

lemma standing_kept_refl [simp]: "standing_kept d d"
  by (simp add: standing_kept_def)

lemma answer_db [simp]: "au_db (snd (answer m k st)) = snd (m (au_db st))"
  by (simp add: answer_def split: prod.split sum.split)

lemma others_kept_standing:
  assumes "others_kept i d d'"
  shows "standing_kept d d'"
proof -
  let ?g = "\<lambda>(i, name, _, role, status, del). (i, name, role, status, del)"
  have "standing = ?g \<circ> rights"
    by (simp add: fun_eq_iff standing_def rights_def)
  then have "map standing rs = map ?g (map rights rs)" for rs
    by (simp only: map_map)
  with assms show ?thesis
    by (simp only: others_kept_def standing_kept_def simp_thms)
qed

lemma set_user_standing:
  assumes "\<And>r. standing (f r) = standing r"
  shows "standing_kept d (snd (set_user msg f now i d))"
proof -
  let ?P = "\<lambda>r. ur_id r = i \<and> user_alive r" and ?f = "\<lambda>r. (f r)\<lparr>ur_updated_at := now\<rparr>"
  have "standing (?f r) = standing r" for r
    using assms [of r] by (simp add: standing_def)
  then have "map standing (update_where ?P ?f (db_users d)) = map standing (db_users d)"
    by (intro map_update_where_on)
  then show ?thesis
    by (simp add: set_user_def update_users_def stmt_def standing_kept_def)
qed

lemma snd_or_internal [simp]: "snd (or_internal msg m d) = snd (m d)"
  by (simp add: or_internal_def split: prod.split sum.split)

lemma us_GetByID_reads: "us_GetByID i d = (res, d') \<Longrightarrow> d' = d"
  by (auto simp: us_GetByID_def usr_GetByID_def get_user_def andThen_def query_def split: option.splits if_splits)

lemma GetUserProfile_reads [simp]: "snd (GetUserProfile i d) = d"
  by (auto simp: GetUserProfile_def snd_andThen dest: us_GetByID_reads split: prod.split sum.split)

lemma us_UpdatePassword_standing: "standing_kept d (snd (us_UpdatePassword bc now i pw d))"
proof -
  have "standing_kept d (snd (usr_UpdatePassword now i h d))" for h
    unfolding usr_UpdatePassword_def by (rule set_user_standing) (simp add: standing_def)
  then show ?thesis
    by (simp add: us_UpdatePassword_def when_exists_def snd_andThen or_internal_def usr_Exists_def query_def
        split: sum.split prod.split) (metis snd_conv)
qed

lemma ChangePassword_standing: "standing_kept d (snd (ChangePassword bc now i old pw d))"
  by (auto simp: ChangePassword_def snd_andThen us_UpdatePassword_standing dest: us_GetByID_reads
      split: prod.split sum.split)

lemma users_routes_standing:
  assumes "schema_ok (au_db st)" and "tc_Role claims \<noteq> RoleAdmin"
  shows "standing_kept (au_db st) (au_db (snd (users_routes bc gen now rt (with_claims claims c) st)))"
proof -
  have owner: "standing_kept (au_db st) (au_db (snd (OwnerOrAdmin p h (with_claims claims c) st)))"
    if "standing_kept (au_db st) (au_db (snd (h (with_claims claims c) st)))" for p and h :: "('a, users_data) handler"
    using that by (simp add: OwnerOrAdmin_def RBAC_def Let_def)
  have upd: "standing_kept (au_db st) (snd (us_Update now i input False (au_db st)))" for i input
    by (rule others_kept_standing [OF profile_update_keeps_rights [OF assms(1)]])
  show ?thesis
    by (cases rt)
      (auto simp: AdminOnly_refuses assms(2) GetUser_def GetMyProfile_def UpdateUser_def UpdateMyProfile_def
        UpdatePassword_def ChangeMyPassword_def upd us_UpdatePassword_standing ChangePassword_standing Let_def
        intro!: owner split: option.split)
qed


section \<open>Account takeover\<close>

definition rehashed :: "instant \<Rightarrow> string \<Rightarrow> userRow \<Rightarrow> userRow" where
  "rehashed now h r = r\<lparr>ur_password_hash := h, ur_updated_at := now\<rparr>"

definition with_password :: "instant \<Rightarrow> ID \<Rightarrow> string \<Rightarrow> db \<Rightarrow> db" where
  "with_password now i h d =
     d\<lparr>db_users := update_where (\<lambda>r. ur_id r = i \<and> user_alive r) (rehashed now h) (db_users d)\<rparr>"

lemma us_UpdatePassword_eq:
  assumes "schema_ok d" and "r \<in> set (db_users d)" and "user_alive r" and "8 \<le> length pw" and "length pw \<le> 128"
    and "bc_hash bc pw = Inr h"
  shows "us_UpdatePassword bc now (ur_id r) pw d = (Inr (), with_password now (ur_id r) h d)"
    and "schema_ok (with_password now (ur_id r) h d)"
proof -
  show ok: "schema_ok (with_password now (ur_id r) h d)"
    unfolding with_password_def using assms(1)
    by (subst schema_ok_users) (auto simp: rehashed_def intro!: map_update_where_on)
  have "0 < count_where (\<lambda>x. ur_id x = ur_id r \<and> user_alive x) (db_users d)"
    using assms(2,3) by (auto simp: count_where_def filter_empty_conv)
  moreover have "list_ex (\<lambda>x. ur_id x = ur_id r \<and> user_alive x) (db_users d)"
    using assms(2,3) by (auto simp: list_ex_iff)
  ultimately show "us_UpdatePassword bc now (ur_id r) pw d = (Inr (), with_password now (ur_id r) h d)"
    using ok assms(4-6)
    by (simp add: us_UpdatePassword_def when_exists_def usr_Exists_def usr_UpdatePassword_def set_user_def
        expect_rows_def update_users_def stmt_def andThen_def wrap_def or_internal_def with_password_def rehashed_def [abs_def])
qed

lemma GetByUsername_rehashed:
  assumes "schema_ok (with_password now (ur_id r) h d)" and "r \<in> set (db_users d)" and "user_alive r"
  shows "GetByUsername (ur_username r) (with_password now (ur_id r) h d) =
     (Inr (toUser (rehashed now h r)), with_password now (ur_id r) h d)"
proof -
  let ?d = "with_password now (ur_id r) h d" and ?r = "rehashed now h r"
  let ?P = "\<lambda>x. EqualFold (ur_username x) (ur_username r) \<and> user_alive x"
  have r: "?r \<in> set (db_users ?d)" "ur_username ?r = ur_username r" "user_alive ?r"
    using assms(2,3) by (auto simp: with_password_def update_where_def rehashed_def user_alive_def intro!: image_eqI [of _ _ r])
  then obtain x where x: "find ?P (db_users ?d) = Some x"
    using find_eq_None [of ?P "db_users ?d"] by (fastforce simp: EqualFold_def)
  then have "x = ?r"
    using find_SomeD [OF x] username_unique [OF assms(1) _ r(1)] r(2) by simp
  then show ?thesis
    using x by (simp add: GetByUsername_def get_user_def)
qed

lemma token_claims_rehashed [simp]:
  "token_claims typ sid now expiry (toUser (rehashed t h r)) = token_claims typ sid now expiry (toUser r)"
  by (simp add: token_claims_def toUser_def rehashed_def)

text \<open>
  C9. Every logged-in user can take over every account, an administrator's too. Whoever holds an access
  token of any role, a viewer's for instance, may set the password of another user over
  \<^verbatim>\<open>PUT /users/:id/password\<close> without giving the current one: the guard lets everybody pass, and the handler
  takes whoever is not the owner for an administrator. With the new password \<^verbatim>\<open>Login\<close> then opens a session
  with the identity and the role of that user.
\<close>

theorem any_user_takes_over_any_account:
  assumes "schema_ok (au_db st)" and "cx_authorization c = ''Bearer '' @ tok" and "tok \<noteq> []"
    and "fst (ValidateAccessToken (sqlite_auth cfg jwt sha256 bc) now tok st) = Inr claims"
    and "UserRole_IsValid (tc_Role claims)"
    and "r \<in> set (db_users (au_db st))" and "user_alive r" and "ur_status r = StatusActive" and "ur_username r \<noteq> []"
    and "cx_param c ''id'' = ur_id r" and "tc_UserID claims \<noteq> ur_id r"
    and "8 \<le> length pw" and "length pw \<le> 128" and "bc_hash bc pw = Inr h" and "bc_check bc h pw"
    and "signs jwt (ac_JWTSecret cfg) (token_claims TokenTypeAccess gen later (later + ac_JWTExpiration cfg) (toUser r)) access"
    and "signs jwt (ac_JWTSecret cfg) (token_claims TokenTypeRefresh gen later (later + ac_RefreshExpiration cfg) (toUser r)) refresh"
    and "ds_lookup (au_sessions st) gen = None"
  shows "\<exists>st' resp st''.
     serve_users (sqlite_auth cfg jwt sha256 bc) gen' now
       (RUpdatePassword (Some \<lparr>pui_CurrentPassword = [], pui_NewPassword = pw\<rparr>)) c st = (NoContent, st') \<and>
     Login (sqlite_auth cfg jwt sha256 bc) gen later \<lparr>li_Username = ur_username r, li_Password = pw\<rparr> ua ip st' =
       (Inr resp, st'') \<and>
     ui_ID (ar_User resp) = ur_id r \<and> ui_Role (ar_User resp) = ur_role r"
proof -
  let ?svc = "sqlite_auth cfg jwt sha256 bc" and ?d = "with_password now (ur_id r) h (au_db st)"
  let ?st1 = "snd (ValidateAccessToken ?svc now tok st)"
  let ?st2 = "snd (ValidateAccessToken ?svc now tok ?st1)"
  let ?in = "\<lparr>pui_CurrentPassword = [], pui_NewPassword = pw\<rparr>"
  let ?pair = "NewTokenPair access refresh (later + ac_JWTExpiration cfg) (later + ac_RefreshExpiration cfg)"
  let ?user = "toUser (rehashed now h r)"
  have pw: "pw \<noteq> []" using assms(12) by auto
  note again = db_auth.validate_again [OF assms(4)]
  note eq = us_UpdatePassword_eq [OF assms(1,6,7,12,13,14), of now]
  have "serve_users ?svc gen' now (RUpdatePassword (Some ?in)) c st =
      UpdatePassword bc now (Some ?in) (with_claims claims c) ?st2"
    using assms(2,5)
    by (simp add: serve_users_def OwnerOrAdmin_admits Auth_accepts [OF assms(2,3,4)] Auth_accepts [OF _ assms(3) again(1)])
  also have "\<dots> = (NoContent, ?st2\<lparr>au_db := ?d\<rparr>)"
    using assms(10-13) eq(1) pw
    by (simp add: UpdatePassword_def is_self_def PasswordUpdateInput_Validate_def answer_def Let_def)
  finally have run: "serve_users ?svc gen' now (RUpdatePassword (Some ?in)) c st = (NoContent, ?st2\<lparr>au_db := ?d\<rparr>)" .
  have pair: "generateTokenPair ?svc gen later ?user = Inr (?pair,
      NewAuthSession later gen (usr_ID ?user) (hashToken ?svc refresh) (later + ac_RefreshExpiration cfg))"
    using generateTokenPair_signed [of ?svc gen later ?user access refresh] assms(16,17) by simp
  have free: "ds_lookup (au_sessions (?st2\<lparr>au_db := ?d\<rparr>)) gen = None"
    using db_auth.validate_again(2) [OF again(1)] again(2) assms(18) by simp
  have user: "IsActive ?user" "usr_PasswordHash ?user = h" "usr_ID ?user = ur_id r" "usr_Role ?user = ur_role r"
    using assms(8) by (simp_all add: IsActive_def toUser_def rehashed_def)
  obtain s' where "Login ?svc gen later \<lparr>li_Username = ur_username r, li_Password = pw\<rparr> ua ip (?st2\<lparr>au_db := ?d\<rparr>) =
      (Inr \<lparr>ar_User = UserInfoFromUser ?user, ar_Tokens = ?pair\<rparr>, s')"
    using db_auth.Login_opens [of "\<lparr>li_Username = ur_username r, li_Password = pw\<rparr>" "?st2\<lparr>au_db := ?d\<rparr>" ?user ?d cfg jwt
        sha256 bc gen later ?pair _ ua ip, OF _ _ _ _ pair free]
      GetByUsername_rehashed [OF eq(2) assms(6,7)] assms(9,15) user pw
    by (auto simp: LoginInput_Validate_def)
  then show ?thesis
    using run user(3,4) by (auto simp: UserInfoFromUser_def)
qed

text \<open>
  C38. A role that was taken away still counts until the token expires. An access token with the role of an administrator that
  was accepted keeps all its power after the user has been demoted, deactivated or deleted: over
  \<^verbatim>\<open>DELETE /users/:id\<close> it still deletes another user's account. The middleware takes the role from the token
  and never looks at the user.
\<close>

theorem demoted_admin_still_deletes:
  assumes "fst (ValidateAccessToken (sqlite_auth cfg jwt sha256 bc) now tok st) = Inr claims"
    and "tc_Role claims = RoleAdmin"
    and "us_UpdateRole now (tc_UserID claims) role (au_db st) = (Inr (), d1) \<or>
         us_UpdateStatus now (tc_UserID claims) status (au_db st) = (Inr (), d1) \<or>
         us_Delete now (tc_UserID claims) (au_db st) = (Inr (), d1)"
    and "schema_ok d1" and "r \<in> set (db_users d1)" and "user_alive r" and "ur_id r \<noteq> tc_UserID claims"
    and "cx_authorization c = ''Bearer '' @ tok" and "tok \<noteq> []" and "cx_param c ''id'' = ur_id r"
  shows "\<exists>st'. serve_users (sqlite_auth cfg jwt sha256 bc) gen now RDeleteUser c (st\<lparr>au_db := d1\<rparr>) = (NoContent, st') \<and>
     usr_GetByID (ur_id r) (au_db st') = (Inl (NotFoundError ''user'' (ur_id r)), au_db st')"
proof -
  let ?svc = "sqlite_auth cfg jwt sha256 bc" and ?st = "st\<lparr>au_db := d1\<rparr>"
  let ?st2 = "snd (ValidateAccessToken ?svc now tok (snd (ValidateAccessToken ?svc now tok ?st)))"
  have "fst (ValidateAccessToken ?svc now tok ?st) = fst (ValidateAccessToken ?svc now tok st)"
    by (simp add: ValidateAccessToken_def split: sum.split)
  with assms(1) have ok: "fst (ValidateAccessToken ?svc now tok ?st) = Inr claims"
    by simp
  note eq = us_Delete_eq [OF assms(4-6), of now]
  have run: "serve_users ?svc gen now RDeleteUser c ?st = (NoContent, ?st2\<lparr>au_db := without_user now (ur_id r) d1\<rparr>)"
    using assms(2,7,8,10) eq(1)
    by (simp add: serve_users_def Auth_accepts [OF assms(8,9) ok]
        Auth_accepts [OF _ assms(9) db_auth.validate_again(1) [OF ok]] AdminOnly_admits DeleteUser_def is_self_def
        answer_def)
  have "\<not> (ur_id x = ur_id r \<and> user_alive x)" if "x \<in> set (db_users (without_user now (ur_id r) d1))" for x
    using without_user_rows [OF that] by auto
  then have "find (\<lambda>x. ur_id x = ur_id r \<and> user_alive x) (db_users (without_user now (ur_id r) d1)) = None"
    by (simp add: find_eq_None)
  then show ?thesis
    using run by (simp add: usr_GetByID_def get_user_def)
qed

section \<open>Witnesses\<close>

definition vic_logged_in :: "sessionRow list auth_state" where
  "vic_logged_in = snd (Login toy_auth ''v1'' 0 \<lparr>li_Username = ''vic'', li_Password = ''viewer-1''\<rparr> [] []
     \<lparr>au_db = auth_db, au_sessions = []\<rparr>)"

definition request :: "string \<Rightarrow> ID \<Rightarrow> echo_context" where
  "request tok i =
     \<lparr>cx_path = ''/users'', cx_authorization = ''Bearer '' @ tok, cx_param = (\<lambda>p. if p = ''id'' then i else []),
      cx_query = (\<lambda>_. []), cx_claims = None, cx_userId = None, cx_username = None, cx_userRole = None,
      cx_sessionId = None, cx_ctx_claims = None, cx_ctx_sessionId = None\<rparr>"

abbreviation vic_claims :: TokenClaims where
  "vic_claims \<equiv> jc_TokenClaims (token_claims TokenTypeAccess ''v1'' 0 (60 * Second) vic)"


theorem any_user_takes_over_any_account_witness:
  "\<exists>st' resp st''.
     serve_users toy_auth ''g'' (2 * Second)
       (RUpdatePassword (Some \<lparr>pui_CurrentPassword = [], pui_NewPassword = ''owned-by-vic''\<rparr>)) (request ''AV'' ''u1'') vic_logged_in =
       (NoContent, st') \<and>
     Login toy_auth ''s2'' (5 * Second) \<lparr>li_Username = ''ann'', li_Password = ''owned-by-vic''\<rparr> [] [] st' = (Inr resp, st'') \<and>
     ui_ID (ar_User resp) = ''u1'' \<and> ui_Role (ar_User resp) = RoleAdmin"
proof -
  let ?r = "auth_user ''u1'' ''ann'' RoleAdmin ''$secret-99''"
  have facts: "schema_ok (au_db vic_logged_in)"
    "fst (ValidateAccessToken toy_auth (2 * Second) ''AV'' vic_logged_in) = Inr vic_claims"
    "UserRole_IsValid (tc_Role vic_claims)" "?r \<in> set (db_users (au_db vic_logged_in))" "user_alive ?r"
    "ur_status ?r = StatusActive" "ur_username ?r \<noteq> []" "cx_param (request ''AV'' ''u1'') ''id'' = ur_id ?r"
    "tc_UserID vic_claims \<noteq> ur_id ?r" "ds_lookup (au_sessions vic_logged_in) ''s2'' = None"
    by code_simp+
  have cfg: "5 * Second + ac_JWTExpiration toy_config = 65 * Second" "5 * Second + ac_RefreshExpiration toy_config = 605 * Second"
    by (simp_all add: toy_config_def)
  have pw: "cx_authorization (request ''AV'' ''u1'') = ''Bearer '' @ ''AV''" "8 \<le> length ''owned-by-vic''"
    "length ''owned-by-vic'' \<le> 128" "bc_hash toy_bcrypt ''owned-by-vic'' = Inr ''$owned-by-vic''"
    "bc_check toy_bcrypt ''$owned-by-vic'' ''owned-by-vic''"
    by (simp_all add: request_def toy_bcrypt_def)
  have r: "ur_id ?r = ''u1''" "ur_username ?r = ''ann''" "ur_role ?r = RoleAdmin"
    by (simp_all add: auth_user_def)
  note signed = toy_tokens_sign(3,4) [of "ac_JWTSecret toy_config", folded cfg, unfolded ann_def]
  show ?thesis
    using any_user_takes_over_any_account [OF facts(1) pw(1) _ facts(2-9) pw(2-5) signed facts(10)]
    unfolding r by blast
qed

theorem demoted_admin_still_deletes_witness:
  "\<exists>d1 st'. us_UpdateRole (2 * Second) ''u1'' RoleViewer (au_db logged_in) = (Inr (), d1) \<and>
     serve_users toy_auth ''g'' (2 * Second) RDeleteUser (request ''A1'' ''u2'') (logged_in\<lparr>au_db := d1\<rparr>) = (NoContent, st') \<and>
     usr_GetByID ''u2'' (au_db st') = (Inl (NotFoundError ''user'' ''u2''), au_db st')"
proof -
  let ?c = "jc_TokenClaims (token_claims TokenTypeAccess ''s1'' 0 (60 * Second) ann)"
  let ?d = "snd (us_UpdateRole (2 * Second) ''u1'' RoleViewer (au_db logged_in))"
  let ?r = "auth_user ''u2'' ''vic'' RoleViewer ''$viewer-1''"
  have facts: "fst (ValidateAccessToken toy_auth (2 * Second) ''A1'' logged_in) = Inr ?c" "tc_Role ?c = RoleAdmin"
    "fst (us_UpdateRole (2 * Second) ''u1'' RoleViewer (au_db logged_in)) = Inr ()"
    "schema_ok ?d" "?r \<in> set (db_users ?d)" "user_alive ?r" "ur_id ?r \<noteq> tc_UserID ?c"
    "cx_param (request ''A1'' ''u2'') ''id'' = ur_id ?r" "tc_UserID ?c = ''u1''"
    by code_simp+
  have run: "us_UpdateRole (2 * Second) ''u1'' RoleViewer (au_db logged_in) = (Inr (), ?d)"
    using facts(3) by (metis prod.collapse)
  have c: "cx_authorization (request ''A1'' ''u2'') = ''Bearer '' @ ''A1''" and r: "ur_id ?r = ''u2''"
    by (simp_all add: request_def auth_user_def)
  show ?thesis
    using demoted_admin_still_deletes [OF facts(1,2) _ facts(4-7) c _ facts(8), of RoleViewer] run
    unfolding r facts(9) by blast
qed

end
