(* ===== verification/Webhooks.thy ===== *)
theory Webhooks
  imports Attachments Sqlite_Users "HOL-Library.AList"
begin

text \<open>
  Webhooks and their delivery records, as \<^verbatim>\<open>internal/domain/webhook.go\<close> has them: the types, the validation of
  webhooks and inputs, and the methods that change a webhook.

  What \<^verbatim>\<open>url.Parse\<close> makes of a URL is an argument: its error text or the scheme and the host. A map of headers
  is a list of pairs with distinct names.
\<close>

section \<open>Events and status\<close>

type_synonym WebhookEvent = string
type_synonym WebhookStatus = string

definition WebhookEventMessageReceived :: WebhookEvent where
  "WebhookEventMessageReceived = ''message.received''"

definition WebhookEventMessageDeleted :: WebhookEvent where
  "WebhookEventMessageDeleted = ''message.deleted''"

definition WebhookEventMailboxCreated :: WebhookEvent where
  "WebhookEventMailboxCreated = ''mailbox.created''"

definition WebhookEventMailboxDeleted :: WebhookEvent where
  "WebhookEventMailboxDeleted = ''mailbox.deleted''"

definition WebhookEventUserCreated :: WebhookEvent where
  "WebhookEventUserCreated = ''user.created''"

lemmas WebhookEvent_defs = WebhookEventMessageReceived_def WebhookEventMessageDeleted_def
  WebhookEventMailboxCreated_def WebhookEventMailboxDeleted_def WebhookEventUserCreated_def

definition WebhookEvent_IsValid :: "WebhookEvent \<Rightarrow> bool" where
  "WebhookEvent_IsValid e \<longleftrightarrow> e \<in> {WebhookEventMessageReceived, WebhookEventMessageDeleted,
     WebhookEventMailboxCreated, WebhookEventMailboxDeleted, WebhookEventUserCreated}"

definition WebhookStatusActive :: WebhookStatus where
  "WebhookStatusActive = ''active''"

definition WebhookStatusInactive :: WebhookStatus where
  "WebhookStatusInactive = ''inactive''"

definition WebhookStatusFailed :: WebhookStatus where
  "WebhookStatusFailed = ''failed''"

lemma WebhookStatus_distinct [simp]:
  "WebhookStatusActive \<noteq> WebhookStatusInactive" "WebhookStatusActive \<noteq> WebhookStatusFailed"
  "WebhookStatusFailed \<noteq> WebhookStatusActive" "WebhookStatusInactive \<noteq> WebhookStatusFailed"
  by (simp_all add: WebhookStatusActive_def WebhookStatusInactive_def WebhookStatusFailed_def)

definition WebhookStatus_IsValid :: "WebhookStatus \<Rightarrow> bool" where
  "WebhookStatus_IsValid s \<longleftrightarrow> s \<in> {WebhookStatusActive, WebhookStatusInactive, WebhookStatusFailed}"

section \<open>Webhooks\<close>

record Webhook =
  wh_ID :: ID
  wh_UserID :: ID
  wh_Name :: string
  wh_URL :: string
  wh_Secret :: string
  wh_Events :: "WebhookEvent list"
  wh_Status :: WebhookStatus
  wh_Headers :: "(string \<times> string) list"
  wh_RetryCount :: int
  wh_MaxRetries :: int
  wh_TimeoutSeconds :: int
  wh_LastTriggeredAt :: "Timestamp option"
  wh_LastSuccessAt :: "Timestamp option"
  wh_LastFailureAt :: "Timestamp option"
  wh_LastError :: string
  wh_SuccessCount :: int
  wh_FailureCount :: int
  wh_CreatedAt :: Timestamp
  wh_UpdatedAt :: Timestamp

definition NewWebhook :: "Timestamp \<Rightarrow> ID \<Rightarrow> ID \<Rightarrow> string \<Rightarrow> string \<Rightarrow> WebhookEvent list \<Rightarrow> Webhook" where
  "NewWebhook now i userID name webhookURL events =
     \<lparr>wh_ID = i, wh_UserID = userID, wh_Name = name, wh_URL = webhookURL, wh_Secret = [], wh_Events = events,
      wh_Status = WebhookStatusActive, wh_Headers = [], wh_RetryCount = 0, wh_MaxRetries = 3,
      wh_TimeoutSeconds = 30, wh_LastTriggeredAt = None, wh_LastSuccessAt = None, wh_LastFailureAt = None,
      wh_LastError = [], wh_SuccessCount = 0, wh_FailureCount = 0, wh_CreatedAt = now, wh_UpdatedAt = now\<rparr>"

type_synonym url_parser = "string \<Rightarrow> string + string \<times> string"

definition isValidWebhookURL :: "url_parser \<Rightarrow> string \<Rightarrow> bool" where
  "isValidWebhookURL parse rawURL =
     (case parse rawURL of Inl _ \<Rightarrow> False
      | Inr (scheme, host) \<Rightarrow>
          (scheme = ''https'' \<or>
           scheme = ''http'' \<and> hd (Split host CHR '':'') \<in> {''localhost'', ''127.0.0.1''}) \<and> host \<noteq> [])"

text \<open>The checks the three validations share.\<close>

definition name_errors :: "string \<Rightarrow> string \<Rightarrow> ValidationErrors" where
  "name_errors msg name =
     (if name = [] then [(''name'', msg)]
      else errs_Add (length name > 100) ''name'' ''name must be at most 100 characters'')"

definition url_errors :: "url_parser \<Rightarrow> string \<Rightarrow> string \<Rightarrow> ValidationErrors" where
  "url_errors parse msg u =
     (if u = [] then [(''url'', msg)]
      else errs_Add (\<not> isValidWebhookURL parse u) ''url'' ''url must be a valid HTTPS URL'')"

definition event_errors :: "WebhookEvent list \<Rightarrow> ValidationErrors" where
  "event_errors events =
     (if events = [] then [(''events'', ''at least one event is required'')]
      else concat (map (\<lambda>(i, event). errs_Add (\<not> WebhookEvent_IsValid event) ''events''
             (''invalid event at index '' @ intToString (int i))) (enumerate 0 events)))"

definition retry_errors :: "int \<Rightarrow> ValidationErrors" where
  "retry_errors n =
     (if n < 0 then [(''maxRetries'', ''max retries cannot be negative'')]
      else errs_Add (n > 10) ''maxRetries'' ''max retries cannot exceed 10'')"

definition timeout_errors :: "int \<Rightarrow> ValidationErrors" where
  "timeout_errors n =
     (if n < 1 then [(''timeoutSeconds'', ''timeout must be at least 1 second'')]
      else errs_Add (n > 60) ''timeoutSeconds'' ''timeout cannot exceed 60 seconds'')"

definition errors_of :: "('a \<Rightarrow> ValidationErrors) \<Rightarrow> 'a option \<Rightarrow> ValidationErrors" where
  "errors_of f v = (case v of None \<Rightarrow> [] | Some x \<Rightarrow> f x)"

definition Webhook_Validate :: "url_parser \<Rightarrow> Webhook \<Rightarrow> ValidationErrors" where
  "Webhook_Validate parse w =
     errs_Add (ID_IsEmpty (wh_ID w)) ''id'' ''id is required'' @
     errs_Add (ID_IsEmpty (wh_UserID w)) ''userId'' ''user id is required'' @
     name_errors ''name is required'' (wh_Name w) @
     url_errors parse ''url is required'' (wh_URL w) @
     event_errors (wh_Events w) @
     errs_Add (\<not> WebhookStatus_IsValid (wh_Status w)) ''status'' ''invalid status'' @
     retry_errors (wh_MaxRetries w) @ timeout_errors (wh_TimeoutSeconds w)"

definition Webhook_Activate :: "Timestamp \<Rightarrow> Webhook \<Rightarrow> Webhook" where
  "Webhook_Activate now w = w\<lparr>wh_Status := WebhookStatusActive, wh_UpdatedAt := now\<rparr>"

definition Webhook_Deactivate :: "Timestamp \<Rightarrow> Webhook \<Rightarrow> Webhook" where
  "Webhook_Deactivate now w = w\<lparr>wh_Status := WebhookStatusInactive, wh_UpdatedAt := now\<rparr>"

definition Webhook_MarkAsFailed :: "Timestamp \<Rightarrow> string \<Rightarrow> Webhook \<Rightarrow> Webhook" where
  "Webhook_MarkAsFailed now errorMsg w =
     w\<lparr>wh_Status := WebhookStatusFailed, wh_LastError := errorMsg, wh_LastFailureAt := Some now, wh_UpdatedAt := now\<rparr>"

definition Webhook_IsActive :: "Webhook \<Rightarrow> bool" where
  "Webhook_IsActive w \<longleftrightarrow> wh_Status w = WebhookStatusActive"

definition SubscribesToEvent :: "Webhook \<Rightarrow> WebhookEvent \<Rightarrow> bool" where
  "SubscribesToEvent w event \<longleftrightarrow> event \<in> set (wh_Events w)"

definition Webhook_AddEvent :: "Timestamp \<Rightarrow> WebhookEvent \<Rightarrow> Webhook \<Rightarrow> bool \<times> Webhook" where
  "Webhook_AddEvent now event w =
     (if SubscribesToEvent w event then (False, w)
      else (True, w\<lparr>wh_Events := wh_Events w @ [event], wh_UpdatedAt := now\<rparr>))"

definition Webhook_RemoveEvent :: "Timestamp \<Rightarrow> WebhookEvent \<Rightarrow> Webhook \<Rightarrow> bool \<times> Webhook" where
  "Webhook_RemoveEvent now event w =
     (if SubscribesToEvent w event then (True, w\<lparr>wh_Events := remove1 event (wh_Events w), wh_UpdatedAt := now\<rparr>)
      else (False, w))"

definition Webhook_RecordSuccess :: "Timestamp \<Rightarrow> Webhook \<Rightarrow> Webhook" where
  "Webhook_RecordSuccess now w =
     w\<lparr>wh_LastTriggeredAt := Some now, wh_LastSuccessAt := Some now, wh_SuccessCount := wh_SuccessCount w + 1,
       wh_RetryCount := 0, wh_LastError := [], wh_UpdatedAt := now\<rparr>"

definition Webhook_RecordFailure :: "Timestamp \<Rightarrow> string \<Rightarrow> Webhook \<Rightarrow> Webhook" where
  "Webhook_RecordFailure now errorMsg w =
     (let w = w\<lparr>wh_LastTriggeredAt := Some now, wh_LastFailureAt := Some now, wh_LastError := errorMsg,
                wh_FailureCount := wh_FailureCount w + 1, wh_RetryCount := wh_RetryCount w + 1, wh_UpdatedAt := now\<rparr>
      in if wh_RetryCount w > wh_MaxRetries w then w\<lparr>wh_Status := WebhookStatusFailed\<rparr> else w)"

definition ShouldRetry :: "Webhook \<Rightarrow> bool" where
  "ShouldRetry w \<longleftrightarrow> wh_RetryCount w \<le> wh_MaxRetries w \<and> wh_Status w \<noteq> WebhookStatusFailed"

definition Webhook_ResetRetryCount :: "Timestamp \<Rightarrow> Webhook \<Rightarrow> Webhook" where
  "Webhook_ResetRetryCount now w = w\<lparr>wh_RetryCount := 0, wh_UpdatedAt := now\<rparr>"

definition Webhook_SetHeader :: "Timestamp \<Rightarrow> string \<Rightarrow> string \<Rightarrow> Webhook \<Rightarrow> Webhook" where
  "Webhook_SetHeader now name v w = w\<lparr>wh_Headers := AList.update name v (wh_Headers w), wh_UpdatedAt := now\<rparr>"

definition Webhook_RemoveHeader :: "Timestamp \<Rightarrow> string \<Rightarrow> Webhook \<Rightarrow> Webhook" where
  "Webhook_RemoveHeader now name w = w\<lparr>wh_Headers := AList.delete name (wh_Headers w), wh_UpdatedAt := now\<rparr>"

section \<open>Inputs\<close>

record WebhookCreateInput =
  wci_Name :: string
  wci_URL :: string
  wci_Secret :: string
  wci_Events :: "WebhookEvent list"
  wci_Headers :: "(string \<times> string) list option"
  wci_MaxRetries :: "int option"
  wci_TimeoutSeconds :: "int option"

definition WebhookCreateInput_Validate :: "url_parser \<Rightarrow> WebhookCreateInput \<Rightarrow> ValidationErrors" where
  "WebhookCreateInput_Validate parse i =
     name_errors ''name is required'' (TrimSpace (wci_Name i)) @
     url_errors parse ''url is required'' (TrimSpace (wci_URL i)) @
     event_errors (wci_Events i) @
     errors_of retry_errors (wci_MaxRetries i) @ errors_of timeout_errors (wci_TimeoutSeconds i)"

definition WebhookCreateInput_Normalize :: "WebhookCreateInput \<Rightarrow> WebhookCreateInput" where
  "WebhookCreateInput_Normalize i = i\<lparr>wci_Name := TrimSpace (wci_Name i), wci_URL := TrimSpace (wci_URL i)\<rparr>"

record WebhookUpdateInput =
  wui_Name :: "string option"
  wui_URL :: "string option"
  wui_Secret :: "string option"
  wui_Events :: "WebhookEvent list option"
  wui_Status :: "WebhookStatus option"
  wui_Headers :: "(string \<times> string) list option"
  wui_MaxRetries :: "int option"
  wui_TimeoutSeconds :: "int option"

definition WebhookUpdateInput_Validate :: "url_parser \<Rightarrow> WebhookUpdateInput \<Rightarrow> ValidationErrors" where
  "WebhookUpdateInput_Validate parse i =
     errors_of (\<lambda>v. name_errors ''name cannot be empty'' (TrimSpace v)) (wui_Name i) @
     errors_of (\<lambda>v. url_errors parse ''url cannot be empty'' (TrimSpace v)) (wui_URL i) @
     errors_of event_errors (wui_Events i) @
     errors_of (\<lambda>s. errs_Add (\<not> WebhookStatus_IsValid s) ''status'' ''invalid status'') (wui_Status i) @
     errors_of retry_errors (wui_MaxRetries i) @ errors_of timeout_errors (wui_TimeoutSeconds i)"

definition WebhookUpdateInput_Apply :: "Timestamp \<Rightarrow> WebhookUpdateInput \<Rightarrow> Webhook \<Rightarrow> Webhook" where
  "WebhookUpdateInput_Apply now i w =
     (let w = set_opt (wui_Name i) (\<lambda>v. wh_Name_update (\<lambda>_. TrimSpace v)) w;
          w = set_opt (wui_URL i) (\<lambda>v. wh_URL_update (\<lambda>_. TrimSpace v)) w;
          w = set_opt (wui_Secret i) (\<lambda>v. wh_Secret_update (\<lambda>_. v)) w;
          w = set_opt (wui_Events i) (\<lambda>v. wh_Events_update (\<lambda>_. v)) w;
          w = set_opt (wui_Status i) (\<lambda>v. wh_Status_update (\<lambda>_. v)) w;
          w = set_opt (wui_Headers i) (\<lambda>v. wh_Headers_update (\<lambda>_. v)) w;
          w = set_opt (wui_MaxRetries i) (\<lambda>v. wh_MaxRetries_update (\<lambda>_. v)) w;
          w = set_opt (wui_TimeoutSeconds i) (\<lambda>v. wh_TimeoutSeconds_update (\<lambda>_. v)) w
      in w\<lparr>wh_UpdatedAt := now\<rparr>)"

section \<open>Deliveries\<close>

record WebhookDelivery =
  wd_ID :: ID
  wd_WebhookID :: ID
  wd_Event :: WebhookEvent
  wd_Payload :: string
  wd_StatusCode :: int
  wd_Response :: string
  wd_Error :: string
  wd_Success :: bool
  wd_Duration :: int
  wd_AttemptNumber :: int
  wd_CreatedAt :: Timestamp

definition NewWebhookDelivery ::
  "Timestamp \<Rightarrow> ID \<Rightarrow> ID \<Rightarrow> WebhookEvent \<Rightarrow> string \<Rightarrow> int \<Rightarrow> WebhookDelivery" where
  "NewWebhookDelivery now i webhookID event payload attemptNumber =
     \<lparr>wd_ID = i, wd_WebhookID = webhookID, wd_Event = event, wd_Payload = payload, wd_StatusCode = 0,
      wd_Response = [], wd_Error = [], wd_Success = False, wd_Duration = 0, wd_AttemptNumber = attemptNumber,
      wd_CreatedAt = now\<rparr>"

text \<open>The error is its text, \<open>None\<close> for nil.\<close>

definition RecordResult :: "int \<Rightarrow> string \<Rightarrow> string option \<Rightarrow> int \<Rightarrow> WebhookDelivery \<Rightarrow> WebhookDelivery" where
  "RecordResult statusCode response err durationMs d =
     (let d = d\<lparr>wd_StatusCode := statusCode, wd_Response := response, wd_Duration := durationMs\<rparr>
      in case err of Some e \<Rightarrow> d\<lparr>wd_Error := e, wd_Success := False\<rparr>
         | None \<Rightarrow> d\<lparr>wd_Success := (200 \<le> statusCode \<and> statusCode < 300)\<rparr>)"

end
