(* ===== verification/Sqlite_Webhooks.thy ===== *)
theory Sqlite_Webhooks
  imports Webhooks "HOL-Library.Sublist"
begin

text \<open>
  The webhook repository of \<^verbatim>\<open>internal/repository/sqlite/webhook.go\<close>, on the two tables \<^verbatim>\<open>webhooks\<close> and
  \<^verbatim>\<open>webhook_deliveries\<close>. A column that holds JSON is its decoded value; the \<^verbatim>\<open>LIKE\<close> conditions on the events
  look at the text the encoder writes.
\<close>

section \<open>Tables\<close>

record webhookRow =
  wr_id :: ID
  wr_user_id :: ID
  wr_name :: string
  wr_url :: string
  wr_secret :: "string option"
  wr_events :: "string list"
  wr_status :: string
  wr_headers :: "(string \<times> string) list option"
  wr_retry_count :: int
  wr_max_retries :: int
  wr_timeout_seconds :: int
  wr_last_triggered_at :: "instant option"
  wr_last_success_at :: "instant option"
  wr_last_failure_at :: "instant option"
  wr_last_error :: "string option"
  wr_success_count :: int
  wr_failure_count :: int
  wr_created_at :: instant
  wr_updated_at :: instant

record webhookDeliveryRow =
  dr_id :: ID
  dr_webhook_id :: ID
  dr_event :: string
  dr_payload :: string
  dr_status_code :: "int option"
  dr_response :: "string option"
  dr_error :: "string option"
  dr_success :: bool
  dr_duration :: int
  dr_attempt_number :: int
  dr_created_at :: instant

text \<open>The two tables, and the IDs of the users that webhooks refer to.\<close>

record hooks =
  hk_users :: "ID list"
  hk_webhooks :: "webhookRow list"
  hk_deliveries :: "webhookDeliveryRow list"

definition hooks_ok :: "hooks \<Rightarrow> bool" where
  "hooks_ok h \<longleftrightarrow> distinct (map wr_id (hk_webhooks h)) \<and>
     list_all (\<lambda>r. wr_user_id r \<in> set (hk_users h)) (hk_webhooks h) \<and>
     distinct (map dr_id (hk_deliveries h)) \<and>
     list_all (\<lambda>r. dr_webhook_id r \<in> wr_id ` set (hk_webhooks h)) (hk_deliveries h)"

definition toWebhook :: "webhookRow \<Rightarrow> Webhook" where
  "toWebhook r =
     \<lparr>wh_ID = wr_id r, wh_UserID = wr_user_id r, wh_Name = wr_name r, wh_URL = wr_url r,
      wh_Secret = from_null (wr_secret r), wh_Events = wr_events r, wh_Status = wr_status r,
      wh_Headers = (case wr_headers r of None \<Rightarrow> [] | Some hs \<Rightarrow> hs), wh_RetryCount = wr_retry_count r,
      wh_MaxRetries = wr_max_retries r, wh_TimeoutSeconds = wr_timeout_seconds r,
      wh_LastTriggeredAt = wr_last_triggered_at r, wh_LastSuccessAt = wr_last_success_at r,
      wh_LastFailureAt = wr_last_failure_at r, wh_LastError = from_null (wr_last_error r),
      wh_SuccessCount = wr_success_count r, wh_FailureCount = wr_failure_count r,
      wh_CreatedAt = wr_created_at r, wh_UpdatedAt = wr_updated_at r\<rparr>"

definition row_of_webhook :: "Webhook \<Rightarrow> webhookRow" where
  "row_of_webhook w =
     \<lparr>wr_id = wh_ID w, wr_user_id = wh_UserID w, wr_name = wh_Name w, wr_url = wh_URL w,
      wr_secret = NullString (wh_Secret w), wr_events = wh_Events w, wr_status = wh_Status w,
      wr_headers = (if wh_Headers w = [] then None else Some (wh_Headers w)), wr_retry_count = wh_RetryCount w,
      wr_max_retries = wh_MaxRetries w, wr_timeout_seconds = wh_TimeoutSeconds w,
      wr_last_triggered_at = wh_LastTriggeredAt w, wr_last_success_at = wh_LastSuccessAt w,
      wr_last_failure_at = wh_LastFailureAt w, wr_last_error = NullString (wh_LastError w),
      wr_success_count = wh_SuccessCount w, wr_failure_count = wh_FailureCount w,
      wr_created_at = wh_CreatedAt w, wr_updated_at = wh_UpdatedAt w\<rparr>"

lemma toWebhook_row [simp]: "toWebhook (row_of_webhook w) = w"
  by (cases w) (simp add: toWebhook_def row_of_webhook_def)

definition toWebhookDelivery :: "webhookDeliveryRow \<Rightarrow> WebhookDelivery" where
  "toWebhookDelivery r =
     \<lparr>wd_ID = dr_id r, wd_WebhookID = dr_webhook_id r, wd_Event = dr_event r, wd_Payload = dr_payload r,
      wd_StatusCode = (case dr_status_code r of None \<Rightarrow> 0 | Some n \<Rightarrow> n), wd_Response = from_null (dr_response r),
      wd_Error = from_null (dr_error r), wd_Success = dr_success r, wd_Duration = dr_duration r,
      wd_AttemptNumber = dr_attempt_number r, wd_CreatedAt = dr_created_at r\<rparr>"

text \<open>The status code is stored as a 32-bit integer.\<close>

definition row_of_delivery :: "WebhookDelivery \<Rightarrow> webhookDeliveryRow" where
  "row_of_delivery d =
     \<lparr>dr_id = wd_ID d, dr_webhook_id = wd_WebhookID d, dr_event = wd_Event d, dr_payload = wd_Payload d,
      dr_status_code = (if wd_StatusCode d = 0 then None else Some (sint (word_of_int (wd_StatusCode d) :: 32 word))),
      dr_response = NullString (wd_Response d), dr_error = NullString (wd_Error d), dr_success = wd_Success d,
      dr_duration = wd_Duration d, dr_attempt_number = wd_AttemptNumber d, dr_created_at = wd_CreatedAt d\<rparr>"

section \<open>Statements\<close>

type_synonym 'a hookm = "hooks \<Rightarrow> (error + 'a) \<times> hooks"

definition hk_stmt :: "string \<Rightarrow> (hooks \<Rightarrow> hooks) \<Rightarrow> (hooks \<Rightarrow> 'a) \<Rightarrow> 'a hookm" where
  "hk_stmt msg f n h = (if hooks_ok (f h) then (Inr (n h), f h) else (Inl (Wrapped msg constraint_error), h))"

definition hk_andThen :: "'a hookm \<Rightarrow> ('a \<Rightarrow> 'b hookm) \<Rightarrow> 'b hookm" where
  "hk_andThen m f h = (case m h of (Inl e, h') \<Rightarrow> (Inl e, h') | (Inr x, h') \<Rightarrow> f x h')"

definition hk_query :: "(hooks \<Rightarrow> 'a) \<Rightarrow> 'a hookm" where
  "hk_query q h = (Inr (q h), h)"

definition hk_fail :: "error \<Rightarrow> 'a hookm" where
  "hk_fail e h = (Inl e, h)"

text \<open>\<^verbatim>\<open>UPDATE webhooks SET \<dots> WHERE id = ?\<close>, an error when no row is affected.\<close>

definition update_webhook :: "string \<Rightarrow> (webhookRow \<Rightarrow> webhookRow) \<Rightarrow> ID \<Rightarrow> unit hookm" where
  "update_webhook msg f i =
     hk_andThen (hk_stmt msg (\<lambda>h. h\<lparr>hk_webhooks := update_where (\<lambda>r. wr_id r = i) f (hk_webhooks h)\<rparr>)
         (\<lambda>h. count_where (\<lambda>r. wr_id r = i) (hk_webhooks h)))
       (\<lambda>rows. if rows = 0 then hk_fail (NotFoundError ''webhook'' i) else hk_query (\<lambda>_. ()))"

definition delete_webhooks :: "string \<Rightarrow> (webhookRow \<Rightarrow> bool) \<Rightarrow> int hookm" where
  "delete_webhooks msg P =
     hk_stmt msg (\<lambda>h. let gone = map wr_id (filter P (hk_webhooks h)) in
         h\<lparr>hk_webhooks := filter (\<lambda>r. \<not> P r) (hk_webhooks h),
           hk_deliveries := filter (\<lambda>r. dr_webhook_id r \<notin> set gone) (hk_deliveries h)\<rparr>)
       (\<lambda>h. count_where P (hk_webhooks h))"

section \<open>Listing\<close>

text \<open>\<^verbatim>\<open>json.Marshal\<close> of a list of strings, on ASCII: quotes, backslashes, control characters and the HTML characters are escaped.\<close>

definition hex_digit :: "nat \<Rightarrow> char" where
  "hex_digit n = (if n < 10 then char_of (48 + n) else char_of (87 + n))"

definition json_char :: "char \<Rightarrow> string" where
  "json_char ch =
     (let n = (of_char ch :: nat); esc = char_of (92 :: nat) in
      if n = 34 \<or> n = 92 then [esc, ch]
      else if n = 8 then [esc, CHR ''b''] else if n = 12 then [esc, CHR ''f'']
      else if n = 10 then [esc, CHR ''n''] else if n = 13 then [esc, CHR ''r''] else if n = 9 then [esc, CHR ''t'']
      else if n < 32 \<or> n = 60 \<or> n = 62 \<or> n = 38 then esc # ''u00'' @ [hex_digit (n div 16), hex_digit (n mod 16)]
      else [ch])"

definition json_string :: "string \<Rightarrow> string" where
  "json_string s = (let q = char_of (34 :: nat) in q # concat (map json_char s) @ [q])"

definition json_strings :: "string list \<Rightarrow> string" where
  "json_strings xs = CHR ''['' # Join (map json_string xs) '','' @ '']''"


text \<open>The filter of \<^verbatim>\<open>internal/repository/webhook.go\<close>.\<close>

record WebhookFilter =
  whf_IDs :: "ID list"
  whf_UserID :: "ID option"
  whf_UserIDs :: "ID list"
  whf_Status :: "WebhookStatus option"
  whf_Statuses :: "WebhookStatus list"
  whf_Event :: "WebhookEvent option"
  whf_Events :: "WebhookEvent list"
  whf_URL :: string
  whf_URLContains :: string
  whf_Name :: string
  whf_NameContains :: string
  whf_Search :: string
  whf_HasFailures :: "bool option"
  whf_LastTriggeredAfter :: "Timestamp option"
  whf_LastTriggeredBefore :: "Timestamp option"
  whf_NeverTriggered :: "bool option"
  whf_CreatedAfter :: "Timestamp option"
  whf_CreatedBefore :: "Timestamp option"

definition emptyWebhookFilter :: WebhookFilter where
  "emptyWebhookFilter =
     \<lparr>whf_IDs = [], whf_UserID = None, whf_UserIDs = [], whf_Status = None, whf_Statuses = [], whf_Event = None,
      whf_Events = [], whf_URL = [], whf_URLContains = [], whf_Name = [], whf_NameContains = [], whf_Search = [],
      whf_HasFailures = None, whf_LastTriggeredAfter = None, whf_LastTriggeredBefore = None,
      whf_NeverTriggered = None, whf_CreatedAfter = None, whf_CreatedBefore = None\<rparr>"

definition event_like :: "WebhookEvent \<Rightarrow> webhookRow \<Rightarrow> bool" where
  "event_like event r \<longleftrightarrow> like (''%'' @ event @ ''%'') (json_strings (wr_events r))"

definition wh_where :: "WebhookFilter option \<Rightarrow> webhookRow \<Rightarrow> bool" where
  "wh_where flt r \<longleftrightarrow>
     (case flt of None \<Rightarrow> True
      | Some f \<Rightarrow>
         when_set (whf_IDs f) (wr_id r \<in> set (whf_IDs f)) \<and>
         when_some (whf_UserID f) (\<lambda>u. wr_user_id r = u) \<and>
         when_set (whf_UserIDs f) (wr_user_id r \<in> set (whf_UserIDs f)) \<and>
         when_some (whf_Status f) (\<lambda>s. wr_status r = s) \<and>
         when_set (whf_Statuses f) (wr_status r \<in> set (whf_Statuses f)) \<and>
         when_some (whf_Event f) (\<lambda>e. event_like e r) \<and>
         when_set (whf_Events f) (list_ex (\<lambda>e. event_like e r) (whf_Events f)) \<and>
         when_set (whf_URL f) (wr_url r = whf_URL f) \<and>
         when_set (whf_URLContains f) (like (''%'' @ whf_URLContains f @ ''%'') (wr_url r)) \<and>
         when_set (whf_Name f) (wr_name r = whf_Name f) \<and>
         when_set (whf_NameContains f) (like (''%'' @ whf_NameContains f @ ''%'') (wr_name r)) \<and>
         when_set (whf_Search f)
           (let p = ''%'' @ whf_Search f @ ''%'' in like p (wr_name r) \<or> like p (wr_url r)) \<and>
         when_some (whf_HasFailures f) (\<lambda>b. if b then wr_failure_count r > 0 else wr_failure_count r = 0) \<and>
         when_some (whf_LastTriggeredAfter f) (\<lambda>t. compare_null (\<lambda>l. l > t) (wr_last_triggered_at r)) \<and>
         when_some (whf_LastTriggeredBefore f) (\<lambda>t. compare_null (\<lambda>l. l < t) (wr_last_triggered_at r)) \<and>
         when_some (whf_NeverTriggered f) (\<lambda>b. b \<longrightarrow> wr_last_triggered_at r = None) \<and>
         when_some (whf_CreatedAfter f) (\<lambda>t. wr_created_at r > t) \<and>
         when_some (whf_CreatedBefore f) (\<lambda>t. wr_created_at r < t))"

definition wh_sort_key :: "string \<Rightarrow> webhookRow \<Rightarrow> sql_value" where
  "wh_sort_key field r =
     (if field = ''name'' then STxt (wr_name r)
      else if field = ''url'' then STxt (wr_url r)
      else if field = ''status'' then STxt (wr_status r)
      else if field = ''successCount'' then SInt (wr_success_count r)
      else if field = ''failureCount'' then SInt (wr_failure_count r)
      else if field = ''lastTriggeredAt'' then (case wr_last_triggered_at r of None \<Rightarrow> SNull | Some t \<Rightarrow> SInt t)
      else if field = ''updatedAt'' then SInt (wr_updated_at r)
      else SInt (wr_created_at r))"

definition wh_List :: "WebhookFilter option \<Rightarrow> ListOptions option \<Rightarrow> Webhook ListResult hookm" where
  "wh_List flt opts =
     hk_query (\<lambda>h. let all = filter (wh_where flt) (hk_webhooks h);
                       rows = limit_offset (page_of opts) (sort_rows wh_sort_key ''createdAt'' opts all)
                   in list_result opts (int (length all)) (map toWebhook rows))"

definition wh_items :: "WebhookFilter \<Rightarrow> Webhook list hookm" where
  "wh_items f = hk_andThen (wh_List (Some f) None) (\<lambda>res. hk_query (\<lambda>_. lr_Items res))"

definition wh_ListByUser :: "ID \<Rightarrow> ListOptions option \<Rightarrow> Webhook ListResult hookm" where
  "wh_ListByUser userID opts = wh_List (Some (emptyWebhookFilter\<lparr>whf_UserID := Some userID\<rparr>)) opts"

definition ListByEvent :: "WebhookEvent \<Rightarrow> Webhook list hookm" where
  "ListByEvent event = wh_items (emptyWebhookFilter\<lparr>whf_Event := Some event\<rparr>)"

definition ListActiveByEvent :: "WebhookEvent \<Rightarrow> Webhook list hookm" where
  "ListActiveByEvent event =
     wh_items (emptyWebhookFilter\<lparr>whf_Event := Some event, whf_Status := Some WebhookStatusActive\<rparr>)"

definition GetActiveWebhooks :: "ListOptions option \<Rightarrow> Webhook ListResult hookm" where
  "GetActiveWebhooks opts = wh_List (Some (emptyWebhookFilter\<lparr>whf_Status := Some WebhookStatusActive\<rparr>)) opts"

definition GetFailedWebhooks :: "ListOptions option \<Rightarrow> Webhook ListResult hookm" where
  "GetFailedWebhooks opts = wh_List (Some (emptyWebhookFilter\<lparr>whf_Status := Some WebhookStatusFailed\<rparr>)) opts"

definition wh_Search :: "string \<Rightarrow> ListOptions option \<Rightarrow> Webhook ListResult hookm" where
  "wh_Search q opts = wh_List (Some (emptyWebhookFilter\<lparr>whf_Search := q\<rparr>)) opts"

definition GetWebhooksNeedingRetry :: "Webhook list hookm" where
  "GetWebhooksNeedingRetry =
     hk_query (\<lambda>h. map toWebhook (filter (\<lambda>r. wr_status r \<noteq> WebhookStatusFailed \<and>
       wr_retry_count r < wr_max_retries r \<and> wr_last_failure_at r \<noteq> None) (hk_webhooks h)))"

section \<open>Existence and counts\<close>

definition wh_GetByID :: "ID \<Rightarrow> Webhook hookm" where
  "wh_GetByID i =
     hk_andThen (hk_query (\<lambda>h. find (\<lambda>r. wr_id r = i) (hk_webhooks h)))
       (\<lambda>row. case row of None \<Rightarrow> hk_fail (NotFoundError ''webhook'' i) | Some r \<Rightarrow> hk_query (\<lambda>_. toWebhook r))"

definition wh_Exists :: "ID \<Rightarrow> bool hookm" where
  "wh_Exists i = hk_query (\<lambda>h. list_ex (\<lambda>r. wr_id r = i) (hk_webhooks h))"

definition ExistsByURL :: "ID \<Rightarrow> string \<Rightarrow> bool hookm" where
  "ExistsByURL userID u = hk_query (\<lambda>h. list_ex (\<lambda>r. wr_user_id r = userID \<and> wr_url r = u) (hk_webhooks h))"

definition wh_Count :: "WebhookFilter option \<Rightarrow> int hookm" where
  "wh_Count flt = hk_query (\<lambda>h. count_where (wh_where flt) (hk_webhooks h))"

definition wh_CountByUser :: "ID \<Rightarrow> int hookm" where
  "wh_CountByUser userID = hk_query (\<lambda>h. count_where (\<lambda>r. wr_user_id r = userID) (hk_webhooks h))"

definition wh_CountByStatus :: "(string \<times> int) list hookm" where
  "wh_CountByStatus =
     hk_query (\<lambda>h. map (\<lambda>s. (s, count_where (\<lambda>r. wr_status r = s) (hk_webhooks h)))
       (remdups (map wr_status (hk_webhooks h))))"

section \<open>Creating, updating and deleting\<close>

definition wh_Create :: "Webhook \<Rightarrow> unit hookm" where
  "wh_Create w =
     hk_andThen (ExistsByURL (wh_UserID w) (wh_URL w))
       (\<lambda>exists. if exists then hk_fail (AlreadyExistsError ''webhook'' ''url'' (wh_URL w))
          else hk_stmt ''failed to create webhook'' (\<lambda>h. h\<lparr>hk_webhooks := hk_webhooks h @ [row_of_webhook w]\<rparr>) (\<lambda>_. ()))"

text \<open>Every column but the key and the creation time is written.\<close>

definition wh_Update :: "instant \<Rightarrow> Webhook \<Rightarrow> unit hookm" where
  "wh_Update now w =
     hk_andThen (wh_Exists (wh_ID w))
       (\<lambda>exists. if \<not> exists then hk_fail (NotFoundError ''webhook'' (wh_ID w))
          else hk_stmt ''failed to update webhook''
            (\<lambda>h. h\<lparr>hk_webhooks := update_where (\<lambda>r. wr_id r = wh_ID w)
               (\<lambda>r. (row_of_webhook w)\<lparr>wr_id := wr_id r, wr_created_at := wr_created_at r, wr_updated_at := now\<rparr>)
               (hk_webhooks h)\<rparr>) (\<lambda>_. ()))"

definition wh_Delete :: "ID \<Rightarrow> unit hookm" where
  "wh_Delete i =
     hk_andThen (delete_webhooks ''failed to delete webhook'' (\<lambda>r. wr_id r = i))
       (\<lambda>rows. if rows = 0 then hk_fail (NotFoundError ''webhook'' i) else hk_query (\<lambda>_. ()))"

definition wh_DeleteByUser :: "ID \<Rightarrow> int hookm" where
  "wh_DeleteByUser userID = delete_webhooks ''failed to delete webhooks by user'' (\<lambda>r. wr_user_id r = userID)"

definition wh_UpdateStatus :: "instant \<Rightarrow> ID \<Rightarrow> WebhookStatus \<Rightarrow> unit hookm" where
  "wh_UpdateStatus now i status =
     update_webhook ''failed to update status'' (\<lambda>r. r\<lparr>wr_status := status, wr_updated_at := now\<rparr>) i"

definition wh_Activate :: "instant \<Rightarrow> ID \<Rightarrow> unit hookm" where
  "wh_Activate now i = wh_UpdateStatus now i WebhookStatusActive"

definition wh_Deactivate :: "instant \<Rightarrow> ID \<Rightarrow> unit hookm" where
  "wh_Deactivate now i = wh_UpdateStatus now i WebhookStatusInactive"

definition wh_MarkAsFailed :: "instant \<Rightarrow> ID \<Rightarrow> string \<Rightarrow> unit hookm" where
  "wh_MarkAsFailed now i errorMsg =
     update_webhook ''failed to mark webhook as failed''
       (\<lambda>r. r\<lparr>wr_status := WebhookStatusFailed, wr_last_error := Some errorMsg, wr_last_failure_at := Some now,
              wr_updated_at := now\<rparr>) i"

definition UpdateSecret :: "instant \<Rightarrow> ID \<Rightarrow> string \<Rightarrow> unit hookm" where
  "UpdateSecret now i secret =
     update_webhook ''failed to update secret'' (\<lambda>r. r\<lparr>wr_secret := NullString secret, wr_updated_at := now\<rparr>) i"

definition SetEvents :: "instant \<Rightarrow> ID \<Rightarrow> WebhookEvent list \<Rightarrow> unit hookm" where
  "SetEvents now i events =
     update_webhook ''failed to set events'' (\<lambda>r. r\<lparr>wr_events := events, wr_updated_at := now\<rparr>) i"

definition wh_AddEvent :: "instant \<Rightarrow> ID \<Rightarrow> WebhookEvent \<Rightarrow> bool hookm" where
  "wh_AddEvent now i event =
     hk_andThen (wh_GetByID i)
       (\<lambda>w. if SubscribesToEvent w event then hk_query (\<lambda>_. False)
          else hk_andThen (SetEvents now i (wh_Events (snd (Webhook_AddEvent now event w)))) (\<lambda>_. hk_query (\<lambda>_. True)))"

definition wh_RemoveEvent :: "instant \<Rightarrow> ID \<Rightarrow> WebhookEvent \<Rightarrow> bool hookm" where
  "wh_RemoveEvent now i event =
     hk_andThen (wh_GetByID i)
       (\<lambda>w. if \<not> SubscribesToEvent w event then hk_query (\<lambda>_. False)
          else hk_andThen (SetEvents now i (wh_Events (snd (Webhook_RemoveEvent now event w)))) (\<lambda>_. hk_query (\<lambda>_. True)))"

definition success_row :: "instant \<Rightarrow> webhookRow \<Rightarrow> webhookRow" where
  "success_row now r =
     r\<lparr>wr_success_count := wr_success_count r + 1, wr_last_triggered_at := Some now,
       wr_last_success_at := Some now, wr_retry_count := 0, wr_last_error := None, wr_updated_at := now\<rparr>"

definition failure_row :: "instant \<Rightarrow> string \<Rightarrow> webhookRow \<Rightarrow> webhookRow" where
  "failure_row now errorMsg r =
     r\<lparr>wr_failure_count := wr_failure_count r + 1, wr_retry_count := wr_retry_count r + 1,
       wr_last_triggered_at := Some now, wr_last_failure_at := Some now, wr_last_error := Some errorMsg,
       wr_updated_at := now\<rparr>"

definition wh_RecordSuccess :: "instant \<Rightarrow> ID \<Rightarrow> unit hookm" where
  "wh_RecordSuccess now i = update_webhook ''failed to record success'' (success_row now) i"

definition wh_RecordFailure :: "instant \<Rightarrow> ID \<Rightarrow> string \<Rightarrow> unit hookm" where
  "wh_RecordFailure now i errorMsg = update_webhook ''failed to record failure'' (failure_row now errorMsg) i"

definition wh_ResetRetryCount :: "instant \<Rightarrow> ID \<Rightarrow> unit hookm" where
  "wh_ResetRetryCount now i =
     update_webhook ''failed to reset retry count'' (\<lambda>r. r\<lparr>wr_retry_count := 0, wr_updated_at := now\<rparr>) i"

fun hk_bulk :: "(ID \<Rightarrow> unit hookm) \<Rightarrow> ID list \<Rightarrow> BulkOperation \<Rightarrow> BulkOperation hookm" where
  "hk_bulk op [] res h = (Inr res, h)"
| "hk_bulk op (i # ids) res h =
     (case op i h of (Inl e, h') \<Rightarrow> hk_bulk op ids (AddFailure i e res) h'
      | (Inr _, h') \<Rightarrow> hk_bulk op ids (AddSuccess res) h')"

definition BulkActivate :: "instant \<Rightarrow> ID list \<Rightarrow> BulkOperation hookm" where
  "BulkActivate now ids = hk_bulk (wh_Activate now) ids NewBulkOperation"

definition BulkDeactivate :: "instant \<Rightarrow> ID list \<Rightarrow> BulkOperation hookm" where
  "BulkDeactivate now ids = hk_bulk (wh_Deactivate now) ids NewBulkOperation"

definition wh_BulkDelete :: "ID list \<Rightarrow> BulkOperation hookm" where
  "wh_BulkDelete ids = hk_bulk wh_Delete ids NewBulkOperation"

section \<open>Delivery records\<close>

definition CreateDelivery :: "WebhookDelivery \<Rightarrow> unit hookm" where
  "CreateDelivery d =
     hk_stmt ''failed to create delivery'' (\<lambda>h. h\<lparr>hk_deliveries := hk_deliveries h @ [row_of_delivery d]\<rparr>) (\<lambda>_. ())"

definition GetDelivery :: "ID \<Rightarrow> WebhookDelivery hookm" where
  "GetDelivery i =
     hk_andThen (hk_query (\<lambda>h. find (\<lambda>r. dr_id r = i) (hk_deliveries h)))
       (\<lambda>row. case row of None \<Rightarrow> hk_fail (NotFoundError ''webhook delivery'' i)
          | Some r \<Rightarrow> hk_query (\<lambda>_. toWebhookDelivery r))"

text \<open>The newest first; only the pagination of the options is read.\<close>

definition newest_deliveries :: "(webhookDeliveryRow \<Rightarrow> bool) \<Rightarrow> hooks \<Rightarrow> webhookDeliveryRow list" where
  "newest_deliveries P h = order_by (\<lambda>r. SInt (dr_created_at r)) SortDesc (filter P (hk_deliveries h))"

definition list_deliveries ::
  "(webhookDeliveryRow \<Rightarrow> bool) \<Rightarrow> ListOptions option \<Rightarrow> WebhookDelivery ListResult hookm" where
  "list_deliveries P opts =
     hk_query (\<lambda>h. list_result opts (count_where P (hk_deliveries h))
       (map toWebhookDelivery (limit_offset (page_of opts) (newest_deliveries P h))))"

definition ListDeliveries :: "ID \<Rightarrow> ListOptions option \<Rightarrow> WebhookDelivery ListResult hookm" where
  "ListDeliveries webhookID opts = list_deliveries (\<lambda>r. dr_webhook_id r = webhookID) opts"

definition ListDeliveriesByEvent ::
  "ID \<Rightarrow> WebhookEvent \<Rightarrow> ListOptions option \<Rightarrow> WebhookDelivery ListResult hookm" where
  "ListDeliveriesByEvent webhookID event opts =
     list_deliveries (\<lambda>r. dr_webhook_id r = webhookID \<and> dr_event r = event) opts"

definition ListFailedDeliveries :: "ID \<Rightarrow> ListOptions option \<Rightarrow> WebhookDelivery ListResult hookm" where
  "ListFailedDeliveries webhookID opts = list_deliveries (\<lambda>r. dr_webhook_id r = webhookID \<and> \<not> dr_success r) opts"

definition ListRecentDeliveries :: "instant \<Rightarrow> ID \<Rightarrow> int \<Rightarrow> WebhookDelivery list hookm" where
  "ListRecentDeliveries now webhookID hours =
     hk_query (\<lambda>h. map toWebhookDelivery
       (newest_deliveries (\<lambda>r. dr_webhook_id r = webhookID \<and> dr_created_at r > now - hours * Hour) h))"

definition delete_deliveries :: "string \<Rightarrow> (webhookDeliveryRow \<Rightarrow> bool) \<Rightarrow> int hookm" where
  "delete_deliveries msg P =
     hk_stmt msg (\<lambda>h. h\<lparr>hk_deliveries := filter (\<lambda>r. \<not> P r) (hk_deliveries h)\<rparr>) (\<lambda>h. count_where P (hk_deliveries h))"

definition DeleteDeliveries :: "ID \<Rightarrow> int hookm" where
  "DeleteDeliveries webhookID = delete_deliveries ''failed to delete deliveries'' (\<lambda>r. dr_webhook_id r = webhookID)"

definition DeleteOldDeliveries :: "instant \<Rightarrow> int \<Rightarrow> int hookm" where
  "DeleteOldDeliveries now olderThanDays =
     delete_deliveries ''failed to delete old deliveries'' (\<lambda>r. dr_created_at r < days_before now olderThanDays)"

section \<open>Delivery statistics\<close>

text \<open>
  A \<^verbatim>\<open>float64\<close> is the fraction it is computed from, a pair of numerator and denominator: the success rate is a
  hundred times the successes over the deliveries, the average the sum of the durations over their number. The times are the
  greatest ones of the rows.
\<close>

record WebhookDeliveryStats =
  ds_TotalDeliveries :: int
  ds_SuccessfulDeliveries :: int
  ds_FailedDeliveries :: int
  ds_SuccessRate :: "int \<times> int"
  ds_AverageDuration :: "int \<times> int"
  ds_MaxDuration :: int
  ds_MinDuration :: int
  ds_LastDeliveryAt :: "Timestamp option"
  ds_LastSuccessAt :: "Timestamp option"
  ds_LastFailureAt :: "Timestamp option"

text \<open>\<^verbatim>\<open>MAX\<close> and \<^verbatim>\<open>MIN\<close> of a column: NULL over no rows.\<close>

fun sql_max :: "int list \<Rightarrow> int option" where
  "sql_max [] = None"
| "sql_max (x # xs) = (case sql_max xs of None \<Rightarrow> Some x | Some y \<Rightarrow> Some (max x y))"

fun sql_min :: "int list \<Rightarrow> int option" where
  "sql_min [] = None"
| "sql_min (x # xs) = (case sql_min xs of None \<Rightarrow> Some x | Some y \<Rightarrow> Some (min x y))"

definition or_zero :: "int option \<Rightarrow> int" where
  "or_zero v = (case v of None \<Rightarrow> 0 | Some n \<Rightarrow> n)"

definition delivery_stats :: "webhookDeliveryRow list \<Rightarrow> WebhookDeliveryStats" where
  "delivery_stats rs =
     (let n = int (length rs); good = count_where dr_success rs
      in \<lparr>ds_TotalDeliveries = n, ds_SuccessfulDeliveries = good, ds_FailedDeliveries = count_where (\<lambda>r. \<not> dr_success r) rs,
          ds_SuccessRate = (if n > 0 then (100 * good, n) else (0, 1)),
          ds_AverageDuration = (if n > 0 then (sum_list (map dr_duration rs), n) else (0, 1)),
          ds_MaxDuration = or_zero (sql_max (map dr_duration rs)),
          ds_MinDuration = or_zero (sql_min (map dr_duration rs)),
          ds_LastDeliveryAt = None, ds_LastSuccessAt = None, ds_LastFailureAt = None\<rparr>)"

definition repo_GetDeliveryStats :: "ID \<Rightarrow> WebhookDeliveryStats hookm" where
  "repo_GetDeliveryStats webhookID =
     hk_query (\<lambda>h. let rs = filter (\<lambda>r. dr_webhook_id r = webhookID) (hk_deliveries h)
                   in (delivery_stats rs)\<lparr>ds_LastDeliveryAt := sql_max (map dr_created_at rs),
                        ds_LastSuccessAt := sql_max (map dr_created_at (filter dr_success rs)),
                        ds_LastFailureAt := sql_max (map dr_created_at (filter (\<lambda>r. \<not> dr_success r) rs))\<rparr>)"

definition date_range :: "(Timestamp option \<times> Timestamp option) option \<Rightarrow> instant \<Rightarrow> bool" where
  "date_range dateRange t \<longleftrightarrow>
     (case dateRange of None \<Rightarrow> True | Some (a, b) \<Rightarrow> when_some a (\<lambda>a. t \<ge> a) \<and> when_some b (\<lambda>b. t \<le> b))"

text \<open>Without a \<^verbatim>\<open>COALESCE\<close> the sums over no rows are NULL, which the scan into an \<^verbatim>\<open>int64\<close> refuses.\<close>

definition GetDeliveryStatsByDateRange ::
  "ID \<Rightarrow> (Timestamp option \<times> Timestamp option) option \<Rightarrow> WebhookDeliveryStats hookm" where
  "GetDeliveryStatsByDateRange webhookID dateRange =
     hk_andThen (hk_query (\<lambda>h. filter (\<lambda>r. dr_webhook_id r = webhookID \<and> date_range dateRange (dr_created_at r)) (hk_deliveries h)))
       (\<lambda>rs. if rs = [] then hk_fail (Wrapped ''failed to get delivery stats by date range''
                 (OtherError ''converting NULL to int64 is unsupported''))
          else hk_query (\<lambda>_. delivery_stats rs))"

text \<open>\<^verbatim>\<open>DATE\<close> of an instant, as the number of the day.\<close>

definition sql_date :: "instant \<Rightarrow> int" where
  "sql_date t = t div (24 * Hour)"

definition GetDailyDeliveryCounts ::
  "ID \<Rightarrow> (Timestamp option \<times> Timestamp option) option \<Rightarrow> (int \<times> int) list hookm" where
  "GetDailyDeliveryCounts webhookID dateRange =
     hk_query (\<lambda>h. let days = map (\<lambda>r. sql_date (dr_created_at r))
                        (filter (\<lambda>r. dr_webhook_id r = webhookID \<and> date_range dateRange (dr_created_at r)) (hk_deliveries h))
                   in map (\<lambda>day. (day, count_where (\<lambda>x. x = day) days)) (sort (remdups days)))"

record EventCount =
  ec_Event :: WebhookEvent
  ec_Count :: int
  ec_SuccessCount :: int
  ec_FailureCount :: int

definition GetEventDeliveryCounts :: "ID \<Rightarrow> EventCount list hookm" where
  "GetEventDeliveryCounts webhookID =
     hk_query (\<lambda>h. let rs = filter (\<lambda>r. dr_webhook_id r = webhookID) (hk_deliveries h)
                   in order_by (\<lambda>c. SInt (ec_Count c)) SortDesc
                        (map (\<lambda>e. \<lparr>ec_Event = e, ec_Count = count_where (\<lambda>r. dr_event r = e) rs,
                                   ec_SuccessCount = count_where (\<lambda>r. dr_event r = e \<and> dr_success r) rs,
                                   ec_FailureCount = count_where (\<lambda>r. dr_event r = e \<and> \<not> dr_success r) rs\<rparr>)
                          (remdups (map dr_event rs))))"

section \<open>The statements of the model\<close>

lemma hk_query_apply [simp]: "hk_query q h = (Inr (q h), h)"
  by (simp add: hk_query_def)

lemma hk_fail_apply [simp]: "hk_fail e h = (Inl e, h)"
  by (simp add: hk_fail_def)

lemma hk_andThen_query [simp]: "hk_andThen (hk_query q) f h = f (q h) h"
  by (simp add: hk_andThen_def)

lemma snd_hk_andThen: "snd (hk_andThen m f h) = (case m h of (Inl e, h') \<Rightarrow> h' | (Inr x, h') \<Rightarrow> snd (f x h'))"
  by (auto simp: hk_andThen_def split: prod.splits sum.splits)

lemma update_webhook_state:
  "snd (update_webhook msg f i h) =
     (let h' = h\<lparr>hk_webhooks := update_where (\<lambda>r. wr_id r = i) f (hk_webhooks h)\<rparr> in if hooks_ok h' then h' else h)"
  by (simp add: update_webhook_def snd_hk_andThen hk_stmt_def Let_def split: if_splits)

section \<open>Finding the subscribers of an event\<close>

text \<open>A \<^verbatim>\<open>LIKE\<close> pattern without wildcards of its own between two \<^verbatim>\<open>%\<close> finds the texts that contain it, in any case.\<close>

lemma like_any [simp]: "like ''%'' s"
  by (induction s) auto

lemma like_prefix: "plain p \<Longrightarrow> like (p @ ''%'') s \<longleftrightarrow> prefix (map lower_char p) (map lower_char s)"
proof (induction p arbitrary: s)
  case (Cons c p)
  then show ?case
    by (cases s) (auto simp: plain_def)
qed (simp only: append_Nil like_any list.map Nil_prefix)

lemma like_contains: "plain p \<Longrightarrow> like (''%'' @ p @ ''%'') s \<longleftrightarrow> sublist (map lower_char p) (map lower_char s)"
proof (induction s)
  case Nil
  then show ?case
    using like_prefix [of p "[]"] by (cases p) auto
next
  case (Cons c s)
  then show ?case
    using like_prefix [of p "c # s"] by (auto simp: sublist_Cons_right)
qed

text \<open>A text without a separator is in a text with one when it is on one of its sides.\<close>

lemma sublist_separated:
  assumes "q \<notin> set w"
  shows "sublist w (xs @ q # ys) \<longleftrightarrow> sublist w xs \<or> sublist w ys"
proof
  assume "sublist w (xs @ q # ys)"
  then consider "sublist w xs" | "sublist w (q # ys)"
    | us vs where "w = us @ vs" "suffix us xs" "prefix vs (q # ys)"
    by (auto simp: sublist_append)
  then show "sublist w xs \<or> sublist w ys"
  proof cases
    case 2
    then show ?thesis
      using assms by (auto simp: sublist_Cons_right prefix_Cons)
  next
    case 3
    then have "vs = []"
      using assms by (auto simp: prefix_Cons)
    with 3 show ?thesis
      by (simp add: suffix_imp_sublist)
  qed simp
next
  assume "sublist w xs \<or> sublist w ys"
  then show "sublist w (xs @ q # ys)"
    by (auto simp: sublist_append sublist_Cons_right)
qed

definition event_char :: "char \<Rightarrow> bool" where
  "event_char c \<longleftrightarrow> json_char c = [c] \<and> lower_char c = c \<and> c \<notin> set ''%_[],''"

definition event_text :: "string \<Rightarrow> bool" where
  "event_text w \<longleftrightarrow> list_all event_char w"

lemma event_text_json: "event_text e \<Longrightarrow> json_string e = char_of (34 :: nat) # e @ [char_of (34 :: nat)]"
proof -
  assume "event_text e"
  then have "concat (map json_char e) = e"
    by (induction e) (auto simp: event_text_def event_char_def)
  then show ?thesis
    by (simp add: json_string_def Let_def)
qed

lemma event_text_lower: "event_text e \<Longrightarrow> map lower_char e = e"
  by (induction e) (auto simp: event_text_def event_char_def)

lemma event_text_literal: "event_text e \<Longrightarrow> plain e"
  by (auto simp: event_text_def event_char_def plain_def list_all_iff)

lemma sublist_one: "sublist w [c] \<longleftrightarrow> w = [] \<or> w = [c]"
  by (auto simp: sublist_Cons_right prefix_Cons)

text \<open>So the text of an event is in the JSON text of a list of events when it is in one of them.\<close>

lemma event_in_joined:
  assumes "event_text w" and "w \<noteq> []" and "list_all event_text es"
  shows "sublist w (map lower_char (Join (map json_string es) '','')) \<longleftrightarrow> (\<exists>e \<in> set es. sublist w e)"
  using assms(3)
proof (induction es)
  case Nil
  then show ?case
    using assms(2) by simp
next
  case (Cons e es)
  have "\<not> event_char (char_of (34 :: nat))" "\<not> event_char CHR '',''"
    by code_simp+
  then have no: "char_of (34 :: nat) \<notin> set w" "CHR '','' \<notin> set w"
    using assms(1) by (auto simp: event_text_def list_all_iff)
  have q: "lower_char (char_of (34 :: nat)) = char_of (34 :: nat)" "lower_char CHR '','' = CHR '',''"
    by code_simp+
  have one: "sublist w (map lower_char (json_string e)) \<longleftrightarrow> sublist w e"
    using Cons.prems assms(2) sublist_separated [OF no(1), of "[]"] sublist_separated [OF no(1), of e "[]"]
    by (simp add: event_text_json event_text_lower q)
  show ?case
  proof (cases es)
    case Nil
    then show ?thesis
      using one by simp
  next
    case (Cons f fs)
    then have "Join (map json_string (e # es)) '','' = json_string e @ CHR '','' # Join (map json_string es) '',''"
      by simp
    then show ?thesis
      using one Cons.IH Cons.prems sublist_separated [OF no(2), of "map lower_char (json_string e)"]
      by (simp add: q)
  qed
qed

lemma event_in_json:
  assumes "event_text w" and "w \<noteq> []" and "list_all event_text es"
  shows "like (''%'' @ w @ ''%'') (json_strings es) \<longleftrightarrow> (\<exists>e \<in> set es. sublist w e)"
proof -
  have "\<not> event_char CHR ''[''" "\<not> event_char CHR '']''"
    by code_simp+
  then have no: "CHR ''['' \<notin> set w" "CHR '']'' \<notin> set w"
    using assms(1) by (auto simp: event_text_def list_all_iff)
  have q: "lower_char CHR ''['' = CHR ''[''" "lower_char CHR '']'' = CHR '']''"
    by code_simp+
  have "like (''%'' @ w @ ''%'') (json_strings es) \<longleftrightarrow> sublist w (map lower_char (json_strings es))"
    by (simp only: like_contains [OF event_text_literal [OF assms(1)]] event_text_lower [OF assms(1)])
  then show ?thesis
    using assms(2) sublist_separated [OF no(1), of "[]"] sublist_separated [OF no(2), of _ "[]"]
    by (simp only:) (simp add: json_strings_def q event_in_joined [OF assms])
qed

definition all_events :: "WebhookEvent list" where
  "all_events = [WebhookEventMessageReceived, WebhookEventMessageDeleted, WebhookEventMailboxCreated,
     WebhookEventMailboxDeleted, WebhookEventUserCreated]"

lemma IsValid_iff: "WebhookEvent_IsValid e \<longleftrightarrow> e \<in> set all_events"
  by (auto simp: WebhookEvent_IsValid_def all_events_def)

lemma valid_events_apart:
  assumes "WebhookEvent_IsValid e" and "WebhookEvent_IsValid e'"
  shows "sublist e e' \<longleftrightarrow> e = e'"
proof -
  have "list_all (\<lambda>e. list_all (\<lambda>e'. sublist e e' = (e = e')) all_events) all_events"
    by code_simp
  then show ?thesis
    using assms by (simp only: IsValid_iff list_all_iff)
qed

lemma valid_event_text:
  assumes "WebhookEvent_IsValid e"
  shows "event_text e" and "e \<noteq> []"
proof -
  have "list_all (\<lambda>e. event_text e \<and> e \<noteq> []) all_events"
    by code_simp
  then show "event_text e" and "e \<noteq> []"
    using assms by (auto simp only: IsValid_iff list_all_iff)
qed

lemma event_like_iff:
  assumes "WebhookEvent_IsValid event" and "list_all WebhookEvent_IsValid (wr_events r)"
  shows "event_like event r \<longleftrightarrow> event \<in> set (wr_events r)"
proof -
  have "list_all event_text (wr_events r)"
    using assms(2) by (auto simp: list_all_iff valid_event_text)
  then have "event_like event r \<longleftrightarrow> (\<exists>e \<in> set (wr_events r). sublist event e)"
    unfolding event_like_def by (intro event_in_json valid_event_text assms(1))
  also have "\<dots> \<longleftrightarrow> event \<in> set (wr_events r)"
    using assms valid_events_apart by (auto simp: list_all_iff)
  finally show ?thesis .
qed

text \<open>The rows of the webhooks hold only events that exist.\<close>

definition events_valid :: "hooks \<Rightarrow> bool" where
  "events_valid h \<longleftrightarrow> list_all (\<lambda>r. list_all WebhookEvent_IsValid (wr_events r)) (hk_webhooks h)"

definition all_webhooks :: "hooks \<Rightarrow> Webhook list" where
  "all_webhooks h = map toWebhook (order_by (\<lambda>r. SInt (wr_created_at r)) SortDesc (hk_webhooks h))"

lemma filter_order_by: "filter P (order_by k ord rs) = order_by k ord (filter P rs)"
  by (simp add: order_by_def filter_sort rev_filter [symmetric])

lemma ListActiveByEvent_rows:
  "ListActiveByEvent event h =
     (Inr (map toWebhook (order_by (\<lambda>r. SInt (wr_created_at r)) SortDesc
        (filter (\<lambda>r. wr_status r = WebhookStatusActive \<and> event_like event r) (hk_webhooks h)))), h)"
proof -
  have k: "wh_sort_key ''createdAt'' = (\<lambda>r. SInt (wr_created_at r))"
    by (simp add: fun_eq_iff wh_sort_key_def)
  have w: "wh_where (Some (emptyWebhookFilter\<lparr>whf_Event := Some event, whf_Status := Some WebhookStatusActive\<rparr>)) =
      (\<lambda>r. wr_status r = WebhookStatusActive \<and> event_like event r)"
    by (auto simp: fun_eq_iff wh_where_def emptyWebhookFilter_def when_set_def when_some_def)
  show ?thesis
    by (simp add: ListActiveByEvent_def wh_items_def wh_List_def w k Let_def list_result_def page_of_def
        limit_offset_def sort_rows_def)
qed

text \<open>
  C22. The event filter of the repository is a \<^verbatim>\<open>LIKE\<close> on the JSON text of the subscriptions. When the stored events are valid
  ones it is exact: \<^verbatim>\<open>ListActiveByEvent\<close> returns the webhooks, newest first, that are active and subscribe to the event in the
  sense of the domain methods, and changes nothing.
\<close>

theorem active_subscribers_found:
  assumes "events_valid h" and "WebhookEvent_IsValid event"
  shows "ListActiveByEvent event h =
    (Inr (filter (\<lambda>w. Webhook_IsActive w \<and> SubscribesToEvent w event) (all_webhooks h)), h)"
proof -
  let ?active = "\<lambda>r. wr_status r = WebhookStatusActive"
  have "filter (\<lambda>r. ?active r \<and> event_like event r) (hk_webhooks h) =
      filter (\<lambda>r. ?active r \<and> event \<in> set (wr_events r)) (hk_webhooks h)"
    using assms by (intro filter_cong) (auto simp: events_valid_def list_all_iff event_like_iff)
  moreover have "(\<lambda>w. Webhook_IsActive w \<and> SubscribesToEvent w event) \<circ> toWebhook =
      (\<lambda>r. ?active r \<and> event \<in> set (wr_events r))"
    by (simp add: fun_eq_iff Webhook_IsActive_def SubscribesToEvent_def toWebhook_def)
  ultimately show ?thesis
    by (simp add: ListActiveByEvent_rows all_webhooks_def filter_map filter_order_by)
qed

text \<open>Two users with a webhook each.\<close>

definition sample_hooks :: hooks where
  "sample_hooks =
     \<lparr>hk_users = [''u1'', ''u2''],
      hk_webhooks =
        [row_of_webhook (NewWebhook 1 ''w1'' ''u1'' ''mine'' ''https://a/'' [WebhookEventMessageReceived]),
         row_of_webhook (NewWebhook 2 ''w2'' ''u2'' ''other'' ''https://b/'' [WebhookEventMailboxCreated, WebhookEventMessageReceived])],
      hk_deliveries = []\<rparr>"

theorem active_subscribers_found_witness:
  "ListActiveByEvent WebhookEventMailboxCreated sample_hooks =
     (Inr [NewWebhook 2 ''w2'' ''u2'' ''other'' ''https://b/'' [WebhookEventMailboxCreated, WebhookEventMessageReceived]], sample_hooks)"
proof -
  have "events_valid sample_hooks" and "WebhookEvent_IsValid WebhookEventMailboxCreated"
    by code_simp+
  moreover have "filter (\<lambda>w. Webhook_IsActive w \<and> SubscribesToEvent w WebhookEventMailboxCreated) (all_webhooks sample_hooks) =
      [NewWebhook 2 ''w2'' ''u2'' ''other'' ''https://b/'' [WebhookEventMailboxCreated, WebhookEventMessageReceived]]"
    by code_simp
  ultimately show ?thesis
    using active_subscribers_found [of sample_hooks WebhookEventMailboxCreated] by simp
qed

end
