(* ===== verification/Webhook_Service.thy ===== *)
theory Webhook_Service
  imports Sqlite_Webhooks
begin

text \<open>
  The webhook service of \<^verbatim>\<open>internal/service/webhook.go\<close>: managing webhooks, and sending an event to every active
  webhook that subscribes to it, with retries and a record of every attempt.

  The generator of IDs, \<^verbatim>\<open>json.Marshal\<close>, the HMAC-SHA256 in hexadecimal, \<^verbatim>\<open>http.StatusText\<close> and \<^verbatim>\<open>url.Parse\<close> are
  the service's fields. A nil generator is \<open>None\<close>, and calling it panics.
\<close>

section \<open>The service and its answers\<close>

datatype event_data =
    MessageEventData ID ID string string "string list" instant
  | MailboxEventData ID string string
  | MapData "(string \<times> string) list"

record WebhookPayload =
  wp_ID :: string
  wp_Event :: WebhookEvent
  wp_Timestamp :: instant
  wp_Data :: event_data

record WebhookService =
  ws_idGenerator :: "(nat \<Rightarrow> ID) option"
  ws_marshal :: "WebhookPayload \<Rightarrow> string + string"
  ws_hmac :: "string \<Rightarrow> string \<Rightarrow> string"
  ws_StatusText :: "int \<Rightarrow> string"
  ws_parse :: url_parser

datatype 'a hook_answer = Answer "error + 'a" | Panic

type_synonym 'a callm = "hooks \<Rightarrow> 'a hook_answer \<times> hooks"

definition answers :: "'a hookm \<Rightarrow> 'a callm" where
  "answers m h = (case m h of (r, h') \<Rightarrow> (Answer r, h'))"

definition wsvc_error :: "string \<Rightarrow> string \<Rightarrow> error \<Rightarrow> error" where
  "wsvc_error op msg e = Wrapped (''webhook service '' @ op @ '': '' @ msg) e"

definition hk_wrap :: "string \<Rightarrow> string \<Rightarrow> 'a hookm \<Rightarrow> 'a hookm" where
  "hk_wrap op msg m h =
     (case m h of (Inl e, h') \<Rightarrow> (Inl (wsvc_error op msg e), h') | (Inr x, h') \<Rightarrow> (Inr x, h'))"

definition hk_require :: "string \<Rightarrow> string \<Rightarrow> ID \<Rightarrow> 'a hookm \<Rightarrow> 'a hookm" where
  "hk_require op msg i m = (if ID_IsEmpty i then hk_fail (wsvc_error op msg (Sentinel ErrInvalidInput)) else m)"

section \<open>Managing webhooks\<close>

definition input_webhook :: "instant \<Rightarrow> ID \<Rightarrow> ID \<Rightarrow> WebhookCreateInput \<Rightarrow> Webhook" where
  "input_webhook now i userID input =
     (let w = NewWebhook now i userID (wci_Name input) (wci_URL input) (wci_Events input);
          w = (if wci_Secret input \<noteq> [] then w\<lparr>wh_Secret := wci_Secret input\<rparr> else w);
          w = set_opt (wci_Headers input) (\<lambda>v. wh_Headers_update (\<lambda>_. v)) w;
          w = set_opt (wci_MaxRetries input) (\<lambda>v. wh_MaxRetries_update (\<lambda>_. v)) w
      in set_opt (wci_TimeoutSeconds input) (\<lambda>v. wh_TimeoutSeconds_update (\<lambda>_. v)) w)"

definition CreateWebhook :: "WebhookService \<Rightarrow> nat \<Rightarrow> instant \<Rightarrow> ID \<Rightarrow> WebhookCreateInput \<Rightarrow> Webhook callm" where
  "CreateWebhook svc k now userID input h =
     (if ID_IsEmpty userID then (Answer (Inl (wsvc_error ''create'' ''user ID is required'' (Sentinel ErrInvalidInput))), h)
      else let input = WebhookCreateInput_Normalize input; errs = WebhookCreateInput_Validate (ws_parse svc) input
      in if errs \<noteq> [] then (Answer (Inl (ValidationErrs errs)), h)
      else case ExistsByURL userID (wci_URL input) h of
          (Inl e, h) \<Rightarrow> (Answer (Inl (wsvc_error ''create'' ''failed to check for duplicate URL'' e)), h)
        | (Inr exists, h) \<Rightarrow>
            if exists
            then (Answer (Inl (wsvc_error ''create'' ''webhook with this URL already exists'' (Sentinel ErrAlreadyExists))), h)
            else case ws_idGenerator svc of
                None \<Rightarrow> (Panic, h)
              | Some gen \<Rightarrow>
                  let w = input_webhook now (gen k) userID input
                  in answers (hk_andThen (hk_wrap ''create'' ''failed to create webhook'' (wh_Create w)) (\<lambda>_. hk_query (\<lambda>_. w))) h)"

definition GetWebhook :: "ID \<Rightarrow> Webhook hookm" where
  "GetWebhook i = hk_require ''get'' ''webhook ID is required'' i (hk_wrap ''get'' ''failed to get webhook'' (wh_GetByID i))"

definition GetWebhookForUser :: "ID \<Rightarrow> ID \<Rightarrow> Webhook hookm" where
  "GetWebhookForUser i userID =
     hk_andThen (GetWebhook i)
       (\<lambda>w. if wh_UserID w \<noteq> userID then hk_fail (wsvc_error ''get'' ''webhook not found'' (Sentinel ErrNotFound))
          else hk_query (\<lambda>_. w))"

definition ListWebhooks :: "WebhookFilter option \<Rightarrow> ListOptions option \<Rightarrow> Webhook ListResult hookm" where
  "ListWebhooks flt opts = hk_wrap ''list'' ''failed to list webhooks'' (wh_List flt opts)"

definition ListWebhooksByUser :: "ID \<Rightarrow> ListOptions option \<Rightarrow> Webhook ListResult hookm" where
  "ListWebhooksByUser userID opts =
     hk_require ''list_by_user'' ''user ID is required'' userID
       (hk_wrap ''list_by_user'' ''failed to list webhooks by user'' (wh_ListByUser userID opts))"

text \<open>What both updates do with the webhook they have found: the URL is looked up among \<open>owner\<close>'s webhooks as it was sent.\<close>

definition checked_update :: "instant \<Rightarrow> ID \<Rightarrow> WebhookUpdateInput \<Rightarrow> Webhook \<Rightarrow> Webhook hookm" where
  "checked_update now owner input w =
     (let save = hk_andThen (hk_wrap ''update'' ''failed to update webhook'' (wh_Update now (WebhookUpdateInput_Apply now input w)))
                   (\<lambda>_. hk_query (\<lambda>_. WebhookUpdateInput_Apply now input w))
      in case wui_URL input of None \<Rightarrow> save
         | Some u \<Rightarrow> if u = wh_URL w then save
             else hk_andThen (hk_wrap ''update'' ''failed to check for duplicate URL'' (ExistsByURL owner u))
               (\<lambda>exists. if exists
                  then hk_fail (wsvc_error ''update'' ''webhook with this URL already exists'' (Sentinel ErrAlreadyExists))
                  else save))"

definition UpdateWebhook :: "WebhookService \<Rightarrow> instant \<Rightarrow> ID \<Rightarrow> WebhookUpdateInput \<Rightarrow> Webhook hookm" where
  "UpdateWebhook svc now i input =
     hk_require ''update'' ''webhook ID is required'' i
       (let errs = WebhookUpdateInput_Validate (ws_parse svc) input
        in if errs \<noteq> [] then hk_fail (ValidationErrs errs)
           else hk_andThen (hk_wrap ''update'' ''failed to get webhook'' (wh_GetByID i))
             (\<lambda>w. checked_update now (wh_UserID w) input w))"

definition UpdateWebhookForUser :: "WebhookService \<Rightarrow> instant \<Rightarrow> ID \<Rightarrow> ID \<Rightarrow> WebhookUpdateInput \<Rightarrow> Webhook hookm" where
  "UpdateWebhookForUser svc now i userID input =
     hk_andThen (GetWebhookForUser i userID)
       (\<lambda>w. let errs = WebhookUpdateInput_Validate (ws_parse svc) input
            in if errs \<noteq> [] then hk_fail (ValidationErrs errs) else checked_update now userID input w)"

definition DeleteWebhook :: "ID \<Rightarrow> unit hookm" where
  "DeleteWebhook i =
     hk_require ''delete'' ''webhook ID is required'' i (hk_wrap ''delete'' ''failed to delete webhook'' (wh_Delete i))"

definition DeleteWebhookForUser :: "ID \<Rightarrow> ID \<Rightarrow> unit hookm" where
  "DeleteWebhookForUser i userID = hk_andThen (GetWebhookForUser i userID) (\<lambda>_. DeleteWebhook i)"

definition ActivateWebhook :: "instant \<Rightarrow> ID \<Rightarrow> unit hookm" where
  "ActivateWebhook now i =
     hk_require ''activate'' ''webhook ID is required'' i
       (hk_wrap ''activate'' ''failed to activate webhook'' (wh_Activate now i))"

definition DeactivateWebhook :: "instant \<Rightarrow> ID \<Rightarrow> unit hookm" where
  "DeactivateWebhook now i =
     hk_require ''deactivate'' ''webhook ID is required'' i
       (hk_wrap ''deactivate'' ''failed to deactivate webhook'' (wh_Deactivate now i))"

definition svc_ListDeliveries :: "ID \<Rightarrow> ListOptions option \<Rightarrow> WebhookDelivery ListResult hookm" where
  "svc_ListDeliveries webhookID opts =
     hk_require ''list_deliveries'' ''webhook ID is required'' webhookID
       (hk_wrap ''list_deliveries'' ''failed to list deliveries'' (ListDeliveries webhookID opts))"

definition svc_GetDeliveryStats :: "ID \<Rightarrow> WebhookDeliveryStats hookm" where
  "svc_GetDeliveryStats webhookID =
     hk_require ''get_delivery_stats'' ''webhook ID is required'' webhookID
       (hk_wrap ''get_delivery_stats'' ''failed to get delivery stats'' (repo_GetDeliveryStats webhookID))"

section \<open>Requests\<close>

text \<open>\<^verbatim>\<open>Header.Set\<close> writes under the canonical name: the first letter and each one after a hyphen in upper case, the others
  in lower case, when every byte is a token character.\<close>

definition upper_char :: "char \<Rightarrow> char" where
  "upper_char c = (let n = (of_char c :: nat) in if 97 \<le> n \<and> n \<le> 122 then char_of (n - 32) else c)"

fun canonical_from :: "bool \<Rightarrow> string \<Rightarrow> string" where
  "canonical_from up [] = []"
| "canonical_from up (c # s) = (if up then upper_char c else lower_char c) # canonical_from (c = CHR ''-'') s"

definition token_char :: "char \<Rightarrow> bool" where
  "token_char c \<longleftrightarrow> (let n = (of_char c :: nat) in
     33 \<le> n \<and> n \<le> 126 \<and> n \<notin> {34, 40, 41, 44, 47, 58, 59, 60, 61, 62, 63, 64, 91, 92, 93, 123, 125})"

definition CanonicalHeaderKey :: "string \<Rightarrow> string" where
  "CanonicalHeaderKey s = (if list_all token_char s then canonical_from True s else s)"

definition Header_Set :: "string \<Rightarrow> string \<Rightarrow> (string \<times> string) list \<Rightarrow> (string \<times> string) list" where
  "Header_Set name v hs = AList.update (CanonicalHeaderKey name) v hs"

record hook_request =
  rq_URL :: string
  rq_Headers :: "(string \<times> string) list"
  rq_Body :: string
  rq_Timeout :: int

definition signPayload :: "WebhookService \<Rightarrow> string \<Rightarrow> string \<Rightarrow> string" where
  "signPayload svc payload secret = ws_hmac svc secret payload"

definition webhook_headers :: "WebhookService \<Rightarrow> Webhook \<Rightarrow> WebhookEvent \<Rightarrow> string \<Rightarrow> ID \<Rightarrow> (string \<times> string) list" where
  "webhook_headers svc w event body deliveryID =
     (let hs = Header_Set ''Content-Type'' ''application/json'' [];
          hs = Header_Set ''User-Agent'' ''Yunt-Webhook/1.0'' hs;
          hs = Header_Set ''X-Webhook-ID'' (wh_ID w) hs;
          hs = Header_Set ''X-Webhook-Event'' event hs;
          hs = Header_Set ''X-Webhook-Delivery'' deliveryID hs;
          signature = signPayload svc body (wh_Secret w);
          hs = (if wh_Secret w \<noteq> []
                then Header_Set ''X-Webhook-Signature-256'' (''sha256='' @ signature)
                       (Header_Set ''X-Webhook-Signature'' signature hs)
                else hs)
      in fold (\<lambda>(name, v). Header_Set name v) (wh_Headers w) hs)"

text \<open>The timeout of the client in seconds, the service's own client having thirty.\<close>

definition webhook_request :: "WebhookService \<Rightarrow> Webhook \<Rightarrow> WebhookEvent \<Rightarrow> string \<Rightarrow> ID \<Rightarrow> hook_request" where
  "webhook_request svc w event body deliveryID =
     \<lparr>rq_URL = wh_URL w, rq_Headers = webhook_headers svc w event body deliveryID, rq_Body = body,
      rq_Timeout = (if wh_TimeoutSeconds w > 0 then wh_TimeoutSeconds w else 30)\<rparr>"

definition http_error :: "WebhookService \<Rightarrow> int \<Rightarrow> string" where
  "http_error svc statusCode = ''HTTP '' @ intToString statusCode @ '': '' @ ws_StatusText svc statusCode"

text \<open>The 64 KB of a response that are read.\<close>

definition read_limited :: "string \<Rightarrow> string" where
  "read_limited body = take 65536 body"

section \<open>Dispatching\<close>

text \<open>
  What the goroutine of one webhook meets, by the number of the attempt: the ID it gets from the generator, the clock, whether the
  context is done while it waits, what \<^verbatim>\<open>client.Do\<close> answers (an error, or the status code and the body) and the time it takes, and
  whether the database accepts the two statements that record the attempt. The code logs a refusal and goes on.
\<close>

record dispatch_env =
  de_id :: "int \<Rightarrow> ID"
  de_now :: "int \<Rightarrow> instant"
  de_done :: "int \<Rightarrow> bool"
  de_Do :: "int \<Rightarrow> hook_request \<Rightarrow> string + int \<times> string"
  de_ms :: "int \<Rightarrow> int"
  de_saves :: "int \<Rightarrow> bool"
  de_counts :: "int \<Rightarrow> bool"

text \<open>A dispatch reads nothing from the database: it is a list of statements, which the goroutines of an event interleave.\<close>

datatype hook_stmt =
    SaveDelivery WebhookDelivery
  | CountSuccess instant ID
  | CountFailure instant ID string

fun exec_stmt :: "hook_stmt \<Rightarrow> hooks \<Rightarrow> hooks" where
  "exec_stmt (SaveDelivery d) h = snd (CreateDelivery d h)"
| "exec_stmt (CountSuccess now i) h = snd (wh_RecordSuccess now i h)"
| "exec_stmt (CountFailure now i e) h = snd (wh_RecordFailure now i e h)"

definition recordDeliverySuccess ::
  "dispatch_env \<Rightarrow> int \<Rightarrow> Webhook \<Rightarrow> WebhookDelivery \<Rightarrow> int \<Rightarrow> string \<Rightarrow> int \<Rightarrow> hook_stmt list" where
  "recordDeliverySuccess env n w d statusCode response durationMs =
     (if de_saves env n then [SaveDelivery (RecordResult statusCode response None durationMs d)] else []) @
     (if de_counts env n then [CountSuccess (de_now env n) (wh_ID w)] else [])"

definition recordDeliveryFailure ::
  "dispatch_env \<Rightarrow> int \<Rightarrow> Webhook \<Rightarrow> WebhookDelivery \<Rightarrow> int \<Rightarrow> string \<Rightarrow> string \<Rightarrow> int \<Rightarrow> hook_stmt list" where
  "recordDeliveryFailure env n w d statusCode response err durationMs =
     (if de_saves env n then [SaveDelivery (RecordResult statusCode response (Some err) durationMs d)] else []) @
     (if de_counts env n then [CountFailure (de_now env n) (wh_ID w) err] else [])"

definition retryBackoff :: "int \<Rightarrow> duration" where
  "retryBackoff attempt =
     (let delay = wrap64 (wrap64 (2 ^ nat attempt) * Second)
      in if delay > 30 * Second then 30 * Second else delay)"

text \<open>One attempt: its statements, and whether the loop ends with it.\<close>

definition dispatch_attempt ::
  "WebhookService \<Rightarrow> dispatch_env \<Rightarrow> Webhook \<Rightarrow> WebhookEvent \<Rightarrow> string \<Rightarrow> int \<Rightarrow> hook_stmt list \<times> bool" where
  "dispatch_attempt svc env w event body n =
     (let d = NewWebhookDelivery (de_now env n) (de_id env n) (wh_ID w) event body n
      in case ws_parse svc (wh_URL w) of
           Inl err \<Rightarrow> (recordDeliveryFailure env n w d 0 [] err 0, True)
         | Inr _ \<Rightarrow>
             (case de_Do env n (webhook_request svc w event body (wd_ID d)) of
                Inl err \<Rightarrow> (recordDeliveryFailure env n w d 0 [] err (de_ms env n), False)
              | Inr (statusCode, response) \<Rightarrow>
                  (if 200 \<le> statusCode \<and> statusCode < 300
                   then (recordDeliverySuccess env n w d statusCode (read_limited response) (de_ms env n), True)
                   else (recordDeliveryFailure env n w d statusCode (read_limited response) (http_error svc statusCode)
                           (de_ms env n), 400 \<le> statusCode \<and> statusCode < 500))))"

function dispatch_from ::
  "WebhookService \<Rightarrow> dispatch_env \<Rightarrow> Webhook \<Rightarrow> WebhookEvent \<Rightarrow> string \<Rightarrow> int \<Rightarrow> hook_stmt list" where
  "dispatch_from svc env w event body n =
     (if n > wh_MaxRetries w + 1 \<or> (n > 1 \<and> de_done env n) then []
      else case dispatch_attempt svc env w event body n of
        (stmts, stop) \<Rightarrow> stmts @ (if stop then [] else dispatch_from svc env w event body (n + 1)))"
  by pat_completeness auto
termination
  by (relation "measure (\<lambda>(svc, env, w, event, body, n). nat (wh_MaxRetries w + 2 - n))") auto

declare dispatch_from.simps [simp del]

definition dispatchWebhook :: "WebhookService \<Rightarrow> dispatch_env \<Rightarrow> Webhook \<Rightarrow> WebhookPayload \<Rightarrow> hook_stmt list" where
  "dispatchWebhook svc env w payload =
     (case ws_marshal svc payload of
        Inl err \<Rightarrow> recordDeliveryFailure env 1 w
          (NewWebhookDelivery (de_now env 1) (de_id env 1) (wh_ID w) (wp_Event payload) [] 1) 0 [] err 0
      | Inr body \<Rightarrow> dispatch_from svc env w (wp_Event payload) body 1)"

text \<open>
  The goroutines run one statement at a time in the order of a schedule, a list of their numbers; when it is used up the others
  finish in order, since \<^verbatim>\<open>wg.Wait\<close> returns only after all. Every interleaving is the one of some schedule.
\<close>

fun interleave :: "nat list \<Rightarrow> 's list list \<Rightarrow> 's list" where
  "interleave [] pool = concat pool"
| "interleave (i # sched) pool =
     (if i < length pool \<and> pool ! i \<noteq> [] then hd (pool ! i) # interleave sched (pool[i := tl (pool ! i)])
      else interleave sched pool)"

section \<open>Events\<close>

definition event_payload :: "ID \<Rightarrow> instant \<Rightarrow> WebhookEvent \<Rightarrow> event_data \<Rightarrow> WebhookPayload" where
  "event_payload deliveryID now event data =
     \<lparr>wp_ID = deliveryID, wp_Event = event, wp_Timestamp = now, wp_Data = data\<rparr>"

definition TriggerEvent ::
  "WebhookService \<Rightarrow> (ID \<Rightarrow> dispatch_env) \<Rightarrow> nat list \<Rightarrow> nat \<Rightarrow> instant \<Rightarrow> WebhookEvent \<Rightarrow> event_data \<Rightarrow> unit callm" where
  "TriggerEvent svc envs sched k now event data h =
     (case ListActiveByEvent event h of
        (Inl e, h) \<Rightarrow> (Answer (Inl (wsvc_error ''trigger_event'' ''failed to list webhooks for event'' e)), h)
      | (Inr webhooks, h) \<Rightarrow>
          if webhooks = [] then (Answer (Inr ()), h)
          else case ws_idGenerator svc of
              None \<Rightarrow> (Panic, h)
            | Some gen \<Rightarrow>
                let payload = event_payload (gen k) now event data
                in (Answer (Inr ()),
                    fold exec_stmt (interleave sched (map (\<lambda>w. dispatchWebhook svc (envs (wh_ID w)) w payload) webhooks)) h))"

definition message_data :: "Message \<Rightarrow> event_data" where
  "message_data m =
     MessageEventData (msg_ID m) (msg_MailboxID m) (msg_Subject m) (ea_Address (msg_From m))
       (map ea_Address (msg_To m)) (msg_ReceivedAt m)"

definition TriggerMessageReceived ::
  "WebhookService \<Rightarrow> (ID \<Rightarrow> dispatch_env) \<Rightarrow> nat list \<Rightarrow> nat \<Rightarrow> instant \<Rightarrow> Message \<Rightarrow> unit callm" where
  "TriggerMessageReceived svc envs sched k now m =
     TriggerEvent svc envs sched k now WebhookEventMessageReceived (message_data m)"

definition TriggerMessageDeleted ::
  "WebhookService \<Rightarrow> (ID \<Rightarrow> dispatch_env) \<Rightarrow> nat list \<Rightarrow> nat \<Rightarrow> instant \<Rightarrow> ID \<Rightarrow> ID \<Rightarrow> unit callm" where
  "TriggerMessageDeleted svc envs sched k now messageID mailboxID =
     TriggerEvent svc envs sched k now WebhookEventMessageDeleted
       (MapData [(''messageId'', messageID), (''mailboxId'', mailboxID)])"

definition TriggerMailboxCreated ::
  "WebhookService \<Rightarrow> (ID \<Rightarrow> dispatch_env) \<Rightarrow> nat list \<Rightarrow> nat \<Rightarrow> instant \<Rightarrow> Mailbox \<Rightarrow> unit callm" where
  "TriggerMailboxCreated svc envs sched k now mailbox =
     TriggerEvent svc envs sched k now WebhookEventMailboxCreated
       (MailboxEventData (mb_ID mailbox) (mb_Name mailbox) (mb_Address mailbox))"

definition TriggerMailboxDeleted ::
  "WebhookService \<Rightarrow> (ID \<Rightarrow> dispatch_env) \<Rightarrow> nat list \<Rightarrow> nat \<Rightarrow> instant \<Rightarrow> ID \<Rightarrow> string \<Rightarrow> string \<Rightarrow> unit callm" where
  "TriggerMailboxDeleted svc envs sched k now mailboxID name email =
     TriggerEvent svc envs sched k now WebhookEventMailboxDeleted (MailboxEventData mailboxID name email)"

definition TriggerUserCreated ::
  "WebhookService \<Rightarrow> (ID \<Rightarrow> dispatch_env) \<Rightarrow> nat list \<Rightarrow> nat \<Rightarrow> instant \<Rightarrow> User \<Rightarrow> unit callm" where
  "TriggerUserCreated svc envs sched k now user =
     TriggerEvent svc envs sched k now WebhookEventUserCreated
       (MapData [(''userId'', usr_ID user), (''username'', usr_Username user), (''email'', usr_Email user),
                 (''role'', usr_Role user)])"

section \<open>Testing a webhook\<close>

text \<open>The endpoint answers as in an attempt; nothing is stored.\<close>

definition TestWebhook ::
  "WebhookService \<Rightarrow> (hook_request \<Rightarrow> string + int \<times> string) \<Rightarrow> int \<Rightarrow> nat \<Rightarrow> instant \<Rightarrow> ID \<Rightarrow> WebhookDelivery callm" where
  "TestWebhook svc send ms k now i h =
     (if ID_IsEmpty i then (Answer (Inl (wsvc_error ''test'' ''webhook ID is required'' (Sentinel ErrInvalidInput))), h)
      else case wh_GetByID i h of
        (Inl e, h) \<Rightarrow> (Answer (Inl (wsvc_error ''test'' ''failed to get webhook'' e)), h)
      | (Inr w, h) \<Rightarrow>
          case ws_idGenerator svc of
            None \<Rightarrow> (Panic, h)
          | Some gen \<Rightarrow>
              let payload = event_payload (gen k) now ''test''
                     (MapData [(''message'', ''This is a test webhook delivery from Yunt''), (''webhookId'', wh_ID w)])
              in case ws_marshal svc payload of
                   Inl err \<Rightarrow> (Answer (Inl (wsvc_error ''test'' ''failed to marshal payload'' (OtherError err))), h)
                 | Inr body \<Rightarrow>
                     let d = (NewWebhookDelivery now (gen k) (wh_ID w) ''test'' [] 1)\<lparr>wd_Payload := body\<rparr>
                     in case ws_parse svc (wh_URL w) of
                          Inl err \<Rightarrow> (Answer (Inl (wsvc_error ''test'' ''failed to create request'' (OtherError err))), h)
                        | Inr _ \<Rightarrow>
                            (case send (webhook_request svc w ''test'' body (gen k)) of
                               Inl err \<Rightarrow> (Answer (Inr (RecordResult 0 [] (Some err) ms d)), h)
                             | Inr (statusCode, response) \<Rightarrow>
                                 (Answer (Inr (RecordResult statusCode (read_limited response)
                                    (if 200 \<le> statusCode \<and> statusCode < 300 then None else Some (http_error svc statusCode)) ms d)), h)))"

definition TestWebhookForUser ::
  "WebhookService \<Rightarrow> (hook_request \<Rightarrow> string + int \<times> string) \<Rightarrow> int \<Rightarrow> nat \<Rightarrow> instant \<Rightarrow> ID \<Rightarrow> ID \<Rightarrow> WebhookDelivery callm" where
  "TestWebhookForUser svc send ms k now i userID h =
     (case GetWebhookForUser i userID h of
        (Inl e, h) \<Rightarrow> (Answer (Inl e), h)
      | (Inr _, h) \<Rightarrow> TestWebhook svc send ms k now i h)"

end
