(* ===== verification/Webhook_Dispatch.thy ===== *)
theory Webhook_Dispatch
  imports Webhook_Service "HOL-Library.Multiset"
begin

text \<open>
  What the concurrent delivery of an event does to the two tables: the goroutines of different webhooks do not disturb each other,
  whatever the order of their statements, and each one leaves an account of its attempts.
\<close>

section \<open>Interleavings\<close>

text \<open>Only the task \<open>i\<close> of the pool has elements with \<open>P\<close>.\<close>

definition only_task :: "('s \<Rightarrow> bool) \<Rightarrow> 's list list \<Rightarrow> nat \<Rightarrow> bool" where
  "only_task P pool i \<longleftrightarrow> (\<forall>j < length pool. j \<noteq> i \<longrightarrow> filter P (pool ! j) = [])"

lemma only_task_Cons:
  "only_task P (t # pool) i \<longleftrightarrow>
     (case i of 0 \<Rightarrow> (\<forall>u \<in> set pool. filter P u = []) | Suc k \<Rightarrow> filter P t = [] \<and> only_task P pool k)"
  by (auto simp: only_task_def All_less_Suc2 all_set_conv_all_nth split: nat.split)

lemma filter_concat_only:
  assumes "only_task P pool i"
  shows "filter P (concat pool) = (if i < length pool then filter P (pool ! i) else [])"
  using assms
proof (induction pool arbitrary: i)
  case (Cons t pool)
  then have "filter P (concat pool) = []" if "i = 0"
    using that by (auto simp: only_task_Cons filter_empty_conv)
  with Cons show ?case
    by (cases i) (auto simp: only_task_Cons)
qed simp

lemma filter_interleave:
  assumes "only_task P pool i"
  shows "filter P (interleave sched pool) = (if i < length pool then filter P (pool ! i) else [])"
  using assms
proof (induction sched arbitrary: pool)
  case Nil
  then show ?case
    by (simp add: filter_concat_only)
next
  case (Cons j sched)
  show ?case
  proof (cases "j < length pool \<and> pool ! j \<noteq> []")
    case True
    then obtain x t where t: "pool ! j = x # t" and j: "j < length pool"
      by (cases "pool ! j") auto
    have "only_task P (pool[j := t]) i"
      using Cons.prems t j by (auto simp: only_task_def nth_list_update dest!: spec [of _ j] split: if_splits)
    moreover have "\<not> P x" if "j \<noteq> i"
      using Cons.prems t j that by (auto simp: only_task_def dest!: spec [of _ j] split: if_splits)
    ultimately show ?thesis
      using Cons.IH [of "pool[j := t]"] t j by (cases "j = i") auto
  next
    case False
    then show ?thesis
      using Cons by auto
  qed
qed

lemma mset_concat_update:
  "j < length pool \<Longrightarrow> pool ! j = x # t \<Longrightarrow> mset (concat pool) = add_mset x (mset (concat (pool[j := t])))"
proof (induction pool arbitrary: j)
  case (Cons u pool)
  then show ?case
    by (cases j) auto
qed simp

lemma mset_interleave: "mset (interleave sched pool) = mset (concat pool)"
proof (induction sched arbitrary: pool)
  case (Cons j sched)
  show ?case
  proof (cases "j < length pool \<and> pool ! j \<noteq> []")
    case True
    then obtain x t where "pool ! j = x # t" and "j < length pool"
      by (cases "pool ! j") auto
    with Cons.IH [of "pool[j := t]"] mset_concat_update [of j pool x t] show ?thesis
      by simp
  next
    case False
    with Cons.IH show ?thesis
      by auto
  qed
qed simp

section \<open>Independent statements\<close>

text \<open>
  The interface the argument needs: every statement belongs to somebody, changes only what its owner sees, and does so by a function
  of what the owner sees. \<open>safe\<close> says of the statements still to come that the state accepts them, in any order.
\<close>

locale independent_statements =
  fixes exec :: "'s \<Rightarrow> 'h \<Rightarrow> 'h"
    and owner :: "'s \<Rightarrow> 'k"
    and sees :: "'k \<Rightarrow> 'h \<Rightarrow> 'v"
    and act :: "'s \<Rightarrow> 'v \<Rightarrow> 'v"
    and safe :: "'s list \<Rightarrow> 'h \<Rightarrow> bool"
  assumes safe_perm: "mset ss = mset ss' \<Longrightarrow> safe ss h = safe ss' h"
    and safe_tail: "safe (s # ss) h \<Longrightarrow> safe ss (exec s h)"
    and safe_part: "safe (ss @ ss') h \<Longrightarrow> safe ss h"
    and exec_sees: "safe (s # ss) h \<Longrightarrow> sees k (exec s h) = (if owner s = k then act s (sees k h) else sees k h)"
begin

lemma sees_fold: "safe ss h \<Longrightarrow> sees k (fold exec ss h) = fold act (filter (\<lambda>s. owner s = k) ss) (sees k h)"
proof (induction ss arbitrary: h)
  case (Cons s ss)
  then show ?case
    using safe_tail [OF Cons.prems] exec_sees [OF Cons.prems, of k] by simp
qed simp

lemma safe_fold: "safe (ss @ ss') h \<Longrightarrow> safe ss' (fold exec ss h)"
proof (induction ss arbitrary: h)
  case (Cons s ss)
  then show ?case
    using safe_tail [of s "ss @ ss'" h] by simp
qed simp

lemma safe_task:
  assumes "safe (concat pool) h" and "i < length pool"
  shows "safe (pool ! i) h"
proof -
  have "mset (concat pool) = mset (pool ! i @ concat (take i pool) @ concat (drop (Suc i) pool))"
    by (subst id_take_nth_drop [OF assms(2)]) simp
  with assms(1) show ?thesis
    using safe_perm [of "concat pool"] safe_part [of "pool ! i"] by blast
qed

text \<open>After any interleaving the owner of a task sees what it would see had its task run alone.\<close>

lemma sees_interleaved:
  assumes "safe (concat pool) h" and "only_task (\<lambda>s. owner s = k) pool i"
  shows "sees k (fold exec (interleave sched pool) h) =
    (if i < length pool then sees k (fold exec (pool ! i) h) else sees k h)"
proof -
  have "safe (interleave sched pool) h"
    using assms(1) safe_perm [OF mset_interleave] by blast
  then have "sees k (fold exec (interleave sched pool) h) =
      fold act (if i < length pool then filter (\<lambda>s. owner s = k) (pool ! i) else []) (sees k h)"
    by (simp add: sees_fold filter_interleave [OF assms(2)])
  then show ?thesis
    using safe_task [OF assms(1)] by (simp add: sees_fold)
qed

end

section \<open>The statements of a delivery\<close>

fun stmt_owner :: "hook_stmt \<Rightarrow> ID" where
  "stmt_owner (SaveDelivery d) = wd_WebhookID d"
| "stmt_owner (CountSuccess _ i) = i"
| "stmt_owner (CountFailure _ i _) = i"

text \<open>What the tables hold of one webhook: its row and its deliveries.\<close>

type_synonym hook_sight = "webhookRow option \<times> webhookDeliveryRow list"

definition hook_view :: "ID \<Rightarrow> hooks \<Rightarrow> hook_sight" where
  "hook_view i h = (find (\<lambda>r. wr_id r = i) (hk_webhooks h), filter (\<lambda>r. dr_webhook_id r = i) (hk_deliveries h))"

fun act_stmt :: "hook_stmt \<Rightarrow> hook_sight \<Rightarrow> hook_sight" where
  "act_stmt (SaveDelivery d) (row, ds) = (row, ds @ [row_of_delivery d])"
| "act_stmt (CountSuccess now _) (row, ds) = (map_option (success_row now) row, ds)"
| "act_stmt (CountFailure now _ e) (row, ds) = (map_option (failure_row now e) row, ds)"

fun saved :: "hook_stmt \<Rightarrow> WebhookDelivery list" where
  "saved (SaveDelivery d) = [d]"
| "saved (CountSuccess _ _) = []"
| "saved (CountFailure _ _ _) = []"

definition all_saved :: "hook_stmt list \<Rightarrow> WebhookDelivery list" where
  "all_saved ss = concat (map saved ss)"

text \<open>The records to come have new IDs and belong to webhooks that exist.\<close>

definition stmts_safe :: "hook_stmt list \<Rightarrow> hooks \<Rightarrow> bool" where
  "stmts_safe ss h \<longleftrightarrow> hooks_ok h \<and> distinct (map wd_ID (all_saved ss)) \<and>
     (\<forall>d \<in> set (all_saved ss). wd_ID d \<notin> dr_id ` set (hk_deliveries h) \<and> wd_WebhookID d \<in> wr_id ` set (hk_webhooks h))"

lemma all_saved_simps [simp]:
  "all_saved [] = []" "all_saved (s # ss) = saved s @ all_saved ss" "all_saved (ss @ ss') = all_saved ss @ all_saved ss'"
  by (simp_all add: all_saved_def)

lemma mset_all_saved: "mset (all_saved ss) = (\<Sum>s \<in># mset ss. mset (saved s))"
  by (induction ss) simp_all

lemma stmts_safe_perm:
  assumes "mset ss = mset ss'"
  shows "stmts_safe ss h = stmts_safe ss' h"
proof -
  have m: "mset (all_saved ss) = mset (all_saved ss')"
    by (simp add: mset_all_saved assms)
  then have "mset (map wd_ID (all_saved ss)) = mset (map wd_ID (all_saved ss'))"
    by simp
  then have "distinct (map wd_ID (all_saved ss)) = distinct (map wd_ID (all_saved ss'))"
    by (rule mset_eq_imp_distinct_iff)
  with mset_eq_setD [OF m] show ?thesis
    by (simp add: stmts_safe_def)
qed

lemma map_update_ids:
  assumes "\<And>r. wr_id (f r) = wr_id r"
  shows "map wr_id (update_where P f rs) = map wr_id rs"
  by (simp add: update_where_def assms)

lemma ids_update_where:
  assumes "\<And>r. wr_id (f r) = wr_id r"
  shows "wr_id ` set (update_where P f rs) = wr_id ` set rs"
  using map_update_ids [OF assms, of P rs] by (metis list.set_map)

lemma hooks_ok_update:
  assumes "hooks_ok h" and "\<And>r. wr_id (f r) = wr_id r" and "\<And>r. wr_user_id (f r) = wr_user_id r"
  shows "hooks_ok (h\<lparr>hk_webhooks := update_where P f (hk_webhooks h)\<rparr>)"
proof -
  have "list_all (\<lambda>r. wr_user_id r \<in> U) (update_where P f rs) = list_all (\<lambda>r. wr_user_id r \<in> U) rs" for U rs
    by (induction rs) (simp_all add: update_where_def assms(3))
  then show ?thesis
    using assms(1) by (simp add: hooks_ok_def map_update_ids [OF assms(2)] ids_update_where [OF assms(2)])
qed

lemma find_update_row:
  assumes "\<And>r. wr_id (f r) = wr_id r"
  shows "find (\<lambda>r. wr_id r = k) (update_where (\<lambda>r. wr_id r = i) f rs) =
    (if i = k then map_option f (find (\<lambda>r. wr_id r = k) rs) else find (\<lambda>r. wr_id r = k) rs)"
  using assms by (induction rs) (auto simp: update_where_def)

lemma counted_state:
  assumes "hooks_ok h" and "\<And>r. wr_id (f r) = wr_id r" and "\<And>r. wr_user_id (f r) = wr_user_id r"
  shows "snd (update_webhook msg f i h) = h\<lparr>hk_webhooks := update_where (\<lambda>r. wr_id r = i) f (hk_webhooks h)\<rparr>"
  using hooks_ok_update [OF assms] by (simp add: update_webhook_state Let_def)

lemma saved_state:
  assumes "stmts_safe (SaveDelivery d # ss) h"
  shows "snd (CreateDelivery d h) = h\<lparr>hk_deliveries := hk_deliveries h @ [row_of_delivery d]\<rparr>"
    and "hooks_ok (h\<lparr>hk_deliveries := hk_deliveries h @ [row_of_delivery d]\<rparr>)"
proof -
  show "hooks_ok (h\<lparr>hk_deliveries := hk_deliveries h @ [row_of_delivery d]\<rparr>)"
    using assms by (auto simp: stmts_safe_def hooks_ok_def row_of_delivery_def)
  then show "snd (CreateDelivery d h) = h\<lparr>hk_deliveries := hk_deliveries h @ [row_of_delivery d]\<rparr>"
    by (simp add: CreateDelivery_def hk_stmt_def)
qed

lemma row_keys [simp]:
  "wr_id (success_row now r) = wr_id r" "wr_user_id (success_row now r) = wr_user_id r"
  "wr_id (failure_row now e r) = wr_id r" "wr_user_id (failure_row now e r) = wr_user_id r"
  by (simp_all add: success_row_def failure_row_def)

lemma delivery_keys [simp]: "dr_id (row_of_delivery d) = wd_ID d" "dr_webhook_id (row_of_delivery d) = wd_WebhookID d"
  by (simp_all add: row_of_delivery_def)

text \<open>The statements the code executes, by their effect on the tables.\<close>

fun stmt_effect :: "hook_stmt \<Rightarrow> hooks \<Rightarrow> hooks" where
  "stmt_effect (SaveDelivery d) h = h\<lparr>hk_deliveries := hk_deliveries h @ [row_of_delivery d]\<rparr>"
| "stmt_effect (CountSuccess now i) h =
     h\<lparr>hk_webhooks := update_where (\<lambda>r. wr_id r = i) (success_row now) (hk_webhooks h)\<rparr>"
| "stmt_effect (CountFailure now i e) h =
     h\<lparr>hk_webhooks := update_where (\<lambda>r. wr_id r = i) (failure_row now e) (hk_webhooks h)\<rparr>"

lemma exec_stmt_effect: "stmts_safe (s # ss) h \<Longrightarrow> exec_stmt s h = stmt_effect s h"
  using saved_state(1)
  by (cases s) (auto simp: wh_RecordSuccess_def wh_RecordFailure_def stmts_safe_def intro!: counted_state)

interpretation deliveries: independent_statements exec_stmt stmt_owner hook_view act_stmt stmts_safe
proof
  fix ss ss' :: "hook_stmt list" and h
  show "mset ss = mset ss' \<Longrightarrow> stmts_safe ss h = stmts_safe ss' h"
    by (rule stmts_safe_perm)
  show "stmts_safe (ss @ ss') h \<Longrightarrow> stmts_safe ss h"
    by (simp add: stmts_safe_def)
next
  fix s ss h k
  assume safe: "stmts_safe (s # ss) h"
  have "stmts_safe ss (stmt_effect s h)"
  proof (cases s)
    case (SaveDelivery d)
    then show ?thesis
      using safe saved_state(2) [of d ss h] by (auto simp: stmts_safe_def image_iff)
  qed (use safe in \<open>auto simp: stmts_safe_def hooks_ok_update ids_update_where\<close>)
  then show "stmts_safe ss (exec_stmt s h)"
    by (simp only: exec_stmt_effect [OF safe])
  have "hook_view k (stmt_effect s h) = (if stmt_owner s = k then act_stmt s (hook_view k h) else hook_view k h)"
    by (cases s) (auto simp: hook_view_def find_update_row)
  then show "hook_view k (exec_stmt s h) = (if stmt_owner s = k then act_stmt s (hook_view k h) else hook_view k h)"
    by (simp only: exec_stmt_effect [OF safe])
qed

section \<open>The statements of a dispatch\<close>

lemmas attempt_defs = dispatch_attempt_def recordDeliverySuccess_def recordDeliveryFailure_def NewWebhookDelivery_def
  RecordResult_def Let_def

lemma attempt_owner: "s \<in> set (fst (dispatch_attempt svc env w event body n)) \<Longrightarrow> stmt_owner s = wh_ID w"
  by (auto simp: attempt_defs split: sum.splits prod.splits if_splits)

lemma attempt_saved:
  "map wd_ID (all_saved (fst (dispatch_attempt svc env w event body n))) = (if de_saves env n then [de_id env n] else [])"
  by (auto simp: attempt_defs split: sum.splits prod.splits)

lemma saved_owner: "d \<in> set (saved s) \<Longrightarrow> wd_WebhookID d = stmt_owner s"
  by (cases s) auto

text \<open>The loop makes the attempts from 1 to some last one, and each but the last was worth a retry.\<close>

definition attempts_made ::
  "WebhookService \<Rightarrow> dispatch_env \<Rightarrow> Webhook \<Rightarrow> WebhookEvent \<Rightarrow> string \<Rightarrow> int \<Rightarrow> int \<Rightarrow> bool" where
  "attempts_made svc env w event body n m \<longleftrightarrow>
     n \<le> m \<and> m \<le> wh_MaxRetries w + 1 \<and>
     (\<forall>k. n \<le> k \<and> k < m \<longrightarrow> \<not> snd (dispatch_attempt svc env w event body k) \<and> \<not> de_done env (k + 1)) \<and>
     (snd (dispatch_attempt svc env w event body m) \<or> m = wh_MaxRetries w + 1 \<or> de_done env (m + 1))"

abbreviation attempt_stmts ::
  "WebhookService \<Rightarrow> dispatch_env \<Rightarrow> Webhook \<Rightarrow> WebhookEvent \<Rightarrow> string \<Rightarrow> int \<Rightarrow> hook_stmt list" where
  "attempt_stmts svc env w event body k \<equiv> fst (dispatch_attempt svc env w event body k)"

lemma dispatch_attempts:
  assumes "n \<le> wh_MaxRetries w + 1" and "1 \<le> n" and "n = 1 \<or> \<not> de_done env n"
  shows "\<exists>m. attempts_made svc env w event body n m \<and>
    dispatch_from svc env w event body n = concat (map (attempt_stmts svc env w event body) [n..m])"
  using assms
proof (induction svc env w event body n rule: dispatch_from.induct)
  case (1 svc env w event body n)
  obtain ss stop where att: "dispatch_attempt svc env w event body n = (ss, stop)"
    by force
  have go: "\<not> (n > wh_MaxRetries w + 1 \<or> (n > 1 \<and> de_done env n))"
    using "1.prems" by auto
  then have unfold: "dispatch_from svc env w event body n = ss @ (if stop then [] else dispatch_from svc env w event body (n + 1))"
    using att by (subst dispatch_from.simps) (simp only: if_False prod.case)
  show ?case
  proof (cases "stop \<or> n = wh_MaxRetries w + 1 \<or> de_done env (n + 1)")
    case True
    then have "dispatch_from svc env w event body n = ss"
      using unfold "1.prems"(2) by (subst (asm) (2) dispatch_from.simps) auto
    then show ?thesis
      using True att "1.prems"(1) by (intro exI [of _ n]) (auto simp: attempts_made_def)
  next
    case False
    then obtain m where m: "attempts_made svc env w event body (n + 1) m"
        "dispatch_from svc env w event body (n + 1) = concat (map (attempt_stmts svc env w event body) [n + 1..m])"
      using "1.IH" [OF go att [symmetric]] "1.prems" by auto
    have "\<not> snd (dispatch_attempt svc env w event body k) \<and> \<not> de_done env (k + 1)" if "n \<le> k" "k < m" for k
      using m(1) False att that by (cases "k = n") (auto simp: attempts_made_def)
    then have "attempts_made svc env w event body n m" and "[n..m] = n # [n + 1..m]"
      using m(1) by (auto simp: attempts_made_def upto_rec1)
    then show ?thesis
      using unfold m(2) False att by (intro exI [of _ m]) simp
  qed
qed

text \<open>The number of attempts, when there is no payload to send one.\<close>

lemma dispatch_statements:
  assumes "0 \<le> wh_MaxRetries w" and "ws_marshal svc payload = Inr body"
  obtains m where "attempts_made svc env w (wp_Event payload) body 1 m"
    and "dispatchWebhook svc env w payload = concat (map (attempt_stmts svc env w (wp_Event payload) body) [1..m])"
  using dispatch_attempts [of 1 w env svc "wp_Event payload" body] assms by (auto simp: dispatchWebhook_def)

lemma dispatch_shape:
  obtains (failed) ss where "dispatchWebhook svc env w payload = ss"
    and "\<forall>s \<in> set ss. stmt_owner s = wh_ID w" and "map wd_ID (all_saved ss) = (if de_saves env 1 then [de_id env 1] else [])"
  | (none) "dispatchWebhook svc env w payload = []"
  | (sent) m body where "dispatchWebhook svc env w payload =
      concat (map (attempt_stmts svc env w (wp_Event payload) body) [1..m])"
proof (cases "ws_marshal svc payload")
  case (Inl err)
  have "\<forall>s \<in> set (dispatchWebhook svc env w payload). stmt_owner s = wh_ID w"
    by (auto simp: dispatchWebhook_def attempt_defs Inl)
  moreover have "map wd_ID (all_saved (dispatchWebhook svc env w payload)) = (if de_saves env 1 then [de_id env 1] else [])"
    by (simp add: dispatchWebhook_def attempt_defs Inl)
  ultimately show ?thesis
    by (rule failed [OF refl])
next
  case (Inr body)
  show ?thesis
  proof (cases "0 \<le> wh_MaxRetries w")
    case True
    then show ?thesis
      using dispatch_statements [OF True Inr] sent by metis
  next
    case False
    then have "dispatchWebhook svc env w payload = []"
      by (simp add: dispatchWebhook_def Inr dispatch_from.simps)
    then show ?thesis
      by (rule none)
  qed
qed

lemma dispatch_owner: "s \<in> set (dispatchWebhook svc env w payload) \<Longrightarrow> stmt_owner s = wh_ID w"
  by (rule dispatch_shape [of svc env w payload]) (auto dest: attempt_owner)

lemma concat_saved:
  "map wd_ID (all_saved (concat (map (attempt_stmts svc env w event body) ks))) = map (de_id env) (filter (de_saves env) ks)"
  by (induction ks) (auto simp: attempt_saved)

lemma dispatch_saved:
  "\<exists>ks. map wd_ID (all_saved (dispatchWebhook svc env w payload)) = map (de_id env) ks \<and> distinct ks \<and> (\<forall>k \<in> set ks. 1 \<le> k)"
proof (rule dispatch_shape [of svc env w payload])
  fix ss
  assume "dispatchWebhook svc env w payload = ss" "map wd_ID (all_saved ss) = (if de_saves env 1 then [de_id env 1] else [])"
  then show ?thesis
    by (intro exI [of _ "if de_saves env 1 then [1] else []"]) auto
next
  fix m body
  assume "dispatchWebhook svc env w payload = concat (map (attempt_stmts svc env w (wp_Event payload) body) [1..m])"
  then show ?thesis
    by (intro exI [of _ "filter (de_saves env) [1..m]"]) (simp add: concat_saved)
qed (auto intro: exI [of _ "[]"])

section \<open>An event at all its webhooks\<close>

text \<open>The generator gives the attempts of the webhooks IDs that differ from each other and from the recorded ones.\<close>

definition fresh_ids :: "(ID \<Rightarrow> dispatch_env) \<Rightarrow> hooks \<Rightarrow> bool" where
  "fresh_ids envs h \<longleftrightarrow>
     inj_on (\<lambda>(i, k). de_id (envs i) k) (wr_id ` set (hk_webhooks h) \<times> {1..}) \<and>
     (\<forall>i \<in> wr_id ` set (hk_webhooks h). \<forall>k \<ge> 1. de_id (envs i) k \<notin> dr_id ` set (hk_deliveries h))"

definition event_pool :: "WebhookService \<Rightarrow> (ID \<Rightarrow> dispatch_env) \<Rightarrow> WebhookPayload \<Rightarrow> Webhook list \<Rightarrow> hook_stmt list list" where
  "event_pool svc envs payload webhooks = map (\<lambda>w. dispatchWebhook svc (envs (wh_ID w)) w payload) webhooks"

lemma all_saved_concat: "all_saved (concat pool) = concat (map all_saved pool)"
  by (induction pool) simp_all

lemma pool_saved:
  "\<exists>iks. map wd_ID (all_saved (concat (event_pool svc envs payload ws))) = map (\<lambda>(i, k). de_id (envs i) k) iks \<and>
     set iks \<subseteq> wh_ID ` set ws \<times> {1..} \<and> (distinct (map wh_ID ws) \<longrightarrow> distinct iks)"
proof (induction ws)
  case (Cons w ws)
  obtain ks where ks: "map wd_ID (all_saved (dispatchWebhook svc (envs (wh_ID w)) w payload)) = map (de_id (envs (wh_ID w))) ks"
      "distinct ks" "\<forall>k \<in> set ks. 1 \<le> k"
    using dispatch_saved [of svc "envs (wh_ID w)" w payload] by blast
  obtain iks where iks: "map wd_ID (all_saved (concat (event_pool svc envs payload ws))) = map (\<lambda>(i, k). de_id (envs i) k) iks"
      "set iks \<subseteq> wh_ID ` set ws \<times> {1..}" "distinct (map wh_ID ws) \<longrightarrow> distinct iks"
    using Cons.IH by blast
  have "distinct (map (Pair (wh_ID w)) ks @ iks)" if "distinct (map wh_ID (w # ws))"
    using that ks(2) iks(2,3) by (auto simp: distinct_map inj_on_def)
  then show ?case
    using ks iks by (intro exI [of _ "map (Pair (wh_ID w)) ks @ iks"]) (auto simp: event_pool_def comp_def)
qed (simp add: event_pool_def)

lemma pool_owner: "d \<in> set (all_saved (concat (event_pool svc envs payload ws))) \<Longrightarrow> wd_WebhookID d \<in> wh_ID ` set ws"
  by (auto simp: event_pool_def all_saved_def dest!: saved_owner dest: dispatch_owner)

lemma pool_safe:
  assumes "hooks_ok h" and "fresh_ids envs h" and "distinct (map wh_ID ws)" and "wh_ID ` set ws \<subseteq> wr_id ` set (hk_webhooks h)"
  shows "stmts_safe (concat (event_pool svc envs payload ws)) h"
proof -
  let ?ss = "concat (event_pool svc envs payload ws)" and ?gen = "\<lambda>(i, k). de_id (envs i) k"
  obtain iks where iks: "map wd_ID (all_saved ?ss) = map ?gen iks" "set iks \<subseteq> wh_ID ` set ws \<times> {1..}" "distinct iks"
    using pool_saved [of svc envs payload ws] assms(3) by blast
  have sub: "set iks \<subseteq> wr_id ` set (hk_webhooks h) \<times> {1..}"
    using iks(2) assms(4) by blast
  then have "inj_on ?gen (set iks)"
    using assms(2) by (auto simp: fresh_ids_def intro: inj_on_subset)
  then have "distinct (map wd_ID (all_saved ?ss))"
    using iks(1,3) by (simp add: distinct_map)
  moreover have "wd_ID d \<notin> dr_id ` set (hk_deliveries h)" if "d \<in> set (all_saved ?ss)" for d
  proof -
    have "wd_ID d \<in> ?gen ` set iks"
      using that iks(1) by (metis image_eqI list.set_map)
    then obtain i k where "wd_ID d = de_id (envs i) k" "i \<in> wr_id ` set (hk_webhooks h)" "1 \<le> k"
      using sub by auto
    then show ?thesis
      using assms(2) unfolding fresh_ids_def by metis
  qed
  ultimately show ?thesis
    using assms(1,4) pool_owner by (auto simp: stmts_safe_def)
qed

lemma pool_only:
  assumes "distinct (map wh_ID ws)" and "j < length ws \<Longrightarrow> wh_ID (ws ! j) = i" and "length ws \<le> j \<Longrightarrow> i \<notin> wh_ID ` set ws"
  shows "only_task (\<lambda>s. stmt_owner s = i) (event_pool svc envs payload ws) j"
  unfolding only_task_def
proof (intro allI impI)
  fix l
  assume l: "l < length (event_pool svc envs payload ws)" "l \<noteq> j"
  then have "wh_ID (ws ! l) \<noteq> i"
    using assms by (cases "j < length ws") (auto simp: event_pool_def distinct_conv_nth)
  then show "filter (\<lambda>s. stmt_owner s = i) (event_pool svc envs payload ws ! l) = []"
    using l(1) dispatch_owner by (fastforce simp: event_pool_def filter_empty_conv)
qed

lemma subscribers_keys:
  assumes "hooks_ok h" and "ListActiveByEvent event h = (Inr ws, h')"
  shows "distinct (map wh_ID ws)" and "wh_ID ` set ws \<subseteq> wr_id ` set (hk_webhooks h)" and "h' = h"
proof -
  let ?rs = "order_by (\<lambda>r. SInt (wr_created_at r)) SortDesc
        (filter (\<lambda>r. wr_status r = WebhookStatusActive \<and> event_like event r) (hk_webhooks h))"
  have ws: "ws = map toWebhook ?rs" and "h' = h"
    using assms(2) by (auto simp: ListActiveByEvent_rows)
  have i: "wh_ID \<circ> toWebhook = wr_id"
    by (simp add: fun_eq_iff toWebhook_def)
  show "h' = h" by fact
  show "wh_ID ` set ws \<subseteq> wr_id ` set (hk_webhooks h)"
    using i by (auto simp: ws image_image comp_def fun_eq_iff)
  have "mset (map wr_id (order_by k ord rs)) = mset (map wr_id rs)" for k ord and rs :: "webhookRow list"
    by (simp add: order_by_def)
  then have "distinct (map wr_id (order_by k ord rs)) = distinct (map wr_id rs)" for k ord and rs :: "webhookRow list"
    by (rule mset_eq_imp_distinct_iff)
  then have "distinct (map wr_id ?rs)"
    using assms(1) by (simp add: hooks_ok_def distinct_map_filter)
  then show "distinct (map wh_ID ws)"
    by (simp add: ws i)
qed

lemma TriggerEvent_view:
  assumes "hooks_ok h" and "fresh_ids envs h" and "ws_idGenerator svc = Some gen" and "ListActiveByEvent event h = (Inr ws, h)"
  shows "hook_view i (snd (TriggerEvent svc envs sched k now event data h)) =
    (case find (\<lambda>w. wh_ID w = i) ws of
       None \<Rightarrow> hook_view i h
     | Some w \<Rightarrow> hook_view i (fold exec_stmt (dispatchWebhook svc (envs i) w (event_payload (gen k) now event data)) h))"
proof -
  let ?payload = "event_payload (gen k) now event data"
  let ?pool = "event_pool svc envs ?payload ws"
  note keys = subscribers_keys [OF assms(1,4)]
  have safe: "stmts_safe (concat ?pool) h"
    by (rule pool_safe [OF assms(1,2) keys(1,2)])
  have run: "snd (TriggerEvent svc envs sched k now event data h) = fold exec_stmt (interleave sched ?pool) h"
    if "ws \<noteq> []"
    using that by (simp add: TriggerEvent_def assms(3,4) Let_def event_pool_def)
  show ?thesis
  proof (cases "find (\<lambda>w. wh_ID w = i) ws")
    case None
    then have "only_task (\<lambda>s. stmt_owner s = i) ?pool (length ws)"
      by (intro pool_only keys(1)) (auto simp: find_None_iff)
    from deliveries.sees_interleaved [OF safe this] show ?thesis
      using None run by (cases "ws = []") (simp_all add: TriggerEvent_def assms(4) event_pool_def)
  next
    case (Some w)
    then obtain j where j: "j < length ws" "wh_ID (ws ! j) = i" "w = ws ! j"
      by (auto simp: find_Some_iff)
    then have "only_task (\<lambda>s. stmt_owner s = i) ?pool j"
      by (intro pool_only keys(1)) auto
    from deliveries.sees_interleaved [OF safe this] show ?thesis
      using Some j run by (cases "ws = []") (auto simp: event_pool_def)
  qed
qed

section \<open>The account of a dispatch\<close>

text \<open>Attempt \<open>k\<close> got an answer between 200 and 299.\<close>

definition accepted :: "WebhookService \<Rightarrow> dispatch_env \<Rightarrow> Webhook \<Rightarrow> WebhookEvent \<Rightarrow> string \<Rightarrow> int \<Rightarrow> bool" where
  "accepted svc env w event body k \<longleftrightarrow>
     (case ws_parse svc (wh_URL w) of Inl _ \<Rightarrow> False
      | Inr _ \<Rightarrow> (case de_Do env k (webhook_request svc w event body (de_id env k)) of Inl _ \<Rightarrow> False
                 | Inr (statusCode, _) \<Rightarrow> 200 \<le> statusCode \<and> statusCode < 300))"

definition records_all :: "dispatch_env \<Rightarrow> bool" where
  "records_all env \<longleftrightarrow> (\<forall>k. de_saves env k \<and> de_counts env k)"

lemma accepted_stops: "accepted svc env w event body k \<Longrightarrow> snd (dispatch_attempt svc env w event body k)"
  by (auto simp: accepted_def dispatch_attempt_def Let_def NewWebhookDelivery_def split: sum.splits prod.splits)

text \<open>What the records of some attempts and the counters of the row say.\<close>

definition accounts ::
  "(int \<Rightarrow> bool) \<Rightarrow> WebhookEvent \<Rightarrow> string \<Rightarrow> int list \<Rightarrow> webhookRow \<Rightarrow> webhookRow \<Rightarrow> webhookDeliveryRow list \<Rightarrow> bool" where
  "accounts ok event body ks r r' ds \<longleftrightarrow>
     map dr_attempt_number ds = ks \<and>
     (\<forall>d \<in> set ds. dr_success d = ok (dr_attempt_number d) \<and> dr_event d = event \<and> dr_payload d = body) \<and>
     wr_success_count r' = wr_success_count r + count_where dr_success ds \<and>
     wr_failure_count r' = wr_failure_count r + count_where (\<lambda>d. \<not> dr_success d) ds \<and>
     wr_status r' = wr_status r"

lemma attempt_recorded:
  assumes "records_all env"
  shows "\<exists>d e. attempt_stmts svc env w event body k =
      [SaveDelivery d, if accepted svc env w event body k then CountSuccess (de_now env k) (wh_ID w)
                       else CountFailure (de_now env k) (wh_ID w) e] \<and>
    wd_Success d = accepted svc env w event body k \<and> wd_AttemptNumber d = k \<and> wd_Event d = event \<and> wd_Payload d = body"
proof (cases "ws_parse svc (wh_URL w)")
  case (Inl err)
  then show ?thesis
    using assms by (simp add: records_all_def attempt_defs accepted_def)
next
  case (Inr u)
  then show ?thesis
    using assms by (cases "de_Do env k (webhook_request svc w event body (de_id env k))")
      (auto simp: records_all_def attempt_defs accepted_def split: prod.split)
qed

lemma attempt_accounts:
  assumes "records_all env"
  shows "\<exists>r' d. fold act_stmt (attempt_stmts svc env w event body k) (Some r, ds) = (Some r', ds @ [d]) \<and>
    accounts (accepted svc env w event body) event body [k] r r' [d]"
proof -
  obtain d e where "attempt_stmts svc env w event body k =
      [SaveDelivery d, if accepted svc env w event body k then CountSuccess (de_now env k) (wh_ID w)
                       else CountFailure (de_now env k) (wh_ID w) e]"
    and "wd_Success d = accepted svc env w event body k" "wd_AttemptNumber d = k" "wd_Event d = event" "wd_Payload d = body"
    using attempt_recorded [OF assms] by blast
  then show ?thesis
    by (auto simp: accounts_def success_row_def failure_row_def row_of_delivery_def count_where_def)
qed

lemma accounts_Cons:
  assumes "accounts ok event body [k] r r1 [d]" and "accounts ok event body ks r1 r' ds"
  shows "accounts ok event body (k # ks) r r' (d # ds)"
  using assms by (auto simp: accounts_def count_where_def)

lemma attempts_account:
  assumes "records_all env"
  shows "\<exists>r' new. fold act_stmt (concat (map (attempt_stmts svc env w event body) ks)) (Some r, ds) = (Some r', ds @ new) \<and>
    accounts (accepted svc env w event body) event body ks r r' new"
proof (induction ks arbitrary: r ds)
  case Nil
  then show ?case
    by (simp add: accounts_def count_where_def)
next
  case (Cons k ks)
  obtain r1 d where one: "fold act_stmt (attempt_stmts svc env w event body k) (Some r, ds) = (Some r1, ds @ [d])"
      "accounts (accepted svc env w event body) event body [k] r r1 [d]"
    using attempt_accounts [OF assms] by blast
  obtain r' new where "fold act_stmt (concat (map (attempt_stmts svc env w event body) ks)) (Some r1, ds @ [d]) = (Some r', (ds @ [d]) @ new)"
      "accounts (accepted svc env w event body) event body ks r1 r' new"
    using Cons.IH by blast
  with one show ?case
    using accounts_Cons [OF one(2)] by (intro exI [of _ r'] exI [of _ "d # new"]) simp
qed

lemma dispatch_alone_safe:
  assumes "hooks_ok h" and "fresh_ids envs h" and "wh_ID w \<in> wr_id ` set (hk_webhooks h)"
  shows "stmts_safe (dispatchWebhook svc (envs (wh_ID w)) w payload) h"
  using pool_safe [OF assms(1,2), of "[w]" svc payload] assms(3) by (simp add: event_pool_def)

lemma dispatch_view:
  assumes "hooks_ok h" and "fresh_ids envs h" and "find (\<lambda>r. wr_id r = wh_ID w) (hk_webhooks h) = Some r"
  shows "hook_view (wh_ID w) (fold exec_stmt (dispatchWebhook svc (envs (wh_ID w)) w payload) h) =
    fold act_stmt (dispatchWebhook svc (envs (wh_ID w)) w payload) (Some r, snd (hook_view (wh_ID w) h))"
proof -
  have "wh_ID w \<in> wr_id ` set (hk_webhooks h)"
    using assms(3) by (auto simp: find_Some_iff intro: image_eqI [of _ _ r])
  from deliveries.sees_fold [OF dispatch_alone_safe [OF assms(1,2) this]]
  have "hook_view (wh_ID w) (fold exec_stmt (dispatchWebhook svc (envs (wh_ID w)) w payload) h) =
      fold act_stmt (filter (\<lambda>s. stmt_owner s = wh_ID w) (dispatchWebhook svc (envs (wh_ID w)) w payload)) (hook_view (wh_ID w) h)" .
  moreover have "filter (\<lambda>s. stmt_owner s = wh_ID w) (dispatchWebhook svc (envs (wh_ID w)) w payload) =
      dispatchWebhook svc (envs (wh_ID w)) w payload"
    by (rule filter_True) (auto dest: dispatch_owner)
  ultimately show ?thesis
    by (simp add: hook_view_def assms(3))
qed

text \<open>The change of the tables from \<open>h\<close> to \<open>h'\<close> is the account of the attempts for \<open>w\<close>.\<close>

definition accounted ::
  "WebhookService \<Rightarrow> dispatch_env \<Rightarrow> Webhook \<Rightarrow> WebhookEvent \<Rightarrow> string \<Rightarrow> hooks \<Rightarrow> hooks \<Rightarrow> bool" where
  "accounted svc env w event body h h' \<longleftrightarrow>
     (\<exists>r r' new. let m = int (length new); ok = accepted svc env w event body in
        hook_view (wh_ID w) h = (Some r, snd (hook_view (wh_ID w) h)) \<and>
        hook_view (wh_ID w) h' = (Some r', snd (hook_view (wh_ID w) h) @ new) \<and>
        1 \<le> m \<and> m \<le> wh_MaxRetries w + 1 \<and> accounts ok event body [1..m] r r' new \<and>
        (\<forall>k. 1 \<le> k \<and> k < m \<longrightarrow> \<not> ok k) \<and>
        (m = wh_MaxRetries w + 1 \<or> snd (dispatch_attempt svc env w event body m) \<or> de_done env (m + 1)))"

lemma dispatch_account:
  assumes "hooks_ok h" and "fresh_ids envs h" and "find (\<lambda>r. wr_id r = wh_ID w) (hk_webhooks h) = Some r"
    and "0 \<le> wh_MaxRetries w" and "ws_marshal svc payload = Inr body" and "records_all (envs (wh_ID w))"
  shows "accounted svc (envs (wh_ID w)) w (wp_Event payload) body h
    (fold exec_stmt (dispatchWebhook svc (envs (wh_ID w)) w payload) h)"
proof -
  let ?env = "envs (wh_ID w)" and ?event = "wp_Event payload"
  obtain m where made: "attempts_made svc ?env w ?event body 1 m"
    and stmts: "dispatchWebhook svc ?env w payload = concat (map (attempt_stmts svc ?env w ?event body) [1..m])"
    using dispatch_statements [OF assms(4,5)] by blast
  obtain r' new where run: "fold act_stmt (dispatchWebhook svc ?env w payload) (Some r, snd (hook_view (wh_ID w) h)) =
      (Some r', snd (hook_view (wh_ID w) h) @ new)"
    and acc: "accounts (accepted svc ?env w ?event body) ?event body [1..m] r r' new"
    using attempts_account [OF assms(6)] unfolding stmts by blast
  have len: "int (length new) = m"
    using made acc by (auto simp: attempts_made_def accounts_def dest: arg_cong [of _ _ length])
  have "\<not> accepted svc ?env w ?event body k" if "1 \<le> k" "k < m" for k
    using made that accepted_stops by (auto simp: attempts_made_def)
  then show ?thesis
    using made acc run dispatch_view [OF assms(1-3), of svc payload]
    unfolding accounted_def
    by (intro exI [of _ r] exI [of _ r'] exI [of _ new]) (auto simp: Let_def len attempts_made_def hook_view_def assms(3))
qed

section \<open>Theorems\<close>

text \<open>
  C12. Delivering an event to all its subscribers at once is, for each webhook, the same as delivering it to that webhook alone: in
  whatever order the statements of the goroutines reach the database, afterwards the row and the delivery records of a subscriber
  are those of its own dispatch run by itself, and those of every other webhook are untouched.
\<close>

theorem concurrent_deliveries_independent:
  assumes "hooks_ok h" and "fresh_ids envs h" and "ws_idGenerator svc = Some gen" and "ListActiveByEvent event h = (Inr ws, h)"
  shows "fst (TriggerEvent svc envs sched k now event data h) = Answer (Inr ()) \<and>
    (\<forall>i. hook_view i (snd (TriggerEvent svc envs sched k now event data h)) =
      (case find (\<lambda>w. wh_ID w = i) ws of
         None \<Rightarrow> hook_view i h
       | Some w \<Rightarrow> hook_view i (fold exec_stmt (dispatchWebhook svc (envs i) w (event_payload (gen k) now event data)) h)))"
  using TriggerEvent_view [OF assms] by (simp add: TriggerEvent_def assms(3,4) Let_def)

lemma subscriber_row:
  assumes "hooks_ok h" and "ListActiveByEvent event h = (Inr ws, h)" and "w \<in> set ws"
  shows "find (\<lambda>w'. wh_ID w' = wh_ID w) ws = Some w"
    and "\<exists>r. find (\<lambda>r. wr_id r = wh_ID w) (hk_webhooks h) = Some r \<and> w = toWebhook r"
proof -
  show "find (\<lambda>w'. wh_ID w' = wh_ID w) ws = Some w"
    by (rule find_unique [OF subscribers_keys(1) [OF assms(1,2)] assms(3)])
  obtain r where "r \<in> set (hk_webhooks h)" "w = toWebhook r"
    using assms(2,3) by (auto simp: ListActiveByEvent_rows)
  then show "\<exists>r. find (\<lambda>r. wr_id r = wh_ID w) (hk_webhooks h) = Some r \<and> w = toWebhook r"
    using find_unique [of wr_id "hk_webhooks h" r] assms(1) by (auto simp: hooks_ok_def toWebhook_def)
qed

lemma event_account:
  assumes "hooks_ok h" and "fresh_ids envs h" and "ws_idGenerator svc = Some gen" and "ListActiveByEvent event h = (Inr ws, h)"
    and "w \<in> set ws" and "0 \<le> wh_MaxRetries w" and "ws_marshal svc (event_payload (gen k) now event data) = Inr body"
    and "records_all (envs (wh_ID w))"
  shows "accounted svc (envs (wh_ID w)) w event body h (snd (TriggerEvent svc envs sched k now event data h))"
proof -
  let ?payload = "event_payload (gen k) now event data"
  obtain r where r: "find (\<lambda>r. wr_id r = wh_ID w) (hk_webhooks h) = Some r"
    using subscriber_row(2) [OF assms(1,4,5)] by blast
  have "wp_Event ?payload = event"
    by (simp add: event_payload_def)
  with dispatch_account [OF assms(1,2) r assms(6-8)]
  have "accounted svc (envs (wh_ID w)) w event body h (fold exec_stmt (dispatchWebhook svc (envs (wh_ID w)) w ?payload) h)"
    by simp
  moreover have "hook_view (wh_ID w) (snd (TriggerEvent svc envs sched k now event data h)) =
      hook_view (wh_ID w) (fold exec_stmt (dispatchWebhook svc (envs (wh_ID w)) w ?payload) h)"
    using TriggerEvent_view [OF assms(1-4), of "wh_ID w"] subscriber_row(1) [OF assms(1,4,5)] by simp
  ultimately show ?thesis
    by (simp add: accounted_def)
qed

text \<open>
  C13. The delivery of an event to a subscriber makes at least one and at most \<^verbatim>\<open>MaxRetries\<close> + 1 attempts and leaves one record of each, numbered from 1, with the
  payload, in order after the earlier ones. Only the last attempt can have succeeded; the loop ends early only after a success, an answer
  that is not worth a retry, or the end of the context. The two counters grow by the numbers of successful and of failed
  records. However many attempts fail, the status of the webhook stays as it was.
\<close>

theorem deliveries_accounted:
  assumes "hooks_ok h" and "fresh_ids envs h" and "ws_idGenerator svc = Some gen" and "ListActiveByEvent event h = (Inr ws, h)"
    and "w \<in> set ws" and "0 \<le> wh_MaxRetries w" and "ws_marshal svc (event_payload (gen k) now event data) = Inr body"
    and "records_all (envs (wh_ID w))"
  shows "accounted svc (envs (wh_ID w)) w event body h (snd (TriggerEvent svc envs sched k now event data h))"
  by (rule event_account [OF assms])

text \<open>
  C39. The event of a received message goes to every active webhook that subscribes to it, whoever owns the webhook and whoever
  owns the mailbox: the subscriber gets a delivery record, which its owner can list, whose payload is the encoded data of the message
  (IDs, subject, sender and recipients). No ownership is checked on the way.
\<close>

theorem message_events_reach_everybody:
  assumes "hooks_ok h" and "events_valid h" and "fresh_ids envs h" and "ws_idGenerator svc = Some gen"
    and "r \<in> set (hk_webhooks h)" and "wr_status r = WebhookStatusActive" and "WebhookEventMessageReceived \<in> set (wr_events r)"
    and "0 \<le> wr_max_retries r" and "records_all (envs (wr_id r))"
    and "ws_marshal svc (event_payload (gen k) now WebhookEventMessageReceived (message_data m)) = Inr body"
  shows "\<exists>d \<in> set (hk_deliveries (snd (TriggerMessageReceived svc envs sched k now m h))).
    dr_webhook_id d = wr_id r \<and> dr_payload d = body"
proof -
  let ?h = "snd (TriggerMessageReceived svc envs sched k now m h)"
  have valid: "WebhookEvent_IsValid WebhookEventMessageReceived"
    by (simp add: WebhookEvent_IsValid_def)
  obtain ws where ws: "ListActiveByEvent WebhookEventMessageReceived h = (Inr ws, h)"
    by (simp add: ListActiveByEvent_rows)
  have "event_like WebhookEventMessageReceived r"
    using event_like_iff [OF valid, of r] assms(2,5,7) by (auto simp: events_valid_def list_all_iff)
  then have "toWebhook r \<in> set ws"
    using ws assms(5,6) by (auto simp: ListActiveByEvent_rows)
  from event_account [OF assms(1,3,4) ws this _ assms(10), of sched] assms(8,9)
  obtain r' new where "hook_view (wr_id r) ?h = (Some r', snd (hook_view (wr_id r) h) @ new)" "1 \<le> int (length new)"
      "\<forall>d \<in> set new. dr_payload d = body"
    by (auto simp: accounted_def accounts_def Let_def TriggerMessageReceived_def toWebhook_def)
  then have "hd new \<in> set (snd (hook_view (wr_id r) ?h))" and "dr_payload (hd new) = body"
    by (cases new; auto)+
  then show ?thesis
    by (auto simp: hook_view_def)
qed

section \<open>The pauses between attempts\<close>

text \<open>The pause doubles from one second up to thirty; the \<^verbatim>\<open>int64\<close> overflows only from the 34th doubling on, beyond the ten retries that validation allows.\<close>

lemma retryBackoff_doubles:
  assumes "0 \<le> attempt" and "attempt \<le> 33"
  shows "retryBackoff attempt = min (2 ^ nat attempt * Second) (30 * Second)"
proof -
  have "list_all (\<lambda>a. retryBackoff a = min (2 ^ nat a * Second) (30 * Second)) [0..33]"
    by code_simp
  with assms show ?thesis
    by (simp add: list_all_iff)
qed

lemma retryBackoff_overflows: "retryBackoff 34 < 0"
  by code_simp

section \<open>Examples\<close>

text \<open>The endpoint of the first webhook never answers, that of the second accepts.\<close>

definition sample_hook_service :: WebhookService where
  "sample_hook_service =
     \<lparr>ws_idGenerator = Some (\<lambda>k. replicate k CHR ''i''), ws_marshal = (\<lambda>p. Inr (''{event:'' @ wp_Event p @ ''}'')),
      ws_hmac = (\<lambda>_ _. ''0123''), ws_StatusText = (\<lambda>_. ''OK''), ws_parse = (\<lambda>_. Inr (''https'', ''a''))\<rparr>"

definition sample_envs :: "ID \<Rightarrow> dispatch_env" where
  "sample_envs i =
     \<lparr>de_id = (\<lambda>k. i @ replicate (nat k) CHR ''x''), de_now = (\<lambda>k. 10 + k), de_done = (\<lambda>_. False),
      de_Do = (\<lambda>_ _. if i = ''w1'' then Inl ''timeout'' else Inr (200, ''ok'')), de_ms = (\<lambda>_. 5), de_saves = (\<lambda>_. True),
      de_counts = (\<lambda>_. True)\<rparr>"

lemma sample_hooks_ok: "hooks_ok sample_hooks" "events_valid sample_hooks"
  by code_simp+

lemma sample_fresh: "fresh_ids sample_envs sample_hooks"
proof -
  have "wr_id ` set (hk_webhooks sample_hooks) = {''w1'', ''w2''}" "hk_deliveries sample_hooks = []"
    by (simp_all add: sample_hooks_def row_of_webhook_def NewWebhook_def)
  moreover have "inj_on (\<lambda>(i, k). i @ replicate (nat k) CHR ''x'') ({''w1'', ''w2''} \<times> {1..})"
  proof (rule inj_onI)
    fix p q :: "string \<times> int"
    assume pq: "p \<in> {''w1'', ''w2''} \<times> {1..}" "q \<in> {''w1'', ''w2''} \<times> {1..}"
      and "(\<lambda>(i, k). i @ replicate (nat k) CHR ''x'') p = (\<lambda>(i, k). i @ replicate (nat k) CHR ''x'') q"
    moreover have "length (fst p) = length (fst q)"
      using pq by auto
    ultimately show "p = q"
      by (cases p; cases q) (auto simp: replicate_eq_replicate nat_eq_iff)
  qed
  ultimately show ?thesis
    by (simp add: fresh_ids_def sample_envs_def)
qed

lemma sample_records: "records_all (sample_envs i)"
  by (simp add: records_all_def sample_envs_def)

abbreviation sample_w1 :: Webhook where
  "sample_w1 \<equiv> NewWebhook 1 ''w1'' ''u1'' ''mine'' ''https://a/'' [WebhookEventMessageReceived]"

abbreviation sample_w2 :: Webhook where
  "sample_w2 \<equiv> NewWebhook 2 ''w2'' ''u2'' ''other'' ''https://b/'' [WebhookEventMailboxCreated, WebhookEventMessageReceived]"

lemma sample_subscribers:
  "ListActiveByEvent WebhookEventMessageReceived sample_hooks = (Inr [sample_w2, sample_w1], sample_hooks)"
proof -
  let ?E = WebhookEventMessageReceived
  have "WebhookEvent_IsValid ?E"
    by (simp add: WebhookEvent_IsValid_def)
  moreover have "\<forall>r \<in> set (hk_webhooks sample_hooks). wr_status r = WebhookStatusActive \<and> ?E \<in> set (wr_events r)"
    by (simp add: sample_hooks_def row_of_webhook_def NewWebhook_def)
  ultimately have "filter (\<lambda>r. wr_status r = WebhookStatusActive \<and> event_like ?E r) (hk_webhooks sample_hooks) = hk_webhooks sample_hooks"
    using sample_hooks_ok(2) by (intro filter_True) (auto simp: events_valid_def list_all_iff event_like_iff)
  moreover have "map toWebhook (order_by (\<lambda>r. SInt (wr_created_at r)) SortDesc (hk_webhooks sample_hooks)) = [sample_w2, sample_w1]"
    by code_simp
  ultimately show ?thesis
    by (simp add: ListActiveByEvent_rows)
qed

lemma sample_generator: "ws_idGenerator sample_hook_service = Some (\<lambda>k. replicate k CHR ''i'')"
  by (simp add: sample_hook_service_def)

theorem concurrent_deliveries_independent_witness:
  "hook_view ''w1'' (snd (TriggerEvent sample_hook_service sample_envs [1, 0, 1, 1, 0] 0 9 WebhookEventMessageReceived (MapData []) sample_hooks)) =
   hook_view ''w1'' (fold exec_stmt (dispatchWebhook sample_hook_service (sample_envs ''w1'') sample_w1
     (event_payload [] 9 WebhookEventMessageReceived (MapData []))) sample_hooks)"
proof -
  have "find (\<lambda>w. wh_ID w = ''w1'') [sample_w2, sample_w1] = Some sample_w1"
    by (simp add: NewWebhook_def)
  then show ?thesis
    using concurrent_deliveries_independent [OF sample_hooks_ok(1) sample_fresh sample_generator sample_subscribers,
        of "[1, 0, 1, 1, 0]" 0 9 "MapData []"] by simp
qed

theorem deliveries_accounted_witness:
  "accounted sample_hook_service (sample_envs ''w1'') sample_w1 WebhookEventMessageReceived ''{event:message.received}'' sample_hooks
     (snd (TriggerEvent sample_hook_service sample_envs [1, 0] 0 9 WebhookEventMessageReceived (MapData []) sample_hooks))"
proof -
  have "ws_marshal sample_hook_service (event_payload (replicate 0 CHR ''i'') 9 WebhookEventMessageReceived (MapData [])) =
      Inr ''{event:message.received}''"
    by code_simp
  moreover have "sample_w1 \<in> set [sample_w2, sample_w1]" and "0 \<le> wh_MaxRetries sample_w1" and "wh_ID sample_w1 = ''w1''"
    by (simp_all add: NewWebhook_def)
  ultimately show ?thesis
    using deliveries_accounted [OF sample_hooks_ok(1) sample_fresh sample_generator sample_subscribers, of sample_w1 0 9 "MapData []"]
      sample_records by (metis (no_types))
qed

text \<open>The second user's webhook gets a message of the first user's mailbox.\<close>

theorem message_events_reach_everybody_witness:
  "\<exists>d \<in> set (hk_deliveries (snd (TriggerMessageReceived sample_hook_service sample_envs [] 0 9 (NewMessage 8 ''m1'' ''box-of-u1'') sample_hooks))).
     dr_webhook_id d = ''w2'' \<and> dr_payload d = ''{event:message.received}''"
proof -
  let ?r = "row_of_webhook sample_w2"
  have "?r \<in> set (hk_webhooks sample_hooks)" "wr_status ?r = WebhookStatusActive"
      "WebhookEventMessageReceived \<in> set (wr_events ?r)" "0 \<le> wr_max_retries ?r" "wr_id ?r = ''w2''"
    by (simp_all add: sample_hooks_def row_of_webhook_def NewWebhook_def)
  moreover have "ws_marshal sample_hook_service (event_payload (replicate 0 CHR ''i'') 9 WebhookEventMessageReceived
      (message_data (NewMessage 8 ''m1'' ''box-of-u1''))) = Inr ''{event:message.received}''"
    by code_simp
  ultimately show ?thesis
    using message_events_reach_everybody [OF sample_hooks_ok sample_fresh sample_generator, of ?r 0 9 _ _ "[]"] sample_records
    by (metis (no_types))
qed

end
