(* ===== verification/Rest_Webhooks.thy ===== *)
theory Rest_Webhooks
  imports Rest_Users Webhook_Dispatch
begin

text \<open>
  The handlers of \<^verbatim>\<open>internal/api/handlers/webhooks.go\<close> with their routes, and the recovery of
  \<^verbatim>\<open>internal/api/middleware/recovery.go\<close> around them. The theorems say what a user can do to the webhooks of others, that
  stored webhooks stay valid, and what the server as \<^verbatim>\<open>cmd/yunt/cmd_serve.go\<close> wires it can do at all.
\<close>

section \<open>Replies\<close>

datatype hooks_data =
    WebhookData Webhook
  | WebhookPage "Webhook PaginatedData"
  | DeliveryData WebhookDelivery
  | DeliveryPage "WebhookDelivery PaginatedData"
  | StatsData WebhookDeliveryStats

text \<open>The encoding of a webhook leaves its secret out.\<close>

definition json_webhook :: "Webhook \<Rightarrow> Webhook" where
  "json_webhook w = w\<lparr>wh_Secret := []\<rparr>"

text \<open>A handler's reply, \<open>None\<close> when it panics.\<close>

type_synonym hooks_handler = "echo_context \<Rightarrow> hooks \<Rightarrow> hooks_data reply option \<times> hooks"

definition hk_reply :: "'a hookm \<Rightarrow> ('a \<Rightarrow> hooks_data reply) \<Rightarrow> hooks \<Rightarrow> hooks_data reply option \<times> hooks" where
  "hk_reply m f h =
     (case m h of (Inl err, h') \<Rightarrow> (Some (FromDomainError err), h') | (Inr x, h') \<Rightarrow> (Some (f x), h'))"

definition call_reply :: "'a callm \<Rightarrow> ('a \<Rightarrow> hooks_data reply) \<Rightarrow> hooks \<Rightarrow> hooks_data reply option \<times> hooks" where
  "call_reply m f h =
     (case m h of (Panic, h') \<Rightarrow> (None, h') | (Answer (Inl err), h') \<Rightarrow> (Some (FromDomainError err), h')
      | (Answer (Inr x), h') \<Rightarrow> (Some (f x), h'))"

definition hooks_user ::
  "echo_context \<Rightarrow> (ID \<Rightarrow> hooks \<Rightarrow> hooks_data reply option \<times> hooks) \<Rightarrow> hooks \<Rightarrow> hooks_data reply option \<times> hooks" where
  "hooks_user c f h =
     (if ID_IsEmpty (GetUserID c) then (Some (Unauthorized ''authentication required''), h) else f (GetUserID c) h)"

definition on_webhook ::
  "echo_context \<Rightarrow> (ID \<Rightarrow> ID \<Rightarrow> hooks \<Rightarrow> hooks_data reply option \<times> hooks) \<Rightarrow> hooks \<Rightarrow> hooks_data reply option \<times> hooks" where
  "on_webhook c f =
     hooks_user c (\<lambda>userID h. if ID_IsEmpty (cx_param c ''id'') then (Some (BadRequest ''webhook ID is required''), h)
                           else f userID (cx_param c ''id'') h)"

definition parseIntParam :: "echo_context \<Rightarrow> string \<Rightarrow> int \<Rightarrow> int" where
  "parseIntParam c name defaultValue =
     (case Atoi_ok (cx_query c name) of None \<Rightarrow> defaultValue | Some v \<Rightarrow> if v < 1 then defaultValue else v)"

definition hooks_page_size :: "echo_context \<Rightarrow> int" where
  "hooks_page_size c = min (parseIntParam c ''pageSize'' 20) 100"

definition hooks_options :: "echo_context \<Rightarrow> ListOptions" where
  "hooks_options c =
     \<lparr>lo_Pagination = Some \<lparr>po_Page = parseIntParam c ''page'' 1, po_PerPage = hooks_page_size c\<rparr>,
      lo_Sort = Some \<lparr>so_Field = ''createdAt'', so_Order = SortDesc\<rparr>\<rparr>"

section \<open>Handlers\<close>

definition wh_CreateWebhook :: "WebhookService \<Rightarrow> nat \<Rightarrow> instant \<Rightarrow> WebhookCreateInput option \<Rightarrow> hooks_handler" where
  "wh_CreateWebhook svc k now input c =
     hooks_user c (\<lambda>userID h. case input of None \<Rightarrow> (Some (BadRequest ''invalid request body''), h)
       | Some input \<Rightarrow> call_reply (CreateWebhook svc k now userID input) (\<lambda>w. Created (WebhookData (json_webhook w))) h)"

definition wh_GetWebhook :: hooks_handler where
  "wh_GetWebhook c =
     on_webhook c (\<lambda>userID webhookID. hk_reply (GetWebhookForUser webhookID userID) (\<lambda>w. OK (WebhookData (json_webhook w))))"

definition wh_ListWebhooks :: hooks_handler where
  "wh_ListWebhooks c =
     hooks_user c (\<lambda>userID.
       let status = cx_query c ''status''; event = cx_query c ''event'';
           flt = emptyWebhookFilter\<lparr>whf_UserID := Some userID,
              whf_Status := (if status \<noteq> [] \<and> WebhookStatus_IsValid status then Some status else None),
              whf_Event := (if event \<noteq> [] \<and> WebhookEvent_IsValid event then Some event else None),
              whf_Search := cx_query c ''search''\<rparr>
       in hk_reply (ListWebhooks (Some flt) (Some (hooks_options c)))
            (\<lambda>res. OK (WebhookPage (Paginated (map json_webhook (lr_Items res)) (parseIntParam c ''page'' 1) (hooks_page_size c) (lr_Total res)))))"

definition wh_UpdateWebhook :: "WebhookService \<Rightarrow> instant \<Rightarrow> WebhookUpdateInput option \<Rightarrow> hooks_handler" where
  "wh_UpdateWebhook svc now input c =
     on_webhook c (\<lambda>userID webhookID h. case input of None \<Rightarrow> (Some (BadRequest ''invalid request body''), h)
       | Some input \<Rightarrow> hk_reply (UpdateWebhookForUser svc now webhookID userID input) (\<lambda>w. OK (WebhookData (json_webhook w))) h)"

definition wh_DeleteWebhook :: hooks_handler where
  "wh_DeleteWebhook c =
     on_webhook c (\<lambda>userID webhookID. hk_reply (DeleteWebhookForUser webhookID userID) (\<lambda>_. NoContent))"

definition wh_TestWebhook ::
  "WebhookService \<Rightarrow> (hook_request \<Rightarrow> string + int \<times> string) \<Rightarrow> int \<Rightarrow> nat \<Rightarrow> instant \<Rightarrow> hooks_handler" where
  "wh_TestWebhook svc send ms k now c =
     on_webhook c (\<lambda>userID webhookID. call_reply (TestWebhookForUser svc send ms k now webhookID userID) (\<lambda>d. OK (DeliveryData d)))"

definition wh_ActivateWebhook :: "instant \<Rightarrow> hooks_handler" where
  "wh_ActivateWebhook now c =
     on_webhook c (\<lambda>userID webhookID.
       hk_reply (hk_andThen (GetWebhookForUser webhookID userID)
           (\<lambda>_. hk_andThen (ActivateWebhook now webhookID) (\<lambda>_. GetWebhook webhookID)))
         (\<lambda>w. OK (WebhookData (json_webhook w))))"

definition wh_DeactivateWebhook :: "instant \<Rightarrow> hooks_handler" where
  "wh_DeactivateWebhook now c =
     on_webhook c (\<lambda>userID webhookID.
       hk_reply (hk_andThen (GetWebhookForUser webhookID userID)
           (\<lambda>_. hk_andThen (DeactivateWebhook now webhookID) (\<lambda>_. GetWebhook webhookID)))
         (\<lambda>w. OK (WebhookData (json_webhook w))))"

definition wh_ListDeliveries :: hooks_handler where
  "wh_ListDeliveries c =
     on_webhook c (\<lambda>userID webhookID.
       hk_reply (hk_andThen (GetWebhookForUser webhookID userID) (\<lambda>_. svc_ListDeliveries webhookID (Some (hooks_options c))))
         (\<lambda>res. OK (DeliveryPage (Paginated (lr_Items res) (parseIntParam c ''page'' 1) (hooks_page_size c) (lr_Total res)))))"

definition wh_GetDeliveryStats :: hooks_handler where
  "wh_GetDeliveryStats c =
     on_webhook c (\<lambda>userID webhookID.
       hk_reply (hk_andThen (GetWebhookForUser webhookID userID) (\<lambda>_. svc_GetDeliveryStats webhookID)) (\<lambda>stats. OK (StatsData stats)))"

section \<open>Routes\<close>

datatype hooks_route =
    RCreateWebhook "WebhookCreateInput option"
  | RListWebhooks
  | RGetWebhook
  | RUpdateWebhook "WebhookUpdateInput option"
  | RDeleteWebhook
  | RTestWebhook "hook_request \<Rightarrow> string + int \<times> string" int
  | RActivateWebhook
  | RDeactivateWebhook
  | RListDeliveries
  | RGetDeliveryStats

fun hooks_routes :: "WebhookService \<Rightarrow> nat \<Rightarrow> instant \<Rightarrow> hooks_route \<Rightarrow> hooks_handler" where
  "hooks_routes svc k now (RCreateWebhook input) = wh_CreateWebhook svc k now input"
| "hooks_routes svc k now RListWebhooks = wh_ListWebhooks"
| "hooks_routes svc k now RGetWebhook = wh_GetWebhook"
| "hooks_routes svc k now (RUpdateWebhook input) = wh_UpdateWebhook svc now input"
| "hooks_routes svc k now RDeleteWebhook = wh_DeleteWebhook"
| "hooks_routes svc k now (RTestWebhook send ms) = wh_TestWebhook svc send ms k now"
| "hooks_routes svc k now RActivateWebhook = wh_ActivateWebhook now"
| "hooks_routes svc k now RDeactivateWebhook = wh_DeactivateWebhook now"
| "hooks_routes svc k now RListDeliveries = wh_ListDeliveries"
| "hooks_routes svc k now RGetDeliveryStats = wh_GetDeliveryStats"

text \<open>\<^verbatim>\<open>Recovery\<close>: a panic is answered by a 500.\<close>

definition Recovery :: "hooks_data reply option \<times> hooks \<Rightarrow> hooks_data reply \<times> hooks" where
  "Recovery r =
     (case r of (Some reply, h) \<Rightarrow> (reply, h)
      | (None, h) \<Rightarrow> (Failure 500 ''INTERNAL_SERVER_ERROR'' ''An unexpected error occurred'' None, h))"

text \<open>
  A request passes the authentication of the group \<^verbatim>\<open>authed\<close> and that of the webhooks; the handler then works on the context they leave.
\<close>

definition serve_webhooks ::
  "'s AuthService \<Rightarrow> WebhookService \<Rightarrow> nat \<Rightarrow> instant \<Rightarrow> hooks_route \<Rightarrow> echo_context \<Rightarrow>
     's auth_state \<Rightarrow> hooks \<Rightarrow> hooks_data reply \<times> 's auth_state \<times> hooks" where
  "serve_webhooks auth svc k now rt c st h =
     (case mw_Auth auth now (mw_Auth auth now (\<lambda>c st. (OK c, st))) c st of
        (Data _ c', st') \<Rightarrow> (case Recovery (hooks_routes svc k now rt c' h) of (reply, h') \<Rightarrow> (reply, st', h'))
      | (Failure s code msg det, st') \<Rightarrow> (Failure s code msg det, st', h)
      | (Denied s code msg, st') \<Rightarrow> (Denied s code msg, st', h)
      | (Empty s, st') \<Rightarrow> (Empty s, st', h))"

section \<open>Every user has his own webhooks\<close>

definition hook_owner :: "hooks \<Rightarrow> ID \<Rightarrow> ID option" where
  "hook_owner h i = map_option wr_user_id (fst (hook_view i h))"

text \<open>Nothing changes for the webhooks of other users than \<open>u\<close>.\<close>

definition others_hooks_kept :: "ID \<Rightarrow> hooks \<Rightarrow> hooks \<Rightarrow> bool" where
  "others_hooks_kept u h h' \<longleftrightarrow> (\<forall>i v. hook_owner h i = Some v \<and> v \<noteq> u \<longrightarrow> hook_view i h' = hook_view i h)"

text \<open>A reply shows only what belongs to \<open>u\<close>, and no secret.\<close>

fun shows_own :: "ID \<Rightarrow> hooks \<Rightarrow> hooks_data \<Rightarrow> bool" where
  "shows_own u h (WebhookData w) = (wh_UserID w = u \<and> wh_Secret w = [])"
| "shows_own u h (WebhookPage p) = list_all (\<lambda>w. wh_UserID w = u \<and> wh_Secret w = []) (pd_Items p)"
| "shows_own u h (DeliveryData d) = (hook_owner h (wd_WebhookID d) = Some u)"
| "shows_own u h (DeliveryPage p) = list_all (\<lambda>d. hook_owner h (wd_WebhookID d) = Some u) (pd_Items p)"
| "shows_own u h (StatsData _) = True"

definition own_reply :: "ID \<Rightarrow> hooks \<Rightarrow> hooks_data reply option \<Rightarrow> bool" where
  "own_reply u h r \<longleftrightarrow> (\<forall>s d. r = Some (Data s d) \<longrightarrow> shows_own u h d)"

lemma FromDomainError_no_data: "FromDomainError err \<noteq> Data s d"
  by (simp add: FromDomainError_def NotFound_def Conflict_def Unauthorized_def Forbidden_def BadRequest_def
      ValidationFailed_def InternalServerError_def split: option.split)

lemma own_reply_simps [simp]:
  "own_reply u h None" "own_reply u h (Some (FromDomainError err))" "own_reply u h (Some (Unauthorized m))"
  "own_reply u h (Some (BadRequest m))" "own_reply u h (Some NoContent)"
  "own_reply u h (Some (OK d)) = shows_own u h d" "own_reply u h (Some (Created d)) = shows_own u h d"
  by (auto simp: own_reply_def FromDomainError_no_data Unauthorized_def BadRequest_def NoContent_def OK_def Created_def)

lemma others_hooks_kept_refl [simp]: "others_hooks_kept u h h"
  by (simp add: others_hooks_kept_def)

text \<open>A statement on the row of one webhook of \<open>u\<close>.\<close>

lemma others_hooks_keptI:
  assumes "hook_owner h i = Some u" and "\<And>j. j \<noteq> i \<Longrightarrow> hook_view j h' = hook_view j h"
  shows "others_hooks_kept u h h'"
  unfolding others_hooks_kept_def using assms by (metis option.inject)

lemma own_update_kept:
  assumes "hook_owner h i = Some u" and "\<And>r. wr_id r = i \<Longrightarrow> wr_id (f r) = i"
  shows "others_hooks_kept u h (h\<lparr>hk_webhooks := update_where (\<lambda>r. wr_id r = i) f (hk_webhooks h)\<rparr>)"
proof (rule others_hooks_keptI [OF assms(1)])
  fix j
  assume "j \<noteq> i"
  then have "find (\<lambda>r. wr_id r = j) (update_where (\<lambda>r. wr_id r = i) f rs) = find (\<lambda>r. wr_id r = j) rs" for rs
    using assms(2) by (induction rs) (auto simp: update_where_def)
  then show "hook_view j (h\<lparr>hk_webhooks := update_where (\<lambda>r. wr_id r = i) f (hk_webhooks h)\<rparr>) = hook_view j h"
    by (simp add: hook_view_def)
qed

lemma own_delete_kept:
  assumes "hook_owner h i = Some u"
  shows "others_hooks_kept u h (snd (delete_webhooks msg (\<lambda>r. wr_id r = i) h))"
proof (rule others_hooks_keptI [OF assms])
  fix j
  assume j: "j \<noteq> i"
  then have "find (\<lambda>r. wr_id r = j) (filter (\<lambda>r. wr_id r \<noteq> i) rs) = find (\<lambda>r. wr_id r = j) rs" for rs
    by (induction rs) auto
  then show "hook_view j (snd (delete_webhooks msg (\<lambda>r. wr_id r = i) h)) = hook_view j h"
    using j by (auto simp: delete_webhooks_def hk_stmt_def hook_view_def Let_def filter_filter intro!: filter_cong)
qed

lemma GetWebhookForUser_cases:
  obtains (found) r where "GetWebhookForUser i u h = (Inr (toWebhook r), h)" and "fst (hook_view i h) = Some r"
      and "wr_id r = i" and "wr_user_id r = u" and "r \<in> set (hk_webhooks h)" and "i \<noteq> []"
  | (missing) e where "GetWebhookForUser i u h = (Inl e, h)"
proof (cases "i = [] \<or> find (\<lambda>r. wr_id r = i) (hk_webhooks h) = None")
  case True
  then have "\<exists>e. GetWebhookForUser i u h = (Inl e, h)"
    by (auto simp: GetWebhookForUser_def GetWebhook_def hk_require_def hk_wrap_def wh_GetByID_def hk_andThen_def
        ID_IsEmpty_def split: option.split)
  then show ?thesis
    using missing by blast
next
  case False
  then obtain r where r: "find (\<lambda>r. wr_id r = i) (hk_webhooks h) = Some r" "i \<noteq> []"
    by auto
  then have "wr_id r = i" "r \<in> set (hk_webhooks h)"
    by (auto simp: find_Some_iff)
  moreover have "GetWebhookForUser i u h = (if wr_user_id r = u then (Inr (toWebhook r), h)
      else (Inl (wsvc_error ''get'' ''webhook not found'' (Sentinel ErrNotFound)), h))"
    using r by (simp add: GetWebhookForUser_def GetWebhook_def hk_require_def hk_wrap_def wh_GetByID_def hk_andThen_def
        ID_IsEmpty_def toWebhook_def)
  ultimately show ?thesis
    using r found [of r] missing by (auto simp: hook_view_def split: if_splits)
qed


section \<open>What the calls on a webhook of one's own do\<close>

lemma GetWebhook_row: "fst (hook_view i h) = Some r \<Longrightarrow> i \<noteq> [] \<Longrightarrow> GetWebhook i h = (Inr (toWebhook r), h)"
  by (simp add: GetWebhook_def hk_require_def ID_IsEmpty_def hk_wrap_def wh_GetByID_def hook_view_def)

lemma updated_row:
  assumes "\<And>r. wr_id (f r) = wr_id r"
  shows "fst (hook_view i (h\<lparr>hk_webhooks := update_where (\<lambda>r. wr_id r = i) f (hk_webhooks h)\<rparr>)) = map_option f (fst (hook_view i h))"
  using assms by (simp add: hook_view_def find_update_row)

lemma set_status_effect:
  assumes "hook_owner h i = Some u"
  shows "others_hooks_kept u h (snd (wh_UpdateStatus now i status h))"
    and "hook_owner (snd (wh_UpdateStatus now i status h)) i = Some u"
  using assms own_update_kept [OF assms, of "\<lambda>r. r\<lparr>wr_status := status, wr_updated_at := now\<rparr>"]
    updated_row [of "\<lambda>r. r\<lparr>wr_status := status, wr_updated_at := now\<rparr>" i h]
  by (auto simp: wh_UpdateStatus_def update_webhook_state Let_def hook_owner_def)

lemma snd_hk_wrap [simp]: "snd (hk_wrap op msg m h) = snd (m h)"
  by (simp add: hk_wrap_def split: prod.split sum.split)

text \<open>An update keeps the owner and the key of the row.\<close>

lemma Apply_keys [simp]:
  "wh_ID (WebhookUpdateInput_Apply now input w) = wh_ID w" "wh_UserID (WebhookUpdateInput_Apply now input w) = wh_UserID w"
  by (simp_all add: WebhookUpdateInput_Apply_def Let_def set_opt_def split: option.split)

lemma checked_update_cases:
  obtains (saved) "checked_update now owner input w h = (Inr (WebhookUpdateInput_Apply now input w), snd (wh_Update now (WebhookUpdateInput_Apply now input w) h))"
  | (refused) e where "checked_update now owner input w h = (Inl e, h)"
proof -
  let ?w = "WebhookUpdateInput_Apply now input w"
  let ?save = "hk_andThen (hk_wrap ''update'' ''failed to update webhook'' (wh_Update now ?w)) (\<lambda>_. hk_query (\<lambda>_. ?w))"
  have save: "?save h = (Inr ?w, snd (wh_Update now ?w h)) \<or> (\<exists>e. ?save h = (Inl e, h))"
    by (auto simp: hk_andThen_def hk_wrap_def wh_Update_def wh_Exists_def hk_stmt_def)
  have "checked_update now owner input w h = ?save h \<or> (\<exists>e. checked_update now owner input w h = (Inl e, h))"
    by (simp add: checked_update_def Let_def hk_wrap_def ExistsByURL_def hk_andThen_def split: option.split)
  with save show ?thesis
    using saved refused by metis
qed

definition stays_own :: "ID \<Rightarrow> hooks \<Rightarrow> hooks_data reply option \<times> hooks \<Rightarrow> bool" where
  "stays_own u h res \<longleftrightarrow> others_hooks_kept u h (snd res) \<and> own_reply u h (fst res)"

lemma stays_own_refusal [simp]: "stays_own u h (Some (BadRequest m), h)"
  by (simp add: stays_own_def)

lemma list_result_items: "lr_Items (list_result opts n xs) = xs"
  by (simp add: list_result_def Let_def split: option.split)

lemma hooks_user_own:
  assumes "GetUserID c = u" and "stays_own u h (f u h)"
  shows "stays_own u h (hooks_user c f h)"
  using assms by (simp add: hooks_user_def stays_own_def)

lemma on_webhook_own:
  assumes "GetUserID c = u" and "\<And>i. stays_own u h (f u i h)"
  shows "stays_own u h (on_webhook c f h)"
  using assms by (simp add: on_webhook_def hooks_user_def stays_own_def)

text \<open>A call that starts by looking up a webhook of the user's own.\<close>

lemma own_call:
  assumes "\<And>r. fst (hook_view i h) = Some r \<Longrightarrow> wr_user_id r = u \<Longrightarrow> wr_id r = i \<Longrightarrow> r \<in> set (hk_webhooks h) \<Longrightarrow> i \<noteq> [] \<Longrightarrow>
      stays_own u h (hk_reply (g (toWebhook r)) f h)"
  shows "stays_own u h (hk_reply (hk_andThen (GetWebhookForUser i u) g) f h)"
proof (cases rule: GetWebhookForUser_cases [of i u h])
  case (found r)
  with assms show ?thesis
    by (simp add: hk_reply_def hk_andThen_def)
next
  case (missing e)
  then show ?thesis
    by (simp add: hk_reply_def hk_andThen_def stays_own_def)
qed

lemma own_get: "stays_own u h (hk_reply (GetWebhookForUser i u) (\<lambda>w. OK (WebhookData (json_webhook w))) h)"
  by (cases rule: GetWebhookForUser_cases [of i u h]) (simp_all add: hk_reply_def stays_own_def json_webhook_def toWebhook_def)

lemma own_update:
  "stays_own u h (hk_reply (UpdateWebhookForUser svc now i u input) (\<lambda>w. OK (WebhookData (json_webhook w))) h)"
  unfolding UpdateWebhookForUser_def
proof (rule own_call)
  fix r
  assume r: "fst (hook_view i h) = Some r" "wr_user_id r = u" "wr_id r = i"
  let ?w = "WebhookUpdateInput_Apply now input (toWebhook r)"
  have own: "hook_owner h i = Some u"
    by (simp add: hook_owner_def r)
  have kept: "others_hooks_kept u h (snd (wh_Update now ?w h))"
    using own_update_kept [OF own, of "\<lambda>x. (row_of_webhook ?w)\<lparr>wr_id := wr_id x, wr_created_at := wr_created_at x, wr_updated_at := now\<rparr>"] r(3)
    by (simp add: wh_Update_def wh_Exists_def hk_stmt_def toWebhook_def)
  have "stays_own u h (hk_reply (checked_update now u input (toWebhook r)) (\<lambda>w. OK (WebhookData (json_webhook w))) h)"
    by (cases rule: checked_update_cases [of now u input "toWebhook r" h])
      (simp_all add: hk_reply_def stays_own_def kept json_webhook_def, simp add: toWebhook_def r(2))
  then show "stays_own u h (hk_reply (let errs = WebhookUpdateInput_Validate (ws_parse svc) input
      in if errs \<noteq> [] then hk_fail (ValidationErrs errs) else checked_update now u input (toWebhook r))
      (\<lambda>w. OK (WebhookData (json_webhook w))) h)"
    by (simp add: Let_def hk_reply_def stays_own_def)
qed

lemma own_delete: "stays_own u h (hk_reply (DeleteWebhookForUser i u) (\<lambda>_. NoContent) h)"
  unfolding DeleteWebhookForUser_def
proof (rule own_call)
  fix r
  assume "fst (hook_view i h) = Some r" "wr_user_id r = u"
  then have "others_hooks_kept u h (snd (delete_webhooks ''failed to delete webhook'' (\<lambda>r. wr_id r = i) h))"
    by (intro own_delete_kept) (simp add: hook_owner_def)
  moreover have "snd (wh_Delete i h) = snd (delete_webhooks ''failed to delete webhook'' (\<lambda>r. wr_id r = i) h)"
    by (simp add: wh_Delete_def snd_hk_andThen split: prod.split sum.split)
  ultimately have "others_hooks_kept u h (snd (wh_Delete i h))"
    by simp
  then show "stays_own u h (hk_reply (DeleteWebhook i) (\<lambda>_. NoContent) h)"
    by (auto simp: DeleteWebhook_def hk_require_def hk_wrap_def hk_reply_def stays_own_def split: prod.split sum.split)
qed

lemma own_status:
  assumes "m = hk_require op msg i (hk_wrap op msg' (wh_UpdateStatus now i status))"
  shows "stays_own u h (hk_reply (hk_andThen (GetWebhookForUser i u) (\<lambda>_. hk_andThen m (\<lambda>_. GetWebhook i)))
    (\<lambda>w. OK (WebhookData (json_webhook w))) h)"
proof (rule own_call)
  fix r
  assume r: "fst (hook_view i h) = Some r" "wr_user_id r = u" "i \<noteq> []"
  let ?h = "snd (wh_UpdateStatus now i status h)"
  note effect = set_status_effect [of h i u now status]
  then obtain r' where r': "fst (hook_view i ?h) = Some r'" "wr_user_id r' = u" and kept: "others_hooks_kept u h ?h"
    using r by (auto simp: hook_owner_def)
  show "stays_own u h (hk_reply (hk_andThen m (\<lambda>_. GetWebhook i)) (\<lambda>w. OK (WebhookData (json_webhook w))) h)"
    using kept GetWebhook_row [OF r'(1) r(3)] r'(2) r(3) assms
    by (auto simp: hk_reply_def hk_andThen_def hk_require_def ID_IsEmpty_def hk_wrap_def stays_own_def json_webhook_def toWebhook_def
        split: prod.splits sum.splits)
qed

lemma own_deliveries:
  "stays_own u h (hk_reply (hk_andThen (GetWebhookForUser i u) (\<lambda>_. svc_ListDeliveries i (Some opts)))
     (\<lambda>res. OK (DeliveryPage (Paginated (lr_Items res) page sz (lr_Total res)))) h)"
proof (rule own_call)
  fix r
  assume r: "fst (hook_view i h) = Some r" "wr_user_id r = u" "i \<noteq> []"
  let ?rows = "limit_offset (page_of (Some opts)) (newest_deliveries (\<lambda>r. dr_webhook_id r = i) h)"
  have "\<forall>x \<in> set ?rows. dr_webhook_id x = i"
    by (rule ballI, drule subsetD [OF set_limit_offset]) (simp add: newest_deliveries_def)
  then have "list_all (\<lambda>d. hook_owner h (wd_WebhookID d) = Some u) (map toWebhookDelivery ?rows)"
    using r by (simp add: list_all_iff toWebhookDelivery_def hook_owner_def)
  then show "stays_own u h (hk_reply (svc_ListDeliveries i (Some opts))
      (\<lambda>res. OK (DeliveryPage (Paginated (lr_Items res) page sz (lr_Total res)))) h)"
    using r(3) by (simp add: hk_reply_def svc_ListDeliveries_def hk_require_def ID_IsEmpty_def hk_wrap_def ListDeliveries_def
        list_deliveries_def stays_own_def Paginated_def list_result_items Let_def)
qed

lemma own_stats:
  "stays_own u h (hk_reply (hk_andThen (GetWebhookForUser i u) (\<lambda>_. svc_GetDeliveryStats i)) (\<lambda>stats. OK (StatsData stats)) h)"
  by (rule own_call) (simp add: hk_reply_def svc_GetDeliveryStats_def hk_require_def ID_IsEmpty_def hk_wrap_def
      repo_GetDeliveryStats_def stays_own_def)

lemma own_list:
  assumes "whf_UserID flt = Some u"
  shows "stays_own u h (hk_reply (ListWebhooks (Some flt) (Some opts))
    (\<lambda>res. OK (WebhookPage (Paginated (map json_webhook (lr_Items res)) page sz (lr_Total res)))) h)"
proof -
  let ?rows = "limit_offset (page_of (Some opts)) (sort_rows wh_sort_key ''createdAt'' (Some opts)
      (filter (wh_where (Some flt)) (hk_webhooks h)))"
  have "\<forall>x \<in> set ?rows. wr_user_id x = u"
    by (rule ballI, drule subsetD [OF set_limit_offset]) (simp add: wh_where_def when_some_def assms)
  then have "list_all (\<lambda>w. wh_UserID w = u \<and> wh_Secret w = []) (map json_webhook (map toWebhook ?rows))"
    by (simp add: list_all_iff toWebhook_def json_webhook_def)
  then show ?thesis
    by (simp add: hk_reply_def ListWebhooks_def hk_wrap_def wh_List_def stays_own_def Paginated_def list_result_items Let_def)
qed

lemma recorded_webhook [simp]:
  "wd_WebhookID (RecordResult statusCode response err ms d) = wd_WebhookID d"
  "wd_WebhookID (NewWebhookDelivery now i webhookID event payload n) = webhookID"
  by (simp_all add: RecordResult_def NewWebhookDelivery_def Let_def split: option.split)

lemma TestWebhook_reads:
  "\<exists>a. TestWebhook svc send ms k now i h = (a, h) \<and> (\<forall>d. a = Answer (Inr d) \<longrightarrow> wd_WebhookID d = i)"
proof (cases "find (\<lambda>r. wr_id r = i) (hk_webhooks h)")
  case None
  then show ?thesis
    by (simp add: TestWebhook_def wh_GetByID_def)
next
  case (Some r)
  then have "wr_id r = i"
    by (auto simp: find_Some_iff)
  then have "wh_ID (toWebhook r) = i"
    by (simp add: toWebhook_def)
  moreover have "wh_GetByID i h = (Inr (toWebhook r), h)"
    by (simp add: wh_GetByID_def Some)
  ultimately show ?thesis
    by (simp add: TestWebhook_def Let_def split: option.split sum.split prod.split)
qed

lemma own_test:
  "stays_own u h (call_reply (TestWebhookForUser svc send ms k now i u) (\<lambda>d. OK (DeliveryData d)) h)"
proof (cases rule: GetWebhookForUser_cases [of i u h])
  case (found r)
  obtain a where "TestWebhook svc send ms k now i h = (a, h)" "\<And>d. a = Answer (Inr d) \<Longrightarrow> wd_WebhookID d = i"
    using TestWebhook_reads [of svc send ms k now i h] by blast
  with found show ?thesis
    by (auto simp: call_reply_def TestWebhookForUser_def stays_own_def hook_owner_def split: hook_answer.split sum.split)
next
  case (missing e)
  then show ?thesis
    by (simp add: call_reply_def TestWebhookForUser_def stays_own_def)
qed

lemma own_create:
  "stays_own u h (call_reply (CreateWebhook svc k now u input) (\<lambda>w. Created (WebhookData (json_webhook w))) h)"
proof -
  let ?w = "\<lambda>i. input_webhook now i u (WebhookCreateInput_Normalize input)"
  have user: "wh_UserID (?w i) = u" for i
    by (simp add: input_webhook_def Let_def NewWebhook_def set_opt_def split: option.split)
  have kept: "others_hooks_kept u h (h\<lparr>hk_webhooks := hk_webhooks h @ [x]\<rparr>)" for x
    by (auto simp: others_hooks_kept_def hook_owner_def hook_view_def find_append)
  show ?thesis
    by (auto simp: call_reply_def CreateWebhook_def ExistsByURL_def answers_def Let_def hk_andThen_def hk_wrap_def wh_Create_def hk_stmt_def
        stays_own_def kept user json_webhook_def split: option.split)
qed

lemma routes_own:
  assumes "GetUserID c = u"
  shows "stays_own u h (hooks_routes svc k now rt c h)"
proof (cases rt)
  case (RCreateWebhook input)
  then show ?thesis
    using own_create by (auto simp: wh_CreateWebhook_def intro!: hooks_user_own [OF assms] split: option.split)
next
  case (RUpdateWebhook input)
  then show ?thesis
    using own_update by (auto simp: wh_UpdateWebhook_def intro!: on_webhook_own [OF assms] split: option.split)
next
  case RListWebhooks
  then show ?thesis
    unfolding hooks_routes.simps RListWebhooks wh_ListWebhooks_def Let_def by (intro hooks_user_own [OF assms] own_list) simp
qed (auto simp: wh_GetWebhook_def wh_DeleteWebhook_def wh_TestWebhook_def wh_ActivateWebhook_def wh_DeactivateWebhook_def
      wh_ListDeliveries_def wh_GetDeliveryStats_def ActivateWebhook_def DeactivateWebhook_def wh_Activate_def wh_Deactivate_def
      intro!: on_webhook_own [OF assms] own_get own_delete own_test own_status [OF refl] own_deliveries own_stats)

lemma GetUserID_with_claims [simp]: "GetUserID (with_claims claims c) = tc_UserID claims"
  by (simp add: GetUserID_def with_claims_def or_empty_def)

lemma Recovery_own: "stays_own u h res \<Longrightarrow> stays_own u h (Some (fst (Recovery res)), snd (Recovery res))"
  by (auto simp: Recovery_def stays_own_def own_reply_def split: prod.split option.split)

lemma serve_webhooks_cases:
  assumes "serve_webhooks auth svc k now rt c st h = (reply, st', h')"
  obtains (accepted) scheme tok claims where "split_space (cx_authorization c) = Some (scheme, tok)"
      "fst (ValidateAccessToken auth now tok st) = Inr claims" "stays_own (tc_UserID claims) h (Some reply, h')"
  | (refused) msg where "reply = unauthorizedError msg" "h' = h"
proof (cases rule: Auth_cases [of c auth now st "mw_Auth auth now (\<lambda>c st. (OK c, st))"])
  case (refused msg)
  then show ?thesis
    using assms that(2) by (auto simp: serve_webhooks_def unauthorizedError_def)
next
  case (accepted scheme tok claims)
  let ?st = "snd (ValidateAccessToken auth now tok st)" and ?c = "with_claims claims c"
  show ?thesis
  proof (cases rule: Auth_cases [of ?c auth now ?st "\<lambda>c st. (OK c, st)"])
    case (refused msg)
    then show ?thesis
      using assms accepted(3) that(2) by (auto simp: serve_webhooks_def unauthorizedError_def)
  next
    case inner: (accepted scheme' tok' claims')
    have "tok' = tok" using inner(1) accepted(1) by simp
    then have "claims' = claims"
      using ValidateAccessToken_claims [OF inner(2)] ValidateAccessToken_claims [OF accepted(2)] by simp
    then have "(reply, h') = Recovery (hooks_routes svc k now rt (with_claims claims ?c) h)"
      using assms accepted(3) inner(3) by (auto simp: serve_webhooks_def OK_def split: prod.splits)
    then have "stays_own (tc_UserID claims) h (Some reply, h')"
      using Recovery_own [OF routes_own [of "with_claims claims ?c" "tc_UserID claims" h svc k now rt]]
      by (metis GetUserID_with_claims fst_conv snd_conv)
    with accepted(1,2) show ?thesis
      by (rule that(1))
  qed
qed


section \<open>Stored webhooks are valid\<close>

definition hooks_valid :: "url_parser \<Rightarrow> hooks \<Rightarrow> bool" where
  "hooks_valid parse h \<longleftrightarrow> list_all (\<lambda>r. Webhook_Validate parse (toWebhook r) = []) (hk_webhooks h)"

text \<open>The states the tables pass through, from empty ones, by requests and events.\<close>

inductive hooks_reachable :: "WebhookService \<Rightarrow> hooks \<Rightarrow> bool" for svc where
  start: "hk_webhooks h = [] \<Longrightarrow> hk_deliveries h = [] \<Longrightarrow> hooks_reachable svc h"
| request: "hooks_reachable svc h \<Longrightarrow> hooks_routes svc k now rt c h = (reply, h') \<Longrightarrow> hooks_reachable svc h'"
| event: "hooks_reachable svc h \<Longrightarrow> TriggerEvent svc envs sched k now e data h = (res, h') \<Longrightarrow> hooks_reachable svc h'"

lemma input_errors:
  "name_errors msg x = [] \<longleftrightarrow> x \<noteq> [] \<and> length x \<le> 100"
  "url_errors parse msg x = [] \<longleftrightarrow> x \<noteq> [] \<and> isValidWebhookURL parse x"
  "retry_errors n = [] \<longleftrightarrow> 0 \<le> n \<and> n \<le> 10"
  "timeout_errors n = [] \<longleftrightarrow> 1 \<le> n \<and> n \<le> 60"
  "errs_Add b f m = [] \<longleftrightarrow> \<not> b"
  by (auto simp: name_errors_def url_errors_def retry_errors_def timeout_errors_def errs_Add_def)

lemmas validate_simps = Webhook_Validate_def WebhookCreateInput_Validate_def WebhookUpdateInput_Validate_def input_errors errors_of_def

lemma created_valid:
  assumes "WebhookCreateInput_Validate parse (WebhookCreateInput_Normalize input) = []" and "i \<noteq> []" and "u \<noteq> []"
  shows "Webhook_Validate parse (input_webhook now i u (WebhookCreateInput_Normalize input)) = []"
  using assms
  by (auto simp: validate_simps WebhookCreateInput_Normalize_def input_webhook_def NewWebhook_def Let_def set_opt_def ID_IsEmpty_def
      WebhookStatus_IsValid_def split: option.splits)

lemma set_opt_keeps: "V w \<Longrightarrow> (\<And>v w. x = Some v \<Longrightarrow> V w \<Longrightarrow> V (f v w)) \<Longrightarrow> V (set_opt x f w)"
  by (cases x) (simp_all add: set_opt_def)

lemma updated_valid:
  assumes "WebhookUpdateInput_Validate parse input = []" and "Webhook_Validate parse w = []"
  shows "Webhook_Validate parse (WebhookUpdateInput_Apply now input w) = []"
proof -
  have stamp: "Webhook_Validate parse (x\<lparr>wh_UpdatedAt := now\<rparr>) = Webhook_Validate parse x" for x
    by (simp add: Webhook_Validate_def)
  show ?thesis
    unfolding WebhookUpdateInput_Apply_def Let_def stamp
    by (intro set_opt_keeps [where V = "\<lambda>w. Webhook_Validate parse w = []"] assms(2))
      (use assms(1) in \<open>simp_all add: validate_simps\<close>)
qed

lemma update_webhook_valid:
  assumes "hooks_valid parse h" and "\<And>r. Webhook_Validate parse (toWebhook r) = [] \<Longrightarrow> Webhook_Validate parse (toWebhook (f r)) = []"
  shows "hooks_valid parse (snd (update_webhook msg f i h))"
  using assms by (auto simp: update_webhook_state Let_def hooks_valid_def update_where_def list_all_iff)

lemma exec_stmt_valid:
  assumes "hooks_valid parse h"
  shows "hooks_valid parse (exec_stmt s h)"
proof (cases s)
  case (SaveDelivery d)
  then show ?thesis
    using assms by (simp add: CreateDelivery_def hk_stmt_def hooks_valid_def)
next
  case (CountSuccess now i)
  then show ?thesis
    using assms by (auto simp: wh_RecordSuccess_def intro!: update_webhook_valid)
      (simp add: Webhook_Validate_def toWebhook_def success_row_def)
next
  case (CountFailure now i e)
  then show ?thesis
    using assms by (auto simp: wh_RecordFailure_def intro!: update_webhook_valid)
      (simp add: Webhook_Validate_def toWebhook_def failure_row_def)
qed

lemma fold_exec_valid: "hooks_valid parse h \<Longrightarrow> hooks_valid parse (fold exec_stmt ss h)"
  by (induction ss arbitrary: h) (simp_all add: exec_stmt_valid)

text \<open>Every statement leaves the keys in order.\<close>

lemma hk_stmt_ok: "hooks_ok h \<Longrightarrow> hooks_ok (snd (hk_stmt msg f n h))"
  by (simp add: hk_stmt_def)

lemma update_webhook_ok: "hooks_ok h \<Longrightarrow> hooks_ok (snd (update_webhook msg f i h))"
  by (simp add: update_webhook_state Let_def)

lemma exec_stmt_ok: "hooks_ok h \<Longrightarrow> hooks_ok (exec_stmt s h)"
  by (cases s) (simp_all add: wh_RecordSuccess_def wh_RecordFailure_def CreateDelivery_def update_webhook_ok hk_stmt_ok)

lemma fold_exec_ok: "hooks_ok h \<Longrightarrow> hooks_ok (fold exec_stmt ss h)"
  by (induction ss arbitrary: h) (simp_all add: exec_stmt_ok)

lemma TriggerEvent_state:
  "\<exists>ss. snd (TriggerEvent svc envs sched k now e data h) = fold exec_stmt ss h"
  by (auto simp: TriggerEvent_def ListActiveByEvent_rows Let_def intro: exI [of _ "[]"] split: option.split)

text \<open>What a request can do to the tables: an invariant of these four operations is one of the API.\<close>

lemma snd_hk_reply [simp]: "snd (hk_reply m f h) = snd (m h)"
  by (simp add: hk_reply_def split: prod.split sum.split)

lemma snd_call_reply [simp]: "snd (call_reply m f h) = snd (m h)"
  by (simp add: call_reply_def split: prod.split hook_answer.split sum.split)

lemma snd_hooks_user: "snd (hooks_user c f h) = h \<or> (GetUserID c \<noteq> [] \<and> snd (hooks_user c f h) = snd (f (GetUserID c) h))"
  by (simp add: hooks_user_def ID_IsEmpty_def)

lemma snd_on_webhook: "snd (on_webhook c f h) = h \<or> snd (on_webhook c f h) = snd (f (GetUserID c) (cx_param c ''id'') h)"
  by (simp add: on_webhook_def hooks_user_def)

lemma snd_GetWebhookForUser [simp]: "snd (GetWebhookForUser i u h) = h"
  by (cases rule: GetWebhookForUser_cases [of i u h]) simp_all

lemma snd_GetWebhook [simp]: "snd (GetWebhook i h) = h"
  by (simp add: GetWebhook_def hk_require_def wh_GetByID_def split: option.split)

lemma after_get:
  "snd (hk_andThen (GetWebhookForUser i u) g h) = h \<or>
   (\<exists>r \<in> set (hk_webhooks h). snd (hk_andThen (GetWebhookForUser i u) g h) = snd (g (toWebhook r) h))"
  by (cases rule: GetWebhookForUser_cases [of i u h]) (auto simp: hk_andThen_def)

lemma snd_CreateWebhook:
  "snd (CreateWebhook svc k now u input h) = h \<or>
   (\<exists>gen. ws_idGenerator svc = Some gen \<and> u \<noteq> [] \<and> WebhookCreateInput_Validate (ws_parse svc) (WebhookCreateInput_Normalize input) = [] \<and>
      snd (CreateWebhook svc k now u input h) = snd (wh_Create (input_webhook now (gen k) u (WebhookCreateInput_Normalize input)) h))"
  by (auto simp: CreateWebhook_def ExistsByURL_def answers_def Let_def hk_andThen_def hk_wrap_def ID_IsEmpty_def split: option.split prod.split sum.split)

lemma snd_status:
  "snd (hk_andThen (hk_require op msg i (hk_wrap op msg' (wh_UpdateStatus now i s))) (\<lambda>_. GetWebhook i) h) \<in>
     {h, snd (wh_UpdateStatus now i s h)}"
  by (simp add: snd_hk_andThen hk_require_def split: prod.split sum.split) (metis snd_conv snd_hk_wrap)

lemma routes_invariant:
  assumes "I h"
    and create: "\<And>gen input u. ws_idGenerator svc = Some gen \<Longrightarrow> u \<noteq> [] \<Longrightarrow>
      WebhookCreateInput_Validate (ws_parse svc) (WebhookCreateInput_Normalize input) = [] \<Longrightarrow>
      I (snd (wh_Create (input_webhook now (gen k) u (WebhookCreateInput_Normalize input)) h))"
    and update: "\<And>r input. r \<in> set (hk_webhooks h) \<Longrightarrow> WebhookUpdateInput_Validate (ws_parse svc) input = [] \<Longrightarrow>
      I (snd (wh_Update now (WebhookUpdateInput_Apply now input (toWebhook r)) h))"
    and status: "\<And>i s. WebhookStatus_IsValid s \<Longrightarrow> I (snd (wh_UpdateStatus now i s h))"
    and delete: "\<And>i. I (snd (wh_Delete i h))"
  shows "I (snd (hooks_routes svc k now rt c h))"
proof -
  have user: "I (snd (hooks_user c f h))" if "GetUserID c \<noteq> [] \<Longrightarrow> I (snd (f (GetUserID c) h))" for f
    using snd_hooks_user [of c f h] that assms(1) by (metis (full_types))
  have hook: "I (snd (on_webhook c f h))" if "\<And>u i. I (snd (f u i h))" for f
    using snd_on_webhook [of c f h] that assms(1) by (metis (full_types))
  have got: "I (snd (hk_andThen (GetWebhookForUser i u) g h))" if "\<And>r. r \<in> set (hk_webhooks h) \<Longrightarrow> I (snd (g (toWebhook r) h))" for i u g
    using after_get [of i u g h] that assms(1) by (metis (full_types))
  have new: "I (snd (CreateWebhook svc k now u input h))" for u input
    using snd_CreateWebhook [of svc k now u input h] create assms(1) by (metis (full_types))
  have checked: "I (snd (checked_update now u input (toWebhook r) h))"
    if "r \<in> set (hk_webhooks h)" "WebhookUpdateInput_Validate (ws_parse svc) input = []" for u input r
    by (cases rule: checked_update_cases [of now u input "toWebhook r" h]) (simp_all add: assms(1) update that)
  have st: "I (snd (hk_andThen (hk_require op msg i (hk_wrap op msg' (wh_UpdateStatus now i s))) (\<lambda>_. GetWebhook i) h))"
    if "WebhookStatus_IsValid s" for op msg i msg' s
    using snd_status [of op msg i msg' now s h] status [OF that, of i] assms(1) by auto
  have valid: "WebhookStatus_IsValid WebhookStatusActive" "WebhookStatus_IsValid WebhookStatusInactive"
    by (simp_all add: WebhookStatus_IsValid_def)
  have test: "snd (TestWebhookForUser svc send ms k now i u h) = h" for send ms i u
    using TestWebhook_reads [of svc send ms k now i h]
    by (cases rule: GetWebhookForUser_cases [of i u h]) (auto simp: TestWebhookForUser_def)
  have list: "snd (ListWebhooks flt opts h) = h" for flt opts
    by (simp add: ListWebhooks_def wh_List_def)
  have reads: "snd (svc_ListDeliveries i opts h) = h" "snd (svc_GetDeliveryStats i h) = h" for i opts
    by (simp_all add: svc_ListDeliveries_def svc_GetDeliveryStats_def hk_require_def ListDeliveries_def list_deliveries_def repo_GetDeliveryStats_def)
  have del: "I (snd (DeleteWebhook i h))" for i
    by (simp add: DeleteWebhook_def hk_require_def assms(1) delete)
  show ?thesis
    by (cases rt)
      (auto simp: wh_CreateWebhook_def wh_ListWebhooks_def wh_GetWebhook_def wh_UpdateWebhook_def wh_DeleteWebhook_def wh_TestWebhook_def
        wh_ActivateWebhook_def wh_DeactivateWebhook_def wh_ListDeliveries_def wh_GetDeliveryStats_def Let_def UpdateWebhookForUser_def
        DeleteWebhookForUser_def ActivateWebhook_def DeactivateWebhook_def wh_Activate_def wh_Deactivate_def assms(1) test list reads
        intro!: user hook got new checked st valid del split: option.split)
qed

definition good_hooks :: "url_parser \<Rightarrow> hooks \<Rightarrow> bool" where
  "good_hooks parse h \<longleftrightarrow> hooks_ok h \<and> hooks_valid parse h"

lemma good_stmt:
  assumes "good_hooks parse h" and "hooks_valid parse (f h)"
  shows "good_hooks parse (snd (hk_stmt msg f n h))"
  using assms by (simp add: good_hooks_def hk_stmt_def)

lemma good_routes:
  assumes good: "good_hooks (ws_parse svc) h" and gen: "\<forall>gen k. ws_idGenerator svc = Some gen \<longrightarrow> gen k \<noteq> []"
  shows "good_hooks (ws_parse svc) (snd (hooks_routes svc k now rt c h))"
proof (rule routes_invariant [where I = "good_hooks (ws_parse svc)", OF good])
  fix g input and u :: ID
  assume "ws_idGenerator svc = Some g" "u \<noteq> []" "WebhookCreateInput_Validate (ws_parse svc) (WebhookCreateInput_Normalize input) = []"
  with gen have "Webhook_Validate (ws_parse svc) (input_webhook now (g k) u (WebhookCreateInput_Normalize input)) = []"
    by (intro created_valid) auto
  with good show "good_hooks (ws_parse svc) (snd (wh_Create (input_webhook now (g k) u (WebhookCreateInput_Normalize input)) h))"
    by (auto simp: wh_Create_def ExistsByURL_def intro!: good_stmt) (simp add: good_hooks_def hooks_valid_def)
next
  fix r input
  assume r: "r \<in> set (hk_webhooks h)" and input: "WebhookUpdateInput_Validate (ws_parse svc) input = []"
  let ?w = "WebhookUpdateInput_Apply now input (toWebhook r)"
  have w: "Webhook_Validate (ws_parse svc) ?w = []"
    using r good by (intro updated_valid [OF input]) (auto simp: good_hooks_def hooks_valid_def list_all_iff)
  have "Webhook_Validate (ws_parse svc) (toWebhook ((row_of_webhook ?w)\<lparr>wr_id := wh_ID ?w, wr_created_at := t, wr_updated_at := now\<rparr>)) =
      Webhook_Validate (ws_parse svc) (toWebhook (row_of_webhook ?w))" for t
    by (simp only: Webhook_Validate_def) (simp add: toWebhook_def row_of_webhook_def)
  with w have "hooks_valid (ws_parse svc) (h\<lparr>hk_webhooks := update_where (\<lambda>r. wr_id r = wh_ID ?w)
      (\<lambda>r. (row_of_webhook ?w)\<lparr>wr_id := wr_id r, wr_created_at := wr_created_at r, wr_updated_at := now\<rparr>) (hk_webhooks h)\<rparr>)"
    using good by (auto simp: good_hooks_def hooks_valid_def update_where_def list_all_iff)
  with good show "good_hooks (ws_parse svc) (snd (wh_Update now ?w h))"
    by (auto simp: wh_Update_def wh_Exists_def intro: good_stmt)
next
  fix i s
  assume "WebhookStatus_IsValid s"
  then have "hooks_valid (ws_parse svc) (snd (wh_UpdateStatus now i s h))"
    using good unfolding wh_UpdateStatus_def
    by (intro update_webhook_valid) (auto simp: good_hooks_def Webhook_Validate_def toWebhook_def)
  then show "good_hooks (ws_parse svc) (snd (wh_UpdateStatus now i s h))"
    using good by (simp add: good_hooks_def wh_UpdateStatus_def update_webhook_ok)
next
  fix i
  have "snd (wh_Delete i h) = snd (delete_webhooks ''failed to delete webhook'' (\<lambda>r. wr_id r = i) h)"
    by (simp add: wh_Delete_def snd_hk_andThen split: prod.split sum.split)
  with good show "good_hooks (ws_parse svc) (snd (wh_Delete i h))"
    by (auto simp: delete_webhooks_def intro!: good_stmt) (auto simp: good_hooks_def hooks_valid_def Let_def list_all_iff)
qed

lemma event_errors_valid: "event_errors es = [] \<Longrightarrow> list_all WebhookEvent_IsValid es"
proof -
  have "list_all WebhookEvent_IsValid es"
    if "concat (map (\<lambda>(i, event). errs_Add (\<not> WebhookEvent_IsValid event) ''events'' (g i)) (enumerate n es)) = []" for n g
    using that by (induction es arbitrary: n) (auto simp: input_errors)
  then show "event_errors es = [] \<Longrightarrow> list_all WebhookEvent_IsValid es"
    by (auto simp: event_errors_def split: if_splits)
qed

text \<open>
  C21. Whatever requests and events come, in whatever order, the tables stay consistent (distinct keys, every webhook with its user,
  every delivery with its webhook) and every stored webhook passes the domain's validation, its events included, so that the
  \<^verbatim>\<open>LIKE\<close> search for subscribers is exact; this needs of the ID generator only that it gives no empty ID.
\<close>

theorem reachable_webhooks_valid:
  assumes "hooks_reachable svc h" and "\<forall>gen k. ws_idGenerator svc = Some gen \<longrightarrow> gen k \<noteq> []"
  shows "hooks_ok h \<and> hooks_valid (ws_parse svc) h \<and> events_valid h"
proof -
  from assms(1) have "good_hooks (ws_parse svc) h"
  proof induction
    case (start h)
    then show ?case
      by (simp add: good_hooks_def hooks_ok_def hooks_valid_def)
  next
    case (request h k now rt c reply h')
    then show ?case
      using good_routes [OF _ assms(2), of h k now rt c] by simp
  next
    case (event h envs sched k now e data res h')
    then show ?case
      using TriggerEvent_state [of svc envs sched k now e data h]
      by (auto simp: good_hooks_def fold_exec_ok fold_exec_valid)
  qed
  moreover have "events_valid h" if "hooks_valid (ws_parse svc) h"
    using that by (auto simp: hooks_valid_def events_valid_def list_all_iff Webhook_Validate_def toWebhook_def
        dest!: event_errors_valid)
  ultimately show ?thesis
    by (simp add: good_hooks_def)
qed

section \<open>The server as it is wired\<close>

lemma no_generator_empty:
  assumes "hooks_reachable svc h" and "ws_idGenerator svc = None"
  shows "hk_webhooks h = []"
  using assms(1)
proof induction
  case (request h k now rt c reply h')
  have "hk_webhooks (snd (hooks_routes svc k now rt c h)) = []"
    using request.IH assms(2)
    by (intro routes_invariant [where I = "\<lambda>h. hk_webhooks h = []"])
      (simp_all add: wh_UpdateStatus_def update_webhook_state Let_def update_where_def wh_Delete_def snd_hk_andThen delete_webhooks_def hk_stmt_def)
  then show ?case
    using request.hyps by simp
next
  case (event h envs sched k now e data res h')
  then show ?case
    by (auto simp: TriggerEvent_def ListActiveByEvent_rows order_by_def)
qed

text \<open>
  C40. \<^verbatim>\<open>cmd_serve.go\<close> gives the webhook service no ID generator. Then no webhook is ever stored: every well-formed request to
  create one by a logged-in user panics and is answered by a 500, and every event goes nowhere.
\<close>

theorem wired_server_has_no_webhooks:
  assumes "hooks_reachable svc h" and "ws_idGenerator svc = None"
  shows "hk_webhooks h = [] \<and> TriggerEvent svc envs sched k now e data h = (Answer (Inr ()), h) \<and>
    (GetUserID c \<noteq> [] \<and> WebhookCreateInput_Validate (ws_parse svc) (WebhookCreateInput_Normalize input) = [] \<longrightarrow>
     Recovery (hooks_routes svc k now (RCreateWebhook (Some input)) c h) =
       (Failure 500 ''INTERNAL_SERVER_ERROR'' ''An unexpected error occurred'' None, h))"
  using no_generator_empty [OF assms]
  by (auto simp: TriggerEvent_def ListActiveByEvent_rows order_by_def wh_CreateWebhook_def hooks_user_def ID_IsEmpty_def call_reply_def
      CreateWebhook_def Let_def ExistsByURL_def assms(2) Recovery_def)

text \<open>
  Where a database brings webhooks along, an event kills the goroutine that triggers it, and with it the process: nothing
  recovers the panic there.
\<close>

theorem event_panics_without_generator:
  assumes "ws_idGenerator svc = None" and "ListActiveByEvent e h = (Inr (w # ws), h)"
  shows "TriggerEvent svc envs sched k now e data h = (Panic, h)"
  using assms by (simp add: TriggerEvent_def)

section \<open>Examples\<close>


definition no_hooks :: hooks where
  "no_hooks = \<lparr>hk_users = [''u1'', ''u2''], hk_webhooks = [], hk_deliveries = []\<rparr>"

definition sample_hook_input :: WebhookCreateInput where
  "sample_hook_input =
     \<lparr>wci_Name = ''mine'', wci_URL = ''https://a/ '', wci_Secret = [], wci_Events = [WebhookEventMessageReceived], wci_Headers = None,
      wci_MaxRetries = Some 5, wci_TimeoutSeconds = None\<rparr>"

definition sample_hook_svc :: WebhookService where
  "sample_hook_svc = sample_hook_service\<lparr>ws_idGenerator := Some (\<lambda>k. CHR ''w'' # replicate k CHR ''i'')\<rparr>"

definition vic_context :: echo_context where
  "vic_context = with_claims vic_claims (request ''AV'' [])"

theorem reachable_webhooks_valid_witness:
  "\<exists>h. length (hk_webhooks h) = 1 \<and> hooks_ok h \<and> hooks_valid (ws_parse sample_hook_svc) h \<and> events_valid h"
proof -
  let ?h = "snd (hooks_routes sample_hook_svc 1 7 (RCreateWebhook (Some sample_hook_input)) vic_context no_hooks)"
  have "hooks_reachable sample_hook_svc no_hooks"
    by (rule start) (simp_all add: no_hooks_def)
  then have "hooks_reachable sample_hook_svc ?h"
    by (rule request) (rule prod.collapse [symmetric])
  moreover have "length (hk_webhooks ?h) = 1"
    by code_simp
  moreover have "\<forall>gen k. ws_idGenerator sample_hook_svc = Some gen \<longrightarrow> gen k \<noteq> []"
    by (simp add: sample_hook_svc_def)
  ultimately show ?thesis
    using reachable_webhooks_valid [of sample_hook_svc ?h] by blast
qed

theorem wired_server_has_no_webhooks_witness:
  "Recovery (hooks_routes (sample_hook_service\<lparr>ws_idGenerator := None\<rparr>) 1 7 (RCreateWebhook (Some sample_hook_input)) vic_context no_hooks) =
     (Failure 500 ''INTERNAL_SERVER_ERROR'' ''An unexpected error occurred'' None, no_hooks)"
proof -
  let ?svc = "sample_hook_service\<lparr>ws_idGenerator := None\<rparr>"
  have "hooks_reachable ?svc no_hooks" and "ws_idGenerator ?svc = None"
    by (rule start) (simp_all add: no_hooks_def)
  moreover have "GetUserID vic_context \<noteq> []" "WebhookCreateInput_Validate (ws_parse ?svc) (WebhookCreateInput_Normalize sample_hook_input) = []"
    by code_simp+
  ultimately show ?thesis
    using wired_server_has_no_webhooks [of ?svc no_hooks] by blast
qed

text \<open>The check for a second webhook with a URL looks for the text as it was sent, while the stored one is trimmed.\<close>

definition one_user_hooks :: hooks where
  "one_user_hooks =
     \<lparr>hk_users = [''u1''],
      hk_webhooks = [row_of_webhook (NewWebhook 1 ''w1'' ''u1'' ''a'' ''https://a/'' [WebhookEventMessageReceived]),
                     row_of_webhook (NewWebhook 2 ''w2'' ''u1'' ''b'' ''https://b/'' [WebhookEventMessageReceived])],
      hk_deliveries = []\<rparr>"

theorem update_duplicates_url:
  "map wr_url (hk_webhooks (snd (UpdateWebhookForUser sample_hook_service 5 ''w2'' ''u1''
     \<lparr>wui_Name = None, wui_URL = Some '' https://a/'', wui_Secret = None, wui_Events = None, wui_Status = None, wui_Headers = None,
      wui_MaxRetries = None, wui_TimeoutSeconds = None\<rparr> one_user_hooks))) = [''https://a/'', ''https://a/'']"
  by code_simp

end
