(* ===== verification/Spec2Isabelle.thy ===== *)
theory Spec2Isabelle
  imports Circuit_Breaker Domain_Model Sqlite_Queries Message_Delivery Imap_Access Rest_Webhooks
begin

text \<open>
  A verification development for Yunt, a mail server in Go for development and testing: mail comes in
  over SMTP, is stored through a repository layer, and is read and changed over IMAP, a REST API and
  JMAP. The model follows the path of a message and of a user through the program, over the SQLite
  repository.

  \<^bold>\<open>Parts of the program and the theories that model them.\<close> Definitions carry the names of the Go
  functions; a prefix (\<open>mbx_\<close>, \<open>usr_\<close>, \<open>us_\<close>, \<open>sess_\<close>, \<open>mem_\<close>, \<open>ds_\<close>, \<open>as_\<close>, \<open>ah_\<close>, \<open>mw_\<close>, \<open>wh_\<close>, \<open>hk_\<close>) tells methods
  of the same name apart.

  \<^item> Shared ground: \<open>Yunt_Prelude\<close> (Go strings, times, results, lists, reachable states and the interface
    \<open>invariant_system\<close> of an inductive invariant, which every state machine below interprets).
  \<^item> Domain (\<^verbatim>\<open>internal/domain\<close>): \<open>Domain_Model\<close> has the entities with their validation and in-memory
    operations and the errors with their \<^verbatim>\<open>errors.Is\<close> classification; \<open>Attachments\<close>, \<open>Auth_Sessions\<close> and
    \<open>Webhooks\<close> have those of \<^verbatim>\<open>attachment.go\<close>, \<^verbatim>\<open>token.go\<close> and \<^verbatim>\<open>webhook.go\<close>.
  \<^item> Repository (\<^verbatim>\<open>internal/repository\<close>): \<open>Circuit_Breaker\<close> (\<^verbatim>\<open>circuitbreaker.go\<close>); \<open>Sqlite_Base\<close> (tables, schema
    and statements), \<open>Sqlite_Mailboxes\<close>, \<open>Sqlite_Messages\<close>, \<open>Sqlite_Users\<close>, \<open>Attachments\<close>,
    \<open>Sqlite_Webhooks\<close> and the table of \<open>Auth_Sessions\<close> (one repository file of \<^verbatim>\<open>sqlite/\<close> each);
    \<open>Sqlite_Store\<close>, \<open>Sqlite_Uids\<close> and \<open>Sqlite_Queries\<close>
    hold what the store guarantees.
  \<^item> Services (\<^verbatim>\<open>internal/service\<close>): \<open>Message_Service\<close> with \<open>Message_Access\<close> and \<open>Message_Delivery\<close> (\<^verbatim>\<open>message.go\<close>),
    \<open>Mailbox_Service\<close> with \<open>Mailbox_Rules\<close> (\<^verbatim>\<open>mailbox.go\<close>), \<open>User_Service\<close> (\<^verbatim>\<open>user.go\<close>), \<open>Notify_Service\<close>
    (\<^verbatim>\<open>notify.go\<close>), \<open>Auth_Service\<close> over \<open>Auth_Sessions\<close> (\<^verbatim>\<open>auth.go\<close>), and \<open>Webhook_Service\<close> with
    \<open>Webhook_Dispatch\<close> (\<^verbatim>\<open>webhook.go\<close>).
  \<^item> SMTP server (\<^verbatim>\<open>internal/smtp\<close>): \<open>Smtp_Ratelimit\<close>, \<open>Smtp_Session\<close> (backend, session, SASL) and
    \<open>Smtp_Delivery\<close>; the authenticator is in \<open>User_Service\<close>.
  \<^item> IMAP server (\<^verbatim>\<open>internal/imap\<close>): \<open>Imap_Names\<close>, \<open>Imap_Flags\<close>, \<open>Imap_Store\<close> (STORE, EXPUNGE), \<open>Imap_Copy\<close>
    (COPY, MOVE, APPEND), \<open>Imap_Mailboxes\<close>, \<open>Imap_Fetch\<close>, \<open>Imap_Session\<close> (backend, session commands, IDLE and
    the notification bridge), with the results of \<open>Imap_Sync\<close> and \<open>Imap_Access\<close>.
  \<^item> HTTP API (\<^verbatim>\<open>internal/api\<close>): \<open>Rest_Access\<close> (responses, authentication middleware, role checks),
    \<open>Rest_Users\<close> (the auth and users handlers behind their routes) and \<open>Rest_Webhooks\<close> (the webhooks
    handlers, and the recovery of panics).

  \<^bold>\<open>How code becomes definitions.\<close> A struct is a record, an enumeration a datatype (string-typed
  enumerations stay strings), an error a value of \<open>error\<close>, \<open>auth_error\<close>, \<open>imap_error\<close> or \<open>SMTPError\<close>. A repository
  or service call maps the database to its result and the database it leaves (\<open>dbm\<close>), also when it
  fails; a call inside \<^verbatim>\<open>Transaction\<close> rolls back. Handlers and sessions pass their state along. Go maps
  whose order of iteration matters are lists with the order as an argument. Machine integers keep
  their width where the code can reach its end: UIDs and sequence numbers are \<open>32 word\<close>, partial fetches
  and back-off wrap at 64 bits. Loops are structural recursions, or, as the attempts of a webhook delivery, end
  by a measure; the one recursion whose end is not evident, \<open>matchWildcard\<close>, is a \<^theory_text>\<open>partial_function\<close> shown to
  return. There is no fuel. Goroutines that share the database are lists of statements, interleaved by
  a schedule that is an argument.

  \<^bold>\<open>Parameters.\<close> What lies outside the repository is an argument or a field of a record, with the
  documented behaviour a theorem needs as a named hypothesis: the UUID generator (fresh values), bcrypt
  (\<open>BCrypt\<close>), SHA-256, the JWT library (\<open>JWT\<close>, hypothesis \<open>signs\<close>), the MIME parser, SQLite's full-text index
  (\<open>fts\<close>), the storage backend, number sets and response writers of the IMAP library, decoded request
  bodies, whether the relay host takes a message, and the clock, which a call reads once. For webhooks these are
  \<^verbatim>\<open>json.Marshal\<close>, HMAC, \<^verbatim>\<open>url.Parse\<close> and what endpoint, clock and context do to each attempt (\<open>dispatch_env\<close>).

  \<^bold>\<open>What is shown.\<close>

  \<^item> Store: statements keep the schema; UIDs strictly increase under any sequence of calls; messages,
    recipients and attachments survive the round trip through their rows; counters agree with the
    stored messages after delivery; failing calls change nothing; the mailbox a delivery goes to.
  \<^item> Services: delivery of a parsed message, isolation of users in every single and bulk operation
    (locale \<open>user_scoped\<close>), at most one default mailbox in every reachable database, users and their rights.
  \<^item> SMTP: who can deliver (an invariant of the session), one copy of an accepted message per addressed
    mailbox, invariants of the limiter, and where mail or counts get lost.
  \<^item> IMAP: STORE refines the abstract change of the client's view (\<open>spec_store\<close>), EXPUNGE, COPY and MOVE keep
    the client in step, sections of a message (headers, parts, partial ranges), names and patterns,
    RENAME of a subtree, isolation of users under every command of a session, and the failures of the
    session state machine (a reachable panic, a mark left by EXAMINE, terminated sessions).
  \<^item> Notifications: exactly the open subscribers are called, the counters agree.
  \<^item> Circuit breaker: an invariant under any interleaving of callers, recovery after the timeout, and a
    reachable state that refuses for ever.
  \<^item> Authentication: the contract of a session store (locale \<open>session_store\<close>), met by the map and by the
    table; a login opens a session that works until it expires, a refresh token works once, a logout is
    final under any later calls.
  \<^item> HTTP API: without an administrator's token nobody's standing changes over the users routes; but the
    guard of the owner's routes lets everybody pass, so that any user can take over any account; and a
    role that was taken away counts until the token expires.
  \<^item> Webhooks: the search for subscribers by \<^verbatim>\<open>LIKE\<close> on JSON text finds exactly the subscribers; under every
    interleaving each webhook ends as if its delivery had run alone (locale \<open>independent_statements\<close>);
    attempts, records and counters agree; the API shows and changes only the webhooks of its user; every
    reachable table holds valid webhooks. The events of a message reach the webhooks of all users, and
    the server as it is wired can store no webhook.

  \<^bold>\<open>Not modelled.\<close> The MySQL, PostgreSQL and MongoDB repositories implement the same interface over
  engines with other collation, locking and types; each would need a database model of its own. JMAP,
  IMAP SEARCH, the remaining REST handlers and middleware and the settings, statistics and JMAP tables
  are further clients and tables around the modelled layers. The relay, the
  storage backends, the MIME parser's decoding and the listeners are network or file I/O around library
  calls. Configuration, metrics, logging, migrations and the command line have no state of their own
  that the modelled parts depend on.
\<close>

end
